(* ===== verification/Prelude.thy ===== *)
theory Prelude
  imports Complex_Main "HOL-Library.Word" "HOL-Library.Sublist" "HOL-Library.Multiset"
    "HOL-Library.Char_ord" "HOL-Library.List_Lexorder" "HOL-Library.Monad_Syntax"
begin

text \<open>
  What every component of the development shares: names for the machine types of the C++
  code, the collections of proof hints, and generic lemmas on lists, options and words.

  Conventions used everywhere. A class or struct is a \<^theory_text>\<open>record\<close> of its members; a method
  is a function from the record (and the arguments) to the new record (and the result);
  a reference parameter that the code writes is returned beside the result. C++
  \<^verbatim>\<open>float\<close> and \<^verbatim>\<open>double\<close> are read as exact real numbers (\<open>real\<close>): no rounding and no
  infinities. Where a NaN matters the model says so. Fixed-width integers are words
  wherever their wrap-around can be observed.
\<close>

named_theorems model_defs \<open>definitions of straight-line operations\<close>
named_theorems inv_intros \<open>preservation lemmas of the component invariants\<close>

type_synonym u8 = "8 word"
type_synonym u32 = "32 word"
type_synonym u64 = "64 word"

section \<open>Lists\<close>

lemma take_drop_Cons_nth:
  "i < length xs \<Longrightarrow> drop i xs = xs ! i # drop (Suc i) xs"
  by (rule Cons_nth_drop_Suc [symmetric])

lemma length_filter_mono:
  "(\<And>x. x \<in> set xs \<Longrightarrow> P x \<Longrightarrow> Q x) \<Longrightarrow> length (filter P xs) \<le> length (filter Q xs)"
  by (induction xs) auto

lemma sum_list_mset_eq: "mset xs = mset ys \<Longrightarrow> sum_list xs = sum_list (ys :: nat list)"
  by (metis sum_mset_sum_list)

lemma subseq_map_filter: "subseq (map f (filter P xs)) (map f xs)"
  by (simp add: subseq_map subseq_filter_left)

section \<open>Decimal strings\<close>

text \<open>\<open>std::to_string\<close> on an unsigned value.\<close>

definition digit_char :: "nat \<Rightarrow> char" where
  "digit_char d = char_of (48 + d)"

fun to_string :: "nat \<Rightarrow> string" where
  "to_string n =
     (if n < 10 then [digit_char n] else to_string (n div 10) @ [digit_char (n mod 10)])"

declare to_string.simps [simp del]

definition read_decimal :: "string \<Rightarrow> nat" where
  "read_decimal s = foldl (\<lambda>acc c. 10 * acc + (of_char c - 48)) 0 s"

lemma read_decimal_to_string [simp]: "read_decimal (to_string n) = n"
proof (induction n rule: to_string.induct)
  case (1 n)
  show ?case
  proof (cases "n < 10")
    case True
    then show ?thesis by (subst to_string.simps) (simp add: read_decimal_def digit_char_def)
  next
    case False
    with 1 have IH: "read_decimal (to_string (n div 10)) = n div 10" by simp
    have "of_char (digit_char (n mod 10)) - 48 = n mod 10"
      by (simp add: digit_char_def)
    with False IH show ?thesis
      by (subst to_string.simps) (simp add: read_decimal_def)
  qed
qed

lemma to_string_inject [simp]: "to_string m = to_string n \<longleftrightarrow> m = n"
  by (metis read_decimal_to_string)

section \<open>Ordered maps\<close>

text \<open>
  \<open>std::map\<close> as the list of its entries in the order of iteration: strictly increasing
  keys.
\<close>

fun smap_insert :: "'k::linorder \<Rightarrow> 'v \<Rightarrow> ('k \<times> 'v) list \<Rightarrow> ('k \<times> 'v) list" where
  "smap_insert k v [] = [(k, v)]"
| "smap_insert k v ((k', v') # m) =
     (if k < k' then (k, v) # (k', v') # m
      else if k = k' then (k, v) # m
      else (k', v') # smap_insert k v m)"

definition smap_erase :: "'k \<Rightarrow> ('k \<times> 'v) list \<Rightarrow> ('k \<times> 'v) list" where
  "smap_erase k m = filter (\<lambda>e. fst e \<noteq> k) m"

lemma set_smap_insert_keys: "fst ` set (smap_insert k v m) = insert k (fst ` set m)"
proof (induction k v m rule: smap_insert.induct)
  case (2 k v k' v' m)
  then show ?case by (simp add: insert_commute)
qed simp

lemma smap_insert_sorted:
  "sorted_wrt (<) (map fst m) \<Longrightarrow> sorted_wrt (<) (map fst (smap_insert k v m))"
proof (induction m)
  case Nil
  then show ?case by simp
next
  case (Cons e m)
  obtain k' v' where e: "e = (k', v')" by (cases e)
  have "set (map fst (smap_insert k v m)) = insert k (set (map fst m))"
    using set_smap_insert_keys [of k v m] by simp
  with Cons e show ?case by (auto simp: less_imp_le)
qed

lemma smap_erase_sorted:
  "sorted_wrt (<) (map fst m) \<Longrightarrow> sorted_wrt (<) (map fst (smap_erase k m))"
  by (induction m) (auto simp: smap_erase_def)

lemma map_of_smap_insert:
  "sorted_wrt (<) (map fst m) \<Longrightarrow> map_of (smap_insert k v m) = (map_of m)(k \<mapsto> v)"
proof (induction m)
  case Nil
  then show ?case by simp
next
  case (Cons e m)
  obtain k' v' where e: "e = (k', v')" by (cases e)
  show ?case
  proof (cases "k = k' \<or> k < k'")
    case True
    with e show ?thesis by (auto simp: fun_eq_iff)
  next
    case False
    with Cons e show ?thesis by (auto simp: fun_eq_iff)
  qed
qed

lemma map_of_smap_erase: "map_of (smap_erase k m) = (map_of m)(k := None)"
  by (induction m) (auto simp: smap_erase_def fun_eq_iff)

lemma mset_smap_insert_fresh:
  "k \<notin> fst ` set m \<Longrightarrow> mset (smap_insert k v m) = add_mset (k, v) (mset m)"
  by (induction m) auto

lemma mset_smap_erase:
  "distinct (map fst m) \<Longrightarrow> (k, v) \<in> set m \<Longrightarrow> mset m = add_mset (k, v) (mset (smap_erase k m))"
proof (induction m)
  case Nil
  then show ?case by simp
next
  case (Cons e m)
  obtain k' v' where e: "e = (k', v')" by (cases e)
  show ?case
  proof (cases "k' = k")
    case True
    with Cons.prems e have n: "k \<notin> fst ` set m" by simp
    then have "filter (\<lambda>e. fst e \<noteq> k) m = m" by (intro filter_True) force
    moreover from n Cons.prems(2) True e have "v' = v" by force
    ultimately show ?thesis using True e by (simp add: smap_erase_def)
  next
    case False
    with Cons e have "mset m = add_mset (k, v) (mset (smap_erase k m))" by simp
    with False e show ?thesis by (simp add: smap_erase_def)
  qed
qed

lemma sorted_wrt_less_distinct: "sorted_wrt (<) (xs :: 'a::linorder list) \<Longrightarrow> distinct xs"
  by (induction xs) auto

section \<open>Conversions of C++ numbers\<close>

text \<open>
  A floating value converted to an integer type is truncated towards zero
  (\<open>static_cast<int>\<close> and the implicit conversion alike).
\<close>

definition c_trunc :: "real \<Rightarrow> int" where
  "c_trunc x = (if 0 \<le> x then \<lfloor>x\<rfloor> else \<lceil>x\<rceil>)"

lemma c_trunc_of_int [simp]: "c_trunc (of_int n) = n"
  by (simp add: c_trunc_def)

lemma c_trunc_numeral [simp]: "c_trunc (numeral n) = numeral n"
  by (simp add: c_trunc_def)

lemma c_trunc_zero [simp]: "c_trunc 0 = 0" and c_trunc_one [simp]: "c_trunc 1 = 1"
  by (simp_all add: c_trunc_def)

lemma c_trunc_nonneg: "0 \<le> x \<Longrightarrow> 0 \<le> c_trunc x"
  by (simp add: c_trunc_def)

lemma c_trunc_mono: "x \<le> y \<Longrightarrow> c_trunc x \<le> c_trunc y"
  unfolding c_trunc_def by (smt (verit, best) ceiling_mono floor_mono le_floor_iff ceiling_le_iff of_int_0)

lemma c_trunc_abs_le: "\<bar>real_of_int (c_trunc x)\<bar> \<le> \<bar>x\<bar>"
proof (cases "0 \<le> x")
  case True
  then have "0 \<le> \<lfloor>x\<rfloor>" by simp
  then have "0 \<le> real_of_int \<lfloor>x\<rfloor>" by (simp only: of_int_0_le_iff)
  with True of_int_floor_le [of x] show ?thesis by (simp add: c_trunc_def)
next
  case False
  then have "\<lceil>x\<rceil> \<le> 0" by (simp add: ceiling_le_iff)
  then have "real_of_int \<lceil>x\<rceil> \<le> 0" by (simp only: of_int_le_0_iff)
  with False le_of_int_ceiling [of x] show ?thesis by (simp add: c_trunc_def)
qed

section \<open>Loops that may fail\<close>

fun fold_opt :: "('a \<Rightarrow> 'r \<Rightarrow> 'r option) \<Rightarrow> 'a list \<Rightarrow> 'r \<Rightarrow> 'r option" where
  "fold_opt f [] r = Some r"
| "fold_opt f (x # xs) r = Option.bind (f x r) (fold_opt f xs)"

lemma fold_opt_snoc: "fold_opt f (xs @ [x]) r = Option.bind (fold_opt f xs r) (f x)"
  by (induction xs arbitrary: r) (auto split: bind_splits)

end
