(* ===== verification/Fifo.thy ===== *)
theory Fifo
  imports Prelude
begin

text \<open>
  The contract of a first-in first-out buffer, as the thread pool and the shared queue use
  \<open>std::queue\<close>: what is put (when it is accepted) goes behind everything present, and what
  is taken is the oldest element. The order law over whole runs is proved once, inside the
  locale, and each component gets it from its interpretation.
\<close>

datatype 'a fifo_op = Put 'a | Get

text \<open>
  A run of a buffer over a list of operations: the values accepted, the values delivered,
  and the final state. A refused put and a get that delivers nothing leave no trace.
\<close>

fun fifo_run :: "('a \<Rightarrow> 's \<Rightarrow> 's option) \<Rightarrow> ('s \<Rightarrow> ('a \<times> 's) option) \<Rightarrow> 'a fifo_op list \<Rightarrow> 's
    \<Rightarrow> 'a list \<times> 'a list \<times> 's" where
  "fifo_run put get [] s = ([], [], s)"
| "fifo_run put get (Put x # ops) s =
     (case put x s of
        None \<Rightarrow> fifo_run put get ops s
      | Some s' \<Rightarrow> (case fifo_run put get ops s' of (ins, outs, t) \<Rightarrow> (x # ins, outs, t)))"
| "fifo_run put get (Get # ops) s =
     (case get s of
        None \<Rightarrow> fifo_run put get ops s
      | Some (x, s') \<Rightarrow> (case fifo_run put get ops s' of (ins, outs, t) \<Rightarrow> (ins, x # outs, t)))"

locale fifo_buffer =
  fixes contents :: "'s \<Rightarrow> 'a list"
    and put :: "'a \<Rightarrow> 's \<Rightarrow> 's option"
    and get :: "'s \<Rightarrow> ('a \<times> 's) option"
  assumes put_contents: "put x s = Some s' \<Longrightarrow> contents s' = contents s @ [x]"
    and get_contents: "get s = Some (x, s') \<Longrightarrow> contents s = x # contents s'"
begin

lemma run_order:
  "fifo_run put get ops s = (ins, outs, t) \<Longrightarrow> contents s @ ins = outs @ contents t"
proof (induction ops arbitrary: s ins outs t)
  case Nil
  then show ?case by simp
next
  case (Cons a ops)
  show ?case
  proof (cases a)
    case (Put x)
    show ?thesis
    proof (cases "put x s")
      case None
      with Cons Put show ?thesis by simp
    next
      case (Some s')
      obtain i o' u where r: "fifo_run put get ops s' = (i, o', u)"
        by (cases "fifo_run put get ops s'") auto
      from Cons.IH [OF r] put_contents [OF Some] Cons.prems Put Some r
      show ?thesis by simp
    qed
  next
    case Get
    show ?thesis
    proof (cases "get s")
      case None
      with Cons Get show ?thesis by simp
    next
      case (Some p)
      obtain x s' where p: "p = (x, s')" by (cases p)
      obtain i o' u where r: "fifo_run put get ops s' = (i, o', u)"
        by (cases "fifo_run put get ops s'") auto
      from Cons.IH [OF r] get_contents Some p Cons.prems Get r
      show ?thesis by auto
    qed
  qed
qed

lemma run_delivers_prefix:
  "fifo_run put get ops s = (ins, outs, t) \<Longrightarrow> prefix outs (contents s @ ins)"
  using run_order by (metis prefixI)

end

end
