(* ===== verification/SharedQueue.thy ===== *)
theory SharedQueue
  imports Fifo
begin

text \<open>
  \<^verbatim>\<open>aisdk/base/shared_queue.h\<close>: the blocking queue between threads. The operations come
  first, each as one atomic step under the mutex. Then the interleaving of threads as a
  step relation, in which \<open>push\<close> is split where the code splits it: \<open>m_run_out\<close> is read
  before the lock is taken.
\<close>

section \<open>State and operations\<close>

record 'a shared_queue =
  m_queue :: "'a list"
  m_run_out :: bool

definition sq_new :: "'a shared_queue" where
  "sq_new = \<lparr>m_queue = [], m_run_out = False\<rparr>"

definition sq_open :: "'a shared_queue \<Rightarrow> 'a shared_queue" where
  [model_defs]: "sq_open q = q\<lparr>m_run_out := False\<rparr>"

definition sq_close :: "'a shared_queue \<Rightarrow> 'a shared_queue" where
  [model_defs]: "sq_close q = q\<lparr>m_run_out := True\<rparr>"

text \<open>\<open>push\<close> when no other thread runs between its test and its critical section.\<close>

definition sq_push :: "'a \<Rightarrow> 'a shared_queue \<Rightarrow> 'a shared_queue" where
  [model_defs]: "sq_push x q =
     (if \<not> m_run_out q then q\<lparr>m_queue := m_queue q @ [x]\<rparr> else q)"

text \<open>
  The three pops write their result through a reference; the model takes the old value of
  that variable and returns the new one, unchanged on failure.
\<close>

definition try_and_pop :: "'a \<Rightarrow> 'a shared_queue \<Rightarrow> bool \<times> 'a \<times> 'a shared_queue" where
  "try_and_pop item q =
     (if m_run_out q then (False, item, q)
      else (case m_queue q of
              [] \<Rightarrow> (False, item, q)
            | x # xs \<Rightarrow> (True, x, q\<lparr>m_queue := xs\<rparr>)))"

text \<open>
  The body of \<open>wait_and_pop\<close> over the states its thread observes: the state when it takes
  the lock and the state at each later wake-up. The result is None while the thread still
  waits after the last observed state.
\<close>

fun wait_and_pop :: "'a \<Rightarrow> 'a shared_queue list \<Rightarrow> (bool \<times> 'a \<times> 'a shared_queue) option" where
  "wait_and_pop item [] = None"
| "wait_and_pop item (q # qs) =
     (if m_queue q = [] \<and> \<not> m_run_out q then wait_and_pop item qs
      else Some (try_and_pop item q))"

text \<open>
  \<open>wait_for_and_pop\<close>: each observed state comes with what ended the wait before it, a
  notification or the time-out of \<open>wait_for\<close>; the code never looks at that answer.
\<close>

datatype wake = Notified | TimedOut

fun wait_for_and_pop :: "'a \<Rightarrow> nat \<Rightarrow> (wake \<times> 'a shared_queue) list
    \<Rightarrow> (bool \<times> 'a \<times> 'a shared_queue) option" where
  "wait_for_and_pop item timeout_ms [] = None"
| "wait_for_and_pop item timeout_ms ((w, q) # qs) =
     (if m_queue q = [] \<and> \<not> m_run_out q then wait_for_and_pop item timeout_ms qs
      else if m_run_out q then Some (False, item, q)
      else (case m_queue q of
              [] \<Rightarrow> Some (False, item, q)
            | x # xs \<Rightarrow> Some (True, x, q\<lparr>m_queue := xs\<rparr>)))"

definition sq_empty :: "'a shared_queue \<Rightarrow> bool" where
  [model_defs]: "sq_empty q = (m_queue q = [])"

text \<open>\<open>size\<close> returns \<open>unsigned\<close>: the length is cut to 32 bits.\<close>

definition sq_size :: "'a shared_queue \<Rightarrow> u32" where
  [model_defs]: "sq_size q = of_nat (length (m_queue q))"

fun sq_reset_loop :: "'a list \<Rightarrow> 'a list" where
  "sq_reset_loop [] = []"
| "sq_reset_loop (x # xs) = sq_reset_loop xs"

definition sq_reset :: "'a shared_queue \<Rightarrow> 'a shared_queue" where
  "sq_reset q = q\<lparr>m_queue := sq_reset_loop (m_queue q)\<rparr>"

lemma sq_reset_loop_Nil [simp]: "sq_reset_loop xs = []"
  by (induction xs) auto

lemma sq_reset_eq [model_defs]: "sq_reset q = q\<lparr>m_queue := []\<rparr>"
  by (simp add: sq_reset_def)

lemma try_and_pop_closed: "m_run_out q \<Longrightarrow> try_and_pop item q = (False, item, q)"
  by (simp add: try_and_pop_def)

lemma try_and_pop_True:
  "try_and_pop item q = (True, x, q') \<longleftrightarrow>
     \<not> m_run_out q \<and> m_queue q = x # m_queue q' \<and> q' = q\<lparr>m_queue := m_queue q'\<rparr>"
  by (auto simp: try_and_pop_def split: if_splits list.splits)

lemma wait_and_pop_returns:
  "wait_and_pop item qs = Some r \<Longrightarrow>
     \<exists>q\<in>set qs. (m_queue q \<noteq> [] \<or> m_run_out q) \<and> r = try_and_pop item q"
  by (induction item qs rule: wait_and_pop.induct) (auto split: if_splits)

section \<open>The queue as a first-in first-out buffer\<close>

definition sq_put :: "'a \<Rightarrow> 'a shared_queue \<Rightarrow> 'a shared_queue option" where
  "sq_put x q = (if m_run_out q then None else Some (sq_push x q))"

definition sq_get :: "'a shared_queue \<Rightarrow> ('a \<times> 'a shared_queue) option" where
  "sq_get q = (case m_queue q of [] \<Rightarrow> None | x # xs \<Rightarrow>
     (case try_and_pop x q of (ok, y, q') \<Rightarrow> if ok then Some (y, q') else None))"

interpretation sq_fifo: fifo_buffer m_queue sq_put sq_get
proof unfold_locales
  fix x :: 'a and s s' :: "'a shared_queue"
  assume "sq_put x s = Some s'"
  then show "m_queue s' = m_queue s @ [x]"
    by (auto simp: sq_put_def sq_push_def split: if_splits)
next
  fix s s' :: "'a shared_queue" and x :: 'a
  assume "sq_get s = Some (x, s')"
  then show "m_queue s = x # m_queue s'"
    by (auto simp: sq_get_def try_and_pop_def split: list.splits if_splits)
qed

section \<open>Interleavings\<close>

text \<open>
  The system: the queue, the items of threads that passed the test of \<open>push\<close> and have not
  yet taken the lock (\<open>in_flight\<close>), and two histories, the items enqueued and the items
  that left, with whether a consumer got them or \<open>reset\<close> discarded them.
\<close>

record 'a sq_sys =
  sq :: "'a shared_queue"
  in_flight :: "nat \<Rightarrow> 'a option"
  enqueued :: "'a list"
  left :: "('a \<times> bool) list"

definition sq_init :: "'a sq_sys" where
  "sq_init = \<lparr>sq = sq_new, in_flight = (\<lambda>_. None), enqueued = [], left = []\<rparr>"

datatype 'a sq_label =
    LOpen | LClose | LPushTest nat 'a | LPushEnqueue nat | LPop 'a | LReset

inductive sq_step :: "'a sq_sys \<Rightarrow> 'a sq_label \<Rightarrow> 'a sq_sys \<Rightarrow> bool" where
  step_open: "sq_step s LOpen (s\<lparr>sq := sq_open (sq s)\<rparr>)"
| step_close: "sq_step s LClose (s\<lparr>sq := sq_close (sq s)\<rparr>)"
| step_push_test: "\<not> m_run_out (sq s) \<Longrightarrow> in_flight s t = None \<Longrightarrow>
     sq_step s (LPushTest t x) (s\<lparr>in_flight := (in_flight s)(t := Some x)\<rparr>)"
| step_push_enqueue: "in_flight s t = Some x \<Longrightarrow>
     sq_step s (LPushEnqueue t)
       (s\<lparr>sq := (sq s)\<lparr>m_queue := m_queue (sq s) @ [x]\<rparr>,
          in_flight := (in_flight s)(t := None), enqueued := enqueued s @ [x]\<rparr>)"
| step_pop: "try_and_pop item (sq s) = (True, x, q') \<Longrightarrow>
     sq_step s (LPop x) (s\<lparr>sq := q', left := left s @ [(x, True)]\<rparr>)"
| step_reset: "sq_step s LReset
     (s\<lparr>sq := sq_reset (sq s), left := left s @ map (\<lambda>x. (x, False)) (m_queue (sq s))\<rparr>)"

inductive_cases sq_step_popE: "sq_step s (LPop x) t"
inductive_simps sq_step_enqueue_iff: "sq_step s (LPushEnqueue i) t"

inductive sq_reachable :: "'a sq_sys \<Rightarrow> bool" where
  reach_init: "sq_reachable sq_init"
| reach_step: "sq_reachable s \<Longrightarrow> sq_step s l t \<Longrightarrow> sq_reachable t"

definition delivered :: "'a sq_sys \<Rightarrow> 'a list" where
  "delivered s = map fst (filter snd (left s))"

definition sq_inv :: "'a sq_sys \<Rightarrow> bool" where
  "sq_inv s \<longleftrightarrow> enqueued s = map fst (left s) @ m_queue (sq s)"

lemma sq_inv_init: "sq_inv sq_init"
  by (simp add: sq_inv_def sq_init_def sq_new_def)

lemma sq_inv_step [inv_intros]: "sq_step s l t \<Longrightarrow> sq_inv s \<Longrightarrow> sq_inv t"
  by (induction rule: sq_step.induct)
    (auto simp: sq_inv_def model_defs try_and_pop_True comp_def)

lemma sq_reachable_inv: "sq_reachable s \<Longrightarrow> sq_inv s"
  by (induction rule: sq_reachable.induct) (auto intro: sq_inv_init inv_intros)

text \<open>
  C1: whatever the interleaving of producers, consumers, \<open>open\<close>, \<open>close\<close> and \<open>reset\<close>, what
  the consumers got is, in order, a subsequence of what was enqueued: no item is invented,
  duplicated or overtaken; and an enqueued item is delivered, discarded by a reset, or
  still in the queue.
\<close>

theorem shared_queue_order:
  assumes "sq_reachable s"
  shows "subseq (delivered s) (enqueued s) \<and>
         enqueued s = map fst (left s) @ m_queue (sq s)"
proof
  from assms have inv: "enqueued s = map fst (left s) @ m_queue (sq s)"
    by (simp add: sq_reachable_inv flip: sq_inv_def)
  then show "enqueued s = map fst (left s) @ m_queue (sq s)" .
  have "subseq (delivered s) (map fst (left s))"
    by (simp add: delivered_def subseq_map_filter)
  then show "subseq (delivered s) (enqueued s)"
    by (simp only: inv) (rule list_emb_prefix)
qed

lemma sq_example_reachable:
  "sq_reachable \<lparr>sq = \<lparr>m_queue = [8], m_run_out = False\<rparr>, in_flight = \<lambda>_. None,
     enqueued = [7, 8 :: nat], left = [(7, True)]\<rparr>"
proof -
  let ?q = "\<lambda>xs. \<lparr>m_queue = xs, m_run_out = False\<rparr> :: nat shared_queue"
  have "sq_reachable \<lparr>sq = ?q [], in_flight = (\<lambda>_. None)(0 := Some (7::nat)), enqueued = [], left = []\<rparr>"
    using reach_step [OF reach_init step_push_test [of "sq_init :: nat sq_sys" 0 7]]
    by (simp add: sq_init_def sq_new_def)
  from reach_step [OF this step_push_enqueue [of _ 0]]
  have "sq_reachable \<lparr>sq = ?q [7], in_flight = \<lambda>_. None, enqueued = [7], left = []\<rparr>"
    by (simp add: fun_upd_idem)
  from reach_step [OF this step_push_test [of _ 1 8]]
  have "sq_reachable \<lparr>sq = ?q [7], in_flight = (\<lambda>_. None)(1 := Some 8), enqueued = [7], left = []\<rparr>"
    by simp
  from reach_step [OF this step_push_enqueue [of _ 1]]
  have "sq_reachable \<lparr>sq = ?q [7, 8], in_flight = \<lambda>_. None, enqueued = [7, 8], left = []\<rparr>"
    by (simp add: fun_upd_idem)
  from reach_step [OF this step_pop [of 0]]
  show ?thesis by (simp add: try_and_pop_def)
qed

theorem shared_queue_order_witness:
  "subseq [7] [7, 8 :: nat]"
  using shared_queue_order [OF sq_example_reachable] by (simp add: delivered_def)

text \<open>
  The time-out of \<open>wait_for_and_pop\<close> does not end the call. As long as every state the
  waiting thread observes is empty and open, the call has not returned, however many of
  its waits timed out: the loop re-enters \<open>wait_for\<close> without looking at its answer, so the
  call behaves like \<open>wait_and_pop\<close>.
\<close>

lemma wait_for_ignores_timeout:
  "wait_for_and_pop item timeout_ms obs = wait_and_pop item (map snd obs)"
  by (induction item timeout_ms obs rule: wait_for_and_pop.induct)
    (auto simp: try_and_pop_def split: list.splits)

text \<open>
  \<open>push\<close> reads \<open>m_run_out\<close> outside the lock, so an item can enter the queue after
  \<open>close\<close> has returned, and a consumer gets it after the next \<open>open\<close>.
\<close>

lemma push_after_close:
  "\<exists>s t u v. sq_reachable (s :: nat sq_sys) \<and> sq_step s LClose t \<and>
     sq_step t (LPushEnqueue 0) u \<and> m_run_out (sq u) \<and> m_queue (sq u) = [5] \<and>
     sq_step (u\<lparr>sq := sq_open (sq u)\<rparr>) (LPop 5) v"
proof -
  let ?s = "sq_init\<lparr>in_flight := (in_flight sq_init)(0 := Some 5)\<rparr> :: nat sq_sys"
  let ?t = "?s\<lparr>sq := sq_close (sq ?s)\<rparr>"
  let ?u = "?t\<lparr>sq := (sq ?t)\<lparr>m_queue := m_queue (sq ?t) @ [5]\<rparr>,
            in_flight := (in_flight ?t)(0 := None), enqueued := enqueued ?t @ [5]\<rparr>"
  have s: "sq_reachable ?s"
    by (rule reach_step [OF reach_init step_push_test [where t = 0 and x = 5]])
      (simp_all add: sq_init_def sq_new_def)
  have u: "sq_step ?t (LPushEnqueue 0) ?u"
    by (rule step_push_enqueue) simp
  have st: "m_queue (sq ?u) = [5]" "m_run_out (sq ?u)"
    by (simp_all add: sq_init_def sq_new_def sq_close_def)
  let ?w = "?u\<lparr>sq := sq_open (sq ?u)\<rparr>"
  have "try_and_pop 0 (sq ?w) = (True, 5, (sq ?w)\<lparr>m_queue := []\<rparr>)"
    using st by (simp add: try_and_pop_def sq_open_def)
  from step_pop [OF this] show ?thesis
    using s step_close [of ?s] u st by blast
qed

end
