(* ===== verification/ThreadPool.thy ===== *)
theory ThreadPool
  imports Fifo
begin

text \<open>
  \<^verbatim>\<open>aisdk/base/thread_pool.h\<close>: a fixed set of workers over one task queue. A task is an
  identifier; running it is opaque. Each critical section of the code is one step, so the
  interleavings of clients, workers and the destructor are the runs of \<open>tp_step\<close>.
\<close>

section \<open>State and the critical sections\<close>

datatype worker = Waiting | Running nat | Exited

record thread_pool =
  workers :: "worker list"
  max_depth :: nat
  tasks :: "nat list"
  stop_flag :: bool

text \<open>The constructor: all workers start at the head of their loop.\<close>

definition tp_new :: "nat \<Rightarrow> nat \<Rightarrow> thread_pool" where
  "tp_new threads depth =
     \<lparr>workers = replicate threads Waiting, max_depth = depth, tasks = [], stop_flag = False\<rparr>"

text \<open>
  \<open>enqueue\<close>: the result says whether the caller gets a valid future; a refused task leaves
  the default-constructed one.
\<close>

definition tp_enqueue :: "nat \<Rightarrow> thread_pool \<Rightarrow> bool \<times> thread_pool" where
  "tp_enqueue task p =
     (if (max_depth p > 0 \<and> length (tasks p) > max_depth p) \<or> stop_flag p then (False, p)
      else (True, p\<lparr>tasks := tasks p @ [task]\<rparr>))"

definition tp_stop :: "thread_pool \<Rightarrow> thread_pool" where
  "tp_stop p = p\<lparr>stop_flag := True\<rparr>"

text \<open>
  The worker loop, one critical section: blocked (None) while the predicate of \<open>wait\<close> is
  false, else exit, or take the front task.
\<close>

definition worker_wake :: "thread_pool \<Rightarrow> (worker \<times> thread_pool) option" where
  "worker_wake p =
     (if \<not> (stop_flag p \<or> tasks p \<noteq> []) then None
      else if stop_flag p \<and> tasks p = [] then Some (Exited, p)
      else Some (Running (hd (tasks p)), p\<lparr>tasks := tl (tasks p)\<rparr>))"

definition tp_put :: "nat \<Rightarrow> thread_pool \<Rightarrow> thread_pool option" where
  "tp_put x p = (case tp_enqueue x p of (ok, p') \<Rightarrow> if ok then Some p' else None)"

definition tp_get :: "thread_pool \<Rightarrow> (nat \<times> thread_pool) option" where
  "tp_get p = (case worker_wake p of Some (Running x, p') \<Rightarrow> Some (x, p') | _ \<Rightarrow> None)"

interpretation tp_fifo: fifo_buffer tasks tp_put tp_get
  by unfold_locales
    (auto simp: tp_put_def tp_get_def tp_enqueue_def worker_wake_def
      split: if_splits option.splits prod.splits)

section \<open>Runs of the pool\<close>

record tp_sys =
  pool :: thread_pool
  accepted :: "nat list"
  started :: "nat list"
  finished :: "nat list"

definition tp_init :: "nat \<Rightarrow> nat \<Rightarrow> tp_sys" where
  "tp_init n d = \<lparr>pool = tp_new n d, accepted = [], started = [], finished = []\<rparr>"

definition set_worker :: "nat \<Rightarrow> worker \<Rightarrow> thread_pool \<Rightarrow> thread_pool" where
  "set_worker i w p = p\<lparr>workers := (workers p)[i := w]\<rparr>"

inductive tp_step :: "tp_sys \<Rightarrow> tp_sys \<Rightarrow> bool" where
  tp_accept: "tp_enqueue x (pool s) = (True, p') \<Longrightarrow>
     tp_step s (s\<lparr>pool := p', accepted := accepted s @ [x]\<rparr>)"
| tp_refuse: "tp_enqueue x (pool s) = (False, p') \<Longrightarrow> tp_step s (s\<lparr>pool := p'\<rparr>)"
| tp_stops: "tp_step s (s\<lparr>pool := tp_stop (pool s)\<rparr>)"
| tp_take: "i < length (workers (pool s)) \<Longrightarrow> workers (pool s) ! i = Waiting \<Longrightarrow>
     worker_wake (pool s) = Some (Running x, p') \<Longrightarrow>
     tp_step s (s\<lparr>pool := set_worker i (Running x) p', started := started s @ [x]\<rparr>)"
| tp_done: "i < length (workers (pool s)) \<Longrightarrow> workers (pool s) ! i = Running x \<Longrightarrow>
     tp_step s (s\<lparr>pool := set_worker i Waiting (pool s), finished := finished s @ [x]\<rparr>)"
| tp_exit: "i < length (workers (pool s)) \<Longrightarrow> workers (pool s) ! i = Waiting \<Longrightarrow>
     worker_wake (pool s) = Some (Exited, p') \<Longrightarrow>
     tp_step s (s\<lparr>pool := set_worker i Exited p'\<rparr>)"

inductive tp_reachable :: "nat \<Rightarrow> nat \<Rightarrow> tp_sys \<Rightarrow> bool" for n d where
  tp_start: "tp_reachable n d (tp_init n d)"
| tp_next: "tp_reachable n d s \<Longrightarrow> tp_step s t \<Longrightarrow> tp_reachable n d t"

fun running_of :: "worker list \<Rightarrow> nat multiset" where
  "running_of [] = {#}"
| "running_of (Running x # ws) = add_mset x (running_of ws)"
| "running_of (_ # ws) = running_of ws"

definition tp_inv :: "nat \<Rightarrow> nat \<Rightarrow> tp_sys \<Rightarrow> bool" where
  "tp_inv n d s \<longleftrightarrow>
     length (workers (pool s)) = n \<and> max_depth (pool s) = d \<and>
     accepted s = started s @ tasks (pool s) \<and>
     mset (started s) = mset (finished s) + running_of (workers (pool s)) \<and>
     (0 < d \<longrightarrow> length (tasks (pool s)) \<le> Suc d) \<and>
     (Exited \<in> set (workers (pool s)) \<longrightarrow> stop_flag (pool s) \<and> tasks (pool s) = [])"

lemma running_of_replicate [simp]: "running_of (replicate n Waiting) = {#}"
  by (induction n) auto

lemma running_of_update:
  "i < length ws \<Longrightarrow>
     running_of (ws[i := w]) + running_of [ws ! i] = running_of ws + running_of [w]"
proof (induction ws arbitrary: i)
  case Nil
  then show ?case by simp
next
  case (Cons v ws)
  show ?case
  proof (cases i)
    case 0
    then show ?thesis by (cases v; cases w) auto
  next
    case (Suc j)
    with Cons.prems have "j < length ws" by simp
    from Cons.IH [OF this] Suc show ?thesis by (cases v) (auto simp: ac_simps)
  qed
qed

lemma set_worker_simps [simp]:
  "max_depth (set_worker i w p) = max_depth p" "tasks (set_worker i w p) = tasks p"
  "stop_flag (set_worker i w p) = stop_flag p"
  "workers (set_worker i w p) = (workers p)[i := w]"
  by (simp_all add: set_worker_def)

lemma worker_wake_Running:
  "worker_wake p = Some (Running x, p') \<longleftrightarrow> tasks p = x # tasks p' \<and> p' = p\<lparr>tasks := tasks p'\<rparr>"
  by (cases "tasks p") (auto simp: worker_wake_def)

lemma worker_wake_Exited:
  "worker_wake p = Some (Exited, p') \<longleftrightarrow> stop_flag p \<and> tasks p = [] \<and> p' = p"
  by (auto simp: worker_wake_def)

lemma tp_enqueue_True:
  "tp_enqueue x p = (True, p') \<longleftrightarrow>
     p' = p\<lparr>tasks := tasks p @ [x]\<rparr> \<and> \<not> stop_flag p \<and>
     (max_depth p = 0 \<or> length (tasks p) \<le> max_depth p)"
  by (auto simp: tp_enqueue_def)

lemma tp_enqueue_False: "tp_enqueue x p = (False, p') \<Longrightarrow> p' = p"
  by (auto simp: tp_enqueue_def split: if_splits)

lemma tp_inv_init: "tp_inv n d (tp_init n d)"
  by (auto simp: tp_inv_def tp_init_def tp_new_def)

lemma tp_inv_take:
  assumes inv: "tp_inv n d s" and i: "i < length (workers (pool s))"
    "workers (pool s) ! i = Waiting" and w: "worker_wake (pool s) = Some (Running x, p')"
  shows "tp_inv n d (s\<lparr>pool := set_worker i (Running x) p', started := started s @ [x]\<rparr>)"
proof -
  from w have t: "tasks (pool s) = x # tasks p'" and p': "p' = (pool s)\<lparr>tasks := tasks p'\<rparr>"
    by (auto simp: worker_wake_Running)
  from p' have e: "workers p' = workers (pool s)" "max_depth p' = max_depth (pool s)"
    "stop_flag p' = stop_flag (pool s)"
    by (metis thread_pool.select_convs(1,2,4) thread_pool.surjective thread_pool.update_convs(3))+
  have r: "running_of ((workers (pool s))[i := Running x]) = add_mset x (running_of (workers (pool s)))"
    using running_of_update [OF i(1), of "Running x"] i(2) by simp
  have "Exited \<notin> set (workers (pool s))" using inv t by (auto simp: tp_inv_def)
  then have "Exited \<notin> set ((workers (pool s))[i := Running x])"
    using set_update_subset_insert [of "workers (pool s)" i "Running x"] by auto
  with inv t e r show ?thesis by (auto simp: tp_inv_def)
qed

lemma tp_inv_done:
  assumes inv: "tp_inv n d s" and i: "i < length (workers (pool s))"
    "workers (pool s) ! i = Running x"
  shows "tp_inv n d (s\<lparr>pool := set_worker i Waiting (pool s), finished := finished s @ [x]\<rparr>)"
proof -
  have r: "add_mset x (running_of ((workers (pool s))[i := Waiting])) = running_of (workers (pool s))"
    using running_of_update [OF i(1), of Waiting] i(2) by simp
  have "Exited \<in> set ((workers (pool s))[i := Waiting]) \<Longrightarrow> Exited \<in> set (workers (pool s))"
    using set_update_subset_insert [of "workers (pool s)" i Waiting] by auto
  with inv show ?thesis by (simp add: tp_inv_def r [symmetric])
qed

lemma tp_inv_exit:
  assumes inv: "tp_inv n d s" and i: "i < length (workers (pool s))"
    "workers (pool s) ! i = Waiting" and w: "worker_wake (pool s) = Some (Exited, p')"
  shows "tp_inv n d (s\<lparr>pool := set_worker i Exited p'\<rparr>)"
proof -
  have r: "running_of ((workers (pool s))[i := Exited]) = running_of (workers (pool s))"
    using running_of_update [OF i(1), of Exited] i(2) by simp
  with inv w show ?thesis by (auto simp: tp_inv_def worker_wake_Exited)
qed

lemma tp_inv_step [inv_intros]: "tp_step s t \<Longrightarrow> tp_inv n d s \<Longrightarrow> tp_inv n d t"
proof (induction rule: tp_step.induct)
  case (tp_accept x s p')
  then show ?case by (auto simp: tp_inv_def tp_enqueue_True)
next
  case (tp_refuse x s p')
  then show ?case by (auto simp: tp_inv_def dest: tp_enqueue_False)
next
  case (tp_stops s)
  then show ?case by (auto simp: tp_inv_def tp_stop_def)
qed (auto intro: tp_inv_take tp_inv_done tp_inv_exit)

lemma tp_reachable_inv: "tp_reachable n d s \<Longrightarrow> tp_inv n d s"
  by (induction rule: tp_reachable.induct) (auto intro: tp_inv_init inv_intros)

lemma running_of_exited: "set ws \<subseteq> {Exited} \<Longrightarrow> running_of ws = {#}"
  by (induction ws rule: running_of.induct) auto


lemma tp_two_tasks: "tp_reachable 1 1
  \<lparr>pool = \<lparr>workers = [Waiting], max_depth = 1, tasks = [4, 9], stop_flag = False\<rparr>,
   accepted = [4, 9], started = [], finished = []\<rparr>"
proof -
  have "tp_reachable 1 1 (tp_init 1 1)" by (rule tp_start)
  from tp_next [OF this tp_accept [of 4]]
  have "tp_reachable 1 1 \<lparr>pool = \<lparr>workers = [Waiting], max_depth = 1, tasks = [4], stop_flag = False\<rparr>,
    accepted = [4], started = [], finished = []\<rparr>"
    by (simp add: tp_init_def tp_new_def tp_enqueue_def)
  from tp_next [OF this tp_accept [of 9]]
  show ?thesis by (simp add: tp_enqueue_def)
qed



lemma tp_shut_down: "tp_reachable 1 1
  \<lparr>pool = \<lparr>workers = [Exited], max_depth = 1, tasks = [], stop_flag = True\<rparr>,
   accepted = [4], started = [4], finished = [4]\<rparr>"
proof -
  have "tp_reachable 1 1 (tp_init 1 1)" by (rule tp_start)
  from tp_next [OF this tp_accept [of 4]]
  have "tp_reachable 1 1 \<lparr>pool = \<lparr>workers = [Waiting], max_depth = 1, tasks = [4], stop_flag = False\<rparr>,
    accepted = [4], started = [], finished = []\<rparr>"
    by (simp add: tp_init_def tp_new_def tp_enqueue_def)
  from tp_next [OF this tp_stops]
  have "tp_reachable 1 1 \<lparr>pool = \<lparr>workers = [Waiting], max_depth = 1, tasks = [4], stop_flag = True\<rparr>,
    accepted = [4], started = [], finished = []\<rparr>"
    by (simp add: tp_stop_def)
  from tp_next [OF this tp_take [of 0]]
  have "tp_reachable 1 1 \<lparr>pool = \<lparr>workers = [Running 4], max_depth = 1, tasks = [], stop_flag = True\<rparr>,
    accepted = [4], started = [4], finished = []\<rparr>"
    by (simp add: worker_wake_def set_worker_def)
  from tp_next [OF this tp_done [of 0]]
  have "tp_reachable 1 1 \<lparr>pool = \<lparr>workers = [Waiting], max_depth = 1, tasks = [], stop_flag = True\<rparr>,
    accepted = [4], started = [4], finished = [4]\<rparr>"
    by (simp add: set_worker_def)
  from tp_next [OF this tp_exit [of 0]]
  show ?thesis by (simp add: worker_wake_def set_worker_def)
qed


section \<open>The destructor returns\<close>

text \<open>
  After the stop flag is set, what a worker step spends: a queued task is worth three, a
  running one two, a waiting worker one.
\<close>

fun worker_weight :: "worker \<Rightarrow> nat" where
  "worker_weight Waiting = 1"
| "worker_weight (Running x) = 2"
| "worker_weight Exited = 0"

definition tp_weight :: "tp_sys \<Rightarrow> nat" where
  "tp_weight s = 2 * length (tasks (pool s)) + sum_list (map worker_weight (workers (pool s)))"

inductive worker_step :: "tp_sys \<Rightarrow> tp_sys \<Rightarrow> bool" where
  ws_take: "i < length (workers (pool s)) \<Longrightarrow> workers (pool s) ! i = Waiting \<Longrightarrow>
     worker_wake (pool s) = Some (Running x, p') \<Longrightarrow>
     worker_step s (s\<lparr>pool := set_worker i (Running x) p', started := started s @ [x]\<rparr>)"
| ws_done: "i < length (workers (pool s)) \<Longrightarrow> workers (pool s) ! i = Running x \<Longrightarrow>
     worker_step s (s\<lparr>pool := set_worker i Waiting (pool s), finished := finished s @ [x]\<rparr>)"
| ws_exit: "i < length (workers (pool s)) \<Longrightarrow> workers (pool s) ! i = Waiting \<Longrightarrow>
     worker_wake (pool s) = Some (Exited, p') \<Longrightarrow>
     worker_step s (s\<lparr>pool := set_worker i Exited p'\<rparr>)"

lemma sum_weight_update:
  "i < length ws \<Longrightarrow> sum_list (map worker_weight (ws[i := w])) + worker_weight (ws ! i) =
     sum_list (map worker_weight ws) + worker_weight w"
proof (induction ws arbitrary: i)
  case Nil
  then show ?case by simp
next
  case (Cons v ws)
  then show ?case by (cases i) (auto simp: ac_simps)
qed

lemma worker_step_weight: "worker_step s t \<Longrightarrow> tp_weight t < tp_weight s"
proof (induction rule: worker_step.induct)
  case (ws_take i s x p')
  then have "workers p' = workers (pool s)" "tasks (pool s) = x # tasks p'"
    by (auto simp: worker_wake_def split: if_splits)
  with ws_take sum_weight_update [of i "workers (pool s)" "Running x"]
  show ?case by (simp add: tp_weight_def)
next
  case (ws_done i s x)
  with sum_weight_update [of i "workers (pool s)" Waiting]
  show ?case by (simp add: tp_weight_def)
next
  case (ws_exit i s p')
  with sum_weight_update [of i "workers (pool s)" Exited]
  show ?case by (simp add: tp_weight_def worker_wake_Exited)
qed

lemma worker_step_enabled:
  assumes "stop_flag (pool s)" and "\<not> set (workers (pool s)) \<subseteq> {Exited}"
  shows "\<exists>t. worker_step s t"
proof -
  from assms(2) obtain i where i: "i < length (workers (pool s))" "workers (pool s) ! i \<noteq> Exited"
    by (metis in_set_conv_nth insertI1 subsetI)
  show ?thesis
  proof (cases "workers (pool s) ! i")
    case Waiting
    show ?thesis
    proof (cases "tasks (pool s)")
      case Nil
      with assms(1) Waiting i ws_exit show ?thesis by (fastforce simp: worker_wake_def)
    next
      case (Cons x xs)
      with assms(1) Waiting i ws_take show ?thesis by (fastforce simp: worker_wake_def)
    qed
  next
    case (Running x)
    with i ws_done show ?thesis by blast
  qed (use i in simp)
qed


lemma tp_stopped_step:
  "worker_step (tp_init 1 1\<lparr>pool := tp_stop (tp_new 1 1)\<rparr>)
     (tp_init 1 1\<lparr>pool := set_worker 0 Exited (tp_stop (tp_new 1 1))\<rparr>)"
  using ws_exit [of 0 "tp_init 1 1\<lparr>pool := tp_stop (tp_new 1 1)\<rparr>"]
  by (simp add: tp_init_def tp_new_def tp_stop_def worker_wake_def)


end
