(* ===== verification/MemBuffer.thy ===== *)
theory MemBuffer
  imports Prelude
begin

text \<open>
  \<^verbatim>\<open>aisdk/base/mem_buffer.h\<close>: a cache of memory blocks of fixed sizes, handed out as shared
  pointers whose deleter puts the block back. The blocks currently lent are kept beside the
  buffer (\<open>lent\<close>): a shared pointer lives in the code of its client.
\<close>

section \<open>State and operations\<close>

record xr_mem =
  addr :: nat
  mem_size :: u64

record fixed_membuffer =
  mb_module_name :: string
  key_id :: u64
  cache_size :: u64
  warning_size :: u64
  free_cache :: "(string \<times> xr_mem) list"

definition mb_new :: "string \<Rightarrow> u64 \<Rightarrow> fixed_membuffer" where
  "mb_new name warningsize =
     \<lparr>mb_module_name = name, key_id = 0, cache_size = 0, warning_size = warningsize, free_cache = []\<rparr>"

text \<open>The search under the lock: the first free block of exactly the requested size.\<close>

definition mb_take_free :: "u64 \<Rightarrow> fixed_membuffer \<Rightarrow> (string \<times> xr_mem) option \<times> fixed_membuffer" where
  "mb_take_free alloc_size b =
     (case find (\<lambda>(k, v). mem_size v = alloc_size) (free_cache b) of
        Some (k, v) \<Rightarrow> (Some (k, v), b\<lparr>free_cache := smap_erase k (free_cache b)\<rparr>)
      | None \<Rightarrow> (None, b))"

text \<open>The test against the limit, in 64-bit arithmetic and outside the lock.\<close>

definition mb_over_limit :: "u64 \<Rightarrow> fixed_membuffer \<Rightarrow> bool" where
  "mb_over_limit alloc_size b = (cache_size b + alloc_size > warning_size b)"

text \<open>Naming a fresh block and accounting for it, under the lock again.\<close>

definition mb_commit :: "xr_mem \<Rightarrow> fixed_membuffer \<Rightarrow> (string \<times> xr_mem) \<times> fixed_membuffer" where
  "mb_commit m b =
     ((mb_module_name b @ to_string (unat (key_id b)), m),
      b\<lparr>key_id := key_id b + 1, cache_size := cache_size b + mem_size m\<rparr>)"

datatype request_result = Blob string xr_mem | NullPtr | BadAlloc

text \<open>
  \<open>RequestMemBlob\<close> run without interference. \<open>heap\<close> is the answer of \<open>new char[n]\<close>: the
  address, or None when it throws \<open>std::bad_alloc\<close>.
\<close>

definition request_mem_blob ::
    "(u64 \<Rightarrow> nat option) \<Rightarrow> u64 \<Rightarrow> fixed_membuffer \<Rightarrow> request_result \<times> fixed_membuffer" where
  "request_mem_blob heap alloc_size b =
     (case mb_take_free alloc_size b of
        (Some (k, v), b1) \<Rightarrow> (Blob k v, b1)
      | (None, b1) \<Rightarrow>
          if mb_over_limit alloc_size b1 then (NullPtr, b1)
          else (case heap alloc_size of
                  None \<Rightarrow> (BadAlloc, b1)
                | Some a \<Rightarrow>
                    (case mb_commit \<lparr>addr = a, mem_size = alloc_size\<rparr> b1 of
                       ((k, v), b2) \<Rightarrow> (Blob k v, b2))))"

text \<open>The deleter of the shared pointer.\<close>

definition release_blob :: "string \<Rightarrow> xr_mem \<Rightarrow> fixed_membuffer \<Rightarrow> fixed_membuffer" where
  "release_blob mem_name m b = b\<lparr>free_cache := smap_insert mem_name m (free_cache b)\<rparr>"

section \<open>Runs of a client\<close>

record mb_sys =
  buf :: fixed_membuffer
  lent :: "(string \<times> xr_mem) list"

datatype mb_op = Request u64 "nat option" | Release string

fun mb_exec :: "mb_op \<Rightarrow> mb_sys \<Rightarrow> mb_sys" where
  "mb_exec (Request n a) s =
     (case request_mem_blob (\<lambda>_. a) n (buf s) of
        (Blob k v, b) \<Rightarrow> s\<lparr>buf := b, lent := (k, v) # lent s\<rparr>
      | (_, b) \<Rightarrow> s\<lparr>buf := b\<rparr>)"
| "mb_exec (Release k) s =
     (case map_of (lent s) k of
        None \<Rightarrow> s
      | Some v \<Rightarrow> s\<lparr>buf := release_blob k v (buf s), lent := smap_erase k (lent s)\<rparr>)"

definition mb_blocks :: "mb_sys \<Rightarrow> (string \<times> xr_mem) list" where
  "mb_blocks s = lent s @ free_cache (buf s)"

definition mb_total :: "mb_sys \<Rightarrow> nat" where
  "mb_total s = sum_list (map (unat \<circ> mem_size \<circ> snd) (mb_blocks s))"

text \<open>Every block has its own name, taken from the counter; the counter is the bound.\<close>

definition mb_inv :: "mb_sys \<Rightarrow> bool" where
  "mb_inv s \<longleftrightarrow>
     sorted_wrt (<) (map fst (free_cache (buf s))) \<and>
     distinct (map fst (mb_blocks s)) \<and>
     (\<forall>k \<in> fst ` set (mb_blocks s). \<exists>i < unat (key_id (buf s)).
        k = mb_module_name (buf s) @ to_string i) \<and>
     mb_total s = unat (cache_size (buf s)) \<and>
     cache_size (buf s) \<le> warning_size (buf s)"

lemma mb_total_mset:
  "mset (mb_blocks s) = mset (mb_blocks t) \<Longrightarrow> mb_total s = mb_total t"
  unfolding mb_total_def by (rule sum_list_mset_eq) (simp only: mset_map)

lemma mb_blocks_mset_eq:
  assumes "mset (mb_blocks t) = mset (mb_blocks s)"
  shows "set (mb_blocks t) = set (mb_blocks s)" "mb_total t = mb_total s"
    "distinct (map fst (mb_blocks t)) = distinct (map fst (mb_blocks s))"
  using assms mset_eq_setD mb_total_mset
  by (blast, blast, metis mset_map mset_eq_imp_distinct_iff)

lemma find_free_Some:
  "find (\<lambda>(k, v). mem_size v = n) m = Some (k, v) \<Longrightarrow> (k, v) \<in> set m \<and> mem_size v = n"
  by (induction m) (auto split: if_splits)

lemma mb_inv_take_free:
  assumes inv: "mb_inv s" and f: "mb_take_free n (buf s) = (Some (k, v), b)"
  shows "mb_inv (s\<lparr>buf := b, lent := (k, v) # lent s\<rparr>)"
proof -
  from f have kv: "(k, v) \<in> set (free_cache (buf s))"
    and b: "b = (buf s)\<lparr>free_cache := smap_erase k (free_cache (buf s))\<rparr>"
    by (auto simp: mb_take_free_def dest!: find_free_Some split: option.splits)
  let ?t = "s\<lparr>buf := b, lent := (k, v) # lent s\<rparr>"
  from inv have d: "distinct (map fst (free_cache (buf s)))"
    by (auto simp: mb_inv_def mb_blocks_def)
  have m: "mset (mb_blocks ?t) = mset (mb_blocks s)"
    using mset_smap_erase [OF d kv] b by (simp add: mb_blocks_def)
  from inv b mb_blocks_mset_eq [OF m] show ?thesis
    by (simp add: mb_inv_def smap_erase_sorted)
qed

lemma mb_inv_release:
  assumes inv: "mb_inv s" and k: "map_of (lent s) k = Some v"
  shows "mb_inv (s\<lparr>buf := release_blob k v (buf s), lent := smap_erase k (lent s)\<rparr>)"
proof -
  let ?t = "s\<lparr>buf := release_blob k v (buf s), lent := smap_erase k (lent s)\<rparr>"
  from k have kv: "(k, v) \<in> set (lent s)" by (rule map_of_SomeD)
  from inv have d: "distinct (map fst (lent s))"
    by (auto simp: mb_inv_def mb_blocks_def)
  have "k \<in> fst ` set (lent s)" using kv by force
  with inv have f: "k \<notin> fst ` set (free_cache (buf s))"
    by (auto simp: mb_inv_def mb_blocks_def)
  have m: "mset (mb_blocks ?t) = mset (mb_blocks s)"
    using mset_smap_erase [OF d kv] mset_smap_insert_fresh [OF f, of v]
    by (simp add: mb_blocks_def release_blob_def)
  from inv mb_blocks_mset_eq [OF m] show ?thesis
    by (simp add: mb_inv_def smap_insert_sorted release_blob_def)
qed

lemma mb_inv_commit:
  assumes inv: "mb_inv s" and lim: "\<not> mb_over_limit (mem_size m) (buf s)"
    and nowrap: "unat (warning_size (buf s)) + unat (mem_size m) < 2 ^ 64"
    and ids: "Suc (unat (key_id (buf s))) < 2 ^ 64"
    and c: "mb_commit m (buf s) = ((k, v), b)"
  shows "mb_inv (s\<lparr>buf := b, lent := (k, v) # lent s\<rparr>)"
proof -
  have k: "k = mb_module_name (buf s) @ to_string (unat (key_id (buf s)))" and v: "v = m"
    and b: "b = (buf s)\<lparr>key_id := key_id (buf s) + 1, cache_size := cache_size (buf s) + mem_size m\<rparr>"
    using c by (auto simp: mb_commit_def)
  have "unat (cache_size (buf s)) \<le> unat (warning_size (buf s))"
    using inv by (simp add: mb_inv_def word_le_nat_alt)
  with nowrap have "unat (cache_size (buf s)) + unat (mem_size m) < 2 ^ LENGTH(64)" by simp
  then have sz: "unat (cache_size (buf s) + mem_size m) = unat (cache_size (buf s)) + unat (mem_size m)"
    by (simp only: unat_add_lem [THEN iffD1])
  have "unat (key_id (buf s)) + unat (1 :: u64) < 2 ^ LENGTH(64)" using ids by simp
  then have kid: "unat (key_id (buf s) + 1) = Suc (unat (key_id (buf s)))"
    using unat_add_lem [of "key_id (buf s)" 1] by simp
  have fresh: "k \<notin> fst ` set (mb_blocks s)"
  proof
    assume "k \<in> fst ` set (mb_blocks s)"
    with inv obtain i where "i < unat (key_id (buf s))" "k = mb_module_name (buf s) @ to_string i"
      unfolding mb_inv_def by blast
    with k show False by simp
  qed
  let ?t = "s\<lparr>buf := b, lent := (k, v) # lent s\<rparr>"
  have bl: "mb_blocks ?t = (k, v) # mb_blocks s" using b by (simp add: mb_blocks_def)
  have "mb_total ?t = unat (cache_size b)"
    using inv bl b v sz by (simp add: mb_total_def mb_inv_def)
  moreover have "distinct (map fst (mb_blocks ?t))"
    using inv fresh bl by (simp add: mb_inv_def)
  moreover have "\<forall>k' \<in> fst ` set (mb_blocks ?t). \<exists>i < unat (key_id b). k' = mb_module_name b @ to_string i"
    using inv bl b k kid unfolding mb_inv_def by (auto intro: less_SucI)
  moreover have "cache_size b \<le> warning_size b"
    using lim b by (simp add: mb_over_limit_def not_less)
  ultimately show ?thesis
    using inv b by (simp add: mb_inv_def)
qed

definition request_fits :: "u64 \<Rightarrow> mb_op \<Rightarrow> bool" where
  "request_fits w op = (case op of Request n a \<Rightarrow> unat w + unat n < 2 ^ 64 | Release k \<Rightarrow> True)"

lemma mb_take_free_None: "mb_take_free n b = (None, b') \<Longrightarrow> b' = b"
  by (auto simp: mb_take_free_def split: option.splits)

lemma mb_exec_frame:
  "warning_size (buf (mb_exec op s)) = warning_size (buf s)"
  "unat (key_id (buf (mb_exec op s))) \<le> Suc (unat (key_id (buf s)))"
proof -
  have "unat (w + 1) \<le> Suc (unat w)" for w :: u64
    by (simp add: unat_word_ariths mod_less_eq_dividend le_trans)
  then show "warning_size (buf (mb_exec op s)) = warning_size (buf s)"
    "unat (key_id (buf (mb_exec op s))) \<le> Suc (unat (key_id (buf s)))"
    by (cases op; auto simp: request_mem_blob_def mb_take_free_def mb_commit_def release_blob_def
        split: option.splits prod.splits)+
qed

lemma mb_inv_exec [inv_intros]:
  assumes inv: "mb_inv s" and fits: "request_fits (warning_size (buf s)) op"
    and ids: "Suc (unat (key_id (buf s))) < 2 ^ 64"
  shows "mb_inv (mb_exec op s)"
proof (cases op)
  case (Request n a)
  have sb: "s\<lparr>buf := buf s\<rparr> = s" by simp
  show ?thesis
  proof (cases "mb_take_free n (buf s)")
    case (Pair r b1)
    show ?thesis
    proof (cases r)
      case None
      with Pair have b1: "b1 = buf s" by (auto dest: mb_take_free_None)
      obtain k v b2 where c: "mb_commit \<lparr>addr = the a, mem_size = n\<rparr> (buf s) = ((k, v), b2)"
        by (metis prod.exhaust)
      have "\<not> mb_over_limit n (buf s) \<Longrightarrow> mb_inv (s\<lparr>buf := b2, lent := (k, v) # lent s\<rparr>)"
        using mb_inv_commit [OF inv _ _ ids c] fits Request by (simp add: request_fits_def)
      with Request Pair None b1 inv c sb show ?thesis
        by (auto simp: request_mem_blob_def split: option.splits)
    next
      case (Some kv)
      obtain k v where kv: "kv = (k, v)" by (cases kv)
      with mb_inv_take_free [OF inv] Pair Some Request show ?thesis
        by (simp add: request_mem_blob_def)
    qed
  qed
next
  case (Release k)
  with inv mb_inv_release [OF inv] show ?thesis by (auto split: option.splits)
qed

lemma mb_run_inv:
  "mb_inv s \<Longrightarrow> list_all (request_fits (warning_size (buf s))) ops \<Longrightarrow>
     unat (key_id (buf s)) + length ops < 2 ^ 64 \<Longrightarrow> mb_inv (fold mb_exec ops s)"
proof (induction ops arbitrary: s)
  case Nil
  then show ?case by simp
next
  case (Cons op ops)
  then have i: "mb_inv (mb_exec op s)" by (intro mb_inv_exec) auto
  have "unat (key_id (buf (mb_exec op s))) + length ops < 2 ^ 64"
    using Cons.prems(3) mb_exec_frame(2) [of op s] by simp
  with Cons.IH [OF i] Cons.prems(2) show ?case by (simp add: mb_exec_frame(1))
qed

definition mb_start :: "string \<Rightarrow> u64 \<Rightarrow> mb_sys" where
  "mb_start name w = \<lparr>buf = mb_new name w, lent = []\<rparr>"

lemma mb_inv_start: "mb_inv (mb_start name w)"
  by (simp add: mb_inv_def mb_start_def mb_new_def mb_blocks_def mb_total_def)

text \<open>
  C11: over any sequence of requests and releases (whose sizes cannot wrap the 64-bit sum),
  a block is never lent twice or lent while it is free, \<open>cache_size\<close> is the exact total
  of all blocks, and that total never passes the configured limit.
\<close>

theorem membuffer_accounting:
  assumes "list_all (request_fits w) ops" and "length ops < 2 ^ 64"
    and "s = fold mb_exec ops (mb_start name w)"
  shows "distinct (map fst (lent s @ free_cache (buf s))) \<and>
         mb_total s = unat (cache_size (buf s)) \<and> mb_total s \<le> unat w"
proof -
  have "mb_inv s"
    using mb_run_inv [OF mb_inv_start] assms by (simp add: mb_start_def mb_new_def)
  moreover have "warning_size (buf (fold mb_exec ops t)) = warning_size (buf t)" for t
    by (induction ops arbitrary: t) (simp_all add: mb_exec_frame)
  ultimately show ?thesis
    using assms(3) by (simp add: mb_inv_def mb_blocks_def mb_start_def mb_new_def word_le_nat_alt)
qed

theorem membuffer_accounting_witness:
  "mb_total (fold mb_exec [Request 100 (Some 1), Request 50 (Some 2), Release ''m0'', Request 100 (Some 3)]
     (mb_start ''m'' 200)) \<le> 200"
  using membuffer_accounting [of 200 "[Request 100 (Some 1), Request 50 (Some 2), Release ''m0'',
    Request 100 (Some 3)]" _ "''m''", OF _ _ refl]
  by (simp add: request_fits_def)

text \<open>
  The limit test adds in 64 bits, so a request near \<open>2^64\<close> wraps round and is not
  refused: the code goes on to \<open>new char[n]\<close>, and when that throws the exception reaches
  the caller instead of the null pointer.
\<close>

lemma membuffer_limit_wraps:
  assumes "0 < cache_size b" and "find (\<lambda>(k, v). mem_size v = - cache_size b) (free_cache b) = None"
  shows "unat (- cache_size b) + unat (cache_size b) = 2 ^ 64 \<and>
         request_mem_blob (\<lambda>_. None) (- cache_size b) b = (BadAlloc, b)"
proof
  have "cache_size b \<noteq> 0" using assms(1) by auto
  then have "uint (cache_size b) \<noteq> 0" by (simp add: uint_0_iff)
  then have "uint (- cache_size b) = 2 ^ 64 - uint (cache_size b)"
    using uint_word_ariths(4) [of "cache_size b"] uint_bounded [of "cache_size b"]
    by (simp add: zmod_zminus1_eq_if)
  then have "uint (- cache_size b) + uint (cache_size b) = 2 ^ 64" by simp
  then show "unat (- cache_size b) + unat (cache_size b) = 2 ^ 64"
    by (metis (mono_tags, lifting) of_nat_add of_nat_eq_iff of_nat_numeral of_nat_power uint_nat)
  show "request_mem_blob (\<lambda>_. None) (- cache_size b) b = (BadAlloc, b)"
    using assms(2) by (simp add: request_mem_blob_def mb_take_free_def mb_over_limit_def)
qed

end
