(* ===== verification/Geometry.thy ===== *)
theory Geometry
  imports Prelude
begin

text \<open>
  The Eigen vectors the algorithms use (\<open>Vector2f\<close>, \<open>Vector3f\<close> of \<^verbatim>\<open>aisdk/base/type.h\<close>)
  over exact reals, with the few operations the code calls. A floating result that Eigen
  and libm would make a NaN is the value None of \<open>fl\<close>; comparisons with it are false.
\<close>

record vec2 =
  v2x :: real
  v2y :: real

record vec3 =
  vx :: real
  vy :: real
  vz :: real

abbreviation v2 :: "real \<Rightarrow> real \<Rightarrow> vec2" where
  "v2 a b \<equiv> \<lparr>v2x = a, v2y = b\<rparr>"

abbreviation v3 :: "real \<Rightarrow> real \<Rightarrow> real \<Rightarrow> vec3" where
  "v3 a b c \<equiv> \<lparr>vx = a, vy = b, vz = c\<rparr>"

definition add2 :: "vec2 \<Rightarrow> vec2 \<Rightarrow> vec2" where
  [model_defs]: "add2 a b = v2 (v2x a + v2x b) (v2y a + v2y b)"

definition sub2 :: "vec2 \<Rightarrow> vec2 \<Rightarrow> vec2" where
  [model_defs]: "sub2 a b = v2 (v2x a - v2x b) (v2y a - v2y b)"

definition scale2 :: "real \<Rightarrow> vec2 \<Rightarrow> vec2" where
  [model_defs]: "scale2 k a = v2 (k * v2x a) (k * v2y a)"

definition dot2 :: "vec2 \<Rightarrow> vec2 \<Rightarrow> real" where
  [model_defs]: "dot2 a b = v2x a * v2x b + v2y a * v2y b"

definition add3 :: "vec3 \<Rightarrow> vec3 \<Rightarrow> vec3" where
  [model_defs]: "add3 a b = v3 (vx a + vx b) (vy a + vy b) (vz a + vz b)"

definition sub3 :: "vec3 \<Rightarrow> vec3 \<Rightarrow> vec3" where
  [model_defs]: "sub3 a b = v3 (vx a - vx b) (vy a - vy b) (vz a - vz b)"

definition scale3 :: "real \<Rightarrow> vec3 \<Rightarrow> vec3" where
  [model_defs]: "scale3 k a = v3 (k * vx a) (k * vy a) (k * vz a)"

definition dot3 :: "vec3 \<Rightarrow> vec3 \<Rightarrow> real" where
  [model_defs]: "dot3 a b = vx a * vx b + vy a * vy b + vz a * vz b"

definition cross3 :: "vec3 \<Rightarrow> vec3 \<Rightarrow> vec3" where
  [model_defs]: "cross3 a b =
     v3 (vy a * vz b - vz a * vy b) (vz a * vx b - vx a * vz b) (vx a * vy b - vy a * vx b)"

definition norm3 :: "vec3 \<Rightarrow> real" where
  [model_defs]: "norm3 a = sqrt (dot3 a a)"

text \<open>Eigen's \<open>normalized\<close> leaves the zero vector as it is.\<close>

definition normalized3 :: "vec3 \<Rightarrow> vec3" where
  "normalized3 a = (if dot3 a a > 0 then scale3 (1 / norm3 a) a else a)"

lemma dot3_self_nonneg [simp]: "0 \<le> dot3 a a"
  by (simp add: dot3_def)

lemma norm3_nonneg [simp]: "0 \<le> norm3 a"
  by (simp add: norm3_def)

lemma norm3_sq: "norm3 a * norm3 a = dot3 a a"
  by (simp add: norm3_def)

lemma lagrange3:
  "dot3 a b * dot3 a b + dot3 (cross3 a b) (cross3 a b) = dot3 a a * dot3 b b"
  by (simp add: dot3_def cross3_def algebra_simps)

lemma cauchy_schwarz3: "\<bar>dot3 a b\<bar> \<le> norm3 a * norm3 b"
proof (rule power2_le_imp_le)
  have "dot3 a b * dot3 a b \<le> dot3 a a * dot3 b b"
    using lagrange3 [of a b] dot3_self_nonneg [of "cross3 a b"] by linarith
  also have "\<dots> = (norm3 a * norm3 b) * (norm3 a * norm3 b)"
    by (simp flip: norm3_sq)
  finally show "\<bar>dot3 a b\<bar>\<^sup>2 \<le> (norm3 a * norm3 b)\<^sup>2"
    by (simp add: power2_eq_square)
  show "0 \<le> norm3 a * norm3 b" by simp
qed

section \<open>Values that may be NaN\<close>

type_synonym fl = "real option"

definition fl_sub :: "real \<Rightarrow> fl \<Rightarrow> fl" where
  "fl_sub a x = map_option (\<lambda>v. a - v) x"

fun fl_minus :: "fl \<Rightarrow> fl \<Rightarrow> fl" where
  "fl_minus (Some a) (Some b) = Some (a - b)"
| "fl_minus _ _ = None"

definition fl_le :: "fl \<Rightarrow> real \<Rightarrow> bool" where
  "fl_le x b = (case x of None \<Rightarrow> False | Some v \<Rightarrow> v \<le> b)"

definition fl_lt :: "fl \<Rightarrow> real \<Rightarrow> bool" where
  "fl_lt x b = (case x of None \<Rightarrow> False | Some v \<Rightarrow> v < b)"

definition fl_gt :: "fl \<Rightarrow> real \<Rightarrow> bool" where
  "fl_gt x b = (case x of None \<Rightarrow> False | Some v \<Rightarrow> b < v)"

definition fl_ge :: "fl \<Rightarrow> real \<Rightarrow> bool" where
  "fl_ge x b = (case x of None \<Rightarrow> False | Some v \<Rightarrow> b \<le> v)"

definition fl_neg :: "fl \<Rightarrow> fl" where
  "fl_neg x = map_option uminus x"

lemmas fl_defs = fl_le_def fl_lt_def fl_gt_def fl_ge_def fl_sub_def fl_neg_def

text \<open>
  The angle between two vectors in degrees: \<open>acos\<close> of the normalised dot product, 0/0 for
  a zero vector.
\<close>

definition vector3d_angle :: "vec3 \<Rightarrow> vec3 \<Rightarrow> fl" where
  "vector3d_angle x y =
     (let module_x = norm3 x; module_y = norm3 y; dot_value = dot3 x y
      in if module_x * module_y = 0 then None
         else Some (arccos (dot_value / (module_x * module_y)) * 180 / pi))"

lemma vector3d_angle_range:
  assumes "vector3d_angle x y = Some a"
  shows "0 \<le> a \<and> a \<le> 180"
proof -
  let ?c = "dot3 x y / (norm3 x * norm3 y)"
  from assms have nz: "norm3 x * norm3 y \<noteq> 0" and a: "a = arccos ?c * 180 / pi"
    by (auto simp: vector3d_angle_def Let_def split: if_splits)
  then have pos: "0 < norm3 x * norm3 y"
    by (metis less_eq_real_def mult_nonneg_nonneg norm3_nonneg)
  from cauchy_schwarz3 [of x y] pos have "\<bar>?c\<bar> \<le> 1"
    by (simp add: abs_mult)
  then have "-1 \<le> ?c" "?c \<le> 1" by linarith+
  then have "0 \<le> arccos ?c" "arccos ?c \<le> pi"
    by (rule arccos_lbound, rule arccos_ubound)
  with a show ?thesis
    by (simp add: divide_le_eq pi_gt_zero)
qed

end
