(* ===== verification/HandTypes.thy ===== *)
theory HandTypes
  imports Geometry
begin

text \<open>
  The data that flows between the calculators: \<^verbatim>\<open>aisdk/algorithm/common/hand_define.h\<close>,
  \<^verbatim>\<open>nrcore_define.h\<close>, \<^verbatim>\<open>nrnet_define.h\<close> and the structs of
  \<^verbatim>\<open>aisdk/algorithm/internal_structs\<close>. A shared pointer to a virtual camera is the
  identity of that camera (\<open>nat option\<close>).
\<close>

datatype hand_gesture =
    GInvalid | GPinch | GClick | GGrab | GThumbUp | GOpenHand | GVictory | GCall | GHome

datatype cam_type = CamUnknown | CamMono | CamBino

abbreviation kAlgoKeypointNum :: nat where
  "kAlgoKeypointNum \<equiv> 21"

record detect_rect =
  rx :: real
  ry :: real
  rw :: real
  rh :: real
  confidence :: real
  left_confidence :: real
  right_confidence :: real
  is_left :: bool
  nms_suppressed :: bool

record single_hand_data =
  kpt3d :: "vec3 list"
  kpt2d_lcam :: "vec2 list"
  kpt2d_rcam :: "vec2 list"
  rotation :: "(vec3 \<times> vec3 \<times> vec3) list"
  root_v :: vec3
  score :: real
  reproj_rmse :: real
  smooth_frames :: int
  need_smooth :: bool
  gesture :: hand_gesture
  source :: cam_type
  constrained :: bool

definition new_single_hand_data :: single_hand_data where
  "new_single_hand_data =
     \<lparr>kpt3d = [], kpt2d_lcam = [], kpt2d_rcam = [], rotation = [], root_v = v3 0 0 0,
      score = 0, reproj_rmse = 0, smooth_frames = 0, need_smooth = False,
      gesture = GInvalid, source = CamUnknown, constrained = False\<rparr>"

record hands_data =
  left_hand :: single_hand_data
  right_hand :: single_hand_data
  lhand_valid :: bool
  rhand_valid :: bool

definition new_hands_data :: hands_data where
  "new_hands_data =
     \<lparr>left_hand = new_single_hand_data, right_hand = new_single_hand_data,
      lhand_valid = False, rhand_valid = False\<rparr>"

record kpt2d_internal =
  lhand_lcam_kpt :: "vec2 list"
  lhand_rcam_kpt :: "vec2 list"
  rhand_lcam_kpt :: "vec2 list"
  rhand_rcam_kpt :: "vec2 list"
  lhand_lcam_rdepth :: "real list"
  lhand_rcam_rdepth :: "real list"
  rhand_lcam_rdepth :: "real list"
  rhand_rcam_rdepth :: "real list"
  lhand_lcam_virtual_camera :: "nat option"
  lhand_rcam_virtual_camera :: "nat option"
  rhand_lcam_virtual_camera :: "nat option"
  rhand_rcam_virtual_camera :: "nat option"
  k_lhand_lcam_valid :: bool
  k_lhand_rcam_valid :: bool
  k_rhand_lcam_valid :: bool
  k_rhand_rcam_valid :: bool
  lhand_hold_label :: bool
  rhand_hold_label :: bool
  lhand_lcam_raw_feats :: "real list"
  lhand_lcam_pred_x :: "real list"
  lhand_lcam_pred_y :: "real list"
  rhand_rcam_raw_feats :: "real list"
  rhand_rcam_pred_x :: "real list"
  rhand_rcam_pred_y :: "real list"

text \<open>\<open>Kpt2dInternal::clear\<close>: the mono features at the end of the struct are not cleared.\<close>

definition kpt2d_clear :: "kpt2d_internal \<Rightarrow> kpt2d_internal" where
  "kpt2d_clear k = k
     \<lparr>lhand_lcam_kpt := [], lhand_rcam_kpt := [], rhand_lcam_kpt := [], rhand_rcam_kpt := [],
      lhand_lcam_rdepth := [], lhand_rcam_rdepth := [], rhand_lcam_rdepth := [],
      rhand_rcam_rdepth := [], lhand_lcam_virtual_camera := None,
      lhand_rcam_virtual_camera := None, rhand_lcam_virtual_camera := None,
      rhand_rcam_virtual_camera := None, k_lhand_lcam_valid := False,
      k_lhand_rcam_valid := False, k_rhand_lcam_valid := False, k_rhand_rcam_valid := False,
      lhand_hold_label := False, rhand_hold_label := False\<rparr>"

record det_output =
  images_lhand_rects :: "detect_rect list list"
  images_rhand_rects :: "detect_rect list list"
  lhand_lcam_rect :: detect_rect
  lhand_rcam_rect :: detect_rect
  rhand_lcam_rect :: detect_rect
  rhand_rcam_rect :: detect_rect
  lhand_lcam_valid :: bool
  lhand_rcam_valid :: bool
  rhand_lcam_valid :: bool
  rhand_rcam_valid :: bool
  det_flag :: bool

definition det_clear :: "det_output \<Rightarrow> det_output" where
  "det_clear d = d\<lparr>lhand_lcam_valid := False, lhand_rcam_valid := False,
     rhand_lcam_valid := False, rhand_rcam_valid := False\<rparr>"

section \<open>MonoBinoSwitchCalculator\<close>

text \<open>
  \<^verbatim>\<open>aisdk/algorithm/calculator/mono_bino_switch_calculator.cpp\<close>. \<open>Open\<close> takes the mode of
  the graph's options unless it is empty; \<open>Process\<close> filters the validity flags.
\<close>

definition mono_bino_open :: "string \<Rightarrow> string \<Rightarrow> string" where
  "mono_bino_open mode option_mode = (if option_mode \<noteq> [] then option_mode else mode)"

definition mono_bino_process :: "string \<Rightarrow> det_output \<Rightarrow> det_output" where
  "mono_bino_process mode bbox =
     (if mode = ''MONO'' then bbox\<lparr>rhand_lcam_valid := False, lhand_rcam_valid := False\<rparr>
      else if mode = ''BINO'' then
        bbox\<lparr>lhand_lcam_valid := lhand_lcam_valid bbox \<and> lhand_rcam_valid bbox,
             lhand_rcam_valid := lhand_lcam_valid bbox \<and> lhand_rcam_valid bbox,
             rhand_lcam_valid := rhand_lcam_valid bbox \<and> rhand_rcam_valid bbox,
             rhand_rcam_valid := rhand_lcam_valid bbox \<and> rhand_rcam_valid bbox\<rparr>
      else if mode = ''SWITCH'' then
        (let o1 = (if \<not> lhand_lcam_valid bbox then bbox\<lparr>lhand_rcam_valid := False\<rparr> else bbox)
         in if \<not> rhand_rcam_valid bbox then o1\<lparr>rhand_lcam_valid := False\<rparr> else o1)
      else bbox)"

text \<open>
  In every mode the switch only clears validity flags, leaves the rectangles alone, and
  is idempotent; in mode BINO a hand is valid in both images or in neither, in mode SWITCH a
  hand valid in its secondary camera is valid in its main camera.
\<close>

lemma mono_bino_filters:
  "(lhand_lcam_valid (mono_bino_process m b) \<longrightarrow> lhand_lcam_valid b) \<and>
   (lhand_rcam_valid (mono_bino_process m b) \<longrightarrow> lhand_rcam_valid b) \<and>
   (rhand_lcam_valid (mono_bino_process m b) \<longrightarrow> rhand_lcam_valid b) \<and>
   (rhand_rcam_valid (mono_bino_process m b) \<longrightarrow> rhand_rcam_valid b) \<and>
   lhand_lcam_rect (mono_bino_process m b) = lhand_lcam_rect b \<and>
   rhand_rcam_rect (mono_bino_process m b) = rhand_rcam_rect b \<and>
   mono_bino_process m (mono_bino_process m b) = mono_bino_process m b \<and>
   (m = ''BINO'' \<longrightarrow>
      lhand_lcam_valid (mono_bino_process m b) = lhand_rcam_valid (mono_bino_process m b) \<and>
      rhand_lcam_valid (mono_bino_process m b) = rhand_rcam_valid (mono_bino_process m b)) \<and>
   (m = ''SWITCH'' \<longrightarrow>
      (lhand_rcam_valid (mono_bino_process m b) \<longrightarrow> lhand_lcam_valid (mono_bino_process m b)) \<and>
      (rhand_lcam_valid (mono_bino_process m b) \<longrightarrow> rhand_rcam_valid (mono_bino_process m b)))"
  by (cases "m = ''MONO''"; cases "m = ''BINO''"; cases "m = ''SWITCH''")
    (simp_all add: mono_bino_process_def Let_def)

definition example_det :: det_output where
  "example_det =
     (let r = \<lparr>rx = 10, ry = 20, rw = 30, rh = 40, confidence = 1, left_confidence = 1,
               right_confidence = 0, is_left = True, nms_suppressed = False\<rparr>
      in \<lparr>images_lhand_rects = [], images_rhand_rects = [], lhand_lcam_rect = r,
          lhand_rcam_rect = r, rhand_lcam_rect = r, rhand_rcam_rect = r,
          lhand_lcam_valid = True, lhand_rcam_valid = False, rhand_lcam_valid = True,
          rhand_rcam_valid = True, det_flag = True\<rparr>)"

end
