(* ===== verification/Gesture.thy ===== *)
theory Gesture
  imports HandTypes
begin

text \<open>
  Gesture recognition: \<^verbatim>\<open>aisdk/algorithm/func/gesture_recognition_v2.{h,cpp}\<close> and the
  calculator \<^verbatim>\<open>gesture_recognition_calculator.cpp\<close> that runs one recogniser per hand. The
  finger states are updated with hysteresis from frame to frame; the rules read them.
\<close>

section \<open>Finger features\<close>

datatype fingure_state = FUnknown | FOpen | FNeutral | FClosed

datatype hand_orientation = OUnknown | OHorizontal | OVertical | OOther

record fingure_feature =
  curl :: fingure_state
  flexion :: fingure_state
  abduction :: fingure_state
  opposition :: fingure_state

definition new_fingure_feature :: fingure_feature where
  "new_fingure_feature =
     \<lparr>curl = FUnknown, flexion = FUnknown, abduction = FUnknown, opposition = FUnknown\<rparr>"

record hand_feature =
  orientation :: hand_orientation
  thumb :: fingure_feature
  index :: fingure_feature
  middle :: fingure_feature
  ring :: fingure_feature
  pinky :: fingure_feature

definition new_hand_feature :: hand_feature where
  "new_hand_feature =
     \<lparr>orientation = OUnknown, thumb = new_fingure_feature, index = new_fingure_feature,
      middle = new_fingure_feature, ring = new_fingure_feature, pinky = new_fingure_feature\<rparr>"

text \<open>A \<open>std::array<FingureState, 5>\<close>, thumb first.\<close>

type_synonym five = "fingure_state \<times> fingure_state \<times> fingure_state \<times> fingure_state \<times> fingure_state"

fun set_curl_features :: "five \<Rightarrow> hand_feature \<Rightarrow> hand_feature" where
  "set_curl_features (f0, f1, f2, f3, f4) h =
     h\<lparr>thumb := (thumb h)\<lparr>curl := f0\<rparr>, index := (index h)\<lparr>curl := f1\<rparr>,
       middle := (middle h)\<lparr>curl := f2\<rparr>, ring := (ring h)\<lparr>curl := f3\<rparr>,
       pinky := (pinky h)\<lparr>curl := f4\<rparr>\<rparr>"

fun set_flexion_features :: "five \<Rightarrow> hand_feature \<Rightarrow> hand_feature" where
  "set_flexion_features (f0, f1, f2, f3, f4) h =
     h\<lparr>thumb := (thumb h)\<lparr>flexion := f0\<rparr>, index := (index h)\<lparr>flexion := f1\<rparr>,
       middle := (middle h)\<lparr>flexion := f2\<rparr>, ring := (ring h)\<lparr>flexion := f3\<rparr>,
       pinky := (pinky h)\<lparr>flexion := f4\<rparr>\<rparr>"

fun set_abduction_features :: "five \<Rightarrow> hand_feature \<Rightarrow> hand_feature" where
  "set_abduction_features (f0, f1, f2, f3, f4) h =
     h\<lparr>thumb := (thumb h)\<lparr>abduction := f0\<rparr>, index := (index h)\<lparr>abduction := f1\<rparr>,
       middle := (middle h)\<lparr>abduction := f2\<rparr>, ring := (ring h)\<lparr>abduction := f3\<rparr>,
       pinky := (pinky h)\<lparr>abduction := f4\<rparr>\<rparr>"

fun set_opposition_features :: "five \<Rightarrow> hand_feature \<Rightarrow> hand_feature" where
  "set_opposition_features (f0, f1, f2, f3, f4) h =
     h\<lparr>thumb := (thumb h)\<lparr>opposition := f0\<rparr>, index := (index h)\<lparr>opposition := f1\<rparr>,
       middle := (middle h)\<lparr>opposition := f2\<rparr>, ring := (ring h)\<lparr>opposition := f3\<rparr>,
       pinky := (pinky h)\<lparr>opposition := f4\<rparr>\<rparr>"

definition curl_features :: "hand_feature \<Rightarrow> five" where
  "curl_features h = (curl (thumb h), curl (index h), curl (middle h), curl (ring h), curl (pinky h))"

definition flexion_features :: "hand_feature \<Rightarrow> five" where
  "flexion_features h =
     (flexion (thumb h), flexion (index h), flexion (middle h), flexion (ring h), flexion (pinky h))"

definition abduction_features :: "hand_feature \<Rightarrow> five" where
  "abduction_features h =
     (abduction (thumb h), abduction (index h), abduction (middle h), abduction (ring h),
      abduction (pinky h))"

definition opposition_features :: "hand_feature \<Rightarrow> five" where
  "opposition_features h =
     (opposition (thumb h), opposition (index h), opposition (middle h), opposition (ring h),
      opposition (pinky h))"

lemmas feature_defs = curl_features_def flexion_features_def abduction_features_def
  opposition_features_def

section \<open>HandFeatureUpdator\<close>

text \<open>Its public thresholds are members (two have setters); the private ones are constants.\<close>

record updator =
  cur_hand_feature :: hand_feature
  opposition_closed_th :: real
  opposition_open_th :: real
  opposition_th_width :: real
  opposition_relax_closed_th :: real
  opposition_relax_th_width :: real
  opposition_move_closed_th :: real
  opposition_move_th_width :: real

definition new_updator :: updator where
  "new_updator =
     \<lparr>cur_hand_feature = new_hand_feature, opposition_closed_th = 0.017, opposition_open_th = 0.1,
      opposition_th_width = 0.006, opposition_relax_closed_th = 0.026,
      opposition_relax_th_width = 0.01, opposition_move_closed_th = 0.023,
      opposition_move_th_width = 0.016\<rparr>"

definition reset_feature_updator :: "updator \<Rightarrow> updator" where
  "reset_feature_updator u = u\<lparr>cur_hand_feature := new_hand_feature\<rparr>"

definition update_fingure_state ::
    "fl \<Rightarrow> real \<Rightarrow> real \<Rightarrow> real \<Rightarrow> fingure_state \<Rightarrow> fingure_state" where
  "update_fingure_state value close_th open_th width state =
     (if fl_le value (close_th - width / 2) then FClosed
      else if fl_gt value (close_th + width / 2) \<and> fl_lt value (open_th - width / 2) then FNeutral
      else if fl_gt value (open_th + width / 2) then FOpen
      else state)"

text \<open>The second test reads \<open>60 <= hand_angle && 60 <= 120\<close>.\<close>

definition update_hand_orientation :: "fl \<Rightarrow> hand_feature \<Rightarrow> hand_feature" where
  "update_hand_orientation hand_angle h =
     (if (fl_ge hand_angle 0 \<and> fl_le hand_angle 30) \<or> (fl_ge hand_angle 150 \<and> fl_le hand_angle 180)
      then h\<lparr>orientation := OHorizontal\<rparr>
      else if fl_ge hand_angle 60 \<and> (60 :: real) \<le> 120 then h\<lparr>orientation := OVertical\<rparr>
      else h\<lparr>orientation := OOther\<rparr>)"

text \<open>The three angles of a finger (a \<open>Vector3f\<close> of the code).\<close>

type_synonym angles3 = "fl \<times> fl \<times> fl"

definition update_curl_feature :: "angles3 list \<Rightarrow> hand_feature \<Rightarrow> hand_feature" where
  "update_curl_feature angles h =
     (case curl_features h of (f0, f1, f2, f3, f4) \<Rightarrow>
        let thumb_angle = fl_sub 180 (snd (snd (angles ! 0)));
            angle = (\<lambda>i. fl_minus (fl_sub 180 (fst (snd (angles ! i)))) (snd (snd (angles ! i))));
            other = (\<lambda>i f. update_fingure_state (angle i) 80 130 10 f)
        in set_curl_features
             (update_fingure_state thumb_angle 140 155 10 f0, other 1 f1, other 2 f2, other 3 f3,
              other 4 f4) h)"

text \<open>The starting states come from \<open>curl_features\<close>, as in the code.\<close>

definition update_flexion_feature :: "angles3 list \<Rightarrow> hand_feature \<Rightarrow> hand_feature" where
  "update_flexion_feature angles h =
     (case curl_features h of (f0, f1, f2, f3, f4) \<Rightarrow>
        let thumb_angle = fl_sub 180 (fst (snd (angles ! 0)));
            other = (\<lambda>i f. update_fingure_state (fl_sub 180 (fst (angles ! i))) 110 145 8 f)
        in set_flexion_features
             (update_fingure_state thumb_angle 120 150 8 f0, other 1 f1, other 2 f2, other 3 f3,
              other 4 f4) h)"

definition update_abduction_feature :: "fl list \<Rightarrow> hand_feature \<Rightarrow> hand_feature" where
  "update_abduction_feature angles h =
     (case abduction_features h of (f0, f1, f2, f3, f4) \<Rightarrow>
        let other = (\<lambda>i f. update_fingure_state (angles ! i) 10 13 2 f)
        in set_abduction_features
             (update_fingure_state (angles ! 0) 20 35 2 f0, other 1 f1, other 2 f2, other 3 f3, f4) h)"

definition update_opposition_feature :: "real list \<Rightarrow> bool \<Rightarrow> bool \<Rightarrow> updator \<Rightarrow> updator" where
  "update_opposition_feature distances relax_th_flag move_flag u =
     (case opposition_features (cur_hand_feature u) of (f0, f1, f2, f3, f4) \<Rightarrow>
        let (c, w) = (opposition_closed_th u, opposition_th_width u);
            (c, w) = (if move_flag then (opposition_move_closed_th u, opposition_move_th_width u)
                      else (c, w));
            (c, w) = (if relax_th_flag then (opposition_relax_closed_th u, opposition_relax_th_width u)
                      else (c, w));
            new = (\<lambda>i f. update_fingure_state (Some (distances ! i)) c (opposition_open_th u) w f)
        in u\<lparr>cur_hand_feature :=
               set_opposition_features (f0, new 0 f1, new 1 f2, new 2 f3, new 3 f4)
                 (cur_hand_feature u)\<rparr>)"

definition updator_update :: "angles3 list \<Rightarrow> fl list \<Rightarrow> real list \<Rightarrow> fl \<Rightarrow> bool \<Rightarrow> bool \<Rightarrow> bool
    \<Rightarrow> updator \<Rightarrow> hand_feature \<times> updator" where
  "updator_update fingure_angles abduction_angles distances hand_angle release_th_flag
       is_pinch_masked move_flag u =
     (let u = u\<lparr>cur_hand_feature := update_curl_feature fingure_angles (cur_hand_feature u)\<rparr>;
          u = u\<lparr>cur_hand_feature := update_flexion_feature fingure_angles (cur_hand_feature u)\<rparr>;
          u = u\<lparr>cur_hand_feature := update_abduction_feature abduction_angles (cur_hand_feature u)\<rparr>;
          u = (if \<not> is_pinch_masked
               then update_opposition_feature distances release_th_flag move_flag u else u);
          u = u\<lparr>cur_hand_feature := update_hand_orientation hand_angle (cur_hand_feature u)\<rparr>
      in (cur_hand_feature u, u))"

section \<open>The match rules\<close>

record hand_raw_feature =
  fingure_angles :: "angles3 list"
  abduction_angles :: "fl list"
  opposition_distances :: "real list"
  hand_angle :: fl
  is_thumb_up :: bool
  is_thumb_closed :: fl
  feature :: hand_feature
  pinch_velocity :: real
  root_velocity :: real
  pinch_distance :: real
  last_gesture :: hand_gesture

definition rule_click :: "hand_feature \<Rightarrow> hand_raw_feature \<Rightarrow> bool" where
  "rule_click h raw =
     (curl (index h) = FOpen \<and> curl (middle h) = FClosed \<and> curl (ring h) = FClosed \<and>
      curl (pinky h) = FClosed \<and> opposition (index h) \<noteq> FClosed \<and>
      (curl (thumb h) \<noteq> FOpen \<or>
       (abduction (thumb h) \<noteq> FClosed \<and> fl_lt (is_thumb_closed raw) 0.05)))"

definition rule_grab :: "hand_feature \<Rightarrow> hand_raw_feature \<Rightarrow> bool" where
  "rule_grab h raw =
     (curl (index h) = FClosed \<and> curl (middle h) = FClosed \<and> curl (ring h) = FClosed \<and>
      curl (pinky h) = FClosed \<and> curl (thumb h) \<noteq> FOpen)"

definition rule_open_hand :: "hand_feature \<Rightarrow> hand_raw_feature \<Rightarrow> bool" where
  "rule_open_hand h raw =
     (curl (thumb h) = FOpen \<and> curl (index h) \<noteq> FClosed \<and> curl (middle h) = FOpen \<and>
      curl (ring h) = FOpen \<and> curl (pinky h) = FOpen \<and> flexion (index h) \<noteq> FClosed \<and>
      flexion (middle h) = FOpen \<and> flexion (ring h) = FOpen \<and> flexion (pinky h) = FOpen)"

definition pinch_v_th :: real where "pinch_v_th = - 0.015"

definition pinch_min_th :: real where "pinch_min_th = 0.010"

definition rule_pinch :: "hand_feature \<Rightarrow> hand_raw_feature \<Rightarrow> bool" where
  "rule_pinch h raw =
     (let pinch_flag = (opposition (index h) = FClosed)
      in if last_gesture raw \<noteq> GPinch
         then (pinch_flag \<and> pinch_velocity raw < pinch_v_th) \<or> pinch_distance raw < pinch_min_th
         else pinch_flag)"

definition rule_victory :: "hand_feature \<Rightarrow> hand_raw_feature \<Rightarrow> bool" where
  "rule_victory h raw =
     (curl (index h) = FOpen \<and> curl (middle h) = FOpen \<and> curl (ring h) = FClosed \<and>
      curl (pinky h) \<noteq> FOpen \<and> abduction (index h) = FOpen \<and> curl (thumb h) \<noteq> FOpen)"

definition rule_call :: "hand_feature \<Rightarrow> hand_raw_feature \<Rightarrow> bool" where
  "rule_call h raw =
     (curl (thumb h) = FOpen \<and>
      (curl (index h) = FClosed \<or> flexion (index h) = FClosed) \<and>
      (curl (middle h) = FClosed \<or> flexion (middle h) = FClosed) \<and>
      (curl (ring h) = FClosed \<or> flexion (ring h) = FClosed) \<and> curl (pinky h) \<noteq> FClosed)"

definition rule_home :: "hand_feature \<Rightarrow> hand_raw_feature \<Rightarrow> bool" where
  "rule_home h raw =
     ((curl (thumb h) = FClosed \<or> flexion (thumb h) = FClosed) \<and> curl (index h) = FOpen \<and>
      curl (middle h) = FOpen \<and> curl (ring h) = FOpen \<and> curl (pinky h) = FOpen \<and>
      orientation h = OHorizontal)"

definition rule_thumb_up :: "hand_feature \<Rightarrow> hand_raw_feature \<Rightarrow> bool" where
  "rule_thumb_up h raw =
     (curl (index h) = FClosed \<and> curl (middle h) = FClosed \<and> curl (ring h) = FClosed \<and>
      curl (pinky h) = FClosed \<and> abduction (thumb h) = FOpen \<and> is_thumb_up raw)"

lemmas rule_defs = rule_click_def rule_grab_def rule_open_hand_def rule_pinch_def
  rule_victory_def rule_call_def rule_home_def rule_thumb_up_def

text \<open>\<open>GestureFunctionMap\<close>: no entry for \<open>Invalid\<close>.\<close>

fun gesture_function_map :: "hand_gesture \<Rightarrow> (hand_feature \<Rightarrow> hand_raw_feature \<Rightarrow> bool) option" where
  "gesture_function_map GClick = Some rule_click"
| "gesture_function_map GGrab = Some rule_grab"
| "gesture_function_map GOpenHand = Some rule_open_hand"
| "gesture_function_map GPinch = Some rule_pinch"
| "gesture_function_map GVictory = Some rule_victory"
| "gesture_function_map GCall = Some rule_call"
| "gesture_function_map GHome = Some rule_home"
| "gesture_function_map GThumbUp = Some rule_thumb_up"
| "gesture_function_map GInvalid = None"

text \<open>The enumerators of \<open>HandGesture\<close> below \<open>MaxNum\<close>, in the order of their values.\<close>

definition all_gestures :: "hand_gesture list" where
  "all_gestures =
     [GInvalid, GPinch, GClick, GGrab, GThumbUp, GOpenHand, GVictory, GCall, GHome]"

fun first_match :: "hand_gesture list \<Rightarrow> hand_feature \<Rightarrow> hand_raw_feature \<Rightarrow> hand_gesture" where
  "first_match [] h raw = GInvalid"
| "first_match (g # gs) h raw =
     (case gesture_function_map g of
        Some f \<Rightarrow> if f h raw then g else first_match gs h raw
      | None \<Rightarrow> first_match gs h raw)"

section \<open>Feature extraction\<close>

text \<open>\<open>points\<close> are five fingers of five points each, root first.\<close>

definition vector3d_angle_thumb :: "vec3 \<Rightarrow> vec3 \<Rightarrow> vec3 \<Rightarrow> vec3 \<Rightarrow> fl" where
  "vector3d_angle_thumb x y x' y' =
     (let angle_value = vector3d_angle x y; dot_ref = dot3 (cross3 x y) (cross3 x' y')
      in if dot_ref < 0 then fl_neg angle_value else angle_value)"

definition calculate_fingure_angles :: "vec3 list list \<Rightarrow> angles3 list" where
  "calculate_fingure_angles points =
     map (\<lambda>i. let d = (\<lambda>a b. sub3 (points ! i ! a) (points ! i ! b)) in
       (vector3d_angle (d 1 0) (d 2 1),
        vector3d_angle (d 2 1) (d 3 2),
        if i = 0
        then vector3d_angle_thumb (d 3 2) (d 4 3) (d 1 0) (sub3 (points ! 2 ! 1) (points ! 2 ! 0))
        else vector3d_angle (d 3 2) (d 4 3))) [0..<5]"

definition calculate_opposition_distances :: "vec3 list list \<Rightarrow> real list" where
  "calculate_opposition_distances points =
     map (\<lambda>i. norm3 (sub3 (last (points ! i)) (last (points ! 0)))) [1..<5]"

definition calculate_abduction_angles :: "vec3 list list \<Rightarrow> fl list" where
  "calculate_abduction_angles points =
     map (\<lambda>i. vector3d_angle (sub3 (points ! i ! 2) (points ! i ! 0))
                           (sub3 (points ! (i + 1) ! 2) (points ! (i + 1) ! 0))) [0..<4]"

definition plane_normal_3points :: "vec3 \<Rightarrow> vec3 \<Rightarrow> vec3 \<Rightarrow> vec3" where
  "plane_normal_3points pt_o pt_a pt_b = normalized3 (cross3 (sub3 pt_a pt_o) (sub3 pt_b pt_o))"

definition from_two_vectors :: "vec3 \<Rightarrow> vec3 \<Rightarrow> real" where
  "from_two_vectors src dst = arccos (dot3 (normalized3 src) (normalized3 dst)) / pi * 180"

text \<open>
  With a degenerate triangle both numerators vanish with the denominator, \<open>u\<close> and \<open>v\<close> are
  zero times infinity, a NaN, and the answer is false.
\<close>

definition is_inside_triangle :: "vec2 \<Rightarrow> vec2 \<Rightarrow> vec2 \<Rightarrow> vec2 \<Rightarrow> real \<Rightarrow> bool" where
  "is_inside_triangle pt a b c scale =
     (let mean = scale2 (1 / 3) (add2 (add2 a b) c);
          resize = (\<lambda>v. add2 (scale2 scale (sub2 v mean)) mean);
          b_a = sub2 (resize b) (resize a); c_a = sub2 (resize c) (resize a);
          pt_a = sub2 pt (resize a);
          dot00 = dot2 b_a b_a; dot01 = dot2 b_a c_a; dot02 = dot2 b_a pt_a;
          dot11 = dot2 c_a c_a; dot12 = dot2 c_a pt_a;
          denom = dot00 * dot11 - dot01 * dot01
      in denom \<noteq> 0 \<and>
         (let u = (dot11 * dot02 - dot01 * dot12) / denom;
              v = (dot00 * dot12 - dot01 * dot02) / denom
          in 0 \<le> u \<and> 0 \<le> v \<and> u + v < 1))"

definition is_face_to_head :: "vec3 list list \<Rightarrow> bool \<Rightarrow> bool" where
  "is_face_to_head points is_left_hand =
     (let root = points ! 0 ! 0; index_pt = points ! 1 ! 1; ring_pt = points ! 3 ! 1;
          palm = (if is_left_hand then plane_normal_3points root ring_pt index_pt
                  else plane_normal_3points root index_pt ring_pt)
      in from_two_vectors palm (v3 0 0 (-1)) < 60 \<or> from_two_vectors palm (v3 0 (-1) 0) < 70)"

definition is_pinch_masked :: "vec2 list \<Rightarrow> bool \<Rightarrow> hand_gesture \<Rightarrow> bool" where
  "is_pinch_masked kpts face_to_head prev =
     (is_inside_triangle (kpts ! 4) (kpts ! 1) (kpts ! 6) (kpts ! 17) 1.1 \<and>
      is_inside_triangle (kpts ! 8) (kpts ! 1) (kpts ! 6) (kpts ! 17) 1.1 \<and>
      \<not> face_to_head \<and> prev = GPinch)"

definition get_pinch_velocity :: "vec3 list list \<Rightarrow> vec3 list list \<Rightarrow> real" where
  "get_pinch_velocity last_kpt3d points =
     (if last_kpt3d \<noteq> [] then
        let last_distance = norm3 (sub3 (last_kpt3d ! 1 ! 4) (last_kpt3d ! 0 ! 4));
            cur_distance = norm3 (sub3 (points ! 1 ! 4) (points ! 0 ! 4))
        in (cur_distance - last_distance) / (1 / 30)
      else -1)"

definition distance_point_to_line :: "vec3 \<Rightarrow> vec3 \<Rightarrow> vec3 \<Rightarrow> fl" where
  "distance_point_to_line a b c =
     (let ab = sub3 a b; bc = sub3 c b
      in if norm3 bc = 0 then None else Some (norm3 (cross3 ab bc) / norm3 bc))"

section \<open>GestureRecognitionV2\<close>

record gesture_recognition =
  feature_updator :: updator
  gr_last_gesture :: hand_gesture
  last_kpt3d :: "vec3 list list"

definition new_gesture_recognition :: gesture_recognition where
  "new_gesture_recognition =
     \<lparr>feature_updator = new_updator, gr_last_gesture = GInvalid, last_kpt3d = []\<rparr>"

definition set_pinch_close_th :: "real \<Rightarrow> gesture_recognition \<Rightarrow> gesture_recognition" where
  "set_pinch_close_th v g =
     g\<lparr>feature_updator := (feature_updator g)\<lparr>opposition_closed_th := v\<rparr>\<rparr>"

definition set_pinch_close_th_width :: "real \<Rightarrow> gesture_recognition \<Rightarrow> gesture_recognition" where
  "set_pinch_close_th_width v g =
     g\<lparr>feature_updator := (feature_updator g)\<lparr>opposition_th_width := v\<rparr>\<rparr>"

definition gr_reset_feature :: "gesture_recognition \<Rightarrow> gesture_recognition" where
  "gr_reset_feature g =
     g\<lparr>feature_updator := reset_feature_updator (feature_updator g), gr_last_gesture := GInvalid\<rparr>"

definition extract_hand_feature ::
    "vec3 list list \<Rightarrow> vec2 list \<Rightarrow> bool \<Rightarrow> bool \<Rightarrow> real \<Rightarrow> bool \<Rightarrow> gesture_recognition
     \<Rightarrow> (hand_raw_feature \<times> hand_feature) \<times> gesture_recognition" where
  "extract_hand_feature points kpts2d is_left_hand is_tracked hand_v mono_cam g =
     (let angles = calculate_fingure_angles points;
          abd = calculate_abduction_angles points;
          opp = calculate_opposition_distances points;
          h_angle = vector3d_angle (sub3 (points ! 2 ! 4) (points ! 2 ! 1)) (v3 1 0 0);
          raw = \<lparr>fingure_angles = angles, abduction_angles = abd, opposition_distances = opp,
                 hand_angle = h_angle,
                 is_thumb_up = (vy (points ! 0 ! 3) - vy (points ! 0 ! 2) < - 0.015 \<and>
                                vy (points ! 0 ! 4) - vy (points ! 0 ! 3) < - 0.015),
                 is_thumb_closed =
                   distance_point_to_line (points ! 0 ! 4) (points ! 2 ! 4) (points ! 2 ! 2),
                 feature = new_hand_feature,
                 pinch_velocity =
                   (if is_tracked then get_pinch_velocity (last_kpt3d g) points else 0),
                 root_velocity = 0, pinch_distance = opp ! 0, last_gesture = gr_last_gesture g\<rparr>;
          g1 = g\<lparr>last_kpt3d := (if is_tracked then points else [])\<rparr>;
          is_to_face = is_face_to_head points is_left_hand;
          pinch_masked = is_pinch_masked kpts2d is_to_face (gr_last_gesture g);
          (hf, u) = updator_update angles abd opp h_angle (is_to_face \<or> mono_cam) pinch_masked
                      (hand_v > 0.1) (feature_updator g1)
      in ((raw, hf), g1\<lparr>feature_updator := u\<rparr>))"

definition finger_points :: "vec3 list \<Rightarrow> vec3 list list" where
  "finger_points kpt =
     (let root = kpt ! 0; hand_length = norm3 (sub3 (kpt ! 9) (kpt ! 0)) in
      map (\<lambda>i. sub3 root root #
             map (\<lambda>j. scale3 (1 / hand_length) (scale3 0.08 (sub3 (kpt ! (i * 4 + j + 1)) root)))
               [0..<4])
        [0..<5])"

text \<open>
  \<open>predict_with_keypoints3d\<close>. A hand of length zero makes the code divide by zero; the
  result None says that the arithmetic left the reals.
\<close>

definition predict_with_keypoints3d ::
    "single_hand_data \<Rightarrow> vec2 list \<Rightarrow> bool \<Rightarrow> bool \<Rightarrow> real \<Rightarrow> gesture_recognition
     \<Rightarrow> ((hand_gesture \<times> hand_raw_feature) \<times> gesture_recognition) option" where
  "predict_with_keypoints3d hand kpts2d is_left_hand is_tracked hand_v g =
     (if norm3 (sub3 (kpt3d hand ! 9) (kpt3d hand ! 0)) = 0 then None
      else (case extract_hand_feature (finger_points (kpt3d hand)) kpts2d is_left_hand is_tracked
                   hand_v (source hand = CamMono) g of
              ((raw, hf), g1) \<Rightarrow>
                let raw = raw\<lparr>feature := hf\<rparr>; res = first_match all_gestures hf raw
                in Some ((res, raw), g1\<lparr>gr_last_gesture := res\<rparr>)))"

section \<open>GestureRecognitionCalculator\<close>

record gesture_calculator =
  classifier_lhand :: gesture_recognition
  classifier_rhand :: gesture_recognition

definition gesture_calc_open :: "real \<Rightarrow> real \<Rightarrow> gesture_calculator" where
  "gesture_calc_open pinch_th pinch_th_width =
     (let g = new_gesture_recognition;
          g = (if pinch_th > 0 then set_pinch_close_th pinch_th g else g);
          g = (if pinch_th_width > 0 then set_pinch_close_th_width pinch_th_width g else g)
      in \<lparr>classifier_lhand = g, classifier_rhand = g\<rparr>)"

text \<open>
  One hand of \<open>Process\<close>: the reported gesture (\<open>Invalid\<close> when the hand is not valid, or when
  the hand-held label is set) and the classifier afterwards.
\<close>

definition gesture_one_hand :: "bool \<Rightarrow> single_hand_data \<Rightarrow> vec2 list \<Rightarrow> bool \<Rightarrow> bool \<Rightarrow> bool \<Rightarrow> vec3
    \<Rightarrow> gesture_recognition \<Rightarrow> (hand_gesture \<times> gesture_recognition) option" where
  "gesture_one_hand valid hand kpts hold_label is_left_hand pre_valid pre_root_v g =
     (if valid then
        (case predict_with_keypoints3d hand kpts is_left_hand pre_valid (norm3 pre_root_v) g of
           None \<Rightarrow> None
         | Some ((res, raw), g') \<Rightarrow> Some (if hold_label then GInvalid else res, g'))
      else Some (GInvalid, g))"

definition gesture_calc_process :: "hands_data \<Rightarrow> kpt2d_internal \<Rightarrow> hands_data \<Rightarrow> gesture_calculator
    \<Rightarrow> ((hand_gesture \<times> hand_gesture) \<times> gesture_calculator) option" where
  "gesture_calc_process kpt3d_data kpt2d_data pre c =
     (case gesture_one_hand (lhand_valid kpt3d_data) (left_hand kpt3d_data)
             (lhand_lcam_kpt kpt2d_data) (lhand_hold_label kpt2d_data) True (lhand_valid pre)
             (root_v (left_hand pre)) (classifier_lhand c) of
        None \<Rightarrow> None
      | Some (lg, l) \<Rightarrow>
          (case gesture_one_hand (rhand_valid kpt3d_data) (right_hand kpt3d_data)
                  (rhand_rcam_kpt kpt2d_data) (rhand_hold_label kpt2d_data) False
                  (rhand_valid pre) (root_v (right_hand pre)) (classifier_rhand c) of
             None \<Rightarrow> None
           | Some (rg, r) \<Rightarrow>
               Some ((lg, rg), c\<lparr>classifier_lhand := l, classifier_rhand := r\<rparr>)))"

section \<open>Hysteresis\<close>

lemma update_fingure_state_Some:
  "update_fingure_state (Some v) c o' w st =
     (if v \<le> c - w / 2 then FClosed
      else if c + w / 2 < v \<and> v < o' - w / 2 then FNeutral
      else if o' + w / 2 < v then FOpen else st)"
  by (simp add: update_fingure_state_def fl_defs)

lemma update_fingure_state_NaN [simp]: "update_fingure_state None c o' w st = st"
  by (simp add: update_fingure_state_def fl_defs)

definition track_fingure :: "real \<Rightarrow> real \<Rightarrow> real \<Rightarrow> real list \<Rightarrow> fingure_state \<Rightarrow> fingure_state" where
  "track_fingure c o' w vs st = fold (\<lambda>v. update_fingure_state (Some v) c o' w) vs st"

lemma track_keeps_closed:
  "0 \<le> w \<Longrightarrow> c < o' \<Longrightarrow> \<forall>v\<in>set vs. v \<le> c + w / 2 \<Longrightarrow> track_fingure c o' w vs FClosed = FClosed"
  by (induction vs) (auto simp: track_fingure_def update_fingure_state_Some)

lemma track_not_closed:
  "0 \<le> w \<Longrightarrow> \<forall>v\<in>set vs. c - w / 2 < v \<Longrightarrow> st \<noteq> FClosed \<Longrightarrow> track_fingure c o' w vs st \<noteq> FClosed"
proof (induction vs arbitrary: st)
  case Nil
  then show ?case by (simp add: track_fingure_def)
next
  case (Cons v vs)
  then have "update_fingure_state (Some v) c o' w st \<noteq> FClosed"
    by (auto simp: update_fingure_state_Some)
  with Cons show ?case by (simp add: track_fingure_def)
qed

text \<open>
  C30: the finger state is a Schmitt trigger. Over any sequence of measurements a closed finger
  stops being closed only after a measurement above the closing threshold by half the
  width, and an unclosed one becomes closed only after a measurement below it by half the
  width: a signal that moves by less than the width around the threshold never flips it.
\<close>

theorem finger_hysteresis:
  assumes "0 \<le> w" and "c < o'"
  shows "(track_fingure c o' w vs FClosed \<noteq> FClosed \<longrightarrow> (\<exists>v\<in>set vs. c + w / 2 < v)) \<and>
         (st \<noteq> FClosed \<and> track_fingure c o' w vs st = FClosed \<longrightarrow> (\<exists>v\<in>set vs. v \<le> c - w / 2))"
  using track_keeps_closed [OF assms] track_not_closed [OF assms(1)]
  by (meson linorder_not_less)

theorem finger_hysteresis_witness:
  "\<exists>v\<in>set [90, 82 :: real]. 80 + 10 / 2 < v"
proof -
  have "track_fingure 80 130 10 [90, 82] FClosed \<noteq> FClosed"
    by (simp add: track_fingure_def update_fingure_state_Some)
  then show ?thesis using finger_hysteresis [of 10 80 130 "[90, 82]" FClosed] by simp
qed

text \<open>
  The test for a vertical hand compares the constant 60 with 120 instead of the angle, so
  every angle from 60 degrees up that is not horizontal counts as vertical, also those
  between 120 and 150 that the code means to call \<open>OTHER\<close>.
\<close>

lemma orientation_vertical_range:
  "orientation (update_hand_orientation (Some a) h) = OVertical \<longleftrightarrow>
     60 \<le> a \<and> \<not> (150 \<le> a \<and> a \<le> 180)"
  by (auto simp: update_hand_orientation_def fl_defs)

text \<open>
  \<open>update_flexion_feature\<close> takes its previous states from the curl features: the flexion it
  writes does not depend on the flexion it had, and inside the hysteresis band the flexion
  of a finger becomes its curl state.
\<close>

lemma flexion_history_is_curl:
  "(curl_features h = curl_features h' \<longrightarrow>
     flexion_features (update_flexion_feature a h) = flexion_features (update_flexion_feature a h')) \<and>
   (fst (a ! 1) = Some 70 \<longrightarrow> flexion (index (update_flexion_feature a h)) = curl (index h))"
  by (auto simp: update_flexion_feature_def feature_defs Let_def fl_sub_def
      update_fingure_state_Some)

section \<open>Which gesture is reported\<close>

lemma first_match_cases:
  "(first_match gs h raw = GInvalid \<and>
      (\<forall>g\<in>set gs. \<forall>f. gesture_function_map g = Some f \<longrightarrow> \<not> f h raw)) \<or>
   (\<exists>xs g ys f. gs = xs @ g # ys \<and> first_match gs h raw = g \<and> gesture_function_map g = Some f \<and>
      f h raw \<and> (\<forall>g'\<in>set xs. \<forall>f'. gesture_function_map g' = Some f' \<longrightarrow> \<not> f' h raw))"
proof (induction gs)
  case Nil
  then show ?case by simp
next
  case (Cons a gs)
  show ?case
  proof (cases "\<exists>f. gesture_function_map a = Some f \<and> f h raw")
    case True
    then obtain f where f: "gesture_function_map a = Some f" "f h raw" by blast
    then have "first_match (a # gs) h raw = a" by simp
    with f show ?thesis
      by (intro disjI2 exI [of _ "[]"] exI [of _ a] exI [of _ gs] exI [of _ f]) simp
  next
    case False
    then have e: "first_match (a # gs) h raw = first_match gs h raw"
      by (auto split: option.splits)
    from Cons show ?thesis
    proof
      assume "first_match gs h raw = GInvalid \<and>
        (\<forall>g\<in>set gs. \<forall>f. gesture_function_map g = Some f \<longrightarrow> \<not> f h raw)"
      with e False show ?thesis by (intro disjI1) (auto simp del: first_match.simps)
    next
      assume "\<exists>xs g ys f. gs = xs @ g # ys \<and> first_match gs h raw = g \<and>
        gesture_function_map g = Some f \<and> f h raw \<and>
        (\<forall>g'\<in>set xs. \<forall>f'. gesture_function_map g' = Some f' \<longrightarrow> \<not> f' h raw)"
      then obtain xs g ys f where "gs = xs @ g # ys" "first_match gs h raw = g"
        "gesture_function_map g = Some f" "f h raw"
        "\<forall>g'\<in>set xs. \<forall>f'. gesture_function_map g' = Some f' \<longrightarrow> \<not> f' h raw"
        by blast
      with e False show ?thesis
        by (intro disjI2 exI [of _ "a # xs"] exI [of _ g] exI [of _ ys] exI [of _ f]) auto
    qed
  qed
qed


definition example_hand :: single_hand_data where
  "example_hand = new_single_hand_data\<lparr>kpt3d := map (\<lambda>i. v3 (real i) 0 0) [0..<21]\<rparr>"


text \<open>
  The rules for click, grab, open hand, victory and home exclude each other, whatever the
  measurements, with one exception: an open hand and home can hold together.
\<close>

lemma gesture_rules_exclusive:
  assumes "f \<in> {GClick, GGrab, GOpenHand, GVictory, GHome}"
    and "g \<in> {GClick, GGrab, GOpenHand, GVictory, GHome}" and "f \<noteq> g"
    and "{f, g} \<noteq> {GOpenHand, GHome}"
    and "gesture_function_map f = Some p" and "gesture_function_map g = Some q"
  shows "\<not> (p h raw \<and> q h raw)"
  using assms by (elim insertE emptyE) (auto simp: rule_defs)

end
