(* ===== verification/OneEuro.thy ===== *)
theory OneEuro
  imports Geometry
begin

text \<open>
  The One Euro filter, \<^verbatim>\<open>aisdk/algorithm/common/ofxOneEuroFilter.{h,cpp}\<close>: a low-pass
  filter whose cutoff grows with the speed of the signal. A \<open>std::range_error\<close> is the
  value \<open>Inl\<close>. The constructor leaves \<open>lasttime_\<close> uninitialised; its value is an argument
  of the model.
\<close>

datatype filter_error = RangeError string

type_synonym 'a res = "filter_error + 'a"

definition M_PI :: real where "M_PI = 3.14159265358979323846"

definition UndefinedTime :: real where "UndefinedTime = -1"

section \<open>LowPassFilter\<close>

record low_pass =
  lp_y :: real
  lp_a :: real
  lp_s :: real
  lp_initialized :: bool

definition lp_setAlpha :: "real \<Rightarrow> low_pass \<Rightarrow> low_pass res" where
  "lp_setAlpha alpha f =
     (if alpha \<le> 0 \<or> alpha > 1 then Inl (RangeError ''alpha should be in (0.0., 1.0]'')
      else Inr (f\<lparr>lp_a := alpha\<rparr>))"

text \<open>The constructor; \<open>a\<close> is written only by \<open>setAlpha\<close>.\<close>

definition lp_new :: "real \<Rightarrow> real \<Rightarrow> low_pass res" where
  "lp_new alpha initval =
     (case lp_setAlpha alpha \<lparr>lp_y = initval, lp_a = 0, lp_s = initval, lp_initialized = False\<rparr> of
        Inl e \<Rightarrow> Inl e
      | Inr f \<Rightarrow> Inr (f\<lparr>lp_initialized := False\<rparr>))"

definition lp_filter :: "real \<Rightarrow> low_pass \<Rightarrow> real \<times> low_pass" where
  "lp_filter value f =
     (let result = (if lp_initialized f then lp_a f * value + (1 - lp_a f) * lp_s f else value)
      in (result, f\<lparr>lp_initialized := True, lp_y := value, lp_s := result\<rparr>))"

definition lp_filterWithAlpha :: "real \<Rightarrow> real \<Rightarrow> low_pass \<Rightarrow> (real \<times> low_pass) res" where
  "lp_filterWithAlpha value alpha f =
     (case lp_setAlpha alpha f of Inl e \<Rightarrow> Inl e | Inr f' \<Rightarrow> Inr (lp_filter value f'))"

definition lp_reset :: "low_pass \<Rightarrow> low_pass" where
  "lp_reset f = f\<lparr>lp_initialized := False\<rparr>"

section \<open>OneEuroFilter\<close>

record one_euro =
  freq :: real
  mincutoff :: real
  beta :: real
  dcutoff :: real
  x_filter :: low_pass
  dx_filter :: low_pass
  lasttime :: real

definition oe_alpha :: "real \<Rightarrow> real \<Rightarrow> real" where
  "oe_alpha fr cutoff =
     (let te = 1 / fr; tau = 1 / (2 * M_PI * cutoff) in 1 / (1 + tau / te))"

definition oe_new :: "real \<Rightarrow> real \<Rightarrow> real \<Rightarrow> real \<Rightarrow> real \<Rightarrow> one_euro res" where
  "oe_new lasttime0 fr mc b dc =
     (if fr \<le> 0 then Inl (RangeError ''freq should be >0'')
      else if mc \<le> 0 then Inl (RangeError ''mincutoff should be >0'')
      else if dc \<le> 0 then Inl (RangeError ''dcutoff should be >0'')
      else (case lp_new (oe_alpha fr mc) 0 of
              Inl e \<Rightarrow> Inl e
            | Inr x \<Rightarrow>
                (case lp_new (oe_alpha fr dc) 0 of
                   Inl e \<Rightarrow> Inl e
                 | Inr dx \<Rightarrow> Inr \<lparr>freq = fr, mincutoff = mc, beta = b, dcutoff = dc,
                                  x_filter = x, dx_filter = dx, lasttime = lasttime0\<rparr>)))"

definition oe_reset :: "one_euro \<Rightarrow> one_euro" where
  "oe_reset f = f\<lparr>x_filter := lp_reset (x_filter f), dx_filter := lp_reset (dx_filter f),
     lasttime := UndefinedTime\<rparr>"

text \<open>
  \<open>filter\<close>. Two equal timestamps make the frequency infinite, the smoothing factor zero and
  \<open>setAlpha\<close> throw; the model says so directly, since the infinite frequency is no real.
\<close>

definition oe_filter :: "real \<Rightarrow> real \<Rightarrow> one_euro \<Rightarrow> (real \<times> one_euro) res" where
  "oe_filter value timestamp f =
     (let timed = (lasttime f \<noteq> UndefinedTime \<and> timestamp \<noteq> UndefinedTime)
      in if timed \<and> timestamp = lasttime f
         then Inl (RangeError ''alpha should be in (0.0., 1.0]'')
         else
           (let fr = (if timed then 1 / (timestamp - lasttime f) else freq f);
                dvalue = (if lp_initialized (x_filter f) then (value - lp_y (x_filter f)) * fr else 0)
            in case lp_filterWithAlpha dvalue (oe_alpha fr (dcutoff f)) (dx_filter f) of
                 Inl e \<Rightarrow> Inl e
               | Inr (edvalue, dx) \<Rightarrow>
                   (case lp_filterWithAlpha value
                           (oe_alpha fr (mincutoff f + beta f * \<bar>edvalue\<bar>)) (x_filter f) of
                      Inl e \<Rightarrow> Inl e
                    | Inr (result, x) \<Rightarrow>
                        Inr (result, f\<lparr>freq := fr, lasttime := timestamp,
                                      x_filter := x, dx_filter := dx\<rparr>))))"

section \<open>The invariant and the bounds\<close>

definition oe_wf :: "one_euro \<Rightarrow> bool" where
  "oe_wf f \<longleftrightarrow> 0 < freq f \<and> 0 < mincutoff f \<and> 0 \<le> beta f \<and> 0 < dcutoff f"

lemma M_PI_pos: "0 < M_PI"
  by (simp add: M_PI_def)

lemma oe_alpha_range:
  assumes "0 < fr" and "0 < c"
  shows "0 < oe_alpha fr c" and "oe_alpha fr c < 1"
proof -
  have "0 < 1 / (2 * M_PI * c) / (1 / fr)"
    using assms M_PI_pos by simp
  then show "0 < oe_alpha fr c" and "oe_alpha fr c < 1"
    by (simp_all add: oe_alpha_def Let_def)
qed

lemma lp_filterWithAlpha_ok:
  assumes "0 < a" and "a < 1"
  shows "lp_filterWithAlpha v a f =
    Inr (if lp_initialized f then a * v + (1 - a) * lp_s f else v,
      f\<lparr>lp_a := a, lp_initialized := True, lp_y := v,
        lp_s := (if lp_initialized f then a * v + (1 - a) * lp_s f else v)\<rparr>)"
  using assms by (simp add: lp_filterWithAlpha_def lp_setAlpha_def lp_filter_def Let_def)

lemma convex_between:
  fixes a :: real
  assumes "0 \<le> a" "a \<le> 1" "lo \<le> x" "x \<le> hi" "lo \<le> y" "y \<le> hi"
  shows "lo \<le> a * x + (1 - a) * y" and "a * x + (1 - a) * y \<le> hi"
proof -
  have "a * lo + (1 - a) * lo \<le> a * x + (1 - a) * y"
    using assms by (intro add_mono mult_left_mono) auto
  then show "lo \<le> a * x + (1 - a) * y" by (simp add: algebra_simps)
  have "a * x + (1 - a) * y \<le> a * hi + (1 - a) * hi"
    using assms by (intro add_mono mult_left_mono) auto
  then show "a * x + (1 - a) * y \<le> hi" by (simp add: algebra_simps)
qed

lemma oe_filter_untimed:
  assumes wf: "oe_wf f"
  shows "\<exists>r f'. oe_filter v UndefinedTime f = Inr (r, f') \<and> oe_wf f' \<and>
    lp_initialized (x_filter f') \<and> lp_s (x_filter f') = r \<and> lasttime f' = UndefinedTime \<and>
    freq f' = freq f \<and>
    (\<exists>a. 0 < a \<and> a < 1 \<and>
       r = (if lp_initialized (x_filter f) then a * v + (1 - a) * lp_s (x_filter f) else v))"
proof -
  let ?dv = "if lp_initialized (x_filter f) then (v - lp_y (x_filter f)) * freq f else 0"
  have fr: "0 < freq f" and dc: "0 < dcutoff f" using wf by (auto simp: oe_wf_def)
  from lp_filterWithAlpha_ok [OF oe_alpha_range [OF fr dc], of ?dv "dx_filter f"]
  obtain ed dx where d: "lp_filterWithAlpha ?dv (oe_alpha (freq f) (dcutoff f)) (dx_filter f) = Inr (ed, dx)"
    by auto
  have c: "0 < mincutoff f + beta f * \<bar>ed\<bar>"
    using wf by (simp add: oe_wf_def add_pos_nonneg)
  let ?a = "oe_alpha (freq f) (mincutoff f + beta f * \<bar>ed\<bar>)"
  note r = oe_alpha_range [OF fr c]
  show ?thesis
    using d lp_filterWithAlpha_ok [OF r, of v "x_filter f"] wf r
    by (auto simp: oe_filter_def Let_def oe_wf_def intro!: exI [of _ ?a])
qed

fun oe_run :: "real list \<Rightarrow> one_euro \<Rightarrow> (real list \<times> one_euro) res" where
  "oe_run [] f = Inr ([], f)"
| "oe_run (v # vs) f =
     (case oe_filter v UndefinedTime f of
        Inl e \<Rightarrow> Inl e
      | Inr (r, f') \<Rightarrow> (case oe_run vs f' of Inl e \<Rightarrow> Inl e | Inr (rs, f'') \<Rightarrow> Inr (r # rs, f'')))"

lemma oe_run_bounds:
  assumes "oe_wf f" and "\<forall>v\<in>set vs. lo \<le> v \<and> v \<le> hi"
    and "lp_initialized (x_filter f) \<Longrightarrow> lo \<le> lp_s (x_filter f) \<and> lp_s (x_filter f) \<le> hi"
  shows "\<exists>rs f'. oe_run vs f = Inr (rs, f') \<and> length rs = length vs \<and> oe_wf f' \<and>
    (\<forall>r\<in>set rs. lo \<le> r \<and> r \<le> hi)"
  using assms
proof (induction vs arbitrary: f)
  case Nil
  then show ?case by simp
next
  case (Cons v vs)
  from oe_filter_untimed [OF Cons.prems(1), of v] obtain r f' a where
    r: "oe_filter v UndefinedTime f = Inr (r, f')" "oe_wf f'" "lp_s (x_filter f') = r"
    and a: "0 < a" "a < 1"
      "r = (if lp_initialized (x_filter f) then a * v + (1 - a) * lp_s (x_filter f) else v)"
    by blast
  have b: "lo \<le> r \<and> r \<le> hi"
    using a Cons.prems(2,3) convex_between [of a lo v hi "lp_s (x_filter f)"] by auto
  have "\<forall>v\<in>set vs. lo \<le> v \<and> v \<le> hi" using Cons.prems(2) by simp
  from Cons.IH [OF r(2) this] b r(3) obtain rs f'' where
    "oe_run vs f' = Inr (rs, f'')" "length rs = length vs" "oe_wf f''"
    "\<forall>r\<in>set rs. lo \<le> r \<and> r \<le> hi"
    by auto
  with r b show ?case by simp
qed

lemma oe_new_wf:
  assumes "0 < fr" "0 < mc" "0 \<le> b" "0 < dc"
  shows "\<exists>f. oe_new t0 fr mc b dc = Inr f \<and> oe_wf f \<and> \<not> lp_initialized (x_filter f)"
proof -
  have "\<not> oe_alpha fr mc \<le> 0" "\<not> 1 < oe_alpha fr mc" "\<not> oe_alpha fr dc \<le> 0" "\<not> 1 < oe_alpha fr dc"
    using oe_alpha_range [OF assms(1,2)] oe_alpha_range [OF assms(1,4)] by linarith+
  with assms show ?thesis
    by (simp add: oe_new_def lp_new_def lp_setAlpha_def oe_wf_def)
qed

text \<open>
  C31: a filter built with positive parameters never throws on untimed samples, whatever the
  uninitialised \<open>lasttime_\<close> holds, and every output lies between the smallest and the
  largest sample seen: the filter neither overshoots nor rings.
\<close>

theorem one_euro_bounded:
  assumes "0 < fr" "0 < mc" "0 \<le> b" "0 < dc" and "\<forall>v\<in>set vs. lo \<le> v \<and> v \<le> hi"
  shows "\<exists>f rs f'. oe_new t0 fr mc b dc = Inr f \<and> oe_run vs f = Inr (rs, f') \<and>
    length rs = length vs \<and> (\<forall>r\<in>set rs. lo \<le> r \<and> r \<le> hi)"
proof -
  obtain f where f: "oe_new t0 fr mc b dc = Inr f" "oe_wf f" "\<not> lp_initialized (x_filter f)"
    using oe_new_wf [OF assms(1-4)] by blast
  from oe_run_bounds [OF f(2) assms(5)] f show ?thesis by blast
qed

theorem one_euro_bounded_witness:
  "\<exists>f rs f'. oe_new 17 30 4 0.005 5 = Inr f \<and> oe_run [10, 12, 11] f = Inr (rs, f') \<and>
    length rs = 3 \<and> (\<forall>r\<in>set rs. 10 \<le> r \<and> r \<le> 12)"
  using one_euro_bounded [of 30 4 "0.005" 5 "[10, 12, 11]" 10 12 17]
  by (simp del: oe_run.simps add: numeral_3_eq_3)

text \<open>
  A timestamp that is not later than the previous one throws: a repeated one makes the
  smoothing factor zero, one that runs backwards makes it negative or greater than one.
\<close>

lemma one_euro_bad_timestamps:
  assumes "lasttime f \<noteq> UndefinedTime" and "t \<noteq> UndefinedTime" and "0 < dcutoff f"
    and "t \<le> lasttime f"
  shows "\<exists>e. oe_filter v t f = Inl e"
proof (cases "t = lasttime f")
  case True
  with assms(1,2) show ?thesis by (simp add: oe_filter_def)
next
  case False
  let ?fr = "1 / (t - lasttime f)" and ?tau = "1 / (2 * M_PI * dcutoff f)"
  let ?q = "?tau / (1 / ?fr)"
  from False assms(4) have lt: "t - lasttime f < 0" by simp
  have tau: "0 < ?tau" using assms(3) M_PI_pos by simp
  have e: "1 / ?fr = t - lasttime f" by simp
  have q: "?q < 0" unfolding e by (rule divide_pos_neg [OF tau lt])
  have "1 / (1 + ?q) \<le> 0 \<or> 1 < 1 / (1 + ?q)"
  proof (cases "1 + ?q \<le> 0")
    case True
    then show ?thesis by (simp only: divide_le_0_iff) simp
  next
    case False
    with q show ?thesis by (simp only: less_divide_eq_1) simp
  qed
  then have "lp_filterWithAlpha d (oe_alpha ?fr (dcutoff f)) g =
      Inl (RangeError ''alpha should be in (0.0., 1.0]'')" for d g
    by (simp only: oe_alpha_def Let_def lp_filterWithAlpha_def lp_setAlpha_def if_True sum.case)
  with assms(1,2) False show ?thesis by (simp add: oe_filter_def Let_def)
qed

end
