(* ===== verification/SeqManager.thy ===== *)
theory SeqManager
  imports OneEuro HandTypes
begin

text \<open>
  \<^verbatim>\<open>aisdk/algorithm/common/NR_Seq_Manager.{h,cpp}\<close>: the sequence smoothers. Vectors of
  keypoints are lists; the code indexes them without a check, so the operations below are
  about lists that are long enough, which each states.
\<close>

section \<open>Helpers over lists of One Euro filters\<close>

text \<open>Filter \<open>i\<close> of the list on one value; a throw leaves through every loop.\<close>

definition filter_at :: "nat \<Rightarrow> real \<Rightarrow> one_euro list \<Rightarrow> (real \<times> one_euro list) res" where
  "filter_at i v fs =
     (case oe_filter v UndefinedTime (fs ! i) of
        Inl e \<Rightarrow> Inl e | Inr (r, f) \<Rightarrow> Inr (r, fs[i := f]))"

fun filter_seq :: "(nat \<times> real) list \<Rightarrow> one_euro list \<Rightarrow> (real list \<times> one_euro list) res" where
  "filter_seq [] fs = Inr ([], fs)"
| "filter_seq ((i, v) # ivs) fs =
     (case filter_at i v fs of
        Inl e \<Rightarrow> Inl e
      | Inr (r, fs') \<Rightarrow>
          (case filter_seq ivs fs' of Inl e \<Rightarrow> Inl e | Inr (rs, fs'') \<Rightarrow> Inr (r # rs, fs'')))"

text \<open>A list of filters with the same parameters, as the constructors build it.\<close>

fun make_filters :: "(real \<times> real \<times> real \<times> real \<times> real) list \<Rightarrow> one_euro list res" where
  "make_filters [] = Inr []"
| "make_filters ((t0, fr, mc, b, dc) # ps) =
     (case oe_new t0 fr mc b dc of
        Inl e \<Rightarrow> Inl e
      | Inr f \<Rightarrow> (case make_filters ps of Inl e \<Rightarrow> Inl e | Inr fs \<Rightarrow> Inr (f # fs)))"

section \<open>SeqManager\<close>

record cv_rect =
  cx :: int
  cy :: int
  cwidth :: int
  cheight :: int

record box_data =
  box_score :: real
  bbox_xywh :: cv_rect

record kpt_data =
  kpt_score :: real
  kpt2d :: vec2

record hand_step_data =
  step_bbox :: box_data
  step_kpt :: "kpt_data list"

record seq_manager =
  mSlideWindowSize :: nat
  mHandDataSavedSeq :: "hand_step_data list"
  sm_filters :: "one_euro list"

definition seq_param :: "nat \<Rightarrow> real" where
  "seq_param i = [0, 0, 0.1, 0.2, 0.7] ! i"

definition seq_manager_new :: "(nat \<Rightarrow> real) \<Rightarrow> seq_manager res" where
  "seq_manager_new lasttime0 =
     (case make_filters (map (\<lambda>i. (lasttime0 i, 30, 4, 0.005, 5)) [0..<46]) of
        Inl e \<Rightarrow> Inl e
      | Inr fs \<Rightarrow> Inr \<lparr>mSlideWindowSize = 5, mHandDataSavedSeq = [], sm_filters = fs\<rparr>)"

definition seq_reset :: "seq_manager \<Rightarrow> seq_manager" where
  "seq_reset m = m\<lparr>mHandDataSavedSeq := []\<rparr>"

text \<open>The weighted sum of four saved values and the current one, cut to \<open>int\<close>.\<close>

definition ema :: "(nat \<Rightarrow> real) \<Rightarrow> real \<Rightarrow> real" where
  "ema old cur = seq_param 0 * old 0 + seq_param 1 * old 1 + seq_param 2 * old 2 +
     seq_param 3 * old 3 + seq_param 4 * cur"

definition getCurrentHandData :: "cv_rect \<Rightarrow> real \<Rightarrow> vec2 list \<Rightarrow> real list \<Rightarrow> seq_manager
    \<Rightarrow> (cv_rect \<times> vec2 list) \<times> seq_manager" where
  "getCurrentHandData bbox sc kpts score_kpt m =
     (if length (mHandDataSavedSeq m) < mSlideWindowSize m then
        let temp = \<lparr>step_bbox = \<lparr>box_score = sc, bbox_xywh = bbox\<rparr>,
                   step_kpt = map (\<lambda>i. \<lparr>kpt_score = score_kpt ! i, kpt2d = kpts ! i\<rparr>) [0..<21]\<rparr>
        in ((bbox, kpts), m\<lparr>mHandDataSavedSeq := mHandDataSavedSeq m @ [temp]\<rparr>)
      else
        let h = tl (mHandDataSavedSeq m);
            r = (\<lambda>i. bbox_xywh (step_bbox (h ! i)));
            x1 = c_trunc (ema (\<lambda>i. of_int (cx (r i))) (of_int (cx bbox)));
            y1 = c_trunc (ema (\<lambda>i. of_int (cy (r i))) (of_int (cy bbox)));
            x2 = c_trunc (ema (\<lambda>i. of_int (cx (r i) + cwidth (r i))) (of_int (cx bbox + cwidth bbox)));
            y2 = c_trunc (ema (\<lambda>i. of_int (cy (r i) + cheight (r i))) (of_int (cy bbox + cheight bbox)));
            bbox' = \<lparr>cx = x1, cy = y1, cwidth = x2 - x1, cheight = y2 - y1\<rparr>;
            new = (\<lambda>i. v2 (ema (\<lambda>k. v2x (kpt2d (step_kpt (h ! k) ! i))) (v2x (kpts ! i)))
                         (ema (\<lambda>k. v2y (kpt2d (step_kpt (h ! k) ! i))) (v2y (kpts ! i))));
            temp = \<lparr>step_bbox = \<lparr>box_score = sc, bbox_xywh = bbox'\<rparr>,
                   step_kpt = map (\<lambda>i. \<lparr>kpt_score = score_kpt ! i, kpt2d = new i\<rparr>) [0..<21]\<rparr>
        in ((bbox', map new [0..<21] @ drop 21 kpts), m\<lparr>mHandDataSavedSeq := h @ [temp]\<rparr>))"

text \<open>The corners are cut to \<open>int\<close> before and after the filters 42 to 45.\<close>

definition getFilterBoxData :: "detect_rect \<Rightarrow> seq_manager \<Rightarrow> (detect_rect \<times> seq_manager) res" where
  "getFilterBoxData bbox m =
     (let c = (\<lambda>v. of_int (c_trunc v));
          x1 = c (rx bbox); x2 = c (rx bbox + rw bbox); y1 = c (ry bbox); y2 = c (ry bbox + rh bbox)
      in case filter_seq [(42, x1), (43, y1), (44, x2), (45, y2)] (sm_filters m) of
           Inl e \<Rightarrow> Inl e
         | Inr (rs, fs) \<Rightarrow>
             (let x1r = c (rs ! 0); y1r = c (rs ! 1); x2r = c (rs ! 2); y2r = c (rs ! 3)
              in Inr (bbox\<lparr>rx := x1r, ry := y1r, rw := x2r - x1r, rh := y2r - y1r\<rparr>,
                      m\<lparr>sm_filters := fs\<rparr>)))"

definition getFilterKptData :: "vec2 list \<Rightarrow> seq_manager \<Rightarrow> (vec2 list \<times> seq_manager) res" where
  "getFilterKptData kpts m =
     (case filter_seq (concat (map (\<lambda>i. [(i * 2, v2x (kpts ! i)), (i * 2 + 1, v2y (kpts ! i))]) [0..<21]))
             (sm_filters m) of
        Inl e \<Rightarrow> Inl e
      | Inr (rs, fs) \<Rightarrow>
          Inr (map (\<lambda>i. v2 (rs ! (i * 2)) (rs ! (i * 2 + 1))) [0..<21] @ drop 21 kpts,
               m\<lparr>sm_filters := fs\<rparr>))"

section \<open>SeqManager2D\<close>

record seq_manager_2d =
  mHandDataSeq :: "vec2 list list"
  mWindowLength :: nat

definition seq2d_new :: seq_manager_2d where
  "seq2d_new = \<lparr>mHandDataSeq = [], mWindowLength = 16\<rparr>"

definition seq2d_reset :: "seq_manager_2d \<Rightarrow> seq_manager_2d" where
  "seq2d_reset m = m\<lparr>mHandDataSeq := []\<rparr>"

definition updateSeq2D :: "vec2 list \<Rightarrow> seq_manager_2d \<Rightarrow> seq_manager_2d" where
  "updateSeq2D kpts m =
     (if length (mHandDataSeq m) = mWindowLength m
      then m\<lparr>mHandDataSeq := tl (mHandDataSeq m) @ [kpts]\<rparr>
      else m\<lparr>mHandDataSeq := replicate (mWindowLength m) kpts\<rparr>)"

text \<open>An index past the end of the deque is undefined behaviour: None.\<close>

definition getSeq :: "seq_manager_2d \<Rightarrow> vec2 list list option" where
  "getSeq m =
     (if length (mHandDataSeq m) \<le> 15 then None
      else Some (map (\<lambda>i. mHandDataSeq m ! i) [15, 14, 13, 12, 11, 10]))"

lemma updateSeq2D_fold:
  assumes "mWindowLength m = 16" "length (mHandDataSeq m) = 16"
  shows "mHandDataSeq (fold updateSeq2D fs m) = drop (length fs) (mHandDataSeq m @ fs) \<and>
    mWindowLength (fold updateSeq2D fs m) = 16"
  using assms
proof (induction fs arbitrary: m)
  case Nil
  then show ?case by simp
next
  case (Cons f fs)
  let ?m = "updateSeq2D f m"
  have m: "mHandDataSeq ?m = tl (mHandDataSeq m) @ [f]" "mWindowLength ?m = 16"
    using Cons.prems by (simp_all add: updateSeq2D_def)
  have "length (mHandDataSeq ?m) = 16" using m Cons.prems by simp
  from Cons.IH [OF m(2) this] m Cons.prems show ?case
    by (cases "mHandDataSeq m") auto
qed

lemma newest_six_of_16:
  assumes "length s = 16"
  shows "map (\<lambda>i. s ! i) [15, 14, 13, 12, 11, 10] = take 6 (rev s)"
proof -
  have "take 6 (rev s) = map (\<lambda>k. rev s ! k) [0..<6]"
    using assms by (intro nth_equalityI) auto
  also have "\<dots> = map (\<lambda>k. s ! (15 - k)) [0..<6]"
    using assms by (intro map_cong) (auto simp: rev_nth)
  also have "[0..<6] = [0, 1, 2, 3, 4, 5]" by (simp add: upt_rec)
  finally show ?thesis by simp
qed

text \<open>
  After any frames since the last reset, \<open>getSeq\<close> is defined as soon as there is one frame
  and returns the six newest, newest first, the first frame standing in for the missing ones.
\<close>

lemma seq2d_newest_six:
  assumes "frames \<noteq> []"
  shows "getSeq (fold updateSeq2D frames (seq2d_reset seq2d_new)) =
    Some (take 6 (rev frames @ replicate 6 (hd frames)))"
proof -
  obtain f fs where fr: "frames = f # fs" using assms by (cases frames) auto
  let ?m1 = "updateSeq2D f (seq2d_reset seq2d_new)"
  have m1: "mHandDataSeq ?m1 = replicate 16 f" "mWindowLength ?m1 = 16"
    by (simp_all add: updateSeq2D_def seq2d_reset_def seq2d_new_def)
  have "length (mHandDataSeq ?m1) = 16" by (simp add: m1)
  from updateSeq2D_fold [OF m1(2) this, of fs]
  have s: "mHandDataSeq (fold updateSeq2D frames (seq2d_reset seq2d_new)) =
      drop (length fs) (replicate 16 f @ fs)"
    by (simp add: fr m1)
  let ?s = "drop (length fs) (replicate 16 f @ fs)"
  have len: "length ?s = 16" by simp
  have "map (\<lambda>i. ?s ! i) [15, 14, 13, 12, 11, 10] = take 6 (rev ?s)"
    using len by (rule newest_six_of_16)
  also have "rev ?s = take 16 (rev fs @ replicate 16 f)"
    by (cases "length fs \<le> 16") (simp_all add: rev_drop)
  also have "take 6 (take 16 (rev fs @ replicate 16 f)) = take 6 (rev fs @ replicate 16 f)"
    by simp
  also have "\<dots> = take 6 (rev fs @ replicate 7 f)" by simp
  also have "replicate 7 f = [f] @ replicate 6 f" by (simp add: numeral_eq_Suc)
  also have "rev fs @ \<dots> = rev frames @ replicate 6 (hd frames)" by (simp add: fr)
  finally show ?thesis by (simp add: getSeq_def s)
qed

section \<open>DynamicFilter3D and DynamicFilter2D\<close>

definition mean_of :: "real list \<Rightarrow> real" where
  "mean_of xs = sum_list xs / real (length xs)"

text \<open>The loop adds the squared distances from \<open>m\<close> and divides by the size.\<close>

definition var_about :: "real \<Rightarrow> real list \<Rightarrow> real" where
  "var_about m xs = foldl (\<lambda>acc x. acc + (x - m)\<^sup>2) 0 xs / real (length xs)"

definition var_of :: "real list \<Rightarrow> real" where
  "var_of xs = var_about (mean_of xs) xs"

definition max_element :: "real list \<Rightarrow> real" where
  "max_element xs = fold max (tl xs) (hd xs)"

definition min_element :: "real list \<Rightarrow> real" where
  "min_element xs = fold min (tl xs) (hd xs)"

definition spread :: "real list \<Rightarrow> real" where
  "spread xs = max_element xs - min_element xs"

text \<open>The weight; a positive variance over a zero norm is infinite, hence 1.\<close>

definition dyn_weight :: "real \<Rightarrow> real \<Rightarrow> real" where
  "dyn_weight v hand_norm =
     (if hand_norm = 0 then 1 else if v / hand_norm < 1 then v / hand_norm else 1)"

definition dyn_mix :: "real \<Rightarrow> real \<Rightarrow> real \<Rightarrow> real" where
  "dyn_mix w new old = new * w + old * (1 - w)"

record dynamic_filter_3d =
  d3_seq :: "vec3 list list"
  d3_pre :: "vec3 list"
  d3_hand :: "(real list \<times> real list \<times> real list) list"
  d3_window :: nat
  d3_dim :: int
  d3_num :: nat
  d3_lambda :: real

definition dyn3_new :: "nat \<Rightarrow> int \<Rightarrow> nat \<Rightarrow> real \<Rightarrow> dynamic_filter_3d" where
  "dyn3_new sample_num dm window lambda =
     \<lparr>d3_seq = [], d3_pre = [],
      d3_hand = replicate sample_num (replicate 3 0, replicate 3 0, replicate 3 0),
      d3_window = window, d3_dim = dm, d3_num = sample_num, d3_lambda = lambda\<rparr>"

definition dyn3_reset :: "dynamic_filter_3d \<Rightarrow> dynamic_filter_3d" where
  "dyn3_reset f = f\<lparr>d3_seq := [],
     d3_hand := map (\<lambda>_. (replicate (d3_window f) 0, replicate (d3_window f) 0,
                         replicate (d3_window f) 0)) (d3_hand f)\<rparr>"

text \<open>\<open>getHandDatafromSeq\<close> copies exactly three frames, whatever the window.\<close>

definition dyn3_hand_data :: "dynamic_filter_3d \<Rightarrow> (real list \<times> real list \<times> real list) list" where
  "dyn3_hand_data f =
     map (\<lambda>k. if k < d3_num f then
                (case d3_hand f ! k of (x, y, z) \<Rightarrow>
                   (fold (\<lambda>s l. l[s := vx (d3_seq f ! s ! k)]) [0..<3] x,
                    fold (\<lambda>s l. l[s := vy (d3_seq f ! s ! k)]) [0..<3] y,
                    fold (\<lambda>s l. l[s := vz (d3_seq f ! s ! k)]) [0..<3] z))
              else d3_hand f ! k) [0..<length (d3_hand f)]"

definition dyn3_point :: "real \<Rightarrow> (real list \<times> real list \<times> real list) \<Rightarrow> vec3 \<Rightarrow> vec3 \<Rightarrow> vec3" where
  "dyn3_point hand_norm h pre p =
     (case h of (x, y, z) \<Rightarrow>
        let vx' = var_of x; vy' = var_of y; vz' = var_of z
        in if vx' < 0.000001 \<or> vy' < 0.000001 \<or> vz' < 0.000001 then p
           else v3 (dyn_mix (dyn_weight vx' hand_norm) (vx p) (vx pre))
                   (dyn_mix (dyn_weight vy' hand_norm) (vy p) (vy pre))
                   (dyn_mix (dyn_weight vz' hand_norm) (vz p) (vz pre)))"

definition dyn3_norm :: "dynamic_filter_3d \<Rightarrow> (real list \<times> real list \<times> real list) list \<Rightarrow> real" where
  "dyn3_norm f h =
     (let xs = map (\<lambda>i. fst (h ! i) ! 2) [0..<d3_num f];
          ys = map (\<lambda>i. fst (snd (h ! i)) ! 2) [0..<d3_num f];
          zs = map (\<lambda>i. snd (snd (h ! i)) ! 2) [0..<d3_num f]
      in spread xs * spread ys * spread zs * of_int (d3_dim f) * d3_lambda f * 0.0001)"

definition dyn3_filter :: "vec3 list \<Rightarrow> dynamic_filter_3d \<Rightarrow> vec3 list \<times> dynamic_filter_3d" where
  "dyn3_filter kpts f =
     (let seq = d3_seq f @ [kpts];
          seq = (if length seq > d3_window f then tl seq else seq);
          f1 = f\<lparr>d3_seq := seq\<rparr>
      in if length seq = d3_window f then
           (let h = dyn3_hand_data f1; hn = dyn3_norm f1 h;
                out = map (\<lambda>i. if i < d3_num f
                              then dyn3_point hn (h ! i) (d3_pre f ! i) (kpts ! i)
                              else kpts ! i) [0..<length kpts]
            in (out, f1\<lparr>d3_hand := h, d3_pre := out\<rparr>))
         else (kpts, f1\<lparr>d3_pre := kpts\<rparr>))"

record dynamic_filter_2d =
  d2_seq :: "vec2 list list"
  d2_pre :: "vec2 list"
  d2_hand :: "(real list \<times> real list) list"
  d2_window :: nat
  d2_dim :: int
  d2_lambda :: real

definition dyn2_new :: "int \<Rightarrow> nat \<Rightarrow> real \<Rightarrow> dynamic_filter_2d" where
  "dyn2_new dm window lambda =
     \<lparr>d2_seq = [], d2_pre = [], d2_hand = replicate 21 (replicate 3 0, replicate 3 0),
      d2_window = window, d2_dim = dm, d2_lambda = lambda\<rparr>"

definition dyn2_reset :: "dynamic_filter_2d \<Rightarrow> dynamic_filter_2d" where
  "dyn2_reset f = f\<lparr>d2_seq := [],
     d2_hand := map (\<lambda>_. (replicate (d2_window f) 0, replicate (d2_window f) 0)) (d2_hand f)\<rparr>"

definition dyn2_hand_data :: "dynamic_filter_2d \<Rightarrow> (real list \<times> real list) list" where
  "dyn2_hand_data f =
     map (\<lambda>k. if k < 21 then
                (case d2_hand f ! k of (x, y) \<Rightarrow>
                   (fold (\<lambda>s l. l[s := v2x (d2_seq f ! s ! k)]) [0..<3] x,
                    fold (\<lambda>s l. l[s := v2y (d2_seq f ! s ! k)]) [0..<3] y))
              else d2_hand f ! k) [0..<length (d2_hand f)]"

text \<open>Here the variance is taken about the previous output (\<open>unexplicit_var\<close>).\<close>

definition dyn2_point :: "real \<Rightarrow> (real list \<times> real list) \<Rightarrow> vec2 \<Rightarrow> vec2 \<Rightarrow> vec2" where
  "dyn2_point hand_norm h pre p =
     (case h of (x, y) \<Rightarrow>
        let vx' = var_about (v2x pre) x; vy' = var_about (v2y pre) y
        in if vx' < 0.000001 \<or> vy' < 0.000001 then p
           else v2 (dyn_mix (dyn_weight vx' hand_norm) (v2x p) (v2x pre))
                   (dyn_mix (dyn_weight vy' hand_norm) (v2y p) (v2y pre)))"

definition dyn2_norm :: "dynamic_filter_2d \<Rightarrow> (real list \<times> real list) list \<Rightarrow> real" where
  "dyn2_norm f h =
     (let xs = map (\<lambda>i. fst (h ! i) ! 2) [0..<21];
          ys = map (\<lambda>i. snd (h ! i) ! 2) [0..<21]
      in spread xs * spread ys * of_int (d2_dim f) * d2_lambda f * 0.0001)"

definition dyn2_filter :: "vec2 list \<Rightarrow> dynamic_filter_2d \<Rightarrow> vec2 list \<times> dynamic_filter_2d" where
  "dyn2_filter kpts f =
     (let seq = d2_seq f @ [kpts];
          seq = (if length seq > d2_window f then tl seq else seq);
          f1 = f\<lparr>d2_seq := seq\<rparr>
      in if length seq = d2_window f then
           (let h = dyn2_hand_data f1; hn = dyn2_norm f1 h;
                out = map (\<lambda>i. if i < 21 then dyn2_point hn (h ! i) (d2_pre f ! i) (kpts ! i)
                              else kpts ! i) [0..<length kpts]
            in (out, f1\<lparr>d2_hand := h, d2_pre := out\<rparr>))
         else (kpts, f1\<lparr>d2_pre := kpts\<rparr>))"

section \<open>SeqManager3D and SeqManagerVec\<close>

record one_euro_params =
  p_freq :: real
  p_mincutoff :: "real list"
  p_beta :: "real list"
  p_dcutoff :: "real list"

record seq_manager_3d =
  s3_num :: nat
  s3_filters :: "one_euro list"

definition axis_params :: "(nat \<Rightarrow> real) \<Rightarrow> one_euro_params \<Rightarrow> nat
    \<Rightarrow> (real \<times> real \<times> real \<times> real \<times> real)" where
  "axis_params t0 ps i =
     (t0 i, p_freq ps, p_mincutoff ps ! (i mod 3), p_beta ps ! (i mod 3), p_dcutoff ps ! (i mod 3))"

definition seq3d_new :: "(nat \<Rightarrow> real) \<Rightarrow> nat \<Rightarrow> one_euro_params \<Rightarrow> seq_manager_3d res" where
  "seq3d_new t0 sample_num ps =
     (case make_filters (map (axis_params t0 ps) [0..<sample_num * 3]) of
        Inl e \<Rightarrow> Inl e | Inr fs \<Rightarrow> Inr \<lparr>s3_num = sample_num, s3_filters = fs\<rparr>)"

definition seq3d_reset :: "seq_manager_3d \<Rightarrow> seq_manager_3d" where
  "seq3d_reset m = m\<lparr>s3_filters := map oe_reset (s3_filters m)\<rparr>"

definition seq3d_filter :: "vec3 list \<Rightarrow> seq_manager_3d \<Rightarrow> (vec3 list \<times> seq_manager_3d) res" where
  "seq3d_filter kpts m =
     (case filter_seq (concat (map (\<lambda>i. [(i * 3, vx (kpts ! i)), (i * 3 + 1, vy (kpts ! i)),
                                        (i * 3 + 2, vz (kpts ! i))]) [0..<s3_num m])) (s3_filters m) of
        Inl e \<Rightarrow> Inl e
      | Inr (rs, fs) \<Rightarrow>
          Inr (map (\<lambda>i. v3 (rs ! (i * 3)) (rs ! (i * 3 + 1)) (rs ! (i * 3 + 2))) [0..<s3_num m]
                 @ drop (s3_num m) kpts, m\<lparr>s3_filters := fs\<rparr>))"

record seq_manager_vec =
  sv_filters :: "one_euro list"

definition seqvec_new :: "(nat \<Rightarrow> real) \<Rightarrow> one_euro_params \<Rightarrow> seq_manager_vec res" where
  "seqvec_new t0 ps =
     (case make_filters (map (axis_params t0 ps) [0..<3]) of
        Inl e \<Rightarrow> Inl e | Inr fs \<Rightarrow> Inr \<lparr>sv_filters = fs\<rparr>)"

text \<open>This \<open>reset\<close> returns true and does nothing.\<close>

definition seqvec_reset :: "seq_manager_vec \<Rightarrow> seq_manager_vec" where
  "seqvec_reset m = m"

definition seqvec_filter :: "vec3 \<Rightarrow> seq_manager_vec \<Rightarrow> (vec3 \<times> seq_manager_vec) res" where
  "seqvec_filter v m =
     (case filter_seq [(0, vx v), (1, vy v), (2, vz v)] (sv_filters m) of
        Inl e \<Rightarrow> Inl e
      | Inr (rs, fs) \<Rightarrow> Inr (v3 (rs ! 0) (rs ! 1) (rs ! 2), m\<lparr>sv_filters := fs\<rparr>))"

section \<open>Bounds of the dynamic filters\<close>

lemma fold_max_ge: "(m :: real) \<le> fold max xs m"
proof (induction xs arbitrary: m)
  case (Cons a xs)
  from Cons.IH [of "max a m"] show ?case by simp
qed simp

lemma fold_min_le: "fold min xs (m :: real) \<le> m"
proof (induction xs arbitrary: m)
  case (Cons a xs)
  from Cons.IH [of "min a m"] show ?case by simp
qed simp

lemma spread_nonneg [simp]: "0 \<le> spread xs"
  using fold_max_ge [of "hd xs" "tl xs"] fold_min_le [of "tl xs" "hd xs"]
  by (simp add: spread_def max_element_def min_element_def)

lemma dyn_weight_range:
  assumes "0 \<le> hn" and "0 \<le> v"
  shows "0 \<le> dyn_weight v hn" and "dyn_weight v hn \<le> 1"
  using assms by (auto simp: dyn_weight_def)

lemma dyn_mix_between:
  assumes "0 \<le> w" and "w \<le> 1"
  shows "min new old \<le> dyn_mix w new old" and "dyn_mix w new old \<le> max new old"
  using convex_between [of w "min new old" new "max new old" old] assms
  by (auto simp: dyn_mix_def mult.commute)

definition between3 :: "vec3 \<Rightarrow> vec3 \<Rightarrow> vec3 \<Rightarrow> bool" where
  "between3 a b p \<longleftrightarrow>
     min (vx a) (vx b) \<le> vx p \<and> vx p \<le> max (vx a) (vx b) \<and>
     min (vy a) (vy b) \<le> vy p \<and> vy p \<le> max (vy a) (vy b) \<and>
     min (vz a) (vz b) \<le> vz p \<and> vz p \<le> max (vz a) (vz b)"

lemma dyn3_point_between: "0 \<le> hn \<Longrightarrow> between3 p pre (dyn3_point hn h pre p)"
  using dyn_weight_range [of hn] dyn_mix_between
  by (auto simp: between3_def dyn3_point_def Let_def split: prod.splits)

lemma dyn3_norm_nonneg: "0 \<le> of_int (d3_dim f) * d3_lambda f \<Longrightarrow> 0 \<le> dyn3_norm f h"
  by (simp add: dyn3_norm_def Let_def mult.assoc)

text \<open>
  The 3D dynamic filter moves every coordinate of every keypoint to a value between the
  new sample and its previous output, for any history; it never extrapolates, and while its
  window is filling it passes the sample through.
\<close>

lemma dynamic_filter_between:
  assumes "0 \<le> of_int (d3_dim f) * d3_lambda f" and "i < length kpts" and "i < d3_num f"
  shows "between3 (kpts ! i) (d3_pre f ! i) (fst (dyn3_filter kpts f) ! i) \<and>
    d3_pre (snd (dyn3_filter kpts f)) = fst (dyn3_filter kpts f) \<and>
    (Suc (length (d3_seq f)) < d3_window f \<longrightarrow> fst (dyn3_filter kpts f) = kpts)"
proof -
  have nn: "0 \<le> dyn3_norm (f\<lparr>d3_seq := q\<rparr>) h" for q h
    using assms(1) by (intro dyn3_norm_nonneg) simp
  have self: "between3 (kpts ! i) (d3_pre f ! i) (kpts ! i)" by (simp add: between3_def)
  have "between3 (kpts ! i) (d3_pre f ! i) (fst (dyn3_filter kpts f) ! i)"
    using assms(2,3) self dyn3_point_between [OF nn]
    by (auto simp: dyn3_filter_def Let_def simp del: split_paired_All)
  then show ?thesis by (simp add: dyn3_filter_def Let_def)
qed

definition example_dyn3 :: dynamic_filter_3d where
  "example_dyn3 = (dyn3_new 1 1 3 1)\<lparr>d3_seq := [[v3 0 0 0], [v3 1 1 1]], d3_pre := [v3 1 1 1]\<rparr>"

end
