(* ===== verification/Predictor.thy ===== *)
theory Predictor
  imports SeqManager
begin

text \<open>
  The Kalman predictors \<open>KFPredictor2d\<close> (\<^verbatim>\<open>NR_Predictor2d.h/.cpp\<close>) and \<open>KFPredictor\<close>
  (\<^verbatim>\<open>NR_Predictor.h/.cpp\<close>) of \<^verbatim>\<open>aisdk/algorithm/common\<close>.

  \<open>cv::Mat\<close> is a list of rows of reals with element access, \<open>zeros\<close>, \<open>setIdentity\<close> and the
  matrix-vector product. The constructor, \<open>predict\<close> and \<open>correct\<close> of \<open>cv::KalmanFilter\<close> are
  OpenCV's own: they are the fields of the argument \<open>kf_lib\<close>, and \<open>'c\<close> stands for what the
  filter keeps to itself (its covariances and its gain).
\<close>

section \<open>Matrices and the library\<close>

type_synonym mat = "real list list"

definition mat_zeros :: "nat \<Rightarrow> nat \<Rightarrow> mat" where
  "mat_zeros r c = replicate r (replicate c 0)"

definition mat_set :: "mat \<Rightarrow> nat \<Rightarrow> nat \<Rightarrow> real \<Rightarrow> mat" where
  "mat_set m i j v = m[i := (m ! i)[j := v]]"

definition set_identity :: "real \<Rightarrow> mat \<Rightarrow> mat" where
  "set_identity s m =
     map (\<lambda>i. map (\<lambda>j. if i = j then s else 0) [0..<length (m ! i)]) [0..<length m]"

definition mat_vec :: "mat \<Rightarrow> real list \<Rightarrow> real list" where
  "mat_vec m x = map (\<lambda>row. sum_list (map2 (*) row x)) m"

record 'c kalman =
  transitionMatrix :: mat
  measurementMatrix :: mat
  processNoiseCov :: mat
  measurementNoiseCov :: mat
  statePre :: "real list"
  statePost :: "real list"
  kf_private :: 'c

record 'c kf_lib =
  kf_make :: "nat \<Rightarrow> nat \<Rightarrow> nat \<Rightarrow> 'c kalman"
  kf_predict :: "'c kalman \<Rightarrow> 'c kalman"
  kf_correct :: "real list \<Rightarrow> 'c kalman \<Rightarrow> 'c kalman"

section \<open>KFPredictor2d\<close>

record predictor_state_2d =
  pos2 :: vec2
  vel2 :: vec2

record 'c kf_predictor_2d =
  m_kf2 :: "'c kalman"
  last_correct_time2 :: real
  last_measure_time2 :: real
  is_tracked2 :: bool
  m_momentum2 :: predictor_state_2d
  predict_length_ratio2 :: real
  glasses_type2 :: string

definition reset_kalman_filter_2d :: "'c kalman \<Rightarrow> 'c kalman" where
  "reset_kalman_filter_2d k = k
     \<lparr>transitionMatrix := set_identity 1 (transitionMatrix k),
      measurementMatrix :=
        mat_set (mat_set (mat_set (mat_set (mat_zeros 4 6) 0 0 1) 1 1 1) 2 2 1) 3 3 1,
      processNoiseCov :=
        mat_set (mat_set (set_identity 0.1 (processNoiseCov k)) 0 0 1) 1 1 1,
      measurementNoiseCov := set_identity 0.0001 (measurementNoiseCov k)\<rparr>"

text \<open>The members \<open>m_momentum\<close> keeps uninitialised come from the argument.\<close>

definition kf2_init :: "'c kf_lib \<Rightarrow> predictor_state_2d \<Rightarrow> 'c kf_predictor_2d" where
  "kf2_init lib uninit =
     \<lparr>m_kf2 = reset_kalman_filter_2d (kf_make lib 6 4 0), last_correct_time2 = 0,
      last_measure_time2 = 0, is_tracked2 = False, m_momentum2 = uninit,
      predict_length_ratio2 = 1, glasses_type2 = ''flora''\<rparr>"

definition kf2_start_tracking ::
    "real \<Rightarrow> predictor_state_2d \<Rightarrow> 'c kf_predictor_2d \<Rightarrow> 'c kf_predictor_2d" where
  "kf2_start_tracking target_ts meas p =
     (let k = reset_kalman_filter_2d (m_kf2 p);
          state = (replicate 6 0)[0 := v2x (pos2 meas), 1 := v2y (pos2 meas),
                                  2 := v2x (vel2 meas), 3 := v2y (vel2 meas)]
      in p\<lparr>m_kf2 := k\<lparr>statePost := state, statePre := state\<rparr>,
           last_correct_time2 := target_ts, last_measure_time2 := target_ts,
           m_momentum2 := (m_momentum2 p)\<lparr>pos2 := pos2 meas\<rparr>,
           is_tracked2 := True\<rparr>)"

definition transition_2d :: "real \<Rightarrow> mat \<Rightarrow> mat" where
  "transition_2d dt m =
     mat_set (mat_set (mat_set (mat_set (mat_set (mat_set m 0 2 dt) 1 3 dt)
       2 4 \<bar>dt\<bar>) 3 5 \<bar>dt\<bar>) 0 4 (0.5 * \<bar>dt\<bar> * dt)) 1 5 (0.5 * \<bar>dt\<bar> * dt)"

definition kf2_update_transition :: "real \<Rightarrow> 'c kf_predictor_2d \<Rightarrow> 'c kf_predictor_2d" where
  "kf2_update_transition target_ts p =
     p\<lparr>m_kf2 := (m_kf2 p)\<lparr>transitionMatrix :=
         transition_2d (target_ts - last_correct_time2 p) (transitionMatrix (m_kf2 p))\<rparr>\<rparr>"

definition kf2_predict ::
    "'c kf_lib \<Rightarrow> 'c kf_predictor_2d \<Rightarrow> predictor_state_2d \<times> 'c kf_predictor_2d" where
  "kf2_predict lib p =
     (let k = kf_predict lib (m_kf2 p); s = statePre k
      in (\<lparr>pos2 = v2 (s ! 0) (s ! 1), vel2 = v2 (s ! 2) (s ! 3)\<rparr>, p\<lparr>m_kf2 := k\<rparr>))"

definition kf2_correct :: "'c kf_lib \<Rightarrow> predictor_state_2d \<Rightarrow> 'c kf_predictor_2d
    \<Rightarrow> predictor_state_2d \<times> 'c kf_predictor_2d" where
  "kf2_correct lib meas p =
     (let k = kf_correct lib [v2x (pos2 meas), v2y (pos2 meas), v2x (vel2 meas), v2y (vel2 meas)]
                (m_kf2 p);
          s = statePost k;
          m = pos2 (m_momentum2 p);
          pos = v2 (0.6 * v2x m + (1 - 0.6) * s ! 0) (0.6 * v2y m + (1 - 0.6) * s ! 1)
      in (\<lparr>pos2 = pos, vel2 = v2 (s ! 2) (s ! 3)\<rparr>,
          p\<lparr>m_kf2 := k, m_momentum2 := (m_momentum2 p)\<lparr>pos2 := pos\<rparr>\<rparr>))"

definition kf2_track_with_correct :: "'c kf_lib \<Rightarrow> real \<Rightarrow> predictor_state_2d
    \<Rightarrow> 'c kf_predictor_2d \<Rightarrow> vec2 \<times> 'c kf_predictor_2d" where
  "kf2_track_with_correct lib target_ts meas p =
     (let p1 = kf2_update_transition target_ts p;
          (pred, p2) = kf2_predict lib p1;
          (cpred, p3) = kf2_correct lib meas p2
      in (pos2 cpred, p3\<lparr>last_correct_time2 := target_ts, last_measure_time2 := target_ts\<rparr>))"

text \<open>
  The state 0 is a moving hand, 1 an almost static one, 2 a static one; it indexes the three
  intervals as the code lists them.
\<close>

definition hand_static_state :: "real \<Rightarrow> nat" where
  "hand_static_state hand_speed =
     (if hand_speed < 0.1 then 2 else if hand_speed < 0.2 then 1 else 0)"

definition valid_predict_time :: "real list \<Rightarrow> real \<Rightarrow> real \<Rightarrow> real \<Rightarrow> real \<Rightarrow> real" where
  "valid_predict_time intervals hand_speed last_measure ratio target_ts =
     (let predict_interval = (target_ts - last_measure) * ratio;
          predict_interval = min predict_interval (intervals ! hand_static_state hand_speed)
      in predict_interval + last_measure)"

definition kf2_valid_predict_time :: "real \<Rightarrow> 'c kf_predictor_2d \<Rightarrow> real" where
  "kf2_valid_predict_time target_ts p =
     (let s = statePost (m_kf2 p);
          speed = sqrt (s ! 2 * s ! 2 + s ! 3 * s ! 3)
      in valid_predict_time [0.1, 0.08, 0.04] speed (last_measure_time2 p)
           (predict_length_ratio2 p) target_ts)"

definition kf2_track_only_pred ::
    "'c kf_lib \<Rightarrow> real \<Rightarrow> bool \<Rightarrow> 'c kf_predictor_2d \<Rightarrow> vec2 \<times> 'c kf_predictor_2d" where
  "kf2_track_only_pred lib target_ts update_state p =
     (let p1 = kf2_update_transition (kf2_valid_predict_time target_ts p) p
      in if update_state then
           (let (pred, p2) = kf2_predict lib p1; (_, p3) = kf2_correct lib pred p2
            in (pos2 pred, p3\<lparr>last_correct_time2 := target_ts\<rparr>))
         else
           (let s = mat_vec (transitionMatrix (m_kf2 p1)) (statePost (m_kf2 p1))
            in (v2 (s ! 0) (s ! 1), p1)))"

definition kf2_get_tracking_status :: "'c kf_predictor_2d \<Rightarrow> bool" where
  "kf2_get_tracking_status p = is_tracked2 p"

definition kf2_stop_tracking :: "'c kf_predictor_2d \<Rightarrow> 'c kf_predictor_2d" where
  "kf2_stop_tracking p = p\<lparr>is_tracked2 := False\<rparr>"

definition kf2_set_glasses_type :: "string \<Rightarrow> 'c kf_predictor_2d \<Rightarrow> 'c kf_predictor_2d" where
  "kf2_set_glasses_type g p = p\<lparr>glasses_type2 := g\<rparr>"

section \<open>KFPredictor\<close>

record predictor_state =
  pos3 :: vec3
  vel3 :: vec3

record 'c kf_predictor =
  m_kf3 :: "'c kalman"
  last_correct_time3 :: real
  last_measure_time3 :: real
  is_tracked3 :: bool
  m_momentum3 :: predictor_state
  predict_length_ratio3 :: real
  glasses_type3 :: string
  predict_smoother :: seq_manager_3d

definition reset_kalman_filter_3d :: "'c kalman \<Rightarrow> 'c kalman" where
  "reset_kalman_filter_3d k = k
     \<lparr>transitionMatrix := set_identity 1 (transitionMatrix k),
      measurementMatrix :=
        mat_set (mat_set (mat_set (mat_set (mat_set (mat_set (mat_zeros 6 9)
          0 0 1) 1 1 1) 2 2 1) 3 3 1) 4 4 1) 5 5 1,
      processNoiseCov :=
        mat_set (mat_set (mat_set (set_identity 0.1 (processNoiseCov k)) 0 0 1) 1 1 1) 2 2 1,
      measurementNoiseCov := set_identity 0.0001 (measurementNoiseCov k)\<rparr>"

text \<open>
  The parameters of the smoother for a type of glasses: a vector resized to three zeros for
  an unknown type, which the filter's constructor rejects with an exception.
\<close>

definition smoother_params :: "string \<Rightarrow> one_euro_params" where
  "smoother_params g =
     (if g = ''flora'' then
        \<lparr>p_freq = 60, p_mincutoff = [0.1, 0.1, 0.1], p_beta = [20, 20, 20], p_dcutoff = [0.8, 0.8, 0.5]\<rparr>
      else if g = ''ella'' then
        \<lparr>p_freq = 60, p_mincutoff = [0.1, 0.1, 0.1], p_beta = [10, 10, 10], p_dcutoff = [0.8, 0.8, 0.5]\<rparr>
      else \<lparr>p_freq = 60, p_mincutoff = [0, 0, 0], p_beta = [0, 0, 0], p_dcutoff = [0, 0, 0]\<rparr>)"

definition reset_predict_smoother ::
    "(nat \<Rightarrow> real) \<Rightarrow> 'c kf_predictor \<Rightarrow> 'c kf_predictor res" where
  "reset_predict_smoother t0 p =
     (let p1 = (if glasses_type3 p = ''flora'' \<or> glasses_type3 p = ''ella''
                then p\<lparr>predict_length_ratio3 := 1\<rparr> else p)
      in case seq3d_new t0 1 (smoother_params (glasses_type3 p)) of
           Inl e \<Rightarrow> Inl e
         | Inr s \<Rightarrow> Inr (p1\<lparr>predict_smoother := s\<rparr>))"

definition kf3_init :: "'c kf_lib \<Rightarrow> (nat \<Rightarrow> real) \<Rightarrow> predictor_state \<Rightarrow> 'c kf_predictor res" where
  "kf3_init lib t0 uninit =
     reset_predict_smoother t0
       \<lparr>m_kf3 = reset_kalman_filter_3d (kf_make lib 9 6 0), last_correct_time3 = 0,
        last_measure_time3 = 0, is_tracked3 = False, m_momentum3 = uninit,
        predict_length_ratio3 = 1, glasses_type3 = ''flora'',
        predict_smoother = \<lparr>s3_num = 0, s3_filters = []\<rparr>\<rparr>"

definition kf3_set_glasses_type ::
    "(nat \<Rightarrow> real) \<Rightarrow> string \<Rightarrow> 'c kf_predictor \<Rightarrow> 'c kf_predictor res" where
  "kf3_set_glasses_type t0 g p = reset_predict_smoother t0 (p\<lparr>glasses_type3 := g\<rparr>)"

definition kf3_set_smooth_filter ::
    "(nat \<Rightarrow> real) \<Rightarrow> one_euro_params \<Rightarrow> 'c kf_predictor \<Rightarrow> 'c kf_predictor res" where
  "kf3_set_smooth_filter t0 ps p =
     (case seq3d_new t0 1 ps of Inl e \<Rightarrow> Inl e | Inr s \<Rightarrow> Inr (p\<lparr>predict_smoother := s\<rparr>))"

definition kf3_start_tracking :: "real \<Rightarrow> predictor_state \<Rightarrow> 'c kf_predictor \<Rightarrow> 'c kf_predictor" where
  "kf3_start_tracking target_ts meas p =
     (let k = reset_kalman_filter_3d (m_kf3 p);
          state = (replicate 9 0)[0 := vx (pos3 meas), 1 := vy (pos3 meas), 2 := vz (pos3 meas),
                                  3 := vx (vel3 meas), 4 := vy (vel3 meas), 5 := vz (vel3 meas)]
      in p\<lparr>m_kf3 := k\<lparr>statePost := state, statePre := state\<rparr>,
           last_correct_time3 := target_ts, last_measure_time3 := target_ts,
           m_momentum3 := (m_momentum3 p)\<lparr>pos3 := pos3 meas\<rparr>,
           predict_smoother := seq3d_reset (predict_smoother p),
           is_tracked3 := True\<rparr>)"

definition transition_3d :: "real \<Rightarrow> mat \<Rightarrow> mat" where
  "transition_3d dt m =
     (let a = \<bar>dt\<bar>; h = 0.5 * \<bar>dt\<bar> * dt
      in mat_set (mat_set (mat_set (mat_set (mat_set (mat_set (mat_set (mat_set (mat_set m
           0 3 dt) 1 4 dt) 2 5 dt) 3 6 a) 4 7 a) 5 8 a) 0 6 h) 1 7 h) 2 8 h)"

definition kf3_update_transition :: "real \<Rightarrow> 'c kf_predictor \<Rightarrow> 'c kf_predictor" where
  "kf3_update_transition target_ts p =
     p\<lparr>m_kf3 := (m_kf3 p)\<lparr>transitionMatrix :=
         transition_3d (target_ts - last_correct_time3 p) (transitionMatrix (m_kf3 p))\<rparr>\<rparr>"

definition kf3_predict :: "'c kf_lib \<Rightarrow> 'c kf_predictor \<Rightarrow> predictor_state \<times> 'c kf_predictor" where
  "kf3_predict lib p =
     (let k = kf_predict lib (m_kf3 p); s = statePre k
      in (\<lparr>pos3 = v3 (s ! 0) (s ! 1) (s ! 2), vel3 = v3 (s ! 3) (s ! 4) (s ! 5)\<rparr>, p\<lparr>m_kf3 := k\<rparr>))"

definition kf3_correct ::
    "'c kf_lib \<Rightarrow> predictor_state \<Rightarrow> 'c kf_predictor \<Rightarrow> predictor_state \<times> 'c kf_predictor" where
  "kf3_correct lib meas p =
     (let k = kf_correct lib [vx (pos3 meas), vy (pos3 meas), vz (pos3 meas),
                              vx (vel3 meas), vy (vel3 meas), vz (vel3 meas)] (m_kf3 p);
          s = statePost k;
          m = pos3 (m_momentum3 p);
          pos = v3 (0.6 * vx m + (1 - 0.6) * s ! 0) (0.6 * vy m + (1 - 0.6) * s ! 1)
                   (0.6 * vz m + (1 - 0.6) * s ! 2)
      in (\<lparr>pos3 = pos, vel3 = v3 (s ! 3) (s ! 4) (s ! 5)\<rparr>,
          p\<lparr>m_kf3 := k, m_momentum3 := (m_momentum3 p)\<lparr>pos3 := pos\<rparr>\<rparr>))"

definition kf3_track_with_correct :: "'c kf_lib \<Rightarrow> real \<Rightarrow> predictor_state \<Rightarrow> 'c kf_predictor
    \<Rightarrow> vec3 \<times> 'c kf_predictor" where
  "kf3_track_with_correct lib target_ts meas p =
     (let p1 = kf3_update_transition target_ts p;
          (pred, p2) = kf3_predict lib p1;
          (cpred, p3) = kf3_correct lib meas p2
      in (pos3 cpred, p3\<lparr>last_correct_time3 := target_ts, last_measure_time3 := target_ts\<rparr>))"

definition kf3_valid_predict_time :: "real \<Rightarrow> 'c kf_predictor \<Rightarrow> real" where
  "kf3_valid_predict_time target_ts p =
     (let s = statePost (m_kf3 p)
      in valid_predict_time [0.1, 0.08, 0.03] (norm3 (v3 (s ! 3) (s ! 4) (s ! 5)))
           (last_measure_time3 p) (predict_length_ratio3 p) target_ts)"

definition kf3_track_only_pred :: "'c kf_lib \<Rightarrow> real \<Rightarrow> bool \<Rightarrow> bool \<Rightarrow> 'c kf_predictor
    \<Rightarrow> (vec3 \<times> 'c kf_predictor) res" where
  "kf3_track_only_pred lib target_ts with_smooth update_state p =
     (let p1 = kf3_update_transition (kf3_valid_predict_time target_ts p) p;
          (pose, p2) =
            (if update_state then
               (let (pred, p2) = kf3_predict lib p1; (_, p3) = kf3_correct lib pred p2
                in (pos3 pred, p3\<lparr>last_correct_time3 := target_ts\<rparr>))
             else
               (let s = mat_vec (transitionMatrix (m_kf3 p1)) (statePost (m_kf3 p1))
                in (v3 (s ! 0) (s ! 1) (s ! 2), p1)))
      in if with_smooth then
           (case seq3d_filter [pose] (predict_smoother p2) of
              Inl e \<Rightarrow> Inl e
            | Inr (ps, s) \<Rightarrow> Inr (ps ! 0, p2\<lparr>predict_smoother := s\<rparr>))
         else Inr (pose, p2))"

definition kf3_get_tracking_status :: "'c kf_predictor \<Rightarrow> bool" where
  "kf3_get_tracking_status p = is_tracked3 p"

definition kf3_stop_tracking :: "'c kf_predictor \<Rightarrow> 'c kf_predictor" where
  "kf3_stop_tracking p = p\<lparr>is_tracked3 := False\<rparr>"

section \<open>The prediction horizon\<close>

lemma valid_predict_time_bounds:
  assumes "i = intervals ! hand_static_state v"
  shows "valid_predict_time intervals v t0 1 t \<le> t \<and> valid_predict_time intervals v t0 1 t \<le> t0 + i \<and>
    (t0 + i \<le> t \<longrightarrow> valid_predict_time intervals v t0 1 t = t0 + i) \<and>
    (t \<le> t0 + i \<longrightarrow> valid_predict_time intervals v t0 1 t = t)"
  using assms by (auto simp: valid_predict_time_def Let_def min_def)

text \<open>
  A prediction never reaches beyond the requested time nor more than a tenth of a second
  beyond the last measurement. The limit is the wrong way round with respect to the comment
  beside it: a hand moving faster than 0.2 is extrapolated for up to 100 ms, a hand slower
  than 0.1, which the comment calls static and gives 100 ms, for 40 ms (30 ms in 3D).
\<close>

lemma prediction_horizon:
  assumes "predict_length_ratio2 p = 1" and "predict_length_ratio3 q = 1"
    and "speed2 = sqrt (statePost (m_kf2 p) ! 2 * statePost (m_kf2 p) ! 2
                      + statePost (m_kf2 p) ! 3 * statePost (m_kf2 p) ! 3)"
    and "last_measure_time2 p + 0.1 \<le> t"
  shows "kf2_valid_predict_time t p \<le> last_measure_time2 p + 0.1 \<and>
    kf3_valid_predict_time t' q \<le> t' \<and> kf3_valid_predict_time t' q \<le> last_measure_time3 q + 0.1 \<and>
    (0.2 \<le> speed2 \<longrightarrow> kf2_valid_predict_time t p = last_measure_time2 p + 0.1) \<and>
    (speed2 < 0.1 \<longrightarrow> kf2_valid_predict_time t p = last_measure_time2 p + 0.04)"
proof -
  have horizon2: "[0.1, 0.08, 0.04 :: real] ! hand_static_state v \<le> 0.1"
    and horizon3: "[0.1, 0.08, 0.03 :: real] ! hand_static_state v \<le> 0.1" for v
    by (simp_all add: hand_static_state_def)
  have "kf3_valid_predict_time t' q \<le> t' \<and> kf3_valid_predict_time t' q \<le> last_measure_time3 q + 0.1"
    using valid_predict_time_bounds [OF refl, of "[0.1, 0.08, 0.03]"] horizon3
    unfolding kf3_valid_predict_time_def Let_def assms(2) by (meson add_left_mono order_trans)
  moreover have eq: "kf2_valid_predict_time t p =
      last_measure_time2 p + [0.1, 0.08, 0.04] ! hand_static_state speed2"
    using valid_predict_time_bounds [OF refl, of "[0.1, 0.08, 0.04]" speed2 "last_measure_time2 p" t]
      horizon2 [of speed2] assms(4)
    unfolding kf2_valid_predict_time_def Let_def assms(1) assms(3) [symmetric] by linarith
  ultimately show ?thesis
    using horizon2 [of speed2] by (simp add: eq hand_static_state_def)
qed

text \<open>A library that satisfies the documented shapes; \<open>predict\<close> is OpenCV's \<open>statePre = A * statePost\<close>.\<close>

definition identity_mat :: "nat \<Rightarrow> mat" where
  "identity_mat n = set_identity 1 (mat_zeros n n)"

definition example_lib :: "unit kf_lib" where
  "example_lib =
     \<lparr>kf_make = (\<lambda>n m c. \<lparr>transitionMatrix = identity_mat n, measurementMatrix = mat_zeros m n,
        processNoiseCov = identity_mat n, measurementNoiseCov = identity_mat m,
        statePre = replicate n 0, statePost = replicate n 0, kf_private = ()\<rparr>),
      kf_predict = (\<lambda>k. let s = mat_vec (transitionMatrix k) (statePost k)
                       in k\<lparr>statePre := s, statePost := s\<rparr>),
      kf_correct = (\<lambda>z k. k)\<rparr>"

definition example_predictor_2d :: "unit kf_predictor_2d" where
  "example_predictor_2d = kf2_init example_lib \<lparr>pos2 = v2 0 0, vel2 = v2 0 0\<rparr>"

definition example_predictor_3d :: "unit kf_predictor" where
  "example_predictor_3d =
     \<lparr>m_kf3 = kf_make example_lib 9 6 0, last_correct_time3 = 0, last_measure_time3 = 0,
      is_tracked3 = False, m_momentum3 = \<lparr>pos3 = v3 0 0 0, vel3 = v3 0 0 0\<rparr>,
      predict_length_ratio3 = 1, glasses_type3 = ''flora'',
      predict_smoother = \<lparr>s3_num = 1, s3_filters = []\<rparr>\<rparr>"

section \<open>What is predicted\<close>

lemma identity_6:
  assumes "length m = 6" and "\<forall>i<6. length (m ! i) = 6"
  shows "set_identity 1 m =
    [[1, 0, 0, 0, 0, 0], [0, 1, 0, 0, 0, 0], [0, 0, 1, 0, 0, 0],
     [0, 0, 0, 1, 0, 0], [0, 0, 0, 0, 1, 0], [0, 0, 0, 0, 0, 1]]"
proof -
  have "set_identity 1 m = map (\<lambda>i. map (\<lambda>j. if i = j then 1 else 0) [0..<6]) [0..<6]"
    using assms by (auto simp: set_identity_def)
  then show ?thesis by (simp add: upt_rec)
qed

lemma transition_2d_twice:
  "transition_2d dt (transition_2d dt
    [[1, 0, 0, 0, 0, 0], [0, 1, 0, 0, 0, 0], [0, 0, 1, 0, 0, 0],
     [0, 0, 0, 1, 0, 0], [0, 0, 0, 0, 1, 0], [0, 0, 0, 0, 0, 1]]) =
   transition_2d dt
    [[1, 0, 0, 0, 0, 0], [0, 1, 0, 0, 0, 0], [0, 0, 1, 0, 0, 0],
     [0, 0, 0, 1, 0, 0], [0, 0, 0, 0, 1, 0], [0, 0, 0, 0, 0, 1]]"
  by (simp add: transition_2d_def mat_set_def)

lemma transition_2d_identity:
  "mat_vec (transition_2d dt
    [[1, 0, 0, 0, 0, 0], [0, 1, 0, 0, 0, 0], [0, 0, 1, 0, 0, 0],
     [0, 0, 0, 1, 0, 0], [0, 0, 0, 0, 1, 0], [0, 0, 0, 0, 0, 1]]) [x, y, u, v, a, b] =
   [x + dt * u + 0.5 * \<bar>dt\<bar> * dt * a, y + dt * v + 0.5 * \<bar>dt\<bar> * dt * b,
    u + \<bar>dt\<bar> * a, v + \<bar>dt\<bar> * b, a, b]"
  by (simp add: transition_2d_def mat_set_def mat_vec_def)

text \<open>
  After \<open>start_tracking\<close> the 2D predictor extrapolates the measurement at constant
  velocity for the time its horizon allows, and asking for a prediction without updating
  the state does not change what the next one returns.
\<close>

lemma start_then_predict:
  assumes "length (transitionMatrix (m_kf2 p)) = 6"
    and "\<forall>i<6. length (transitionMatrix (m_kf2 p) ! i) = 6"
    and "q = kf2_start_tracking t0 meas p"
    and "dt = kf2_valid_predict_time t q - t0"
  shows "fst (kf2_track_only_pred lib t False q) = add2 (pos2 meas) (scale2 dt (vel2 meas)) \<and>
    fst (kf2_track_only_pred lib t False (snd (kf2_track_only_pred lib t False q))) =
      fst (kf2_track_only_pred lib t False q)"
proof -
  let ?T = "transitionMatrix (m_kf2 p)"
  have state: "statePost (m_kf2 q) =
      [v2x (pos2 meas), v2y (pos2 meas), v2x (vel2 meas), v2y (vel2 meas), 0, 0]"
    by (simp add: assms(3) kf2_start_tracking_def Let_def numeral_eq_Suc)
  have trans: "transitionMatrix (m_kf2 q) = set_identity 1 ?T"
    and time: "last_correct_time2 q = t0"
    by (simp_all add: assms(3) kf2_start_tracking_def reset_kalman_filter_2d_def Let_def)
  show ?thesis
    by (simp add: kf2_track_only_pred_def Let_def kf2_update_transition_def time trans state
        kf2_valid_predict_time_def transition_2d_twice identity_6 assms(1,2) transition_2d_identity
        add2_def scale2_def)
      (simp add: assms(4) kf2_valid_predict_time_def state time Let_def)
qed

end
