(* ===== verification/Boxes.thy ===== *)
theory Boxes
  imports HandTypes
begin

text \<open>
  Bounding boxes: \<^verbatim>\<open>aisdk/algorithm/common/bbox.h\<close>, the checks of \<^verbatim>\<open>metrics.cpp\<close>,
  \<open>kpts_to_bbox\<close> of \<^verbatim>\<open>NR_Transfer.cpp\<close> and the non-maximum suppression of
  \<^verbatim>\<open>aisdk/algorithm/func/netalgo_utils.cpp\<close>.
\<close>

section \<open>Conversions of bbox.h\<close>

type_synonym vec4 = "vec2 \<times> vec2"

definition bbox_xyxy2cs :: "vec4 \<Rightarrow> vec4" where
  "bbox_xyxy2cs b = (scale2 (1 / 2) (add2 (fst b) (snd b)), sub2 (snd b) (fst b))"

text \<open>The second corner is computed from the size, as the code has it.\<close>

definition bbox_cs2xyxy :: "vec4 \<Rightarrow> vec4" where
  "bbox_cs2xyxy b =
     (let scale = snd b in (sub2 (fst b) (scale2 0.5 scale), add2 (snd b) (scale2 0.5 scale)))"

definition bbox_xywh2cs :: "vec4 \<Rightarrow> vec4" where
  "bbox_xywh2cs b = (add2 (fst b) (scale2 0.5 (snd b)), snd b)"

text \<open>
  Converting corners to centre and size and back returns the first corner, but the second
  one only for a box whose centre equals its size; converting position and size to the
  centre form agrees with converting the corners.
\<close>

lemma bbox_corner_roundtrip:
  "fst (bbox_cs2xyxy (bbox_xyxy2cs (p, q))) = p \<and>
   (snd (bbox_cs2xyxy (bbox_xyxy2cs (p, q))) = q \<longleftrightarrow> fst (bbox_xyxy2cs (p, q)) = sub2 q p) \<and>
   bbox_xywh2cs (p, sub2 q p) = bbox_xyxy2cs (p, q)"
  by (cases p; cases q)
    (auto simp: bbox_cs2xyxy_def bbox_xyxy2cs_def bbox_xywh2cs_def Let_def model_defs field_simps)

section \<open>Boxes of keypoints\<close>

definition FLT_MAX :: real where "FLT_MAX = 2 ^ 128 - 2 ^ 104"
definition FLT_MIN :: real where "FLT_MIN = 1 / 2 ^ 126"

text \<open>The members the code leaves uninitialised come from \<open>uninit\<close>.\<close>

definition kpts_to_bbox :: "detect_rect \<Rightarrow> vec2 list \<Rightarrow> detect_rect" where
  "kpts_to_bbox uninit kps =
     (let min_x = fold (\<lambda>p m. min m (v2x p)) kps FLT_MAX;
          min_y = fold (\<lambda>p m. min m (v2y p)) kps FLT_MAX;
          max_x = fold (\<lambda>p m. max m (v2x p)) kps FLT_MIN;
          max_y = fold (\<lambda>p m. max m (v2y p)) kps FLT_MIN
      in uninit\<lparr>rx := min_x, ry := min_y, rw := max_x - min_x, rh := max_y - min_y\<rparr>)"

lemma fold_min_bounds:
  "fold (\<lambda>p m. min m (f p)) kps (a :: real) \<le> a \<and>
   (\<forall>p\<in>set kps. fold (\<lambda>p m. min m (f p)) kps a \<le> f p) \<and>
   fold (\<lambda>p m. min m (f p)) kps a \<in> insert a (f ` set kps)"
proof (induction kps arbitrary: a)
  case (Cons k kps)
  show ?case using Cons.IH [of "min a (f k)"] by (auto simp: min_def split: if_splits)
qed simp

lemma fold_max_bounds:
  "a \<le> fold (\<lambda>p m. max m (f p)) kps (a :: real) \<and>
   (\<forall>p\<in>set kps. f p \<le> fold (\<lambda>p m. max m (f p)) kps a) \<and>
   fold (\<lambda>p m. max m (f p)) kps a \<in> insert a (f ` set kps)"
proof (induction kps arbitrary: a)
  case (Cons k kps)
  show ?case using Cons.IH [of "max a (f k)"] by (auto simp: max_def split: if_splits)
qed simp

text \<open>
  Every keypoint lies in its box. The box is not always the tight one: the maxima start at
  \<open>FLT_MIN\<close>, the smallest positive float, so the right edge of a hand whose keypoints all
  have negative coordinates is \<open>FLT_MIN\<close> instead of a keypoint's.
\<close>

lemma kpts_to_bbox_covers:
  assumes "p \<in> set kps" and "v2x p \<le> FLT_MAX" and "b = kpts_to_bbox u kps"
  shows "rx b \<le> v2x p \<and> v2x p \<le> rx b + rw b \<and> ry b \<le> v2y p \<and> v2y p \<le> ry b + rh b \<and>
    (\<exists>q\<in>set kps. rx b = v2x q) \<and>
    (if \<exists>q\<in>set kps. FLT_MIN \<le> v2x q then \<exists>q\<in>set kps. rx b + rw b = v2x q
     else rx b + rw b = FLT_MIN)"
proof -
  note bounds = fold_min_bounds [where kps = kps and a = FLT_MAX]
    fold_max_bounds [where kps = kps and a = FLT_MIN]
  have left: "\<exists>q\<in>set kps. rx b = v2x q"
  proof (cases "fold (\<lambda>p m. min m (v2x p)) kps FLT_MAX = FLT_MAX")
    case True
    with bounds(1) [of v2x] assms(1,2) have "v2x p = FLT_MAX" by force
    with True assms(1,3) show ?thesis
      by (auto simp: kpts_to_bbox_def Let_def intro!: bexI [of _ p])
  next
    case False
    with bounds(1) [of v2x] assms(3) show ?thesis by (auto simp: kpts_to_bbox_def Let_def)
  qed
  have right: "if \<exists>q\<in>set kps. FLT_MIN \<le> v2x q then \<exists>q\<in>set kps. rx b + rw b = v2x q
      else rx b + rw b = FLT_MIN"
  proof (cases "fold (\<lambda>p m. max m (v2x p)) kps FLT_MIN = FLT_MIN")
    case True
    with bounds(2) [of v2x] have "\<forall>q\<in>set kps. v2x q \<le> FLT_MIN" by auto
    with True assms(3) show ?thesis by (auto simp: kpts_to_bbox_def Let_def intro: antisym)
  next
    case False
    with bounds(2) [of v2x] obtain q where "q \<in> set kps"
      and q: "fold (\<lambda>p m. max m (v2x p)) kps FLT_MIN = v2x q" by auto
    with bounds(2) [of v2x] False assms(3) show ?thesis
      by (auto simp: kpts_to_bbox_def Let_def)
  qed
  show ?thesis
    using bounds(1) [of v2x] bounds(1) [of v2y] bounds(2) [of v2x] bounds(2) [of v2y] assms left right
    by (simp add: kpts_to_bbox_def Let_def)
qed

definition example_rect :: detect_rect where
  "example_rect = \<lparr>rx = 0, ry = 0, rw = 0, rh = 0, confidence = 0, left_confidence = 0,
     right_confidence = 0, is_left = False, nms_suppressed = False\<rparr>"

section \<open>Checks of metrics.cpp\<close>

definition compute_rmse :: "vec2 list \<Rightarrow> vec2 list \<Rightarrow> fl" where
  "compute_rmse lval rval =
     (let res = sum_list (map (\<lambda>i. (v2x (lval ! i) - v2x (rval ! i)) * (v2x (lval ! i) - v2x (rval ! i)) +
                                  (v2y (lval ! i) - v2y (rval ! i)) * (v2y (lval ! i) - v2y (rval ! i)))
                       [0..<13]);
          rmse = sqrt (res / 26);
          d = (\<lambda>f i j. \<bar>f (rval ! i) - f (rval ! j)\<bar>);
          dist_array = map (\<lambda>(i, j). d v2x i j) [(1, 17), (1, 0), (5, 0), (9, 0), (13, 0), (17, 0)]
                     @ map (\<lambda>(i, j). d v2y i j) [(1, 17), (1, 0), (5, 0), (9, 0), (13, 0), (17, 0)];
          nrm = fold max (tl dist_array) (hd dist_array)
      in if nrm = 0 then None else Some (rmse / nrm))"

text \<open>A camera model is the function of its \<open>world_to_window\<close>.\<close>

definition compute_mono_rmse_with_reprojection ::
    "vec3 list \<Rightarrow> vec2 list \<Rightarrow> (vec3 list \<Rightarrow> vec2 list) \<Rightarrow> real" where
  "compute_mono_rmse_with_reprojection pred_xyz uv_ori world_to_window =
     (let reproj = world_to_window pred_xyz;
          err = sum_list (map (\<lambda>i.
             (v2x (reproj ! i) - v2x (uv_ori ! i)) * (v2x (reproj ! i) - v2x (uv_ori ! i)) / 13 +
             (v2y (reproj ! i) - v2y (uv_ori ! i)) * (v2y (reproj ! i) - v2y (uv_ori ! i)) / 13)
             [0..<13])
      in sqrt err)"

text \<open>\<open>std::max\<close> is \<open>a < b ? b : a\<close>: a NaN on either side gives the first argument.\<close>

fun fl_max :: "fl \<Rightarrow> fl \<Rightarrow> fl" where
  "fl_max (Some a) (Some b) = Some (max a b)"
| "fl_max a _ = a"

definition compute_score_with_reprojection ::
    "vec3 list \<Rightarrow> vec2 list \<Rightarrow> vec2 list \<Rightarrow> (vec3 list \<Rightarrow> vec2 list) \<Rightarrow> (vec3 list \<Rightarrow> vec2 list)
     \<Rightarrow> fl" where
  "compute_score_with_reprojection pred_xyz luv ruv left_cam right_cam =
     fl_sub 1 (fl_max (compute_rmse (left_cam pred_xyz) luv) (compute_rmse (right_cam pred_xyz) ruv))"

definition check_if_rect_valid :: "detect_rect \<Rightarrow> real \<Rightarrow> real \<Rightarrow> real \<Rightarrow> real \<Rightarrow> bool" where
  "check_if_rect_valid rect max_width max_height ratio_th min_area =
     (let rect_size = max (rw rect) (rh rect);
          cx = rx rect + rw rect / 2;
          cy = ry rect + rh rect / 2;
          new_x = cx - rect_size / 2;
          new_y = cy - rect_size / 2;
          x1 = max 0 new_x;
          y1 = max 0 new_y;
          x2 = min max_width (new_x + rect_size);
          y2 = min max_height (new_y + rect_size);
          ratio = (x2 - x1) * (y2 - y1) / (rect_size * rect_size + 0.1)
      in ratio > ratio_th \<and> rw rect * rh rect > min_area)"

text \<open>The code tests the first component three times.\<close>

definition isNaN :: "(fl \<times> fl \<times> fl) list \<Rightarrow> bool" where
  "isNaN kpts = list_ex (\<lambda>k. fst k = None \<or> fst k = None \<or> fst k = None) kpts"

text \<open>A quaternion \<open>(w, x, y, z)\<close> whose components may be NaN.\<close>

type_synonym quat = "fl \<times> fl \<times> fl \<times> fl"

fun fl_sq_norm :: "quat \<Rightarrow> fl" where
  "fl_sq_norm (Some w, Some x, Some y, Some z) = Some (w * w + x * x + y * y + z * z)"
| "fl_sq_norm _ = None"

definition isHeadPoseValid :: "quat \<Rightarrow> bool" where
  "isHeadPoseValid q =
     (case q of (w, x, y, z) \<Rightarrow>
        if list_ex (\<lambda>c. fl_lt c (- FLT_MAX) \<or> fl_gt c FLT_MAX) [w, x, y, z] then False
        else (case fl_sq_norm q of None \<Rightarrow> False | Some l \<Rightarrow> \<bar>l - 1\<bar> \<le> 0.000001))"

lemma component_of_unit:
  assumes "\<bar>w * w + x * x + y * y + z * z - 1\<bar> \<le> (0.000001 :: real)"
  shows "\<bar>w\<bar> \<le> 2 \<and> \<bar>x\<bar> \<le> 2 \<and> \<bar>y\<bar> \<le> 2 \<and> \<bar>z\<bar> \<le> 2"
proof -
  have bnd: "\<bar>a\<bar> \<le> 2" if "a * a \<le> 4" for a :: real
    using that abs_le_square_iff [of a 2] by (simp add: power2_eq_square)
  have "0 \<le> w * w" "0 \<le> x * x" "0 \<le> y * y" "0 \<le> z * z" by simp_all
  moreover have "\<bar>w * w + x * x + y * y + z * z - 1\<bar> \<le> 1"
    using assms by (rule order_trans) simp
  ultimately have "w * w \<le> 4 \<and> x * x \<le> 4 \<and> y * y \<le> 4 \<and> z * z \<le> 4"
    unfolding abs_le_iff by linarith
  then show ?thesis using bnd by blast
qed

text \<open>
  A head pose is accepted exactly when no component of its rotation is a NaN and the
  squared norm is within a millionth of 1; the range test before it rejects nothing else.
\<close>

lemma head_pose_valid_iff:
  "isHeadPoseValid (qw, qx, qy, qz) \<longleftrightarrow>
     (\<exists>w x y z. qw = Some w \<and> qx = Some x \<and> qy = Some y \<and> qz = Some z \<and>
        \<bar>w * w + x * x + y * y + z * z - 1\<bar> \<le> 0.000001)"
proof (cases "fl_sq_norm (qw, qx, qy, qz)")
  case None
  then show ?thesis by (auto simp: isHeadPoseValid_def)
next
  case (Some l)
  then obtain w x y z where q: "qw = Some w" "qx = Some x" "qy = Some y" "qz = Some z"
    by (cases "(qw, qx, qy, qz)" rule: fl_sq_norm.cases) auto
  have big: "2 < FLT_MAX" by (simp add: FLT_MAX_def)
  show ?thesis
    using component_of_unit [of w x y z] big
    by (auto simp: isHeadPoseValid_def q fl_lt_def fl_gt_def)
qed

text \<open>
  For a box whose surrounding square meets the image columns, acceptance means that more
  than the given share of the square is inside the image. A square that lies beyond the
  image in both directions is accepted too, once it is far enough away: two negative
  overlaps multiply to a positive area.
\<close>

lemma rect_valid_meaning:
  assumes "0 \<le> th" and "0 \<le> W" and "0 \<le> H" and "s = max (rw r) (rh r)" and "0 \<le> s"
    and "l = rx r + rw r / 2 - s / 2" and "t = ry r + rh r / 2 - s / 2"
  shows "(check_if_rect_valid r W H th ma \<and> 0 < l + s \<and> l < W \<and> 0 < s \<and> 0 < W \<longrightarrow>
       0 < t + s \<and> t < H \<and> ma < rw r * rh r \<and>
       th * (s * s) < (min W (l + s) - max 0 l) * (min H (t + s) - max 0 t)) \<and>
    (W \<le> l \<and> H \<le> t \<and> th * (s * s + 0.1) < (l - W) * (t - H) \<and> ma < rw r * rh r \<longrightarrow>
       check_if_rect_valid r W H th ma)"
proof -
  let ?ix = "min W (l + s) - max 0 l"
  let ?iy = "min H (t + s) - max 0 t"
  have "0 \<le> s * s" using assms(5) by simp
  then have pos: "0 < s * s + 0.1" by (rule add_nonneg_pos) simp
  have iff: "check_if_rect_valid r W H th ma \<longleftrightarrow> th * (s * s + 0.1) < ?ix * ?iy \<and> ma < rw r * rh r"
    using pos by (simp add: check_if_rect_valid_def Let_def assms(4,6,7) pos_less_divide_eq)
  have "th * (s * s) \<le> th * (s * s + 0.1)" using assms(1) by (intro mult_left_mono) auto
  moreover have "0 < ?iy" if "0 < ?ix" "th * (s * s + 0.1) < ?ix * ?iy"
  proof -
    have "0 \<le> th * (s * s + 0.1)" using assms(1) pos by simp
    with that(2) have "0 < ?ix * ?iy" by linarith
    with that(1) show ?thesis by (simp only: zero_less_mult_iff) auto
  qed
  moreover have "?ix * ?iy = (l - W) * (t - H)" if "W \<le> l" "H \<le> t"
    using that assms by (simp add: min_def max_def algebra_simps)
  ultimately show ?thesis unfolding iff using assms(5) by fastforce
qed

section \<open>Non-maximum suppression\<close>

definition get_iou_ext :: "detect_rect \<Rightarrow> detect_rect \<Rightarrow> real" where
  "get_iou_ext a b =
     (if is_left a \<noteq> is_left b then - 0.1
      else if rx a > rx b + rw b then 0
      else if ry a > ry b + rh b then 0
      else if rx a + rw a < rx b then 0
      else if ry a + rh a < ry b then 0
      else
        let colInt = min (rx a + rw a) (rx b + rw b) - max (rx a) (rx b);
            rowInt = min (ry a + rh a) (ry b + rh b) - max (ry a) (ry b);
            intersection = colInt * rowInt;
            area1 = rw a * rh a;
            area2 = rw b * rh b
        in intersection / (area1 + area2 - intersection))"

definition suppress_by :: "real \<Rightarrow> detect_rect \<Rightarrow> detect_rect \<Rightarrow> detect_rect" where
  "suppress_by th a b =
     (if nms_suppressed b then b
      else if get_iou_ext a b > th then b\<lparr>nms_suppressed := True\<rparr> else b)"

text \<open>The two loops: box i against every later box j.\<close>

fun nms_scan :: "real \<Rightarrow> detect_rect list \<Rightarrow> detect_rect list" where
  "nms_scan th [] = []"
| "nms_scan th (a # rest) =
     a # nms_scan th (if nms_suppressed a then rest else map (suppress_by th a) rest)"

definition nms :: "real \<Rightarrow> detect_rect list \<Rightarrow> detect_rect list" where
  "nms iou_threshold rect = nms_scan iou_threshold (sort_key (\<lambda>r. - confidence r) rect)"

definition unflag :: "detect_rect \<Rightarrow> detect_rect" where
  "unflag r = r\<lparr>nms_suppressed := False\<rparr>"

lemma unflag_suppress [simp]: "unflag (suppress_by th a b) = unflag b"
  by (simp add: suppress_by_def unflag_def)

lemma iou_unflag: "get_iou_ext (unflag a) (unflag b) = get_iou_ext a b"
  by (simp add: get_iou_ext_def unflag_def Let_def)

lemma iou_cong: "unflag a = unflag a' \<Longrightarrow> unflag b = unflag b' \<Longrightarrow> get_iou_ext a b = get_iou_ext a' b'"
  by (metis iou_unflag)

lemma suppress_keeps: "nms_suppressed b \<Longrightarrow> suppress_by th a b = b"
  by (simp add: suppress_by_def)

lemma nms_scan_unflag: "map unflag (nms_scan th rs) = map unflag rs"
  by (induction th rs rule: nms_scan.induct) (simp_all add: comp_def)

lemma nms_scan_length [simp]: "length (nms_scan th rs) = length rs"
  by (metis length_map nms_scan_unflag)

lemma nms_scan_flag_mono:
  "i < length rs \<Longrightarrow> nms_suppressed (rs ! i) \<Longrightarrow> nms_suppressed (nms_scan th rs ! i)"
  by (induction th rs arbitrary: i rule: nms_scan.induct)
    (auto simp: nth_Cons suppress_keeps split: nat.splits)

lemma nms_scan_survivors:
  assumes "i < j" and "j < length rs"
    and "\<not> nms_suppressed (nms_scan th rs ! i)" and "\<not> nms_suppressed (nms_scan th rs ! j)"
  shows "get_iou_ext (rs ! i) (rs ! j) \<le> th"
  using assms
proof (induction th rs arbitrary: i j rule: nms_scan.induct)
  case (2 th a rest)
  let ?rest = "if nms_suppressed a then rest else map (suppress_by th a) rest"
  obtain j' where j: "j = Suc j'" using 2(2) by (cases j) auto
  have unf: "unflag (?rest ! k) = unflag (rest ! k)" if "k < length rest" for k
    using that by simp
  show ?case
  proof (cases i)
    case 0
    with 2(4) have a: "\<not> nms_suppressed a" by simp
    have "\<not> nms_suppressed (?rest ! j')"
      using 2(3,5) j nms_scan_flag_mono [of j' ?rest th] by auto
    with a 0 j 2(3) show ?thesis by (auto simp: suppress_by_def split: if_splits)
  next
    case (Suc i')
    have "get_iou_ext (?rest ! i') (?rest ! j') \<le> th"
      by (rule "2.IH") (use 2(2-5) Suc j in auto)
    moreover have "get_iou_ext (?rest ! i') (?rest ! j') = get_iou_ext (rest ! i') (rest ! j')"
      using 2(2,3) Suc j by (intro iou_cong unf) auto
    ultimately show ?thesis using Suc j by simp
  qed
qed simp

lemma nms_scan_killer:
  assumes "j < length rs" and "nms_suppressed (nms_scan th rs ! j)" and "\<not> nms_suppressed (rs ! j)"
  shows "\<exists>i<j. \<not> nms_suppressed (nms_scan th rs ! i) \<and> th < get_iou_ext (rs ! i) (rs ! j)"
  using assms
proof (induction th rs arbitrary: j rule: nms_scan.induct)
  case (2 th a rest)
  let ?rest = "if nms_suppressed a then rest else map (suppress_by th a) rest"
  obtain j' where j: "j = Suc j'" using 2(3,4) by (cases j) auto
  show ?case
  proof (cases "nms_suppressed (?rest ! j')")
    case True
    with 2(2,4) j have "\<not> nms_suppressed a" "th < get_iou_ext a (rest ! j')"
      by (auto simp: suppress_by_def split: if_splits)
    with j show ?thesis by auto
  next
    case False
    have len: "j' < length ?rest" using 2(2) j by auto
    have flagged: "nms_suppressed (nms_scan th ?rest ! j')" using 2(3) j by simp
    from "2.IH" [OF len flagged False] obtain i where i: "i < j'"
      "\<not> nms_suppressed (nms_scan th ?rest ! i)" "th < get_iou_ext (?rest ! i) (?rest ! j')"
      by blast
    have "get_iou_ext (?rest ! i) (?rest ! j') = get_iou_ext (rest ! i) (rest ! j')"
      using i(1) 2(2) j by (intro iou_cong) auto
    with i j show ?thesis by (intro exI [of _ "Suc i"]) simp
  qed
qed simp

lemma nms_scan_confidence: "map confidence (nms_scan th rs) = map confidence rs"
  using arg_cong [OF nms_scan_unflag [of th rs], of "map confidence"]
  by (simp add: unflag_def comp_def)

lemma nms_sound:
  assumes "out = nms th rs" and "0 \<le> th" and "\<forall>r\<in>set rs. \<not> nms_suppressed r"
  shows "mset (map unflag out) = mset (map unflag rs) \<and>
    sorted_wrt (\<lambda>a b. confidence b \<le> confidence a) out \<and>
    (\<forall>j<length out. \<forall>i<j. \<not> nms_suppressed (out ! i) \<longrightarrow> \<not> nms_suppressed (out ! j) \<longrightarrow>
       get_iou_ext (out ! i) (out ! j) \<le> th) \<and>
    (\<forall>j<length out. nms_suppressed (out ! j) \<longrightarrow>
       (\<exists>i<j. \<not> nms_suppressed (out ! i) \<and> th < get_iou_ext (out ! i) (out ! j) \<and>
              is_left (out ! i) = is_left (out ! j)))"
proof -
  define srt where "srt = sort_key (\<lambda>r. - confidence r) rs"
  have out: "out = nms_scan th srt" by (simp add: assms(1) nms_def srt_def)
  have iou: "get_iou_ext (out ! i) (out ! j) = get_iou_ext (srt ! i) (srt ! j)"
    if "i < length srt" "j < length srt" for i j
    using that nms_scan_unflag [of th srt] unfolding out
    by (intro iou_cong) (metis length_map nth_map nms_scan_length)+
  have perm: "mset (map unflag out) = mset (map unflag rs)"
    unfolding out nms_scan_unflag mset_map by (simp add: srt_def)
  have "sorted (map (\<lambda>r. - confidence r) srt)" by (simp add: srt_def)
  then have "sorted (map uminus (map confidence out))"
    by (simp add: out nms_scan_confidence comp_def)
  then have sorted: "sorted_wrt (\<lambda>a b. confidence b \<le> confidence a) out"
    by (simp add: sorted_map)
  have unfl: "\<not> nms_suppressed (srt ! j)" if "j < length srt" for j
    using assms(3) nth_mem [OF that] by (simp add: srt_def)
  have killer: "\<exists>i<j. \<not> nms_suppressed (out ! i) \<and> th < get_iou_ext (out ! i) (out ! j) \<and>
      is_left (out ! i) = is_left (out ! j)" if "j < length out" "nms_suppressed (out ! j)" for j
  proof -
    from that nms_scan_killer [of j srt th] unfl [of j] obtain i where
      i: "i < j" "\<not> nms_suppressed (out ! i)" "th < get_iou_ext (srt ! i) (srt ! j)"
      by (auto simp: out)
    then have "th < get_iou_ext (out ! i) (out ! j)" using iou [of i j] that(1) by (simp add: out)
    moreover from this assms(2) have "is_left (out ! i) = is_left (out ! j)"
      by (auto simp: get_iou_ext_def split: if_splits)
    ultimately show ?thesis using i by blast
  qed
  have "get_iou_ext (out ! i) (out ! j) \<le> th"
    if "j < length out" "i < j" "\<not> nms_suppressed (out ! i)" "\<not> nms_suppressed (out ! j)" for i j
    using nms_scan_survivors [of i j srt th] iou [of i j] that by (simp add: out)
  with perm sorted killer show ?thesis by blast
qed

text \<open>
  C12: suppression keeps all boxes (only their order and their flags change) and sorts them by
  falling confidence. Two boxes that survive overlap by at most the threshold, and a box it
  suppresses overlaps a surviving box of the same hand and of at least its confidence by more
  than the threshold (for a threshold that is not negative).
\<close>

theorem nms_correct:
  assumes "out = nms th rs" and "0 \<le> th" and "\<forall>r\<in>set rs. \<not> nms_suppressed r"
  shows "mset (map unflag out) = mset (map unflag rs) \<and>
    sorted_wrt (\<lambda>a b. confidence b \<le> confidence a) out \<and>
    (\<forall>j<length out. \<forall>i<j. \<not> nms_suppressed (out ! i) \<longrightarrow> \<not> nms_suppressed (out ! j) \<longrightarrow>
       get_iou_ext (out ! i) (out ! j) \<le> th) \<and>
    (\<forall>j<length out. nms_suppressed (out ! j) \<longrightarrow>
       (\<exists>i<j. \<not> nms_suppressed (out ! i) \<and> th < get_iou_ext (out ! i) (out ! j) \<and>
              is_left (out ! i) = is_left (out ! j)))"
  using assms by (rule nms_sound)

definition example_boxes :: "detect_rect list" where
  "example_boxes =
     [example_rect\<lparr>rw := 10, rh := 10, confidence := 0.5\<rparr>,
      example_rect\<lparr>rx := 1, rw := 10, rh := 10, confidence := 0.9\<rparr>]"

theorem nms_correct_witness:
  "sorted_wrt (\<lambda>a b. confidence b \<le> confidence a) (nms 0.5 example_boxes)"
  using nms_correct [of "nms 0.5 example_boxes" "0.5" example_boxes]
  by (simp add: example_boxes_def example_rect_def)

section \<open>The distance of two boxes\<close>

text \<open>
  \<open>cv::Rect\<close> with its operators \<open>|\<close> (the smallest rectangle around both) and \<open>&\<close> (their
  intersection) as parameters. None: a division by zero. No code of the repository calls it.
\<close>

record cv_rect =
  cv_x :: int
  cv_y :: int
  cv_w :: int
  cv_h :: int

definition cv_area :: "cv_rect \<Rightarrow> int" where
  "cv_area r = cv_w r * cv_h r"

definition get_bbox_distance :: "(cv_rect \<Rightarrow> cv_rect \<Rightarrow> cv_rect) \<Rightarrow> (cv_rect \<Rightarrow> cv_rect \<Rightarrow> cv_rect)
    \<Rightarrow> cv_rect \<Rightarrow> cv_rect \<Rightarrow> real option" where
  "get_bbox_distance either both src dst =
     (let rec1 = either src dst; rec2 = both src dst;
          a_b = cv_area src + cv_area dst - cv_area rec2
      in if a_b = 0 \<or> cv_area rec1 = 0 then None
         else Some (let iou = real_of_int (cv_area rec2) / real_of_int a_b;
                        giou = iou - real_of_int (cv_area rec1 - a_b) / real_of_int (cv_area rec1)
                    in 1 - giou))"

lemma bbox_distance_bounds:
  assumes "0 < cv_area src" and "0 \<le> cv_area (both src dst)" and "cv_area (both src dst) \<le> cv_area dst"
    and "cv_area src + cv_area dst - cv_area (both src dst) \<le> cv_area (either src dst)"
    and "cv_area (both src dst) \<le> cv_area src"
  shows "\<exists>d. get_bbox_distance either both src dst = Some d \<and> 0 \<le> d \<and> d < 2 \<and>
    (d = 0 \<longleftrightarrow> cv_area src = cv_area (both src dst) \<and> cv_area dst = cv_area (both src dst) \<and>
       cv_area (either src dst) = cv_area (both src dst))"
proof -
  define i u r where iur: "i = real_of_int (cv_area (both src dst))"
    "u = real_of_int (cv_area src + cv_area dst - cv_area (both src dst))" "r = real_of_int (cv_area (either src dst))"
  have b: "0 \<le> i" "i \<le> u" "0 < u" "u \<le> r" using assms by (simp_all add: iur)
  define d where "d = 1 - (i / u - (r - u) / r)"
  have "get_bbox_distance either both src dst = Some d"
    using assms b by (simp add: get_bbox_distance_def Let_def d_def iur)
  moreover have d: "d = (1 - i / u) + (1 - u / r)" using b by (simp add: d_def diff_divide_distrib)
  have q: "0 \<le> i / u" "i / u \<le> 1" "0 < u / r" "u / r \<le> 1" using b by simp_all
  moreover have "d = 0 \<longleftrightarrow> i / u = 1 \<and> u / r = 1" using q unfolding d by linarith
  then have "d = 0 \<longleftrightarrow> i = u \<and> u = r" using b by auto
  moreover have "(i = u \<and> u = r) \<longleftrightarrow> (cv_area src = cv_area (both src dst) \<and> cv_area dst = cv_area (both src dst) \<and>
       cv_area (either src dst) = cv_area (both src dst))"
    using assms by (auto simp: iur)
  ultimately show ?thesis using d q by (intro exI [of _ d]) simp
qed

end
