(* ===== verification/Tracking.thy ===== *)
theory Tracking
  imports Predictor Boxes
begin

text \<open>
  The tracking loop: the shared \<open>GlobalPredictorService\<close> (\<^verbatim>\<open>NR_GlobalPredictorService.h\<close>),
  \<open>HandFilterCalculator\<close>, which feeds it, and \<open>HandDetTrackCalculator\<close>, which predicts from
  it (both under \<^verbatim>\<open>aisdk/algorithm/calculator\<close>).

  A result None means that the C++ has no defined value there: an access past the end of a
  vector, or a velocity over a time difference of zero.
\<close>

section \<open>GlobalPredictorService\<close>

record 'c predictor_service =
  kfpredictor_lhand :: "'c kf_predictor"
  kfpredictor_rhand :: "'c kf_predictor"
  bboxpredictor_lhand_lcam :: "'c kf_predictor_2d"
  bboxpredictor_rhand_lcam :: "'c kf_predictor_2d"
  bboxpredictor_lhand_rcam :: "'c kf_predictor_2d"
  bboxpredictor_rhand_rcam :: "'c kf_predictor_2d"
  hand_scale :: real
  last_kpt2d_pixel :: kpt2d_internal
  last_kpt3d_world :: hands_data

definition predictor_service_new :: "'c kf_lib \<Rightarrow> (nat \<Rightarrow> real) \<Rightarrow> predictor_state \<Rightarrow> predictor_state_2d
    \<Rightarrow> kpt2d_internal \<Rightarrow> 'c predictor_service res" where
  "predictor_service_new lib t0 u3 u2 k2 =
     (case kf3_init lib t0 u3 of
        Inl e \<Rightarrow> Inl e
      | Inr p \<Rightarrow> Inr \<lparr>kfpredictor_lhand = p, kfpredictor_rhand = p,
          bboxpredictor_lhand_lcam = kf2_init lib u2, bboxpredictor_rhand_lcam = kf2_init lib u2,
          bboxpredictor_lhand_rcam = kf2_init lib u2, bboxpredictor_rhand_rcam = kf2_init lib u2,
          hand_scale = 1, last_kpt2d_pixel = k2, last_kpt3d_world = new_hands_data\<rparr>)"

definition set_last_kpt2d_pixel :: "kpt2d_internal \<Rightarrow> 'c predictor_service \<Rightarrow> 'c predictor_service" where
  "set_last_kpt2d_pixel d g = g\<lparr>last_kpt2d_pixel := d\<rparr>"

definition set_last_kpt3d_world :: "hands_data \<Rightarrow> 'c predictor_service \<Rightarrow> 'c predictor_service" where
  "set_last_kpt3d_world d g = g\<lparr>last_kpt3d_world := d\<rparr>"

definition update_hand_scale :: "real \<Rightarrow> 'c predictor_service \<Rightarrow> 'c predictor_service" where
  "update_hand_scale s g = g\<lparr>hand_scale := (1 - 0.01) * hand_scale g + 0.01 * s\<rparr>"

section \<open>HandFilterCalculator\<close>

abbreviation kKeypointRootId :: nat where "kKeypointRootId \<equiv> 21"
abbreviation kKeypoint2dRootId :: nat where "kKeypoint2dRootId \<equiv> 9"

record hand_filter_calculator =
  hf_glasses_type :: string
  hf_last_timestamp :: real

definition hand_filter_open :: "(nat \<Rightarrow> real) \<Rightarrow> string \<Rightarrow> hand_filter_calculator \<Rightarrow> 'c predictor_service
    \<Rightarrow> (hand_filter_calculator \<times> 'c predictor_service) res" where
  "hand_filter_open t0 glasses c g =
     (case kf3_set_glasses_type t0 glasses (kfpredictor_lhand g) of
        Inl e \<Rightarrow> Inl e
      | Inr l \<Rightarrow>
          (case kf3_set_glasses_type t0 glasses (kfpredictor_rhand g) of
             Inl e \<Rightarrow> Inl e
           | Inr r \<Rightarrow> Inr (c\<lparr>hf_glasses_type := glasses\<rparr>,
               g\<lparr>kfpredictor_lhand := l, kfpredictor_rhand := r,
                 bboxpredictor_lhand_lcam := kf2_set_glasses_type glasses (bboxpredictor_lhand_lcam g),
                 bboxpredictor_rhand_lcam := kf2_set_glasses_type glasses (bboxpredictor_rhand_lcam g),
                 bboxpredictor_lhand_rcam := kf2_set_glasses_type glasses (bboxpredictor_lhand_rcam g),
                 bboxpredictor_rhand_rcam := kf2_set_glasses_type glasses (bboxpredictor_rhand_rcam g)\<rparr>)))"

text \<open>One hand's 3D root: stop, start, or correct with the measured velocity.\<close>

definition filter_hand_root :: "'c kf_lib \<Rightarrow> real \<Rightarrow> real \<Rightarrow> bool \<Rightarrow> single_hand_data \<Rightarrow> bool
    \<Rightarrow> single_hand_data \<Rightarrow> 'c kf_predictor \<Rightarrow> (single_hand_data \<times> 'c kf_predictor) option" where
  "filter_hand_root lib timestamp last_ts valid hand pre_valid pre_hand p =
     (if \<not> valid then Some (hand, kf3_stop_tracking p)
      else if length (kpt3d hand) \<le> kKeypointRootId then None
      else if \<not> kf3_get_tracking_status p then
        Some (hand, kf3_start_tracking timestamp
          \<lparr>pos3 = kpt3d hand ! kKeypointRootId, vel3 = v3 0 0 0\<rparr> p)
      else if pre_valid then
        (if timestamp = last_ts \<or> length (kpt3d pre_hand) \<le> kKeypointRootId then None
         else let measure_v = scale3 (1 / (timestamp - last_ts))
                    (sub3 (kpt3d hand ! kKeypointRootId) (kpt3d pre_hand ! kKeypointRootId))
              in Some (hand\<lparr>root_v := measure_v\<rparr>,
                   snd (kf3_track_with_correct lib timestamp
                     \<lparr>pos3 = kpt3d hand ! kKeypointRootId, vel3 = measure_v\<rparr> p)))
      else Some (hand, p))"

text \<open>One 2D root: hand and camera give the keypoints and the validity flags.\<close>

definition filter_bbox_root :: "'c kf_lib \<Rightarrow> real \<Rightarrow> real \<Rightarrow> bool \<Rightarrow> vec2 list \<Rightarrow> bool \<Rightarrow> vec2 list
    \<Rightarrow> 'c kf_predictor_2d \<Rightarrow> 'c kf_predictor_2d option" where
  "filter_bbox_root lib timestamp last_ts valid kpts pre_valid pre_kpts p =
     (if \<not> valid then Some (kf2_stop_tracking p)
      else if \<not> kf2_get_tracking_status p then
        (if length kpts \<le> kKeypoint2dRootId then None
         else Some (kf2_start_tracking timestamp
                \<lparr>pos2 = kpts ! kKeypoint2dRootId, vel2 = v2 0 0\<rparr> p))
      else if pre_valid then
        (if timestamp = last_ts \<or> length kpts \<le> kKeypoint2dRootId
            \<or> length pre_kpts \<le> kKeypoint2dRootId then None
         else let measure_v = scale2 (1 / (timestamp - last_ts))
                    (sub2 (kpts ! kKeypoint2dRootId) (pre_kpts ! kKeypoint2dRootId))
              in Some (snd (kf2_track_with_correct lib timestamp
                   \<lparr>pos2 = kpts ! kKeypoint2dRootId, vel2 = measure_v\<rparr> p)))
      else Some p)"

definition hand_filter_process :: "'c kf_lib \<Rightarrow> real \<Rightarrow> hands_data \<Rightarrow> kpt2d_internal
    \<Rightarrow> hand_filter_calculator \<Rightarrow> 'c predictor_service
    \<Rightarrow> (hands_data \<times> hand_filter_calculator \<times> 'c predictor_service) option" where
  "hand_filter_process lib timestamp kpt3d_world kpt2d_data c g =
     (let pre3 = last_kpt3d_world g; pre2 = last_kpt2d_pixel g; last_ts = hf_last_timestamp c;
          g0 = set_last_kpt2d_pixel kpt2d_data g;
          lh = left_hand kpt3d_world; rh = right_hand kpt3d_world;
          lv = lhand_valid kpt3d_world; rv = rhand_valid kpt3d_world;
          bbox = filter_bbox_root lib timestamp last_ts
      in do {
           (l, pl) \<leftarrow> filter_hand_root lib timestamp last_ts lv lh (lhand_valid pre3) (left_hand pre3)
                 (kfpredictor_lhand g);
           (r, pr) \<leftarrow> filter_hand_root lib timestamp last_ts rv rh (rhand_valid pre3) (right_hand pre3)
                 (kfpredictor_rhand g);
           ll \<leftarrow> bbox (k_lhand_lcam_valid kpt2d_data \<and> lv) (kpt2d_lcam lh)
                 (k_lhand_lcam_valid pre2) (kpt2d_lcam (left_hand pre3)) (bboxpredictor_lhand_lcam g);
           rl \<leftarrow> bbox (k_rhand_lcam_valid kpt2d_data \<and> rv) (kpt2d_lcam rh)
                 (k_rhand_lcam_valid pre2) (kpt2d_lcam (right_hand pre3)) (bboxpredictor_rhand_lcam g);
           lr \<leftarrow> bbox (k_lhand_rcam_valid kpt2d_data \<and> lv) (kpt2d_rcam lh)
                 (k_lhand_rcam_valid pre2) (kpt2d_rcam (left_hand pre3)) (bboxpredictor_lhand_rcam g);
           rr \<leftarrow> bbox (k_rhand_rcam_valid kpt2d_data \<and> rv) (kpt2d_rcam rh)
                 (k_rhand_rcam_valid pre2) (kpt2d_rcam (right_hand pre3)) (bboxpredictor_rhand_rcam g);
           Some (kpt3d_world\<lparr>left_hand := l, right_hand := r\<rparr>,
                 c\<lparr>hf_last_timestamp := timestamp\<rparr>,
                 g0\<lparr>kfpredictor_lhand := pl, kfpredictor_rhand := pr,
                    bboxpredictor_lhand_lcam := ll, bboxpredictor_rhand_lcam := rl,
                    bboxpredictor_lhand_rcam := lr, bboxpredictor_rhand_rcam := rr\<rparr>)
         })"

section \<open>The trackers follow the input\<close>

lemma kf3_correct_tracked [simp]: "is_tracked3 (snd (kf3_track_with_correct lib t m p)) = is_tracked3 p"
  by (simp add: kf3_track_with_correct_def kf3_update_transition_def kf3_predict_def kf3_correct_def
      Let_def split: prod.splits)

lemma kf2_correct_tracked [simp]: "is_tracked2 (snd (kf2_track_with_correct lib t m p)) = is_tracked2 p"
  by (simp add: kf2_track_with_correct_def kf2_update_transition_def kf2_predict_def kf2_correct_def
      Let_def split: prod.splits)

lemma filter_hand_root_tracked:
  "filter_hand_root lib t l valid h pv ph p = Some (h', p') \<Longrightarrow>
     is_tracked3 p' = valid \<and> h'\<lparr>root_v := root_v h\<rparr> = h"
  by (auto simp: filter_hand_root_def kf3_stop_tracking_def kf3_start_tracking_def
      kf3_get_tracking_status_def Let_def split: if_splits)

lemma filter_bbox_root_tracked:
  "filter_bbox_root lib t l valid k pv pk p = Some p' \<Longrightarrow> is_tracked2 p' = valid"
  by (auto simp: filter_bbox_root_def kf2_stop_tracking_def kf2_start_tracking_def
      kf2_get_tracking_status_def Let_def split: if_splits)

text \<open>
  After a frame, each of the six predictors is tracking exactly when its hand (and for a
  box its hand in its camera) was valid in that frame; the output is the input with new root
  velocities only, and the frame's keypoints and time are the ones the next frame sees.
\<close>

lemma hand_filter_tracks_valid:
  assumes "hand_filter_process lib t h k c g = Some (out, c', g')"
  shows "is_tracked3 (kfpredictor_lhand g') = lhand_valid h \<and>
    is_tracked3 (kfpredictor_rhand g') = rhand_valid h \<and>
    is_tracked2 (bboxpredictor_lhand_lcam g') = (k_lhand_lcam_valid k \<and> lhand_valid h) \<and>
    is_tracked2 (bboxpredictor_rhand_lcam g') = (k_rhand_lcam_valid k \<and> rhand_valid h) \<and>
    is_tracked2 (bboxpredictor_lhand_rcam g') = (k_lhand_rcam_valid k \<and> lhand_valid h) \<and>
    is_tracked2 (bboxpredictor_rhand_rcam g') = (k_rhand_rcam_valid k \<and> rhand_valid h) \<and>
    (left_hand out)\<lparr>root_v := root_v (left_hand h)\<rparr> = left_hand h \<and>
    (right_hand out)\<lparr>root_v := root_v (right_hand h)\<rparr> = right_hand h \<and>
    lhand_valid out = lhand_valid h \<and> rhand_valid out = rhand_valid h \<and>
    last_kpt2d_pixel g' = k \<and> hf_last_timestamp c' = t"
proof -
  from assms obtain l pl r pr ll rl lr rr where
    roots: "filter_hand_root lib t (hf_last_timestamp c) (lhand_valid h) (left_hand h)
        (lhand_valid (last_kpt3d_world g)) (left_hand (last_kpt3d_world g)) (kfpredictor_lhand g) = Some (l, pl)"
      "filter_hand_root lib t (hf_last_timestamp c) (rhand_valid h) (right_hand h)
        (rhand_valid (last_kpt3d_world g)) (right_hand (last_kpt3d_world g)) (kfpredictor_rhand g) = Some (r, pr)"
    and boxes: "is_tracked2 ll = (k_lhand_lcam_valid k \<and> lhand_valid h)"
      "is_tracked2 rl = (k_rhand_lcam_valid k \<and> rhand_valid h)"
      "is_tracked2 lr = (k_lhand_rcam_valid k \<and> lhand_valid h)"
      "is_tracked2 rr = (k_rhand_rcam_valid k \<and> rhand_valid h)"
    and res: "out = h\<lparr>left_hand := l, right_hand := r\<rparr>" "c' = c\<lparr>hf_last_timestamp := t\<rparr>"
      "g' = (set_last_kpt2d_pixel k g)\<lparr>kfpredictor_lhand := pl, kfpredictor_rhand := pr,
           bboxpredictor_lhand_lcam := ll, bboxpredictor_rhand_lcam := rl,
           bboxpredictor_lhand_rcam := lr, bboxpredictor_rhand_rcam := rr\<rparr>"
    unfolding hand_filter_process_def Let_def
    by (clarsimp simp: bind_eq_Some_conv simp del: split_paired_Ex) (blast dest: filter_bbox_root_tracked)
  show ?thesis
    using filter_hand_root_tracked [OF roots(1)] filter_hand_root_tracked [OF roots(2)] boxes
    by (simp add: res set_last_kpt2d_pixel_def)
qed

definition example_kpt2d :: kpt2d_internal where
  "example_kpt2d =
     \<lparr>lhand_lcam_kpt = [], lhand_rcam_kpt = [], rhand_lcam_kpt = [], rhand_rcam_kpt = [],
      lhand_lcam_rdepth = [], lhand_rcam_rdepth = [], rhand_lcam_rdepth = [],
      rhand_rcam_rdepth = [], lhand_lcam_virtual_camera = None, lhand_rcam_virtual_camera = None,
      rhand_lcam_virtual_camera = None, rhand_rcam_virtual_camera = None,
      k_lhand_lcam_valid = True, k_lhand_rcam_valid = False, k_rhand_lcam_valid = False,
      k_rhand_rcam_valid = False, lhand_hold_label = False, rhand_hold_label = False,
      lhand_lcam_raw_feats = [], lhand_lcam_pred_x = [], lhand_lcam_pred_y = [],
      rhand_rcam_raw_feats = [], rhand_rcam_pred_x = [], rhand_rcam_pred_y = []\<rparr>"

definition example_service :: "unit predictor_service" where
  "example_service =
     \<lparr>kfpredictor_lhand = example_predictor_3d, kfpredictor_rhand = example_predictor_3d,
      bboxpredictor_lhand_lcam = example_predictor_2d, bboxpredictor_rhand_lcam = example_predictor_2d,
      bboxpredictor_lhand_rcam = example_predictor_2d, bboxpredictor_rhand_rcam = example_predictor_2d,
      hand_scale = 1, last_kpt2d_pixel = kpt2d_clear example_kpt2d,
      last_kpt3d_world = new_hands_data\<rparr>"

definition example_hands :: hands_data where
  "example_hands = new_hands_data\<lparr>lhand_valid := True, left_hand :=
     new_single_hand_data\<lparr>kpt3d := replicate 26 (v3 0 0 1), kpt2d_lcam := replicate 21 (v2 100 100)\<rparr>\<rparr>"

end
