(* ===== verification/DetTrack.thy ===== *)
theory DetTrack
  imports Tracking
begin

text \<open>
  \<^verbatim>\<open>aisdk/algorithm/calculator/hand_detection_track_calculator.cpp\<close>: in every frame the
  calculator either predicts the boxes of the tracked hands or runs the detection network.
  The network's \<open>Inference\<close> is an argument: from the output buffer to its status and the
  buffer it filled. None stands for an access past the end of a vector.
\<close>

section \<open>State and Open\<close>

record det_track =
  dt_is_mono :: bool
  dt_video_width :: real
  dt_video_height :: real
  dt_min_bbox_area_th :: real
  det_tracker_step :: int
  det_interval :: int
  dt_valid_bbox_ratio :: real
  enable_track :: bool

definition det_track_new :: det_track where
  "det_track_new =
     \<lparr>dt_is_mono = True, dt_video_width = 0, dt_video_height = 0, dt_min_bbox_area_th = 10 * 10,
      det_tracker_step = 0, det_interval = 4, dt_valid_bbox_ratio = 0.8, enable_track = True\<rparr>"

datatype det_net = HandDetectNet | HandDetectNetv2

definition det_net_of :: "string \<Rightarrow> det_net" where
  "det_net_of model_name =
     (if model_name = ''detect_cpu_ella'' \<or> model_name = ''detect_cpu_flora''
         \<or> model_name = ''detect_dsp_ella''
      then HandDetectNet else HandDetectNetv2)"

datatype open_error = InvalidArgument string | OutOfRange

text \<open>
  \<open>create\<close> tells whether the network of that kind and name could be created; a camera is its
  resolution. \<open>cam_info.at(0)\<close> throws for an empty list.
\<close>

definition det_track_open :: "(det_net \<Rightarrow> string \<Rightarrow> bool) \<Rightarrow> string \<Rightarrow> int \<Rightarrow> bool
    \<Rightarrow> (real \<times> real) list \<Rightarrow> det_track \<Rightarrow> open_error + det_track" where
  "det_track_open create model_name opt_interval opt_enable cam_info st =
     (if \<not> create (det_net_of model_name) model_name then
        Inl (InvalidArgument ''[HandDetTrackCalculator] CreateNetAlgoBase nodename error'')
      else
        (let st1 = (if opt_interval > 0 then st\<lparr>det_interval := opt_interval\<rparr> else st);
             st2 = st1\<lparr>enable_track := opt_enable\<rparr>
         in case cam_info of
              [] \<Rightarrow> Inl OutOfRange
            | lcam # _ \<Rightarrow>
                (let st3 = (if length cam_info = 2 then st2\<lparr>dt_is_mono := False\<rparr> else st2)
                 in Inr (st3\<lparr>dt_video_width := fst lcam, dt_video_height := snd lcam,
                             det_tracker_step := 0\<rparr>))))"

section \<open>One box\<close>

definition box_ok :: "det_track \<Rightarrow> detect_rect \<Rightarrow> bool" where
  "box_ok st r = check_if_rect_valid r (dt_video_width st) (dt_video_height st)
                   (dt_valid_bbox_ratio st) (dt_min_bbox_area_th st)"

text \<open>
  A tracked hand in one camera: the keypoints move with the predicted root; the box is kept
  when it is valid. \<open>u\<close> is the uninitialised \<open>DetectRect\<close> it is written into.
\<close>

definition track_box :: "'c kf_lib \<Rightarrow> detect_rect \<Rightarrow> real \<Rightarrow> det_track \<Rightarrow> bool \<Rightarrow> vec2 list
    \<Rightarrow> 'c kf_predictor_2d \<Rightarrow> (detect_rect option \<times> 'c kf_predictor_2d) option" where
  "track_box lib u timestamp st tracked kpts p =
     (if \<not> tracked then Some (None, p)
      else if length kpts \<le> kKeypoint2dRootId then None
      else
        (let root_meas = kpts ! kKeypoint2dRootId;
             (root_kf_predicted, p') = kf2_track_only_pred lib timestamp True p;
             box = kpts_to_bbox u (map (\<lambda>k. sub2 (add2 k root_kf_predicted) root_meas) kpts)
         in Some (if box_ok st box then Some box else None, p')))"

text \<open>The first rectangle the network reports for a hand in an image, and its check.\<close>

definition take_detected :: "det_track \<Rightarrow> detect_rect list list \<Rightarrow> nat
    \<Rightarrow> (detect_rect \<times> bool) option option" where
  "take_detected st rects i =
     (if length rects \<le> i then None
      else Some (case rects ! i of [] \<Rightarrow> None | r # _ \<Rightarrow> Some (r, box_ok st r)))"

definition any_valid :: "det_output \<Rightarrow> bool" where
  "any_valid d \<longleftrightarrow> lhand_lcam_valid d \<or> lhand_rcam_valid d \<or> rhand_lcam_valid d \<or> rhand_rcam_valid d"

text \<open>
  Writing a box and the outcome of its check into one of the four places of the output.
\<close>

definition put_ll :: "(detect_rect \<times> bool) option \<Rightarrow> det_output \<Rightarrow> det_output" where
  "put_ll r d = (case r of None \<Rightarrow> d
     | Some (b, ok) \<Rightarrow> d\<lparr>lhand_lcam_rect := b, lhand_lcam_valid := lhand_lcam_valid d \<or> ok\<rparr>)"

definition put_rl :: "(detect_rect \<times> bool) option \<Rightarrow> det_output \<Rightarrow> det_output" where
  "put_rl r d = (case r of None \<Rightarrow> d
     | Some (b, ok) \<Rightarrow> d\<lparr>rhand_lcam_rect := b, rhand_lcam_valid := rhand_lcam_valid d \<or> ok\<rparr>)"

definition put_lr :: "(detect_rect \<times> bool) option \<Rightarrow> det_output \<Rightarrow> det_output" where
  "put_lr r d = (case r of None \<Rightarrow> d
     | Some (b, ok) \<Rightarrow> d\<lparr>lhand_rcam_rect := b, lhand_rcam_valid := lhand_rcam_valid d \<or> ok\<rparr>)"

definition put_rr :: "(detect_rect \<times> bool) option \<Rightarrow> det_output \<Rightarrow> det_output" where
  "put_rr r d = (case r of None \<Rightarrow> d
     | Some (b, ok) \<Rightarrow> d\<lparr>rhand_rcam_rect := b, rhand_rcam_valid := rhand_rcam_valid d \<or> ok\<rparr>)"

definition tracked_ok :: "detect_rect option \<Rightarrow> (detect_rect \<times> bool) option" where
  "tracked_ok b = map_option (\<lambda>b. (b, True)) b"

section \<open>Process\<close>

definition any_tracking :: "'c predictor_service \<Rightarrow> bool" where
  "any_tracking g \<longleftrightarrow>
     kf2_get_tracking_status (bboxpredictor_lhand_lcam g) \<or>
     kf2_get_tracking_status (bboxpredictor_rhand_lcam g) \<or>
     kf2_get_tracking_status (bboxpredictor_lhand_rcam g) \<or>
     kf2_get_tracking_status (bboxpredictor_rhand_rcam g)"

definition track_frame :: "'c kf_lib \<Rightarrow> detect_rect \<Rightarrow> real \<Rightarrow> det_track \<Rightarrow> 'c predictor_service
    \<Rightarrow> det_output \<Rightarrow> (det_output \<times> det_track \<times> 'c predictor_service) option" where
  "track_frame lib u timestamp st g out =
     (let k2 = last_kpt2d_pixel g; k3 = last_kpt3d_world g; tb = track_box lib u timestamp st
      in do {
           (bll, pll) \<leftarrow> tb (k_lhand_lcam_valid k2 \<and> lhand_valid k3) (kpt2d_lcam (left_hand k3))
                           (bboxpredictor_lhand_lcam g);
           (brl, prl) \<leftarrow> tb (k_rhand_lcam_valid k2 \<and> rhand_valid k3) (kpt2d_lcam (right_hand k3))
                           (bboxpredictor_rhand_lcam g);
           (blr, plr) \<leftarrow> tb (k_lhand_rcam_valid k2 \<and> lhand_valid k3) (kpt2d_rcam (left_hand k3))
                           (bboxpredictor_lhand_rcam g);
           (brr, prr) \<leftarrow> tb (k_rhand_rcam_valid k2 \<and> rhand_valid k3) (kpt2d_rcam (right_hand k3))
                           (bboxpredictor_rhand_rcam g);
           let out4 = put_rr (tracked_ok brr) (put_lr (tracked_ok blr)
                        (put_rl (tracked_ok brl) (put_ll (tracked_ok bll) out)));
           let step = det_tracker_step st + 1;
           Some (if any_valid out4
                 then (out4\<lparr>det_flag := False\<rparr>,
                       st\<lparr>det_tracker_step := (if step > det_interval st then 0 else step)\<rparr>,
                       g\<lparr>bboxpredictor_lhand_lcam := pll, bboxpredictor_rhand_lcam := prl,
                         bboxpredictor_lhand_rcam := plr, bboxpredictor_rhand_rcam := prr\<rparr>)
                 else (out4, st,
                       g\<lparr>bboxpredictor_lhand_lcam := pll, bboxpredictor_rhand_lcam := prl,
                         bboxpredictor_lhand_rcam := plr, bboxpredictor_rhand_rcam := prr\<rparr>))
         })"

definition detect_frame :: "det_track \<Rightarrow> det_output \<Rightarrow> (det_output \<times> det_track) option" where
  "detect_frame st result =
     do {
       ll \<leftarrow> take_detected st (images_lhand_rects result) 0;
       lr \<leftarrow> (if dt_is_mono st then Some None else take_detected st (images_lhand_rects result) 1);
       rl \<leftarrow> take_detected st (images_rhand_rects result) 0;
       rr \<leftarrow> (if dt_is_mono st then Some None else take_detected st (images_rhand_rects result) 1);
       let r4 = put_rr rr (put_rl rl (put_lr lr (put_ll ll result)));
       Some (r4, st\<lparr>det_tracker_step := 1\<rparr>)
     }"

definition stop_all_tracking :: "'c predictor_service \<Rightarrow> 'c predictor_service" where
  "stop_all_tracking g =
     g\<lparr>bboxpredictor_lhand_lcam := kf2_stop_tracking (bboxpredictor_lhand_lcam g),
       bboxpredictor_rhand_lcam := kf2_stop_tracking (bboxpredictor_rhand_lcam g),
       bboxpredictor_lhand_rcam := kf2_stop_tracking (bboxpredictor_lhand_rcam g),
       bboxpredictor_rhand_rcam := kf2_stop_tracking (bboxpredictor_rhand_rcam g),
       kfpredictor_lhand := kf3_stop_tracking (kfpredictor_lhand g),
       kfpredictor_rhand := kf3_stop_tracking (kfpredictor_rhand g)\<rparr>"

text \<open>
  The flags the code clears in the branch without a valid hand are those of its local copy of
  the last keypoints, so the service is not changed by that.
\<close>

definition det_track_process :: "'c kf_lib \<Rightarrow> detect_rect \<Rightarrow> (det_output \<Rightarrow> bool \<times> det_output)
    \<Rightarrow> det_output \<Rightarrow> quat \<Rightarrow> real \<Rightarrow> det_track \<Rightarrow> 'c predictor_service
    \<Rightarrow> (det_output option \<times> det_track \<times> 'c predictor_service) option" where
  "det_track_process lib u inference buffer headpose timestamp st g =
     do {
       let out0 = (det_clear buffer)\<lparr>det_flag := True\<rparr>;
       let (out1, st1) = (if isHeadPoseValid headpose then (out0, st)
                          else (out0\<lparr>det_flag := False\<rparr>, st\<lparr>det_tracker_step := 0\<rparr>));
       (out2, st2, g2) \<leftarrow>
         (if det_tracker_step st1 \<noteq> 0 \<and> enable_track st1 \<and> any_tracking g
          then track_frame lib u timestamp st1 g out1 else Some (out1, st1, g));
       if det_flag out2 then
         (case inference out2 of
            (False, _) \<Rightarrow> Some (None, st2, g2)
          | (True, result) \<Rightarrow> do {
              (out3, st3) \<leftarrow> detect_frame st2 result;
              Some (Some out3, st3, if any_valid out3 then g2 else stop_all_tracking g2)
            })
       else Some (Some out2, st2, if any_valid out2 then g2 else stop_all_tracking g2)
     }"

section \<open>How often the network runs\<close>

lemmas put_defs = put_ll_def put_rl_def put_lr_def put_rr_def

lemma put_det_flag [simp]:
  "det_flag (put_ll r d) = det_flag d" "det_flag (put_rl r d) = det_flag d"
  "det_flag (put_lr r d) = det_flag d" "det_flag (put_rr r d) = det_flag d"
  by (auto simp: put_defs split: option.splits)

lemma track_frame_step:
  assumes "track_frame lib u t st g out = Some (out', st', g')" and "det_flag out"
  shows "\<not> det_flag out' \<and> any_valid out' \<and>
      st' = st\<lparr>det_tracker_step := (if det_tracker_step st + 1 > det_interval st then 0
                                     else det_tracker_step st + 1)\<rparr>
    \<or> det_flag out' \<and> st' = st"
  using assms unfolding track_frame_def Let_def
  by (auto simp: bind_eq_Some_conv any_valid_def split: if_splits)

text \<open>A frame in which the boxes were predicted, not detected.\<close>

definition tracked_frame :: "quat \<Rightarrow> det_output option \<Rightarrow> bool" where
  "tracked_frame headpose out \<longleftrightarrow>
     isHeadPoseValid headpose \<and> (case out of None \<Rightarrow> False | Some d \<Rightarrow> \<not> det_flag d)"

lemma detect_frame_step:
  "detect_frame st r = Some (out, st') \<Longrightarrow> st' = st\<lparr>det_tracker_step := 1\<rparr> \<and> det_flag out = det_flag r"
  by (auto simp: detect_frame_def Let_def bind_eq_Some_conv)

lemma process_tracked:
  assumes "det_track_process lib u inference buffer q t st g = Some (out, st', g')"
    and "\<forall>d s d'. inference d = (s, d') \<longrightarrow> det_flag d' = det_flag d"
    and "tracked_frame q out"
  shows "det_tracker_step st \<noteq> 0 \<and>
    st' = st\<lparr>det_tracker_step := (if det_tracker_step st + 1 > det_interval st then 0
                                  else det_tracker_step st + 1)\<rparr>"
proof -
  let ?out0 = "(det_clear buffer)\<lparr>det_flag := True\<rparr>"
  have pose: "isHeadPoseValid q" using assms(3) by (simp add: tracked_frame_def)
  show ?thesis
  proof (cases "det_tracker_step st \<noteq> 0 \<and> enable_track st \<and> any_tracking g")
    case True
    with pose assms(1) obtain out2 st2 g2 where
      tf: "track_frame lib u t st g ?out0 = Some (out2, st2, g2)"
      by (auto simp: det_track_process_def bind_eq_Some_conv)
    from track_frame_step [OF tf] have cases: "\<not> det_flag out2 \<and> any_valid out2 \<and>
      st2 = st\<lparr>det_tracker_step := (if det_tracker_step st + 1 > det_interval st then 0
                                     else det_tracker_step st + 1)\<rparr>
      \<or> det_flag out2 \<and> st2 = st" by simp
    show ?thesis
    proof (cases "det_flag out2")
      case True
      with tf pose assms(1,3) \<open>det_tracker_step st \<noteq> 0 \<and> _\<close> obtain result out3 st3 where
        "inference out2 = (True, result)" "detect_frame st2 result = Some (out3, st3)" "out = Some out3"
        by (auto simp: det_track_process_def tracked_frame_def bind_eq_Some_conv split: prod.splits bool.splits)
      with assms(2,3) True detect_frame_step show ?thesis
        by (fastforce simp: tracked_frame_def)
    next
      case False
      with tf pose assms(1) cases \<open>det_tracker_step st \<noteq> 0 \<and> _\<close> show ?thesis
        by (auto simp: det_track_process_def)
    qed
  next
    case False
    with pose assms(1,3) obtain result out3 st3 where
      "inference ?out0 = (True, result)" "detect_frame st result = Some (out3, st3)" "out = Some out3"
      by (auto simp: det_track_process_def tracked_frame_def bind_eq_Some_conv split: prod.splits bool.splits)
    with assms(2,3) detect_frame_step show ?thesis
      by (fastforce simp: tracked_frame_def)
  qed
qed

text \<open>
  Consecutive frames of the calculator, each with its head pose, time, buffer, network and
  whatever the rest of the graph did to the service before it.
\<close>

inductive det_run :: "'c kf_lib \<Rightarrow> detect_rect \<Rightarrow> det_track \<Rightarrow> (quat \<times> det_output option) list
    \<Rightarrow> det_track \<Rightarrow> bool" for lib u where
  run_nil: "det_run lib u st [] st"
| run_cons: "det_track_process lib u inference buffer q t st g = Some (out, st', g') \<Longrightarrow>
     \<forall>d s d'. inference d = (s, d') \<longrightarrow> det_flag d' = det_flag d \<Longrightarrow>
     det_run lib u st' frames st'' \<Longrightarrow> det_run lib u st ((q, out) # frames) st''"

inductive_cases det_run_consE: "det_run lib u st (f # frames) st'"

lemma det_run_tracked:
  assumes "det_run lib u st frames st'" and "\<forall>(q, out)\<in>set frames. tracked_frame q out"
    and "0 \<le> det_tracker_step st" and "det_tracker_step st \<le> det_interval st"
  shows "frames = [] \<or> det_tracker_step st \<noteq> 0 \<and>
    int (length frames) \<le> det_interval st - det_tracker_step st + 1"
  using assms
proof (induction rule: det_run.induct)
  case (run_cons inference buffer q t st g out st' g' frames st'')
  from run_cons.prems(1) have "tracked_frame q out" by simp
  from process_tracked [OF run_cons.hyps(1,2) this] have
    nz: "det_tracker_step st \<noteq> 0" and st': "st' = st\<lparr>det_tracker_step :=
      (if det_tracker_step st + 1 > det_interval st then 0 else det_tracker_step st + 1)\<rparr>" by auto
  have "frames = [] \<or> det_tracker_step st' \<noteq> 0 \<and>
      int (length frames) \<le> det_interval st' - det_tracker_step st' + 1"
    using run_cons.prems by (intro run_cons.IH) (auto simp: st')
  with nz st' run_cons.prems show ?case by (auto split: if_splits)
qed simp

text \<open>
  C15: the network runs at least once in any \<open>det_interval + 1\<close> consecutive frames with a valid
  head pose: a run of frames whose boxes were only predicted is at most \<open>det_interval\<close> long,
  whatever happens to the predictors in between.
\<close>

theorem tracking_interval:
  assumes "det_run lib u st frames st'" and "\<forall>(q, out)\<in>set frames. tracked_frame q out"
    and "0 \<le> det_tracker_step st" and "det_tracker_step st \<le> det_interval st"
  shows "int (length frames) \<le> det_interval st"
  using det_run_tracked [OF assms] assms(3,4) by auto

definition example_still_lib :: "unit kf_lib" where
  "example_still_lib = example_lib\<lparr>kf_predict := (\<lambda>k. k\<lparr>statePre := [100, 100, 0, 0, 0, 0]\<rparr>)\<rparr>"

definition example_kpts :: "vec2 list" where
  "example_kpts = replicate 9 (v2 80 80) @ [v2 100 100] @ replicate 11 (v2 120 120)"

definition example_tracking :: "unit predictor_service" where
  "example_tracking = example_service
     \<lparr>bboxpredictor_lhand_lcam := example_predictor_2d\<lparr>is_tracked2 := True\<rparr>,
      last_kpt2d_pixel := example_kpt2d,
      last_kpt3d_world := new_hands_data\<lparr>lhand_valid := True,
        left_hand := new_single_hand_data\<lparr>kpt2d_lcam := example_kpts\<rparr>\<rparr>\<rparr>"

definition example_dt :: det_track where
  "example_dt = det_track_new\<lparr>dt_video_width := 640, dt_video_height := 480, det_tracker_step := 1\<rparr>"

lemma example_box:
  "kpts_to_bbox example_rect (map (\<lambda>k. sub2 (add2 k (v2 100 100)) (v2 100 100)) example_kpts) =
   example_rect\<lparr>rx := 80, ry := 80, rw := 40, rh := 40\<rparr>"
  by (simp add: kpts_to_bbox_def example_kpts_def sub2_def add2_def FLT_MAX_def FLT_MIN_def
      numeral_eq_Suc Let_def)

lemma example_track_box:
  "\<exists>p. track_box example_still_lib example_rect 1 example_dt True example_kpts
        (example_predictor_2d\<lparr>is_tracked2 := True\<rparr>) =
     Some (Some (example_rect\<lparr>rx := 80, ry := 80, rw := 40, rh := 40\<rparr>), p)"
proof -
  let ?p = "example_predictor_2d\<lparr>is_tracked2 := True\<rparr>"
  have "fst (kf2_track_only_pred example_still_lib 1 True ?p) = v2 100 100"
    by (simp add: kf2_track_only_pred_def kf2_predict_def example_still_lib_def Let_def
        split: prod.splits)
  moreover have "example_kpts ! kKeypoint2dRootId = v2 100 100" "length example_kpts = 21"
    by (simp_all add: example_kpts_def nth_append)
  moreover have "box_ok example_dt (example_rect\<lparr>rx := 80, ry := 80, rw := 40, rh := 40\<rparr>)"
    by (simp add: box_ok_def check_if_rect_valid_def example_dt_def det_track_new_def example_rect_def)
  ultimately show ?thesis
    by (auto simp: track_box_def example_box Let_def split: prod.splits)
qed

theorem tracking_interval_witness:
  "\<exists>out st'. det_run example_still_lib example_rect example_dt [((Some 1, Some 0, Some 0, Some 0), out)] st' \<and>
     int (length [((Some 1, Some 0, Some 0, Some 0 :: fl), out)]) \<le> det_interval example_dt"
proof -
  let ?q = "(Some 1, Some 0, Some 0, Some 0) :: quat"
  have pose: "isHeadPoseValid ?q" by (simp add: head_pose_valid_iff)
  have tracking: "any_tracking example_tracking"
    by (simp add: any_tracking_def example_tracking_def kf2_get_tracking_status_def)
  from example_track_box obtain p where "track_box example_still_lib example_rect 1 example_dt True
      example_kpts (example_predictor_2d\<lparr>is_tracked2 := True\<rparr>) =
     Some (Some (example_rect\<lparr>rx := 80, ry := 80, rw := 40, rh := 40\<rparr>), p)" by blast
  then obtain d st' g' where frame: "det_track_process example_still_lib example_rect (\<lambda>d. (True, d))
      example_det ?q 1 example_dt example_tracking = Some (Some d, st', g')" and "\<not> det_flag d"
    using pose tracking
    by (auto simp: det_track_process_def track_frame_def Let_def example_tracking_def example_service_def
        track_box_def [where tracked = False] example_kpt2d_def new_hands_data_def
        new_single_hand_data_def example_dt_def det_track_new_def put_defs tracked_ok_def any_valid_def)
  then have "tracked_frame ?q (Some d)" by (simp add: tracked_frame_def pose)
  moreover have run: "det_run example_still_lib example_rect example_dt [(?q, Some d)] st'"
    by (rule run_cons [OF frame]) (auto intro: run_nil)
  ultimately show ?thesis
    using tracking_interval [OF run] by (auto simp: example_dt_def det_track_new_def)
qed

text \<open>
  In a frame whose head pose is not valid the network is not asked, no hand is reported,
  all six predictors stop, and the next frame cannot be a predicted one. The keypoints of
  the last frame stay in the service with their validity flags: the code clears the flags of
  a copy.
\<close>

lemma bad_head_pose_stops:
  assumes "\<not> isHeadPoseValid q"
  shows "det_track_process lib u inference buffer q t st g =
      Some (Some ((det_clear buffer)\<lparr>det_flag := False\<rparr>), st\<lparr>det_tracker_step := 0\<rparr>, stop_all_tracking g) \<and>
    \<not> any_valid ((det_clear buffer)\<lparr>det_flag := False\<rparr>) \<and>
    \<not> any_tracking (stop_all_tracking g) \<and>
    \<not> is_tracked3 (kfpredictor_lhand (stop_all_tracking g)) \<and>
    \<not> is_tracked3 (kfpredictor_rhand (stop_all_tracking g)) \<and>
    last_kpt2d_pixel (stop_all_tracking g) = last_kpt2d_pixel g"
  using assms
  by (simp add: det_track_process_def any_valid_def det_clear_def stop_all_tracking_def any_tracking_def
      kf2_get_tracking_status_def kf2_stop_tracking_def kf3_stop_tracking_def)

end
