(* ===== verification/Aes.thy ===== *)
theory Aes
  imports Prelude
begin

text \<open>
  \<^verbatim>\<open>aisdk/xengine/util/aes.cpp\<close>: the encryption of buffers and files that the model packages
  go through. OpenSSL's \<open>AES_encrypt\<close> and \<open>AES_decrypt\<close> under the current key are the
  arguments \<open>enc\<close> and \<open>dec\<close>, functions on blocks of 16 bytes; what is assumed of them is that
  they keep the length and that one undoes the other. None stands for an access outside
  of a buffer, or for a call that does not return where the text says so.
\<close>

type_synonym bytes = "u8 list"
type_synonym block_cipher = "bytes \<Rightarrow> bytes"

datatype sys_err_code =
    ErrNone | ErrSrcNotExist | ErrSrcOpenFail | ErrDstOpenFail | ErrWriteFail | ErrAesFileFormat

record aes =
  aesBit :: nat
  aesKeyLen :: nat
  myKey :: bytes

definition gAESKEY :: bytes where
  "gAESKEY = [0x45, 0x4d, 0x5e, 0xdf, 0x8c, 0xae, 0x53, 0x23, 0xc4, 0xed, 0xac,
              0x99, 0xaa, 0x78, 0x29, 0x45, 0x11, 0x54, 0x36, 0x65, 0x45, 0x88,
              0xac, 0xea, 0xde, 0xdd, 0xea, 0xeb, 0xbd, 0x8b, 0x9a, 0xb5]"

definition aes_new :: aes where
  "aes_new = \<lparr>aesBit = 256, aesKeyLen = 32, myKey = take 32 gAESKEY\<rparr>"

definition setKey :: "bytes \<Rightarrow> nat \<Rightarrow> aes \<Rightarrow> aes option" where
  "setKey key b a =
     (if length key < b div 8 then None
      else Some (a\<lparr>aesBit := b, aesKeyLen := b div 8, myKey := take (b div 8) key\<rparr>))"

section \<open>Blocks\<close>

definition chunk :: "nat \<Rightarrow> 'a list \<Rightarrow> 'a list" where
  "chunk i xs = take 16 (drop (16 * i) xs)"

definition map_blocks :: "('a list \<Rightarrow> 'b list) \<Rightarrow> 'a list \<Rightarrow> 'b list" where
  "map_blocks f xs = concat (map (\<lambda>i. f (chunk i xs)) [0..<length xs div 16])"

lemma map_blocks_short: "length xs < 16 \<Longrightarrow> map_blocks f xs = []"
  by (simp add: map_blocks_def)

lemma map_blocks_step:
  assumes "length b = 16"
  shows "map_blocks f (b @ xs) = f b @ map_blocks f xs"
proof -
  have "length (b @ xs) div 16 = Suc (length xs div 16)" using assms by simp
  moreover have "chunk 0 (b @ xs) = b" "chunk (Suc i) (b @ xs) = chunk i xs" for i
    using assms by (simp_all add: chunk_def)
  ultimately show ?thesis
    by (simp add: map_blocks_def upt_conv_Cons map_Suc_upt [symmetric] comp_def del: upt_Suc)
qed

lemma map_blocks_one: "length b = 16 \<Longrightarrow> map_blocks f b = f b"
  using map_blocks_step [of b f "[]"] by (simp add: map_blocks_short)

lemma map_blocks_two: "length a = 16 \<Longrightarrow> length b = 16 \<Longrightarrow> map_blocks f (a @ b) = f a @ f b"
  using map_blocks_step [of b f "[]"] by (simp add: map_blocks_step map_blocks_short)

lemma blocks_induct [consumes 1, case_names Nil Block]:
  assumes "16 dvd length xs" and "P []"
    and "\<And>b xs. length b = 16 \<Longrightarrow> 16 dvd length xs \<Longrightarrow> P xs \<Longrightarrow> P (b @ xs)"
  shows "P xs"
  using assms(1)
proof (induction "length xs" arbitrary: xs rule: less_induct)
  case less
  show ?case
  proof (cases "xs = []")
    case False
    with less.prems have ge: "16 \<le> length xs" by (simp add: dvd_imp_le)
    have "P (take 16 xs @ drop 16 xs)"
      using ge less.prems by (intro assms(3) less.hyps) (simp_all add: dvd_minus_self)
    then show ?thesis by simp
  qed (simp add: assms(2))
qed

lemma map_blocks_append:
  "16 dvd length xs \<Longrightarrow> map_blocks f (xs @ ys) = map_blocks f xs @ map_blocks f ys"
  by (induction xs rule: blocks_induct) (simp_all add: map_blocks_step map_blocks_short)

definition cipher_pair :: "block_cipher \<Rightarrow> block_cipher \<Rightarrow> bool" where
  "cipher_pair enc dec \<longleftrightarrow> (\<forall>b. length b = 16 \<longrightarrow> length (enc b) = 16 \<and> dec (enc b) = b)"

lemma map_blocks_inverse:
  assumes "16 dvd length xs" and "cipher_pair enc dec"
  shows "map_blocks dec (map_blocks enc xs) = xs \<and> length (map_blocks enc xs) = length xs"
  using assms(1)
proof (induction xs rule: blocks_induct)
  case (Block b xs)
  with assms(2) show ?case by (simp add: map_blocks_step cipher_pair_def)
qed (simp add: map_blocks_short)

section \<open>encryptBuf and decryptBuf\<close>

definition pad_size :: "nat \<Rightarrow> nat" where
  "pad_size n = 32 - n mod 16"

definition encryptBuf :: "block_cipher \<Rightarrow> bytes \<Rightarrow> bytes" where
  "encryptBuf enc inbuf =
     (let block = length inbuf div 16; block_remain = length inbuf mod 16;
          remain = 32 - block_remain
      in concat (map (\<lambda>i. enc (chunk i inbuf)) [0..<block])
         @ enc (drop (16 * block) inbuf @ replicate (16 - block_remain) (of_nat remain))
         @ enc (replicate 16 (of_nat remain)))"

text \<open>
  How many of the last bytes, read backwards and at most \<open>k\<close>, equal \<open>d\<close>; reading before the
  first byte is out of bounds.
\<close>

fun same_count :: "u8 \<Rightarrow> nat \<Rightarrow> bytes \<Rightarrow> nat option" where
  "same_count d 0 rs = Some 0"
| "same_count d (Suc k) [] = None"
| "same_count d (Suc k) (r # rs) =
     (if d = r then map_option Suc (same_count d k rs) else Some 0)"

text \<open>\<open>outbuf\<close> is the caller's buffer; bytes beyond the last whole block keep its content.\<close>

definition decryptBuf :: "block_cipher \<Rightarrow> bytes \<Rightarrow> bytes \<Rightarrow> (bytes \<times> nat) option" where
  "decryptBuf dec inbuf outbuf =
     (let read_size = length inbuf;
          out = map_blocks dec inbuf @ drop (16 * (read_size div 16)) outbuf
      in if read_size = 0 \<or> length out < read_size then None
         else
           (let data = out ! (read_size - 1)
            in case same_count data 32 (rev (take read_size out)) of
                 None \<Rightarrow> None
               | Some same \<Rightarrow>
                   Some (out, if same > 0 \<and> unat data \<le> same then read_size - same else read_size)))"

lemma pad_size_bounds: "17 \<le> pad_size n" "pad_size n \<le> 32"
proof -
  have "n mod 16 < 16" by simp
  then show "17 \<le> pad_size n" "pad_size n \<le> 32" unfolding pad_size_def by linarith+
qed

lemma pad_size_sum: "n + pad_size n = 16 * (n div 16) + 32"
proof -
  have "n = 16 * (n div 16) + n mod 16" and "n mod 16 < 16" by simp_all
  then show ?thesis unfolding pad_size_def by linarith
qed

lemma pad_size_dvd: "16 dvd n + pad_size n"
  unfolding pad_size_sum by simp

definition padded :: "bytes \<Rightarrow> bytes" where
  "padded p = p @ replicate (pad_size (length p)) (of_nat (pad_size (length p)))"

lemma padded_dvd: "16 dvd length (padded p)"
  by (simp add: padded_def pad_size_dvd)

lemma encryptBuf_padded: "encryptBuf enc p = map_blocks enc (padded p)"
proof -
  let ?b = "length p div 16" and ?r = "length p mod 16"
  let ?d = "of_nat (32 - ?r) :: u8"
  let ?head = "take (16 * ?b) p" and ?last = "drop (16 * ?b) p @ replicate (16 - ?r) ?d"
  have r: "?r < 16" by simp
  have len: "length ?head = 16 * ?b" by simp
  have "length (drop (16 * ?b) p) = ?r" by (simp add: modulo_nat_def mult.commute)
  with r have last: "length ?last = 16" by simp
  have "32 - ?r = (16 - ?r) + 16" using r by simp
  then have "padded p = (?head @ ?last) @ replicate 16 ?d"
    unfolding padded_def pad_size_def
    by (metis append.assoc append_take_drop_id replicate_add)
  then have split: "padded p = ?head @ ?last @ replicate 16 ?d" by simp
  have chunks: "chunk i ?head = chunk i p" if "i < ?b" for i
  proof -
    from that have "16 * i + 16 \<le> 16 * ?b" by simp
    then show ?thesis unfolding chunk_def by (simp add: take_drop min_def)
  qed
  have "map_blocks enc (padded p) = map_blocks enc ?head @ enc ?last @ enc (replicate 16 ?d)"
  proof -
    have "map_blocks enc (?last @ replicate 16 ?d) = enc ?last @ enc (replicate 16 ?d)"
      using last by (rule map_blocks_two) simp
    moreover have "16 dvd length ?head" using len by simp
    ultimately show ?thesis unfolding split by (simp only: map_blocks_append)
  qed
  also have "map_blocks enc ?head = concat (map (\<lambda>i. enc (chunk i p)) [0..<?b])"
    unfolding map_blocks_def by (intro arg_cong [where f = concat] map_cong) (simp_all add: chunks)
  finally show ?thesis by (simp add: encryptBuf_def Let_def)
qed

lemma same_count_replicate:
  "m \<le> k \<Longrightarrow> same_count d k (replicate m d @ rs) = map_option ((+) m) (same_count d (k - m) rs)"
proof (induction m arbitrary: k)
  case 0
  show ?case by (cases "same_count d k rs") auto
next
  case (Suc m)
  then obtain k' where "k = Suc k'" by (cases k) auto
  with Suc show ?case by (cases "same_count d (k' - m) rs") auto
qed

lemma same_count_enough:
  "k \<le> length rs \<Longrightarrow> same_count d k rs = Some (length (takeWhile ((=) d) (take k rs)))"
  by (induction d k rs rule: same_count.induct) auto

text \<open>The trailing bytes of the plaintext that look like padding.\<close>

definition look_alike :: "bytes \<Rightarrow> nat" where
  "look_alike p = length (takeWhile ((=) (of_nat (pad_size (length p))))
                     (take (32 - pad_size (length p)) (rev p)))"

lemma unat_pad [simp]: "unat (of_nat (pad_size n) :: u8) = pad_size n"
  using pad_size_bounds(2) [of n] by (simp add: unat_of_nat take_bit_nat_eq_self_iff)

lemma look_alike_le: "look_alike p \<le> length p"
  unfolding look_alike_def by (metis length_rev length_take length_takeWhile_le min.bounded_iff order_trans)

lemma same_count_padded:
  "same_count (of_nat (pad_size (length p))) 32 (rev (padded p)) =
     Some (pad_size (length p) + look_alike p)"
proof -
  let ?m = "pad_size (length p)"
  have "32 - ?m \<le> length (rev p)" by (simp add: pad_size_def)
  then have "same_count (of_nat ?m) (32 - ?m) (rev p) = Some (look_alike p)"
    by (simp only: same_count_enough look_alike_def)
  then show ?thesis
    using same_count_replicate [OF pad_size_bounds(2), of "of_nat ?m" "length p" "rev p"]
    by (simp add: padded_def)
qed

lemma padded_last: "padded p ! (length (padded p) - 1) = of_nat (pad_size (length p))"
proof -
  let ?m = "pad_size (length p)"
  have len: "length (padded p) = length p + ?m" by (simp add: padded_def)
  have "\<not> length p + ?m - 1 < length p" "length p + ?m - 1 - length p < ?m"
    using pad_size_bounds(1) [of "length p"] by linarith+
  then show ?thesis unfolding len by (simp add: padded_def nth_append)
qed

lemma decryptBuf_encryptBuf:
  assumes "cipher_pair enc dec"
  shows "decryptBuf dec (encryptBuf enc p) buf =
    Some (padded p @ drop (length (padded p)) buf, length p - look_alike p)"
proof -
  let ?m = "pad_size (length p)" and ?c = "map_blocks enc (padded p)"
  have inv: "map_blocks dec ?c = padded p" "length ?c = length (padded p)"
    using map_blocks_inverse [OF padded_dvd assms] by auto
  have len: "length (padded p) = length p + ?m" and pos: "0 < length (padded p)"
    using pad_size_bounds(1) [of "length p"] by (auto simp: padded_def)
  have "padded p ! (length (padded p) - 1) = of_nat ?m" by (rule padded_last)
  moreover have "16 * (length (padded p) div 16) = length (padded p)"
    using padded_dvd [of p] by simp
  ultimately show ?thesis
    using pos len look_alike_le [of p] pad_size_bounds(1) [of "length p"]
    by (simp add: decryptBuf_def encryptBuf_padded inv Let_def nth_append same_count_padded)
qed

lemma look_alike_zero:
  "look_alike p = 0 \<longleftrightarrow> 16 dvd length p \<or> last p \<noteq> of_nat (pad_size (length p))"
proof (cases "16 dvd length p")
  case True
  then have "pad_size (length p) = 32" by (simp add: pad_size_def mod_eq_0_iff_dvd)
  with True show ?thesis by (simp add: look_alike_def)
next
  case False
  then obtain b q where p: "rev p = b # q" by (cases "rev p") auto
  from False have "0 < length p mod 16" by (simp add: mod_greater_zero_iff_not_dvd)
  then have "0 < 32 - pad_size (length p)"
    using mod_less_divisor [of 16 "length p"] unfolding pad_size_def by linarith
  then obtain k where k: "32 - pad_size (length p) = Suc k" using gr0_implies_Suc by blast
  from p have "last p = b" by (metis hd_rev list.sel(1))
  with False k p show ?thesis by (auto simp: look_alike_def)
qed



section \<open>encryptFile and decryptFile\<close>

text \<open>
  The file system is an argument: whether \<open>lstat\<close> finds the source, its size, whether the two
  files open, what each \<open>read\<close> delivers (at most 100 MB each), which \<open>write\<close> succeeds and what
  the destination held before. A \<open>read\<close> that delivers nothing while bytes remain makes the
  loop go on for ever: None.
\<close>

record file_env =
  src_found :: bool
  src_size :: nat
  src_opens :: bool
  dst_opens :: bool
  reads :: "bytes list"
  write_ok :: "nat \<Rightarrow> bool"
  dst_before :: bytes

definition encrypt_chunk :: "block_cipher \<Rightarrow> bytes \<Rightarrow> bytes" where
  "encrypt_chunk enc c = (if length c mod 16 = 0 then map_blocks enc c else encryptBuf enc c)"

fun encrypt_loop :: "block_cipher \<Rightarrow> (nat \<Rightarrow> bool) \<Rightarrow> nat \<Rightarrow> int \<Rightarrow> bytes list \<Rightarrow> bytes
    \<Rightarrow> (bool \<times> nat \<times> bytes) option" where
  "encrypt_loop enc ok k left [] out = (if left > 0 then None else Some (True, k, out))"
| "encrypt_loop enc ok k left (c # cs) out =
     (if left \<le> 0 then Some (True, k, out)
      else if ok k then encrypt_loop enc ok (Suc k) (left - int (length c)) cs (out @ encrypt_chunk enc c)
      else Some (False, k, out))"

text \<open>The destination is opened without truncation: bytes beyond the written ones stay.\<close>

definition overwrite :: "bytes \<Rightarrow> bytes \<Rightarrow> bytes" where
  "overwrite old written = written @ drop (length written) old"

definition encryptFile :: "block_cipher \<Rightarrow> file_env \<Rightarrow> (sys_err_code \<times> bytes) option" where
  "encryptFile enc e =
     (if \<not> src_found e then Some (ErrSrcNotExist, dst_before e)
      else if \<not> src_opens e then Some (ErrSrcOpenFail, dst_before e)
      else if \<not> dst_opens e then Some (ErrDstOpenFail, dst_before e)
      else
        (case encrypt_loop enc (write_ok e) 0 (int (src_size e)) (reads e) [] of
           None \<Rightarrow> None
         | Some (False, _, out) \<Rightarrow> Some (ErrWriteFail, overwrite (dst_before e) out)
         | Some (True, k, out) \<Rightarrow>
             (let add_tail = (src_size e mod 16 = 0 \<or> src_size e = 0); tail = enc (replicate 16 32)
              in if \<not> add_tail then Some (ErrNone, overwrite (dst_before e) out)
                 else if \<not> write_ok e k then Some (ErrWriteFail, overwrite (dst_before e) out)
                 else if \<not> write_ok e (Suc k)
                   then Some (ErrWriteFail, overwrite (dst_before e) (out @ tail))
                 else Some (ErrNone, overwrite (dst_before e) (out @ tail @ tail)))))"

text \<open>
  One chunk of \<open>decryptFile\<close>; a chunk that is not a whole number of blocks would write bytes
  left in the buffer: None. In the chunk that the code takes for the last one, the padding is
  cut off by its value.
\<close>

definition decrypt_chunk :: "block_cipher \<Rightarrow> bytes \<Rightarrow> bool \<Rightarrow> bytes option" where
  "decrypt_chunk dec c is_last =
     (if length c mod 16 \<noteq> 0 then None
      else
        (let out = map_blocks dec c; read_size = length c
         in if \<not> is_last then Some out
            else if read_size = 0 then None
            else
              (let data = out ! (read_size - 1)
               in case same_count data 32 (rev out) of
                    None \<Rightarrow> None
                  | Some same \<Rightarrow>
                      Some (if same > 0 \<and> unat data \<le> same then take (read_size - unat data) out else out))))"

fun decrypt_loop :: "block_cipher \<Rightarrow> (nat \<Rightarrow> bool) \<Rightarrow> nat \<Rightarrow> int \<Rightarrow> bytes list \<Rightarrow> bytes
    \<Rightarrow> (bool \<times> bytes) option" where
  "decrypt_loop dec ok k left [] out = (if left > 0 then None else Some (True, out))"
| "decrypt_loop dec ok k left (c # cs) out =
     (if left \<le> 0 then Some (True, out)
      else
        (case decrypt_chunk dec c (int (length c) = left) of
           None \<Rightarrow> None
         | Some w \<Rightarrow>
             if ok k then decrypt_loop dec ok (Suc k) (left - int (length c)) cs (out @ w)
             else Some (False, out)))"

definition decryptFile :: "block_cipher \<Rightarrow> file_env \<Rightarrow> (sys_err_code \<times> bytes) option" where
  "decryptFile dec e =
     (if \<not> src_found e then Some (ErrSrcNotExist, dst_before e)
      else if src_size e mod 16 \<noteq> 0 \<or> src_size e = 0 then Some (ErrAesFileFormat, dst_before e)
      else if \<not> src_opens e then Some (ErrSrcOpenFail, dst_before e)
      else if \<not> dst_opens e then Some (ErrDstOpenFail, [])
      else
        (case decrypt_loop dec (write_ok e) 0 (int (src_size e)) (reads e) [] of
           None \<Rightarrow> None
         | Some (False, out) \<Rightarrow> Some (ErrWriteFail, out)
         | Some (True, out) \<Rightarrow> Some (ErrNone, out)))"

lemma encrypt_loop_all:
  assumes "\<forall>c\<in>set cs. c \<noteq> []" and "\<forall>k. ok k"
  shows "encrypt_loop enc ok k (int (length (concat cs))) cs out =
    Some (True, k + length cs, out @ concat (map (encrypt_chunk enc) cs))"
  using assms
proof (induction cs arbitrary: k out)
  case (Cons c cs)
  then have "0 < length c" by simp
  moreover have "int (length (concat (c # cs))) = int (length c) + int (length (concat cs))" by simp
  ultimately have "\<not> int (length (concat (c # cs))) \<le> 0" by linarith
  moreover have "int (length (concat (c # cs))) - int (length c) = int (length (concat cs))" by simp
  ultimately show ?case using Cons by simp
qed simp

lemma decrypt_loop_all:
  assumes "\<forall>c\<in>set cs. 16 dvd length c \<and> c \<noteq> []" and "\<forall>k. ok k" and "16 dvd length d" and "d \<noteq> []"
  shows "decrypt_loop dec ok k (int (length (concat (cs @ [d])))) (cs @ [d]) out =
    (case decrypt_chunk dec d True of None \<Rightarrow> None
     | Some w \<Rightarrow> Some (True, out @ map_blocks dec (concat cs) @ w))"
  using assms(1)
proof (induction cs arbitrary: k out)
  case Nil
  with assms(2,4) show ?case by (simp add: map_blocks_short split: option.split)
next
  case (Cons c cs)
  have pos: "0 < length c" and dvd: "16 dvd length c" and dpos: "0 < length d"
    using Cons.prems assms(4) by auto
  let ?left = "int (length (concat ((c # cs) @ [d])))"
  have "?left = int (length c) + int (length (concat cs)) + int (length d)" by simp
  with pos dpos have "\<not> ?left \<le> 0" and "int (length c) \<noteq> ?left" by linarith+
  then have "\<not> ?left \<le> 0" and last: "(int (length c) = ?left) = False" by simp_all
  moreover have "?left - int (length c) = int (length (concat (cs @ [d])))" by simp
  moreover have "decrypt_chunk dec c False = Some (map_blocks dec c)"
    using dvd by (simp add: decrypt_chunk_def Let_def dvd_eq_mod_eq_0)
  ultimately have "decrypt_loop dec ok k ?left ((c # cs) @ [d]) out =
      decrypt_loop dec ok (Suc k) (int (length (concat (cs @ [d])))) (cs @ [d]) (out @ map_blocks dec c)"
    using assms(2) last by (simp only: append_Cons decrypt_loop.simps(2) if_False option.case if_True)
  then show ?case
    using Cons.IH [of "Suc k" "out @ map_blocks dec c"] Cons.prems
    by (simp add: map_blocks_append dvd split: option.split)
qed

lemma padded_concat:
  assumes "16 dvd length a"
  shows "padded (a @ b) = a @ padded b"
proof -
  from assms have "length (a @ b) mod 16 = length b mod 16" by (simp add: mod_add_left_eq [symmetric] dvd_eq_mod_eq_0)
  then have "pad_size (length (a @ b)) = pad_size (length b)" by (simp add: pad_size_def)
  then show ?thesis by (simp add: padded_def)
qed

lemma encrypt_chunks_whole:
  "\<forall>c\<in>set cs. 16 dvd length c \<Longrightarrow>
     concat (map (encrypt_chunk enc) cs) = map_blocks enc (concat cs) \<and> 16 dvd length (concat cs)"
  by (induction cs) (simp_all add: encrypt_chunk_def map_blocks_append map_blocks_short dvd_eq_mod_eq_0 [symmetric])

text \<open>An environment in which everything succeeds.\<close>

definition good_env :: "file_env \<Rightarrow> bool" where
  "good_env e \<longleftrightarrow> src_found e \<and> src_opens e \<and> dst_opens e \<and> (\<forall>k. write_ok e k) \<and>
     src_size e = length (concat (reads e)) \<and> (\<forall>c\<in>set (reads e). c \<noteq> []) \<and>
     (\<forall>c\<in>set (butlast (reads e)). 16 dvd length c)"

lemma encryptFile_good:
  assumes "good_env e"
  shows "encryptFile enc e =
    Some (ErrNone, overwrite (dst_before e) (map_blocks enc (padded (concat (reads e)))))"
proof -
  let ?p = "concat (reads e)"
  have loop: "encrypt_loop enc (write_ok e) 0 (int (src_size e)) (reads e) [] =
      Some (True, length (reads e), concat (map (encrypt_chunk enc) (reads e)))"
    using encrypt_loop_all [of "reads e" "write_ok e" enc 0 "[]"] assms by (simp add: good_env_def)
  show ?thesis
  proof (cases "16 dvd length ?p")
    case True
    have whole: "\<forall>c\<in>set (reads e). 16 dvd length c"
    proof (cases "reads e" rule: rev_cases)
      case (snoc cs d)
      with assms have cs: "\<forall>c\<in>set cs. 16 dvd length c" by (simp add: good_env_def)
      then have "16 dvd length (concat cs)" using encrypt_chunks_whole by blast
      with True snoc cs show ?thesis by (auto simp: dvd_add_right_iff)
    qed simp
    have "padded ?p = ?p @ replicate 16 32 @ replicate 16 32"
      using True by (simp add: padded_def pad_size_def dvd_eq_mod_eq_0 flip: replicate_add)
    with True have "map_blocks enc (padded ?p) =
        map_blocks enc ?p @ enc (replicate 16 32) @ enc (replicate 16 32)"
      by (simp add: map_blocks_append map_blocks_one)
    with True assms loop encrypt_chunks_whole [OF whole, of enc] show ?thesis
      by (simp add: encryptFile_def good_env_def Let_def dvd_eq_mod_eq_0)
  next
    case False
    then obtain cs d where snoc: "reads e = cs @ [d]" by (cases "reads e" rule: rev_cases) auto
    with assms have cs: "\<forall>c\<in>set cs. 16 dvd length c" by (simp add: good_env_def)
    note whole = encrypt_chunks_whole [OF cs, of enc]
    with False snoc have "\<not> 16 dvd length d" by (auto simp: dvd_add_right_iff)
    then have "encrypt_chunk enc d = map_blocks enc (padded d)"
      by (simp add: encrypt_chunk_def encryptBuf_padded dvd_eq_mod_eq_0)
    with whole snoc have "concat (map (encrypt_chunk enc) (reads e)) = map_blocks enc (padded ?p)"
      by (simp add: padded_concat map_blocks_append)
    with False assms loop show ?thesis
      by (auto simp: encryptFile_def good_env_def Let_def dvd_eq_mod_eq_0)
  qed
qed

lemma padded_pos: "0 < length (padded p)"
  using pad_size_bounds(1) [of "length p"] by (auto simp: padded_def)

lemma decrypt_padded_chunk:
  assumes "cipher_pair enc dec"
  shows "decrypt_chunk dec (map_blocks enc (padded p)) True = Some p"
proof -
  let ?m = "pad_size (length p)"
  have inv: "map_blocks dec (map_blocks enc (padded p)) = padded p"
    "length (map_blocks enc (padded p)) = length (padded p)"
    using map_blocks_inverse [OF padded_dvd assms] by auto
  have "take (length (padded p) - ?m) (padded p) = p" by (simp add: padded_def)
  then show ?thesis
    using same_count_padded [of p] padded_last [of p] padded_pos [of p] padded_dvd [of p]
      pad_size_bounds(1) [of "length p"]
    by (simp add: decrypt_chunk_def inv Let_def dvd_eq_mod_eq_0)
qed

lemma decrypt_short_chunk:
  assumes "cipher_pair enc dec"
  shows "decrypt_chunk dec (map_blocks enc (replicate 16 32)) True = None"
proof -
  have inv: "map_blocks dec (map_blocks enc (replicate 16 32)) = (replicate 16 32 :: bytes)"
    "length (map_blocks enc (replicate 16 32)) = 16"
    using map_blocks_inverse [of "replicate 16 (32 :: u8)" enc dec] assms by auto
  have "same_count 32 32 (replicate 16 32) = None"
    using same_count_replicate [of 16 32 32 "[]"] by (simp add: numeral_eq_Suc)
  then show ?thesis by (simp add: decrypt_chunk_def inv Let_def)
qed

lemma good_env_snoc:
  assumes "good_env e" and "concat (reads e) = map_blocks enc (padded p)" and "cipher_pair enc dec"
  obtains cs d where "reads e = cs @ [d]" and "\<forall>c\<in>set cs. 16 dvd length c \<and> c \<noteq> []"
    and "16 dvd length d" and "d \<noteq> []"
    and "concat cs = map_blocks enc (take (length (concat cs)) (padded p))"
    and "d = map_blocks enc (drop (length (concat cs)) (padded p))"
proof -
  have len: "length (map_blocks enc (padded p)) = length (padded p)"
    using map_blocks_inverse [OF padded_dvd assms(3)] by blast
  with assms(2) padded_pos [of p] have "reads e \<noteq> []" by auto
  then obtain cs d where snoc: "reads e = cs @ [d]" by (cases "reads e" rule: rev_cases) auto
  with assms(1) have cs: "\<forall>c\<in>set cs. 16 dvd length c \<and> c \<noteq> []" and d: "d \<noteq> []"
    by (auto simp: good_env_def)
  let ?k = "length (concat cs)"
  have k: "16 dvd ?k" using encrypt_chunks_whole [of cs] cs by blast
  have "concat cs @ d = map_blocks enc (padded p)" using assms(2) snoc by simp
  with len have total: "?k + length d = length (padded p)" by (metis length_append)
  then have dlen: "16 dvd length d" using k padded_dvd [of p] by (metis dvd_add_right_iff)
  have tk: "length (take ?k (padded p)) = ?k" using total by simp
  have "map_blocks enc (take ?k (padded p) @ drop ?k (padded p)) =
      map_blocks enc (take ?k (padded p)) @ map_blocks enc (drop ?k (padded p))"
    by (rule map_blocks_append) (simp only: tk k)
  then have "concat cs @ d = map_blocks enc (take ?k (padded p)) @ map_blocks enc (drop ?k (padded p))"
    using assms(2) snoc by simp
  moreover have "length (map_blocks enc (take ?k (padded p))) = ?k"
    using map_blocks_inverse [of "take ?k (padded p)" enc dec] assms(3) k tk by simp
  ultimately show ?thesis using that [OF snoc cs dlen d] by (metis append_eq_append_conv)
qed


definition example_env :: "bytes list \<Rightarrow> bytes \<Rightarrow> file_env" where
  "example_env cs old = \<lparr>src_found = True, src_size = length (concat cs), src_opens = True,
     dst_opens = True, reads = cs, write_ok = (\<lambda>_. True), dst_before = old\<rparr>"


text \<open>
  \<open>encryptFile\<close> does not truncate its destination: what it leaves is the encryption of the
  file followed by whatever a longer destination held beyond that length, so encrypting over
  a longer file leaves a file that is not the encryption.
\<close>

lemma encrypt_keeps_stale_tail:
  assumes "good_env e" and "cipher_pair enc dec"
  shows "encryptFile enc e = Some (ErrNone, map_blocks enc (padded (concat (reads e)))
      @ drop (length (padded (concat (reads e)))) (dst_before e))"
  using encryptFile_good [OF assms(1), of enc] map_blocks_inverse [OF padded_dvd assms(2)]
  by (simp add: overwrite_def)

end
