(* ===== verification/Coords.thy ===== *)
theory Coords
  imports Geometry
begin

text \<open>
  Coordinate systems: \<open>CoordTransformService\<close> of \<^verbatim>\<open>aisdk/base/coord_transform_service.h\<close>,
  the global instance of \<^verbatim>\<open>NR_GlobalCoordService.h\<close> and the chains of transformations of
  \<^verbatim>\<open>NR_Transfer.cpp\<close>. An Eigen isometry is its rotation (three rows) and its translation;
  a coordinate system is its number in the enumeration.
\<close>

section \<open>Isometries\<close>

type_synonym mat3 = "vec3 \<times> vec3 \<times> vec3"
type_synonym iso = "mat3 \<times> vec3"

fun mat3_apply :: "mat3 \<Rightarrow> vec3 \<Rightarrow> vec3" where
  "mat3_apply (r1, r2, r3) p = v3 (dot3 r1 p) (dot3 r2 p) (dot3 r3 p)"

fun mat3_transpose :: "mat3 \<Rightarrow> mat3" where
  "mat3_transpose (a, b, c) = (v3 (vx a) (vx b) (vx c), v3 (vy a) (vy b) (vy c), v3 (vz a) (vz b) (vz c))"

definition mat3_mult :: "mat3 \<Rightarrow> mat3 \<Rightarrow> mat3" where
  "mat3_mult a b =
     (case mat3_transpose b of (c1, c2, c3) \<Rightarrow>
        case a of (r1, r2, r3) \<Rightarrow>
          (v3 (dot3 r1 c1) (dot3 r1 c2) (dot3 r1 c3),
           v3 (dot3 r2 c1) (dot3 r2 c2) (dot3 r2 c3),
           v3 (dot3 r3 c1) (dot3 r3 c2) (dot3 r3 c3)))"

definition mat3_identity :: mat3 where
  "mat3_identity = (v3 1 0 0, v3 0 1 0, v3 0 0 1)"

fun mat3_det :: "mat3 \<Rightarrow> real" where
  "mat3_det (a, b, c) = dot3 a (cross3 b c)"

definition iso_identity :: iso where
  "iso_identity = (mat3_identity, v3 0 0 0)"

definition iso_apply :: "iso \<Rightarrow> vec3 \<Rightarrow> vec3" where
  "iso_apply t p = add3 (mat3_apply (fst t) p) (snd t)"

definition iso_compose :: "iso \<Rightarrow> iso \<Rightarrow> iso" where
  "iso_compose a b = (mat3_mult (fst a) (fst b), add3 (mat3_apply (fst a) (snd b)) (snd a))"

text \<open>Eigen inverts an isometry by transposing its rotation.\<close>

definition iso_inverse :: "iso \<Rightarrow> iso" where
  "iso_inverse t =
     (mat3_transpose (fst t), scale3 (-1) (mat3_apply (mat3_transpose (fst t)) (snd t)))"

lemma iso_apply_compose: "iso_apply (iso_compose a b) p = iso_apply a (iso_apply b p)"
  by (cases a; cases b; cases "fst a"; cases "fst b")
    (simp add: iso_apply_def iso_compose_def mat3_mult_def model_defs algebra_simps)

definition orthogonal :: "mat3 \<Rightarrow> bool" where
  "orthogonal r \<longleftrightarrow> mat3_mult (mat3_transpose r) r = mat3_identity \<and>
     mat3_mult r (mat3_transpose r) = mat3_identity"

lemma mat3_apply_mult: "mat3_apply (mat3_mult a b) p = mat3_apply a (mat3_apply b p)"
  by (cases a; cases b) (simp add: mat3_mult_def model_defs algebra_simps)

lemma mat3_apply_identity [simp]: "mat3_apply mat3_identity p = p"
  by (simp add: mat3_identity_def model_defs)

lemma orthogonal_identity [simp]: "orthogonal mat3_identity"
  by (simp add: orthogonal_def mat3_identity_def mat3_mult_def model_defs)

lemma mat3_apply_linear:
  "mat3_apply m (add3 p q) = add3 (mat3_apply m p) (mat3_apply m q)"
  "mat3_apply m (scale3 k p) = scale3 k (mat3_apply m p)"
  by (cases m; simp add: model_defs algebra_simps)+

lemma iso_inverse_apply:
  assumes "orthogonal (fst t)"
  shows "iso_apply (iso_inverse t) (iso_apply t p) = p" and "iso_apply t (iso_apply (iso_inverse t) p) = p"
proof -
  have inv: "mat3_apply (mat3_transpose (fst t)) (mat3_apply (fst t) q) = q"
    "mat3_apply (fst t) (mat3_apply (mat3_transpose (fst t)) q) = q" for q
    using assms by (simp_all add: orthogonal_def flip: mat3_apply_mult)
  show "iso_apply (iso_inverse t) (iso_apply t p) = p" "iso_apply t (iso_apply (iso_inverse t) p) = p"
    by (simp_all add: iso_apply_def iso_inverse_def mat3_apply_linear inv) (simp_all add: model_defs)
qed

section \<open>CoordTransformService\<close>

record coord_service =
  m_transforms :: "nat \<Rightarrow> nat \<Rightarrow> iso"
  m_transformSet :: "nat \<Rightarrow> nat \<Rightarrow> bool"

definition coord_service_new :: coord_service where
  "coord_service_new = \<lparr>m_transforms = (\<lambda>_ _. iso_identity), m_transformSet = (\<lambda>_ _. False)\<rparr>"

definition setTransformInternal :: "nat \<Rightarrow> nat \<Rightarrow> iso \<Rightarrow> coord_service \<Rightarrow> coord_service" where
  "setTransformInternal a b t s = s
     \<lparr>m_transforms := (m_transforms s)(a := (m_transforms s a)(b := t)),
      m_transformSet := (m_transformSet s)(a := (m_transformSet s a)(b := True))\<rparr>"

text \<open>\<open>approx\<close> is Eigen's \<open>isApprox\<close>.\<close>

definition isValidRotationMatrix :: "(mat3 \<Rightarrow> mat3 \<Rightarrow> bool) \<Rightarrow> mat3 \<Rightarrow> bool" where
  "isValidRotationMatrix approx r \<longleftrightarrow>
     approx (mat3_mult (mat3_transpose r) r) mat3_identity \<and> \<bar>mat3_det r - 1\<bar> < 0.000001"

datatype coord_error = InvalidRotation | InvalidQuaternion | NoTransform nat nat

definition setTransform :: "(mat3 \<Rightarrow> mat3 \<Rightarrow> bool) \<Rightarrow> nat \<Rightarrow> nat \<Rightarrow> mat3 \<Rightarrow> vec3 \<Rightarrow> coord_service
    \<Rightarrow> coord_error + coord_service" where
  "setTransform approx a b rotation translation s =
     (if \<not> isValidRotationMatrix approx rotation then Inl InvalidRotation
      else
        (let t = (rotation, translation)
         in Inr (setTransformInternal b a (iso_inverse t) (setTransformInternal a b t s))))"

text \<open>The overload for a quaternion; \<open>rot\<close> is Eigen's rotation matrix of it.\<close>

datatype quat = Quat (quat_w: real) (quat_x: real) (quat_y: real) (quat_z: real)

definition isValidQuaternion :: "quat \<Rightarrow> bool" where
  "isValidQuaternion q \<longleftrightarrow> \<bar>sqrt (quat_w q ^ 2 + quat_x q ^ 2 + quat_y q ^ 2 + quat_z q ^ 2) - 1\<bar> < 0.000001"

definition setTransformQuaternion :: "(quat \<Rightarrow> mat3) \<Rightarrow> nat \<Rightarrow> nat \<Rightarrow> quat \<Rightarrow> vec3 \<Rightarrow> coord_service
    \<Rightarrow> coord_error + coord_service" where
  "setTransformQuaternion rot a b q translation s =
     (if \<not> isValidQuaternion q then Inl InvalidQuaternion
      else
        (let t = (rot q, translation)
         in Inr (setTransformInternal b a (iso_inverse t) (setTransformInternal a b t s))))"

definition transform_point :: "nat \<Rightarrow> nat \<Rightarrow> vec3 \<Rightarrow> coord_service \<Rightarrow> vec3" where
  "transform_point a b p s = iso_apply (m_transforms s a b) p"

text \<open>
  The depth-first search of \<open>calculateTransform\<close>; \<open>visited\<close> is shared by all calls. The first
  number bounds the depth: every nested call visits one more of the \<open>n\<close> systems.
\<close>

definition link :: "nat \<Rightarrow> nat \<Rightarrow> nat \<Rightarrow> coord_service \<Rightarrow> coord_service" where
  "link a i b s = setTransformInternal a b (iso_compose (m_transforms s i b) (m_transforms s a i)) s"

definition search_step :: "(nat \<Rightarrow> nat list \<times> coord_service \<Rightarrow> nat list \<times> coord_service) \<Rightarrow> nat \<Rightarrow> nat
    \<Rightarrow> nat \<Rightarrow> nat list \<times> coord_service \<Rightarrow> nat list \<times> coord_service" where
  "search_step rec a b i acc =
     (case acc of (vis, s) \<Rightarrow>
        if m_transformSet s a i \<and> m_transformSet s i b then (vis, link a i b s)
        else if m_transformSet s a i then
          (case rec i (vis, s) of
             (vis', s') \<Rightarrow> (vis', if m_transformSet s' i b then link a i b s' else s'))
        else (vis, s))"

primrec calculateTransform :: "nat \<Rightarrow> nat \<Rightarrow> nat \<Rightarrow> nat \<Rightarrow> nat list \<times> coord_service
    \<Rightarrow> nat list \<times> coord_service" where
  "calculateTransform 0 n b a vs = vs"
| "calculateTransform (Suc f) n b a vs =
     (if a \<in> set (fst vs) then vs
      else fold (search_step (calculateTransform f n b) a b) [0..<n] (a # fst vs, snd vs))"

fun finalize_pairs :: "nat \<Rightarrow> (nat \<times> nat) list \<Rightarrow> coord_service \<Rightarrow> coord_error + coord_service" where
  "finalize_pairs n [] s = Inr s"
| "finalize_pairs n ((i, j) # ps) s =
     (if i \<noteq> j \<and> \<not> m_transformSet s i j then
        (let s' = snd (calculateTransform (Suc n) n j i ([], s))
         in if \<not> m_transformSet s' i j then Inl (NoTransform i j) else finalize_pairs n ps s')
      else finalize_pairs n ps s)"

definition finalize :: "nat \<Rightarrow> coord_service \<Rightarrow> coord_error + coord_service" where
  "finalize n s = finalize_pairs n (concat (map (\<lambda>i. map (Pair i) [0..<n]) [0..<n])) s"

section \<open>Every transformation found is right\<close>

text \<open>
  \<open>c i x\<close> are the coordinates of the point \<open>x\<close> in the system i. The service is consistent with
  such an assignment when every transformation it has set maps coordinates to coordinates.
\<close>

definition consistent :: "(nat \<Rightarrow> 'w \<Rightarrow> vec3) \<Rightarrow> coord_service \<Rightarrow> bool" where
  "consistent c s \<longleftrightarrow>
     (\<forall>i j. m_transformSet s i j \<longrightarrow> (\<forall>x. iso_apply (m_transforms s i j) (c i x) = c j x))"

definition extends :: "coord_service \<Rightarrow> coord_service \<Rightarrow> bool" where
  "extends s s' \<longleftrightarrow> (\<forall>i j. m_transformSet s i j \<longrightarrow> m_transformSet s' i j)"

lemma consistentD:
  "consistent c s \<Longrightarrow> m_transformSet s i j \<Longrightarrow> iso_apply (m_transforms s i j) (c i x) = c j x"
  by (simp add: consistent_def)

lemma link_consistent:
  "consistent c s \<Longrightarrow> m_transformSet s a i \<Longrightarrow> m_transformSet s i b \<Longrightarrow> consistent c (link a i b s)"
  by (auto simp: consistent_def link_def setTransformInternal_def iso_apply_compose)

lemma link_set: "m_transformSet (link a i b s) p q \<longleftrightarrow> m_transformSet s p q \<or> (p = a \<and> q = b)"
  by (auto simp: link_def setTransformInternal_def)

lemma extends_refl [simp]: "extends s s"
  by (simp add: extends_def)

lemma extends_trans: "extends s t \<Longrightarrow> extends t u \<Longrightarrow> extends s u"
  by (auto simp: extends_def)

lemma link_extends: "extends s (link a i b s)"
  by (simp add: extends_def link_set)

text \<open>What one turn of the loop keeps, the whole search keeps.\<close>

lemma fold_keeps:
  "(\<And>i acc. i \<in> set xs \<Longrightarrow> P acc \<Longrightarrow> P (g i acc)) \<Longrightarrow> P acc \<Longrightarrow> P (fold g xs acc)"
  by (induction xs arbitrary: acc) auto

definition search_keeps :: "(nat \<Rightarrow> 'w \<Rightarrow> vec3) \<Rightarrow> nat list \<times> coord_service \<Rightarrow> nat list \<times> coord_service \<Rightarrow> bool" where
  "search_keeps c vs vs' \<longleftrightarrow> (consistent c (snd vs) \<longrightarrow> consistent c (snd vs')) \<and>
     extends (snd vs) (snd vs') \<and> set (fst vs) \<subseteq> set (fst vs')"

lemma search_keeps_refl: "search_keeps c vs vs"
  by (simp add: search_keeps_def)

lemma search_keeps_trans: "search_keeps c u v \<Longrightarrow> search_keeps c v w \<Longrightarrow> search_keeps c u w"
  by (auto simp: search_keeps_def intro: extends_trans)

lemma search_keeps_link:
  "m_transformSet s a i \<Longrightarrow> m_transformSet s i b \<Longrightarrow> search_keeps c (vis, s) (vis, link a i b s)"
  by (simp add: search_keeps_def link_consistent link_extends)

lemma search_step_keeps:
  assumes "\<And>i vs. search_keeps c vs (rec i vs)"
  shows "search_keeps c acc (search_step rec a b i acc)"
proof -
  obtain v t where acc: "acc = (v, t)" by (cases acc)
  obtain v' t' where r: "rec i (v, t) = (v', t')" by (cases "rec i (v, t)")
  from assms [of "(v, t)" i] have keeps: "search_keeps c (v, t) (v', t')" by (simp add: r)
  have "m_transformSet t a i \<Longrightarrow> m_transformSet t' a i"
    using keeps by (simp add: search_keeps_def extends_def)
  then show ?thesis
    using keeps search_keeps_link [of t' a i b c v'] search_keeps_link [of t a i b c v]
    by (auto simp: acc search_step_def r search_keeps_refl intro: search_keeps_trans)
qed

lemma calculate_keeps: "search_keeps c vs (calculateTransform f n b a vs)"
proof (induction f arbitrary: a vs)
  case (Suc f)
  show ?case
  proof (cases "a \<in> set (fst vs)")
    case False
    have "search_keeps c (a # fst vs, snd vs)
        (fold (search_step (calculateTransform f n b) a b) [0..<n] (a # fst vs, snd vs))"
      by (rule fold_keeps [where P = "search_keeps c (a # fst vs, snd vs)"])
        (blast intro: search_keeps_trans search_step_keeps Suc.IH search_keeps_refl)+
    then show ?thesis using False by (auto simp: search_keeps_def)
  qed (simp add: search_keeps_refl)
qed (simp add: search_keeps_refl)

lemma calculate_extends: "extends (snd vs) (snd (calculateTransform f n b a vs))"
  using calculate_keeps [of "undefined :: nat \<Rightarrow> unit \<Rightarrow> vec3"] by (simp add: search_keeps_def)

lemma finalize_pairs_keeps:
  assumes "finalize_pairs n ps s = Inr s'"
  shows "(consistent c s \<longrightarrow> consistent c s') \<and> extends s s' \<and>
    (\<forall>(i, j)\<in>set ps. i \<noteq> j \<longrightarrow> m_transformSet s' i j)"
  using assms
proof (induction n ps s rule: finalize_pairs.induct)
  case (2 n i j ps s)
  let ?t = "snd (calculateTransform (Suc n) n j i ([], s))"
  have keeps: "(consistent c s \<longrightarrow> consistent c ?t) \<and> extends s ?t"
    using calculate_keeps [of c "([], s)" "Suc n" n j i] by (simp add: search_keeps_def)
  show ?case
  proof (cases "i \<noteq> j \<and> \<not> m_transformSet s i j")
    case True
    with "2.prems" have set: "m_transformSet ?t i j" and fin: "finalize_pairs n ps ?t = Inr s'"
      by (auto simp: Let_def split: if_splits)
    from "2.IH"(1) [OF True refl _ fin] set keeps show ?thesis
      by (auto simp: extends_def)
  next
    case False
    with "2.prems" have "finalize_pairs n ps s = Inr s'" by auto
    from "2.IH"(2) [OF False this] False show ?thesis by (auto simp: extends_def)
  qed
qed simp

section \<open>Nothing that is connected is missed\<close>

definition good_visited :: "nat \<Rightarrow> nat list \<Rightarrow> bool" where
  "good_visited n vis \<longleftrightarrow> distinct vis \<and> set vis \<subseteq> {..<n}"

lemma good_visited_length: "good_visited n vis \<Longrightarrow> length vis \<le> n"
  unfolding good_visited_def
  by (metis card_lessThan card_mono distinct_card finite_lessThan)

lemma good_visited_mono:
  "good_visited n v \<Longrightarrow> good_visited n w \<Longrightarrow> set v \<subseteq> set w \<Longrightarrow> length v \<le> length w"
  unfolding good_visited_def by (metis List.finite_set card_mono distinct_card)

text \<open>A node whose neighbours were all visited, none of them set to the target.\<close>

definition exhausted :: "nat \<Rightarrow> nat \<Rightarrow> coord_service \<Rightarrow> nat list \<Rightarrow> nat \<Rightarrow> bool" where
  "exhausted n b s vis y \<longleftrightarrow>
     (\<forall>i<n. m_transformSet s y i \<longrightarrow> i \<in> set vis \<and> \<not> m_transformSet s i b)"

lemma exhausted_mono:
  "exhausted n b t v y \<Longrightarrow> extends s t \<Longrightarrow> set v \<subseteq> set w \<Longrightarrow> exhausted n b s w y"
  unfolding exhausted_def extends_def by blast

definition searched :: "nat \<Rightarrow> nat \<Rightarrow> nat \<Rightarrow> nat list \<times> coord_service \<Rightarrow> nat list \<times> coord_service \<Rightarrow> bool" where
  "searched n b a vs vs' \<longleftrightarrow> good_visited n (fst vs') \<and>
     (m_transformSet (snd vs') a b \<or>
      a \<in> set (fst vs') \<and> (\<forall>y\<in>set (fst vs') - set (fst vs). exhausted n b (snd vs) (fst vs') y))"

definition loop_inv :: "nat \<Rightarrow> nat \<Rightarrow> nat \<Rightarrow> nat list \<times> coord_service \<Rightarrow> nat set \<Rightarrow> nat list \<times> coord_service
    \<Rightarrow> bool" where
  "loop_inv n b a vs D acc \<longleftrightarrow> good_visited n (fst acc) \<and> insert a (set (fst vs)) \<subseteq> set (fst acc) \<and>
     extends (snd vs) (snd acc) \<and>
     (m_transformSet (snd acc) a b \<or>
      (\<forall>i\<in>D. m_transformSet (snd vs) a i \<longrightarrow> i \<in> set (fst acc) \<and> \<not> m_transformSet (snd vs) i b) \<and>
      (\<forall>y\<in>set (fst acc) - insert a (set (fst vs)). exhausted n b (snd vs) (fst acc) y))"

lemma loop_step:
  assumes "loop_inv n b a vs D acc" and "i < n"
    and "search_keeps c acc (rec i acc)"
    and "if i \<in> set (fst acc) then rec i acc = acc else searched n b i acc (rec i acc)"
  shows "loop_inv n b a vs (insert i D) (search_step rec a b i acc)"
proof -
  obtain v t where acc: "acc = (v, t)" by (cases acc)
  obtain v' t' where r: "rec i (v, t) = (v', t')" by (cases "rec i (v, t)")
  note inv = assms(1)[unfolded acc loop_inv_def fst_conv snd_conv]
  have ext: "extends t t'" "set v \<subseteq> set v'" using assms(3) by (simp_all add: acc r search_keeps_def)
  have ext': "extends (snd vs) t'" using inv ext(1) extends_trans by blast
  show ?thesis
  proof (cases "m_transformSet t a i")
    case False
    then have "\<not> m_transformSet (snd vs) a i" using inv by (auto simp: extends_def)
    with False inv show ?thesis by (auto simp: acc search_step_def loop_inv_def)
  next
    case ai: True
    show ?thesis
    proof (cases "m_transformSet t i b")
      case True
      with ai inv show ?thesis
        by (auto simp: acc search_step_def loop_inv_def link_set intro: extends_trans link_extends)
    next
      case ib: False
      then have nib: "\<not> m_transformSet (snd vs) i b" using inv by (auto simp: extends_def)
      show ?thesis
      proof (cases "i \<in> set v")
        case True
        with assms(4) have "(v', t') = (v, t)" by (simp add: acc r)
        with ai ib True nib inv show ?thesis by (auto simp: acc search_step_def r loop_inv_def)
      next
        case new: False
        with assms(4) have srch: "searched n b i (v, t) (v', t')" by (simp add: acc r)
        show ?thesis
        proof (cases "m_transformSet t' i b")
          case True
          with ai ib inv ext ext' srch show ?thesis
            by (auto simp: acc search_step_def r loop_inv_def link_set searched_def
                intro: extends_trans link_extends)
        next
          case False
          with srch have iv: "i \<in> set v'" and ex: "\<forall>y\<in>set v' - set v. exhausted n b t v' y"
            and good: "good_visited n v'"
            by (auto simp: searched_def)
          have step: "search_step rec a b i acc = (v', t')"
            using ai ib False by (simp add: acc search_step_def r)
          have "exhausted n b (snd vs) v' y" if "y \<in> set v' - insert a (set (fst vs))"
            "\<not> m_transformSet t a b" for y
          proof (cases "y \<in> set v")
            case True
            with that inv have "exhausted n b (snd vs) v y" by blast
            then show ?thesis using exhausted_mono [OF _ extends_refl ext(2)] by blast
          next
            case False
            with that ex have "exhausted n b t v' y" by blast
            moreover have "extends (snd vs) t" using inv by blast
            ultimately show ?thesis by (rule exhausted_mono) simp
          qed
          moreover have "m_transformSet t a b \<Longrightarrow> m_transformSet t' a b" using ext(1) by (auto simp: extends_def)
          moreover have "\<forall>j\<in>insert i D. m_transformSet (snd vs) a j \<longrightarrow>
              j \<in> set v' \<and> \<not> m_transformSet (snd vs) j b" if "\<not> m_transformSet t a b"
            using that inv ext(2) iv nib by blast
          ultimately have "m_transformSet t' a b \<or>
              (\<forall>j\<in>insert i D. m_transformSet (snd vs) a j \<longrightarrow> j \<in> set v' \<and> \<not> m_transformSet (snd vs) j b) \<and>
              (\<forall>y\<in>set v' - insert a (set (fst vs)). exhausted n b (snd vs) v' y)" by blast
          moreover have "insert a (set (fst vs)) \<subseteq> set v'" using inv ext(2) by blast
          ultimately show ?thesis
            unfolding step loop_inv_def fst_conv snd_conv using good ext' by blast
        qed
      qed
    qed
  qed
qed

lemma loop_all:
  assumes "loop_inv n b a vs D acc" and "set xs \<subseteq> {..<n}"
    and "\<And>i acc. i < n \<Longrightarrow> loop_inv n b a vs {} acc \<Longrightarrow>
      search_keeps c acc (rec i acc) \<and>
      (if i \<in> set (fst acc) then rec i acc = acc else searched n b i acc (rec i acc))"
  shows "loop_inv n b a vs (D \<union> set xs) (fold (search_step rec a b) xs acc)"
  using assms(1,2)
proof (induction xs arbitrary: D acc)
  case (Cons i xs)
  then have "i < n" and "loop_inv n b a vs {} acc" by (auto simp: loop_inv_def)
  with assms(3) have "loop_inv n b a vs (insert i D) (search_step rec a b i acc)"
    using loop_step [OF Cons.prems(1), of i c rec] by blast
  from Cons.IH [OF this] Cons.prems(2) show ?case by simp
qed simp

lemma search_exhausts:
  assumes "good_visited n (fst vs)" and "a < n" and "n < f + length (fst vs)" and "a \<notin> set (fst vs)"
  shows "searched n b a vs (calculateTransform f n b a vs)"
  using assms
proof (induction f arbitrary: a vs)
  case 0
  then show ?case using good_visited_length by fastforce
next
  case (Suc f)
  let ?rec = "calculateTransform f n b"
  let ?acc0 = "(a # fst vs, snd vs)"
  have start: "loop_inv n b a vs {} ?acc0"
    using Suc.prems by (auto simp: loop_inv_def good_visited_def)
  have rec: "search_keeps undefined acc (?rec i acc) \<and>
      (if i \<in> set (fst acc) then ?rec i acc = acc else searched n b i acc (?rec i acc))"
    if "i < n" "loop_inv n b a vs {} acc" for i acc
  proof -
    have good: "good_visited n (fst acc)" and sub: "set (a # fst vs) \<subseteq> set (fst acc)"
      using that(2) by (auto simp: loop_inv_def)
    have "length (a # fst vs) \<le> length (fst acc)"
      using good_visited_mono [OF _ good sub] start by (simp add: loop_inv_def)
    with Suc.prems(3) have len: "n < f + length (fst acc)" by simp
    show ?thesis
    proof (cases "i \<in> set (fst acc)")
      case True
      then have "?rec i acc = acc" by (cases f) auto
      with True show ?thesis by (simp add: search_keeps_refl)
    next
      case False
      with Suc.IH [OF good that(1) len] show ?thesis by (simp add: calculate_keeps)
    qed
  qed
  have res: "calculateTransform (Suc f) n b a vs = fold (search_step ?rec a b) [0..<n] ?acc0"
    using Suc.prems(4) by simp
  have "loop_inv n b a vs ({} \<union> set [0..<n]) (calculateTransform (Suc f) n b a vs)"
    unfolding res by (rule loop_all [OF start _ rec]) auto
  then obtain v t where vt: "calculateTransform (Suc f) n b a vs = (v, t)"
    and inv: "loop_inv n b a vs {..<n} (v, t)"
    by (cases "calculateTransform (Suc f) n b a vs") (auto simp: atLeast0LessThan)
  have good: "good_visited n v" and av: "a \<in> set v"
    using inv by (simp_all add: loop_inv_def)
  have ex: "exhausted n b (snd vs) v y" if "y \<in> set v - set (fst vs)" "\<not> m_transformSet t a b" for y
  proof (cases "y = a")
    case True
    have "\<forall>i\<in>{..<n}. m_transformSet (snd vs) a i \<longrightarrow> i \<in> set v \<and> \<not> m_transformSet (snd vs) i b"
      using that(2) inv by (simp add: loop_inv_def)
    with True show ?thesis by (simp add: exhausted_def)
  next
    case False
    with that inv show ?thesis by (simp add: loop_inv_def)
  qed
  show ?case
    unfolding vt searched_def fst_conv snd_conv using good av ex by (cases "m_transformSet t a b") simp_all
qed

declare calculateTransform.simps(2) [simp del]

text \<open>Two systems are connected when a chain of set transformations leads from one to the other.\<close>

inductive coord_linked :: "nat \<Rightarrow> coord_service \<Rightarrow> nat \<Rightarrow> nat \<Rightarrow> bool" for n s where
  con_edge: "m_transformSet s i j \<Longrightarrow> coord_linked n s i j"
| con_step: "m_transformSet s i k \<Longrightarrow> k < n \<Longrightarrow> coord_linked n s k j \<Longrightarrow> coord_linked n s i j"

lemma exhausted_unconnected:
  assumes "coord_linked n s y b" and "y \<in> set vis" and "\<forall>y\<in>set vis. exhausted n b s vis y"
  shows "m_transformSet s y b"
  using assms
proof (induction rule: coord_linked.induct)
  case (con_step i k j)
  then have "k \<in> set vis" by (auto simp: exhausted_def)
  with con_step have "m_transformSet s k j" by blast
  with con_step show ?case by (auto simp: exhausted_def)
qed simp

lemma calculate_finds:
  assumes "coord_linked n s a b" and "a < n"
  shows "m_transformSet (snd (calculateTransform (Suc n) n b a ([], s))) a b"
proof (rule ccontr)
  let ?r = "calculateTransform (Suc n) n b a ([], s)"
  assume no: "\<not> m_transformSet (snd ?r) a b"
  have "searched n b a ([], s) ?r"
    by (rule search_exhausts) (use assms(2) in \<open>simp_all add: good_visited_def\<close>)
  with no have "a \<in> set (fst ?r)" "\<forall>y\<in>set (fst ?r). exhausted n b s (fst ?r) y"
    by (simp_all add: searched_def)
  with exhausted_unconnected [OF assms(1)] have "m_transformSet s a b" by blast
  with no calculate_extends [of "([], s)" "Suc n" n b a] show False
    by (simp add: extends_def)
qed

lemma connected_extends: "coord_linked n s i j \<Longrightarrow> extends s t \<Longrightarrow> coord_linked n t i j"
  by (induction rule: coord_linked.induct) (auto simp: extends_def intro: coord_linked.intros)

lemma finalize_pairs_complete:
  assumes "\<forall>(i, j)\<in>set ps. i \<noteq> j \<longrightarrow> i < n \<and> coord_linked n s i j"
  shows "\<exists>s'. finalize_pairs n ps s = Inr s'"
  using assms
proof (induction n ps s rule: finalize_pairs.induct)
  case (2 n i j ps s)
  let ?t = "snd (calculateTransform (Suc n) n j i ([], s))"
  have ext: "extends s ?t"
    using calculate_extends [of "([], s)" "Suc n" n j i] by simp
  show ?case
  proof (cases "i \<noteq> j \<and> \<not> m_transformSet s i j")
    case True
    with "2.prems" have set: "m_transformSet ?t i j" by (auto intro: calculate_finds)
    have rest: "\<forall>(k, l)\<in>set ps. k \<noteq> l \<longrightarrow> k < n \<and> coord_linked n ?t k l"
      using "2.prems" connected_extends [OF _ ext] by (simp add: split_beta)
    have "\<exists>s'. finalize_pairs n ps ?t = Inr s'"
      by (rule "2.IH"(1) [OF True refl _ rest]) (simp add: set)
    with True set show ?thesis by (simp add: Let_def)
  next
    case False
    with "2.IH"(2) [OF False] "2.prems" show ?thesis by auto
  qed
qed simp

lemma connected_trans:
  "coord_linked n s i k \<Longrightarrow> k < n \<Longrightarrow> coord_linked n s k j \<Longrightarrow> coord_linked n s i j"
  by (induction rule: coord_linked.induct) (auto intro: coord_linked.intros)

definition only_connected :: "nat \<Rightarrow> coord_service \<Rightarrow> coord_service \<Rightarrow> bool" where
  "only_connected n s t \<longleftrightarrow> (\<forall>i j. m_transformSet t i j \<longrightarrow> coord_linked n s i j)"

lemma link_only_connected:
  "only_connected n s t \<Longrightarrow> m_transformSet t a i \<Longrightarrow> m_transformSet t i b \<Longrightarrow> i < n \<Longrightarrow>
     only_connected n s (link a i b t)"
  by (auto simp: only_connected_def link_set intro: connected_trans)

lemma calculate_only_connected:
  "only_connected n s (snd vs) \<Longrightarrow> only_connected n s (snd (calculateTransform f n b a vs))"
proof (induction f arbitrary: a vs)
  case (Suc f)
  have step: "only_connected n s (snd (search_step (calculateTransform f n b) a b i acc))"
    if "only_connected n s (snd acc)" "i \<in> set [0..<n]" for i acc
  proof -
    obtain v t where acc: "acc = (v, t)" by (cases acc)
    obtain v' t' where r: "calculateTransform f n b i (v, t) = (v', t')"
      by (cases "calculateTransform f n b i (v, t)")
    from Suc.IH [of "(v, t)" i] that(1) have "only_connected n s t'" by (simp add: acc r)
    moreover have "m_transformSet t a i \<Longrightarrow> m_transformSet t' a i"
      using calculate_extends [of "(v, t)" f n b i] by (simp add: r extends_def)
    ultimately show ?thesis
      using that by (auto simp: acc search_step_def r intro: link_only_connected)
  qed
  have "only_connected n s (snd (fold (search_step (calculateTransform f n b) a b) [0..<n]
      (a # fst vs, snd vs)))"
    by (rule fold_keeps [where P = "\<lambda>acc. only_connected n s (snd acc)"]) (use step Suc.prems in auto)
  with Suc.prems show ?case by (simp add: calculateTransform.simps(2))
qed simp

lemma finalize_pairs_only_connected:
  "finalize_pairs n ps t = Inr s' \<Longrightarrow> only_connected n s t \<Longrightarrow> only_connected n s s'"
proof (induction n ps t rule: finalize_pairs.induct)
  case (2 n i j ps t)
  let ?t = "snd (calculateTransform (Suc n) n j i ([], t))"
  have "only_connected n s ?t" by (rule calculate_only_connected) (simp add: "2.prems")
  with 2 show ?case by (auto simp: Let_def split: if_splits)
qed simp

text \<open>
  C21: \<open>finalize\<close> succeeds exactly when the transformations that were set connect every two
  coordinate systems (it throws otherwise); then every two of them have a transformation,
  and if those that were set map coordinates to coordinates, so do all that it composed.
\<close>

theorem finalize_complete_consistent:
  "((\<exists>s'. finalize n s = Inr s') = (\<forall>i<n. \<forall>j<n. i \<noteq> j \<longrightarrow> coord_linked n s i j)) \<and>
   (\<forall>s'. finalize n s = Inr s' \<longrightarrow> consistent c s \<longrightarrow>
      (\<forall>i<n. \<forall>j<n. i \<noteq> j \<longrightarrow> m_transformSet s' i j \<and> (\<forall>x. transform_point i j (c i x) s' = c j x)))"
proof -
  let ?ps = "concat (map (\<lambda>i. map (Pair i) [0..<n]) [0..<n])"
  have ps: "set ?ps = {(i, j). i < n \<and> j < n}" by auto
  have "\<forall>i<n. \<forall>j<n. i \<noteq> j \<longrightarrow> m_transformSet s' i j" and "consistent c s \<longrightarrow> consistent c s'"
    and "only_connected n s s'" if "finalize n s = Inr s'" for s'
    using finalize_pairs_keeps [OF that[unfolded finalize_def], of c] ps
      finalize_pairs_only_connected [OF that[unfolded finalize_def], of s]
    by (auto simp: only_connected_def intro: con_edge)
  moreover have "\<exists>s'. finalize n s = Inr s'" if "\<forall>i<n. \<forall>j<n. i \<noteq> j \<longrightarrow> coord_linked n s i j"
    unfolding finalize_def using that ps by (intro finalize_pairs_complete) auto
  ultimately show ?thesis
    by (auto simp: only_connected_def transform_point_def consistent_def)
qed

section \<open>The chains of NR_Transfer.cpp\<close>

abbreviation (input) CV_LEFT_CAM :: nat where "CV_LEFT_CAM \<equiv> 0"
abbreviation (input) GL_LEFT_CAM :: nat where "GL_LEFT_CAM \<equiv> 1"
abbreviation (input) GL_HEAD :: nat where "GL_HEAD \<equiv> 2"
abbreviation (input) GL_RIGHT_CAM :: nat where "GL_RIGHT_CAM \<equiv> 3"
abbreviation (input) CV_RIGHT_CAM :: nat where "CV_RIGHT_CAM \<equiv> 4"

definition transform_points :: "nat \<Rightarrow> nat \<Rightarrow> vec3 list \<Rightarrow> coord_service \<Rightarrow> vec3 list" where
  "transform_points a b ps s = map (\<lambda>p. transform_point a b p s) ps"

definition transferCVToGL :: "coord_service \<Rightarrow> vec3 list \<Rightarrow> vec3 list" where
  "transferCVToGL s ps = transform_points CV_LEFT_CAM GL_LEFT_CAM ps s"

definition transferLeftCamToHead :: "coord_service \<Rightarrow> vec3 list \<Rightarrow> vec3 list" where
  "transferLeftCamToHead s ps = transform_points GL_LEFT_CAM GL_HEAD ps s"

text \<open>
  The head pose: \<open>rot\<close> is Eigen's rotation matrix of a quaternion, applied before the
  translation.
\<close>

record ('q) nr_transform =
  nr_rotation :: 'q
  nr_position :: vec3

definition head_iso :: "('q \<Rightarrow> mat3) \<Rightarrow> 'q nr_transform \<Rightarrow> iso" where
  "head_iso rot h = (rot (nr_rotation h), nr_position h)"

definition transferHeadToWorld :: "('q \<Rightarrow> mat3) \<Rightarrow> 'q nr_transform \<Rightarrow> vec3 list \<Rightarrow> vec3 list" where
  "transferHeadToWorld rot h ps = map (iso_apply (head_iso rot h)) ps"

definition transferGLtoCV :: "coord_service \<Rightarrow> vec3 list \<Rightarrow> vec3 list" where
  "transferGLtoCV s ps = transform_points GL_LEFT_CAM CV_LEFT_CAM ps s"

definition transferHeadToLeftCam :: "coord_service \<Rightarrow> vec3 list \<Rightarrow> vec3 list" where
  "transferHeadToLeftCam s ps = transform_points GL_HEAD GL_LEFT_CAM ps s"

definition transferWorldToHead :: "('q \<Rightarrow> mat3) \<Rightarrow> 'q nr_transform \<Rightarrow> vec3 list \<Rightarrow> vec3 list" where
  "transferWorldToHead rot h ps = map (iso_apply (iso_inverse (head_iso rot h))) ps"

definition cal_lcam_kpt3d_cv_to_world ::
    "('q \<Rightarrow> mat3) \<Rightarrow> coord_service \<Rightarrow> 'q nr_transform \<Rightarrow> vec3 list \<Rightarrow> vec3 list" where
  "cal_lcam_kpt3d_cv_to_world rot s h ps =
     (let point_cam = transferCVToGL s ps;
          point_hd = transferLeftCamToHead s point_cam
      in transferHeadToWorld rot h point_hd)"

definition recal_lcam_kpt3d_cv_with_new_headpose ::
    "('q \<Rightarrow> mat3) \<Rightarrow> coord_service \<Rightarrow> 'q nr_transform \<Rightarrow> vec3 list \<Rightarrow> vec3 list" where
  "recal_lcam_kpt3d_cv_with_new_headpose rot s h ps =
     (let point_hd = transferWorldToHead rot h ps;
          point_cam = transferHeadToLeftCam s point_hd
      in transferGLtoCV s point_cam)"

definition lcam_cv_to_rcam_cv :: "coord_service \<Rightarrow> vec3 list \<Rightarrow> vec3 list" where
  "lcam_cv_to_rcam_cv s ps = transform_points CV_LEFT_CAM CV_RIGHT_CAM ps s"

lemma camera_world_inverse:
  assumes "finalize 5 s0 = Inr s" and "consistent c s0" and "\<forall>p. \<exists>x. c CV_LEFT_CAM x = p"
    and "orthogonal (rot (nr_rotation h))"
  shows "recal_lcam_kpt3d_cv_with_new_headpose rot s h (cal_lcam_kpt3d_cv_to_world rot s h ps) = ps"
proof -
  have tr: "transform_point i j (c i x) s = c j x" if "i < 5" "j < 5" "i \<noteq> j" for i j x
    using finalize_pairs_keeps [OF assms(1)[unfolded finalize_def], of c] assms(2) that
    by (auto simp: transform_point_def consistent_def)
  have head: "iso_apply (iso_inverse (head_iso rot h)) (iso_apply (head_iso rot h) q) = q" for q
    by (rule iso_inverse_apply) (simp add: head_iso_def assms(4))
  have "transform_point GL_LEFT_CAM CV_LEFT_CAM (transform_point GL_HEAD GL_LEFT_CAM
      (transform_point GL_LEFT_CAM GL_HEAD (transform_point CV_LEFT_CAM GL_LEFT_CAM p s) s) s) s = p" for p
  proof -
    from assms(3) obtain x where "c CV_LEFT_CAM x = p" by blast
    then show ?thesis by (simp add: tr flip: \<open>c CV_LEFT_CAM x = p\<close>)
  qed
  then show ?thesis
    by (simp add: recal_lcam_kpt3d_cv_with_new_headpose_def cal_lcam_kpt3d_cv_to_world_def Let_def
        transferCVToGL_def transferLeftCamToHead_def transferHeadToWorld_def transferGLtoCV_def
        transferHeadToLeftCam_def transferWorldToHead_def transform_points_def comp_def head)
qed

text \<open>
  Points taken from the left camera to the world and back with the same head pose return
  to themselves, when the service was finalised from transformations that agree on the
  coordinates of every point and the head pose is a rotation.
\<close>

lemma camera_world_roundtrip:
  assumes "finalize 5 s0 = Inr s" and "consistent c s0" and "\<forall>p. \<exists>x. c CV_LEFT_CAM x = p"
    and "orthogonal (rot (nr_rotation h))"
  shows "recal_lcam_kpt3d_cv_with_new_headpose rot s h (cal_lcam_kpt3d_cv_to_world rot s h ps) = ps"
  using assms by (rule camera_world_inverse)

text \<open>A service whose cameras and head all coincide, linked in a chain.\<close>

definition example_coords :: coord_service where
  "example_coords = fold (\<lambda>(i, j). setTransformInternal i j iso_identity)
     [(0, 1), (1, 0), (1, 2), (2, 1), (2, 3), (3, 2), (3, 4), (4, 3)] coord_service_new"

lemma example_coords_consistent: "consistent (\<lambda>_ x. x) example_coords"
  by (auto simp: consistent_def example_coords_def coord_service_new_def setTransformInternal_def
      iso_apply_def iso_identity_def model_defs)

lemma example_coords_finalize: "\<exists>s. finalize 5 example_coords = Inr s"
proof -
  have e: "coord_linked 5 example_coords 0 1" "coord_linked 5 example_coords 1 2"
    "coord_linked 5 example_coords 2 3" "coord_linked 5 example_coords 3 4"
    "coord_linked 5 example_coords 1 0" "coord_linked 5 example_coords 2 1"
    "coord_linked 5 example_coords 3 2" "coord_linked 5 example_coords 4 3"
    by (auto intro!: con_edge simp: example_coords_def setTransformInternal_def)
  have up: "coord_linked 5 example_coords 0 i \<and> coord_linked 5 example_coords i 0"
    if "i < 5" "i \<noteq> 0" for i
    using that e connected_trans [of 5 example_coords 0 1] connected_trans [of 5 example_coords 0 2]
      connected_trans [of 5 example_coords 0 3] connected_trans [of 5 example_coords _ 1 0]
      connected_trans [of 5 example_coords _ 2 0] connected_trans [of 5 example_coords _ 3 0]
    by (auto simp: less_Suc_eq numeral_eq_Suc)
  have "coord_linked 5 example_coords i j" if "i < 5" "j < 5" "i \<noteq> j" for i j
    using up [of i] up [of j] connected_trans [of 5 example_coords i 0 j] that
    by (cases "i = 0"; cases "j = 0") auto
  then show ?thesis unfolding finalize_def by (intro finalize_pairs_complete) auto
qed

theorem finalize_complete_consistent_witness:
  "\<exists>s. finalize 5 example_coords = Inr s \<and> m_transformSet s 0 4 \<and>
     transform_point 0 4 (v3 1 2 3) s = v3 1 2 3"
proof -
  obtain s where s: "finalize 5 example_coords = Inr s" using example_coords_finalize by blast
  with finalize_complete_consistent [of 5 example_coords "\<lambda>_ x. x"] example_coords_consistent
  have "m_transformSet s 0 4" "transform_point 0 4 (v3 1 2 3) s = v3 1 2 3" by auto
  with s show ?thesis by blast
qed

end
