(* ===== verification/BlockRules.thy ===== *)
theory BlockRules
  imports HandTypes
begin

text \<open>
  \<^verbatim>\<open>aisdk/algorithm/calculator/block_hard_rules_calculator.cpp\<close>: the calculator that drops
  implausible hands. A hand too far away is dropped; a monocular hand by its reprojection
  error and a binocular hand by its score, both with a hysteresis around the threshold whose
  memory is whether the hand was valid in the last frame. None stands for the read of the
  root of an empty keypoint vector.
\<close>

section \<open>State\<close>

datatype hand_state = Lost | Tracking

definition HandState :: "bool \<Rightarrow> hand_state" where
  "HandState b = (if b then Tracking else Lost)"

record hand_state_updator =
  last_state :: hand_state
  u_score_th :: real
  u_score_th_width :: real
  u_rmse_th :: real
  u_rmse_th_width :: real

definition hand_updator_update :: "cam_type \<Rightarrow> real \<Rightarrow> hand_state_updator \<Rightarrow> hand_state \<times> hand_state_updator" where
  "hand_updator_update hand_source sc u =
     (let s = (if hand_source = CamBino then
                 (if sc < u_score_th u - u_score_th_width u / 2 then Lost
                  else if sc > u_score_th u + u_score_th_width u / 2 then Tracking
                  else last_state u)
               else
                 (if sc > u_rmse_th u + u_rmse_th_width u / 2 then Lost
                  else if sc < u_rmse_th u - u_rmse_th_width u / 2 then Tracking
                  else last_state u))
      in (s, u\<lparr>last_state := s\<rparr>))"

record block_rules =
  max_root_depth :: real
  score_th :: real
  score_th_width :: real
  rmse_th :: real
  rmse_th_width :: real
  left_updator :: hand_state_updator
  right_updator :: hand_state_updator

text \<open>\<open>Open\<close>; the updators' \<open>last_state\<close> is not initialised, its values are arguments.\<close>

definition block_rules_open :: "hand_state \<Rightarrow> hand_state \<Rightarrow> real \<Rightarrow> real \<Rightarrow> real \<Rightarrow> real \<Rightarrow> real \<Rightarrow> block_rules" where
  "block_rules_open l0 r0 depth st sw rt rw' =
     \<lparr>max_root_depth = depth, score_th = st, score_th_width = sw, rmse_th = rt, rmse_th_width = rw',
      left_updator = \<lparr>last_state = l0, u_score_th = st, u_score_th_width = sw, u_rmse_th = rt,
        u_rmse_th_width = rw'\<rparr>,
      right_updator = \<lparr>last_state = r0, u_score_th = st, u_score_th_width = sw, u_rmse_th = rt,
        u_rmse_th_width = rw'\<rparr>\<rparr>"

section \<open>Process\<close>

definition block_rule_root_distance :: "vec3 list \<Rightarrow> real \<Rightarrow> bool option" where
  "block_rule_root_distance points_3d max_depth =
     (case points_3d of [] \<Rightarrow> None | p # _ \<Rightarrow> Some (vz p > max_depth))"

text \<open>A binocular hand with a low score is saved when it is not above eye level.\<close>

definition block_but_save :: "block_rules \<Rightarrow> single_hand_data \<Rightarrow> bool" where
  "block_but_save b h \<longleftrightarrow>
     vy (hd (kpt3d h)) > -0.05 \<and> score h > score_th b - score_th_width b / 2 - 0.1"

text \<open>
  One valid hand of one input: whether it stays valid, and its updator. An operand of
  \<open>&&\<close> that is not reached does not change the updator.
\<close>

definition block_hand :: "block_rules \<Rightarrow> bool \<Rightarrow> single_hand_data \<Rightarrow> hand_state_updator
    \<Rightarrow> (bool \<times> hand_state_updator) option" where
  "block_hand b was_valid h u0 =
     (let u = u0\<lparr>last_state := HandState was_valid\<rparr>
      in do {
           far \<leftarrow> block_rule_root_distance (kpt3d h) (max_root_depth b);
           Some (if far then (False, u)
                 else if source h = CamMono then
                   (let (s, u') = hand_updator_update (source h) (reproj_rmse h) u in (s \<noteq> Lost, u'))
                 else if source h = CamBino then
                   (let (s, u') = hand_updator_update (source h) (score h) u
                    in (s \<noteq> Lost \<or> block_but_save b h, u'))
                 else (True, u))
         })"

definition block_left :: "bool \<Rightarrow> hands_data \<Rightarrow> hands_data \<times> block_rules \<Rightarrow> (hands_data \<times> block_rules) option" where
  "block_left was_valid inp ob =
     (let (out, b) = ob
      in if lhand_valid inp then
           do {
             (ok, u) \<leftarrow> block_hand b was_valid (left_hand inp) (left_updator b);
             Some (out\<lparr>lhand_valid := ok, left_hand := left_hand inp\<rparr>, b\<lparr>left_updator := u\<rparr>)
           }
         else Some (out, b))"

definition block_right :: "bool \<Rightarrow> hands_data \<Rightarrow> hands_data \<times> block_rules \<Rightarrow> (hands_data \<times> block_rules) option" where
  "block_right was_valid inp ob =
     (let (out, b) = ob
      in if rhand_valid inp then
           do {
             (ok, u) \<leftarrow> block_hand b was_valid (right_hand inp) (right_updator b);
             Some (out\<lparr>rhand_valid := ok, right_hand := right_hand inp\<rparr>, b\<lparr>right_updator := u\<rparr>)
           }
         else Some (out, b))"

fun block_inputs :: "hands_data \<Rightarrow> hands_data list \<Rightarrow> hands_data \<times> block_rules
    \<Rightarrow> (hands_data \<times> block_rules) option" where
  "block_inputs pre [] ob = Some ob"
| "block_inputs pre (inp # inps) ob =
     do {
       ob1 \<leftarrow> block_left (lhand_valid pre) inp ob;
       ob2 \<leftarrow> block_right (rhand_valid pre) inp ob1;
       block_inputs pre inps ob2
     }"

text \<open>\<open>pre\<close> is the service's \<open>last_kpt3d_world\<close>; the output is added in both branches.\<close>

definition block_rules_process :: "hands_data \<Rightarrow> hands_data list \<Rightarrow> block_rules
    \<Rightarrow> (hands_data \<times> block_rules) option" where
  "block_rules_process pre inputs b = block_inputs pre inputs (new_hands_data, b)"

section \<open>What passes\<close>

text \<open>
  The specification of the rules, by the hand's source: the error or the score on the right
  side of the nearer or the farther end of the hysteresis band.
\<close>

definition passes :: "block_rules \<Rightarrow> bool \<Rightarrow> single_hand_data \<Rightarrow> bool" where
  "passes b was_valid h \<longleftrightarrow>
     vz (hd (kpt3d h)) \<le> max_root_depth b \<and>
     (source h = CamMono \<longrightarrow>
        (if was_valid then reproj_rmse h \<le> rmse_th b + rmse_th_width b / 2
         else reproj_rmse h < rmse_th b - rmse_th_width b / 2)) \<and>
     (source h = CamBino \<longrightarrow>
        (if was_valid then score_th b - score_th_width b / 2 \<le> score h
         else score_th b + score_th_width b / 2 < score h) \<or> block_but_save b h)"

text \<open>The updators carry the calculator's thresholds.\<close>

definition same_thresholds :: "block_rules \<Rightarrow> hand_state_updator \<Rightarrow> bool" where
  "same_thresholds b u \<longleftrightarrow>
     u_score_th u = score_th b \<and> u_score_th_width u = score_th_width b \<and>
     u_rmse_th u = rmse_th b \<and> u_rmse_th_width u = rmse_th_width b"

definition block_wf :: "block_rules \<Rightarrow> bool" where
  "block_wf b \<longleftrightarrow> same_thresholds b (left_updator b) \<and> same_thresholds b (right_updator b) \<and>
     0 \<le> score_th_width b \<and> 0 \<le> rmse_th_width b"

definition same_rules :: "block_rules \<Rightarrow> block_rules \<Rightarrow> bool" where
  "same_rules a b \<longleftrightarrow> max_root_depth a = max_root_depth b \<and> score_th a = score_th b \<and>
     score_th_width a = score_th_width b \<and> rmse_th a = rmse_th b \<and> rmse_th_width a = rmse_th_width b"

lemma passes_same: "same_rules a b \<Longrightarrow> passes a w h = passes b w h"
  by (simp add: same_rules_def passes_def block_but_save_def)

lemma open_wf: "0 \<le> sw \<Longrightarrow> 0 \<le> rw' \<Longrightarrow> block_wf (block_rules_open l r d st sw rt rw')"
  by (simp add: block_wf_def same_thresholds_def block_rules_open_def)

lemma block_hand_verdict:
  assumes "block_hand b w h u = Some (ok, u')" and "same_thresholds b u"
    and "0 \<le> score_th_width b" and "0 \<le> rmse_th_width b"
  shows "ok = passes b w h \<and> same_thresholds b u' \<and> kpt3d h \<noteq> []"
proof (cases "kpt3d h")
  case Nil
  with assms(1) show ?thesis by (simp add: block_hand_def block_rule_root_distance_def)
next
  case (Cons r ks)
  with assms show ?thesis
    by (cases "source h")
      (auto simp: block_hand_def block_rule_root_distance_def passes_def hand_updator_update_def
        same_thresholds_def HandState_def Let_def split: if_splits)
qed

definition last_left :: "hands_data list \<Rightarrow> single_hand_data option" where
  "last_left inps = (case filter lhand_valid inps of [] \<Rightarrow> None | xs \<Rightarrow> Some (left_hand (last xs)))"

definition last_right :: "hands_data list \<Rightarrow> single_hand_data option" where
  "last_right inps = (case filter rhand_valid inps of [] \<Rightarrow> None | xs \<Rightarrow> Some (right_hand (last xs)))"

lemma last_left_Cons:
  "last_left (x # xs) = (case last_left xs of None \<Rightarrow> if lhand_valid x then Some (left_hand x) else None
     | Some h \<Rightarrow> Some h)"
  by (auto simp: last_left_def split: list.splits)

lemma last_right_Cons:
  "last_right (x # xs) = (case last_right xs of None \<Rightarrow> if rhand_valid x then Some (right_hand x) else None
     | Some h \<Rightarrow> Some h)"
  by (auto simp: last_right_def split: list.splits)

lemma block_left_step:
  assumes "block_left w inp (out, b) = Some (out', b')" and "block_wf b"
  shows "block_wf b' \<and> same_rules b' b \<and> rhand_valid out' = rhand_valid out \<and>
    right_hand out' = right_hand out \<and>
    lhand_valid out' = (if lhand_valid inp then passes b w (left_hand inp) else lhand_valid out) \<and>
    left_hand out' = (if lhand_valid inp then left_hand inp else left_hand out)"
  using assms
  by (auto simp: block_left_def bind_eq_Some_conv block_wf_def same_rules_def same_thresholds_def
      dest!: block_hand_verdict split: if_splits)

lemma block_right_step:
  assumes "block_right w inp (out, b) = Some (out', b')" and "block_wf b"
  shows "block_wf b' \<and> same_rules b' b \<and> lhand_valid out' = lhand_valid out \<and>
    left_hand out' = left_hand out \<and>
    rhand_valid out' = (if rhand_valid inp then passes b w (right_hand inp) else rhand_valid out) \<and>
    right_hand out' = (if rhand_valid inp then right_hand inp else right_hand out)"
  using assms
  by (auto simp: block_right_def bind_eq_Some_conv block_wf_def same_rules_def same_thresholds_def
      dest!: block_hand_verdict split: if_splits)

lemma same_rules_trans: "same_rules a b \<Longrightarrow> same_rules b c \<Longrightarrow> same_rules a c"
  by (simp add: same_rules_def)

lemma block_inputs_verdict:
  assumes "block_inputs pre inps (out, b) = Some (out', b')" and "block_wf b"
  shows "block_wf b' \<and> same_rules b' b \<and>
    (case last_left inps of
       None \<Rightarrow> lhand_valid out' = lhand_valid out \<and> left_hand out' = left_hand out
     | Some h \<Rightarrow> lhand_valid out' = passes b (lhand_valid pre) h \<and> left_hand out' = h) \<and>
    (case last_right inps of
       None \<Rightarrow> rhand_valid out' = rhand_valid out \<and> right_hand out' = right_hand out
     | Some h \<Rightarrow> rhand_valid out' = passes b (rhand_valid pre) h \<and> right_hand out' = h)"
  using assms
proof (induction inps arbitrary: out b)
  case Nil
  then show ?case by (simp add: last_left_def last_right_def same_rules_def)
next
  case (Cons inp inps)
  from Cons.prems(1) obtain o1 b1 o2 b2 where
    l: "block_left (lhand_valid pre) inp (out, b) = Some (o1, b1)"
    and r: "block_right (rhand_valid pre) inp (o1, b1) = Some (o2, b2)"
    and rest: "block_inputs pre inps (o2, b2) = Some (out', b')"
    by (auto simp: bind_eq_Some_conv)
  note L = block_left_step [OF l Cons.prems(2)]
  from block_right_step [OF r] L have R: "block_wf b2" "same_rules b2 b1" "lhand_valid o2 = lhand_valid o1"
    "left_hand o2 = left_hand o1"
    "rhand_valid o2 = (if rhand_valid inp then passes b1 (rhand_valid pre) (right_hand inp) else rhand_valid o1)"
    "right_hand o2 = (if rhand_valid inp then right_hand inp else right_hand o1)" by auto
  have b2: "same_rules b2 b" using R(2) L by (blast intro: same_rules_trans)
  have p: "passes b1 w h = passes b w h" "passes b2 w h = passes b w h" for w h
    using L b2 by (simp_all add: passes_same)
  from Cons.IH [OF rest R(1)] b2 L R show ?case
    by (simp add: last_left_Cons last_right_Cons p same_rules_trans [of b' b2 b] split: option.splits)
qed

text \<open>
  C29: the output reports a hand exactly when the last input that has it passes the rules,
  with the memory of the hysteresis being whether the hand was valid in the last world
  keypoints; it carries that input's hand, and the rules for the next frame are unchanged.
\<close>

theorem block_rules_verdict:
  assumes "block_rules_process pre inputs b = Some (out, b')" and "block_wf b"
  shows "(case last_left inputs of
       None \<Rightarrow> \<not> lhand_valid out
     | Some h \<Rightarrow> lhand_valid out = passes b (lhand_valid pre) h \<and> left_hand out = h) \<and>
    (case last_right inputs of
       None \<Rightarrow> \<not> rhand_valid out
     | Some h \<Rightarrow> rhand_valid out = passes b (rhand_valid pre) h \<and> right_hand out = h) \<and>
    block_wf b' \<and> same_rules b' b"
  using block_inputs_verdict [OF assms(1)[unfolded block_rules_process_def] assms(2)]
  by (simp add: new_hands_data_def split: option.splits)

definition example_rules :: block_rules where
  "example_rules = block_rules_open Lost Lost 1 (1/2) (2/10) 10 4"

definition example_mono_hand :: single_hand_data where
  "example_mono_hand = new_single_hand_data\<lparr>kpt3d := [v3 0 0 (4/10)], reproj_rmse := 11, source := CamMono\<rparr>"

theorem block_rules_verdict_witness:
  "\<exists>o1 o2 b1 b2. block_rules_process (new_hands_data\<lparr>lhand_valid := True\<rparr>)
       [new_hands_data\<lparr>left_hand := example_mono_hand, lhand_valid := True\<rparr>] example_rules = Some (o1, b1) \<and>
     lhand_valid o1 \<and>
     block_rules_process new_hands_data
       [new_hands_data\<lparr>left_hand := example_mono_hand, lhand_valid := True\<rparr>] example_rules = Some (o2, b2) \<and>
     \<not> lhand_valid o2"
proof -
  let ?i = "[new_hands_data\<lparr>left_hand := example_mono_hand, lhand_valid := True\<rparr>]"
  let ?p = "new_hands_data\<lparr>lhand_valid := True\<rparr>"
  have wf: "block_wf example_rules" by (simp add: example_rules_def open_wf)
  have "block_rules_process q ?i example_rules \<noteq> None" for q
    by (simp add: block_rules_process_def block_left_def block_right_def block_hand_def
        block_rule_root_distance_def example_mono_hand_def new_hands_data_def Let_def split: prod.splits)
  then obtain o1 b1 o2 b2 where r: "block_rules_process ?p ?i example_rules = Some (o1, b1)"
    "block_rules_process new_hands_data ?i example_rules = Some (o2, b2)"
    by (metis option.exhaust surj_pair)
  have "lhand_valid o1" "\<not> lhand_valid o2"
    using block_rules_verdict [OF r(1) wf] block_rules_verdict [OF r(2) wf]
    by (simp_all add: last_left_def new_hands_data_def passes_def example_mono_hand_def
        example_rules_def block_rules_open_def new_single_hand_data_def)
  with r show ?thesis by blast
qed

end
