(* ===== verification/Smoothing.thy ===== *)
theory Smoothing
  imports SeqManager
begin

text \<open>
  The contract of a keypoint smoother and its client \<open>HandFilters\<close>
  (\<^verbatim>\<open>aisdk/algorithm/func/hand_filters.{h,cpp}\<close>), which splits a hand into palm, index finger
  and the rest, smooths each group relative to the wrist and puts the hand together again.
\<close>

section \<open>One Euro filters within bounds\<close>

definition oe_within :: "real \<Rightarrow> real \<Rightarrow> one_euro \<Rightarrow> bool" where
  "oe_within lo hi f \<longleftrightarrow> oe_wf f \<and>
     (lp_initialized (x_filter f) \<longrightarrow> lo \<le> lp_s (x_filter f) \<and> lp_s (x_filter f) \<le> hi)"

lemma oe_filter_within:
  assumes "oe_within lo hi f" and "lo \<le> v" and "v \<le> hi"
  shows "\<exists>r f'. oe_filter v UndefinedTime f = Inr (r, f') \<and> lo \<le> r \<and> r \<le> hi \<and> oe_within lo hi f'"
proof -
  from assms(1) have "oe_wf f" by (simp add: oe_within_def)
  from oe_filter_untimed [OF this, of v] obtain r f' a where
    r: "oe_filter v UndefinedTime f = Inr (r, f')" "oe_wf f'" "lp_s (x_filter f') = r"
    and a: "0 < a" "a < 1"
      "r = (if lp_initialized (x_filter f) then a * v + (1 - a) * lp_s (x_filter f) else v)"
    by blast
  have "lo \<le> r \<and> r \<le> hi"
    using a assms convex_between [of a lo v hi "lp_s (x_filter f)"] by (auto simp: oe_within_def)
  with r show ?thesis by (auto simp: oe_within_def)
qed

lemma oe_reset_within: "oe_within lo hi f \<Longrightarrow> oe_within lo' hi' (oe_reset f)"
  by (simp add: oe_within_def oe_wf_def oe_reset_def lp_reset_def)

lemma filter_seq_within:
  assumes "\<forall>f\<in>set fs. oe_within lo hi f"
    and "\<forall>(i, v)\<in>set ivs. i < length fs \<and> lo \<le> v \<and> v \<le> hi"
  shows "\<exists>rs fs'. filter_seq ivs fs = Inr (rs, fs') \<and> length rs = length ivs \<and>
    length fs' = length fs \<and> (\<forall>f\<in>set fs'. oe_within lo hi f) \<and> (\<forall>r\<in>set rs. lo \<le> r \<and> r \<le> hi)"
  using assms
proof (induction ivs arbitrary: fs)
  case (Cons iv ivs)
  obtain i v where iv: "iv = (i, v)" by (cases iv)
  from Cons.prems have i: "i < length fs" "lo \<le> v" "v \<le> hi" by (auto simp: iv)
  with Cons.prems have "oe_within lo hi (fs ! i)" by auto
  with i obtain r f where r: "filter_at i v fs = Inr (r, fs[i := f])" "lo \<le> r" "r \<le> hi" "oe_within lo hi f"
    using oe_filter_within [of lo hi "fs ! i" v] by (auto simp: filter_at_def)
  have "\<forall>g\<in>set (fs[i := f]). oe_within lo hi g"
    using Cons.prems(1) r(4) set_update_subset_insert [of fs i f] by auto
  moreover have "\<forall>(j, w)\<in>set ivs. j < length (fs[i := f]) \<and> lo \<le> w \<and> w \<le> hi"
    using Cons.prems(2) by auto
  ultimately obtain rs fs' where "filter_seq ivs (fs[i := f]) = Inr (rs, fs')" "length rs = length ivs"
    "length fs' = length fs" "\<forall>f\<in>set fs'. oe_within lo hi f" "\<forall>r\<in>set rs. lo \<le> r \<and> r \<le> hi"
    using Cons.IH [of "fs[i := f]"] by auto
  with r show ?case by (simp add: iv)
qed simp

lemma make_filters_within:
  assumes "\<forall>(t0, fr, mc, b, dc)\<in>set ps. 0 < fr \<and> 0 < mc \<and> 0 \<le> b \<and> 0 < dc"
  shows "\<exists>fs. make_filters ps = Inr fs \<and> length fs = length ps \<and> (\<forall>f\<in>set fs. oe_within lo hi f)"
  using assms
proof (induction ps)
  case (Cons p ps)
  obtain t0 fr mc b dc where p: "p = (t0, fr, mc, b, dc)" by (cases p)
  with Cons.prems oe_new_wf [of fr mc b dc t0] obtain f where
    "oe_new t0 fr mc b dc = Inr f" "oe_wf f" "\<not> lp_initialized (x_filter f)" by auto
  with Cons p show ?case by (auto simp: oe_within_def)
qed simp

section \<open>The contract of a smoother\<close>

definition in_cube :: "real \<Rightarrow> real \<Rightarrow> vec3 \<Rightarrow> bool" where
  "in_cube lo hi p \<longleftrightarrow> lo \<le> vx p \<and> vx p \<le> hi \<and> lo \<le> vy p \<and> vy p \<le> hi \<and> lo \<le> vz p \<and> vz p \<le> hi"

text \<open>A smoother on a sequence of frames; a throw ends it.\<close>

fun smooth_run :: "(vec3 list \<Rightarrow> 's \<Rightarrow> (vec3 list \<times> 's) res) \<Rightarrow> vec3 list list \<Rightarrow> 's
    \<Rightarrow> (vec3 list list \<times> 's) res" where
  "smooth_run filt [] m = Inr ([], m)"
| "smooth_run filt (p # ps) m =
     (case filt p m of
        Inl e \<Rightarrow> Inl e
      | Inr (q, m') \<Rightarrow> (case smooth_run filt ps m' of Inl e \<Rightarrow> Inl e | Inr (qs, m'') \<Rightarrow> Inr (q # qs, m'')))"

locale keypoint_smoother =
  fixes filt :: "vec3 list \<Rightarrow> 's \<Rightarrow> (vec3 list \<times> 's) res"
    and accepts :: "'s \<Rightarrow> vec3 list \<Rightarrow> bool"
    and keeps :: "real \<Rightarrow> real \<Rightarrow> 's \<Rightarrow> bool"
  assumes filt_within: "keeps lo hi m \<Longrightarrow> accepts m ps \<Longrightarrow> \<forall>p\<in>set ps. in_cube lo hi p \<Longrightarrow>
      \<exists>qs m'. filt ps m = Inr (qs, m') \<and> length qs = length ps \<and> keeps lo hi m' \<and>
        accepts m' = accepts m \<and> (\<forall>q\<in>set qs. in_cube lo hi q)"
begin

lemma run_within:
  assumes "keeps lo hi m" and "\<forall>ps\<in>set frames. accepts m ps \<and> (\<forall>p\<in>set ps. in_cube lo hi p)"
  shows "\<exists>out m'. smooth_run filt frames m = Inr (out, m') \<and> length out = length frames \<and>
    keeps lo hi m' \<and> accepts m' = accepts m \<and> (\<forall>qs\<in>set out. \<forall>q\<in>set qs. in_cube lo hi q)"
  using assms
proof (induction frames arbitrary: m)
  case (Cons ps frames)
  from Cons.prems have ps: "accepts m ps" "\<forall>p\<in>set ps. in_cube lo hi p"
    and rest: "\<forall>ps\<in>set frames. accepts m ps \<and> (\<forall>p\<in>set ps. in_cube lo hi p)" by auto
  from filt_within [OF Cons.prems(1) ps] obtain qs m' where
    q: "filt ps m = Inr (qs, m')" "keeps lo hi m'" "accepts m' = accepts m" "\<forall>q\<in>set qs. in_cube lo hi q"
    by blast
  from rest q(3) have "\<forall>ps\<in>set frames. accepts m' ps \<and> (\<forall>p\<in>set ps. in_cube lo hi p)" by simp
  from Cons.IH [OF q(2) this] q show ?case by auto
qed simp

end

section \<open>SeqManager3D and SeqManagerVec keep the contract\<close>

definition seq3d_keeps :: "real \<Rightarrow> real \<Rightarrow> seq_manager_3d \<Rightarrow> bool" where
  "seq3d_keeps lo hi m \<longleftrightarrow> length (s3_filters m) = s3_num m * 3 \<and> (\<forall>f\<in>set (s3_filters m). oe_within lo hi f)"

definition seq3d_accepts :: "seq_manager_3d \<Rightarrow> vec3 list \<Rightarrow> bool" where
  "seq3d_accepts m ps \<longleftrightarrow> length ps = s3_num m"

definition seq3d_values :: "nat \<Rightarrow> vec3 list \<Rightarrow> (nat \<times> real) list" where
  "seq3d_values n ps = concat (map (\<lambda>i. [(i * 3, vx (ps ! i)), (i * 3 + 1, vy (ps ! i)),
     (i * 3 + 2, vz (ps ! i))]) [0..<n])"

lemma seq3d_values_within:
  assumes "length ps = n" and "\<forall>p\<in>set ps. in_cube lo hi p"
  shows "\<forall>(i, v)\<in>set (seq3d_values n ps). i < n * 3 \<and> lo \<le> v \<and> v \<le> hi"
  using assms by (fastforce simp: seq3d_values_def in_cube_def all_set_conv_all_nth)

lemma length_seq3d_values [simp]: "length (seq3d_values n ps) = n * 3"
  by (induction n) (simp_all add: seq3d_values_def)

lemma seq3d_filter_values:
  "seq3d_filter ps m =
     (case filter_seq (seq3d_values (s3_num m) ps) (s3_filters m) of
        Inl e \<Rightarrow> Inl e
      | Inr (rs, fs) \<Rightarrow>
          Inr (map (\<lambda>i. v3 (rs ! (i * 3)) (rs ! (i * 3 + 1)) (rs ! (i * 3 + 2))) [0..<s3_num m]
                 @ drop (s3_num m) ps, m\<lparr>s3_filters := fs\<rparr>))"
  unfolding seq3d_filter_def seq3d_values_def ..

lemma seq3d_filter_within:
  assumes "seq3d_keeps lo hi m" and "seq3d_accepts m ps" and "\<forall>p\<in>set ps. in_cube lo hi p"
  shows "\<exists>qs m'. seq3d_filter ps m = Inr (qs, m') \<and> length qs = length ps \<and> seq3d_keeps lo hi m' \<and>
    seq3d_accepts m' = seq3d_accepts m \<and> (\<forall>q\<in>set qs. in_cube lo hi q)"
proof -
  from assms have n: "length ps = s3_num m" "length (s3_filters m) = s3_num m * 3"
    by (simp_all add: seq3d_keeps_def seq3d_accepts_def)
  have "\<forall>(i, v)\<in>set (seq3d_values (s3_num m) ps). i < length (s3_filters m) \<and> lo \<le> v \<and> v \<le> hi"
    using seq3d_values_within [OF n(1) assms(3)] n(2) by simp
  with filter_seq_within [of "s3_filters m" lo hi "seq3d_values (s3_num m) ps"] assms(1)
  obtain rs fs where r: "filter_seq (seq3d_values (s3_num m) ps) (s3_filters m) = Inr (rs, fs)"
    "length rs = s3_num m * 3" "length fs = s3_num m * 3" "\<forall>f\<in>set fs. oe_within lo hi f"
    "\<forall>r\<in>set rs. lo \<le> r \<and> r \<le> hi" by (auto simp: seq3d_keeps_def)
  have "lo \<le> rs ! k \<and> rs ! k \<le> hi" if "k < s3_num m * 3" for k using r that by simp
  then have "\<forall>i < s3_num m. in_cube lo hi (v3 (rs ! (i * 3)) (rs ! (i * 3 + 1)) (rs ! (i * 3 + 2)))"
    by (simp add: in_cube_def)
  with r n show ?thesis
    by (auto simp: seq3d_filter_values seq3d_keeps_def seq3d_accepts_def fun_eq_iff)
qed

interpretation seq3d: keypoint_smoother seq3d_filter seq3d_accepts seq3d_keeps
  by unfold_locales (rule seq3d_filter_within)

text \<open>A velocity smoother is a smoother of one point.\<close>

definition seqvec_points :: "vec3 list \<Rightarrow> seq_manager_vec \<Rightarrow> (vec3 list \<times> seq_manager_vec) res" where
  "seqvec_points ps m = (case seqvec_filter (hd ps) m of Inl e \<Rightarrow> Inl e | Inr (v, m') \<Rightarrow> Inr ([v], m'))"

definition seqvec_keeps :: "real \<Rightarrow> real \<Rightarrow> seq_manager_vec \<Rightarrow> bool" where
  "seqvec_keeps lo hi m \<longleftrightarrow> length (sv_filters m) = 3 \<and> (\<forall>f\<in>set (sv_filters m). oe_within lo hi f)"

lemma seqvec_filter_within:
  assumes "seqvec_keeps lo hi m" and "in_cube lo hi v"
  shows "\<exists>w m'. seqvec_filter v m = Inr (w, m') \<and> seqvec_keeps lo hi m' \<and> in_cube lo hi w"
proof -
  let ?ivs = "[(0, vx v), (1, vy v), (2, vz v)]"
  from assms filter_seq_within [of "sv_filters m" lo hi ?ivs]
  obtain rs fs where r: "filter_seq ?ivs (sv_filters m) = Inr (rs, fs)" "length rs = 3" "length fs = 3"
    "\<forall>f\<in>set fs. oe_within lo hi f" "\<forall>r\<in>set rs. lo \<le> r \<and> r \<le> hi"
    by (auto simp: seqvec_keeps_def in_cube_def simp del: filter_seq.simps)
  then have "in_cube lo hi (v3 (rs ! 0) (rs ! 1) (rs ! 2))" by (simp add: in_cube_def)
  with r show ?thesis by (auto simp: seqvec_filter_def seqvec_keeps_def simp del: filter_seq.simps)
qed

interpretation seqvec: keypoint_smoother seqvec_points "\<lambda>_ ps. length ps = 1" seqvec_keeps
proof
  fix lo hi m ps
  assume a: "seqvec_keeps lo hi m" "length ps = 1" "\<forall>p\<in>set ps. in_cube lo hi p"
  then obtain p where "ps = [p]" by (auto simp: length_Suc_conv)
  with a seqvec_filter_within [of lo hi m p]
  show "\<exists>qs m'. seqvec_points ps m = Inr (qs, m') \<and> length qs = length ps \<and> seqvec_keeps lo hi m' \<and>
      (\<lambda>ps. length ps = 1) = (\<lambda>ps. length ps = 1) \<and> (\<forall>q\<in>set qs. in_cube lo hi q)"
    by (auto simp: seqvec_points_def)
qed

lemma seq3d_reset_keeps: "seq3d_keeps lo hi m \<Longrightarrow> seq3d_keeps lo' hi' (seq3d_reset m)"
  by (auto simp: seq3d_keeps_def seq3d_reset_def intro: oe_reset_within)

section \<open>HandFilters\<close>

text \<open>
  \<open>openxr\<close> is the build option \<^verbatim>\<open>ENABLE_OPENXR_HANDJOINT_FORMAT\<close>: 26 keypoints and ten of
  the palm, else 23 and seven.
\<close>

definition kPalmKeypointIndexSet :: "bool \<Rightarrow> nat set" where
  "kPalmKeypointIndexSet openxr =
     (if openxr then {0, 1, 5, 9, 13, 17, 22, 23, 24, 25} else {0, 1, 5, 9, 13, 17, 22})"

definition kIndexFingerIndexSet :: "nat set" where
  "kIndexFingerIndexSet = {6, 7, 8}"

definition k3DAlgoStdKeypointNum :: "bool \<Rightarrow> nat" where
  "k3DAlgoStdKeypointNum openxr = (if openxr then 26 else 23)"

abbreviation kRootId :: nat where "kRootId \<equiv> 21"

record hand_filters =
  m_seq3d_lindex :: seq_manager_3d
  m_seq3d_rindex :: seq_manager_3d
  m_seq3d_lhand :: seq_manager_3d
  m_seq3d_rhand :: seq_manager_3d
  m_seq3d_palm_lhand :: seq_manager_3d
  m_seq3d_palm_rhand :: seq_manager_3d

text \<open>
  \<open>init\<close>: the parameters of palm, index finger and the others by the type of the glasses. An
  unknown type leaves the zeros of \<open>OneEuroParams\<close>, and the filters' constructor throws.
\<close>

definition hand_filter_params :: "string \<Rightarrow> one_euro_params \<times> one_euro_params \<times> one_euro_params" where
  "hand_filter_params glasses =
     (let d = [2, 2, 1];
          flora = \<lparr>p_freq = 60, p_mincutoff = [0.4, 0.4, 0.2], p_beta = [25, 25, 10], p_dcutoff = d\<rparr>;
          flora_index = \<lparr>p_freq = 60, p_mincutoff = [0.2, 0.2, 0.1], p_beta = [20, 20, 10], p_dcutoff = d\<rparr>;
          ella = \<lparr>p_freq = 60, p_mincutoff = [0.2, 0.2, 0.1], p_beta = [15, 15, 10], p_dcutoff = d\<rparr>;
          none = \<lparr>p_freq = 60, p_mincutoff = [0, 0, 0], p_beta = [0, 0, 0], p_dcutoff = [0, 0, 0]\<rparr>
      in if glasses = ''flora'' then (flora, flora_index, flora)
         else if glasses = ''ella'' then (ella, ella, ella)
         else (none, none, none))"

definition res_bind :: "'a res \<Rightarrow> ('a \<Rightarrow> 'b res) \<Rightarrow> 'b res" where
  "res_bind r f = (case r of Inl e \<Rightarrow> Inl e | Inr x \<Rightarrow> f x)"

lemma res_bind_simps [simp]: "res_bind (Inl e) f = Inl e" "res_bind (Inr x) f = f x"
  by (simp_all add: res_bind_def)

text \<open>The uninitialised times of the six smoothers' filters are \<open>t0 k\<close>.\<close>

definition set_filter_param :: "bool \<Rightarrow> (nat \<Rightarrow> nat \<Rightarrow> real) \<Rightarrow> one_euro_params \<Rightarrow> one_euro_params
    \<Rightarrow> one_euro_params \<Rightarrow> hand_filters res" where
  "set_filter_param openxr t0 palm index other =
     (let k = card kIndexFingerIndexSet; n = card (kPalmKeypointIndexSet openxr)
      in res_bind (seq3d_new (t0 0) k index) (\<lambda>li.
         res_bind (seq3d_new (t0 1) k index) (\<lambda>ri.
         res_bind (seq3d_new (t0 2) 12 other) (\<lambda>lh.
         res_bind (seq3d_new (t0 3) 12 other) (\<lambda>rh.
         res_bind (seq3d_new (t0 4) n palm) (\<lambda>lp.
         res_bind (seq3d_new (t0 5) n palm) (\<lambda>rp.
           Inr \<lparr>m_seq3d_lindex = li, m_seq3d_rindex = ri, m_seq3d_lhand = lh, m_seq3d_rhand = rh,
                m_seq3d_palm_lhand = lp, m_seq3d_palm_rhand = rp\<rparr>)))))))"

definition hand_filters_init :: "bool \<Rightarrow> (nat \<Rightarrow> nat \<Rightarrow> real) \<Rightarrow> string \<Rightarrow> hand_filters res" where
  "hand_filters_init openxr t0 glasses =
     (case hand_filter_params glasses of (palm, index, other) \<Rightarrow> set_filter_param openxr t0 palm index other)"

datatype kp_group = RootPoint | PalmPoint | IndexPoint | OtherPoint

definition kp_group_of :: "bool \<Rightarrow> nat \<Rightarrow> kp_group" where
  "kp_group_of openxr i =
     (if i = kRootId then RootPoint
      else if i \<in> kPalmKeypointIndexSet openxr then PalmPoint
      else if i \<in> kIndexFingerIndexSet then IndexPoint
      else OtherPoint)"

text \<open>The points of a group relative to the root, in the order of their indices.\<close>

definition gather :: "bool \<Rightarrow> kp_group \<Rightarrow> vec3 list \<Rightarrow> vec3 list" where
  "gather openxr c ps =
     map (\<lambda>i. sub3 (ps ! i) (ps ! kRootId)) (filter (\<lambda>i. kp_group_of openxr i = c) [0..<length ps])"

text \<open>The second loop, with its counters \<open>p\<close> (others), \<open>q\<close> (palm) and \<open>k\<close> (index finger).\<close>

fun scatter :: "kp_group list \<Rightarrow> vec3 \<Rightarrow> vec3 list \<Rightarrow> vec3 list \<Rightarrow> vec3 list \<Rightarrow> nat \<Rightarrow> nat \<Rightarrow> nat \<Rightarrow> vec3 list" where
  "scatter [] r rel palm index p q k = []"
| "scatter (RootPoint # cs) r rel palm index p q k = r # scatter cs r rel palm index p q k"
| "scatter (PalmPoint # cs) r rel palm index p q k =
     add3 r (palm ! q) # scatter cs r rel palm index p (q + 1) k"
| "scatter (IndexPoint # cs) r rel palm index p q k =
     add3 r (index ! k) # scatter cs r rel palm index p q (k + 1)"
| "scatter (OtherPoint # cs) r rel palm index p q k =
     add3 r (rel ! p) # scatter cs r rel palm index (p + 1) q k"

text \<open>\<open>process\<close>; a hand with no point 21 is outside the vector.\<close>

definition hand_filters_process :: "bool \<Rightarrow> int \<Rightarrow> vec3 list \<Rightarrow> hand_filters
    \<Rightarrow> (vec3 list \<times> hand_filters) res option" where
  "hand_filters_process openxr hand_side point3d h =
     (if length point3d \<le> kRootId then None
      else
        (let index0 = gather openxr IndexPoint point3d; rel0 = gather openxr OtherPoint point3d;
             palm0 = gather openxr PalmPoint point3d;
             groups = map (kp_group_of openxr) [0..<length point3d];
             join = (\<lambda>rel palm index. scatter groups (point3d ! kRootId) rel palm index 0 0 0)
         in if hand_side = 0 then
              Some (res_bind (seq3d_filter index0 (m_seq3d_lindex h)) (\<lambda>(index, mi).
                    res_bind (seq3d_filter rel0 (m_seq3d_lhand h)) (\<lambda>(rel, mr).
                    res_bind (seq3d_filter palm0 (m_seq3d_palm_lhand h)) (\<lambda>(palm, mp).
                      Inr (join rel palm index, h\<lparr>m_seq3d_lindex := mi, m_seq3d_lhand := mr,
                             m_seq3d_palm_lhand := mp\<rparr>)))))
            else
              Some (res_bind (seq3d_filter index0 (m_seq3d_rindex h)) (\<lambda>(index, mi).
                    res_bind (seq3d_filter rel0 (m_seq3d_rhand h)) (\<lambda>(rel, mr).
                    res_bind (seq3d_filter palm0 (m_seq3d_palm_rhand h)) (\<lambda>(palm, mp).
                      Inr (join rel palm index, h\<lparr>m_seq3d_rindex := mi, m_seq3d_rhand := mr,
                             m_seq3d_palm_rhand := mp\<rparr>)))))))"

definition hand_filters_reset :: "int \<Rightarrow> hand_filters \<Rightarrow> hand_filters" where
  "hand_filters_reset hand_side h =
     (if hand_side = 0 then
        h\<lparr>m_seq3d_lhand := seq3d_reset (m_seq3d_lhand h),
          m_seq3d_palm_lhand := seq3d_reset (m_seq3d_palm_lhand h),
          m_seq3d_lindex := seq3d_reset (m_seq3d_lindex h)\<rparr>
      else
        h\<lparr>m_seq3d_rhand := seq3d_reset (m_seq3d_rhand h),
          m_seq3d_palm_rhand := seq3d_reset (m_seq3d_palm_rhand h),
          m_seq3d_rindex := seq3d_reset (m_seq3d_rindex h)\<rparr>)"

section \<open>The hand stays within the hands seen\<close>

definition hand_filters_keep :: "bool \<Rightarrow> real \<Rightarrow> real \<Rightarrow> hand_filters \<Rightarrow> bool" where
  "hand_filters_keep openxr lo hi h \<longleftrightarrow>
     (\<forall>(m, n)\<in>{(m_seq3d_lindex h, 3), (m_seq3d_rindex h, 3), (m_seq3d_lhand h, 12),
        (m_seq3d_rhand h, 12), (m_seq3d_palm_lhand h, card (kPalmKeypointIndexSet openxr)),
        (m_seq3d_palm_rhand h, card (kPalmKeypointIndexSet openxr))}.
        seq3d_keeps lo hi m \<and> s3_num m = n)"

lemma group_lengths:
  assumes "length ps = k3DAlgoStdKeypointNum openxr"
  shows "length (gather openxr IndexPoint ps) = 3" and "length (gather openxr OtherPoint ps) = 12"
    and "length (gather openxr PalmPoint ps) = card (kPalmKeypointIndexSet openxr)"
  using assms
  by (cases openxr; simp add: gather_def k3DAlgoStdKeypointNum_def kp_group_of_def
      kPalmKeypointIndexSet_def kIndexFingerIndexSet_def upt_rec)+

lemma scatter_length [simp]: "length (scatter cs r rel palm index p q k) = length cs"
  by (induction cs r rel palm index p q k rule: scatter.induct) simp_all

lemma scatter_root:
  "i < length cs \<Longrightarrow> cs ! i = RootPoint \<Longrightarrow> scatter cs r rel palm index p q k ! i = r"
  by (induction cs r rel palm index p q k arbitrary: i rule: scatter.induct)
    (auto simp: nth_Cons split: nat.splits)

lemma sub3_add3 [simp]: "sub3 (add3 r x) r = x"
  by (simp add: sub3_def add3_def)

lemma scatter_within:
  assumes "\<forall>x\<in>set rel \<union> set palm \<union> set index. in_cube lo hi x" and "lo \<le> 0" and "0 \<le> hi"
    and "p + count_list cs OtherPoint \<le> length rel" and "q + count_list cs PalmPoint \<le> length palm"
    and "k + count_list cs IndexPoint \<le> length index"
  shows "\<forall>x\<in>set (scatter cs r rel palm index p q k). in_cube lo hi (sub3 x r)"
  using assms
proof (induction cs r rel palm index p q k rule: scatter.induct)
  case (2 cs r rel palm index p q k)
  then show ?case by (simp add: in_cube_def sub3_def)
qed auto

lemma count_list_map: "count_list (map f xs) c = length (filter (\<lambda>x. f x = c) xs)"
  by (induction xs) auto

lemma group_counts:
  "count_list (map (kp_group_of openxr) [0..<length ps]) c = length (gather openxr c ps)"
  by (simp add: gather_def count_list_map)

lemma gather_within:
  assumes "\<forall>x\<in>set ps. in_cube lo hi (sub3 x (ps ! kRootId))"
  shows "\<forall>x\<in>set (gather openxr c ps). in_cube lo hi x"
  using assms by (auto simp: gather_def)

definition same_hand :: "real \<Rightarrow> real \<Rightarrow> vec3 list \<Rightarrow> vec3 list \<Rightarrow> bool" where
  "same_hand lo hi ps qs \<longleftrightarrow> length qs = length ps \<and> qs ! kRootId = ps ! kRootId \<and>
     (\<forall>q\<in>set qs. in_cube lo hi (sub3 q (ps ! kRootId)))"

lemma join_same_hand:
  assumes "length ps = k3DAlgoStdKeypointNum openxr" and "lo \<le> 0" "0 \<le> hi"
    and "length rel = 12" "length palm = card (kPalmKeypointIndexSet openxr)" "length index = 3"
    and "\<forall>x\<in>set rel. in_cube lo hi x" "\<forall>x\<in>set palm. in_cube lo hi x" "\<forall>x\<in>set index. in_cube lo hi x"
  shows "same_hand lo hi ps
    (scatter (map (kp_group_of openxr) [0..<length ps]) (ps ! kRootId) rel palm index 0 0 0)"
proof -
  have "kRootId < length ps" using assms(1) by (simp add: k3DAlgoStdKeypointNum_def)
  then have "scatter (map (kp_group_of openxr) [0..<length ps]) (ps ! kRootId) rel palm index 0 0 0 ! kRootId
      = ps ! kRootId"
    by (intro scatter_root) (simp_all add: kp_group_of_def)
  moreover have "\<forall>x\<in>set (scatter (map (kp_group_of openxr) [0..<length ps]) (ps ! kRootId) rel palm index 0 0 0).
      in_cube lo hi (sub3 x (ps ! kRootId))"
    by (intro scatter_within) (use assms in \<open>auto simp: group_counts [of openxr ps, unfolded assms(1)] group_lengths [OF assms(1)]\<close>)
  ultimately show ?thesis by (simp add: same_hand_def)
qed

lemma smoother_step:
  assumes "seq3d_keeps lo hi m" "s3_num m = n" "length xs = n" "\<forall>x\<in>set xs. in_cube lo hi x"
  shows "\<exists>ys m'. seq3d_filter xs m = Inr (ys, m') \<and> length ys = n \<and> seq3d_keeps lo hi m' \<and>
    s3_num m' = n \<and> (\<forall>y\<in>set ys. in_cube lo hi y)"
proof -
  from assms have acc: "seq3d_accepts m xs" by (simp add: seq3d_accepts_def)
  from seq3d.filt_within [OF assms(1) acc assms(4)] obtain ys m' where
    r: "seq3d_filter xs m = Inr (ys, m')" "length ys = length xs" "seq3d_keeps lo hi m'"
    "seq3d_accepts m' = seq3d_accepts m" "\<forall>y\<in>set ys. in_cube lo hi y" by blast
  from r(4) acc have "s3_num m' = length xs" by (metis seq3d_accepts_def)
  with r assms show ?thesis by simp
qed

lemma hand_filters_process_within:
  assumes "hand_filters_keep openxr lo hi h" and "length ps = k3DAlgoStdKeypointNum openxr"
    and "lo \<le> 0" "0 \<le> hi" and "\<forall>x\<in>set ps. in_cube lo hi (sub3 x (ps ! kRootId))"
  shows "\<exists>qs h'. hand_filters_process openxr side ps h = Some (Inr (qs, h')) \<and>
    hand_filters_keep openxr lo hi h' \<and> same_hand lo hi ps qs"
proof -
  note g = group_lengths [OF assms(2)] and w = gather_within [OF assms(5)]
  have n: "\<not> length ps \<le> kRootId" using assms(2) by (simp add: k3DAlgoStdKeypointNum_def)
  note join = join_same_hand [OF assms(2-4)]
  show ?thesis
  proof (cases "side = 0")
    case True
    have k: "seq3d_keeps lo hi (m_seq3d_lindex h)" "s3_num (m_seq3d_lindex h) = 3"
      "seq3d_keeps lo hi (m_seq3d_lhand h)" "s3_num (m_seq3d_lhand h) = 12"
      "seq3d_keeps lo hi (m_seq3d_palm_lhand h)"
      "s3_num (m_seq3d_palm_lhand h) = card (kPalmKeypointIndexSet openxr)"
      using assms(1) by (auto simp: hand_filters_keep_def)
    from smoother_step [OF k(1,2) g(1) w] smoother_step [OF k(3,4) g(2) w] smoother_step [OF k(5,6) g(3) w]
    show ?thesis
      using True n join assms(1) by (fastforce simp: hand_filters_process_def Let_def hand_filters_keep_def)
  next
    case False
    have k: "seq3d_keeps lo hi (m_seq3d_rindex h)" "s3_num (m_seq3d_rindex h) = 3"
      "seq3d_keeps lo hi (m_seq3d_rhand h)" "s3_num (m_seq3d_rhand h) = 12"
      "seq3d_keeps lo hi (m_seq3d_palm_rhand h)"
      "s3_num (m_seq3d_palm_rhand h) = card (kPalmKeypointIndexSet openxr)"
      using assms(1) by (auto simp: hand_filters_keep_def)
    from smoother_step [OF k(1,2) g(1) w] smoother_step [OF k(3,4) g(2) w] smoother_step [OF k(5,6) g(3) w]
    show ?thesis
      using False n join assms(1) by (fastforce simp: hand_filters_process_def Let_def hand_filters_keep_def)
  qed
qed

lemma hand_filters_reset_keep:
  "hand_filters_keep openxr lo hi h \<Longrightarrow> hand_filters_keep openxr lo hi (hand_filters_reset side h)"
  by (auto simp: hand_filters_keep_def hand_filters_reset_def seq3d_reset_def
      intro: seq3d_reset_keeps [unfolded seq3d_reset_def])

lemma good_params_keep:
  assumes "0 < p_freq ps" and "\<forall>i<3. 0 < p_mincutoff ps ! i \<and> 0 \<le> p_beta ps ! i \<and> 0 < p_dcutoff ps ! i"
  shows "\<exists>m. seq3d_new t0 n ps = Inr m \<and> seq3d_keeps lo hi m \<and> s3_num m = n"
proof -
  have "\<forall>(t, fr, mc, b, dc)\<in>set (map (axis_params t0 ps) [0..<n * 3]). 0 < fr \<and> 0 < mc \<and> 0 \<le> b \<and> 0 < dc"
    using assms by (auto simp: axis_params_def)
  from make_filters_within [OF this, of lo hi] show ?thesis
    by (auto simp: seq3d_new_def seq3d_keeps_def)
qed

lemma card_index_set [simp]: "card kIndexFingerIndexSet = 3"
  by (simp add: kIndexFingerIndexSet_def)

lemma hand_filters_init_keep:
  assumes "glasses = ''flora'' \<or> glasses = ''ella''"
  shows "\<exists>h. hand_filters_init openxr t0 glasses = Inr h \<and> hand_filters_keep openxr lo hi h"
proof -
  obtain pp px po where params: "hand_filter_params glasses = (pp, px, po)"
    by (cases "hand_filter_params glasses") auto
  with assms have ok: "0 < p_freq q \<and>
      (\<forall>i<3. 0 < p_mincutoff q ! i \<and> 0 \<le> p_beta q ! i \<and> 0 < p_dcutoff q ! i)" if "q \<in> {pp, px, po}" for q
    using that by (auto simp: hand_filter_params_def Let_def less_Suc_eq numeral_3_eq_3)
  have new: "\<exists>m. seq3d_new t n q = Inr m \<and> seq3d_keeps lo hi m \<and> s3_num m = n" if "q \<in> {pp, px, po}" for t n q
    using good_params_keep ok [OF that] by blast
  from new [of px "t0 0" 3] new [of px "t0 1" 3] new [of po "t0 2" 12] new [of po "t0 3" 12]
    new [of pp "t0 4" "card (kPalmKeypointIndexSet openxr)"]
    new [of pp "t0 5" "card (kPalmKeypointIndexSet openxr)"]
  show ?thesis
    by (auto simp: hand_filters_init_def params set_filter_param_def Let_def hand_filters_keep_def)
qed

datatype hand_filters_op = ProcessHand int "vec3 list" | ResetHand int

fun hand_filters_run :: "bool \<Rightarrow> hand_filters_op list \<Rightarrow> hand_filters
    \<Rightarrow> (vec3 list list \<times> hand_filters) res option" where
  "hand_filters_run openxr [] h = Some (Inr ([], h))"
| "hand_filters_run openxr (ResetHand side # ops) h = hand_filters_run openxr ops (hand_filters_reset side h)"
| "hand_filters_run openxr (ProcessHand side ps # ops) h =
     (case hand_filters_process openxr side ps h of
        None \<Rightarrow> None
      | Some (Inl e) \<Rightarrow> Some (Inl e)
      | Some (Inr (qs, h')) \<Rightarrow>
          map_option (\<lambda>r. res_bind r (\<lambda>(out, h''). Inr (qs # out, h''))) (hand_filters_run openxr ops h'))"

definition hands_of :: "hand_filters_op list \<Rightarrow> vec3 list list" where
  "hands_of ops = concat (map (\<lambda>a. case a of ProcessHand side ps \<Rightarrow> [ps] | ResetHand side \<Rightarrow> []) ops)"

lemma hands_of_simps [simp]:
  "hands_of [] = []" "hands_of (ResetHand side # ops) = hands_of ops"
  "hands_of (ProcessHand side ps # ops) = ps # hands_of ops"
  by (simp_all add: hands_of_def)

lemma hand_filters_run_within:
  assumes "hand_filters_keep openxr lo hi h" and "lo \<le> 0" "0 \<le> hi"
    and "\<forall>ps\<in>set (hands_of ops). length ps = k3DAlgoStdKeypointNum openxr \<and>
      (\<forall>x\<in>set ps. in_cube lo hi (sub3 x (ps ! kRootId)))"
  shows "\<exists>out h'. hand_filters_run openxr ops h = Some (Inr (out, h')) \<and>
    list_all2 (same_hand lo hi) (hands_of ops) out"
  using assms
proof (induction openxr ops h rule: hand_filters_run.induct)
  case (3 openxr side ps ops h)
  from 3(2-5) hand_filters_process_within [of openxr lo hi h ps side] obtain qs h' where
    q: "hand_filters_process openxr side ps h = Some (Inr (qs, h'))" "hand_filters_keep openxr lo hi h'"
    "same_hand lo hi ps qs" by auto
  from 3(1) [OF q(1) refl refl q(2)] 3(3-5) obtain out h'' where
    "hand_filters_run openxr ops h' = Some (Inr (out, h''))" "list_all2 (same_hand lo hi) (hands_of ops) out"
    by auto
  with q show ?case by auto
qed (simp_all add: hand_filters_reset_keep)

text \<open>
  The filters built for known glasses never throw, over any interleaving of hands of both
  sides and resets; every smoothed hand has the keypoints of the hand given, the same root,
  and lies, relative to the root, in every cube around it that holds the hands given so far.
\<close>

lemma hand_filters_bounded:
  assumes "glasses = ''flora'' \<or> glasses = ''ella''" and "lo \<le> 0" and "0 \<le> hi"
    and "\<forall>ps\<in>set (hands_of ops). length ps = k3DAlgoStdKeypointNum openxr \<and>
      (\<forall>x\<in>set ps. in_cube lo hi (sub3 x (ps ! kRootId)))"
  shows "\<exists>h out h'. hand_filters_init openxr t0 glasses = Inr h \<and>
    hand_filters_run openxr ops h = Some (Inr (out, h')) \<and>
    list_all2 (same_hand lo hi) (hands_of ops) out"
  using hand_filters_init_keep [OF assms(1)] hand_filters_run_within [OF _ assms(2-4)] by blast

text \<open>
  For any other glasses the filters cannot be built: the constructor of the first One Euro
  filter throws on the zero cutoff, whatever is logged.
\<close>

lemma hand_filters_unknown_glasses:
  assumes "glasses \<noteq> ''flora''" and "glasses \<noteq> ''ella''"
  shows "hand_filters_init openxr t0 glasses = Inl (RangeError ''mincutoff should be >0'')"
  using assms
  by (simp add: hand_filters_init_def hand_filter_params_def Let_def set_filter_param_def seq3d_new_def
      axis_params_def oe_new_def upt_rec)

end
