(* ===== verification/FrameSmoothing.thy ===== *)
theory FrameSmoothing
  imports Smoothing
begin

text \<open>
  The two calculators that smooth the 2D results: \<open>DetectBoxSmoothingCalculator\<close>
  (\<^verbatim>\<open>aisdk/algorithm/calculator/detect_box_smoothing_calculator.cpp\<close>) on the detected boxes, and
  \<open>LandmarkFilterCalculator\<close> (\<^verbatim>\<open>landmark_filter_calculator.cpp\<close>) on the keypoints, with the
  network wrapper \<open>LandmarkFilter\<close> (\<^verbatim>\<open>aisdk/algorithm/model/landmark_filter.cpp\<close>). The network
  itself (\<open>RunNet\<close>) is an argument: from its input tensor to the list of its output tensors.
\<close>

section \<open>DetectBoxSmoothingCalculator\<close>

record box_smoothing =
  m_seq_lcam_lhand :: seq_manager
  m_seq_lcam_rhand :: seq_manager
  m_seq_rcam_lhand :: seq_manager
  m_seq_rcam_rhand :: seq_manager

definition box_smoothing_open :: "(nat \<Rightarrow> nat \<Rightarrow> real) \<Rightarrow> box_smoothing res" where
  "box_smoothing_open t0 =
     res_bind (seq_manager_new (t0 0)) (\<lambda>a.
     res_bind (seq_manager_new (t0 1)) (\<lambda>b.
     res_bind (seq_manager_new (t0 2)) (\<lambda>c.
     res_bind (seq_manager_new (t0 3)) (\<lambda>d.
       Inr \<lparr>m_seq_lcam_lhand = a, m_seq_lcam_rhand = b, m_seq_rcam_lhand = c, m_seq_rcam_rhand = d\<rparr>))))"

text \<open>The resets at the start of a frame, for each hand that the last frame did not have.\<close>

definition box_smoothing_resets :: "hands_data \<Rightarrow> box_smoothing \<Rightarrow> box_smoothing" where
  "box_smoothing_resets pre s =
     (let s1 = (if \<not> lhand_valid pre then
                  s\<lparr>m_seq_lcam_lhand := seq_reset (m_seq_lcam_lhand s),
                    m_seq_rcam_lhand := seq_reset (m_seq_rcam_lhand s)\<rparr>
                else s)
      in if \<not> rhand_valid pre then
           s1\<lparr>m_seq_lcam_rhand := seq_reset (m_seq_lcam_rhand s1),
              m_seq_rcam_rhand := seq_reset (m_seq_rcam_rhand s1)\<rparr>
         else s1)"

definition smooth_if :: "bool \<Rightarrow> detect_rect \<Rightarrow> seq_manager \<Rightarrow> (detect_rect \<times> seq_manager) res" where
  "smooth_if valid r m = (if valid then getFilterBoxData r m else Inr (r, m))"

definition box_smoothing_process :: "hands_data \<Rightarrow> det_output \<Rightarrow> box_smoothing
    \<Rightarrow> (det_output \<times> box_smoothing) res" where
  "box_smoothing_process pre d s0 =
     (let s = box_smoothing_resets pre s0
      in res_bind (smooth_if (lhand_lcam_valid d) (lhand_lcam_rect d) (m_seq_lcam_lhand s)) (\<lambda>(ll, a).
         res_bind (smooth_if (lhand_rcam_valid d) (lhand_rcam_rect d) (m_seq_rcam_lhand s)) (\<lambda>(lr, b).
         res_bind (smooth_if (rhand_lcam_valid d) (rhand_lcam_rect d) (m_seq_lcam_rhand s)) (\<lambda>(rl, c).
         res_bind (smooth_if (rhand_rcam_valid d) (rhand_rcam_rect d) (m_seq_rcam_rhand s)) (\<lambda>(rr, e).
           Inr (d\<lparr>lhand_lcam_rect := ll, lhand_rcam_rect := lr, rhand_lcam_rect := rl, rhand_rcam_rect := rr\<rparr>,
                s\<lparr>m_seq_lcam_lhand := a, m_seq_rcam_lhand := b, m_seq_lcam_rhand := c,
                  m_seq_rcam_rhand := e\<rparr>))))))"

subsection \<open>The reset of the box filters\<close>

text \<open>What the next frames can depend on: the filters of the four managers.\<close>

definition box_filters :: "box_smoothing \<Rightarrow> one_euro list list" where
  "box_filters s = [sm_filters (m_seq_lcam_lhand s), sm_filters (m_seq_lcam_rhand s),
     sm_filters (m_seq_rcam_lhand s), sm_filters (m_seq_rcam_rhand s)]"

definition seen :: "(det_output \<times> box_smoothing) res \<Rightarrow> (det_output \<times> one_euro list list) res" where
  "seen r = res_bind r (\<lambda>(d, s). Inr (d, box_filters s))"

definition seen1 :: "(detect_rect \<times> seq_manager) res \<Rightarrow> (detect_rect \<times> one_euro list) res" where
  "seen1 r = res_bind r (\<lambda>(b, m). Inr (b, sm_filters m))"

lemma resets_filters: "box_filters (box_smoothing_resets pre s) = box_filters s"
  by (simp add: box_filters_def box_smoothing_resets_def Let_def seq_reset_def)

lemma smooth_if_seen:
  assumes "sm_filters m = sm_filters m'"
  shows "seen1 (smooth_if v r m) = seen1 (smooth_if v r m')"
  using assms
  by (auto simp: seen1_def smooth_if_def getFilterBoxData_def Let_def res_bind_def split: sum.splits)

lemma seen_process:
  "seen (box_smoothing_process pre d s) =
     res_bind (seen1 (smooth_if (lhand_lcam_valid d) (lhand_lcam_rect d)
         (m_seq_lcam_lhand (box_smoothing_resets pre s)))) (\<lambda>(ll, a).
     res_bind (seen1 (smooth_if (lhand_rcam_valid d) (lhand_rcam_rect d)
         (m_seq_rcam_lhand (box_smoothing_resets pre s)))) (\<lambda>(lr, b).
     res_bind (seen1 (smooth_if (rhand_lcam_valid d) (rhand_lcam_rect d)
         (m_seq_lcam_rhand (box_smoothing_resets pre s)))) (\<lambda>(rl, c).
     res_bind (seen1 (smooth_if (rhand_rcam_valid d) (rhand_rcam_rect d)
         (m_seq_rcam_rhand (box_smoothing_resets pre s)))) (\<lambda>(rr, e).
       Inr (d\<lparr>lhand_lcam_rect := ll, lhand_rcam_rect := lr, rhand_lcam_rect := rl, rhand_rcam_rect := rr\<rparr>,
            [a, c, b, e])))))"
  by (auto simp: seen_def seen1_def box_smoothing_process_def Let_def res_bind_def box_filters_def
      split: sum.splits)

text \<open>
  The resets have no effect. Whether the hands were valid in the last frame changes
  neither the smoothed boxes nor the filters of the following frames: \<open>SeqManager::reset\<close> only
  clears a history that \<open>getFilterBoxData\<close> never reads, and a hand that reappears is dragged
  from the place where it was lost.
\<close>

lemma box_reset_has_no_effect:
  "seen (box_smoothing_process pre d s) = seen (box_smoothing_process pre' d s)"
proof -
  have f: "sm_filters (m_seq_lcam_lhand (box_smoothing_resets q s)) = sm_filters (m_seq_lcam_lhand s)"
    "sm_filters (m_seq_lcam_rhand (box_smoothing_resets q s)) = sm_filters (m_seq_lcam_rhand s)"
    "sm_filters (m_seq_rcam_lhand (box_smoothing_resets q s)) = sm_filters (m_seq_rcam_lhand s)"
    "sm_filters (m_seq_rcam_rhand (box_smoothing_resets q s)) = sm_filters (m_seq_rcam_rhand s)" for q
    using resets_filters [of q s] by (simp_all add: box_filters_def)
  show ?thesis
    unfolding seen_process
    using smooth_if_seen [of "m_seq_lcam_lhand (box_smoothing_resets pre s)" "m_seq_lcam_lhand (box_smoothing_resets pre' s)"]
      smooth_if_seen [of "m_seq_rcam_lhand (box_smoothing_resets pre s)" "m_seq_rcam_lhand (box_smoothing_resets pre' s)"]
      smooth_if_seen [of "m_seq_lcam_rhand (box_smoothing_resets pre s)" "m_seq_lcam_rhand (box_smoothing_resets pre' s)"]
      smooth_if_seen [of "m_seq_rcam_rhand (box_smoothing_resets pre s)" "m_seq_rcam_rhand (box_smoothing_resets pre' s)"]
    by (simp add: f)
qed

subsection \<open>Bounds\<close>

definition sm_keeps :: "real \<Rightarrow> real \<Rightarrow> seq_manager \<Rightarrow> bool" where
  "sm_keeps lo hi m \<longleftrightarrow> length (sm_filters m) = 46 \<and> (\<forall>f\<in>set (sm_filters m). oe_within lo hi f)"

definition box_within :: "int \<Rightarrow> int \<Rightarrow> detect_rect \<Rightarrow> bool" where
  "box_within lo hi r \<longleftrightarrow>
     lo \<le> rx r \<and> rx r \<le> hi \<and> lo \<le> ry r \<and> ry r \<le> hi \<and>
     lo \<le> rx r + rw r \<and> rx r + rw r \<le> hi \<and> lo \<le> ry r + rh r \<and> ry r + rh r \<le> hi"

lemma c_trunc_within: "of_int lo \<le> x \<Longrightarrow> x \<le> of_int hi \<Longrightarrow> lo \<le> c_trunc x \<and> c_trunc x \<le> hi"
  using c_trunc_mono [of "of_int lo" x] c_trunc_mono [of x "of_int hi"] by simp

lemma getFilterBoxData_within:
  assumes "sm_keeps (of_int lo) (of_int hi) m" and "box_within lo hi r"
  shows "\<exists>r' m'. getFilterBoxData r m = Inr (r', m') \<and> sm_keeps (of_int lo) (of_int hi) m' \<and> box_within lo hi r'"
proof -
  let ?c = "\<lambda>v. real_of_int (c_trunc v)"
  let ?ivs = "[(42, ?c (rx r)), (43, ?c (ry r)), (44, ?c (rx r + rw r)), (45, ?c (ry r + rh r))]"
  have "\<forall>(i, v)\<in>set ?ivs. i < length (sm_filters m) \<and> of_int lo \<le> v \<and> v \<le> of_int hi"
    using assms c_trunc_within [of lo _ hi] by (auto simp: sm_keeps_def box_within_def)
  with filter_seq_within [of "sm_filters m" "of_int lo" "of_int hi" ?ivs] assms(1)
  obtain rs fs where r: "filter_seq ?ivs (sm_filters m) = Inr (rs, fs)" "length rs = 4"
    "length fs = 46" "\<forall>f\<in>set fs. oe_within (of_int lo) (of_int hi) f"
    "\<forall>v\<in>set rs. of_int lo \<le> v \<and> v \<le> of_int hi"
    by (auto simp: sm_keeps_def simp del: filter_seq.simps)
  have "lo \<le> c_trunc (rs ! k) \<and> c_trunc (rs ! k) \<le> hi" if "k < 4" for k
  proof -
    from that r(2) have "rs ! k \<in> set rs" by simp
    with r(5) c_trunc_within [of lo "rs ! k" hi] show ?thesis by blast
  qed
  from this [of 0] this [of 1] this [of 2] this [of 3] r show ?thesis
    by (auto simp: getFilterBoxData_def Let_def sm_keeps_def box_within_def simp del: filter_seq.simps)
qed

lemma smooth_if_within:
  assumes "sm_keeps (of_int lo) (of_int hi) m" and "v \<longrightarrow> box_within lo hi r"
  shows "\<exists>r' m'. smooth_if v r m = Inr (r', m') \<and> sm_keeps (of_int lo) (of_int hi) m' \<and>
    (v \<longrightarrow> box_within lo hi r')"
  using assms getFilterBoxData_within by (cases v) (auto simp: smooth_if_def)

definition box_smoothing_keeps :: "int \<Rightarrow> int \<Rightarrow> box_smoothing \<Rightarrow> bool" where
  "box_smoothing_keeps lo hi s \<longleftrightarrow>
     sm_keeps (of_int lo) (of_int hi) (m_seq_lcam_lhand s) \<and> sm_keeps (of_int lo) (of_int hi) (m_seq_lcam_rhand s) \<and>
     sm_keeps (of_int lo) (of_int hi) (m_seq_rcam_lhand s) \<and> sm_keeps (of_int lo) (of_int hi) (m_seq_rcam_rhand s)"

text \<open>The valid boxes of a frame lie in the range, and the flags are those given.\<close>

definition det_within :: "int \<Rightarrow> int \<Rightarrow> det_output \<Rightarrow> bool" where
  "det_within lo hi d \<longleftrightarrow>
     (lhand_lcam_valid d \<longrightarrow> box_within lo hi (lhand_lcam_rect d)) \<and>
     (lhand_rcam_valid d \<longrightarrow> box_within lo hi (lhand_rcam_rect d)) \<and>
     (rhand_lcam_valid d \<longrightarrow> box_within lo hi (rhand_lcam_rect d)) \<and>
     (rhand_rcam_valid d \<longrightarrow> box_within lo hi (rhand_rcam_rect d))"

definition same_flags :: "det_output \<Rightarrow> det_output \<Rightarrow> bool" where
  "same_flags d e \<longleftrightarrow> lhand_lcam_valid e = lhand_lcam_valid d \<and> lhand_rcam_valid e = lhand_rcam_valid d \<and>
     rhand_lcam_valid e = rhand_lcam_valid d \<and> rhand_rcam_valid e = rhand_rcam_valid d"

lemma sm_keeps_reset [simp]: "sm_keeps lo hi (seq_reset m) = sm_keeps lo hi m"
  by (simp add: sm_keeps_def seq_reset_def)

lemma box_smoothing_process_within:
  assumes "box_smoothing_keeps lo hi s" and "det_within lo hi d"
  shows "\<exists>d' s'. box_smoothing_process pre d s = Inr (d', s') \<and> box_smoothing_keeps lo hi s' \<and>
    det_within lo hi d' \<and> same_flags d d'"
proof -
  let ?s = "box_smoothing_resets pre s"
  have k: "box_smoothing_keeps lo hi ?s"
    using assms(1) by (simp add: box_smoothing_keeps_def box_smoothing_resets_def Let_def)
  note w = smooth_if_within [of lo hi]
  obtain ll a where l: "smooth_if (lhand_lcam_valid d) (lhand_lcam_rect d) (m_seq_lcam_lhand ?s) = Inr (ll, a)"
    "sm_keeps (of_int lo) (of_int hi) a" "lhand_lcam_valid d \<longrightarrow> box_within lo hi ll"
    using w [of "m_seq_lcam_lhand ?s"] k assms(2) unfolding box_smoothing_keeps_def det_within_def by blast
  obtain lr b where lr: "smooth_if (lhand_rcam_valid d) (lhand_rcam_rect d) (m_seq_rcam_lhand ?s) = Inr (lr, b)"
    "sm_keeps (of_int lo) (of_int hi) b" "lhand_rcam_valid d \<longrightarrow> box_within lo hi lr"
    using w [of "m_seq_rcam_lhand ?s"] k assms(2) unfolding box_smoothing_keeps_def det_within_def by blast
  obtain rl c where rl: "smooth_if (rhand_lcam_valid d) (rhand_lcam_rect d) (m_seq_lcam_rhand ?s) = Inr (rl, c)"
    "sm_keeps (of_int lo) (of_int hi) c" "rhand_lcam_valid d \<longrightarrow> box_within lo hi rl"
    using w [of "m_seq_lcam_rhand ?s"] k assms(2) unfolding box_smoothing_keeps_def det_within_def by blast
  obtain rr e where rr: "smooth_if (rhand_rcam_valid d) (rhand_rcam_rect d) (m_seq_rcam_rhand ?s) = Inr (rr, e)"
    "sm_keeps (of_int lo) (of_int hi) e" "rhand_rcam_valid d \<longrightarrow> box_within lo hi rr"
    using w [of "m_seq_rcam_rhand ?s"] k assms(2) unfolding box_smoothing_keeps_def det_within_def by blast
  show ?thesis
    using l(2,3) lr(2,3) rl(2,3) rr(2,3)
    by (simp add: box_smoothing_process_def Let_def l(1) lr(1) rl(1) rr(1) box_smoothing_keeps_def
        det_within_def same_flags_def)
qed

fun box_smoothing_run :: "(hands_data \<times> det_output) list \<Rightarrow> box_smoothing
    \<Rightarrow> (det_output list \<times> box_smoothing) res" where
  "box_smoothing_run [] s = Inr ([], s)"
| "box_smoothing_run ((pre, d) # fs) s =
     res_bind (box_smoothing_process pre d s) (\<lambda>(d', s').
     res_bind (box_smoothing_run fs s') (\<lambda>(ds, s''). Inr (d' # ds, s'')))"

lemma box_smoothing_run_within:
  assumes "box_smoothing_keeps lo hi s" and "\<forall>(pre, d)\<in>set fs. det_within lo hi d"
  shows "\<exists>ds s'. box_smoothing_run fs s = Inr (ds, s') \<and>
    list_all2 (\<lambda>(pre, d) e. det_within lo hi e \<and> same_flags d e) fs ds"
  using assms
proof (induction fs arbitrary: s)
  case (Cons f fs)
  obtain pre d where f: "f = (pre, d)" by (cases f)
  with Cons.prems box_smoothing_process_within [of lo hi s d pre] obtain d' s' where
    p: "box_smoothing_process pre d s = Inr (d', s')" "box_smoothing_keeps lo hi s'"
    "det_within lo hi d'" "same_flags d d'" by auto
  have "\<forall>(pre, d)\<in>set fs. det_within lo hi d" using Cons.prems(2) by simp
  from Cons.IH [OF p(2) this] p f show ?case by auto
qed simp

lemma box_smoothing_open_keeps: "\<exists>s. box_smoothing_open t0 = Inr s \<and> box_smoothing_keeps lo hi s"
proof -
  have "\<exists>m. seq_manager_new t = Inr m \<and> sm_keeps lo' hi' m" for t lo' hi'
  proof -
    have "\<forall>(t, fr, mc, b, dc)\<in>set (map (\<lambda>i. (t i, 30 :: real, 4 :: real, 0.005 :: real, 5 :: real)) [0..<46]). 0 < fr \<and> 0 < mc \<and> 0 \<le> b \<and> 0 < dc"
      by auto
    from make_filters_within [OF this] show ?thesis
      by (fastforce simp: seq_manager_new_def sm_keeps_def)
  qed
  from this [of "t0 0" "of_int lo" "of_int hi"] this [of "t0 1" "of_int lo" "of_int hi"]
    this [of "t0 2" "of_int lo" "of_int hi"] this [of "t0 3" "of_int lo" "of_int hi"]
  show ?thesis by (auto simp: box_smoothing_open_def box_smoothing_keeps_def)
qed

text \<open>
  The box smoothing never throws, whatever the uninitialised times of its filters hold;
  while the corners of the valid boxes stay between two integers (the borders of the image)
  the corners of the smoothed boxes do, and the validity flags pass through.
\<close>

lemma box_smoothing_bounded:
  assumes "\<forall>(pre, d)\<in>set fs. det_within lo hi d"
  shows "\<exists>s ds s'. box_smoothing_open t0 = Inr s \<and> box_smoothing_run fs s = Inr (ds, s') \<and>
    list_all2 (\<lambda>(pre, d) e. det_within lo hi e \<and> same_flags d e) fs ds"
  using box_smoothing_open_keeps [of t0 lo hi] box_smoothing_run_within [OF _ assms] by blast

section \<open>LandmarkFilter\<close>

text \<open>The shape of the network's tensors that the code tests, and the filter's state.\<close>

record tensor_shape =
  m_batch :: nat
  m_multishape_num :: nat
  m_packed_bybatch :: bool

record landmark_filter =
  abs_scale :: "real list"
  m_center_uv :: vec2
  m_scale :: real
  input_tensor :: "real list"

text \<open>\<open>Init\<close> resizes \<open>abs_scale\<close>; the centre and the scale are not initialised.\<close>

definition landmark_filter_init :: "vec2 \<Rightarrow> real \<Rightarrow> nat \<Rightarrow> landmark_filter" where
  "landmark_filter_init c0 s0 n =
     \<lparr>abs_scale = replicate 42 0, m_center_uv = c0, m_scale = s0, input_tensor = replicate n 0\<rparr>"

definition flat2 :: "vec2 list \<Rightarrow> real list" where
  "flat2 ps = concat (map (\<lambda>p. [v2x p, v2y p]) ps)"

text \<open>Writing values at the front of a vector; None past its end.\<close>

definition write_front :: "'a list \<Rightarrow> 'a list \<Rightarrow> 'a list option" where
  "write_front xs mem = (if length xs \<le> length mem then Some (xs @ drop (length xs) mem) else None)"

text \<open>The absolute coordinates relative to point 9, and a frame in units of the scale.\<close>

definition scales_of :: "vec2 list \<Rightarrow> real list" where
  "scales_of ps = flat2 (map (\<lambda>p. v2 \<bar>v2x p - v2x (ps ! 9)\<bar> \<bar>v2y p - v2y (ps ! 9)\<bar>) ps)"

definition relative_to :: "vec2 \<Rightarrow> real \<Rightarrow> vec2 list \<Rightarrow> real list" where
  "relative_to c sc fr = flat2 (map (\<lambda>p. v2 ((v2x p - v2x c) / sc) ((v2y p - v2y c) / sc)) (take 21 fr))"

text \<open>
  \<open>PreProcess\<close>: the frames relative to point 9 of the newest one, in units of its largest
  absolute coordinate. None is an access outside a vector, or a scale of zero (the tensor
  then holds NaNs and infinities).
\<close>

definition landmark_preprocess :: "tensor_shape \<Rightarrow> vec2 list list \<Rightarrow> landmark_filter \<Rightarrow> landmark_filter option" where
  "landmark_preprocess shape net_input f =
     (if m_batch shape * m_multishape_num shape \<noteq> 1 \<or> \<not> m_packed_bybatch shape then Some f
      else
        case net_input of
          [] \<Rightarrow> None
        | inputKptS # _ \<Rightarrow>
            if length inputKptS \<le> 9 then None
            else do {
              scales \<leftarrow> write_front (scales_of inputKptS) (abs_scale f);
              let c = inputKptS ! 9; sc = max_element scales
              in if sc = 0 \<or> (\<exists>fr\<in>set net_input. length fr < 21) then None
                 else do {
                   temp \<leftarrow> write_front (concat (map (relative_to c sc) net_input)) (input_tensor f);
                   Some (f\<lparr>abs_scale := scales, m_center_uv := c, m_scale := sc, input_tensor := temp\<rparr>)
                 }
            })"

text \<open>\<open>PostProcess\<close> on the memories of the output tensors, in the order of the two loops.\<close>

definition landmark_result :: "landmark_filter \<Rightarrow> real list \<Rightarrow> vec2 list" where
  "landmark_result f d = map (\<lambda>i. v2 (d ! (i * 2) * m_scale f + v2x (m_center_uv f))
     (d ! (i * 2 + 1) * m_scale f + v2y (m_center_uv f))) [0..<21]"

fun landmark_postprocess :: "landmark_filter \<Rightarrow> real list list \<Rightarrow> vec2 list \<Rightarrow> vec2 list option" where
  "landmark_postprocess f [] result = Some result"
| "landmark_postprocess f (d # ds) result =
     (if length d < 42 then None else landmark_postprocess f ds (landmark_result f d))"

text \<open>
  \<open>Inference\<close>. \<open>run\<close> is \<open>RunNet\<close>: the status and the output memories for an input memory.
\<close>

definition landmark_inference :: "tensor_shape \<Rightarrow> tensor_shape \<Rightarrow> (real list \<Rightarrow> 's \<times> real list list)
    \<Rightarrow> vec2 list list \<Rightarrow> vec2 list \<Rightarrow> landmark_filter \<Rightarrow> ('s \<times> vec2 list \<times> landmark_filter) option" where
  "landmark_inference ishape oshape run baseinput baseresult f =
     do {
       f' \<leftarrow> landmark_preprocess ishape baseinput f;
       let (ret, outs) = run (input_tensor f')
       in do {
            result \<leftarrow> (if m_packed_bybatch oshape then landmark_postprocess f' outs baseresult
                      else Some baseresult);
            Some (ret, result, f')
          }
     }"

subsection \<open>Equivariance\<close>

definition affine2 :: "real \<Rightarrow> vec2 \<Rightarrow> vec2 \<Rightarrow> vec2" where
  "affine2 k t p = add2 (scale2 k p) t"

lemma affine2_sel [simp]: "v2x (affine2 k t p) = k * v2x p + v2x t" "v2y (affine2 k t p) = k * v2y p + v2y t"
  by (simp_all add: affine2_def add2_def scale2_def)

lemma max_element_scaled:
  assumes "0 \<le> k" and "xs \<noteq> []"
  shows "max_element (map ((*) k) xs) = k * max_element xs"
proof -
  have "fold max (map ((*) k) ys) (k * a) = k * fold max ys a" for ys a
  proof (induction ys arbitrary: a)
    case (Cons y ys)
    have "max (k * y) (k * a) = k * max y a" using assms(1) by (simp add: max_mult_distrib_left)
    with Cons show ?case by simp
  qed simp
  with assms(2) show ?thesis by (cases xs) (simp_all add: max_element_def)
qed

lemma flat2_map: "flat2 (map f ps) = concat (map (\<lambda>p. [v2x (f p), v2y (f p)]) ps)"
  by (simp add: flat2_def comp_def)

lemma length_flat2 [simp]: "length (flat2 ps) = 2 * length ps"
  by (induction ps) (simp_all add: flat2_def)

lemma scales_of_affine:
  assumes "0 < k" and "9 < length ps"
  shows "scales_of (map (affine2 k t) ps) = map ((*) k) (scales_of ps)"
proof -
  have "\<bar>k * a + b - (k * c + b)\<bar> = k * \<bar>a - c\<bar>" for a b c :: real
    using assms(1) by (simp add: abs_mult flip: right_diff_distrib)
  with assms show ?thesis
    by (simp add: scales_of_def flat2_map map_concat comp_def)
qed

lemma relative_to_affine:
  assumes "0 < k"
  shows "relative_to (affine2 k t c) (k * sc) (map (affine2 k t) fr) = relative_to c sc fr"
proof -
  have "(k * a - k * b) / (k * sc) = (a - b) / sc" for a b :: real
    using assms by (simp flip: right_diff_distrib)
  then show ?thesis by (simp add: relative_to_def flat2_map take_map comp_def)
qed

lemma landmark_preprocess_affine:
  assumes "0 < k" and "m_batch shape * m_multishape_num shape = 1" and "m_packed_bybatch shape"
    and "length (abs_scale f) = 42" and "landmark_preprocess shape frames f = Some f'"
  shows "\<exists>g'. landmark_preprocess shape (map (map (affine2 k t)) frames) f = Some g' \<and>
    input_tensor g' = input_tensor f' \<and> m_scale g' = k * m_scale f' \<and>
    m_center_uv g' = affine2 k t (m_center_uv f')"
proof -
  from assms obtain newest rest where fr: "frames = newest # rest" and n9: "9 < length newest"
    by (cases frames) (auto simp: landmark_preprocess_def split: if_splits)
  from assms(2,3,5) n9 have r: "write_front (scales_of newest) (abs_scale f) \<noteq> None"
    "\<forall>fr\<in>set frames. 21 \<le> length fr"
    by (auto simp: landmark_preprocess_def fr bind_eq_Some_conv Let_def not_less split: if_splits)
  with assms(4) have len: "length newest = 21"
    by (auto simp: write_front_def scales_of_def fr split: if_splits)
  with assms(4) have w: "write_front (scales_of newest) (abs_scale f) = Some (scales_of newest)"
    "write_front (scales_of (map (affine2 k t) newest)) (abs_scale f) = Some (map ((*) k) (scales_of newest))"
    using scales_of_affine [OF assms(1) n9] by (auto simp: write_front_def scales_of_def)
  have "length (scales_of newest) \<noteq> 0" using len by (simp add: scales_of_def)
  then have m: "max_element (map ((*) k) (scales_of newest)) = k * max_element (scales_of newest)"
    using assms(1) by (intro max_element_scaled) auto
  show ?thesis
    using assms(1,2,3,5) n9 r(2)
    by (auto simp: landmark_preprocess_def fr Let_def bind_eq_Some_conv w m comp_def
        relative_to_affine [OF assms(1)] split: if_splits)
qed

lemma landmark_result_affine:
  assumes "m_scale g = k * m_scale f" and "m_center_uv g = affine2 k t (m_center_uv f)"
  shows "landmark_result g d = map (affine2 k t) (landmark_result f d)"
  using assms by (simp add: landmark_result_def affine2_def add2_def scale2_def algebra_simps)

lemma landmark_postprocess_affine:
  assumes "m_scale g = k * m_scale f" and "m_center_uv g = affine2 k t (m_center_uv f)"
  shows "landmark_postprocess g outs (map (affine2 k t) res) =
    map_option (map (affine2 k t)) (landmark_postprocess f outs res)"
  by (induction outs arbitrary: res) (simp_all add: landmark_result_affine [OF assms])

text \<open>
  Whatever the network computes, the filter commutes with moving and scaling the image:
  it normalises the frames by the newest one and undoes the same normalisation on the output.
\<close>

lemma landmark_filter_equivariant:
  assumes "0 < k" and "m_batch ishape * m_multishape_num ishape = 1" and "m_packed_bybatch ishape"
    and "length (abs_scale f) = 42"
    and "landmark_inference ishape oshape run frames res f = Some (ret, out, f')"
  shows "\<exists>g'. landmark_inference ishape oshape run (map (map (affine2 k t)) frames)
      (map (affine2 k t) res) f = Some (ret, map (affine2 k t) out, g')"
proof -
  from assms(5) obtain h where h: "landmark_preprocess ishape frames f = Some h"
    by (auto simp: landmark_inference_def bind_eq_Some_conv)
  from landmark_preprocess_affine [OF assms(1-4) h] obtain g where
    g: "landmark_preprocess ishape (map (map (affine2 k t)) frames) f = Some g"
    "input_tensor g = input_tensor h" "m_scale g = k * m_scale h"
    "m_center_uv g = affine2 k t (m_center_uv h)" by blast
  have "landmark_postprocess g outs (map (affine2 k t) res) =
      map_option (map (affine2 k t)) (landmark_postprocess h outs res)" for outs
    using landmark_postprocess_affine [OF g(3,4)] .
  with assms(5) h g show ?thesis
    by (auto simp: landmark_inference_def bind_eq_Some_conv split: prod.splits if_splits)
qed

definition example_frame :: "vec2 list" where
  "example_frame = replicate 9 (v2 0 0) @ replicate 12 (v2 3 4)"

definition example_landmark_filter :: landmark_filter where
  "example_landmark_filter = landmark_filter_init (v2 0 0) 0 252"

section \<open>LandmarkFilterCalculator\<close>

record landmark_calc =
  netalgo :: landmark_filter
  m_seq2d_lcam_lhand :: seq_manager_2d
  m_seq2d_lcam_rhand :: seq_manager_2d
  m_seq2d_rcam_lhand :: seq_manager_2d
  m_seq2d_rcam_rhand :: seq_manager_2d

text \<open>\<open>Open\<close>: \<open>net\<close> is the network that the service created, if it could.\<close>

definition landmark_calc_open :: "landmark_filter option \<Rightarrow> string + landmark_calc" where
  "landmark_calc_open net =
     (case net of
        None \<Rightarrow> Inl ''[HandLandmarkCalculator] CreateNetAlgoBase nodename error''
      | Some f \<Rightarrow> Inr \<lparr>netalgo = f, m_seq2d_lcam_lhand = seq2d_new, m_seq2d_lcam_rhand = seq2d_new,
          m_seq2d_rcam_lhand = seq2d_new, m_seq2d_rcam_rhand = seq2d_new\<rparr>)"

type_synonym 's landmark_net =
  "vec2 list list \<Rightarrow> vec2 list \<Rightarrow> landmark_filter \<Rightarrow> ('s \<times> vec2 list \<times> landmark_filter) option"

text \<open>
  One hand in one camera; the status of \<open>Inference\<close> is ignored. \<open>kpt\<close> is both the input and
  what the copied output holds.
\<close>

definition landmark_hand :: "'s landmark_net \<Rightarrow> bool \<Rightarrow> vec2 list \<Rightarrow> seq_manager_2d \<Rightarrow> landmark_filter
    \<Rightarrow> (vec2 list \<times> seq_manager_2d \<times> landmark_filter) option" where
  "landmark_hand infer valid kpt m f =
     (if valid then
        (let m' = updateSeq2D kpt m
         in do {
              seq \<leftarrow> getSeq m';
              (ret, res, f') \<leftarrow> infer seq kpt f;
              Some (res, m', f')
            })
      else Some (kpt, seq2d_reset m, f))"

definition landmark_calc_process :: "'s landmark_net \<Rightarrow> kpt2d_internal \<Rightarrow> landmark_calc
    \<Rightarrow> (kpt2d_internal \<times> landmark_calc) option" where
  "landmark_calc_process infer k s =
     do {
       (ll, a, f1) \<leftarrow> landmark_hand infer (k_lhand_lcam_valid k) (lhand_lcam_kpt k) (m_seq2d_lcam_lhand s) (netalgo s);
       (lr, b, f2) \<leftarrow> landmark_hand infer (k_lhand_rcam_valid k) (lhand_rcam_kpt k) (m_seq2d_rcam_lhand s) f1;
       (rr, c, f3) \<leftarrow> landmark_hand infer (k_rhand_rcam_valid k) (rhand_rcam_kpt k) (m_seq2d_rcam_rhand s) f2;
       (rl, d, f4) \<leftarrow> landmark_hand infer (k_rhand_lcam_valid k) (rhand_lcam_kpt k) (m_seq2d_lcam_rhand s) f3;
       Some (k\<lparr>lhand_lcam_kpt := ll, lhand_rcam_kpt := lr, rhand_rcam_kpt := rr, rhand_lcam_kpt := rl\<rparr>,
             s\<lparr>netalgo := f4, m_seq2d_lcam_lhand := a, m_seq2d_rcam_lhand := b,
               m_seq2d_rcam_rhand := c, m_seq2d_lcam_rhand := d\<rparr>)
     }"

fun landmark_calc_run :: "'s landmark_net \<Rightarrow> kpt2d_internal list \<Rightarrow> landmark_calc
    \<Rightarrow> (kpt2d_internal list \<times> landmark_calc) option" where
  "landmark_calc_run infer [] s = Some ([], s)"
| "landmark_calc_run infer (k # ks) s =
     do {
       (out, s') \<leftarrow> landmark_calc_process infer k s;
       (outs, s'') \<leftarrow> landmark_calc_run infer ks s';
       Some (out # outs, s'')
     }"

text \<open>The keypoints of a hand in the frames since it was last invalid.\<close>

definition streak :: "(bool \<times> vec2 list) list \<Rightarrow> vec2 list list" where
  "streak fs = map snd (rev (takeWhile fst (rev fs)))"

definition seq_track :: "bool \<times> vec2 list \<Rightarrow> seq_manager_2d \<Rightarrow> seq_manager_2d" where
  "seq_track vk m = (if fst vk then updateSeq2D (snd vk) m else seq2d_reset m)"

lemma window_kept [simp]:
  "mWindowLength (updateSeq2D k m) = mWindowLength m" "mWindowLength (seq2d_reset m) = mWindowLength m"
  "mWindowLength (fold updateSeq2D ks m) = mWindowLength m"
proof -
  show u: "mWindowLength (updateSeq2D k m) = mWindowLength m" for k m by (simp add: updateSeq2D_def)
  show "mWindowLength (seq2d_reset m) = mWindowLength m" by (simp add: seq2d_reset_def)
  show "mWindowLength (fold updateSeq2D ks m) = mWindowLength m"
    by (induction ks arbitrary: m) (simp_all add: u)
qed

lemma seq2d_reset_eq: "mWindowLength m = mWindowLength m' \<Longrightarrow> seq2d_reset m = seq2d_reset m'"
  by (simp add: seq2d_reset_def)

lemma fold_seq_track: "fold seq_track fs seq2d_new = fold updateSeq2D (streak fs) (seq2d_reset seq2d_new)"
proof (induction fs rule: rev_induct)
  case Nil
  then show ?case by (simp add: streak_def seq2d_new_def seq2d_reset_def)
next
  case (snoc vk fs)
  then show ?case
    by (auto simp: streak_def seq_track_def intro: seq2d_reset_eq)
qed

lemma landmark_hand_track:
  "landmark_hand infer v k m f = Some (res, m', f') \<Longrightarrow> m' = seq_track (v, k) m \<and> (\<not> v \<longrightarrow> res = k)"
  by (auto simp: landmark_hand_def seq_track_def Let_def bind_eq_Some_conv split: if_splits)

lemma landmark_calc_process_track:
  assumes "landmark_calc_process infer k s = Some (out, s')"
  shows "m_seq2d_lcam_lhand s' = seq_track (k_lhand_lcam_valid k, lhand_lcam_kpt k) (m_seq2d_lcam_lhand s)"
    and "m_seq2d_rcam_lhand s' = seq_track (k_lhand_rcam_valid k, lhand_rcam_kpt k) (m_seq2d_rcam_lhand s)"
    and "m_seq2d_lcam_rhand s' = seq_track (k_rhand_lcam_valid k, rhand_lcam_kpt k) (m_seq2d_lcam_rhand s)"
    and "m_seq2d_rcam_rhand s' = seq_track (k_rhand_rcam_valid k, rhand_rcam_kpt k) (m_seq2d_rcam_rhand s)"
  using assms
  by (auto simp: landmark_calc_process_def bind_eq_Some_conv dest!: landmark_hand_track)

lemma landmark_calc_run_track:
  assumes "landmark_calc_run infer ks s = Some (outs, s')"
  shows "m_seq2d_lcam_lhand s' = fold seq_track (map (\<lambda>k. (k_lhand_lcam_valid k, lhand_lcam_kpt k)) ks) (m_seq2d_lcam_lhand s) \<and>
    m_seq2d_rcam_lhand s' = fold seq_track (map (\<lambda>k. (k_lhand_rcam_valid k, lhand_rcam_kpt k)) ks) (m_seq2d_rcam_lhand s) \<and>
    m_seq2d_lcam_rhand s' = fold seq_track (map (\<lambda>k. (k_rhand_lcam_valid k, rhand_lcam_kpt k)) ks) (m_seq2d_lcam_rhand s) \<and>
    m_seq2d_rcam_rhand s' = fold seq_track (map (\<lambda>k. (k_rhand_rcam_valid k, rhand_rcam_kpt k)) ks) (m_seq2d_rcam_rhand s)"
  using assms
proof (induction ks arbitrary: s outs)
  case (Cons k ks)
  from Cons.prems obtain out s1 outs' where p: "landmark_calc_process infer k s = Some (out, s1)"
    and r: "landmark_calc_run infer ks s1 = Some (outs', s')"
    by (auto simp: bind_eq_Some_conv)
  from Cons.IH [OF r] landmark_calc_process_track [OF p] show ?case by simp
qed simp

text \<open>
  After any frames that the calculator handled, each hand's history in each camera is that
  of the frames since it was last invalid there, and of no other: the other hand, the other
  camera and an earlier appearance leave no trace in what the network will be given.
\<close>

lemma landmark_history:
  assumes "landmark_calc_open net = Inr s0" and "landmark_calc_run infer ks s0 = Some (outs, s)"
  shows "m_seq2d_lcam_lhand s = fold updateSeq2D (streak (map (\<lambda>k. (k_lhand_lcam_valid k, lhand_lcam_kpt k)) ks)) (seq2d_reset seq2d_new) \<and>
    m_seq2d_rcam_lhand s = fold updateSeq2D (streak (map (\<lambda>k. (k_lhand_rcam_valid k, lhand_rcam_kpt k)) ks)) (seq2d_reset seq2d_new) \<and>
    m_seq2d_lcam_rhand s = fold updateSeq2D (streak (map (\<lambda>k. (k_rhand_lcam_valid k, rhand_lcam_kpt k)) ks)) (seq2d_reset seq2d_new) \<and>
    m_seq2d_rcam_rhand s = fold updateSeq2D (streak (map (\<lambda>k. (k_rhand_rcam_valid k, rhand_rcam_kpt k)) ks)) (seq2d_reset seq2d_new)"
proof -
  from assms(1) have s0: "m_seq2d_lcam_lhand s0 = seq2d_new" "m_seq2d_rcam_lhand s0 = seq2d_new"
    "m_seq2d_lcam_rhand s0 = seq2d_new" "m_seq2d_rcam_rhand s0 = seq2d_new"
    by (auto simp: landmark_calc_open_def split: option.splits)
  with landmark_calc_run_track [OF assms(2)] show ?thesis by (simp add: fold_seq_track)
qed

definition example_kpts2d :: "vec2 list \<Rightarrow> bool \<Rightarrow> kpt2d_internal" where
  "example_kpts2d ps v =
     \<lparr>lhand_lcam_kpt = ps, lhand_rcam_kpt = [], rhand_lcam_kpt = [], rhand_rcam_kpt = [],
      lhand_lcam_rdepth = [], lhand_rcam_rdepth = [], rhand_lcam_rdepth = [], rhand_rcam_rdepth = [],
      lhand_lcam_virtual_camera = None, lhand_rcam_virtual_camera = None,
      rhand_lcam_virtual_camera = None, rhand_rcam_virtual_camera = None,
      k_lhand_lcam_valid = v, k_lhand_rcam_valid = False, k_rhand_lcam_valid = False,
      k_rhand_rcam_valid = False, lhand_hold_label = False, rhand_hold_label = False,
      lhand_lcam_raw_feats = [], lhand_lcam_pred_x = [], lhand_lcam_pred_y = [],
      rhand_rcam_raw_feats = [], rhand_rcam_pred_x = [], rhand_rcam_pred_y = []\<rparr>"

end
