(* ===== verification/Mat3.thy ===== *)
theory Mat3
  imports Coords
begin

text \<open>
  The algebra of 3 by 3 matrices that the pose solvers need: products, transposes, the
  determinant and the trace, the inverse by cofactors, positive forms, and the uniqueness of a
  polar decomposition.
\<close>

lemma mat3_eqI:
  assumes "\<And>p. mat3_apply a p = mat3_apply b p"
  shows "a = b"
proof -
  obtain a1 a2 a3 b1 b2 b3 where ab: "a = (a1, a2, a3)" "b = (b1, b2, b3)" by (metis prod_cases3)
  have "mat3_apply a (v3 1 0 0) = mat3_apply b (v3 1 0 0)" "mat3_apply a (v3 0 1 0) = mat3_apply b (v3 0 1 0)"
    "mat3_apply a (v3 0 0 1) = mat3_apply b (v3 0 0 1)" by (rule assms)+
  then show ?thesis by (simp add: ab dot3_def)
qed

lemma mat3_mult_assoc: "mat3_mult (mat3_mult a b) c = mat3_mult a (mat3_mult b c)"
  by (rule mat3_eqI) (simp add: mat3_apply_mult)

lemma mat3_mult_identity [simp]: "mat3_mult mat3_identity a = a" "mat3_mult a mat3_identity = a"
  by (rule mat3_eqI; simp add: mat3_apply_mult)+

lemma mat3_transpose_transpose [simp]: "mat3_transpose (mat3_transpose a) = a"
  by (cases a) simp

lemma mat3_transpose_identity [simp]: "mat3_transpose mat3_identity = mat3_identity"
  by (simp add: mat3_identity_def)

lemma mat3_transpose_mult: "mat3_transpose (mat3_mult a b) = mat3_mult (mat3_transpose b) (mat3_transpose a)"
  by (cases a; cases b) (simp add: mat3_mult_def model_defs algebra_simps)

lemma dot3_mat3: "dot3 (mat3_apply a p) q = dot3 p (mat3_apply (mat3_transpose a) q)"
  by (cases a) (simp add: model_defs algebra_simps)

lemma mat3_det_mult: "mat3_det (mat3_mult a b) = mat3_det a * mat3_det b"
proof -
  obtain a1 a2 a3 b1 b2 b3 where ab: "a = (a1, a2, a3)" "b = (b1, b2, b3)" by (metis prod_cases3)
  show ?thesis unfolding ab by (simp add: mat3_mult_def model_defs) algebra
qed

lemma mat3_det_transpose [simp]: "mat3_det (mat3_transpose a) = mat3_det a"
  by (cases a) (simp add: model_defs algebra_simps)

lemma mat3_det_identity [simp]: "mat3_det mat3_identity = 1"
  by (simp add: mat3_identity_def model_defs)

section \<open>Orthogonal matrices\<close>

lemma orthogonalD:
  assumes "orthogonal r"
  shows "mat3_mult (mat3_transpose r) r = mat3_identity" "mat3_mult r (mat3_transpose r) = mat3_identity"
    "mat3_mult (mat3_transpose r) (mat3_mult r a) = a" "mat3_mult r (mat3_mult (mat3_transpose r) a) = a"
  using assms by (simp_all add: orthogonal_def flip: mat3_mult_assoc)

lemma orthogonal_transpose: "orthogonal r \<Longrightarrow> orthogonal (mat3_transpose r)"
  by (simp add: orthogonal_def)

lemma orthogonal_mult: "orthogonal a \<Longrightarrow> orthogonal b \<Longrightarrow> orthogonal (mat3_mult a b)"
  by (simp only: orthogonal_def [of "mat3_mult a b"] mat3_transpose_mult mat3_mult_assoc orthogonalD
      orthogonalD(3,4) [OF orthogonal_transpose, unfolded mat3_transpose_transpose])

lemma orthogonal_det:
  assumes "orthogonal r"
  shows "mat3_det r * mat3_det r = 1"
  by (metis assms mat3_det_identity mat3_det_mult mat3_det_transpose orthogonal_def)

lemma orthogonal_dot:
  assumes "orthogonal r"
  shows "dot3 (mat3_apply r p) (mat3_apply r q) = dot3 p q"
  using assms by (simp add: dot3_mat3 orthogonal_def flip: mat3_apply_mult)

lemma orthogonal_norm: "orthogonal r \<Longrightarrow> norm3 (mat3_apply r p) = norm3 p"
  by (simp add: norm3_def orthogonal_dot)

definition proper_rotation :: "mat3 \<Rightarrow> bool" where
  "proper_rotation r \<longleftrightarrow> orthogonal r \<and> mat3_det r = 1"

lemma proper_rotation_mult: "proper_rotation a \<Longrightarrow> proper_rotation b \<Longrightarrow> proper_rotation (mat3_mult a b)"
  by (simp add: proper_rotation_def orthogonal_mult mat3_det_mult)

lemma proper_rotation_transpose: "proper_rotation r \<Longrightarrow> proper_rotation (mat3_transpose r)"
  by (simp add: proper_rotation_def orthogonal_transpose)

lemma proper_rotation_identity [simp]: "proper_rotation mat3_identity"
  by (simp add: proper_rotation_def orthogonal_def)

definition diag3 :: "vec3 \<Rightarrow> mat3" where
  "diag3 s = (v3 (vx s) 0 0, v3 0 (vy s) 0, v3 0 0 (vz s))"

lemma diag3_ones: "diag3 (v3 1 1 1) = mat3_identity"
  by (simp add: diag3_def mat3_identity_def)

lemma mat3_det_diag3 [simp]: "mat3_det (diag3 s) = vx s * vy s * vz s"
  by (simp add: diag3_def model_defs)

lemma mat3_transpose_diag3 [simp]: "mat3_transpose (diag3 s) = diag3 s"
  by (simp add: diag3_def)

section \<open>Difference and trace\<close>

fun mat3_sub :: "mat3 \<Rightarrow> mat3 \<Rightarrow> mat3" where
  "mat3_sub (a, b, c) (d, e, f) = (sub3 a d, sub3 b e, sub3 c f)"

fun mat3_trace :: "mat3 \<Rightarrow> real" where
  "mat3_trace (a, b, c) = vx a + vy b + vz c"

lemma mat3_apply_sub: "mat3_apply (mat3_sub a b) p = sub3 (mat3_apply a p) (mat3_apply b p)"
  by (cases a; cases b) (simp add: model_defs algebra_simps)

lemma mat3_trace_comm: "mat3_trace (mat3_mult a b) = mat3_trace (mat3_mult b a)"
  by (cases a; cases b) (simp add: mat3_mult_def model_defs algebra_simps)

lemma mat3_transpose_sub: "mat3_transpose (mat3_sub a b) = mat3_sub (mat3_transpose a) (mat3_transpose b)"
  by (cases a; cases b) (simp add: model_defs)

lemma mat3_mult_diff: "mat3_mult a (mat3_sub b c) = mat3_sub (mat3_mult a b) (mat3_mult a c)"
  "mat3_mult (mat3_sub b c) a = mat3_sub (mat3_mult b a) (mat3_mult c a)"
  by (cases a; cases b; cases c; simp add: mat3_mult_def model_defs algebra_simps)+

lemma mat3_trace_diff: "mat3_trace (mat3_sub a b) = mat3_trace a - mat3_trace b"
  by (cases a; cases b) (simp add: model_defs)

lemma mat3_trace_form:
  "mat3_trace (mat3_mult (mat3_transpose (d1, d2, d3)) (mat3_mult a (d1, d2, d3))) =
   (case mat3_transpose (d1, d2, d3) of (c1, c2, c3) \<Rightarrow>
      dot3 c1 (mat3_apply a c1) + dot3 c2 (mat3_apply a c2) + dot3 c3 (mat3_apply a c3))"
  by (cases a) (simp add: mat3_mult_def model_defs algebra_simps)

definition pos_semidef :: "mat3 \<Rightarrow> bool" where
  "pos_semidef a \<longleftrightarrow> mat3_transpose a = a \<and> (\<forall>p. 0 \<le> dot3 p (mat3_apply a p))"

definition pos_def :: "mat3 \<Rightarrow> bool" where
  "pos_def a \<longleftrightarrow> mat3_transpose a = a \<and> (\<forall>p. p \<noteq> v3 0 0 0 \<longrightarrow> 0 < dot3 p (mat3_apply a p))"

lemma dot3_zero [simp]: "dot3 (v3 0 0 0) p = 0" "dot3 p (v3 0 0 0) = 0"
  by (simp_all add: dot3_def)

lemma dot3_pos: "p \<noteq> v3 0 0 0 \<Longrightarrow> 0 < dot3 p p"
proof -
  assume "p \<noteq> v3 0 0 0"
  moreover have "dot3 p p = 0 \<longleftrightarrow> p = v3 0 0 0"
    by (cases p) (auto simp: dot3_def add_nonneg_eq_0_iff)
  ultimately show ?thesis using dot3_self_nonneg [of p] by linarith
qed

lemma mat3_sym_iff: "mat3_transpose (a, b, c) = (a, b, c) \<longleftrightarrow> vx b = vy a \<and> vx c = vz a \<and> vy c = vz b"
  by (cases a; cases b; cases c) auto

lemma pos_def_identity: "pos_def mat3_identity"
  by (simp add: pos_def_def dot3_pos)

lemma pos_def_semidef: "pos_def a \<Longrightarrow> pos_semidef a"
  unfolding pos_def_def pos_semidef_def by (metis dot3_zero(1) less_eq_real_def)

lemma pos_semidef_conj:
  assumes "0 \<le> vx s" "0 \<le> vy s" "0 \<le> vz s"
  shows "pos_semidef (mat3_mult u (mat3_mult (diag3 s) (mat3_transpose u)))"
proof -
  have "dot3 p (mat3_apply u (mat3_apply (diag3 s) (mat3_apply (mat3_transpose u) p))) \<ge> 0" for p
  proof -
    let ?q = "mat3_apply (mat3_transpose u) p"
    have "dot3 p (mat3_apply u r) = dot3 ?q r" for r
      using dot3_mat3 [of "mat3_transpose u" p r] by simp
    moreover have "0 \<le> dot3 ?q (mat3_apply (diag3 s) ?q)"
      using assms by (simp add: diag3_def dot3_def mult.left_commute)
    ultimately show ?thesis by simp
  qed
  then show ?thesis
    by (simp add: pos_semidef_def mat3_transpose_mult mat3_mult_assoc mat3_apply_mult)
qed

text \<open>A positive definite matrix is the only positive root of its square.\<close>

lemma pos_root_unique:
  assumes "pos_def c" and "pos_semidef p" and "mat3_mult c c = mat3_mult p p"
  shows "p = c"
proof -
  define d where "d = mat3_sub c p"
  have dt: "mat3_transpose d = d"
    using assms(1,2) by (simp add: d_def pos_def_def pos_semidef_def mat3_transpose_sub)
  have "mat3_trace (mat3_mult d (mat3_mult c d)) + mat3_trace (mat3_mult d (mat3_mult d p)) =
      mat3_trace (mat3_mult d (mat3_sub (mat3_mult c c) (mat3_mult p p)))"
    by (simp add: d_def mat3_mult_diff mat3_trace_diff)
  also have "\<dots> = 0" by (simp add: assms(3) mat3_mult_diff mat3_trace_diff)
  finally have zero: "mat3_trace (mat3_mult d (mat3_mult c d)) + mat3_trace (mat3_mult d (mat3_mult p d)) = 0"
    using mat3_trace_comm [of d "mat3_mult d p"] by (simp add: mat3_mult_assoc)
  obtain d1 d2 d3 where dd: "d = (d1, d2, d3)" by (metis prod_cases3)
  have form: "mat3_trace (mat3_mult d (mat3_mult a d)) =
      dot3 d1 (mat3_apply a d1) + dot3 d2 (mat3_apply a d2) + dot3 d3 (mat3_apply a d3)" for a
    using mat3_trace_form [of d1 d2 d3 a] dt by (simp add: dd del: mat3_transpose.simps)
  have "0 \<le> dot3 v (mat3_apply p v)" "0 \<le> dot3 v (mat3_apply c v)" for v
    using assms(1,2) pos_def_semidef by (auto simp: pos_semidef_def)
  then have "dot3 d1 (mat3_apply c d1) = 0" "dot3 d2 (mat3_apply c d2) = 0" "dot3 d3 (mat3_apply c d3) = 0"
    using zero unfolding form by (smt (verit))+
  then have z: "d1 = v3 0 0 0" "d2 = v3 0 0 0" "d3 = v3 0 0 0"
    using assms(1) by (metis less_irrefl pos_def_def)+
  show ?thesis
  proof (rule mat3_eqI)
    fix q
    have "sub3 (mat3_apply c q) (mat3_apply p q) = v3 0 0 0"
      using mat3_apply_sub [of c p q] by (simp add: dd z flip: d_def)
    then show "mat3_apply p q = mat3_apply c q" by (simp add: sub3_def)
  qed
qed

lemma pos_def_cancel:
  assumes "pos_def c" and "mat3_mult c a = mat3_mult c b"
  shows "a = b"
proof (rule mat3_eqI)
  fix p
  let ?d = "sub3 (mat3_apply a p) (mat3_apply b p)"
  have "mat3_apply c (mat3_apply a p) = mat3_apply c (mat3_apply b p)"
    using assms(2) by (metis mat3_apply_mult)
  then have "mat3_apply c ?d = v3 0 0 0"
    by (cases c) (simp add: model_defs algebra_simps)
  then have "?d = v3 0 0 0" using assms(1) unfolding pos_def_def by (metis dot3_zero(2) less_irrefl)
  then show "mat3_apply a p = mat3_apply b p" by (simp add: sub3_def)
qed

section \<open>The inverse\<close>

fun mat3_inverse :: "mat3 \<Rightarrow> mat3" where
  "mat3_inverse (a, b, c) =
     (let k = 1 / mat3_det (a, b, c)
      in mat3_transpose (scale3 k (cross3 b c), scale3 k (cross3 c a), scale3 k (cross3 a b)))"

lemma mat3_inverse_left:
  assumes "mat3_det m \<noteq> 0"
  shows "mat3_mult (mat3_inverse m) m = mat3_identity"
proof -
  obtain a b c where m: "m = (a, b, c)" by (metis prod_cases3)
  define k where "k = 1 / mat3_det (a, b, c)"
  have k: "k * mat3_det (a, b, c) = 1" using assms by (simp add: m k_def)
  have "mat3_mult (mat3_inverse m) m = diag3 (v3 (k * mat3_det (a, b, c)) (k * mat3_det (a, b, c)) (k * mat3_det (a, b, c)))"
    unfolding m mat3_inverse.simps Let_def k_def [symmetric]
    by (simp add: mat3_mult_def diag3_def model_defs algebra_simps)
  then show ?thesis by (simp add: k diag3_ones del: mat3_det.simps)
qed

end
