(* ===== verification/HandRotation.thy ===== *)
theory HandRotation
  imports Mat3
begin

text \<open>
  \<^verbatim>\<open>aisdk/algorithm/func/hand_rotation.cpp\<close> and \<^verbatim>\<open>hand_rotation_v2.cpp\<close>: the orientation of
  every joint of a hand, in the 23-joint and the 26-joint layout. Eigen's two constructors of
  rotations are arguments: \<open>ftv\<close> (\<open>Quaternion::FromTwoVectors\<close>) and \<open>axis\<close> (\<open>AngleAxis\<close>).
  \<open>u\<close> is the content of the matrices that \<open>resize\<close> leaves uninitialised. A joint vector that
  is too short is an access outside it: None.
\<close>

section \<open>Tables\<close>

text \<open>\<open>std::map::operator[]\<close> gives 0 for a key that is not there.\<close>

definition parent_table :: "(nat \<times> nat) list" where
  "parent_table = [(1, 0), (5, 0), (9, 0), (13, 0), (22, 0), (2, 1), (6, 5), (10, 9), (14, 13), (17, 22),
     (3, 2), (7, 6), (11, 10), (15, 14), (18, 17), (4, 3), (8, 7), (12, 11), (16, 15), (19, 18), (20, 19)]"

definition xr_parent_table :: "(nat \<times> nat) list" where
  "xr_parent_table = [(1, 0), (5, 0), (9, 0), (13, 0), (22, 0), (23, 0), (24, 0), (25, 0),
     (2, 1), (6, 5), (10, 9), (14, 13), (17, 22), (3, 2), (7, 6), (11, 10),
     (15, 14), (18, 17), (4, 3), (8, 7), (12, 11), (16, 15), (19, 18), (20, 19)]"

definition parent_of :: "(nat \<times> nat) list \<Rightarrow> nat \<Rightarrow> nat" where
  "parent_of t i = (case map_of t i of None \<Rightarrow> 0 | Some p \<Rightarrow> p)"

definition lev1_index :: "nat list" where "lev1_index = [1, 5, 9, 13, 22]"
definition xr_lev1_index :: "nat list" where "xr_lev1_index = [1, 5, 9, 13, 22, 23, 24, 25]"
definition lev2_index :: "nat list" where "lev2_index = [2, 6, 10, 14, 17]"
definition lev3_index :: "nat list" where "lev3_index = [3, 7, 11, 15, 18]"
definition lev4_index :: "nat list" where "lev4_index = [4, 8, 12, 16, 19]"

section \<open>The steps of the computation\<close>

text \<open>
  The wrist: the y axis \<open>up\<close> is turned along the palm, then \<open>side\<close> along its normal.
\<close>

definition root_rotation :: "(vec3 \<Rightarrow> vec3 \<Rightarrow> mat3) \<Rightarrow> vec3 \<Rightarrow> vec3 \<Rightarrow> vec3 list \<Rightarrow> bool \<Rightarrow> mat3" where
  "root_rotation ftv up side joints left_hand =
     (let v0_y = sub3 (joints ! 9) (joints ! 0);
          R0_y = ftv up v0_y;
          z = cross3 v0_y (sub3 (joints ! 5) (joints ! 0));
          v0_z_temp = (if left_hand then scale3 (-1) z else z);
          v0_z = normalized3 v0_z_temp;
          R0_z = ftv (mat3_apply R0_y side) v0_z
      in mat3_mult R0_z R0_y)"

definition get_root_rotation_xr_v1 :: "(vec3 \<Rightarrow> vec3 \<Rightarrow> mat3) \<Rightarrow> vec3 list \<Rightarrow> bool \<Rightarrow> mat3" where
  "get_root_rotation_xr_v1 ftv = root_rotation ftv (v3 0 0 (-1)) (v3 0 1 0)"

text \<open>The rotation that takes the bone that ends in joint \<open>a\<close> into that which ends in \<open>b\<close>.\<close>

definition bone_rotation :: "(vec3 \<Rightarrow> vec3 \<Rightarrow> mat3) \<Rightarrow> (nat \<Rightarrow> nat) \<Rightarrow> vec3 list \<Rightarrow> nat \<Rightarrow> nat \<Rightarrow> mat3" where
  "bone_rotation ftv par joint a b =
     ftv (sub3 (joint ! a) (joint ! par a)) (sub3 (joint ! b) (joint ! par b))"

definition lev1_step :: "(vec3 \<Rightarrow> vec3 \<Rightarrow> mat3) \<Rightarrow> (nat \<Rightarrow> nat) \<Rightarrow> vec3 list \<Rightarrow> mat3 \<Rightarrow> nat \<Rightarrow> mat3 list \<Rightarrow> mat3 list" where
  "lev1_step ftv par joint R0 i R =
     R[i := mat3_mult (ftv (sub3 (joint ! 9) (joint ! par i)) (sub3 (joint ! i) (joint ! par i))) R0]"

definition thumb_step :: "(real \<Rightarrow> vec3 \<Rightarrow> mat3) \<Rightarrow> vec3 list \<Rightarrow> bool \<Rightarrow> mat3 list \<Rightarrow> mat3 list" where
  "thumb_step axis joint left_hand R =
     (let angle = (if left_hand then 60 else -60)
      in R[1 := mat3_mult (axis (angle / 180 * 3.14) (normalized3 (sub3 (joint ! 1) (joint ! 0)))) (R ! 1)])"

definition lev2_step :: "(vec3 \<Rightarrow> vec3 \<Rightarrow> mat3) \<Rightarrow> (nat \<Rightarrow> nat) \<Rightarrow> vec3 list \<Rightarrow> nat list \<Rightarrow> nat \<Rightarrow> mat3 list \<Rightarrow> mat3 list" where
  "lev2_step ftv par joint lev1 i R =
     R[lev1 ! i := mat3_mult (bone_rotation ftv par joint (lev1 ! i) (lev2_index ! i)) (R ! (lev1 ! i))]"

definition lev3_step :: "(vec3 \<Rightarrow> vec3 \<Rightarrow> mat3) \<Rightarrow> (nat \<Rightarrow> nat) \<Rightarrow> vec3 list \<Rightarrow> nat \<Rightarrow> mat3 list \<Rightarrow> mat3 list" where
  "lev3_step ftv par joint i R =
     R[lev2_index ! i := mat3_mult (bone_rotation ftv par joint (lev2_index ! i) (lev3_index ! i))
                           (R ! par (lev2_index ! i))]"

definition lev4_step :: "(vec3 \<Rightarrow> vec3 \<Rightarrow> mat3) \<Rightarrow> (nat \<Rightarrow> nat) \<Rightarrow> vec3 list \<Rightarrow> nat \<Rightarrow> mat3 list \<Rightarrow> mat3 list" where
  "lev4_step ftv par joint i R =
     (let R1 = R[lev3_index ! i := mat3_mult (bone_rotation ftv par joint (lev3_index ! i) (lev4_index ! i))
                                     (R ! par (lev3_index ! i))]
      in R1[lev4_index ! i := R1 ! (lev3_index ! i)])"

definition pinky_step :: "(vec3 \<Rightarrow> vec3 \<Rightarrow> mat3) \<Rightarrow> (nat \<Rightarrow> nat) \<Rightarrow> vec3 list \<Rightarrow> mat3 list \<Rightarrow> mat3 list" where
  "pinky_step ftv par joint R =
     (let R1 = R[19 := mat3_mult (bone_rotation ftv par joint 19 20) (R ! par 19)]
      in R1[20 := R1 ! 19])"

text \<open>The common body of the two functions.\<close>

definition joint_rotations :: "(vec3 \<Rightarrow> vec3 \<Rightarrow> mat3) \<Rightarrow> (real \<Rightarrow> vec3 \<Rightarrow> mat3) \<Rightarrow> (nat \<Rightarrow> nat) \<Rightarrow> nat list
    \<Rightarrow> mat3 \<Rightarrow> vec3 list \<Rightarrow> bool \<Rightarrow> mat3 list \<Rightarrow> mat3 list" where
  "joint_rotations ftv axis par lev1 R0 joint left_hand R =
     (let R = R[0 := R0];
          R = fold (lev1_step ftv par joint R0) lev1 R;
          R = R[21 := R ! 9];
          R = thumb_step axis joint left_hand R;
          R = fold (lev2_step ftv par joint lev1) [0..<5] R;
          R = fold (lev3_step ftv par joint) [0..<5] R;
          R = fold (lev4_step ftv par joint) [0..<5] R
      in pinky_step ftv par joint R)"

definition compute_joint_rotation :: "(vec3 \<Rightarrow> vec3 \<Rightarrow> mat3) \<Rightarrow> (real \<Rightarrow> vec3 \<Rightarrow> mat3) \<Rightarrow> mat3
    \<Rightarrow> vec3 list \<Rightarrow> bool \<Rightarrow> mat3 list option" where
  "compute_joint_rotation ftv axis u joint left_hand =
     (if length joint < 23 then None
      else Some (joint_rotations ftv axis (parent_of parent_table) lev1_index
             (root_rotation ftv (v3 0 1 0) (v3 0 0 1) joint left_hand) joint left_hand (replicate 23 u)))"

definition compute_xr_joint_rotation_v1 :: "(vec3 \<Rightarrow> vec3 \<Rightarrow> mat3) \<Rightarrow> (real \<Rightarrow> vec3 \<Rightarrow> mat3) \<Rightarrow> mat3
    \<Rightarrow> vec3 list \<Rightarrow> bool \<Rightarrow> mat3 list option" where
  "compute_xr_joint_rotation_v1 ftv axis u joint left_hand =
     (if length joint < 26 then None
      else Some (joint_rotations ftv axis (parent_of xr_parent_table) xr_lev1_index
             (get_root_rotation_xr_v1 ftv joint left_hand) joint left_hand (replicate 26 u)))"

section \<open>Every joint gets a rotation\<close>

text \<open>The joints in \<open>S\<close> already have a rotation.\<close>

definition rotated :: "nat \<Rightarrow> mat3 list \<Rightarrow> nat set \<Rightarrow> bool" where
  "rotated n R S \<longleftrightarrow> length R = n \<and> (\<forall>i\<in>S. i < n \<and> orthogonal (R ! i))"

lemma rotated_update:
  "rotated n R S \<Longrightarrow> i < n \<Longrightarrow> orthogonal M \<Longrightarrow> rotated n (R[i := M]) (insert i S)"
  by (auto simp: rotated_def nth_list_update)

lemma rotated_fold:
  assumes "rotated n R S"
    and "\<And>x R S'. x \<in> set xs \<Longrightarrow> S \<subseteq> S' \<Longrightarrow> rotated n R S' \<Longrightarrow> rotated n (f x R) (g x \<union> S')"
  shows "rotated n (fold f xs R) ((\<Union>x\<in>set xs. g x) \<union> S)"
proof -
  have "rotated n (fold f xs R) ((\<Union>x\<in>set xs. g x) \<union> S')" if "S \<subseteq> S'" "rotated n R S'" for S' R
    using assms(2) that
  proof (induction xs arbitrary: R S')
    case (Cons x xs)
    have "rotated n (f x R) (g x \<union> S')" using Cons.prems by auto
    with Cons.IH [of "g x \<union> S'" "f x R"] Cons.prems show ?case
      by (simp add: Un_assoc Un_left_commute sup.coboundedI2)
  qed simp
  with assms(1) show ?thesis by blast
qed

lemma rotated_mono: "rotated n R S \<Longrightarrow> S' \<subseteq> S \<Longrightarrow> rotated n R S'"
  by (auto simp: rotated_def)

lemma rotated_nth: "rotated n R S \<Longrightarrow> i \<in> S \<Longrightarrow> orthogonal (R ! i)"
  by (simp add: rotated_def)

lemma root_rotation_orthogonal:
  "\<forall>a b. orthogonal (ftv a b) \<Longrightarrow> orthogonal (root_rotation ftv up side joints l)"
  by (simp add: root_rotation_def Let_def orthogonal_mult)

lemma normalized3_unit:
  assumes "p \<noteq> q"
  shows "dot3 (normalized3 (sub3 p q)) (normalized3 (sub3 p q)) = 1"
proof -
  let ?d = "sub3 p q"
  have "dot3 ?d ?d \<noteq> 0"
    using assms by (auto simp: dot3_def sub3_def sum_power2_eq_zero_iff add_nonneg_eq_0_iff
        simp flip: power2_eq_square)
  then have pos: "0 < dot3 ?d ?d" using dot3_self_nonneg [of ?d] by linarith
  have "dot3 (scale3 k a) (scale3 k a) = k * k * dot3 a a" for k a
    by (simp add: model_defs algebra_simps)
  moreover have "norm3 ?d \<noteq> 0" using pos norm3_sq [of ?d] by auto
  ultimately show ?thesis using pos by (simp add: normalized3_def flip: norm3_sq)
qed

text \<open>What the parents and the first level must satisfy for all joints to be reached.\<close>

definition tables_ok :: "nat \<Rightarrow> (nat \<Rightarrow> nat) \<Rightarrow> nat list \<Rightarrow> bool" where
  "tables_ok n par lev1 \<longleftrightarrow> 22 < n \<and> 5 \<le> length lev1 \<and> take 5 lev1 = [1, 5, 9, 13, 22] \<and>
     (\<forall>i\<in>set lev1. i < n) \<and> {..<n} \<subseteq> {..<23} \<union> set lev1 \<and>
     map par lev2_index = [1, 5, 9, 13, 22] \<and> map par lev3_index = lev2_index \<and> par 19 = 18"

lemma joint_rotations_rotated:
  assumes ftv: "\<forall>a b. orthogonal (ftv a b)" and axis: "\<forall>t a. dot3 a a = 1 \<longrightarrow> orthogonal (axis t a)"
    and thumb: "joint ! 1 \<noteq> joint ! 0" and R0: "orthogonal R0" and t: "tables_ok n par lev1" and len: "length R = n"
  shows "rotated n (joint_rotations ftv axis par lev1 R0 joint l R) {..<n}"
proof -
  define R1 where "R1 = R[0 := R0]"
  define R2 where "R2 = fold (lev1_step ftv par joint R0) lev1 R1"
  define R3 where "R3 = thumb_step axis joint l (R2[21 := R2 ! 9])"
  define R4 where "R4 = fold (lev2_step ftv par joint lev1) [0..<5] R3"
  define R5 where "R5 = fold (lev3_step ftv par joint) [0..<5] R4"
  define R6 where "R6 = fold (lev4_step ftv par joint) [0..<5] R5"
  have n: "22 < n" and lev1: "\<forall>i\<in>set lev1. i < n" "{1, 5, 9, 13, 22} \<subseteq> set lev1"
    using t set_take_subset [of 5 lev1] by (auto simp: tables_ok_def)
  have lev1_nth: "lev1 ! i = [1, 5, 9, 13, 22] ! i" if "i < 5" for i
    using t that nth_take [of i 5 lev1] by (simp add: tables_ok_def)
  have 1: "rotated n R1 {0}"
    using rotated_update [of n R "{}" 0 R0] R0 len n by (simp add: R1_def rotated_def)
  have "rotated n (lev1_step ftv par joint R0 x Q) ({x} \<union> S')" if "x \<in> set lev1" "rotated n Q S'" for x Q S'
    using that lev1 rotated_update [of n Q S' x] ftv R0 by (simp add: lev1_step_def orthogonal_mult)
  from rotated_fold [OF 1, of lev1 _ "\<lambda>x. {x}"] this
  have 2: "rotated n R2 (set lev1 \<union> {0})" by (simp add: R2_def)
  have "orthogonal (R2 ! 9)" using 2 lev1(2) by (intro rotated_nth) auto
  with 2 n have 21: "rotated n (R2[21 := R2 ! 9]) (insert 21 (set lev1 \<union> {0}))"
    by (intro rotated_update) auto
  have "orthogonal (mat3_mult (axis x (normalized3 (sub3 (joint ! 1) (joint ! 0)))) (R2[21 := R2 ! 9] ! 1))" for x
    using axis lev1(2) normalized3_unit [OF thumb] by (intro orthogonal_mult rotated_nth [OF 21]) auto
  with n 21 have 3: "rotated n R3 (insert 1 (insert 21 (set lev1 \<union> {0})))"
    unfolding R3_def thumb_step_def Let_def by (intro rotated_update [OF 21]) auto
  have "rotated n (lev2_step ftv par joint lev1 x Q) ({} \<union> S')"
    if "x \<in> set [0..<5]" "insert 1 (insert 21 (set lev1 \<union> {0})) \<subseteq> S'" "rotated n Q S'" for x Q S'
  proof -
    have "lev1 ! x \<in> set lev1" using that(1) t by (simp add: tables_ok_def)
    with that ftv lev1(1) have "rotated n (lev2_step ftv par joint lev1 x Q) (insert (lev1 ! x) S')"
      unfolding lev2_step_def bone_rotation_def
      by (intro rotated_update orthogonal_mult rotated_nth [OF that(3)]) auto
    then show ?thesis by (rule rotated_mono) auto
  qed
  then have "rotated n R4 ((\<Union>x\<in>set [0..<5]. {}) \<union> insert 1 (insert 21 (set lev1 \<union> {0})))"
    unfolding R4_def by (rule rotated_fold [OF 3])
  then have 4: "rotated n R4 (set lev1 \<union> {0, 21})" by (rule rotated_mono) auto
  have "rotated n (lev3_step ftv par joint x Q) ({lev2_index ! x} \<union> S')"
    if "x \<in> set [0..<5]" "set lev1 \<union> {0, 21} \<subseteq> S'" "rotated n Q S'" for x Q S'
  proof -
    have "x < length lev2_index" using that(1) by (simp add: lev2_index_def)
    then have "par (lev2_index ! x) = map par lev2_index ! x" by simp
    also have "\<dots> = [1, 5, 9, 13, 22] ! x" using t by (simp add: tables_ok_def)
    also have "\<dots> \<in> set [1, 5, 9, 13, 22]" using that(1) by (intro nth_mem) simp
    finally have "par (lev2_index ! x) \<in> S'" using lev1(2) that(2) by auto
    moreover have "lev2_index ! x < n" 
      using that(1) n by (auto simp: lev2_index_def numeral_eq_Suc less_Suc_eq)
    ultimately show ?thesis
      unfolding lev3_step_def bone_rotation_def insert_is_Un [symmetric]
      using that(3) ftv by (intro rotated_update orthogonal_mult rotated_nth [OF that(3)]) auto
  qed
  then have "rotated n R5 ((\<Union>x\<in>set [0..<5]. {lev2_index ! x}) \<union> (set lev1 \<union> {0, 21}))"
    unfolding R5_def by (rule rotated_fold [OF 4])
  then have 5: "rotated n R5 (set lev2_index \<union> set lev1 \<union> {0, 21})"
    by (rule rotated_mono) (auto simp: lev2_index_def numeral_eq_Suc upt_rec)
  have "rotated n (lev4_step ftv par joint x Q) ({lev3_index ! x, lev4_index ! x} \<union> S')"
    if "x \<in> set [0..<5]" "set lev2_index \<union> set lev1 \<union> {0, 21} \<subseteq> S'" "rotated n Q S'" for x Q S'
  proof -
    have "x < length lev3_index" using that(1) by (simp add: lev3_index_def)
    then have "par (lev3_index ! x) = map par lev3_index ! x" by simp
    also have "\<dots> = lev2_index ! x" using t by (simp add: tables_ok_def)
    also have "\<dots> \<in> set lev2_index" using that(1) by (intro nth_mem) (simp add: lev2_index_def)
    finally have "par (lev3_index ! x) \<in> S'" using that(2) by auto
    moreover have l: "lev3_index ! x < n" "lev4_index ! x < n"
      using that(1) n by (auto simp: lev3_index_def lev4_index_def numeral_eq_Suc less_Suc_eq)
    ultimately have "rotated n (Q[lev3_index ! x := mat3_mult (bone_rotation ftv par joint (lev3_index ! x)
        (lev4_index ! x)) (Q ! par (lev3_index ! x))]) (insert (lev3_index ! x) S')"
      using that(3) ftv unfolding bone_rotation_def
      by (intro rotated_update orthogonal_mult rotated_nth [OF that(3)]) auto
    from rotated_update [OF this l(2) rotated_nth [OF this]]
    show ?thesis by (simp add: lev4_step_def Let_def insert_commute)
  qed
  then have "rotated n R6 ((\<Union>x\<in>set [0..<5]. {lev3_index ! x, lev4_index ! x}) \<union> (set lev2_index \<union> set lev1 \<union> {0, 21}))"
    unfolding R6_def by (rule rotated_fold [OF 5])
  then have 6: "rotated n R6 (set lev3_index \<union> set lev4_index \<union> set lev2_index \<union> set lev1 \<union> {0, 21})"
    by (rule rotated_mono) (auto simp: lev3_index_def lev4_index_def numeral_eq_Suc upt_rec)
  have "18 \<in> set lev3_index" "par 19 = 18" using t by (simp_all add: lev3_index_def tables_ok_def)
  with 6 n ftv have "rotated n (R6[19 := mat3_mult (bone_rotation ftv par joint 19 20) (R6 ! par 19)])
      (insert 19 (set lev3_index \<union> set lev4_index \<union> set lev2_index \<union> set lev1 \<union> {0, 21}))"
    unfolding bone_rotation_def by (intro rotated_update orthogonal_mult rotated_nth [OF 6]) auto
  from rotated_update [OF this _ rotated_nth [OF this], of 20 19] n
  have "rotated n (pinky_step ftv par joint R6)
      (insert 20 (insert 19 (set lev3_index \<union> set lev4_index \<union> set lev2_index \<union> set lev1 \<union> {0, 21})))"
    by (simp add: pinky_step_def Let_def)
  moreover have "{..<n} \<subseteq> insert 20 (insert 19 (set lev3_index \<union> set lev4_index \<union> set lev2_index \<union> set lev1 \<union> {0, 21}))"
  proof
    fix i assume "i \<in> {..<n}"
    with t have "i < 23 \<or> i \<in> set lev1" by (auto simp: tables_ok_def)
    then show "i \<in> insert 20 (insert 19 (set lev3_index \<union> set lev4_index \<union> set lev2_index \<union> set lev1 \<union> {0, 21}))"
      using lev1(2) by (auto simp: lev2_index_def lev3_index_def lev4_index_def numeral_eq_Suc less_Suc_eq)
  qed
  ultimately have "rotated n (pinky_step ftv par joint R6) {..<n}" by (rule rotated_mono)
  then show ?thesis
    by (simp add: joint_rotations_def Let_def R6_def R5_def R4_def R3_def R2_def R1_def)
qed

lemma tables_ok_23: "tables_ok 23 (parent_of parent_table) lev1_index"
  by (auto simp: tables_ok_def parent_of_def parent_table_def lev1_index_def lev2_index_def lev3_index_def)

lemma tables_ok_26: "tables_ok 26 (parent_of xr_parent_table) xr_lev1_index"
  by (auto simp: tables_ok_def parent_of_def xr_parent_table_def xr_lev1_index_def lev2_index_def lev3_index_def)

text \<open>
  For any hand with enough joints, both functions give every joint an orthogonal matrix:
  none keeps what \<open>resize\<close> left in it. Two given vectors always have a rotation between them;
  an axis gives one when it has length 1, so the thumb's base must not lie in the wrist.
\<close>

lemma joint_rotations_complete:
  assumes "\<forall>a b. orthogonal (ftv a b)" and "\<forall>t a. dot3 a a = 1 \<longrightarrow> orthogonal (axis t a)"
    and "26 \<le> length joint" and "joint ! 1 \<noteq> joint ! 0"
  shows "\<exists>R23 R26. compute_joint_rotation ftv axis u joint l = Some R23 \<and>
    compute_xr_joint_rotation_v1 ftv axis u joint l = Some R26 \<and>
    length R23 = 23 \<and> length R26 = 26 \<and> (\<forall>i<23. orthogonal (R23 ! i)) \<and> (\<forall>i<26. orthogonal (R26 ! i))"
proof -
  note r = joint_rotations_rotated [OF assms(1,2,4) root_rotation_orthogonal [OF assms(1)]]
  have "rotated 23 (joint_rotations ftv axis (parent_of parent_table) lev1_index
      (root_rotation ftv (v3 0 1 0) (v3 0 0 1) joint l) joint l (replicate 23 u)) {..<23}"
    by (rule r [OF tables_ok_23]) simp
  moreover have "rotated 26 (joint_rotations ftv axis (parent_of xr_parent_table) xr_lev1_index
      (get_root_rotation_xr_v1 ftv joint l) joint l (replicate 26 u)) {..<26}"
    unfolding get_root_rotation_xr_v1_def by (rule r [OF tables_ok_26]) simp
  ultimately show ?thesis
    using assms(3) by (simp add: compute_joint_rotation_def compute_xr_joint_rotation_v1_def rotated_def)
qed

end
