(* ===== verification/StreamCache.thy ===== *)
theory StreamCache
  imports Prelude
begin

unbundle bit_operations_syntax

text \<open>
  \<^verbatim>\<open>aisdk/task/handtracking/base_xgraph.{h,cpp}\<close>: the bookkeeping between the frames that are
  pushed into the calculator graph and the packets that its output streams call back with.
  A frame's \<open>StreamCache\<close> is shared between the map of running inferences and the lists of
  finished ones, so the objects live in a store and the containers hold their addresses.

  The calculator graph itself (mediapipe) is the environment: it decides when which output
  stream delivers a packet. A packet is a value of any type.
\<close>

section \<open>State\<close>

abbreviation BASEXGRAPH_MAX_GLOBALCACHEDEPTH :: nat where "BASEXGRAPH_MAX_GLOBALCACHEDEPTH \<equiv> 900"
abbreviation BASEXGRAPH_MIN_GLOBALCACHEDEPTH :: nat where "BASEXGRAPH_MIN_GLOBALCACHEDEPTH \<equiv> 30"

datatype fifo_strategy = FIFO_FULL_LOOP_COVER | FIFO_FULL_DROP | FIFO_FULL_BLOCK

record clean_strategy =
  clean_policy :: fifo_strategy
  max_depth :: nat

record 'p stream_cache =
  raw_timestamp :: u64
  output_packs_sum :: nat
  sync_bitmap :: u64
  output_packs :: "'p option list"

record 'p base_xgraph =
  graph_started :: bool
  output_stream_name :: "string list"
  store :: "'p stream_cache list"
  inference_stream_cache :: "(int \<times> nat) list"
  output_order_sync_bitmaps :: "u64 list"
  output_order_groud_index :: "nat list"
  output_stream_groud_cache :: "nat list list"
  output_stream_groud_clean_policy :: "clean_strategy list"

definition base_xgraph_new :: "'p base_xgraph" where
  "base_xgraph_new =
     \<lparr>graph_started = False, output_stream_name = [], store = [], inference_stream_cache = [],
      output_order_sync_bitmaps = [], output_order_groud_index = [], output_stream_groud_cache = [],
      output_stream_groud_clean_policy = []\<rparr>"

text \<open>
  What a call can do: return, wait for ever on a full list while it holds the lock that its
  consumer needs, or index past the end of a vector.
\<close>

datatype 'a outcome = Done 'a | Blocks | Undefined

fun outcome_bind :: "'a outcome \<Rightarrow> ('a \<Rightarrow> 'b outcome) \<Rightarrow> 'b outcome" where
  "outcome_bind (Done x) f = f x"
| "outcome_bind Blocks f = Blocks"
| "outcome_bind Undefined f = Undefined"

lemma outcome_bind_Done: "outcome_bind x f = Done y \<Longrightarrow> (\<And>z. x = Done z \<Longrightarrow> f z = Done y \<Longrightarrow> P) \<Longrightarrow> P"
  by (cases x) simp_all

section \<open>Configuration\<close>

definition SetMultipleOutputSync :: "u64 list \<Rightarrow> nat list \<Rightarrow> 'p base_xgraph \<Rightarrow> 'p base_xgraph" where
  "SetMultipleOutputSync order_sync_bitmaps order_groud_index s =
     (let max_groud_id = fold max order_groud_index 0;
          old = output_stream_groud_cache s
      in s\<lparr>output_order_sync_bitmaps := order_sync_bitmaps, output_order_groud_index := order_groud_index,
           output_stream_groud_cache := take (max_groud_id + 1) old @ replicate (max_groud_id + 1 - length old) []\<rparr>)"

definition SetMultipleOutputCleanStrategy :: "clean_strategy list \<Rightarrow> 'p base_xgraph \<Rightarrow> 'p base_xgraph" where
  "SetMultipleOutputCleanStrategy ps s = s\<lparr>output_stream_groud_clean_policy := ps\<rparr>"

text \<open>
  The part of \<open>Init\<close> behind the parsing of the graph: one group of all outputs, that keeps the
  three newest results.
\<close>

definition order_bit :: "nat \<Rightarrow> u64" where
  "order_bit order = push_bit order 1"

definition all_bits :: "nat list \<Rightarrow> u64" where
  "all_bits orders = fold (\<lambda>order m. m OR order_bit order) orders 0"

definition base_init :: "string list \<Rightarrow> 'p base_xgraph \<Rightarrow> 'p base_xgraph" where
  "base_init names s0 =
     (let s = s0\<lparr>output_stream_name := output_stream_name s0 @ names\<rparr>;
          n = length (output_stream_name s);
          sync_bitmaps = all_bits [0..<length names]
      in SetMultipleOutputCleanStrategy [\<lparr>clean_policy = FIFO_FULL_LOOP_COVER, max_depth = 3\<rparr>]
           (SetMultipleOutputSync (replicate n sync_bitmaps) (replicate n 0) s))"

text \<open>\<open>Start\<close> and \<open>Stop\<close>, given whether the graph's calls succeed.\<close>

definition base_start :: "bool \<Rightarrow> 'p base_xgraph \<Rightarrow> bool \<times> 'p base_xgraph" where
  "base_start ok s = (if ok then (True, s\<lparr>graph_started := True\<rparr>) else (False, s))"

definition base_stop :: "bool \<Rightarrow> 'p base_xgraph \<Rightarrow> bool \<times> 'p base_xgraph" where
  "base_stop ok s = (ok, s\<lparr>graph_started := False\<rparr>)"

section \<open>Operations\<close>

text \<open>Erasing the oldest frames while there are too many.\<close>

fun clean_no_result :: "(int \<times> nat) list \<Rightarrow> (int \<times> nat) list" where
  "clean_no_result [] = []"
| "clean_no_result (e # m) =
     (if BASEXGRAPH_MAX_GLOBALCACHEDEPTH \<le> length (e # m) then clean_no_result m else e # m)"

definition clean_dropped :: "int \<Rightarrow> (int \<times> nat) list \<Rightarrow> (int \<times> nat) list" where
  "clean_dropped graph_stream_stamp m = dropWhile (\<lambda>e. fst e < graph_stream_stamp) m"

definition SetInputStreamCache :: "u64 \<Rightarrow> int \<Rightarrow> 'p base_xgraph \<Rightarrow> bool \<times> 'p base_xgraph" where
  "SetInputStreamCache raw stamp s =
     (if \<not> graph_started s then (False, s)
      else
        (let stream = \<lparr>raw_timestamp = raw, output_packs_sum = 0, sync_bitmap = 0,
               output_packs = replicate (length (output_stream_name s)) None\<rparr>
         in if map_of (inference_stream_cache s) stamp = None then
              (True, s\<lparr>store := store s @ [stream],
                 inference_stream_cache :=
                   clean_no_result (smap_insert stamp (length (store s)) (inference_stream_cache s))\<rparr>)
            else (False, s)))"

definition ClearInputStreamCache :: "int \<Rightarrow> 'p base_xgraph \<Rightarrow> 'p base_xgraph" where
  "ClearInputStreamCache stamp s =
     s\<lparr>inference_stream_cache := smap_erase stamp (inference_stream_cache s)\<rparr>"

text \<open>\<open>id\<close> is the address of the stream; the newest result is at the front of a list.\<close>

definition MoveOutputCache :: "nat \<Rightarrow> nat \<Rightarrow> 'p base_xgraph \<Rightarrow> 'p base_xgraph outcome" where
  "MoveOutputCache i g s =
     (if \<not> graph_started s then Done s
      else if length (output_stream_groud_cache s) \<le> g \<or> length (output_stream_groud_clean_policy s) \<le> g
      then Undefined
      else
        (let q = output_stream_groud_cache s ! g;
             p = output_stream_groud_clean_policy s ! g;
             put = (\<lambda>q'. Done (s\<lparr>output_stream_groud_cache := (output_stream_groud_cache s)[g := q']\<rparr>))
         in case clean_policy p of
              FIFO_FULL_LOOP_COVER \<Rightarrow>
                if length q \<ge> max_depth p then (if q = [] then Undefined else put (i # butlast q))
                else put (i # q)
            | FIFO_FULL_BLOCK \<Rightarrow> if length q \<ge> max_depth p then Blocks else put (i # q)
            | FIFO_FULL_DROP \<Rightarrow> if length q < max_depth p then put (i # q) else Done s))"

definition SyncOrderBitmap :: "u64 \<Rightarrow> u64 \<Rightarrow> bool" where
  "SyncOrderBitmap target_sync_bitmaps current_bitmaps \<longleftrightarrow>
     target_sync_bitmaps = target_sync_bitmaps AND current_bitmaps"

text \<open>The packet enters the frame's cache.\<close>

definition add_packet :: "'p \<Rightarrow> nat \<Rightarrow> 'p stream_cache \<Rightarrow> 'p stream_cache" where
  "add_packet packet order c =
     c\<lparr>output_packs_sum := output_packs_sum c + 1, sync_bitmap := sync_bitmap c OR order_bit order,
       output_packs := (output_packs c)[order := Some packet]\<rparr>"

definition all_arrived :: "'p stream_cache \<Rightarrow> bool" where
  "all_arrived c \<longleftrightarrow> output_packs_sum c = length (output_packs c)"

text \<open>The last step: with one group and many running frames, those the graph dropped go.\<close>

definition clean_after :: "int \<Rightarrow> 'p base_xgraph \<Rightarrow> 'p base_xgraph" where
  "clean_after stamp s =
     (if length (output_stream_groud_cache s) = 1 \<and>
         length (inference_stream_cache s) \<ge> BASEXGRAPH_MIN_GLOBALCACHEDEPTH
      then s\<lparr>inference_stream_cache := clean_dropped stamp (inference_stream_cache s)\<rparr> else s)"

definition CallBackInferenceResult :: "int \<Rightarrow> 'p \<Rightarrow> nat \<Rightarrow> 'p base_xgraph \<Rightarrow> (bool \<times> 'p base_xgraph) outcome" where
  "CallBackInferenceResult stamp packet order s =
     (if length (output_order_groud_index s) \<le> order \<or> length (output_order_sync_bitmaps s) \<le> order
      then Undefined
      else
        (let g = output_order_groud_index s ! order;
             groud_size = length (output_stream_groud_cache s);
             target = output_order_sync_bitmaps s ! order
         in case map_of (inference_stream_cache s) stamp of
              None \<Rightarrow> Done (False, clean_after stamp s)
            | Some i \<Rightarrow>
                if length (output_packs (store s ! i)) \<le> order then Undefined
                else
                  (let c = add_packet packet order (store s ! i);
                       s1 = s\<lparr>store := (store s)[i := c]\<rparr>;
                       s2 = (if groud_size \<ge> 1 \<and> all_arrived c
                             then s1\<lparr>inference_stream_cache := smap_erase stamp (inference_stream_cache s1)\<rparr>
                             else s1);
                       is_move = (groud_size = 1 \<and> all_arrived c);
                       is_parted_shared = (groud_size > 1 \<and> SyncOrderBitmap target (sync_bitmap c))
                   in outcome_bind
                        (if is_move \<or> is_parted_shared then MoveOutputCache i g s2 else Done s2)
                        (\<lambda>s3. Done (True, clean_after stamp s3)))))"

definition GetOutputStreamCache :: "nat \<Rightarrow> bool \<Rightarrow> 'p base_xgraph \<Rightarrow> 'p stream_cache option \<times> 'p base_xgraph" where
  "GetOutputStreamCache g reuse s =
     (if length (output_stream_groud_cache s) \<le> g then (None, s)
      else (case output_stream_groud_cache s ! g of
              [] \<Rightarrow> (None, s)
            | i # q \<Rightarrow>
                (Some (store s ! i),
                 if reuse then s else s\<lparr>output_stream_groud_cache := (output_stream_groud_cache s)[g := q]\<rparr>)))"

section \<open>Bitmaps\<close>

lemma bit_order_bit: "o' < 64 \<Longrightarrow> bit (order_bit o') i = (i = o')"
  by (auto simp: order_bit_def bit_simps)

lemma bit_all_bits:
  assumes "\<forall>o'\<in>set orders. o' < 64"
  shows "bit (all_bits orders) i = (i \<in> set orders)"
proof -
  have "bit (fold (\<lambda>order m. m OR order_bit order) orders m) i = (bit m i \<or> i \<in> set orders)" for m
    using assms by (induction orders arbitrary: m) (auto simp: bit_or_iff bit_order_bit)
  from this [of 0] show ?thesis by (simp add: all_bits_def)
qed

lemma SyncOrderBitmap_iff: "SyncOrderBitmap t c \<longleftrightarrow> (\<forall>i. bit t i \<longrightarrow> bit c i)"
proof -
  have "bit t i \<Longrightarrow> i < 64" for i using bit_imp_le_length [of t i] by simp
  then show ?thesis unfolding SyncOrderBitmap_def by (auto simp: bit_eq_iff bit_and_iff)
qed

section \<open>The invariant\<close>

text \<open>
  What a configuration must satisfy: as many bitmaps and group indices as output streams, a
  list and a policy with room for every group, and, with several groups, a bitmap that holds
  all outputs of its own group.
\<close>

definition config_ok :: "'p base_xgraph \<Rightarrow> bool" where
  "config_ok s \<longleftrightarrow>
     (let n = length (output_stream_name s); gs = length (output_stream_groud_cache s)
      in n \<le> 64 \<and> length (output_order_sync_bitmaps s) = n \<and> length (output_order_groud_index s) = n \<and>
         (\<forall>g\<in>set (output_order_groud_index s). g < gs) \<and>
         gs \<le> length (output_stream_groud_clean_policy s) \<and>
         (\<forall>p\<in>set (output_stream_groud_clean_policy s). 0 < max_depth p) \<and>
         (1 < gs \<longrightarrow> (\<forall>o1<n. \<forall>o2<n. output_order_groud_index s ! o2 = output_order_groud_index s ! o1 \<longrightarrow>
            bit (output_order_sync_bitmaps s ! o1) o2)))"

definition stream_ok :: "nat \<Rightarrow> 'p stream_cache \<Rightarrow> bool" where
  "stream_ok n c \<longleftrightarrow> length (output_packs c) = n \<and>
     output_packs_sum c = length (filter (\<lambda>p. p \<noteq> None) (output_packs c)) \<and>
     (\<forall>i. bit (sync_bitmap c) i \<longrightarrow> i < n \<and> output_packs c ! i \<noteq> None)"

text \<open>A finished stream has the packets of every output of its group.\<close>

definition complete_for :: "'p base_xgraph \<Rightarrow> nat \<Rightarrow> 'p stream_cache \<Rightarrow> bool" where
  "complete_for s g c \<longleftrightarrow>
     (\<forall>o'<length (output_stream_name s). output_order_groud_index s ! o' = g \<longrightarrow> output_packs c ! o' \<noteq> None)"

definition streams_inv :: "'p base_xgraph \<Rightarrow> bool" where
  "streams_inv s \<longleftrightarrow> (\<forall>c\<in>set (store s). stream_ok (length (output_stream_name s)) c)"

definition inference_inv :: "'p base_xgraph \<Rightarrow> bool" where
  "inference_inv s \<longleftrightarrow> sorted_wrt (<) (map fst (inference_stream_cache s)) \<and>
     length (inference_stream_cache s) < BASEXGRAPH_MAX_GLOBALCACHEDEPTH \<and>
     (\<forall>e\<in>set (inference_stream_cache s). snd e < length (store s))"

definition groups_inv :: "'p base_xgraph \<Rightarrow> bool" where
  "groups_inv s \<longleftrightarrow>
     (\<forall>g<length (output_stream_groud_cache s).
        length (output_stream_groud_cache s ! g) \<le> max_depth (output_stream_groud_clean_policy s ! g) \<and>
        (\<forall>i\<in>set (output_stream_groud_cache s ! g). i < length (store s) \<and> complete_for s g (store s ! i)))"

definition xg_inv :: "'p base_xgraph \<Rightarrow> bool" where
  "xg_inv s \<longleftrightarrow> config_ok s \<and> streams_inv s \<and> inference_inv s \<and> groups_inv s"

subsection \<open>The map of running inferences\<close>

lemma clean_no_result_suffix: "\<exists>d. m = d @ clean_no_result m"
proof (induction m rule: clean_no_result.induct)
  case (2 e m)
  then show ?case by (metis append_Cons append_Nil clean_no_result.simps(2))
qed simp

lemma clean_no_result_length: "length (clean_no_result m) < BASEXGRAPH_MAX_GLOBALCACHEDEPTH"
  by (induction m rule: clean_no_result.induct) auto

lemma suffix_inference:
  assumes "inference_inv s" and "inference_stream_cache s = d @ m"
  shows "inference_inv (s\<lparr>inference_stream_cache := m\<rparr>)"
  using assms by (auto simp: inference_inv_def sorted_wrt_append)

lemma erase_inference:
  assumes "inference_inv s"
  shows "inference_inv (s\<lparr>inference_stream_cache := smap_erase k (inference_stream_cache s)\<rparr>)"
proof -
  let ?m = "inference_stream_cache s"
  have "length (smap_erase k ?m) \<le> length ?m" "set (smap_erase k ?m) \<subseteq> set ?m"
    by (auto simp: smap_erase_def)
  moreover have "sorted_wrt (<) (map fst (smap_erase k ?m))"
    using assms by (intro smap_erase_sorted) (simp add: inference_inv_def)
  ultimately show ?thesis using assms unfolding inference_inv_def by auto
qed

text \<open>The conditions on the other containers depend on the store only in part.\<close>

lemma config_ok_simps [simp]:
  "config_ok (s\<lparr>store := st\<rparr>) = config_ok s"
  "config_ok (s\<lparr>inference_stream_cache := m\<rparr>) = config_ok s"
  "config_ok (s\<lparr>graph_started := b\<rparr>) = config_ok s"
  by (simp_all add: config_ok_def)

lemma streams_inv_simps [simp]:
  "streams_inv (s\<lparr>inference_stream_cache := m\<rparr>) = streams_inv s"
  "streams_inv (s\<lparr>graph_started := b\<rparr>) = streams_inv s"
  "streams_inv (s\<lparr>output_stream_groud_cache := gs\<rparr>) = streams_inv s"
  by (simp_all add: streams_inv_def)

lemma groups_inv_simps [simp]:
  "groups_inv (s\<lparr>inference_stream_cache := m\<rparr>) = groups_inv s"
  "groups_inv (s\<lparr>graph_started := b\<rparr>) = groups_inv s"
  by (simp_all add: groups_inv_def complete_for_def)

lemma inference_inv_simps [simp]:
  "inference_inv (s\<lparr>graph_started := b\<rparr>) = inference_inv s"
  "inference_inv (s\<lparr>output_stream_groud_cache := gs\<rparr>) = inference_inv s"
  by (simp_all add: inference_inv_def)

lemma groups_inv_store:
  assumes "groups_inv s" and "length (store s) \<le> length st"
    and "\<And>i k. i < length (store s) \<Longrightarrow> k < length (output_stream_name s) \<Longrightarrow>
      output_packs (store s ! i) ! k \<noteq> None \<Longrightarrow> output_packs (st ! i) ! k \<noteq> None"
  shows "groups_inv (s\<lparr>store := st\<rparr>)"
  using assms unfolding groups_inv_def complete_for_def by (auto 4 3 intro: less_le_trans)

lemma dropWhile_suffix: "\<exists>d. m = d @ dropWhile P m"
  by (metis takeWhile_dropWhile_id)

lemma clean_after_inv [inv_intros]: "xg_inv s \<Longrightarrow> xg_inv (clean_after stamp s)"
proof -
  assume s: "xg_inv s"
  obtain d where "inference_stream_cache s = d @ clean_dropped stamp (inference_stream_cache s)"
    using dropWhile_suffix unfolding clean_dropped_def by blast
  with s suffix_inference [of s d] show ?thesis by (simp add: clean_after_def xg_inv_def)
qed

lemma stream_ok_fresh:
  "stream_ok n \<lparr>raw_timestamp = raw, output_packs_sum = 0, sync_bitmap = 0, output_packs = replicate n None\<rparr>"
  by (simp add: stream_ok_def)

lemma SetInput_inv [inv_intros]:
  assumes "xg_inv s"
  shows "xg_inv (snd (SetInputStreamCache raw stamp s))"
proof (cases "graph_started s \<and> map_of (inference_stream_cache s) stamp = None")
  case False
  with assms show ?thesis by (auto simp: SetInputStreamCache_def)
next
  case True
  let ?m = "smap_insert stamp (length (store s)) (inference_stream_cache s)"
  let ?c = "\<lparr>raw_timestamp = raw, output_packs_sum = 0, sync_bitmap = 0,
      output_packs = replicate (length (output_stream_name s)) None\<rparr>"
  let ?t = "s\<lparr>store := store s @ [?c]\<rparr>"
  obtain d where d: "?m = d @ clean_no_result ?m" using clean_no_result_suffix by blast
  have fresh: "stamp \<notin> fst ` set (inference_stream_cache s)" using True by (simp add: map_of_eq_None_iff)
  have "sorted_wrt (<) (map fst ?m)"
    using assms by (intro smap_insert_sorted) (simp add: xg_inv_def inference_inv_def)
  then have "sorted_wrt (<) (map fst (clean_no_result ?m))"
    by (subst (asm) d) (simp add: sorted_wrt_append)
  moreover have "set (clean_no_result ?m) \<subseteq> insert (stamp, length (store s)) (set (inference_stream_cache s))"
  proof -
    have "set_mset (mset ?m) = insert (stamp, length (store s)) (set (inference_stream_cache s))"
      by (simp add: mset_smap_insert_fresh [OF fresh])
    moreover have "set (clean_no_result ?m) \<subseteq> set ?m" using d by (metis set_append Un_upper2)
    ultimately show ?thesis by simp
  qed
  moreover from this have "\<forall>e\<in>set (clean_no_result ?m). snd e < Suc (length (store s))"
    using assms unfolding inference_inv_def xg_inv_def by fastforce
  ultimately have inf: "inference_inv (?t\<lparr>inference_stream_cache := clean_no_result ?m\<rparr>)"
    using clean_no_result_length [of ?m] by (simp add: inference_inv_def)
  have "streams_inv ?t" using assms stream_ok_fresh by (simp add: xg_inv_def streams_inv_def)
  moreover have "groups_inv ?t"
    using assms by (intro groups_inv_store) (simp_all add: xg_inv_def nth_append)
  ultimately show ?thesis
    using inf assms True by (simp add: xg_inv_def SetInputStreamCache_def Let_def)
qed

lemma ClearInput_inv [inv_intros]: "xg_inv s \<Longrightarrow> xg_inv (ClearInputStreamCache stamp s)"
  by (simp add: xg_inv_def ClearInputStreamCache_def erase_inference)

subsection \<open>The lists of finished streams\<close>

lemma config_groups:
  "length gs = length (output_stream_groud_cache s) \<Longrightarrow>
     config_ok (s\<lparr>output_stream_groud_cache := gs\<rparr>) = config_ok s"
  by (simp add: config_ok_def)

lemma groups_inv_update:
  assumes "groups_inv s" and "g < length (output_stream_groud_cache s)"
    and "length q \<le> max_depth (output_stream_groud_clean_policy s ! g)"
    and "\<forall>i\<in>set q. i < length (store s) \<and> complete_for s g (store s ! i)"
  shows "groups_inv (s\<lparr>output_stream_groud_cache := (output_stream_groud_cache s)[g := q]\<rparr>)"
  using assms by (auto simp: groups_inv_def complete_for_def nth_list_update)

lemma MoveOutput_inv:
  assumes "xg_inv s" and "i < length (store s)" and "complete_for s g (store s ! i)"
    and "MoveOutputCache i g s = Done t"
  shows "xg_inv t"
proof -
  let ?q = "output_stream_groud_cache s ! g" and ?p = "output_stream_groud_clean_policy s ! g"
  have upd: "xg_inv (s\<lparr>output_stream_groud_cache := (output_stream_groud_cache s)[g := q]\<rparr>)"
    if "g < length (output_stream_groud_cache s)" "set q \<subseteq> insert i (set ?q)" "length q \<le> max_depth ?p" for q
  proof -
    have "\<forall>k\<in>set q. k < length (store s) \<and> complete_for s g (store s ! k)"
      using assms(1-3) that by (auto simp: xg_inv_def groups_inv_def)
    with assms(1) that groups_inv_update [of s g q] show ?thesis
      by (simp add: xg_inv_def config_groups)
  qed
  have len: "length ?q \<le> max_depth ?p" if "g < length (output_stream_groud_cache s)"
    using assms(1) that by (simp add: xg_inv_def groups_inv_def)
  have "0 < max_depth ?p" if "g < length (output_stream_groud_clean_policy s)"
    using assms(1) that by (simp add: xg_inv_def config_ok_def Let_def)
  moreover have "set (butlast ?q) \<subseteq> set ?q" by (auto dest: in_set_butlastD)
  ultimately show ?thesis using assms(1,4) len
    by (auto simp: MoveOutputCache_def Let_def not_le Suc_le_eq split: if_splits fifo_strategy.splits
        intro!: upd)
qed

subsection \<open>Packets\<close>

lemma add_packet_ok:
  assumes "stream_ok n c" and "order < n" and "n \<le> 64" and "output_packs c ! order = None"
  shows "stream_ok n (add_packet p order c)"
proof -
  have "length (filter (\<lambda>p. p \<noteq> None) (xs[k := Some p])) = Suc (length (filter (\<lambda>p. p \<noteq> None) xs))"
    if "k < length xs" "xs ! k = None" for xs :: "'a option list" and k
    using that by (induction xs arbitrary: k) (auto simp: nth_Cons split: nat.splits)
  with assms show ?thesis
    by (auto simp: stream_ok_def add_packet_def bit_or_iff bit_order_bit nth_list_update)
qed

lemma add_packet_keeps:
  "output_packs c ! k \<noteq> None \<Longrightarrow> output_packs (add_packet p order c) ! k \<noteq> None"
  by (cases "k = order"; cases "order < length (output_packs c)")
    (auto simp: add_packet_def list_update_beyond)

lemma arrived_complete:
  assumes "stream_ok n c" and "all_arrived c" and "k < n"
  shows "output_packs c ! k \<noteq> None"
proof -
  have "length (filter (\<lambda>p. p \<noteq> None) (output_packs c)) = length (output_packs c)"
    using assms by (simp add: stream_ok_def all_arrived_def)
  then have "filter (\<lambda>p. p \<noteq> None) (output_packs c) = output_packs c"
    by (metis filter_False filter_True length_filter_less less_irrefl)
  then have "\<forall>p\<in>set (output_packs c). p \<noteq> None" by (simp add: filter_id_conv)
  with assms show ?thesis by (metis nth_mem stream_ok_def)
qed

text \<open>
  The environment's side: an output stream of the graph delivers at most one packet for a
  timestamp (the timestamps of a mediapipe stream strictly increase).
\<close>

definition fresh_packet :: "int \<Rightarrow> nat \<Rightarrow> 'p base_xgraph \<Rightarrow> bool" where
  "fresh_packet stamp order s \<longleftrightarrow>
     (\<forall>i. map_of (inference_stream_cache s) stamp = Some i \<longrightarrow> output_packs (store s ! i) ! order = None)"

lemma CallBack_inv [inv_intros]:
  assumes "xg_inv s" and "order < length (output_stream_name s)" and "fresh_packet stamp order s"
    and "CallBackInferenceResult stamp p order s = Done (ret, t)"
  shows "xg_inv t"
proof (cases "map_of (inference_stream_cache s) stamp")
  case None
  with assms show ?thesis
    by (auto simp: CallBackInferenceResult_def Let_def split: if_splits intro: clean_after_inv)
next
  case (Some i)
  let ?n = "length (output_stream_name s)" and ?g = "output_order_groud_index s ! order"
  let ?c = "add_packet p order (store s ! i)"
  let ?s1 = "s\<lparr>store := (store s)[i := ?c]\<rparr>"
  let ?s2 = "if length (output_stream_groud_cache s) \<ge> 1 \<and> all_arrived ?c
             then ?s1\<lparr>inference_stream_cache := smap_erase stamp (inference_stream_cache ?s1)\<rparr> else ?s1"
  from assms(1) have cfg: "config_ok s" and n64: "?n \<le> 64" by (auto simp: xg_inv_def config_ok_def Let_def)
  from Some have "(stamp, i) \<in> set (inference_stream_cache s)" by (rule map_of_SomeD)
  with assms(1) have i: "i < length (store s)" by (auto simp: xg_inv_def inference_inv_def)
  with assms(1) have "stream_ok ?n (store s ! i)" by (simp add: xg_inv_def streams_inv_def)
  with assms(2,3) n64 Some have c: "stream_ok ?n ?c"
    by (intro add_packet_ok) (auto simp: fresh_packet_def)
  have "streams_inv ?s1"
    using assms(1) c by (auto simp: xg_inv_def streams_inv_def dest!: subsetD [OF set_update_subset_insert])
  moreover have "groups_inv ?s1"
  proof (rule groups_inv_store)
    show "groups_inv s" using assms(1) by (simp add: xg_inv_def)
    fix j k
    assume "output_packs (store s ! j) ! k \<noteq> None" "j < length (store s)"
    then show "output_packs ((store s)[i := ?c] ! j) ! k \<noteq> None"
      by (cases "j = i") (simp_all add: add_packet_keeps del: not_None_eq)
  qed simp
  moreover have "inference_inv ?s1" using assms(1) by (simp add: xg_inv_def inference_inv_def)
  ultimately have s1: "xg_inv ?s1" using cfg by (simp add: xg_inv_def)
  then have s2: "xg_inv ?s2" using erase_inference [of ?s1 stamp] by (simp add: xg_inv_def)
  have comp: "complete_for ?s2 ?g (store ?s2 ! i)"
    if d: "length (output_stream_groud_cache s) = 1 \<and> all_arrived ?c \<or>
        length (output_stream_groud_cache s) > 1 \<and> SyncOrderBitmap (output_order_sync_bitmaps s ! order) (sync_bitmap ?c)"
  proof -
    have "output_packs ?c ! k \<noteq> None" if k: "k < ?n" "output_order_groud_index s ! k = ?g" for k
    proof (cases "length (output_stream_groud_cache s) = 1")
      case True
      with d arrived_complete [OF c _ k(1)] show ?thesis by simp
    next
      case False
      with d have "1 < length (output_stream_groud_cache s)"
        and sb: "SyncOrderBitmap (output_order_sync_bitmaps s ! order) (sync_bitmap ?c)" by auto
      with cfg assms(2) k have "bit (output_order_sync_bitmaps s ! order) k"
        by (simp add: config_ok_def Let_def)
      with sb c show ?thesis by (auto simp: SyncOrderBitmap_iff stream_ok_def)
    qed
    then show ?thesis using i by (simp add: complete_for_def)
  qed
  have i2: "i < length (store ?s2)" using i by simp
  from assms(4) Some obtain s3 where t: "t = clean_after stamp s3"
    and s3: "(if length (output_stream_groud_cache s) = 1 \<and> all_arrived ?c \<or>
        length (output_stream_groud_cache s) > 1 \<and> SyncOrderBitmap (output_order_sync_bitmaps s ! order) (sync_bitmap ?c)
        then MoveOutputCache i ?g ?s2 else Done ?s2) = Done s3"
    by (auto simp: CallBackInferenceResult_def Let_def split: if_splits elim!: outcome_bind_Done)
  have "xg_inv s3"
    using s3 s2 MoveOutput_inv [OF s2 i2 comp] by (auto split: if_splits)
  with t show ?thesis by (simp add: clean_after_inv)
qed

section \<open>Reachable states\<close>

text \<open>
  Frames are pushed and withdrawn, packets arrive, results are read or taken, the graph is
  started and stopped, in any order. A callback that waits for ever takes no step.
\<close>

inductive xg_step :: "'p base_xgraph \<Rightarrow> 'p base_xgraph \<Rightarrow> bool" where
  xg_push: "xg_step s (snd (SetInputStreamCache raw stamp s))"
| xg_withdraw: "xg_step s (ClearInputStreamCache stamp s)"
| xg_callback: "order < length (output_stream_name s) \<Longrightarrow> fresh_packet stamp order s \<Longrightarrow>
    CallBackInferenceResult stamp p order s = Done (ret, t) \<Longrightarrow> xg_step s t"
| xg_get: "xg_step s (snd (GetOutputStreamCache g reuse s))"
| xg_start: "xg_step s (snd (base_start ok s))"
| xg_stop: "xg_step s (snd (base_stop ok s))"

inductive_cases xg_stepE: "xg_step s t"

lemma GetOutput_inv [inv_intros]: "xg_inv s \<Longrightarrow> xg_inv (snd (GetOutputStreamCache g reuse s))"
proof (cases "length (output_stream_groud_cache s) \<le> g \<or> output_stream_groud_cache s ! g = [] \<or> reuse")
  case True
  then show "xg_inv s \<Longrightarrow> xg_inv (snd (GetOutputStreamCache g reuse s))"
    by (auto simp: GetOutputStreamCache_def split: list.splits)
next
  case False
  then obtain i q where q: "output_stream_groud_cache s ! g = i # q" by (auto simp: neq_Nil_conv)
  assume s: "xg_inv s"
  with False q have g: "g < length (output_stream_groud_cache s)"
    and "length (i # q) \<le> max_depth (output_stream_groud_clean_policy s ! g)"
    and "\<forall>k\<in>set (i # q). k < length (store s) \<and> complete_for s g (store s ! k)"
    unfolding xg_inv_def groups_inv_def by (metis not_le)+
  with s groups_inv_update [of s g q] have "xg_inv (s\<lparr>output_stream_groud_cache := (output_stream_groud_cache s)[g := q]\<rparr>)"
    by (simp add: xg_inv_def config_groups)
  with False q show "xg_inv (snd (GetOutputStreamCache g reuse s))"
    by (simp add: GetOutputStreamCache_def)
qed

lemma start_stop_inv [inv_intros]:
  "xg_inv s \<Longrightarrow> xg_inv (snd (base_start ok s))" "xg_inv s \<Longrightarrow> xg_inv (snd (base_stop ok s))"
  by (simp_all add: xg_inv_def base_start_def base_stop_def)

lemma xg_step_inv: "xg_step s t \<Longrightarrow> xg_inv s \<Longrightarrow> xg_inv t"
  by (induction rule: xg_step.induct) (auto intro: inv_intros)

text \<open>A configured graph that has not run: the containers are empty.\<close>

definition configured :: "'p base_xgraph \<Rightarrow> bool" where
  "configured s \<longleftrightarrow> config_ok s \<and> store s = [] \<and> inference_stream_cache s = [] \<and>
     (\<forall>q\<in>set (output_stream_groud_cache s). q = [])"

lemma configured_inv: "configured s \<Longrightarrow> xg_inv s"
proof -
  assume s: "configured s"
  then have e: "\<forall>g<length (output_stream_groud_cache s). output_stream_groud_cache s ! g = []"
    by (simp add: configured_def)
  then have "groups_inv s" by (simp add: groups_inv_def)
  with s show "xg_inv s" by (simp add: configured_def xg_inv_def streams_inv_def inference_inv_def)
qed

lemma max_zero_power [simp]: "(max 0 ^^ n) (0 :: nat) = 0"
  by (induction n) simp_all

lemma base_init_configured:
  "length names \<le> 64 \<Longrightarrow> configured (base_init names base_xgraph_new)"
  by (simp add: configured_def base_init_def Let_def base_xgraph_new_def SetMultipleOutputSync_def
      SetMultipleOutputCleanStrategy_def config_ok_def)

text \<open>
  C2: from a configured graph, whatever the order of pushes, packets, reads, starts and stops:
  a result that is handed out by its group has a packet of every output stream of that group,
  a group never holds more results than its policy allows, and the map of running frames
  stays ordered by timestamp with fewer than 900 entries.
\<close>

theorem streams_delivered_complete:
  assumes "configured s0" and "xg_step\<^sup>*\<^sup>* s0 s"
  shows "(\<forall>g c. fst (GetOutputStreamCache g reuse s) = Some c \<longrightarrow>
      length (output_packs c) = length (output_stream_name s) \<and> complete_for s g c) \<and>
    (\<forall>g<length (output_stream_groud_cache s).
      length (output_stream_groud_cache s ! g) \<le> max_depth (output_stream_groud_clean_policy s ! g)) \<and>
    sorted_wrt (<) (map fst (inference_stream_cache s)) \<and>
    length (inference_stream_cache s) < BASEXGRAPH_MAX_GLOBALCACHEDEPTH"
proof -
  from assms(2,1) have inv: "xg_inv s"
    by (induction rule: rtranclp_induct) (auto intro: configured_inv xg_step_inv)
  have "length (output_packs c) = length (output_stream_name s) \<and> complete_for s g c"
    if "fst (GetOutputStreamCache g reuse s) = Some c" for g c
  proof -
    from that obtain i q where g: "g < length (output_stream_groud_cache s)"
      "output_stream_groud_cache s ! g = i # q" "c = store s ! i"
      by (auto simp: GetOutputStreamCache_def split: if_splits list.splits)
    then have "i \<in> set (output_stream_groud_cache s ! g)" by simp
    with inv g have "i < length (store s)" "complete_for s g c"
      by (auto simp: xg_inv_def groups_inv_def)
    with inv g show ?thesis by (auto simp: xg_inv_def streams_inv_def stream_ok_def)
  qed
  with inv show ?thesis by (simp add: xg_inv_def groups_inv_def inference_inv_def)
qed

text \<open>One frame through a graph with one output stream.\<close>

definition example_graph :: "nat base_xgraph" where
  "example_graph = base_init [''hand_result''] base_xgraph_new"

definition example_pushed :: "nat base_xgraph" where
  "example_pushed = snd (SetInputStreamCache 5000 5 (snd (base_start True example_graph)))"

lemma example_callback:
  "\<exists>t c. CallBackInferenceResult 5 7 0 example_pushed = Done (True, t) \<and>
     fst (GetOutputStreamCache 0 True t) = Some c \<and> output_packs c = [Some 7]"
  by (simp add: example_pushed_def example_graph_def base_init_def Let_def base_xgraph_new_def
      SetMultipleOutputSync_def SetMultipleOutputCleanStrategy_def base_start_def SetInputStreamCache_def
      CallBackInferenceResult_def add_packet_def all_arrived_def MoveOutputCache_def clean_after_def
      smap_erase_def GetOutputStreamCache_def)

theorem streams_delivered_complete_witness:
  "\<exists>t c. xg_step\<^sup>*\<^sup>* example_graph t \<and> fst (GetOutputStreamCache 0 True t) = Some c \<and>
     output_packs c = [Some 7] \<and> length (output_packs c) = length (output_stream_name t) \<and> complete_for t 0 c"
proof -
  obtain t c where t: "CallBackInferenceResult 5 7 0 example_pushed = Done (True, t)"
    "fst (GetOutputStreamCache 0 True t) = Some c" "output_packs c = [Some 7]"
    using example_callback by blast
  have "xg_step example_graph (snd (base_start True example_graph))" by (rule xg_start)
  moreover have "xg_step (snd (base_start True example_graph)) example_pushed"
    unfolding example_pushed_def by (rule xg_push)
  moreover have "xg_step example_pushed t"
    by (rule xg_callback [OF _ _ t(1)])
      (simp_all add: example_pushed_def example_graph_def base_init_def Let_def base_xgraph_new_def
        SetMultipleOutputSync_def SetMultipleOutputCleanStrategy_def base_start_def SetInputStreamCache_def
        fresh_packet_def)
  ultimately have r: "xg_step\<^sup>*\<^sup>* example_graph t" by (meson rtranclp.intros)
  have "configured example_graph" unfolding example_graph_def by (rule base_init_configured) simp
  from streams_delivered_complete [OF this r] r t show ?thesis by blast
qed

section \<open>Waiting with the lock held\<close>

text \<open>
  \<open>MoveOutputCache\<close> with \<open>FIFO_FULL_BLOCK\<close> against the consumer, at the grain of the mutex
  \<open>m_output_lock\<close>. The producer takes the lock, then sleeps and tests again while the graph
  runs and the list is full; the consumer needs the same lock to take a result.
\<close>

datatype lock_owner = Nobody | Producer | Consumer

record block_sys =
  owner :: lock_owner
  running :: bool
  depth :: nat
  results :: "nat list"
  pending :: "nat list"

inductive block_step :: "block_sys \<Rightarrow> block_sys \<Rightarrow> bool" where
  producer_locks: "owner s = Nobody \<Longrightarrow> running s \<Longrightarrow> pending s \<noteq> [] \<Longrightarrow> block_step s (s\<lparr>owner := Producer\<rparr>)"
| producer_sleeps: "owner s = Producer \<Longrightarrow> running s \<Longrightarrow> depth s \<le> length (results s) \<Longrightarrow> block_step s s"
| producer_puts: "owner s = Producer \<Longrightarrow> running s \<Longrightarrow> length (results s) < depth s \<Longrightarrow>
    pending s = i # q \<Longrightarrow> block_step s (s\<lparr>owner := Nobody, results := i # results s, pending := q\<rparr>)"
| producer_gives_up: "owner s = Producer \<Longrightarrow> \<not> running s \<Longrightarrow> pending s = i # q \<Longrightarrow>
    block_step s (s\<lparr>owner := Nobody, pending := q\<rparr>)"
| consumer_locks: "owner s = Nobody \<Longrightarrow> results s \<noteq> [] \<Longrightarrow> block_step s (s\<lparr>owner := Consumer\<rparr>)"
| consumer_takes: "owner s = Consumer \<Longrightarrow> results s = i # q \<Longrightarrow>
    block_step s (s\<lparr>owner := Nobody, results := q\<rparr>)"
| result_arrives: "block_step s (s\<lparr>pending := pending s @ [i]\<rparr>)"

inductive_cases block_stepE: "block_step s t"

lemma block_steps_stuck:
  assumes "block_step\<^sup>*\<^sup>* s t" and "owner s = Producer" and "running s" and "depth s \<le> length (results s)"
  shows "t = s\<lparr>pending := pending t\<rparr> \<and> prefix (pending s) (pending t)"
  using assms
proof (induction rule: rtranclp_induct)
  case (step t u)
  then have t: "t = s\<lparr>pending := pending t\<rparr>" "prefix (pending s) (pending t)" by simp_all
  then have "owner t = Producer" "running t" "depth t \<le> length (results t)"
    using step.prems by (metis block_sys.select_convs block_sys.surjective block_sys.update_convs(5))+
  with step(2) have "u = t \<or> (\<exists>i. u = t\<lparr>pending := pending t @ [i]\<rparr>)"
    by (auto elim: block_stepE)
  then show ?case
  proof
    assume "\<exists>i. u = t\<lparr>pending := pending t @ [i]\<rparr>"
    then obtain i where u: "u = t\<lparr>pending := pending t @ [i]\<rparr>" ..
    with t(1) have "u = s\<lparr>pending := pending u\<rparr>"
      by (metis block_sys.select_convs(5) block_sys.surjective block_sys.update_convs(5))
    moreover have "prefix (pending s) (pending u)" using t(2) by (simp add: u prefix_prefix)
    ultimately show ?thesis by blast
  qed (use t in simp)
qed simp

text \<open>
  Once the producer waits for room it waits for ever: unless the graph is stopped, no
  result is ever taken, put or dropped again, because the only thread that could make room
  needs the lock that the producer holds while it sleeps.
\<close>

lemma block_policy_deadlocks:
  assumes "block_step\<^sup>*\<^sup>* s t" and "owner s = Producer" and "running s" and "depth s \<le> length (results s)"
  shows "owner t = Producer \<and> running t \<and> results t = results s \<and> prefix (pending s) (pending t)"
proof -
  from block_steps_stuck [OF assms] have t: "t = s\<lparr>pending := pending t\<rparr>" "prefix (pending s) (pending t)"
    by simp_all
  from t(1) assms(2,3) have "owner t = Producer \<and> running t \<and> results t = results s"
    by (metis block_sys.select_convs(1,2,4) block_sys.surjective block_sys.update_convs(5))
  with t(2) show ?thesis by blast
qed

definition example_block :: block_sys where
  "example_block = \<lparr>owner = Producer, running = True, depth = 1, results = [1], pending = [2]\<rparr>"

end
