(* ===== verification/StreamDelivery.thy ===== *)
theory StreamDelivery
  imports StreamCache
begin

text \<open>
  What the caller of \<open>BaseXGraph\<close> (\<^verbatim>\<open>aisdk/task/handtracking/base_xgraph.cpp\<close>) can rely on: a
  group of the policy \<open>FIFO_FULL_LOOP_COVER\<close> refines the history of the finished frames, and
  a registered frame whose packets all arrive is delivered.
\<close>

section \<open>A group is the end of the history\<close>

text \<open>
  The abstract state is the history of the frames that were finished, oldest first; the group
  holds the newest of them, newest first.
\<close>

definition group_abs :: "nat \<Rightarrow> nat list \<Rightarrow> 'p base_xgraph \<Rightarrow> bool" where
  "group_abs g history s \<longleftrightarrow> g < length (output_stream_groud_cache s) \<and>
     g < length (output_stream_groud_clean_policy s) \<and>
     output_stream_groud_cache s ! g = take (max_depth (output_stream_groud_clean_policy s ! g)) (rev history)"

definition covering :: "nat \<Rightarrow> 'p base_xgraph \<Rightarrow> bool" where
  "covering g s \<longleftrightarrow> clean_policy (output_stream_groud_clean_policy s ! g) = FIFO_FULL_LOOP_COVER \<and>
     0 < max_depth (output_stream_groud_clean_policy s ! g)"

text \<open>The steps of the two sides: a finished frame enters, the newest is read or taken.\<close>

datatype group_op = Finish nat | ReadNewest

fun concrete_op :: "nat \<Rightarrow> group_op \<Rightarrow> 'p base_xgraph \<Rightarrow> (nat option \<times> 'p base_xgraph) outcome" where
  "concrete_op g (Finish i) s = outcome_bind (MoveOutputCache i g s) (\<lambda>t. Done (None, t))"
| "concrete_op g ReadNewest s =
     Done (case output_stream_groud_cache s ! g of [] \<Rightarrow> None | i # q \<Rightarrow> Some i,
           snd (GetOutputStreamCache g True s))"

fun abstract_op :: "group_op \<Rightarrow> nat list \<Rightarrow> nat option \<times> nat list" where
  "abstract_op (Finish i) h = (None, h @ [i])"
| "abstract_op ReadNewest h = (if h = [] then None else Some (last h), h)"

lemma take_cons_full: "0 < d \<Longrightarrow> take d (i # xs) = i # (if d \<le> length xs then butlast (take d xs) else xs)"
  by (cases d) (auto simp: butlast_take)

lemma finish_refines:
  assumes "group_abs g h s" and "covering g s" and "graph_started s"
  shows "\<exists>t. MoveOutputCache i g s = Done t \<and> group_abs g (h @ [i]) t \<and> covering g t \<and> graph_started t"
proof -
  let ?d = "max_depth (output_stream_groud_clean_policy s ! g)"
  let ?q = "output_stream_groud_cache s ! g"
  have q: "?q = take ?d (rev h)" and d: "0 < ?d" using assms by (auto simp: group_abs_def covering_def)
  have full: "?d \<le> length ?q \<longleftrightarrow> ?d \<le> length h" using q by simp
  define q' where "q' = take ?d (rev (h @ [i]))"
  have "MoveOutputCache i g s = Done (s\<lparr>output_stream_groud_cache := (output_stream_groud_cache s)[g := q']\<rparr>)"
  proof (cases "?d \<le> length h")
    case True
    then have "?q \<noteq> []" using q d by auto
    with True full assms d show ?thesis
      by (simp add: MoveOutputCache_def group_abs_def covering_def q'_def take_cons_full Let_def)
  next
    case False
    with full assms d q show ?thesis
      by (simp add: MoveOutputCache_def group_abs_def covering_def q'_def take_cons_full Let_def)
  qed
  with assms show ?thesis by (simp add: group_abs_def covering_def q'_def)
qed

fun concrete_run :: "nat \<Rightarrow> group_op list \<Rightarrow> 'p base_xgraph \<Rightarrow> (nat option list \<times> 'p base_xgraph) outcome" where
  "concrete_run g [] s = Done ([], s)"
| "concrete_run g (a # ops) s =
     outcome_bind (concrete_op g a s) (\<lambda>(r, t). outcome_bind (concrete_run g ops t) (\<lambda>(rs, u). Done (r # rs, u)))"

fun abstract_run :: "group_op list \<Rightarrow> nat list \<Rightarrow> nat option list \<times> nat list" where
  "abstract_run [] h = ([], h)"
| "abstract_run (a # ops) h = (let (r, h1) = abstract_op a h; (rs, h2) = abstract_run ops h1 in (r # rs, h2))"

lemma op_refines:
  assumes "group_abs g h s" and "covering g s" and "graph_started s" and "abstract_op a h = (r, h')"
  shows "\<exists>t. concrete_op g a s = Done (r, t) \<and> group_abs g h' t \<and> covering g t \<and> graph_started t"
proof (cases a)
  case (Finish i)
  with finish_refines [OF assms(1-3), of i] assms(4) show ?thesis by auto
next
  case ReadNewest
  have "(case output_stream_groud_cache s ! g of [] \<Rightarrow> None | i # q \<Rightarrow> Some i) = (if h = [] then None else Some (last h))"
    using assms(1,2) by (cases h rule: rev_cases) (auto simp: group_abs_def covering_def take_Cons')
  moreover have "snd (GetOutputStreamCache g True s) = s"
    by (simp add: GetOutputStreamCache_def split: list.splits)
  ultimately show ?thesis using ReadNewest assms by auto
qed



section \<open>Delivery\<close>

text \<open>The configuration that \<open>Init\<close> leaves: one group of all \<open>n\<close> outputs.\<close>

definition single_group :: "nat \<Rightarrow> 'p base_xgraph \<Rightarrow> bool" where
  "single_group n s \<longleftrightarrow> length (output_stream_groud_cache s) = 1 \<and> 0 < length (output_stream_groud_clean_policy s) \<and>
     covering 0 s \<and> length (output_order_groud_index s) = n \<and> length (output_order_sync_bitmaps s) = n \<and>
     (\<forall>k<n. output_order_groud_index s ! k = 0) \<and> length (output_stream_name s) = n"

fun callbacks :: "int \<Rightarrow> (nat \<times> 'p) list \<Rightarrow> 'p base_xgraph \<Rightarrow> 'p base_xgraph outcome" where
  "callbacks stamp [] s = Done s"
| "callbacks stamp ((order, p) # ps) s =
     outcome_bind (CallBackInferenceResult stamp p order s) (\<lambda>(ok, t). callbacks stamp ps t)"

text \<open>The frame at address \<open>i\<close> still waits for the packets \<open>ps\<close>.\<close>

definition waits_for :: "nat \<Rightarrow> int \<Rightarrow> nat \<Rightarrow> (nat \<times> 'p) list \<Rightarrow> 'p base_xgraph \<Rightarrow> bool" where
  "waits_for n stamp i ps s \<longleftrightarrow> single_group n s \<and> graph_started s \<and>
     map_of (inference_stream_cache s) stamp = Some i \<and> i < length (store s) \<and>
     length (output_packs (store s ! i)) = n \<and> output_packs_sum (store s ! i) + length ps = n \<and>
     (\<forall>(k, p)\<in>set ps. k < n)"

lemma map_of_clean_dropped: "map_of (clean_dropped stamp m) stamp = map_of m stamp"
  by (induction m) (auto simp: clean_dropped_def)

lemma clean_after_simps [simp]:
  "store (clean_after stamp s) = store s" "graph_started (clean_after stamp s) = graph_started s"
  "output_stream_groud_cache (clean_after stamp s) = output_stream_groud_cache s"
  "output_stream_groud_clean_policy (clean_after stamp s) = output_stream_groud_clean_policy s"
  "output_order_groud_index (clean_after stamp s) = output_order_groud_index s"
  "output_order_sync_bitmaps (clean_after stamp s) = output_order_sync_bitmaps s"
  "output_stream_name (clean_after stamp s) = output_stream_name s"
  "map_of (inference_stream_cache (clean_after stamp s)) stamp = map_of (inference_stream_cache s) stamp"
  by (simp_all add: clean_after_def map_of_clean_dropped)

lemma callback_waits:
  assumes "waits_for n stamp i ((order, p) # ps) s" and "ps \<noteq> []"
  shows "\<exists>t. CallBackInferenceResult stamp p order s = Done (True, t) \<and> waits_for n stamp i ps t \<and>
    store t ! i = add_packet p order (store s ! i)"
proof -
  from assms have "\<not> all_arrived (add_packet p order (store s ! i))" "order < n"
    by (cases ps; auto simp: waits_for_def all_arrived_def add_packet_def)+
  with assms(1) show ?thesis
    by (auto simp: CallBackInferenceResult_def waits_for_def single_group_def covering_def Let_def add_packet_def)
qed

lemma callback_last:
  assumes "waits_for n stamp i [(order, p)] s"
  shows "\<exists>t. CallBackInferenceResult stamp p order s = Done (True, t) \<and>
    fst (GetOutputStreamCache 0 reuse t) = Some (add_packet p order (store s ! i))"
proof -
  from assms have w: "all_arrived (add_packet p order (store s ! i))" "order < n"
    by (auto simp: waits_for_def all_arrived_def add_packet_def)
  define s2 where "s2 = s\<lparr>store := (store s)[i := add_packet p order (store s ! i)],
      inference_stream_cache := smap_erase stamp (inference_stream_cache s)\<rparr>"
  have r: "CallBackInferenceResult stamp p order s =
      outcome_bind (MoveOutputCache i 0 s2) (\<lambda>s3. Done (True, clean_after stamp s3))"
    using assms w by (simp add: CallBackInferenceResult_def waits_for_def single_group_def Let_def s2_def)
  let ?d = "max_depth (output_stream_groud_clean_policy s ! 0)" and ?q = "output_stream_groud_cache s ! 0"
  define s3 where "s3 q = s2\<lparr>output_stream_groud_cache := (output_stream_groud_cache s)[0 := i # q]\<rparr>" for q
  have "MoveOutputCache i 0 s2 = Done (s3 (if ?d \<le> length ?q then butlast ?q else ?q))"
    using assms by (auto simp: MoveOutputCache_def s2_def s3_def waits_for_def single_group_def covering_def Let_def)
  then obtain q where "MoveOutputCache i 0 s2 = Done (s3 q)" by blast
  with r have "CallBackInferenceResult stamp p order s = Done (True, clean_after stamp (s3 q))" by simp
  moreover have "fst (GetOutputStreamCache 0 reuse (clean_after stamp (s3 q))) = Some (add_packet p order (store s ! i))"
    using assms by (simp add: GetOutputStreamCache_def s2_def s3_def waits_for_def single_group_def)
  ultimately show ?thesis by blast
qed

lemma callbacks_deliver:
  assumes "waits_for n stamp i ps s" and "ps \<noteq> []"
  shows "\<exists>t. callbacks stamp ps s = Done t \<and>
    fst (GetOutputStreamCache 0 reuse t) = Some (fold (\<lambda>(k, p). add_packet p k) ps (store s ! i))"
  using assms
proof (induction ps arbitrary: s)
  case (Cons e ps)
  obtain order p where e: "e = (order, p)" by (cases e)
  show ?case
  proof (cases "ps = []")
    case True
    with Cons.prems(1) e obtain t where "CallBackInferenceResult stamp p order s = Done (True, t)"
      "fst (GetOutputStreamCache 0 reuse t) = Some (add_packet p order (store s ! i))"
      using callback_last [of n stamp i order p s reuse] by blast
    with True e show ?thesis by simp
  next
    case False
    from callback_waits [OF Cons.prems(1) [unfolded e] False] obtain t where
      t: "CallBackInferenceResult stamp p order s = Done (True, t)" "waits_for n stamp i ps t"
      "store t ! i = add_packet p order (store s ! i)" by blast
    from Cons.IH [OF t(2) False] t(1,3) e show ?thesis by simp
  qed
qed simp

lemma fold_add_packet:
  assumes "distinct (map fst ps)" and "\<forall>(k, p)\<in>set ps. k < length (output_packs c)"
  shows "length (output_packs (fold (\<lambda>(k, p). add_packet p k) ps c)) = length (output_packs c) \<and>
    raw_timestamp (fold (\<lambda>(k, p). add_packet p k) ps c) = raw_timestamp c \<and>
    (\<forall>k<length (output_packs c). output_packs (fold (\<lambda>(k, p). add_packet p k) ps c) ! k =
       (case map_of ps k of None \<Rightarrow> output_packs c ! k | Some p \<Rightarrow> Some p))"
  using assms
proof (induction ps arbitrary: c)
  case (Cons e ps)
  obtain order p where e: "e = (order, p)" by (cases e)
  let ?c = "add_packet p order c"
  have l: "length (output_packs ?c) = length (output_packs c)" "raw_timestamp ?c = raw_timestamp c"
    by (simp_all add: add_packet_def)
  have n: "map_of ps order = None" using Cons.prems(1) e by (auto simp: map_of_eq_None_iff)
  from Cons.IH [of ?c] Cons.prems l
  have ih: "length (output_packs (fold (\<lambda>(k, p). add_packet p k) ps ?c)) = length (output_packs c)"
    "raw_timestamp (fold (\<lambda>(k, p). add_packet p k) ps ?c) = raw_timestamp c"
    "\<forall>k<length (output_packs c). output_packs (fold (\<lambda>(k, p). add_packet p k) ps ?c) ! k =
       (case map_of ps k of None \<Rightarrow> output_packs ?c ! k | Some p \<Rightarrow> Some p)" by simp_all
  have "output_packs ?c ! k = (if k = order then Some p else output_packs c ! k)" if "k < length (output_packs c)" for k
    using that by (simp add: add_packet_def)
  with ih n e show ?case by (auto split: option.splits)
qed simp



end
