(* ===== verification/HandXGraph.thy ===== *)
theory HandXGraph
  imports Tracking Smoothing HandRotation StreamDelivery
begin

text \<open>
  \<^verbatim>\<open>aisdk/task/handtracking/handtracking_xgraph.{h,cpp}\<close>: the interface of the hand tracking
  task on top of \<open>BaseXGraph\<close>. Frames are pushed with a head pose; \<open>PopResult\<close> takes the newest
  result, predicts both hands to the time of display, smooths and constrains them and fills
  the caller's array; \<open>PopExecInfo\<close> exports the recorded information frame by frame.

  Arguments of the model: the inverse kinematics \<open>constraint_hand_v2\<close> (of \<^verbatim>\<open>thirdparty\<close>), Eigen's
  rotation constructors and the conversion of a matrix to a quaternion, OpenCV's Kalman
  filter (\<open>kf_lib\<close>), and what mediapipe answers to a packet. None stands for an access outside
  a vector, a packet of another type, or an exception that leaves the call.
\<close>

section \<open>Tables\<close>

definition JOINTS_COUNT :: "bool \<Rightarrow> nat" where
  "JOINTS_COUNT openxr = (if openxr then 26 else 25)"

definition EZXR_DEFINED_JOINTS :: "bool \<Rightarrow> nat" where
  "EZXR_DEFINED_JOINTS openxr = (if openxr then 26 else 23)"

text \<open>The two maps list their keys in order.\<close>

definition xreal_2_clay :: "bool \<Rightarrow> nat list" where
  "xreal_2_clay openxr =
     (if openxr then
        [1, 2, 3, 4, 5, 7, 8, 9, 10, 12, 13, 14, 15, 17, 18, 19, 20, 22, 23, 24, 25, 0, 21, 6, 11, 16]
      else
        [24, 0, 1, 2, 3, 4, 5, 6, 7, 8, 9, 10, 11, 12, 13, 14, 15, 17, 18, 19, 20, 21, 16])"

fun GestureMap :: "hand_gesture \<Rightarrow> int" where
  "GestureMap GOpenHand = 0"
| "GestureMap GGrab = 1"
| "GestureMap GPinch = 2"
| "GestureMap GClick = 3"
| "GestureMap GVictory = 4"
| "GestureMap GCall = 5"
| "GestureMap GHome = 6"
| "GestureMap GThumbUp = 7"
| "GestureMap GInvalid = -1"

section \<open>State\<close>

datatype xg_packet = HandPacket hands_data int | RecordPacket string int

datatype frame_state =
    FrameInit | MemFullDrop | PushXgraphWaitResult | PushXgraphFailure | XgraphFlowctrolDrop
  | CalculatorHandtrackingDetectDrop | XgraphResultFinish | OutputCacheFullDrop | GetResultFinish

record hand_xgraph =
  base :: "xg_packet base_xgraph"
  post_filter :: hand_filters
  sequence_predict_id :: u64
  handresult_output_groud_index :: nat
  handresult_output_packet_index :: nat
  recordresult_output_groud_index :: nat
  recordresult_output_packet_index :: nat
  debug_frame_infos :: "(u64 \<times> frame_state) list"

text \<open>The structs of the interface that \<open>PopResult\<close> writes.\<close>

record 'q hand_joint =
  joint_version :: int
  joint_type :: int
  joint_position :: vec3
  joint_rotation :: 'q

record 'q hand_out =
  out_version :: int
  out_is_tracked :: bool
  out_confidence :: real
  out_hand_type :: nat
  out_gesture :: int
  out_joint_count :: nat
  out_joints :: "'q hand_joint list"
  out_image_timestamp :: u64
  out_pinch_strength :: real

record 'q hand_env =
  constraint_hand_v2 :: "vec3 list \<Rightarrow> bool \<Rightarrow> vec3 list"
  from_two_vectors :: "vec3 \<Rightarrow> vec3 \<Rightarrow> mat3"
  angle_axis :: "real \<Rightarrow> vec3 \<Rightarrow> mat3"
  uninitialised_matrix :: mat3
  to_quaternion :: "mat3 \<Rightarrow> 'q"

section \<open>Init\<close>

definition str_contains :: "string \<Rightarrow> string \<Rightarrow> bool" where
  "str_contains s part \<longleftrightarrow> (\<exists>k\<in>set [0..<Suc (length s)]. take (length part) (drop k s) = part)"

definition init_post_filter :: "bool \<Rightarrow> (nat \<Rightarrow> nat \<Rightarrow> real) \<Rightarrow> string \<Rightarrow> hand_filters res" where
  "init_post_filter openxr t0 pipeline_name =
     hand_filters_init openxr t0
       (if str_contains pipeline_name ''flora'' \<or> str_contains pipeline_name ''gina'' then ''flora'' else ''ella'')"

text \<open>
  With the recording compiled in, the output \<open>record_result\<close> forms a group of its own; the others
  wait for each other in the first group. \<open>export\<close> is the option to export the recorded
  information. The index of a packet is the last output of that name.
\<close>

definition is_record :: "string list \<Rightarrow> nat \<Rightarrow> bool" where
  "is_record names order \<longleftrightarrow> names ! order = ''record_result''"

definition record_sync_bitmaps :: "string list \<Rightarrow> u64 list" where
  "record_sync_bitmaps names =
     (let default_sync_bitmaps = all_bits (filter (\<lambda>order. \<not> is_record names order) [0..<length names])
      in map (\<lambda>order. if is_record names order then order_bit order else default_sync_bitmaps) [0..<length names])"

definition record_groud_index :: "string list \<Rightarrow> nat list" where
  "record_groud_index names = map (\<lambda>order. if is_record names order then 1 else 0) [0..<length names]"

definition packet_index :: "string list \<Rightarrow> string \<Rightarrow> nat \<Rightarrow> nat" where
  "packet_index names name k0 = fold (\<lambda>order k. if names ! order = name then order else k) [0..<length names] k0"

definition record_clean_policy :: "bool \<Rightarrow> clean_strategy list" where
  "record_clean_policy export =
     [\<lparr>clean_policy = FIFO_FULL_LOOP_COVER, max_depth = 3\<rparr>,
      if export then \<lparr>clean_policy = FIFO_FULL_BLOCK, max_depth = BASEXGRAPH_MAX_GLOBALCACHEDEPTH\<rparr>
      else \<lparr>clean_policy = FIFO_FULL_LOOP_COVER, max_depth = 3\<rparr>]"

definition init_record :: "bool \<Rightarrow> hand_xgraph \<Rightarrow> hand_xgraph" where
  "init_record export x =
     (let names = output_stream_name (base x)
      in x\<lparr>base := SetMultipleOutputCleanStrategy (record_clean_policy export)
                   (SetMultipleOutputSync (record_sync_bitmaps names) (record_groud_index names) (base x)),
           handresult_output_packet_index := packet_index names ''hand_result'' (handresult_output_packet_index x),
           recordresult_output_packet_index := packet_index names ''record_result'' (recordresult_output_packet_index x)\<rparr>)"

definition hand_xgraph_new :: "hand_filters \<Rightarrow> hand_xgraph" where
  "hand_xgraph_new f = \<lparr>base = base_xgraph_new, post_filter = f, sequence_predict_id = 0,
     handresult_output_groud_index = 0, handresult_output_packet_index = 0,
     recordresult_output_groud_index = 1, recordresult_output_packet_index = 1, debug_frame_infos = []\<rparr>"

definition hand_xgraph_init :: "bool \<Rightarrow> (nat \<Rightarrow> nat \<Rightarrow> real) \<Rightarrow> string \<Rightarrow> bool \<Rightarrow> bool \<Rightarrow> string list \<Rightarrow> hand_xgraph res" where
  "hand_xgraph_init openxr t0 pipeline_name add_record export names =
     (case init_post_filter openxr t0 pipeline_name of
        Inl e \<Rightarrow> Inl e
      | Inr f \<Rightarrow>
          (let x = hand_xgraph_new f; x = x\<lparr>base := base_init names (base x)\<rparr>
           in Inr (if add_record then init_record export x else x)))"

section \<open>PushData\<close>

text \<open>\<open>image_ok\<close> and \<open>pose_ok\<close> are mediapipe's answers to the two packets.\<close>

definition PushData :: "u64 \<Rightarrow> bool \<Rightarrow> bool \<Rightarrow> hand_xgraph \<Rightarrow> bool \<times> hand_xgraph" where
  "PushData timestamp image_ok pose_ok x =
     (let timestamp_micro = uint (timestamp div 1000);
          (ok, b) = SetInputStreamCache timestamp timestamp_micro (base x)
      in if \<not> ok then (False, x\<lparr>base := b\<rparr>)
         else if \<not> image_ok \<or> \<not> pose_ok then (False, x\<lparr>base := ClearInputStreamCache timestamp_micro b\<rparr>)
         else (True, x\<lparr>base := b\<rparr>))"

section \<open>PopResult\<close>

text \<open>What is written for a hand before it is known whether it is tracked.\<close>

definition clear_joints :: "bool \<Rightarrow> 'q hand_joint list \<Rightarrow> 'q hand_joint list" where
  "clear_joints openxr js =
     map (\<lambda>j. j\<lparr>joint_version := 0, joint_type := -1\<rparr>) (take (JOINTS_COUNT openxr) js) @ drop (JOINTS_COUNT openxr) js"

definition start_hand :: "bool \<Rightarrow> nat \<Rightarrow> single_hand_data \<Rightarrow> bool \<Rightarrow> 'q hand_out \<Rightarrow> 'q hand_out" where
  "start_hand openxr i h tracked out = out
     \<lparr>out_joints := clear_joints openxr (out_joints out), out_version := 0,
      out_gesture := GestureMap (gesture h), out_hand_type := i, out_joint_count := JOINTS_COUNT openxr,
      out_is_tracked := tracked, out_confidence := (if tracked then 1 else 0)\<rparr>"

definition pinch_strength_of :: "vec3 list \<Rightarrow> real" where
  "pinch_strength_of ps =
     (let pinch_distance = norm3 (sub3 (ps ! 4) (ps ! 8))
      in 1 - (min (max pinch_distance 0.01) 0.1 - 0.01) / 0.09)"

text \<open>A monocular hand is predicted over a quarter of the time only.\<close>

definition predict_time :: "single_hand_data \<Rightarrow> real \<Rightarrow> real \<Rightarrow> real" where
  "predict_time h latest query =
     (if source h = CamMono then latest + (query - latest) * 0.25 else query)"

definition ok_of :: "'a res option \<Rightarrow> 'a option" where
  "ok_of r = (case r of Some (Inr x) \<Rightarrow> Some x | _ \<Rightarrow> None)"

text \<open>
  The root of a hand: predicted if the predictor tracks it, else as measured, with a reset of
  the hand's filters.
\<close>

definition predict_root :: "'c kf_lib \<Rightarrow> nat \<Rightarrow> single_hand_data \<Rightarrow> real \<Rightarrow> real \<Rightarrow> 'c kf_predictor
    \<Rightarrow> hand_filters \<Rightarrow> (vec3 \<times> real \<times> 'c kf_predictor \<times> hand_filters) option" where
  "predict_root lib i h latest query p f =
     (if kf3_get_tracking_status p then
        (let query' = predict_time h latest query
         in do {
              (r, p') \<leftarrow> ok_of (Some (kf3_track_only_pred lib query' True True p));
              Some (r, query', p', f)
            })
      else Some (kpt3d h ! kKeypointRootId, query, p, hand_filters_reset (int i) f))"

definition hand_rotations :: "'q hand_env \<Rightarrow> bool \<Rightarrow> vec3 list \<Rightarrow> bool \<Rightarrow> mat3 list option" where
  "hand_rotations env openxr ps l =
     (if openxr then compute_xr_joint_rotation_v1 (from_two_vectors env) (angle_axis env) (uninitialised_matrix env) ps l
      else compute_joint_rotation (from_two_vectors env) (angle_axis env) (uninitialised_matrix env) ps l)"

text \<open>The loop over the joints; the caller's array has 32 of them.\<close>

definition write_joint :: "'q hand_env \<Rightarrow> nat list \<Rightarrow> vec3 list \<Rightarrow> mat3 list \<Rightarrow> nat \<Rightarrow> 'q hand_joint list \<Rightarrow> 'q hand_joint list" where
  "write_joint env clay ps R j js =
     (let c = clay ! j
      in js[c := (js ! c)\<lparr>joint_type := int c, joint_position := ps ! j, joint_rotation := to_quaternion env (R ! j)\<rparr>])"

definition write_joints :: "'q hand_env \<Rightarrow> bool \<Rightarrow> vec3 list \<Rightarrow> mat3 list \<Rightarrow> 'q hand_joint list \<Rightarrow> 'q hand_joint list option" where
  "write_joints env openxr ps R js =
     (let n = EZXR_DEFINED_JOINTS openxr
      in if length ps < n \<or> length R < n then None
         else Some (fold (write_joint env (xreal_2_clay openxr) ps R) [0..<n] js))"

text \<open>One turn of the loop over the hands. \<open>query_time\<close> is a variable of the whole call.\<close>

definition pop_hand :: "'c kf_lib \<Rightarrow> 'q hand_env \<Rightarrow> bool \<Rightarrow> nat \<Rightarrow> single_hand_data \<Rightarrow> bool \<Rightarrow> u64 \<Rightarrow> real \<Rightarrow> real
    \<Rightarrow> 'c kf_predictor \<Rightarrow> hand_filters \<Rightarrow> 'q hand_out
    \<Rightarrow> ('q hand_out \<times> real \<times> 'c kf_predictor \<times> hand_filters) option" where
  "pop_hand lib env openxr i h valid raw latest query p f out0 =
     (let tracked = (valid \<and> kf3_get_tracking_status p);
          out = start_hand openxr i h tracked out0;
          n = k3DAlgoStdKeypointNum openxr
      in if \<not> tracked \<or> query = 0 then Some (out, query, p, f)
         else if length (kpt3d h) < n then None
         else do {
           (r, query', p', f1) \<leftarrow> predict_root lib i h latest query p f;
           let moved = map (\<lambda>q. sub3 (add3 q r) (kpt3d h ! kKeypointRootId)) (take n (kpt3d h)) @ drop n (kpt3d h)
           in do {
             (smoothed, f2) \<leftarrow> ok_of (hand_filters_process openxr (int i) moved f1);
             let ps = constraint_hand_v2 env smoothed (i = 0)
             in do {
               R \<leftarrow> hand_rotations env openxr ps (i = 0);
               js \<leftarrow> write_joints env openxr ps R (out_joints out);
               Some (out\<lparr>out_joints := js, out_image_timestamp := raw,
                        out_pinch_strength := (if openxr then pinch_strength_of (kpt3d h)
                                               else out_pinch_strength out)\<rparr>,
                     query', p', f2)
             }
           }
         })"

definition hand_packet :: "xg_packet option \<Rightarrow> (hands_data \<times> int) option" where
  "hand_packet p = (case p of Some (HandPacket h t) \<Rightarrow> Some (h, t) | _ \<Rightarrow> None)"

definition nth_opt :: "'a list \<Rightarrow> nat \<Rightarrow> 'a option" where
  "nth_opt xs i = (if i < length xs then Some (xs ! i) else None)"

text \<open>The time of display, in seconds.\<close>

definition query_seconds :: "u64 \<Rightarrow> real" where
  "query_seconds hmd_time_nano = real_of_int (uint hmd_time_nano) / 1000000000"

text \<open>The result: success, the number of hands, the two hands, the services and the graph.\<close>

definition PopResult :: "'c kf_lib \<Rightarrow> 'q hand_env \<Rightarrow> bool \<Rightarrow> u64 \<Rightarrow> 'c predictor_service \<Rightarrow> hand_xgraph
    \<Rightarrow> 'q hand_out \<Rightarrow> 'q hand_out
    \<Rightarrow> (bool \<times> nat \<times> ('q hand_out \<times> 'q hand_out) \<times> 'c predictor_service \<times> hand_xgraph) option" where
  "PopResult lib env openxr hmd_time_nano g x out0 out1 =
     (let query_time = query_seconds hmd_time_nano
      in case fst (GetOutputStreamCache (handresult_output_groud_index x) True (base x)) of
           None \<Rightarrow> Some (False, 0, (out0, out1), g, x)
         | Some outlist \<Rightarrow> do {
             pack \<leftarrow> nth_opt (output_packs outlist) (handresult_output_packet_index x);
             (hands, stamp) \<leftarrow> hand_packet pack;
             let latest = real_of_int stamp / 1000000
             in do {
               (l, q1, pl, f1) \<leftarrow> pop_hand lib env openxr 0 (left_hand hands) (lhand_valid hands)
                  (raw_timestamp outlist) latest query_time (kfpredictor_lhand g) (post_filter x) out0;
               (r, q2, pr, f2) \<leftarrow> pop_hand lib env openxr 1 (right_hand hands) (rhand_valid hands)
                  (raw_timestamp outlist) latest q1 (kfpredictor_rhand g) f1 out1;
               Some (True, 2, (l, r), g\<lparr>kfpredictor_lhand := pl, kfpredictor_rhand := pr\<rparr>,
                     x\<lparr>post_filter := f2, sequence_predict_id := sequence_predict_id x + 1\<rparr>)
             }
           })"

section \<open>PopExecInfo and SetTrackFrameState\<close>

definition record_packet :: "xg_packet option \<Rightarrow> string option" where
  "record_packet p = (case p of Some (RecordPacket s t) \<Rightarrow> Some s | _ \<Rightarrow> None)"

text \<open>
  \<open>busy\<close> is the text that \<open>MakeBusyPipelineNodeInfoToJsonString\<close> writes for a frame without a
  result. The result: success, the timestamp and the text (as given when not written).
\<close>

definition PopExecInfo :: "bool \<Rightarrow> string \<Rightarrow> u64 \<Rightarrow> string \<Rightarrow> hand_xgraph
    \<Rightarrow> ((bool \<times> u64 \<times> string) \<times> hand_xgraph) option" where
  "PopExecInfo export busy ts0 js0 x =
     (if \<not> export then Some ((False, ts0, js0), x)
      else
        case fst (GetOutputStreamCache (recordresult_output_groud_index x) True (base x)) of
          None \<Rightarrow> Some ((False, ts0, js0), x)
        | Some outlist \<Rightarrow>
            (case debug_frame_infos x of
               [] \<Rightarrow> None
             | (target_frame, info) # frames \<Rightarrow>
                 if raw_timestamp outlist < target_frame then Some ((False, target_frame, js0), x)
                 else if raw_timestamp outlist = target_frame then
                   do {
                     pack \<leftarrow> nth_opt (output_packs outlist) (recordresult_output_packet_index x);
                     js \<leftarrow> record_packet pack;
                     Some ((True, target_frame, js),
                       x\<lparr>base := snd (GetOutputStreamCache (recordresult_output_groud_index x) False (base x)),
                         debug_frame_infos := frames\<rparr>)
                   }
                 else Some ((True, target_frame, busy), x\<lparr>debug_frame_infos := frames\<rparr>)))"

definition SetTrackFrameState :: "bool \<Rightarrow> u64 \<Rightarrow> frame_state \<Rightarrow> hand_xgraph \<Rightarrow> hand_xgraph" where
  "SetTrackFrameState export timestamp st x =
     (if \<not> export then x else x\<lparr>debug_frame_infos := smap_insert timestamp st (debug_frame_infos x)\<rparr>)"

section \<open>The joints of a tracked hand\<close>

lemma clay_facts:
  "length (xreal_2_clay openxr) = EZXR_DEFINED_JOINTS openxr" "distinct (xreal_2_clay openxr)"
  "\<forall>c\<in>set (xreal_2_clay openxr). c < JOINTS_COUNT openxr"
  "set (xreal_2_clay True) = {..<26}"
proof -
  show "length (xreal_2_clay openxr) = EZXR_DEFINED_JOINTS openxr" "distinct (xreal_2_clay openxr)"
    "\<forall>c\<in>set (xreal_2_clay openxr). c < JOINTS_COUNT openxr"
    by (cases openxr; simp add: xreal_2_clay_def EZXR_DEFINED_JOINTS_def JOINTS_COUNT_def)+
  show "set (xreal_2_clay True) = {..<26}"
    by (auto simp: xreal_2_clay_def numeral_eq_Suc less_Suc_eq)
qed

lemma write_joint_length [simp]: "length (write_joint env clay ps R j js) = length js"
  by (simp add: write_joint_def Let_def)

lemma write_joint_other: "c \<noteq> clay ! j \<Longrightarrow> write_joint env clay ps R j js ! c = js ! c"
  by (simp add: write_joint_def Let_def)

lemma fold_write_joint_length [simp]: "length (fold (write_joint env clay ps R) xs js) = length js"
  by (induction xs arbitrary: js) simp_all

lemma fold_write_joint:
  assumes "distinct clay" and "\<forall>c\<in>set clay. c < length js" and "m \<le> length clay"
  shows "\<forall>j<m. (let q = fold (write_joint env clay ps R) [0..<m] js ! (clay ! j)
           in joint_type q = int (clay ! j) \<and> joint_position q = ps ! j \<and> joint_rotation q = to_quaternion env (R ! j))"
    and "\<forall>c<length js. c \<notin> set (take m clay) \<longrightarrow> fold (write_joint env clay ps R) [0..<m] js ! c = js ! c"
  using assms(3)
proof (induction m)
  case (Suc m)
  {
    case 1
    show ?case
    proof (intro allI impI)
      fix j assume j: "j < Suc m"
      have m: "clay ! m < length js" using assms(2) 1 by simp
      show "let q = fold (write_joint env clay ps R) [0..<Suc m] js ! (clay ! j)
        in joint_type q = int (clay ! j) \<and> joint_position q = ps ! j \<and> joint_rotation q = to_quaternion env (R ! j)"
      proof (cases "j = m")
        case True
        with m show ?thesis by (simp add: write_joint_def Let_def)
      next
        case False
        with j 1 assms(1) have "clay ! j \<noteq> clay ! m" by (simp add: nth_eq_iff_index_eq)
        with Suc.IH(1) j 1 False show ?thesis by (simp add: write_joint_other)
      qed
    qed
  next
    case 2
    then show ?case
      using Suc.IH(2) by (auto simp: write_joint_other take_Suc_conv_app_nth)
  }
qed simp_all

lemma pop_hand_tracked:
  assumes "pop_hand lib env openxr i h valid raw latest query p f out0 = Some (out, q', p', f')"
  shows "out_is_tracked out = (valid \<and> kf3_get_tracking_status p) \<and>
    out_confidence out = (if out_is_tracked out then 1 else 0) \<and> out_hand_type out = i \<and>
    out_gesture out = GestureMap (gesture h) \<and> out_joint_count out = JOINTS_COUNT openxr"
  using assms by (auto simp: pop_hand_def start_hand_def Let_def bind_eq_Some_conv split: if_splits)

text \<open>The joints with a place in the interface are written, the others are marked as invalid.\<close>

definition joints_written :: "bool \<Rightarrow> 'q hand_joint list \<Rightarrow> bool" where
  "joints_written openxr js \<longleftrightarrow>
     (\<forall>c<JOINTS_COUNT openxr. joint_type (js ! c) = (if c \<in> set (xreal_2_clay openxr) then int c else -1))"

lemma clear_joints_type:
  "JOINTS_COUNT openxr \<le> length js \<Longrightarrow> c < JOINTS_COUNT openxr \<Longrightarrow> joint_type (clear_joints openxr js ! c) = -1"
  by (simp add: clear_joints_def nth_append min_def)

lemma length_clear_joints [simp]: "length (clear_joints openxr js) = length js"
  by (simp add: clear_joints_def)

lemma write_joints_written:
  assumes "write_joints env openxr ps R (clear_joints openxr js) = Some js'" and "JOINTS_COUNT openxr \<le> length js"
  shows "joints_written openxr js'"
proof -
  let ?clay = "xreal_2_clay openxr" and ?js = "clear_joints openxr js"
  have js': "js' = fold (write_joint env ?clay ps R) [0..<length ?clay] ?js"
    using assms(1) by (simp add: write_joints_def Let_def clay_facts(1) split: if_splits)
  have "\<forall>c\<in>set ?clay. c < length ?js" using clay_facts(3) [of openxr] assms(2) by auto
  note w = fold_write_joint [OF clay_facts(2) this order_refl]
  show ?thesis
    unfolding joints_written_def js'
  proof (intro allI impI)
    fix c assume c: "c < JOINTS_COUNT openxr"
    show "joint_type (fold (write_joint env ?clay ps R) [0..<length ?clay] ?js ! c) =
        (if c \<in> set ?clay then int c else -1)"
    proof (cases "c \<in> set ?clay")
      case True
      then obtain j where "j < length ?clay" "?clay ! j = c" by (auto simp: in_set_conv_nth)
      with w(1) True show ?thesis by (auto simp: Let_def)
    next
      case False
      with w(2) c assms(2) show ?thesis by (simp add: clear_joints_type)
    qed
  qed
qed

lemma pop_hand_joints:
  assumes "pop_hand lib env openxr i h valid raw latest query p f out0 = Some (out, q', p', f')"
    and "out_is_tracked out" and "query \<noteq> 0" and "JOINTS_COUNT openxr \<le> length (out_joints out0)"
  shows "joints_written openxr (out_joints out) \<and> out_image_timestamp out = raw"
  using assms
  by (auto simp: pop_hand_def start_hand_def Let_def bind_eq_Some_conv split: if_splits
      intro: write_joints_written)

section \<open>Results\<close>

lemma PopResult_cases:
  assumes "PopResult lib env openxr hmd g x out_l out_r = Some (True, n, (l, r), g', x')"
  obtains c hands stamp q1 pl f1 q2 pr f2 where
    "fst (GetOutputStreamCache (handresult_output_groud_index x) True (base x)) = Some c"
    and "nth_opt (output_packs c) (handresult_output_packet_index x) = Some (Some (HandPacket hands stamp))"
    and "pop_hand lib env openxr 0 (left_hand hands) (lhand_valid hands) (raw_timestamp c)
      (real_of_int stamp / 1000000) (query_seconds hmd) (kfpredictor_lhand g) (post_filter x) out_l
      = Some (l, q1, pl, f1)"
    and "pop_hand lib env openxr 1 (right_hand hands) (rhand_valid hands) (raw_timestamp c)
      (real_of_int stamp / 1000000) q1 (kfpredictor_rhand g) f1 out_r = Some (r, q2, pr, f2)"
    and "n = 2" and "g' = g\<lparr>kfpredictor_lhand := pl, kfpredictor_rhand := pr\<rparr>"
    and "x' = x\<lparr>post_filter := f2, sequence_predict_id := sequence_predict_id x + 1\<rparr>"
proof -
  from assms obtain c where c: "fst (GetOutputStreamCache (handresult_output_groud_index x) True (base x)) = Some c"
    by (auto simp: PopResult_def split: option.splits)
  with assms obtain pack hands stamp where "nth_opt (output_packs c) (handresult_output_packet_index x) = Some pack"
    and p: "hand_packet pack = Some (hands, stamp)"
    by (auto simp: PopResult_def Let_def bind_eq_Some_conv)
  moreover from p have "pack = Some (HandPacket hands stamp)"
    by (auto simp: hand_packet_def split: option.splits xg_packet.splits)
  ultimately show ?thesis using assms c that
    by (auto simp: PopResult_def Let_def bind_eq_Some_conv hand_packet_def)
qed

lemma query_seconds_pos: "hmd \<noteq> 0 \<Longrightarrow> 0 < query_seconds hmd"
proof -
  assume "hmd \<noteq> 0"
  then have "0 < uint hmd" by (simp add: word_neq_0_conv word_less_def)
  then have "0 < real_of_int (uint hmd)" by (simp only: of_int_0_less_iff)
  then show ?thesis unfolding query_seconds_def by (rule divide_pos_pos) simp
qed

lemma predict_time_pos: "0 < query \<Longrightarrow> 0 \<le> latest \<Longrightarrow> 0 < predict_time h latest query"
  by (simp add: predict_time_def field_simps)

lemma pop_hand_query:
  assumes "pop_hand lib env openxr i h valid raw latest query p f out_l = Some (out, q', p', f')"
  shows "q' = (if out_is_tracked out \<and> query \<noteq> 0 then predict_time h latest query else query)"
  using assms
  by (auto simp: pop_hand_def start_hand_def predict_root_def Let_def bind_eq_Some_conv split: if_splits)


lemma ok_of_Some_iff [simp]: "ok_of r = Some x \<longleftrightarrow> r = Some (Inr x)"
  by (auto simp: ok_of_def split: option.splits sum.splits)

lemma predict_root_tracking:
  assumes "kf3_get_tracking_status p"
  shows "predict_root lib i h latest query p f = Some (r, q', p', f') \<longleftrightarrow>
    kf3_track_only_pred lib (predict_time h latest query) True True p = Inr (r, p') \<and>
    q' = predict_time h latest query \<and> f' = f"
  using assms by (auto simp: predict_root_def Let_def bind_eq_Some_conv)

lemma pop_hand_mono:
  assumes "pop_hand lib env openxr i h valid raw latest query p f out_l = Some (out, q', p', f')"
    and "out_is_tracked out" and "query \<noteq> 0" and "source h = CamMono"
  shows "\<exists>root. kf3_track_only_pred lib (latest + (query - latest) * 0.25) True True p = Inr (root, p')"
    and "q' = latest + (query - latest) * 0.25"
proof -
  have "kf3_get_tracking_status p" using pop_hand_tracked [OF assms(1)] assms(2) by simp
  with assms have "\<exists>r f1. predict_root lib i h latest query p f = Some (r, q', p', f1)"
    by (auto simp: pop_hand_def start_hand_def Let_def bind_eq_Some_conv split: if_splits)
  with \<open>kf3_get_tracking_status p\<close> assms(4)
  show "\<exists>root. kf3_track_only_pred lib (latest + (query - latest) * 0.25) True True p = Inr (root, p')"
    and "q' = latest + (query - latest) * 0.25"
    by (auto simp: predict_root_tracking predict_time_def)
qed

text \<open>
  The shortened time of a monocular hand is written back into the time of the whole call:
  when both hands are tracked and monocular, the left is predicted over a quarter of the time
  since the image, the right over a quarter of that, a sixteenth.
\<close>

lemma mono_time_compounds:
  assumes "PopResult lib env openxr hmd g x out_l out_r = Some (True, n, (l, r), g', x')"
    and "fst (GetOutputStreamCache (handresult_output_groud_index x) True (base x)) = Some c"
    and "output_packs c ! handresult_output_packet_index x = Some (HandPacket hands stamp)"
    and "out_is_tracked l" and "out_is_tracked r" and "hmd \<noteq> 0" and "0 \<le> stamp"
    and "source (left_hand hands) = CamMono" and "source (right_hand hands) = CamMono"
  shows "\<exists>root_l root_r.
    kf3_track_only_pred lib (real_of_int stamp / 1000000 + (query_seconds hmd - real_of_int stamp / 1000000) * 0.25)
      True True (kfpredictor_lhand g) = Inr (root_l, kfpredictor_lhand g') \<and>
    kf3_track_only_pred lib (real_of_int stamp / 1000000 + (query_seconds hmd - real_of_int stamp / 1000000) * 0.0625)
      True True (kfpredictor_rhand g) = Inr (root_r, kfpredictor_rhand g')"
proof -
  let ?t = "real_of_int stamp / 1000000" and ?q = "query_seconds hmd"
  from assms(1) obtain c' hands' stamp' q1 pl f1 q2 pr f2 where
    c: "fst (GetOutputStreamCache (handresult_output_groud_index x) True (base x)) = Some c'"
    "nth_opt (output_packs c') (handresult_output_packet_index x) = Some (Some (HandPacket hands' stamp'))"
    and l: "pop_hand lib env openxr 0 (left_hand hands') (lhand_valid hands') (raw_timestamp c')
      (real_of_int stamp' / 1000000) ?q (kfpredictor_lhand g) (post_filter x) out_l = Some (l, q1, pl, f1)"
    and r: "pop_hand lib env openxr 1 (right_hand hands') (rhand_valid hands') (raw_timestamp c')
      (real_of_int stamp' / 1000000) q1 (kfpredictor_rhand g) f1 out_r = Some (r, q2, pr, f2)"
    and g': "g' = g\<lparr>kfpredictor_lhand := pl, kfpredictor_rhand := pr\<rparr>" by (rule PopResult_cases)
  from c assms(2,3) have same: "c' = c" "hands' = hands" "stamp' = stamp"
    by (auto simp: nth_opt_def split: if_splits)
  have q: "0 < ?q" and q0: "?q \<noteq> 0" using query_seconds_pos [OF assms(6)] by simp_all
  note L = pop_hand_mono [OF l [unfolded same] assms(4) q0 assms(8)]
  from predict_time_pos [OF q, of ?t "left_hand hands"] L(2) assms(7,8) have "q1 \<noteq> 0"
    by (simp add: predict_time_def)
  note R = pop_hand_mono [OF r [unfolded same] assms(5) this assms(9)]
  have "?t + (q1 - ?t) * 0.25 = ?t + (?q - ?t) * 0.0625" by (simp add: L(2))
  with R(1) have "\<exists>root. kf3_track_only_pred lib (?t + (?q - ?t) * 0.0625) True True (kfpredictor_rhand g)
      = Inr (root, pr)" by (simp only:)
  with L(1) show ?thesis by (simp add: g')
qed

section \<open>PopResult returns\<close>

lemma oe_within_mono: "oe_within lo hi f \<Longrightarrow> lo' \<le> lo \<Longrightarrow> hi \<le> hi' \<Longrightarrow> oe_within lo' hi' f"
  by (auto simp: oe_within_def)

lemma seq3d_keeps_mono: "seq3d_keeps lo hi m \<Longrightarrow> lo' \<le> lo \<Longrightarrow> hi \<le> hi' \<Longrightarrow> seq3d_keeps lo' hi' m"
  by (auto simp: seq3d_keeps_def intro: oe_within_mono)

lemma hand_filters_keep_mono:
  "hand_filters_keep openxr lo hi h \<Longrightarrow> lo' \<le> lo \<Longrightarrow> hi \<le> hi' \<Longrightarrow> hand_filters_keep openxr lo' hi' h"
  by (auto simp: hand_filters_keep_def intro: seq3d_keeps_mono)

lemma bounded_points:
  "\<exists>b. lo0 \<ge> - b \<and> hi0 \<le> b \<and> 0 \<le> b \<and> (\<forall>x\<in>set (xs :: vec3 list). in_cube (- b) b x)"
proof (induction xs)
  case Nil
  then show ?case by (intro exI [of _ "max 0 (max (- lo0) hi0)"]) auto
next
  case (Cons x xs)
  then obtain b where b: "lo0 \<ge> - b" "hi0 \<le> b" "0 \<le> b" "\<forall>x\<in>set xs. in_cube (- b) b x" by blast
  let ?b = "max b (max \<bar>vx x\<bar> (max \<bar>vy x\<bar> \<bar>vz x\<bar>))"
  have "in_cube (- ?b) ?b x" unfolding in_cube_def by linarith
  moreover have "in_cube (- ?b) ?b y" if "in_cube (- b) b y" for y
    using that b(3) unfolding in_cube_def by linarith
  ultimately have "\<forall>y\<in>set (x # xs). in_cube (- ?b) ?b y" using b(4) by auto
  with b show ?case by (intro exI [of _ ?b]) auto
qed

text \<open>Smoothers that never throw, whatever the points they get.\<close>

definition smoother_ok :: "nat \<Rightarrow> seq_manager_3d \<Rightarrow> bool" where
  "smoother_ok n m \<longleftrightarrow> s3_num m = n \<and> (\<exists>lo hi. seq3d_keeps lo hi m)"

definition post_filter_ok :: "bool \<Rightarrow> hand_filters \<Rightarrow> bool" where
  "post_filter_ok openxr h \<longleftrightarrow> (\<exists>lo hi. hand_filters_keep openxr lo hi h)"

lemma smoother_ok_filter:
  assumes "smoother_ok n m" and "length xs = n"
  shows "\<exists>ys m'. seq3d_filter xs m = Inr (ys, m') \<and> length ys = n \<and> smoother_ok n m'"
proof -
  from assms obtain lo hi where k: "s3_num m = n" "seq3d_keeps lo hi m" by (auto simp: smoother_ok_def)
  obtain b where b: "lo \<ge> - b" "hi \<le> b" "\<forall>x\<in>set xs. in_cube (- b) b x" using bounded_points by blast
  from smoother_step [OF seq3d_keeps_mono [OF k(2) b(1,2)] k(1) assms(2) b(3)]
  show ?thesis by (auto simp: smoother_ok_def)
qed

lemma post_filter_ok_process:
  assumes "post_filter_ok openxr h" and "length ps = k3DAlgoStdKeypointNum openxr"
  shows "\<exists>qs h'. hand_filters_process openxr side ps h = Some (Inr (qs, h')) \<and> length qs = length ps \<and>
    post_filter_ok openxr h'"
proof -
  from assms obtain lo hi where k: "hand_filters_keep openxr lo hi h" by (auto simp: post_filter_ok_def)
  obtain b where b: "lo \<ge> - b" "hi \<le> b" "0 \<le> b"
    "\<forall>x\<in>set (map (\<lambda>x. sub3 x (ps ! kRootId)) ps). in_cube (- b) b x" using bounded_points by blast
  from b(3) have "- b \<le> 0" by simp
  moreover from b(4) have "\<forall>x\<in>set ps. in_cube (- b) b (sub3 x (ps ! kRootId))" by simp
  ultimately show ?thesis
    using hand_filters_process_within [OF hand_filters_keep_mono [OF k b(1,2)] assms(2) _ b(3)]
    by (fastforce simp: post_filter_ok_def same_hand_def)
qed

lemma kf3_predict_smoother:
  "predict_smoother (snd (kf3_predict lib p)) = predict_smoother p"
  "predict_smoother (snd (kf3_correct lib m p)) = predict_smoother p"
  "predict_smoother (kf3_update_transition t p) = predict_smoother p"
  by (simp_all add: kf3_predict_def kf3_correct_def kf3_update_transition_def Let_def split: prod.splits)

lemma kf3_track_only_pred_returns:
  assumes "smoother_ok 1 (predict_smoother p)"
  shows "\<exists>r p'. kf3_track_only_pred lib t True u p = Inr (r, p') \<and> smoother_ok 1 (predict_smoother p')"
proof -
  let ?p1 = "kf3_update_transition (kf3_valid_predict_time t p) p"
  define pose p2 where "pose = (if u then pos3 (fst (kf3_predict lib ?p1))
      else let s = mat_vec (transitionMatrix (m_kf3 ?p1)) (statePost (m_kf3 ?p1)) in v3 (s ! 0) (s ! 1) (s ! 2))"
    and "p2 = (if u then (snd (kf3_correct lib (fst (kf3_predict lib ?p1)) (snd (kf3_predict lib ?p1))))
      \<lparr>last_correct_time3 := t\<rparr> else ?p1)"
  have eq: "kf3_track_only_pred lib t True u p =
      (case seq3d_filter [pose] (predict_smoother p2) of
         Inl e \<Rightarrow> Inl e | Inr (ps, s) \<Rightarrow> Inr (ps ! 0, p2\<lparr>predict_smoother := s\<rparr>))"
    unfolding pose_def p2_def by (cases u) (simp_all add: kf3_track_only_pred_def Let_def case_prod_beta)
  have "predict_smoother p2 = predict_smoother p" by (simp add: p2_def kf3_predict_smoother)
  with smoother_ok_filter [OF assms, of "[pose]"] show ?thesis by (auto simp: eq)
qed

lemma fold_length: "(\<And>x xs. length (f x xs) = length xs) \<Longrightarrow> length (fold f ys xs) = length xs"
  by (induction ys arbitrary: xs) simp_all

lemma hand_rotations_returns:
  assumes "length ps = k3DAlgoStdKeypointNum openxr"
  shows "\<exists>R. hand_rotations env openxr ps l = Some R \<and> length R = EZXR_DEFINED_JOINTS openxr"
proof -
  have len: "length (joint_rotations ftv axis par lev1 R0 joint l R) = length R" for ftv axis par lev1 R0 joint l R
    by (simp add: joint_rotations_def Let_def thumb_step_def pinky_step_def fold_length lev1_step_def lev2_step_def
        lev3_step_def lev4_step_def)
  show ?thesis using assms
    by (simp add: hand_rotations_def compute_joint_rotation_def compute_xr_joint_rotation_v1_def len
        k3DAlgoStdKeypointNum_def EZXR_DEFINED_JOINTS_def)
qed

text \<open>What a hand of a result and the inverse kinematics must satisfy.\<close>

definition hand_typed :: "bool \<Rightarrow> bool \<Rightarrow> single_hand_data \<Rightarrow> bool" where
  "hand_typed openxr valid h \<longleftrightarrow> (valid \<longrightarrow> length (kpt3d h) = k3DAlgoStdKeypointNum openxr)"

definition keeps_points :: "'q hand_env \<Rightarrow> bool" where
  "keeps_points env \<longleftrightarrow> (\<forall>ps l. length (constraint_hand_v2 env ps l) = length ps)"

lemma pop_hand_returns:
  assumes "hand_typed openxr valid h" and "keeps_points env" and "post_filter_ok openxr f"
    and "smoother_ok 1 (predict_smoother p)"
  shows "\<exists>out q' p' f'. pop_hand lib env openxr i h valid raw latest query p f out_l = Some (out, q', p', f') \<and>
    post_filter_ok openxr f' \<and> smoother_ok 1 (predict_smoother p')"
proof (cases "valid \<and> kf3_get_tracking_status p \<and> query \<noteq> 0")
  case True
  let ?n = "k3DAlgoStdKeypointNum openxr"
  from True assms(1) have len: "length (kpt3d h) = ?n" by (simp add: hand_typed_def)
  from True kf3_track_only_pred_returns [OF assms(4)] obtain r p' where
    r: "predict_root lib i h latest query p f = Some (r, predict_time h latest query, p', f)"
    "smoother_ok 1 (predict_smoother p')" by (fastforce simp: predict_root_tracking)
  define moved where "moved = map (\<lambda>q. sub3 (add3 q r) (kpt3d h ! kKeypointRootId)) (take ?n (kpt3d h)) @ drop ?n (kpt3d h)"
  have "length moved = ?n" using len by (simp add: moved_def)
  from post_filter_ok_process [OF assms(3) this] obtain sm f2 where
    f2: "hand_filters_process openxr (int i) moved f = Some (Inr (sm, f2))" "length sm = ?n" "post_filter_ok openxr f2"
    using \<open>length moved = ?n\<close> by fastforce
  let ?ps = "constraint_hand_v2 env sm (i = 0)"
  have ps: "length ?ps = ?n" using assms(2) f2(2) by (simp add: keeps_points_def)
  from hand_rotations_returns [OF this] obtain R where
    R: "hand_rotations env openxr ?ps (i = 0) = Some R" "length R = EZXR_DEFINED_JOINTS openxr" by blast
  have "EZXR_DEFINED_JOINTS openxr \<le> length ?ps"
    by (simp add: ps k3DAlgoStdKeypointNum_def EZXR_DEFINED_JOINTS_def)
  with R(2) obtain js where "write_joints env openxr ?ps R (clear_joints openxr (out_joints out_l)) = Some js"
    by (simp add: write_joints_def Let_def)
  with True len r f2 R show ?thesis
    by (simp add: pop_hand_def start_hand_def Let_def ok_of_def moved_def)
next
  case False
  with assms(3,4) show ?thesis by (auto simp: pop_hand_def Let_def)
qed

definition result_typed :: "bool \<Rightarrow> hand_xgraph \<Rightarrow> bool" where
  "result_typed openxr x \<longleftrightarrow>
     (\<forall>c. fst (GetOutputStreamCache (handresult_output_groud_index x) True (base x)) = Some c \<longrightarrow>
        (\<exists>hands stamp. nth_opt (output_packs c) (handresult_output_packet_index x) = Some (Some (HandPacket hands stamp)) \<and>
           hand_typed openxr (lhand_valid hands) (left_hand hands) \<and> hand_typed openxr (rhand_valid hands) (right_hand hands)))"

definition smoothers_ok :: "bool \<Rightarrow> 'c predictor_service \<Rightarrow> hand_xgraph \<Rightarrow> bool" where
  "smoothers_ok openxr g x \<longleftrightarrow> post_filter_ok openxr (post_filter x) \<and>
     smoother_ok 1 (predict_smoother (kfpredictor_lhand g)) \<and> smoother_ok 1 (predict_smoother (kfpredictor_rhand g))"

lemma PopResult_returns:
  assumes "result_typed openxr x" and "keeps_points env" and "smoothers_ok openxr g x"
  shows "\<exists>ok n outs g' x'. PopResult lib env openxr hmd g x out_l out_r = Some (ok, n, outs, g', x') \<and>
    smoothers_ok openxr g' x' \<and> result_typed openxr x' \<and>
    ok = (fst (GetOutputStreamCache (handresult_output_groud_index x) True (base x)) \<noteq> None)"
proof (cases "fst (GetOutputStreamCache (handresult_output_groud_index x) True (base x))")
  case None
  with assms show ?thesis by (intro exI [of _ False]) (simp add: PopResult_def Let_def)
next
  case (Some c)
  with assms(1) obtain hands stamp where
    c: "nth_opt (output_packs c) (handresult_output_packet_index x) = Some (Some (HandPacket hands stamp))"
    and t: "hand_typed openxr (lhand_valid hands) (left_hand hands)" "hand_typed openxr (rhand_valid hands) (right_hand hands)"
    by (auto simp: result_typed_def)
  note s = assms(3) [unfolded smoothers_ok_def]
  let ?raw = "raw_timestamp c" and ?t = "real_of_int stamp / 1000000"
  from pop_hand_returns [OF t(1) assms(2) s [THEN conjunct1], of "kfpredictor_lhand g"] s obtain l q1 pl f1 where
    l: "pop_hand lib env openxr 0 (left_hand hands) (lhand_valid hands) ?raw ?t (query_seconds hmd)
      (kfpredictor_lhand g) (post_filter x) out_l = Some (l, q1, pl, f1)"
    "post_filter_ok openxr f1" "smoother_ok 1 (predict_smoother pl)" by blast
  from pop_hand_returns [OF t(2) assms(2) l(2), of "kfpredictor_rhand g"] s obtain r q2 pr f2 where
    r: "pop_hand lib env openxr 1 (right_hand hands) (rhand_valid hands) ?raw ?t q1 (kfpredictor_rhand g) f1 out_r
      = Some (r, q2, pr, f2)"
    "post_filter_ok openxr f2" "smoother_ok 1 (predict_smoother pr)" by blast
  from Some c l r assms(1) show ?thesis
    by (intro exI [of _ True]) (simp add: PopResult_def hand_packet_def Let_def smoothers_ok_def result_typed_def)
qed

text \<open>
  C6: \<open>PopResult\<close> never leaves a vector and never throws: if the newest complete result is typed
  (its packet is the hands' and a valid hand has all its keypoints), the inverse kinematics
  keeps the number of points and the smoothers are well formed, then it returns, reports
  success exactly when there is a complete result, and leaves a state that is typed again.
\<close>

theorem pop_result_returns:
  assumes "result_typed openxr x" and "keeps_points env" and "smoothers_ok openxr g x"
  shows "\<exists>ok n outs g' x'. PopResult lib env openxr hmd g x out_l out_r = Some (ok, n, outs, g', x') \<and>
    smoothers_ok openxr g' x' \<and> result_typed openxr x' \<and>
    ok = (fst (GetOutputStreamCache (handresult_output_groud_index x) True (base x)) \<noteq> None)"
  by (rule PopResult_returns [OF assms])

section \<open>A hand that is not tracked\<close>

lemma hand_filters_process_other:
  assumes "hand_filters_process openxr side ps h = Some (Inr (qs, h'))"
  shows "side \<noteq> 0 \<Longrightarrow> m_seq3d_lindex h' = m_seq3d_lindex h \<and> m_seq3d_lhand h' = m_seq3d_lhand h \<and>
      m_seq3d_palm_lhand h' = m_seq3d_palm_lhand h"
    and "side = 0 \<Longrightarrow> m_seq3d_rindex h' = m_seq3d_rindex h \<and> m_seq3d_rhand h' = m_seq3d_rhand h \<and>
      m_seq3d_palm_rhand h' = m_seq3d_palm_rhand h"
  using assms
  by (auto simp: hand_filters_process_def Let_def res_bind_def split: if_splits sum.splits)

lemma pop_hand_filters:
  assumes "pop_hand lib env openxr i h valid raw latest query p f out_l = Some (out, q', p', f')"
  shows "f' = f \<or> out_is_tracked out \<and> (\<exists>ps qs. hand_filters_process openxr (int i) ps f = Some (Inr (qs, f')))"
proof (cases "out_is_tracked out \<and> query \<noteq> 0")
  case True
  then have "kf3_get_tracking_status p" using pop_hand_tracked [OF assms] by simp
  with True assms show ?thesis
    by (auto simp: pop_hand_def Let_def bind_eq_Some_conv predict_root_tracking split: if_splits)
next
  case False
  with assms pop_hand_tracked [OF assms] show ?thesis by (auto simp: pop_hand_def Let_def)
qed

text \<open>
  A hand that the result reports as not tracked leaves its smoothers as they are: the
  \<open>post_filter_->reset\<close> for it is in a branch that is entered for tracked hands only, so a hand
  that comes back is smoothed against the points it had when it was lost.
\<close>

lemma pop_never_resets:
  assumes "PopResult lib env openxr hmd g x out_l out_r = Some (True, n, (l, r), g', x')"
  shows "(\<not> out_is_tracked l \<longrightarrow> m_seq3d_lindex (post_filter x') = m_seq3d_lindex (post_filter x) \<and>
      m_seq3d_lhand (post_filter x') = m_seq3d_lhand (post_filter x) \<and>
      m_seq3d_palm_lhand (post_filter x') = m_seq3d_palm_lhand (post_filter x)) \<and>
    (\<not> out_is_tracked r \<longrightarrow> m_seq3d_rindex (post_filter x') = m_seq3d_rindex (post_filter x) \<and>
      m_seq3d_rhand (post_filter x') = m_seq3d_rhand (post_filter x) \<and>
      m_seq3d_palm_rhand (post_filter x') = m_seq3d_palm_rhand (post_filter x))"
proof -
  from assms obtain c and hands :: hands_data and stamp q1 pl f1 q2 pr f2 where
    "fst (GetOutputStreamCache (handresult_output_groud_index x) True (base x)) = Some c"
    and l: "pop_hand lib env openxr 0 (left_hand hands) (lhand_valid hands) (raw_timestamp c)
      (real_of_int stamp / 1000000) (query_seconds hmd) (kfpredictor_lhand g) (post_filter x) out_l
      = Some (l, q1, pl, f1)"
    and r: "pop_hand lib env openxr 1 (right_hand hands) (rhand_valid hands) (raw_timestamp c)
      (real_of_int stamp / 1000000) q1 (kfpredictor_rhand g) f1 out_r = Some (r, q2, pr, f2)"
    and x': "x' = x\<lparr>post_filter := f2, sequence_predict_id := sequence_predict_id x + 1\<rparr>"
    by (elim PopResult_cases) blast
  note other = hand_filters_process_other
  from pop_hand_filters [OF l] pop_hand_filters [OF r]
  show ?thesis by (auto simp: x' dest: other)
qed

section \<open>The order of the recorded information\<close>

text \<open>
  The records of two frames are exported out of order and incomplete: with the records of
  two tracked frames waiting, the older frame is answered with the text for dropped frames
  although its record is there, then the newer record is exported, and the older record stays
  at the end of the list with no frame left to ask for it.
\<close>

lemma exec_info_loses_frame:
  assumes "recordresult_output_groud_index x = d" and "d < length (output_stream_groud_cache (base x))"
    and "output_stream_groud_cache (base x) ! d = [newer, older]"
    and "raw_timestamp (store (base x) ! older) = ta" and "raw_timestamp (store (base x) ! newer) = tb" and "ta < tb"
    and "debug_frame_infos x = (ta, sa) # (tb, sb) # frames"
    and "recordresult_output_packet_index x < length (output_packs (store (base x) ! newer))"
    and "output_packs (store (base x) ! newer) ! recordresult_output_packet_index x = Some (RecordPacket js_newer stamp)"
  shows "\<exists>x1 x2. PopExecInfo True busy t0 js0 x = Some ((True, ta, busy), x1) \<and>
    PopExecInfo True busy t1 js1 x1 = Some ((True, tb, js_newer), x2) \<and>
    output_stream_groud_cache (base x2) ! d = [older] \<and> debug_frame_infos x2 = frames"
  using assms
  by (auto simp: PopExecInfo_def GetOutputStreamCache_def nth_opt_def record_packet_def Let_def)

section \<open>Examples\<close>

definition example_env :: "mat3 hand_env" where
  "example_env = \<lparr>constraint_hand_v2 = (\<lambda>ps l. ps), from_two_vectors = (\<lambda>a b. mat3_identity),
     angle_axis = (\<lambda>t a. mat3_identity), uninitialised_matrix = mat3_identity, to_quaternion = (\<lambda>m. m)\<rparr>"

definition example_out :: "mat3 hand_out" where
  "example_out = \<lparr>out_version = 0, out_is_tracked = False, out_confidence = 0, out_hand_type = 0, out_gesture = 0,
     out_joint_count = 0, out_joints = replicate 32 \<lparr>joint_version = 0, joint_type = 0, joint_position = v3 0 0 0,
       joint_rotation = mat3_identity\<rparr>, out_image_timestamp = 0, out_pinch_strength = 0\<rparr>"

definition example_mono_hands :: hands_data where
  "example_mono_hands = new_hands_data\<lparr>lhand_valid := True, rhand_valid := True,
     left_hand := new_single_hand_data\<lparr>kpt3d := replicate 26 (v3 0 0 1), source := CamMono\<rparr>,
     right_hand := new_single_hand_data\<lparr>kpt3d := replicate 26 (v3 0 1 1), source := CamMono\<rparr>\<rparr>"

definition example_xgraph :: "hands_data \<Rightarrow> hand_filters \<Rightarrow> hand_xgraph" where
  "example_xgraph hands f = \<lparr>base = base_xgraph_new\<lparr>output_stream_name := [''hand_result''],
      store := [\<lparr>raw_timestamp = 5000, output_packs_sum = 1, sync_bitmap = 1, output_packs = [Some (HandPacket hands 5)]\<rparr>],
      output_stream_groud_cache := [[0]]\<rparr>,
     post_filter = f, sequence_predict_id = 0, handresult_output_groud_index = 0, handresult_output_packet_index = 0,
     recordresult_output_groud_index = 1, recordresult_output_packet_index = 0, debug_frame_infos = []\<rparr>"

definition example_tracked_service :: "bool \<Rightarrow> seq_manager_3d \<Rightarrow> unit predictor_service" where
  "example_tracked_service tracked m = example_service
     \<lparr>kfpredictor_lhand := example_predictor_3d\<lparr>is_tracked3 := tracked, predict_smoother := m\<rparr>,
      kfpredictor_rhand := example_predictor_3d\<lparr>is_tracked3 := tracked, predict_smoother := m\<rparr>\<rparr>"

lemma example_smoothers:
  obtains f m where "post_filter_ok True f" and "smoother_ok 1 m"
proof -
  obtain f where f: "hand_filters_keep True 0 0 f" using hand_filters_init_keep by blast
  obtain pp px po where "hand_filter_params ''ella'' = (pp, px, po)"
    by (cases "hand_filter_params ''ella''") auto
  then have "0 < p_freq pp" "\<forall>i<3. 0 < p_mincutoff pp ! i \<and> 0 \<le> p_beta pp ! i \<and> 0 < p_dcutoff pp ! i"
    by (auto simp: hand_filter_params_def Let_def less_Suc_eq numeral_3_eq_3)
  from good_params_keep [OF this] obtain m where "seq3d_keeps 0 0 m \<and> s3_num m = 1" by blast
  with f that show ?thesis by (auto simp: post_filter_ok_def smoother_ok_def)
qed

lemma example_typed:
  assumes "post_filter_ok True f" and "smoother_ok 1 m"
  shows "result_typed True (example_xgraph example_mono_hands f)" and "keeps_points example_env"
    and "smoothers_ok True (example_tracked_service tracked m) (example_xgraph example_mono_hands f)"
    and "fst (GetOutputStreamCache 0 True (base (example_xgraph example_mono_hands f))) =
      Some \<lparr>raw_timestamp = 5000, output_packs_sum = 1, sync_bitmap = 1, output_packs = [Some (HandPacket example_mono_hands 5)]\<rparr>"
  using assms
  by (simp_all add: result_typed_def example_xgraph_def GetOutputStreamCache_def base_xgraph_new_def nth_opt_def
      hand_typed_def example_mono_hands_def k3DAlgoStdKeypointNum_def keeps_points_def example_env_def smoothers_ok_def
      example_tracked_service_def)

lemma example_index [simp]:
  "handresult_output_groud_index (example_xgraph hands f) = 0"
  "handresult_output_packet_index (example_xgraph hands f) = 0"
  "post_filter (example_xgraph hands f) = f"
  by (simp_all add: example_xgraph_def)

lemma example_tracked [simp]:
  "lhand_valid example_mono_hands" "rhand_valid example_mono_hands"
  "source (left_hand example_mono_hands) = CamMono" "source (right_hand example_mono_hands) = CamMono"
  "kf3_get_tracking_status (kfpredictor_lhand (example_tracked_service tracked m)) = tracked"
  "kf3_get_tracking_status (kfpredictor_rhand (example_tracked_service tracked m)) = tracked"
  by (simp_all add: example_mono_hands_def example_tracked_service_def kf3_get_tracking_status_def)

lemma example_pop:
  assumes "post_filter_ok True f" and "smoother_ok 1 m"
  obtains n l r g' x' where "PopResult example_lib example_env True 1000000000 (example_tracked_service tracked m)
    (example_xgraph example_mono_hands f) example_out example_out = Some (True, n, (l, r), g', x')"
proof -
  from PopResult_returns [OF example_typed(1-3) [OF assms], where lib = example_lib and hmd = 1000000000
      and out_l = example_out and out_r = example_out, of tracked]
    example_typed(4) [OF assms]
  have "\<exists>n outs g' x'. PopResult example_lib example_env True 1000000000 (example_tracked_service tracked m)
      (example_xgraph example_mono_hands f) example_out example_out = Some (True, n, outs, g', x')" by auto
  with that show ?thesis by (metis surj_pair)
qed

theorem pop_result_returns_witness:
  "\<exists>f m n outs g' x'. PopResult example_lib example_env True 1000000000 (example_tracked_service True m)
     (example_xgraph example_mono_hands f) example_out example_out = Some (True, n, outs, g', x') \<and> smoothers_ok True g' x'"
proof -
  obtain f m where ok: "post_filter_ok True f" "smoother_ok 1 m" by (rule example_smoothers)
  from pop_result_returns [OF example_typed(1-3) [OF ok], where lib = example_lib and hmd = 1000000000
      and out_l = example_out and out_r = example_out, of True]
    example_typed(4) [OF ok] have "\<exists>n outs g' x'. PopResult example_lib example_env True 1000000000
      (example_tracked_service True m) (example_xgraph example_mono_hands f) example_out example_out =
      Some (True, n, outs, g', x') \<and> smoothers_ok True g' x'" by fastforce
  then show ?thesis by blast
qed


definition example_records :: hand_xgraph where
  "example_records = (example_xgraph new_hands_data \<lparr>m_seq3d_lindex = \<lparr>s3_num = 0, s3_filters = []\<rparr>,
       m_seq3d_rindex = \<lparr>s3_num = 0, s3_filters = []\<rparr>, m_seq3d_lhand = \<lparr>s3_num = 0, s3_filters = []\<rparr>,
       m_seq3d_rhand = \<lparr>s3_num = 0, s3_filters = []\<rparr>, m_seq3d_palm_lhand = \<lparr>s3_num = 0, s3_filters = []\<rparr>,
       m_seq3d_palm_rhand = \<lparr>s3_num = 0, s3_filters = []\<rparr>\<rparr>)
     \<lparr>base := base_xgraph_new\<lparr>output_stream_name := [''record_result''],
        store := [\<lparr>raw_timestamp = 1000, output_packs_sum = 1, sync_bitmap = 1, output_packs = [Some (RecordPacket ''a'' 1)]\<rparr>,
                  \<lparr>raw_timestamp = 2000, output_packs_sum = 1, sync_bitmap = 1, output_packs = [Some (RecordPacket ''b'' 2)]\<rparr>],
        output_stream_groud_cache := [[], [1, 0]]\<rparr>,
      debug_frame_infos := [(1000, FrameInit), (2000, FrameInit)]\<rparr>"

section \<open>The configuration\<close>

lemma packet_index_finds:
  assumes "o' < length names" and "names ! o' = name"
  shows "packet_index names name k0 < length names \<and> names ! packet_index names name k0 = name"
proof -
  let ?f = "\<lambda>order k. if names ! order = name then order else k"
  have "o' < m \<Longrightarrow> fold ?f [0..<m] k0 < m \<and> names ! fold ?f [0..<m] k0 = name" for m
    using assms(2) by (induction m) (auto simp: less_Suc_eq)
  from this [OF assms(1)] show ?thesis by (simp add: packet_index_def)
qed

lemma fold_max_eq: "fold max xs (m :: nat) = Max (insert m (set xs))"
  using Max.set_eq_fold [of m xs] by simp

lemma record_config_ok:
  assumes "length (output_stream_name s) \<le> 64" and "distinct (output_stream_name s)"
  shows "config_ok (SetMultipleOutputCleanStrategy (record_clean_policy export)
    (SetMultipleOutputSync (record_sync_bitmaps (output_stream_name s)) (record_groud_index (output_stream_name s)) s))"
    (is "config_ok ?t")
proof -
  let ?names = "output_stream_name s"
  let ?m = "fold max (record_groud_index ?names) 0"
  have le: "?m \<le> 1" by (simp add: fold_max_eq) (auto simp: record_groud_index_def)
  have gs: "length (output_stream_groud_cache ?t) = Suc ?m"
    by (simp add: SetMultipleOutputCleanStrategy_def SetMultipleOutputSync_def Let_def)
  have default: "bit (all_bits (filter (\<lambda>order. \<not> is_record ?names order) [0..<length ?names])) k =
      (k < length ?names \<and> \<not> is_record ?names k)" for k
    using assms(1) by (subst bit_all_bits) auto
  have bits: "bit (record_sync_bitmaps ?names ! k1) k2" if "k1 < length ?names" "k2 < length ?names"
    "record_groud_index ?names ! k2 = record_groud_index ?names ! k1" for k1 k2
  proof (cases "is_record ?names k1")
    case True
    with that have "is_record ?names k2" by (simp add: record_groud_index_def split: if_splits)
    with True have "k2 = k1" using nth_eq_iff_index_eq [OF assms(2) that(2,1)] by (simp add: is_record_def)
    with True that assms(1) show ?thesis by (simp add: record_sync_bitmaps_def bit_order_bit)
  next
    case False
    with that show ?thesis by (simp add: record_sync_bitmaps_def record_groud_index_def default split: if_splits)
  qed
  have idx: "k \<in> set (record_groud_index ?names) \<Longrightarrow> k < Suc ?m" for k
    by (simp add: fold_max_eq le_imp_less_Suc)
  have "?m = 0 \<or> ?m = 1" using le by linarith
  with bits idx assms(1) gs show ?thesis
    by (auto simp: config_ok_def SetMultipleOutputCleanStrategy_def SetMultipleOutputSync_def Let_def
        record_clean_policy_def record_sync_bitmaps_def record_groud_index_def)
qed

text \<open>
  For known pipelines \<open>Init\<close> succeeds, and whatever is recorded or exported it leaves a
  configuration in which the delivery guarantees hold: every output belongs to a group that
  exists, waits for exactly the outputs of its group, and the packets of the hands and of the
  record are looked for where the outputs of that name are.
\<close>

lemma init_configures:
  assumes "distinct names" and "length names \<le> 64"
  shows "\<exists>x. hand_xgraph_init openxr t0 pipeline_name add_record export names = Inr x \<and>
    configured (base x) \<and> output_stream_name (base x) = names \<and>
    (add_record \<and> ''hand_result'' \<in> set names \<longrightarrow>
       names ! handresult_output_packet_index x = ''hand_result'' \<and>
       output_order_groud_index (base x) ! handresult_output_packet_index x = handresult_output_groud_index x) \<and>
    (add_record \<and> ''record_result'' \<in> set names \<longrightarrow>
       names ! recordresult_output_packet_index x = ''record_result'' \<and>
       output_order_groud_index (base x) ! recordresult_output_packet_index x = recordresult_output_groud_index x)"
proof -
  define glasses where "glasses = (if str_contains pipeline_name ''flora'' \<or> str_contains pipeline_name ''gina''
    then ''flora'' else ''ella'')"
  then have "glasses = ''flora'' \<or> glasses = ''ella''" by (cases "str_contains pipeline_name ''flora''") simp_all
  from hand_filters_init_keep [OF this, of openxr t0 0 0]
  obtain f where f: "init_post_filter openxr t0 pipeline_name = Inr f"
    by (auto simp: init_post_filter_def glasses_def [symmetric])
  define x0 where "x0 = (hand_xgraph_new f)\<lparr>base := base_init names base_xgraph_new\<rparr>"
  have names: "output_stream_name (base x0) = names"
    by (simp add: x0_def base_init_def base_xgraph_new_def Let_def SetMultipleOutputSync_def SetMultipleOutputCleanStrategy_def)
  have c: "configured (base x0)" using base_init_configured [OF assms(2)] by (simp add: x0_def)
  define x where "x = (if add_record then init_record export x0 else x0)"
  have "hand_xgraph_init openxr t0 pipeline_name add_record export names = Inr x"
    by (simp add: hand_xgraph_init_def f x_def x0_def hand_xgraph_new_def Let_def)
  moreover have "configured (base x)"
  proof (cases add_record)
    case True
    have "config_ok (base x)"
      using record_config_ok [of "base x0" export] assms names True by (simp add: x_def init_record_def Let_def)
    with True c show ?thesis
      by (auto simp: configured_def x_def init_record_def Let_def SetMultipleOutputCleanStrategy_def
          SetMultipleOutputSync_def dest: in_set_takeD)
  qed (use c in \<open>simp add: x_def\<close>)
  moreover have "output_stream_name (base x) = names"
    using names by (simp add: x_def init_record_def Let_def SetMultipleOutputCleanStrategy_def SetMultipleOutputSync_def)
  moreover have index: "names ! packet_index names name k = name \<and>
      record_groud_index names ! packet_index names name k = (if name = ''record_result'' then 1 else 0)"
    if "name \<in> set names" for name k
  proof -
    from that obtain k' where "k' < length names" "names ! k' = name" by (auto simp: in_set_conv_nth)
    from packet_index_finds [OF this, of k] show ?thesis by (simp add: record_groud_index_def is_record_def)
  qed
  moreover have "handresult_output_packet_index x = packet_index names ''hand_result'' 0"
    "recordresult_output_packet_index x = packet_index names ''record_result'' 1"
    "output_order_groud_index (base x) = record_groud_index names"
    "handresult_output_groud_index x = 0" "recordresult_output_groud_index x = 1" if add_record
    using that names by (simp_all add: x_def init_record_def Let_def SetMultipleOutputCleanStrategy_def
        SetMultipleOutputSync_def x0_def hand_xgraph_new_def)
  ultimately show ?thesis by (intro exI [of _ x]) simp
qed

end
