(* ===== verification/CameraModel.thy ===== *)
theory CameraModel
  imports Coords
begin

text \<open>
  The cameras of \<^verbatim>\<open>aisdk/base/camera_model*.{h,cpp}\<close> and their construction from the
  parameters of the glasses (\<open>ConvertCameraInfo\<close> and \<open>ConvertCameraModel\<close> of
  \<^verbatim>\<open>aisdk/task/handtracking/base_xgraph.cpp\<close>).

  The package \<open>camera_models\<close>, which computes the undistortion and the distortion of the
  fisheye with 12 coefficients, is an argument (\<open>camera_lib\<close>). A point that the code would
  compute by dividing zero by zero or by a depth of zero is None; focal lengths are not zero.
\<close>

section \<open>Distortion\<close>

datatype distortion =
    NoDistortion
  | PinholeDistortion real real real real real
  | FisheyeDistortion real real real real
  | Fisheye624Distortion "real list"

text \<open>The 12 members of the last, in the order of their declaration: k1 to k6, p1, p2, s1 to s4.\<close>

definition fisheye624_new :: "real list \<Rightarrow> distortion" where
  "fisheye624_new c = Fisheye624Distortion
     [c ! 0, c ! 1, c ! 2, c ! 3, c ! 6, c ! 7, c ! 4, c ! 5, c ! 8, c ! 9, c ! 10, c ! 11]"

fun getDistortionParams :: "distortion \<Rightarrow> real list" where
  "getDistortionParams NoDistortion = []"
| "getDistortionParams (PinholeDistortion k1 k2 p1 p2 k3) = [k1, k2, p1, p2, k3]"
| "getDistortionParams (FisheyeDistortion k1 k2 k3 k4) = [k1, k2, k3, k4]"
| "getDistortionParams (Fisheye624Distortion kc) = kc"

record camera_lib =
  radial_undistort :: "real list \<Rightarrow> vec2 \<Rightarrow> vec2"
  fisheye_undistort :: "real list \<Rightarrow> vec2 \<Rightarrow> vec2"
  fisheye624_distort :: "real list \<Rightarrow> vec2 \<Rightarrow> vec2"
  fisheye624_undistort :: "real list \<Rightarrow> vec2 \<Rightarrow> vec2"

definition pad12 :: "real list \<Rightarrow> real list" where
  "pad12 kc = kc @ replicate (12 - length kc) 0"

definition pinhole_distort :: "real \<Rightarrow> real \<Rightarrow> real \<Rightarrow> real \<Rightarrow> real \<Rightarrow> vec2 \<Rightarrow> vec2" where
  "pinhole_distort k1 k2 p1 p2 k3 p =
     (let r2 = dot2 p p; r4 = r2 * r2; r6 = r4 * r2; x = v2x p; y = v2y p
      in v2 (x * (1 + k1 * r2 + k2 * r4 + k3 * r6) + 2 * p1 * x * y + p2 * (r2 + 2 * x * x))
            (y * (1 + k1 * r2 + k2 * r4 + k3 * r6) + 2 * p2 * x * y + p1 * (r2 + 2 * y * y)))"

definition fisheye_distort :: "real \<Rightarrow> real \<Rightarrow> real \<Rightarrow> real \<Rightarrow> vec2 \<Rightarrow> vec2 option" where
  "fisheye_distort k1 k2 k3 k4 p =
     (let r2 = dot2 p p; theta = arctan (sqrt r2); theta2 = theta * theta; theta4 = theta2 * theta2;
          theta6 = theta2 * theta4; theta8 = theta4 * theta4;
          thetad = theta * (1 + k1 * theta2 + k2 * theta4 + k3 * theta6 + k4 * theta8)
      in if r2 = 0 then None else Some (scale2 (thetad / sqrt r2) p))"

fun distort :: "camera_lib \<Rightarrow> distortion \<Rightarrow> vec2 \<Rightarrow> vec2 option" where
  "distort lib NoDistortion p = Some p"
| "distort lib (PinholeDistortion k1 k2 p1 p2 k3) p = Some (pinhole_distort k1 k2 p1 p2 k3 p)"
| "distort lib (FisheyeDistortion k1 k2 k3 k4) p = fisheye_distort k1 k2 k3 k4 p"
| "distort lib (Fisheye624Distortion kc) p = Some (fisheye624_distort lib kc p)"

fun undistort_point :: "camera_lib \<Rightarrow> distortion \<Rightarrow> vec2 \<Rightarrow> vec2" where
  "undistort_point lib NoDistortion p = p"
| "undistort_point lib (PinholeDistortion k1 k2 p1 p2 k3) p = radial_undistort lib (pad12 [k1, k2, p1, p2, k3]) p"
| "undistort_point lib (FisheyeDistortion k1 k2 k3 k4) p = fisheye_undistort lib (pad12 [k1, k2, k3, k4]) p"
| "undistort_point lib (Fisheye624Distortion kc) p = fisheye624_undistort lib kc p"

section \<open>Projections\<close>

definition persp_project :: "vec3 \<Rightarrow> vec2 option" where
  "persp_project p = (if vz p = 0 then None else Some (v2 (vx p / vz p) (vy p / vz p)))"

definition persp_unproject :: "vec2 \<Rightarrow> vec3" where
  "persp_unproject p = normalized3 (v3 (v2x p) (v2y p) 1)"

definition EPS :: real where
  "EPS = 1 / 100000"

definition sinc :: "real \<Rightarrow> real" where
  "sinc x = (if \<bar>x\<bar> < EPS then 1 else sin (pi * x) / (pi * x))"

text \<open>\<open>std::atan2\<close> for a first argument that is not negative.\<close>

definition atan2 :: "real \<Rightarrow> real \<Rightarrow> real" where
  "atan2 r z = (if 0 < z then arctan (r / z) else if z < 0 then arctan (r / z) + pi
     else if 0 < r then pi / 2 else 0)"

definition arctan_project :: "vec3 \<Rightarrow> vec2" where
  "arctan_project p =
     (let r = sqrt (vx p * vx p + vy p * vy p); s = atan2 r (vz p) / max r EPS
      in v2 (vx p * s) (vy p * s))"

definition arctan_unproject :: "vec2 \<Rightarrow> vec3" where
  "arctan_unproject p =
     (let u = v2x p; v = v2y p; r = sqrt (u * u + v * v); c = cos r; s = sinc (r / pi)
      in v3 (u * s) (v * s) c)"

section \<open>Cameras\<close>

record camera_intrinsics =
  fx :: real
  fy :: real
  cx :: real
  cy :: real

datatype camera_type = UnknownCamera | Pinhole | Fisheye400 | Fisheye624

record camera_model =
  intrinsics :: camera_intrinsics
  distortion_model :: distortion
  camera_to_world_xf :: iso
  camera_type_of :: int
  video_width :: int
  video_height :: int

definition to_window :: "camera_intrinsics \<Rightarrow> vec2 \<Rightarrow> vec2" where
  "to_window k p = v2 (v2x p * fx k + cx k) (v2y p * fy k + cy k)"

definition from_window :: "camera_intrinsics \<Rightarrow> vec2 \<Rightarrow> vec2" where
  "from_window k p = v2 ((v2x p - cx k) / fx k) ((v2y p - cy k) / fy k)"

definition world_to_eye :: "camera_model \<Rightarrow> vec3 list \<Rightarrow> vec3 list" where
  "world_to_eye c ps = map (iso_apply (iso_inverse (camera_to_world_xf c))) ps"

definition eye_to_world :: "camera_model \<Rightarrow> vec3 list \<Rightarrow> vec3 list" where
  "eye_to_world c ps = map (iso_apply (camera_to_world_xf c)) ps"

definition eye_to_window :: "camera_lib \<Rightarrow> camera_model \<Rightarrow> vec3 list \<Rightarrow> vec2 option list" where
  "eye_to_window lib c ps =
     map (\<lambda>p. map_option (to_window (intrinsics c))
                (Option.bind (persp_project p) (distort lib (distortion_model c)))) ps"

definition world_to_window :: "camera_lib \<Rightarrow> camera_model \<Rightarrow> vec3 list \<Rightarrow> vec2 option list" where
  "world_to_window lib c ps = eye_to_window lib c (world_to_eye c ps)"

definition undistort :: "camera_lib \<Rightarrow> camera_model \<Rightarrow> vec2 list \<Rightarrow> vec2 list" where
  "undistort lib c ps =
     map (to_window (intrinsics c)) (map (undistort_point lib (distortion_model c)) (map (from_window (intrinsics c)) ps))"

definition window_to_eye :: "camera_lib \<Rightarrow> camera_model \<Rightarrow> vec2 list \<Rightarrow> vec3 list" where
  "window_to_eye lib c ps = map persp_unproject (map (from_window (intrinsics c)) (undistort lib c ps))"

text \<open>The overload for points with a depth.\<close>

definition window_to_eye_depth :: "camera_lib \<Rightarrow> camera_model \<Rightarrow> vec3 list \<Rightarrow> vec3 list" where
  "window_to_eye_depth lib c ps =
     (let relative_3d = window_to_eye lib c (map (\<lambda>p. v2 (vx p) (vy p)) ps)
      in map2 (\<lambda>r p. scale3 (vz p / vz r) r) relative_3d ps)"

section \<open>From the parameters of the glasses\<close>

type_synonym camera_params = "string \<Rightarrow> real list"

text \<open>The coefficients of a matrix that was never assigned cannot be read.\<close>

record cam_info =
  cvL_T_cvR :: iso
  lcam_intrinsics :: "camera_intrinsics option"
  rcam_intrinsics :: "camera_intrinsics option"
  lcam_dist_coeffs :: "real list option"
  rcam_dist_coeffs :: "real list option"
  info_camera_type :: int
  lcam_valid :: bool
  rcam_valid :: bool
  info_video_width :: int
  info_video_height :: int

definition param :: "camera_params \<Rightarrow> string \<Rightarrow> nat \<Rightarrow> real option" where
  "param ps name i = (if i < length (ps name) then Some (ps name ! i) else None)"

definition param_k :: "camera_params \<Rightarrow> string \<Rightarrow> string \<Rightarrow> camera_intrinsics option" where
  "param_k ps fc cc = do {
     f0 \<leftarrow> param ps fc 0; f1 \<leftarrow> param ps fc 1; c0 \<leftarrow> param ps cc 0; c1 \<leftarrow> param ps cc 1;
     Some \<lparr>fx = f0, fy = f1, cx = c0, cy = c1\<rparr>
   }"

text \<open>The row of coefficients starts as \<open>cv::Mat::eye(1, 12)\<close>; a 13th would be outside it.\<close>

definition param_dist :: "camera_params \<Rightarrow> string \<Rightarrow> real list option" where
  "param_dist ps name =
     (let kc = ps name
      in if length kc > 12 then None else Some (kc @ drop (length kc) (1 # replicate 11 0)))"

definition gl_T_cv :: "int \<Rightarrow> iso" where
  "gl_T_cv generate_method =
     (if generate_method = 1 then (v3 1 0 0, v3 0 (-1) 0, v3 0 0 (-1)) else mat3_identity, v3 0 0 0)"

text \<open>The conversion of a float to an integer.\<close>

definition trunc :: "real \<Rightarrow> int" where
  "trunc x = (if 0 \<le> x then \<lfloor>x\<rfloor> else \<lceil>x\<rceil>)"

text \<open>\<open>rot\<close> is Eigen's rotation matrix of a quaternion, \<open>u\<close> the isometry that stays unassigned.\<close>

definition stereo_xf :: "(real \<Rightarrow> real \<Rightarrow> real \<Rightarrow> real \<Rightarrow> mat3) \<Rightarrow> camera_params \<Rightarrow> iso option" where
  "stereo_xf rot ps = do {
     qw \<leftarrow> param ps ''glL_R_glR'' 0; qx \<leftarrow> param ps ''glL_R_glR'' 1;
     qy \<leftarrow> param ps ''glL_R_glR'' 2; qz \<leftarrow> param ps ''glL_R_glR'' 3;
     tx \<leftarrow> param ps ''glL_t_glR'' 0; ty \<leftarrow> param ps ''glL_t_glR'' 1; tz \<leftarrow> param ps ''glL_t_glR'' 2;
     gm \<leftarrow> param ps ''generate_method'' 0;
     let g = gl_T_cv (trunc gm);
     Some (iso_compose (iso_compose g (rot qw qx qy qz, v3 tx ty tz)) g)
   }"

definition ConvertCameraInfo :: "(real \<Rightarrow> real \<Rightarrow> real \<Rightarrow> real \<Rightarrow> mat3) \<Rightarrow> iso \<Rightarrow> camera_params \<Rightarrow> int \<Rightarrow> cam_info option" where
  "ConvertCameraInfo rot u ps nr_cameras = do {
     lk \<leftarrow> param_k ps ''cam_l_fc'' ''cam_l_cc'';
     ld \<leftarrow> param_dist ps ''cam_l_kc'';
     (xf, rk, rd) \<leftarrow>
       (if nr_cameras = 2
        then do {
          xf \<leftarrow> stereo_xf rot ps;
          rk \<leftarrow> param_k ps ''cam_r_fc'' ''cam_r_cc'';
          rd \<leftarrow> param_dist ps ''cam_r_kc'';
          Some (xf, Some rk, Some rd)
        }
        else Some (u, None, None));
     ct \<leftarrow> param ps ''camera_model'' 0;
     w \<leftarrow> param ps ''cam_resolution'' 0;
     h \<leftarrow> param ps ''cam_resolution'' 1;
     Some \<lparr>cvL_T_cvR = xf, lcam_intrinsics = Some lk, rcam_intrinsics = rk,
           lcam_dist_coeffs = Some ld, rcam_dist_coeffs = rd, info_camera_type = trunc ct,
           lcam_valid = True, rcam_valid = (nr_cameras = 2),
           info_video_width = trunc w, info_video_height = trunc h\<rparr>
   }"

definition pinhole_of :: "real list \<Rightarrow> distortion" where
  "pinhole_of c = PinholeDistortion (c ! 0) (c ! 1) (c ! 2) (c ! 3) (c ! 4)"

definition fisheye_of :: "real list \<Rightarrow> distortion" where
  "fisheye_of c = FisheyeDistortion (c ! 0) (c ! 1) (c ! 2) (c ! 3)"

definition make_camera :: "(real list \<Rightarrow> distortion) \<Rightarrow> cam_info \<Rightarrow> camera_intrinsics option \<Rightarrow> real list option
    \<Rightarrow> iso \<Rightarrow> camera_model option" where
  "make_camera mkd info k kc xf = do {
     k' \<leftarrow> k; kc' \<leftarrow> kc;
     Some \<lparr>intrinsics = k', distortion_model = mkd kc', camera_to_world_xf = xf,
           camera_type_of = info_camera_type info, video_width = info_video_width info,
           video_height = info_video_height info\<rparr>
   }"

definition lcam_model :: "(real list \<Rightarrow> distortion) \<Rightarrow> cam_info \<Rightarrow> camera_model option" where
  "lcam_model mkd info = make_camera mkd info (lcam_intrinsics info) (lcam_dist_coeffs info) iso_identity"

definition rcam_model :: "(real list \<Rightarrow> distortion) \<Rightarrow> cam_info \<Rightarrow> camera_model option" where
  "rcam_model mkd info = make_camera mkd info (rcam_intrinsics info) (rcam_dist_coeffs info) (cvL_T_cvR info)"

definition format_pinhole_camera_model :: "cam_info \<Rightarrow> camera_model list option" where
  "format_pinhole_camera_model info = do {
     l \<leftarrow> (if lcam_valid info then map_option (\<lambda>c. [c]) (lcam_model pinhole_of info) else Some []);
     r \<leftarrow> (if rcam_valid info then map_option (\<lambda>c. [c]) (rcam_model pinhole_of info) else Some []);
     Some (l @ r)
   }"

definition format_opencv_fisheye_camera_model :: "cam_info \<Rightarrow> camera_model list option" where
  "format_opencv_fisheye_camera_model info = do {
     l \<leftarrow> lcam_model fisheye_of info; r \<leftarrow> rcam_model fisheye_of info; Some [l, r]
   }"

definition format_fisheye624_camera_model :: "cam_info \<Rightarrow> camera_model list option" where
  "format_fisheye624_camera_model info = do {
     l \<leftarrow> lcam_model fisheye624_new info; r \<leftarrow> rcam_model fisheye624_new info; Some [l, r]
   }"

definition ConvertCameraModel :: "cam_info \<Rightarrow> camera_model list option" where
  "ConvertCameraModel info =
     (if info_camera_type info = 1 then format_pinhole_camera_model info
      else if info_camera_type info = 2 then format_opencv_fisheye_camera_model info
      else if info_camera_type info = 3 then format_fisheye624_camera_model info
      else Some [])"

section \<open>Back from the image\<close>

text \<open>The contract of a distortion: the undistortion inverts it where it is defined.\<close>

locale invertible_distortion =
  fixes mkd :: "vec2 \<Rightarrow> vec2 option" and undist :: "vec2 \<Rightarrow> vec2" and domain :: "vec2 \<Rightarrow> bool"
  assumes undo: "domain p \<Longrightarrow> \<exists>q. mkd p = Some q \<and> undist q = p"
begin

lemma injective: "domain p \<Longrightarrow> domain q \<Longrightarrow> mkd p = mkd q \<Longrightarrow> p = q"
  using undo [of p] undo [of q] by auto

end

interpretation no_distortion: invertible_distortion "distort lib NoDistortion" "undistort_point lib NoDistortion" "\<lambda>p. True" for lib
  by unfold_locales simp

lemma from_to_window: "fx k \<noteq> 0 \<Longrightarrow> fy k \<noteq> 0 \<Longrightarrow> from_window k (to_window k p) = p"
  by (simp add: from_window_def to_window_def)

lemma unproject_scaled:
  assumes "vz p \<noteq> 0" and "n = v2 (vx p / vz p) (vy p / vz p)"
  shows "scale3 (vz p / vz (persp_unproject n)) (persp_unproject n) = p"
proof -
  let ?r = "v3 (vx p / vz p) (vy p / vz p) 1"
  have pos: "0 < dot3 ?r ?r" by (simp add: dot3_def add_nonneg_pos)
  then have n: "0 < norm3 ?r" by (simp add: norm3_def)
  have "persp_unproject n = scale3 (1 / norm3 ?r) ?r"
    using pos by (simp add: persp_unproject_def normalized3_def assms(2))
  with n assms(1) show ?thesis by (simp add: scale3_def)
qed

definition orthogonal_camera :: "camera_model \<Rightarrow> bool" where
  "orthogonal_camera c \<longleftrightarrow> orthogonal (fst (camera_to_world_xf c)) \<and> fx (intrinsics c) \<noteq> 0 \<and> fy (intrinsics c) \<noteq> 0"

text \<open>
  C22: a point that a camera sees can be recovered from its pixel and its depth: for any camera
  whose undistortion inverts its distortion at the point, projecting a point of the world
  and taking the pixel back with the point's depth, \<open>window_to_eye\<close> and \<open>eye_to_world\<close> return
  the point.
\<close>

theorem camera_roundtrip:
  assumes "orthogonal_camera c" and "e = iso_apply (iso_inverse (camera_to_world_xf c)) w" and "vz e \<noteq> 0"
    and "distort lib (distortion_model c) (v2 (vx e / vz e) (vy e / vz e)) = Some q"
    and "undistort_point lib (distortion_model c) q = v2 (vx e / vz e) (vy e / vz e)"
  shows "\<exists>u v. world_to_window lib c [w] = [Some (v2 u v)] \<and>
    eye_to_world c (window_to_eye_depth lib c [v3 u v (vz e)]) = [w]"
proof -
  let ?k = "intrinsics c"
  have f: "fx ?k \<noteq> 0" "fy ?k \<noteq> 0" using assms(1) by (simp_all add: orthogonal_camera_def)
  define px where "px = to_window ?k q"
  have px: "v2 (v2x px) (v2y px) = px" by simp
  have "world_to_window lib c [w] = [Some px]"
    using assms(2-4) by (simp add: world_to_window_def world_to_eye_def eye_to_window_def persp_project_def px_def)
  moreover have "window_to_eye_depth lib c [v3 (v2x px) (v2y px) (vz e)] = [e]"
    using unproject_scaled [OF assms(3) refl] assms(5)
    by (simp add: window_to_eye_depth_def window_to_eye_def undistort_def px) (simp add: px_def from_to_window [OF f])
  moreover have "eye_to_world c [e] = [w]"
    using assms(1,2) iso_inverse_apply(2) by (simp add: eye_to_world_def orthogonal_camera_def)
  ultimately show ?thesis by (metis px)
qed

definition example_camera :: camera_model where
  "example_camera = \<lparr>intrinsics = \<lparr>fx = 240, fy = 240, cx = 320, cy = 240\<rparr>, distortion_model = NoDistortion,
     camera_to_world_xf = iso_identity, camera_type_of = 1, video_width = 640, video_height = 480\<rparr>"

lemma iso_identity_apply [simp]: "iso_apply iso_identity p = p" "iso_inverse iso_identity = iso_identity"
  by (simp_all add: iso_apply_def iso_identity_def iso_inverse_def mat3_identity_def model_defs)

theorem camera_roundtrip_witness:
  "\<forall>lib. \<exists>u v. world_to_window lib example_camera [v3 1 2 4] = [Some (v2 u v)] \<and>
     eye_to_world example_camera (window_to_eye_depth lib example_camera [v3 u v 4]) = [v3 1 2 4]"
proof
  fix lib
  show "\<exists>u v. world_to_window lib example_camera [v3 1 2 4] = [Some (v2 u v)] \<and>
     eye_to_world example_camera (window_to_eye_depth lib example_camera [v3 u v 4]) = [v3 1 2 4]"
    using camera_roundtrip [of example_camera "v3 1 2 4" "v3 1 2 4" lib]
  by (simp add: example_camera_def orthogonal_camera_def iso_identity_def [symmetric])
    (simp add: iso_identity_def)
qed

lemma cos_atan2:
  assumes "0 \<le> r" and "n = sqrt (r * r + z * z)" and "0 < n"
  shows "n * cos (atan2 r z) = z" and "n * sin (atan2 r z) = r"
proof -
  have sq: "n * n = r * r + z * z" using assms(2) by simp
  have root: "sqrt (1 + (r / z)\<^sup>2) = n / \<bar>z\<bar>" if "z \<noteq> 0"
  proof -
    have "1 + (r / z)\<^sup>2 = (n / \<bar>z\<bar>)\<^sup>2" using that sq by (simp add: field_simps power2_eq_square)
    then show ?thesis using assms(3) by (simp add: real_sqrt_unique)
  qed
  consider "0 < z" | "z < 0" | "z = 0" by linarith
  then have "n * cos (atan2 r z) = z \<and> n * sin (atan2 r z) = r"
  proof cases
    case 3
    then have "n = r" using assms(1,2) by simp
    with 3 assms(3) show ?thesis by (simp add: atan2_def)
  qed (use root assms(3) in \<open>simp_all add: atan2_def cos_arctan sin_arctan\<close>)
  then show "n * cos (atan2 r z) = z" "n * sin (atan2 r z) = r" by simp_all
qed

text \<open>The arctangent projection keeps the direction, except close to the optical axis.\<close>

lemma arctan_roundtrip:
  assumes "EPS \<le> sqrt (vx p * vx p + vy p * vy p)"
    and "t = atan2 (sqrt (vx p * vx p + vy p * vy p)) (vz p)" and "0 < t" and "EPS \<le> t / pi"
  shows "scale3 (norm3 p) (arctan_unproject (arctan_project p)) = p"
proof -
  define r where "r = sqrt (vx p * vx p + vy p * vy p)"
  have eps: "0 < EPS" by (simp add: EPS_def)
  have le: "EPS \<le> r" using assms(1) by (simp only: r_def)
  with eps have r: "0 < r" "max r EPS = r" by linarith+
  have n: "norm3 p = sqrt (r * r + vz p * vz p)" by (simp add: norm3_def dot3_def r_def)
  then have n0: "0 < norm3 p" using r(1) by (simp add: add_pos_nonneg)
  note cs = cos_atan2 [OF less_imp_le [OF r(1)] n n0]
  have t: "t = atan2 r (vz p)" using assms(2) by (simp add: r_def)
  define s where "s = t / r"
  have "(vx p * s) * (vx p * s) + (vy p * s) * (vy p * s) = (r * s) * (r * s)"
    by (simp add: r_def algebra_simps)
  then have root: "sqrt ((vx p * s) * (vx p * s) + (vy p * s) * (vy p * s)) = t"
    using r(1) assms(3) by (simp add: s_def)
  have sinc: "sinc (t / pi) = sin t / t" using assms(3,4) by (simp add: sinc_def)
  have "arctan_unproject (arctan_project p) = v3 (vx p * s * (sin t / t)) (vy p * s * (sin t / t)) (cos t)"
    using root sinc r(2)
    by (simp add: arctan_unproject_def arctan_project_def Let_def flip: r_def t) (simp add: s_def)
  moreover have "norm3 p * (a * s * (sin t / t)) = a" for a
    using cs(2) assms(3) r(1) by (simp add: s_def t [symmetric] field_simps)
  ultimately show ?thesis using cs(1) by (simp add: scale3_def t [symmetric])
qed

section \<open>The cameras of a pair of glasses\<close>

lemma ConvertCameraInfo_shape:
  assumes "ConvertCameraInfo rot u ps nr = Some info"
  shows "lcam_valid info \<and> rcam_valid info = (nr = 2) \<and> lcam_intrinsics info \<noteq> None \<and>
    lcam_dist_coeffs info \<noteq> None \<and> (rcam_intrinsics info \<noteq> None) = (nr = 2) \<and>
    (rcam_dist_coeffs info \<noteq> None) = (nr = 2)"
  using assms by (auto simp: ConvertCameraInfo_def bind_eq_Some_conv split: if_splits)

lemma make_camera_Some:
  "make_camera mkd info k kc xf = Some c \<longleftrightarrow> (\<exists>k' kc'. k = Some k' \<and> kc = Some kc' \<and>
     c = \<lparr>intrinsics = k', distortion_model = mkd kc', camera_to_world_xf = xf,
       camera_type_of = info_camera_type info, video_width = info_video_width info,
       video_height = info_video_height info\<rparr>)"
  by (auto simp: make_camera_def bind_eq_Some_conv)

lemma camera_exists:
  "(make_camera mkd info k kc xf \<noteq> None) \<longleftrightarrow> k \<noteq> None \<and> kc \<noteq> None"
  by (auto simp: make_camera_def bind_eq_None_conv)

text \<open>
  What \<open>Init\<close> gets from the parameters: for pinhole glasses one camera per lens, the left
  at the origin; for the two fisheye types both cameras of a pair, but for a single camera the
  code reads the intrinsics of a right camera that were never assigned (None); for any other
  type no camera at all.
\<close>

lemma convert_cameras:
  assumes "ConvertCameraInfo rot u ps nr = Some info"
  shows "(info_camera_type info = 1 \<longrightarrow>
      (\<exists>cs. ConvertCameraModel info = Some cs \<and> length cs = (if nr = 2 then 2 else 1) \<and>
         camera_to_world_xf (hd cs) = iso_identity)) \<and>
    (info_camera_type info \<in> {2, 3} \<longrightarrow>
      (if nr = 2 then \<exists>l r. ConvertCameraModel info = Some [l, r] \<and> camera_to_world_xf l = iso_identity \<and>
         camera_to_world_xf r = cvL_T_cvR info
       else ConvertCameraModel info = None)) \<and>
    (info_camera_type info \<notin> {1, 2, 3} \<longrightarrow> ConvertCameraModel info = Some [])"
proof -
  note s = ConvertCameraInfo_shape [OF assms]
  obtain lk ld where l: "lcam_intrinsics info = Some lk" "lcam_dist_coeffs info = Some ld" using s by blast
  have left: "\<exists>c. lcam_model mkd info = Some c \<and> camera_to_world_xf c = iso_identity" for mkd
    by (simp add: lcam_model_def make_camera_def l)
  have right: "if nr = 2 then \<exists>c. rcam_model mkd info = Some c \<and> camera_to_world_xf c = cvL_T_cvR info
      else rcam_model mkd info = None" for mkd
  proof (cases "nr = 2")
    case True
    with s obtain rk rd where "rcam_intrinsics info = Some rk" "rcam_dist_coeffs info = Some rd" by blast
    with True show ?thesis by (simp add: rcam_model_def make_camera_def)
  next
    case False
    with s show ?thesis by (simp add: rcam_model_def make_camera_def)
  qed
  show ?thesis
    using left [of pinhole_of] right [of pinhole_of] left [of fisheye_of] right [of fisheye_of]
      left [of fisheye624_new] right [of fisheye624_new] s
    by (auto simp: ConvertCameraModel_def format_pinhole_camera_model_def format_opencv_fisheye_camera_model_def
        format_fisheye624_camera_model_def split: if_splits)
qed

definition example_params :: camera_params where
  "example_params = (\<lambda>_. [])(''cam_l_fc'' := [240, 240], ''cam_l_cc'' := [320, 240], ''camera_model'' := [3],
     ''cam_resolution'' := [640, 480])"

text \<open>Without coefficients the row keeps the 1 that \<open>eye\<close> puts first: a radial distortion.\<close>

lemma missing_coefficients: "ps name = [] \<Longrightarrow> param_dist ps name = Some (1 # replicate 11 0)"
  by (simp add: param_dist_def)

text \<open>
  The constructor of the third kind takes the tangential coefficients fifth and sixth, the
  parameters list them seventh and eighth.
\<close>

lemma fisheye624_params_permuted:
  "getDistortionParams (fisheye624_new [k1, k2, k3, k4, p1, p2, k5, k6, s1, s2, s3, s4]) =
   [k1, k2, k3, k4, k5, k6, p1, p2, s1, s2, s3, s4]"
  by (simp add: fisheye624_new_def)

end
