(* ===== verification/Joints26.thy ===== *)
theory Joints26
  imports Coords
begin

text \<open>
  The joints that the networks do not give (\<^verbatim>\<open>aisdk/algorithm/func/netalgo_utils.cpp\<close> and
  \<open>get_metacarpal_joints_v1\<close> of \<^verbatim>\<open>hand_rotation.cpp\<close>): from the 21 keypoints of a hand to the 26
  joints of the interface. A vector of \<open>Eigen\<close> vectors is created without a value; what its
  memory holds is the argument \<open>u\<close>. None stands for an access outside a vector.
\<close>

definition metacarpal :: "vec3 \<Rightarrow> vec3 \<Rightarrow> vec3 \<Rightarrow> vec3" where
  "metacarpal hand_root joint vec = add3 joint (scale3 (0.6667 * norm3 (sub3 hand_root joint)) vec)"

definition toward :: "vec3 \<Rightarrow> vec3 \<Rightarrow> vec3 \<Rightarrow> vec3" where
  "toward hand_root a b = normalized3 (add3 (sub3 hand_root a) (sub3 hand_root b))"

text \<open>Of \<open>hand_rotation.cpp\<close>: the four metacarpal joints of a hand.\<close>

definition get_metacarpal_joints_v1 :: "vec3 list \<Rightarrow> vec3 list option" where
  "get_metacarpal_joints_v1 joints =
     (if length joints < 18 then None
      else
        (let hand_root = joints ! 0;
             little_vec = toward hand_root (joints ! 9) (joints ! 17);
             ring_vec = toward hand_root (joints ! 9) (joints ! 13);
             middle_vec = normalized3 (sub3 hand_root (joints ! 9));
             index_vec = normalized3 (sub3 (scale3 2 middle_vec) ring_vec)
         in Some [metacarpal hand_root (joints ! 5) index_vec, metacarpal hand_root (joints ! 9) middle_vec,
                  metacarpal hand_root (joints ! 13) ring_vec, metacarpal hand_root (joints ! 17) little_vec]))"

text \<open>Both functions of \<open>netalgo_utils\<close> move the root away from the fingers first.\<close>

definition moved_root :: "vec3 list \<Rightarrow> vec3" where
  "moved_root joints =
     (let middle_vec = normalized3 (sub3 (joints ! 0) (joints ! 9))
      in add3 (joints ! 9) (scale3 (1.2 * norm3 (sub3 (joints ! 0) (joints ! 9))) middle_vec))"

definition get_metacarpal_xr_joints_v1 :: "vec3 list \<Rightarrow> vec3 list" where
  "get_metacarpal_xr_joints_v1 joints =
     (let middle_vec = normalized3 (sub3 (joints ! 0) (joints ! 9));
          hand_root = moved_root joints;
          little_vec = toward hand_root (joints ! 9) (joints ! 17);
          ring_vec = toward hand_root (joints ! 9) (joints ! 13);
          index_vec = sub3 (scale3 2 middle_vec) ring_vec;
          palm_center = add3 (joints ! 9) (scale3 (0.333 * norm3 (sub3 hand_root (joints ! 9))) middle_vec)
      in joints[0 := hand_root, 21 := palm_center,
                22 := metacarpal hand_root (joints ! 17) little_vec,
                23 := metacarpal hand_root (joints ! 5) index_vec,
                24 := metacarpal hand_root (joints ! 9) middle_vec,
                25 := metacarpal hand_root (joints ! 13) ring_vec])"

definition computeNormal :: "vec3 \<Rightarrow> vec3 \<Rightarrow> vec3 \<Rightarrow> bool \<Rightarrow> vec3" where
  "computeNormal A B C left =
     (let AB = sub3 B A; AC = sub3 C A in normalized3 (if left then cross3 AC AB else cross3 AB AC))"

text \<open>The copy of the input into a new vector of 26.\<close>

definition copy26 :: "vec3 list \<Rightarrow> vec3 list \<Rightarrow> vec3 list option" where
  "copy26 u input = (if length input > 26 then None else Some (input @ drop (length input) (take 26 u)))"

definition average3 :: "vec3 \<Rightarrow> vec3 \<Rightarrow> vec3" where
  "average3 a b = scale3 0.5 (add3 a b)"

text \<open>The first step of \<open>middle_palm_joint\<close>: joints 22 to 25 become averages.\<close>

definition average_metacarpals :: "vec3 list \<Rightarrow> vec3 list" where
  "average_metacarpals joints =
     (let hand_root = joints ! 0;
          middle_vec = normalized3 (sub3 hand_root (joints ! 9));
          little_vec = toward hand_root (joints ! 9) (joints ! 17);
          ring_vec = toward hand_root (joints ! 9) (joints ! 13);
          index_vec = sub3 (scale3 2 middle_vec) ring_vec
      in joints[22 := average3 (metacarpal hand_root (joints ! 17) little_vec) (joints ! 22),
                23 := average3 (metacarpal hand_root (joints ! 5) index_vec) (joints ! 23),
                24 := average3 (metacarpal hand_root (joints ! 9) middle_vec) (joints ! 24),
                25 := average3 (metacarpal hand_root (joints ! 13) ring_vec) (joints ! 25)])"

definition shift_palm :: "bool \<Rightarrow> vec3 list \<Rightarrow> vec3 list" where
  "shift_palm left joints =
     (let m = scale3 0.005 (computeNormal (joints ! 0) (joints ! 5) (joints ! 17) left);
          j = joints[22 := add3 (joints ! 22) m, 23 := add3 (joints ! 23) m,
                     24 := add3 (joints ! 24) m, 25 := add3 (joints ! 25) m]
      in j[23 := add3 (j ! 23) (scale3 0.008 (normalized3 (sub3 (j ! 24) (j ! 23))))])"

definition middle_palm_joint :: "vec3 list \<Rightarrow> vec3 list \<Rightarrow> bool \<Rightarrow> vec3 list option" where
  "middle_palm_joint u input left =
     map_option (\<lambda>joints.
       let thumb = scale3 0.005 (computeNormal (joints ! 0) (joints ! 1) (joints ! 21) left)
       in shift_palm left (average_metacarpals (joints[2 := sub3 (joints ! 2) thumb])))
       (copy26 u input)"

definition interpolation_to_26points :: "vec3 list \<Rightarrow> vec3 list \<Rightarrow> vec3 list option" where
  "interpolation_to_26points u input =
     (if length input < 18 then None
      else map_option (\<lambda>r. get_metacarpal_xr_joints_v1
             (r[21 := scale3 0.5 (add3 (input ! 0) (input ! 9)),
                22 := add3 (scale3 0.5 (add3 (scale3 0.5 (sub3 (input ! 0) (input ! 9)))
                                             (scale3 0.5 (sub3 (input ! 0) (input ! 17))))) (input ! 17)]))
             (copy26 u input))"

definition convert_to_26points :: "vec3 list \<Rightarrow> vec3 list \<Rightarrow> bool \<Rightarrow> vec3 list option" where
  "convert_to_26points u input left =
     (if length input < 10 then None
      else Option.bind (copy26 u input) (\<lambda>r0.
        let r = r0[21 := scale3 0.5 (add3 (input ! 0) (input ! 9))]
        in middle_palm_joint u (r[0 := moved_root r]) left))"

section \<open>Which joints are determined\<close>

lemma copy26_length: "copy26 u input = Some r \<Longrightarrow> length u = 26 \<Longrightarrow> length r = 26"
  by (auto simp: copy26_def split: if_splits)

lemma copy26_nth:
  "copy26 u input = Some r \<Longrightarrow> length u = 26 \<Longrightarrow> i < 26 \<Longrightarrow> r ! i = (if i < length input then input ! i else u ! i)"
  by (auto simp: copy26_def nth_append split: if_splits)

lemma copy26_full: "length input = 26 \<Longrightarrow> copy26 u input = Some input"
  by (simp add: copy26_def)

lemma convert_to_26points_length:
  assumes "convert_to_26points u input left = Some r" and "length u = 26"
  shows "length r = 26"
proof -
  have "length (shift_palm left (average_metacarpals js)) = length js" for js
    by (simp add: shift_palm_def average_metacarpals_def Let_def)
  with assms show ?thesis
    by (auto simp: convert_to_26points_def middle_palm_joint_def Let_def bind_eq_Some_conv
        dest!: copy26_length split: if_splits)
qed

lemma convert_to_26points_defined:
  "10 \<le> length input \<Longrightarrow> length input \<le> 26 \<Longrightarrow> length u = 26 \<Longrightarrow> \<exists>r. convert_to_26points u input left = Some r"
  by (auto simp: convert_to_26points_def middle_palm_joint_def copy26_def Let_def)

text \<open>
  For the 21 keypoints of a network both conversions give 26 joints. The interpolation
  gives the same joints whatever the memory of the new vector held. The conversion that the
  networks' calculators use does not: it averages the metacarpal joints with the values that
  the memory held, so half of any difference there is found in the joints 22, 24 and 25.
\<close>

lemma metacarpals_uninitialised:
  assumes "length input = 21" and "length u = 26" and "length u' = 26"
  shows "(\<exists>r. interpolation_to_26points u input = Some r \<and> interpolation_to_26points u' input = Some r \<and> length r = 26) \<and>
    (\<exists>r r'. convert_to_26points u input left = Some r \<and> convert_to_26points u' input left = Some r' \<and>
       length r = 26 \<and> length r' = 26 \<and>
       (\<forall>k\<in>{22, 24, 25}. sub3 (r ! k) (r' ! k) = scale3 0.5 (sub3 (u ! k) (u' ! k))))"
proof
  have tail: "drop 21 v = [v ! 21, v ! 22, v ! 23, v ! 24, v ! 25]" if "length v = 26" for v :: "vec3 list"
    using that by (intro nth_equalityI) (auto simp: nth_Cons numeral_eq_Suc split: nat.splits)
  have c: "copy26 v input = Some (input @ [v ! 21, v ! 22, v ! 23, v ! 24, v ! 25])" if "length v = 26" for v
    using that assms(1) by (simp add: copy26_def tail)
  have "interpolation_to_26points u input = interpolation_to_26points u' input"
    using assms
    by (auto simp: interpolation_to_26points_def c get_metacarpal_xr_joints_v1_def moved_root_def Let_def
        nth_append list_update_append)
  then show "\<exists>r. interpolation_to_26points u input = Some r \<and> interpolation_to_26points u' input = Some r \<and> length r = 26"
    using assms by (auto simp: interpolation_to_26points_def c get_metacarpal_xr_joints_v1_def Let_def)
  have c': "copy26 v input = Some (input @ drop 21 v)" if "length v = 26" for v
    using that assms(1) by (simp add: copy26_def)
  define j where "j v = (input @ drop 21 v)[21 := scale3 0.5 (add3 (input ! 0) (input ! 9))]" for v
  define k where "k v = (let r = (j v)[0 := moved_root (j v)] in r[2 := sub3 (r ! 2) (scale3 0.005
      (computeNormal (r ! 0) (r ! 1) (r ! 21) left))])" for v
  have len: "length (j v) = 26" "length (k v) = 26" if "length v = 26" for v
    using that assms(1) by (simp_all add: j_def k_def Let_def)
  have conv: "convert_to_26points v input left = Some (shift_palm left (average_metacarpals (k v)))"
    if "length v = 26" for v
  proof -
    have n: "(length input < 10) = False" using assms(1) by simp
    have "convert_to_26points v input left = middle_palm_joint v ((j v)[0 := moved_root (j v)]) left"
      by (simp only: convert_to_26points_def c' [OF that] n if_False Option.bind.bind_lunit Let_def j_def)
    then show ?thesis using len(1) [OF that] by (simp add: middle_palm_joint_def copy26_full k_def Let_def)
  qed
  have jn: "j v ! i = (if i = 21 then scale3 0.5 (add3 (input ! 0) (input ! 9)) else if i < 21 then input ! i else v ! i)"
    if "i < 26" "length v = 26" for v i
    using that assms(1) by (auto simp: j_def nth_append nth_list_update)
  have root: "moved_root (j v) = moved_root input" if "length v = 26" for v
    using that by (simp add: moved_root_def jn)
  have kn: "k u ! i = k u' ! i" if "i < 22" for i
    using that len assms(2,3) by (auto simp: k_def Let_def root jn nth_list_update)
  have kv: "k v ! i = v ! i" if "22 \<le> i" "i < 26" "length v = 26" for v i
    using that len by (auto simp: k_def Let_def jn)
  have diff: "sub3 (shift_palm left (average_metacarpals (k u)) ! i) (shift_palm left (average_metacarpals (k u')) ! i) =
      scale3 0.5 (sub3 (u ! i) (u' ! i))" if "i \<in> {22, 24, 25}" for i
    using that assms(2,3)
    by (auto simp: shift_palm_def average_metacarpals_def Let_def len kn kv average3_def)
      (simp_all add: model_defs algebra_simps)
  show "\<exists>r r'. convert_to_26points u input left = Some r \<and> convert_to_26points u' input left = Some r' \<and>
      length r = 26 \<and> length r' = 26 \<and>
      (\<forall>k\<in>{22, 24, 25}. sub3 (r ! k) (r' ! k) = scale3 0.5 (sub3 (u ! k) (u' ! k)))"
    using conv [OF assms(2)] conv [OF assms(3)] diff assms(2,3)
      convert_to_26points_length [OF conv [OF assms(2)] assms(2)] convert_to_26points_length [OF conv [OF assms(3)] assms(3)]
    by blast
qed

end
