(* ===== verification/MonoSolver.thy ===== *)
theory MonoSolver
  imports CameraModel Joints26 Boxes
begin

text \<open>
  From keypoints in one image to joints in space: \<open>Keypoint3DSolver\<close>
  (\<^verbatim>\<open>aisdk/algorithm/func/keypoint3d_solver.{h,cpp}\<close>) and its client
  \<^verbatim>\<open>calculator/mono_hand_kpt3d_calculator.cpp\<close>.

  The least-squares solver of ceres is the argument \<open>solve\<close>: from the residuals as a function of
  the root's depth, and its initial value, it gives the final cost and the depth. None stands
  for an access outside a vector or through a null pointer, and for a point at depth zero.
\<close>

section \<open>Keypoint3DSolver\<close>

definition template_bones :: "real list" where
  "template_bones =
     [0.03324628, 0.04288861, 0.02933636, 0.0189692,
      0.08489925, 0.03961091, 0.02224475, 0.01538656,
      0.08044697, 0.04323351, 0.02637224, 0.01726901,
      0.07485605, 0.04020233, 0.02505282, 0.01739206,
      0.07221888, 0.03225046, 0.01788924, 0.01490044]"

text \<open>25 rows: every finger starts with the root.\<close>

definition format25 :: "vec3 list \<Rightarrow> vec3 list" where
  "format25 kpts = concat (map (\<lambda>f. kpts ! 0 # map (\<lambda>j. kpts ! (4 * f + j)) [1..<5]) [0..<5])"

definition norm25 :: "camera_intrinsics \<Rightarrow> vec3 list \<Rightarrow> vec3 list" where
  "norm25 k kpts = map (\<lambda>p. v3 ((vx p - cx k) / fx k) ((vy p - cy k) / fy k) 1) (format25 kpts)"

definition rel_depth25 :: "real \<Rightarrow> vec3 list \<Rightarrow> real list" where
  "rel_depth25 hand_scale kpts = map (\<lambda>p. vz p * hand_scale) (format25 kpts)"

definition points_at :: "real \<Rightarrow> vec3 list \<Rightarrow> real list \<Rightarrow> vec3 list" where
  "points_at root_depth normk rel = map2 (\<lambda>n d. scale3 (root_depth + d) n) normk rel"

text \<open>The cost functor: the lengths of the 20 bones, and the root against the last one.\<close>

definition residuals :: "vec3 list \<Rightarrow> real list \<Rightarrow> real list \<Rightarrow> vec3 \<Rightarrow> real \<Rightarrow> real \<Rightarrow> real list" where
  "residuals normk rel bones last0 weight root_depth =
     (let k = points_at root_depth normk rel;
          e_bones = concat (map (\<lambda>f. map (\<lambda>j. norm3 (sub3 (k ! (5 * f + j + 1)) (k ! (5 * f + j)))) [0..<4]) [0..<5])
      in map2 (-) e_bones bones @
         [(vz (k ! 0) - vz last0) * weight, (vx (k ! 0) - vx last0) * weight, (vy (k ! 0) - vy last0) * weight])"

text \<open>21 rows again: the root once, then the four joints of every finger.\<close>

definition back21 :: "vec3 list \<Rightarrow> vec3 list" where
  "back21 k = take 5 k @ concat (map (\<lambda>f. map (\<lambda>j. k ! (5 * f + j)) [1..<5]) [1..<5])"

type_synonym solver = "(real \<Rightarrow> real list) \<Rightarrow> real \<Rightarrow> real \<times> real"

definition converage_cost_th :: real where
  "converage_cost_th = 0.001"

definition smooth_depth :: "bool \<Rightarrow> real \<Rightarrow> real \<Rightarrow> real" where
  "smooth_depth source_change d0 last_root =
     (if source_change \<and> \<bar>d0 - last_root\<bar> > 0.02 then (d0 + last_root) * 0.5 else d0)"

definition SolveKeypoints :: "solver \<Rightarrow> vec3 list \<Rightarrow> real \<Rightarrow> vec3 list \<Rightarrow> real \<Rightarrow> camera_intrinsics
    \<Rightarrow> bool \<Rightarrow> bool \<Rightarrow> vec3 list option" where
  "SolveKeypoints solve kpt25d hand_scale last_kpt3d last_weight k flip_x_axis source_change =
     (let user_bones = map (\<lambda>b. b * hand_scale) template_bones;
          normk = norm25 k kpt25d;
          rel = rel_depth25 hand_scale kpt25d;
          (final_cost, kpt_root) = solve (residuals normk rel user_bones (last_kpt3d ! 0) last_weight) 0.5
      in if final_cost < converage_cost_th
         then let valid_kpt3d = back21 (points_at (smooth_depth source_change kpt_root (vz (last_kpt3d ! 0))) normk rel)
              in Some (if flip_x_axis then map (\<lambda>p. p\<lparr>vx := vx p * -1\<rparr>) valid_kpt3d else valid_kpt3d)
         else None)"

section \<open>MonoHandKpt3DCalculator\<close>

text \<open>Everything the calculator reads besides its packets.\<close>

record 'q mono_env =
  cam_lib :: camera_lib
  mono_lcam :: camera_model
  mono_rcam :: "camera_model option"
  virtual_cam :: "nat \<Rightarrow> camera_model"
  mono_solve :: solver
  pose_rotation :: "'q \<Rightarrow> mat3"
  mono_coords :: coord_service
  mono_memory :: "vec3 list"
  user_hand_scale :: real

text \<open>The last points in the virtual camera, with their weight.\<close>

definition last_in_camera :: "'q mono_env \<Rightarrow> vec3 list \<Rightarrow> bool \<Rightarrow> 'q nr_transform \<Rightarrow> camera_model \<Rightarrow> bool
    \<Rightarrow> (vec3 list \<times> real) option" where
  "last_in_camera env last_kpt3d last_valid hp vc right_image =
     (if last_valid then
        (let pre = recal_lcam_kpt3d_cv_with_new_headpose (pose_rotation env) (mono_coords env) hp last_kpt3d;
             pre = (if right_image then lcam_cv_to_rcam_cv (mono_coords env) pre else pre);
             pre = world_to_eye vc pre
         in if length pre < 21 then None else Some (take 21 pre, 0.1))
      else Some (replicate 21 (v3 0 0 0), 0))"

text \<open>The inner option is the status: None when the solver does not converge.\<close>

definition ProcessSingleHand :: "'q mono_env \<Rightarrow> vec2 list \<Rightarrow> real list \<Rightarrow> vec3 list \<Rightarrow> bool \<Rightarrow> 'q nr_transform
    \<Rightarrow> camera_model \<Rightarrow> bool \<Rightarrow> bool \<Rightarrow> vec3 list option option" where
  "ProcessSingleHand env kpt2d rdepth last_kpt3d last_valid hp vc right_image source_change =
     (if length kpt2d < 21 \<or> length rdepth < 21 then None
      else do {
        (last, weight) \<leftarrow> last_in_camera env last_kpt3d last_valid hp vc right_image;
        let kpt25d = map (\<lambda>i. v3 (v2x (kpt2d ! i)) (v2y (kpt2d ! i)) (rdepth ! i)) [0..<21];
        case SolveKeypoints (mono_solve env) kpt25d (user_hand_scale env) last weight (intrinsics vc) False source_change of
          None \<Rightarrow> Some None
        | Some virtual_kpt3d \<Rightarrow> do {
            let k0 = eye_to_world vc virtual_kpt3d;
            k1 \<leftarrow> (if right_image then map_option (\<lambda>r. eye_to_world r k0) (mono_rcam env) else Some k0);
            k2 \<leftarrow> interpolation_to_26points (mono_memory env) k1;
            Some (Some k2)
          }
      })"

text \<open>The keypoints of the virtual image in the image of the camera.\<close>

definition to_original_image :: "'q mono_env \<Rightarrow> camera_model \<Rightarrow> camera_model \<Rightarrow> vec2 list \<Rightarrow> vec2 list option" where
  "to_original_image env cam vc kpt =
     those (eye_to_window (cam_lib env) cam (eye_to_world vc (window_to_eye (cam_lib env) vc kpt)))"

definition mono_rmse :: "'q mono_env \<Rightarrow> camera_model \<Rightarrow> vec3 list \<Rightarrow> vec2 list \<Rightarrow> real option" where
  "mono_rmse env cam points kpt2d = do {
     reproj \<leftarrow> those (world_to_window (cam_lib env) cam points);
     if length kpt2d < 13 \<or> length reproj < 13 then None
     else Some (compute_mono_rmse_with_reprojection points kpt2d (\<lambda>_. reproj))
   }"

text \<open>
  A hand seen in one image only. In its own image (\<open>own\<close>, the camera and the setter of the
  keypoints) the reprojection error is computed, in the other image it is zero.
\<close>

definition mono_hand :: "'q mono_env \<Rightarrow> 'q nr_transform \<Rightarrow> bool \<Rightarrow> single_hand_data \<Rightarrow> vec2 list \<Rightarrow> real list
    \<Rightarrow> nat \<Rightarrow> bool \<Rightarrow> (camera_model \<times> (vec2 list \<Rightarrow> single_hand_data \<Rightarrow> single_hand_data)) option
    \<Rightarrow> bool \<times> single_hand_data \<Rightarrow> (bool \<times> single_hand_data) option" where
  "mono_hand env hp pre_valid pre kpt rdepth v right_image own acc = do {
     st \<leftarrow> ProcessSingleHand env kpt rdepth (kpt3d pre) pre_valid hp (virtual_cam env v) right_image (source pre = CamBino);
     case st of
       None \<Rightarrow> Some acc
     | Some k \<Rightarrow>
         let h = (snd acc)\<lparr>kpt3d := k, source := CamMono\<rparr>
         in (case own of
               None \<Rightarrow> Some (True, h\<lparr>reproj_rmse := 0\<rparr>)
             | Some (cam, put2d) \<Rightarrow> do {
                 k2 \<leftarrow> to_original_image env cam (virtual_cam env v) kpt;
                 e \<leftarrow> mono_rmse env cam k k2;
                 Some (True, (put2d k2 h)\<lparr>reproj_rmse := e, score := e\<rparr>)
               })
   }"

definition put_lcam :: "vec2 list \<Rightarrow> single_hand_data \<Rightarrow> single_hand_data" where
  "put_lcam k h = h\<lparr>kpt2d_lcam := k\<rparr>"

definition put_rcam :: "vec2 list \<Rightarrow> single_hand_data \<Rightarrow> single_hand_data" where
  "put_rcam k h = h\<lparr>kpt2d_rcam := k\<rparr>"

definition mono_left :: "'q mono_env \<Rightarrow> 'q nr_transform \<Rightarrow> hands_data \<Rightarrow> kpt2d_internal \<Rightarrow> (bool \<times> single_hand_data) option" where
  "mono_left env hp pre k = do {
     a \<leftarrow> (case (k_lhand_lcam_valid k \<and> \<not> k_lhand_rcam_valid k, lhand_lcam_virtual_camera k) of
             (True, Some v) \<Rightarrow> mono_hand env hp (lhand_valid pre) (left_hand pre) (lhand_lcam_kpt k) (lhand_lcam_rdepth k)
                                v False (Some (mono_lcam env, put_lcam)) (False, new_single_hand_data)
           | _ \<Rightarrow> Some (False, new_single_hand_data));
     (case (k_lhand_rcam_valid k \<and> \<not> k_lhand_lcam_valid k, lhand_rcam_virtual_camera k) of
        (True, Some v) \<Rightarrow> mono_hand env hp (lhand_valid pre) (left_hand pre) (lhand_rcam_kpt k) (lhand_rcam_rdepth k)
                           v True None a
      | _ \<Rightarrow> Some a)
   }"

definition mono_right :: "'q mono_env \<Rightarrow> 'q nr_transform \<Rightarrow> hands_data \<Rightarrow> kpt2d_internal \<Rightarrow> (bool \<times> single_hand_data) option" where
  "mono_right env hp pre k = do {
     a \<leftarrow> (case (k_rhand_rcam_valid k \<and> \<not> k_rhand_lcam_valid k, rhand_rcam_virtual_camera k) of
             (True, Some v) \<Rightarrow> do {
               r \<leftarrow> mono_rcam env;
               mono_hand env hp (rhand_valid pre) (right_hand pre) (rhand_rcam_kpt k) (rhand_rcam_rdepth k)
                 v True (Some (r, put_rcam)) (False, new_single_hand_data)
             }
           | _ \<Rightarrow> Some (False, new_single_hand_data));
     (case (k_rhand_lcam_valid k \<and> \<not> k_rhand_rcam_valid k, rhand_lcam_virtual_camera k) of
        (True, Some v) \<Rightarrow> mono_hand env hp (rhand_valid pre) (right_hand pre) (rhand_lcam_kpt k) (rhand_lcam_rdepth k)
                           v False None a
      | _ \<Rightarrow> Some a)
   }"

definition mono_kpt3d_process :: "'q mono_env \<Rightarrow> 'q nr_transform \<Rightarrow> hands_data \<Rightarrow> kpt2d_internal \<Rightarrow> hands_data option" where
  "mono_kpt3d_process env hp pre k = do {
     (lv, l) \<leftarrow> mono_left env hp pre k;
     (rv, r) \<leftarrow> mono_right env hp pre k;
     Some \<lparr>left_hand = l, right_hand = r, lhand_valid = lv, rhand_valid = rv\<rparr>
   }"

section \<open>The solved points\<close>

lemma nth_format25: "i < 5 \<Longrightarrow> j < 5 \<Longrightarrow> format25 kpts ! (5 * i + j) = (if j = 0 then kpts ! 0 else kpts ! (4 * i + j))"
  by (auto simp: format25_def upt_rec less_Suc_eq numeral_eq_Suc)

lemma length_format25 [simp]: "length (format25 kpts) = 25"
  by (simp add: format25_def upt_rec)

text \<open>Where row \<open>i\<close> of the 21 comes from.\<close>

definition row25 :: "nat \<Rightarrow> nat" where
  "row25 i = (if i < 5 then i else 5 * ((i - 1) div 4) + ((i - 1) mod 4 + 1))"

lemma row25_bound: "i < 21 \<Longrightarrow> row25 i < 25"
proof -
  assume "i < 21"
  then have "i \<in> set [0..<21]" by simp
  moreover have "\<forall>i\<in>set [0..<21]. row25 i < 25" by (simp add: row25_def upt_rec)
  ultimately show ?thesis by blast
qed

lemma nth_format25_row: "i < 21 \<Longrightarrow> format25 kpts ! row25 i = kpts ! i"
proof -
  assume "i < 21"
  then have "i \<in> set [0..<21]" by simp
  moreover have "\<forall>i\<in>set [0..<21]. format25 kpts ! row25 i = kpts ! i"
    by (simp add: row25_def upt_rec format25_def flip: One_nat_def)
  ultimately show ?thesis by blast
qed

lemma nth_back21: "length k = 25 \<Longrightarrow> i < 21 \<Longrightarrow> back21 k ! i = k ! row25 i"
proof -
  assume k: "length k = 25" "i < 21"
  then have "i \<in> set [0..<21]" by simp
  moreover have "\<forall>i\<in>set [0..<21]. back21 k ! i = k ! row25 i"
    using k(1) by (simp add: row25_def upt_rec back21_def nth_append)
  ultimately show ?thesis by blast
qed

lemma length_back21: "length k = 25 \<Longrightarrow> length (back21 k) = 21"
  by (simp add: back21_def upt_rec)

lemma points_at_row:
  assumes "i < 21"
  shows "back21 (points_at d (norm25 k kpts) (rel_depth25 s kpts)) ! i =
    scale3 (d + vz (kpts ! i) * s) (v3 ((vx (kpts ! i) - cx k) / fx k) ((vy (kpts ! i) - cy k) / fy k) 1)"
  using assms row25_bound [OF assms]
  by (simp add: nth_back21 points_at_def norm25_def rel_depth25_def nth_format25_row)

lemma SolveKeypoints_run:
  assumes "solve (residuals (norm25 k kpts) (rel_depth25 s kpts) (map (\<lambda>b. b * s) template_bones) (last0 ! 0) w) 0.5 = (cost, d)"
    and "d' = smooth_depth change d (vz (last0 ! 0))"
  shows "SolveKeypoints solve kpts s last0 w k False change =
      (if cost < converage_cost_th then Some (back21 (points_at d' (norm25 k kpts) (rel_depth25 s kpts))) else None)"
  unfolding SolveKeypoints_def Let_def assms by (simp only: prod.case if_False)

text \<open>
  The keypoints that the solver returns lie on the rays of the image: whatever the
  optimiser answers, every one of the 21 points reprojects through the camera to the keypoint
  it was given, at the depth of the root plus its own relative depth times the size of the
  hand; and it returns points exactly when the final cost is below the threshold.
\<close>

lemma solved_points_reproject:
  assumes "fx k \<noteq> 0" and "fy k \<noteq> 0" and "length kpts = 21"
    and "solve (residuals (norm25 k kpts) (rel_depth25 s kpts) (map (\<lambda>b. b * s) template_bones) (last0 ! 0) w) 0.5 = (cost, d)"
    and "d' = smooth_depth change d (vz (last0 ! 0))" and "\<forall>i<21. d' + vz (kpts ! i) * s \<noteq> 0"
  shows "if cost < converage_cost_th
    then \<exists>ps. SolveKeypoints solve kpts s last0 w k False change = Some ps \<and> length ps = 21 \<and>
      (\<forall>i<21. vz (ps ! i) = d' + vz (kpts ! i) * s \<and>
         map_option (to_window k) (persp_project (ps ! i)) = Some (v2 (vx (kpts ! i)) (vy (kpts ! i))))
    else SolveKeypoints solve kpts s last0 w k False change = None"
proof -
  note run = SolveKeypoints_run [of solve k kpts s last0 w cost d d' change, OF assms(4,5)]
  show ?thesis
  proof (cases "cost < converage_cost_th")
    case True
    define ps where "ps = back21 (points_at d' (norm25 k kpts) (rel_depth25 s kpts))"
    have "SolveKeypoints solve kpts s last0 w k False change = Some ps"
      using True by (simp add: run ps_def)
    moreover have "length ps = 21"
      unfolding ps_def by (rule length_back21) (simp add: points_at_def norm25_def rel_depth25_def)
    moreover have "vz (ps ! i) = d' + vz (kpts ! i) * s \<and>
        map_option (to_window k) (persp_project (ps ! i)) = Some (v2 (vx (kpts ! i)) (vy (kpts ! i)))" if "i < 21" for i
      using assms(1,2,6) that by (simp add: ps_def points_at_row persp_project_def scale3_def to_window_def)
    ultimately show ?thesis using True by simp
  next
    case False
    then show ?thesis by (simp add: run)
  qed
qed

text \<open>
  The depth of a hand that was lost is halved. After a binocular hand that is no longer
  valid, the change of source still smooths the depth, but against the zeros that stand for
  the missing last points: every root further away than 2 cm is placed at half its depth.
\<close>

lemma lost_bino_halves_depth:
  assumes "length kpt = 21" and "length rdepth = 21" and "source pre = CamBino"
    and "\<forall>r d0. mono_solve env r d0 = (cost, d)" and "cost < converage_cost_th" and "0.02 < d"
    and "camera_to_world_xf (virtual_cam env v) = iso_identity"
    and "length (mono_memory env) = 26" and "rdepth ! 0 = 0" and "rdepth ! 9 = 0" and "own = None"
  shows "\<exists>h. mono_hand env hp False pre kpt rdepth v False own (False, new_single_hand_data) = Some (True, h) \<and>
    vz (kpt3d h ! 9) = d / 2"
proof -
  let ?k = "intrinsics (virtual_cam env v)"
  let ?kpts = "map (\<lambda>i. v3 (v2x (kpt ! i)) (v2y (kpt ! i)) (rdepth ! i)) [0..<21]"
  have half: "smooth_depth True d (vz (replicate 21 (v3 0 0 0) ! 0)) = d / 2"
    using assms(6) by (simp add: smooth_depth_def)
  define ps where "ps = back21 (points_at (d / 2) (norm25 ?k ?kpts) (rel_depth25 (user_hand_scale env) ?kpts))"
  have s: "SolveKeypoints (mono_solve env) ?kpts (user_hand_scale env) (replicate 21 (v3 0 0 0)) 0 ?k False True = Some ps"
    using SolveKeypoints_run [of "mono_solve env" ?k ?kpts "user_hand_scale env" "replicate 21 (v3 0 0 0)" 0 cost d "d / 2" True]
      assms(4,5) half by (simp only: ps_def if_True)
  have len: "length ps = 21"
    unfolding ps_def by (rule length_back21) (simp add: points_at_def norm25_def rel_depth25_def)
  have "ps ! 9 = scale3 (d / 2 + vz (?kpts ! 9) * user_hand_scale env)
      (v3 ((vx (?kpts ! 9) - cx ?k) / fx ?k) ((vy (?kpts ! 9) - cy ?k) / fy ?k) 1)"
    unfolding ps_def by (rule points_at_row) simp
  then have p9: "vz (ps ! 9) = d / 2" using assms(10) by (simp add: scale3_def)
  have "eye_to_world (virtual_cam env v) ps = ps" by (simp add: eye_to_world_def assms(7) map_idI)
  moreover obtain k where k: "interpolation_to_26points (mono_memory env) ps = Some k" "k ! 9 = ps ! 9"
    using len assms(8)
    by (auto simp: interpolation_to_26points_def copy26_def get_metacarpal_xr_joints_v1_def Let_def nth_append)
  ultimately have "ProcessSingleHand env kpt rdepth (kpt3d pre) False hp (virtual_cam env v) False True = Some (Some k)"
    using s assms(1,2) by (simp add: ProcessSingleHand_def last_in_camera_def Let_def)
  then show ?thesis using assms(3,11) k(2) p9 by (simp add: mono_hand_def Let_def)
qed

definition example_mono_env :: "unit mono_env" where
  "example_mono_env = \<lparr>cam_lib = \<lparr>radial_undistort = (\<lambda>k p. p), fisheye_undistort = (\<lambda>k p. p),
       fisheye624_distort = (\<lambda>k p. p), fisheye624_undistort = (\<lambda>k p. p)\<rparr>,
     mono_lcam = example_camera, mono_rcam = None, virtual_cam = (\<lambda>_. example_camera),
     mono_solve = (\<lambda>r d. (0, 0.4)), pose_rotation = (\<lambda>_. mat3_identity), mono_coords = example_coords,
     mono_memory = replicate 26 (v3 0 0 0), user_hand_scale = 1\<rparr>"

end
