(* ===== verification/PoseSolver.thy ===== *)
theory PoseSolver
  imports Mat3
begin

text \<open>
  The pose solvers of \<^verbatim>\<open>aisdk/algorithm/func/pose_solver.cpp\<close> and the rectification of
  \<^verbatim>\<open>netalgo_utils.cpp\<close>. The singular value decomposition of Eigen is the argument \<open>svd\<close>: from a
  matrix, the factors and the singular values; \<open>FromTwoVectors\<close> is the argument \<open>from_two\<close>.
\<close>

section \<open>Sums of points\<close>

definition sum3 :: "vec3 list \<Rightarrow> vec3" where
  "sum3 ps = foldr add3 ps (v3 0 0 0)"

definition mean_pt :: "vec3 list \<Rightarrow> vec3" where
  "mean_pt ps = scale3 (1 / real (length ps)) (sum3 ps)"

definition centred :: "vec3 list \<Rightarrow> vec3 list" where
  "centred ps = map (\<lambda>p. sub3 p (mean_pt ps)) ps"

text \<open>The product \<open>xs\<^sup>T ys\<close> of two matrices whose rows are the points.\<close>

definition outer_prod :: "vec3 list \<Rightarrow> vec3 list \<Rightarrow> mat3" where
  "outer_prod xs ys =
     (sum3 (map2 (\<lambda>x y. scale3 (vx x) y) xs ys), sum3 (map2 (\<lambda>x y. scale3 (vy x) y) xs ys),
      sum3 (map2 (\<lambda>x y. scale3 (vz x) y) xs ys))"

section \<open>The transformation between two sets of points\<close>

type_synonym svd3 = "mat3 \<Rightarrow> mat3 \<times> vec3 \<times> mat3"

definition is_svd :: "mat3 \<Rightarrow> mat3 \<times> vec3 \<times> mat3 \<Rightarrow> bool" where
  "is_svd m d = (case d of (u, s, v) \<Rightarrow>
     orthogonal u \<and> orthogonal v \<and> 0 \<le> vx s \<and> 0 \<le> vy s \<and> 0 \<le> vz s \<and>
     m = mat3_mult u (mat3_mult (diag3 s) (mat3_transpose v)))"

definition get_transform_with_svd :: "svd3 \<Rightarrow> vec3 list \<Rightarrow> vec3 list \<Rightarrow> iso" where
  "get_transform_with_svd svd src_pts dst_pts =
     (let (u, _, v) = svd (outer_prod (centred src_pts) (centred dst_pts));
          v_mut_ut = mat3_mult v (mat3_transpose u);
          w = diag3 (v3 1 1 (mat3_det v_mut_ut));
          rot = mat3_mult (mat3_mult v w) (mat3_transpose u)
      in (rot, sub3 (mean_pt dst_pts) (mat3_apply rot (mean_pt src_pts))))"

section \<open>The angles of the hand\<close>

fun rows9 :: "real list \<Rightarrow> mat3" where
  "rows9 [a, b, c, d, e, f, g, h, i] = (v3 a b c, v3 d e f, v3 g h i)"
| "rows9 _ = mat3_identity"

fun flat9 :: "mat3 \<Rightarrow> real list" where
  "flat9 (a, b, c) = [vx a, vy a, vz a, vx b, vy b, vz b, vx c, vy c, vz c]"

text \<open>The rotation nearest to a matrix: the last row of \<open>v\<^sup>T\<close> takes the sign of the determinant.\<close>

definition nearest_rotation :: "svd3 \<Rightarrow> mat3 \<Rightarrow> mat3" where
  "nearest_rotation svd m =
     (let (u, _, v) = svd m;
          (r1, r2, r3) = mat3_transpose v;
          d = mat3_det (mat3_mult u (r1, r2, r3))
      in mat3_mult u (r1, r2, scale3 d r3))"

definition block9 :: "nat \<Rightarrow> real list \<Rightarrow> mat3" where
  "block9 i x = rows9 (take 9 (drop (9 * i) x))"

definition decode_hand_angle :: "svd3 \<Rightarrow> real list \<Rightarrow> real list option" where
  "decode_hand_angle svd x =
     (if length x < 171 then None
      else Some (concat (map (\<lambda>i. flat9 (nearest_rotation svd (block9 i x))) [0..<19])))"

section \<open>The translation of the hand\<close>

definition sigma_softmax :: "real list \<Rightarrow> real list" where
  "sigma_softmax sigma =
     (let sigma_kpt = map (\<lambda>i. (sigma ! (3 * i) + sigma ! (3 * i + 1) + sigma ! (3 * i + 2)) / 3) [0..<21];
          e = map (\<lambda>s. exp (s - Max (set sigma_kpt))) sigma_kpt
      in map (\<lambda>v. v / sum_list e) e)"

definition cal_kpt_weight :: "real list \<Rightarrow> real list list option" where
  "cal_kpt_weight sigma =
     (if length sigma < 63 then None
      else Some (let s = sigma_softmax sigma
                 in map (\<lambda>i. map (\<lambda>j. if i = j then s ! (i div 2) * 21 else 0) [0..<42]) [0..<42]))"

definition uv_of :: "mat3 \<Rightarrow> vec2 \<Rightarrow> vec3" where
  "uv_of intrix c = mat3_apply (mat3_inverse intrix) (v3 (v2x c) (v2y c) 1)"

definition dlt_A :: "mat3 \<Rightarrow> vec2 list \<Rightarrow> vec3 list" where
  "dlt_A intrix cood_2d =
     concat (map (\<lambda>i. let uv = uv_of intrix (cood_2d ! i) in [v3 (-1) 0 (vx uv), v3 0 (-1) (vy uv)]) [0..<21])"

definition dlt_B :: "mat3 \<Rightarrow> vec3 list \<Rightarrow> vec2 list \<Rightarrow> real list" where
  "dlt_B intrix hand3d_rel cood_2d =
     concat (map (\<lambda>i. let uv = uv_of intrix (cood_2d ! i); p = hand3d_rel ! i
                      in [vx p - vz p * vx uv, vy p - vz p * vy uv]) [0..<21])"

text \<open>The columns of \<open>A\<^sup>T W\<close>.\<close>

definition A_T_W :: "vec3 list \<Rightarrow> real list list \<Rightarrow> vec3 list" where
  "A_T_W A W = map (\<lambda>j. sum3 (map (\<lambda>k. scale3 (W ! k ! j) (A ! k)) [0..<42])) [0..<42]"

definition get_3d_kpt :: "vec3 list \<Rightarrow> vec2 list \<Rightarrow> mat3 \<Rightarrow> real list list \<Rightarrow> vec3 list option" where
  "get_3d_kpt hand3d_rel cood_2d intrix W =
     (if length cood_2d < 21 then None
      else
        (let A = dlt_A intrix cood_2d;
             B = dlt_B intrix hand3d_rel cood_2d;
             part_1 = mat3_inverse (outer_prod (A_T_W A W) A);
             part_2 = sum3 (map2 scale3 B (A_T_W A W));
             result = mat3_apply part_1 part_2
         in Some (map (\<lambda>p. add3 p result) hand3d_rel)))"

section \<open>The rectification of the stereo pair\<close>

definition affine_inverse :: "iso \<Rightarrow> iso" where
  "affine_inverse t = (mat3_inverse (fst t), scale3 (-1) (mat3_apply (mat3_inverse (fst t)) (snd t)))"

definition get_rotations_for_standard_stereo :: "(vec3 \<Rightarrow> vec3 \<Rightarrow> mat3) \<Rightarrow> iso \<Rightarrow> mat3 \<times> mat3 \<times> real" where
  "get_rotations_for_standard_stereo from_two T =
     (let left_T = iso_identity; right_T = T;
          baseline_vec = snd T;
          left_x = v3 1 0 0;
          R_left = from_two left_x baseline_vec;
          virtual_left_T = (mat3_mult R_left (fst left_T), snd left_T);
          right_x = sub3 (add3 (mat3_apply (fst right_T) left_x) (snd right_T)) baseline_vec;
          R_right = from_two right_x baseline_vec;
          virtual_right_T = (mat3_mult R_right (fst right_T), snd right_T);
          left_z = v3 0 0 1;
          left_cam_z = add3 (mat3_apply (fst virtual_left_T) left_z) (snd virtual_left_T);
          right_cam_z = sub3 (add3 (mat3_apply (fst virtual_right_T) left_z) (snd virtual_right_T)) baseline_vec;
          R_right_z = from_two right_cam_z left_cam_z;
          virtual_right_T = (mat3_mult R_right_z (fst virtual_right_T), snd virtual_right_T)
      in (fst (iso_compose (affine_inverse virtual_left_T) left_T),
          fst (iso_compose (affine_inverse virtual_right_T) right_T),
          norm3 baseline_vec))"

section \<open>Sums\<close>

lemma sum3_simps [simp]: "sum3 [] = v3 0 0 0" "sum3 (p # ps) = add3 p (sum3 ps)"
  by (simp_all add: sum3_def)

lemma sum3_coords: "sum3 ps = v3 (sum_list (map vx ps)) (sum_list (map vy ps)) (sum_list (map vz ps))"
  by (induction ps) (simp_all add: add3_def)

lemma mat3_apply_sum3: "mat3_apply m (sum3 ps) = sum3 (map (mat3_apply m) ps)"
  by (induction ps) (simp_all add: mat3_apply_linear, cases m, simp add: dot3_def)

lemma dot3_sum3: "dot3 (sum3 ps) q = sum_list (map (\<lambda>p. dot3 p q) ps)"
  by (induction ps) (simp_all add: model_defs algebra_simps)

lemma outer_prod_Cons:
  "outer_prod (x # xs) (y # ys) = (case outer_prod xs ys of (a, b, c) \<Rightarrow>
     (add3 (scale3 (vx x) y) a, add3 (scale3 (vy x) y) b, add3 (scale3 (vz x) y) c))"
  by (simp add: outer_prod_def)

lemma outer_prod_apply:
  "length xs = length ys \<Longrightarrow> mat3_apply (outer_prod xs ys) p = sum3 (map2 (\<lambda>x y. scale3 (dot3 y p) x) xs ys)"
proof (induction xs ys rule: list_induct2)
  case Nil
  then show ?case by (simp add: outer_prod_def)
next
  case (Cons x xs y ys)
  have "mat3_apply (outer_prod (x # xs) (y # ys)) p = add3 (scale3 (dot3 y p) x) (mat3_apply (outer_prod xs ys) p)"
    by (cases "outer_prod xs ys") (simp add: outer_prod_Cons model_defs algebra_simps)
  with Cons.IH show ?case by simp
qed

lemma outer_prod_sym: "mat3_transpose (outer_prod xs xs) = outer_prod xs xs"
proof (induction xs)
  case Nil
  then show ?case by (simp add: outer_prod_def)
next
  case (Cons x xs)
  then show ?case
    by (cases "outer_prod xs xs") (simp add: outer_prod_Cons mat3_sym_iff add3_def scale3_def del: mat3_transpose.simps)
qed

lemma outer_prod_rotate:
  "outer_prod xs (map (mat3_apply r) xs) = mat3_mult (outer_prod xs xs) (mat3_transpose r)"
proof (rule mat3_eqI)
  fix p
  have "map2 (\<lambda>x y. scale3 (dot3 y p) x) xs (map (mat3_apply r) xs) =
      map2 (\<lambda>x y. scale3 (dot3 y (mat3_apply (mat3_transpose r) p)) x) xs xs"
    by (induction xs) (simp_all add: dot3_mat3)
  then show "mat3_apply (outer_prod xs (map (mat3_apply r) xs)) p =
      mat3_apply (mat3_mult (outer_prod xs xs) (mat3_transpose r)) p"
    by (simp add: outer_prod_apply mat3_apply_mult)
qed

lemma mean_iso:
  assumes "ps \<noteq> []"
  shows "mean_pt (map (iso_apply t) ps) = iso_apply t (mean_pt ps)"
proof -
  have "sum3 (map (iso_apply t) ps) = add3 (mat3_apply (fst t) (sum3 ps)) (scale3 (real (length ps)) (snd t))"
    by (cases "fst t", induction ps) (simp_all add: iso_apply_def model_defs algebra_simps)
  with assms show ?thesis
    by (simp add: mean_pt_def iso_apply_def mat3_apply_linear) (simp add: model_defs field_simps)
qed

lemma centred_iso:
  assumes "ps \<noteq> []"
  shows "centred (map (iso_apply t) ps) = map (mat3_apply (fst t)) (centred ps)"
  unfolding centred_def mean_iso [OF assms]
  by (cases "fst t") (simp add: iso_apply_def model_defs algebra_simps)

section \<open>The nearest rotation\<close>

lemma get_transform_proper:
  assumes "is_svd (outer_prod (centred src) (centred dst)) (svd (outer_prod (centred src) (centred dst)))"
  shows "proper_rotation (fst (get_transform_with_svd svd src dst))"
proof -
  obtain u s v where d: "svd (outer_prod (centred src) (centred dst)) = (u, s, v)" by (metis prod_cases3)
  with assms have o: "orthogonal u" "orthogonal v" by (simp_all add: is_svd_def)
  define k where "k = mat3_det (mat3_mult v (mat3_transpose u))"
  have k: "k * k = 1"
    unfolding k_def using o by (intro orthogonal_det orthogonal_mult orthogonal_transpose)
  then have "orthogonal (diag3 (v3 1 1 k))"
    by (simp add: orthogonal_def diag3_def mat3_mult_def model_defs mat3_identity_def)
  with o have "orthogonal (mat3_mult (mat3_mult v (diag3 (v3 1 1 k))) (mat3_transpose u))"
    by (intro orthogonal_mult orthogonal_transpose)
  moreover have "mat3_det (mat3_mult (mat3_mult v (diag3 (v3 1 1 k))) (mat3_transpose u)) = k * k"
    by (simp add: mat3_det_mult) (simp add: k_def mat3_det_mult)
  ultimately show ?thesis
    by (simp add: get_transform_with_svd_def d Let_def proper_rotation_def k flip: k_def)
qed

text \<open>The polar factor: \<open>c r\<^sup>T = u s v\<^sup>T\<close> with \<open>c\<close> positive determines \<open>v u\<^sup>T\<close>.\<close>

lemma polar_unique:
  assumes "pos_def c" and "orthogonal r" and "is_svd (mat3_mult c (mat3_transpose r)) (u, s, v)"
  shows "mat3_mult v (mat3_transpose u) = r"
proof -
  from assms(3) have o: "orthogonal u" "orthogonal v" and s: "0 \<le> vx s" "0 \<le> vy s" "0 \<le> vz s"
    and h: "mat3_mult c (mat3_transpose r) = mat3_mult u (mat3_mult (diag3 s) (mat3_transpose v))"
    by (simp_all add: is_svd_def)
  define p where "p = mat3_mult u (mat3_mult (diag3 s) (mat3_transpose u))"
  define q where "q = mat3_mult v (mat3_transpose u)"
  have oq: "orthogonal q" using o by (simp add: q_def orthogonal_mult orthogonal_transpose)
  have pq: "mat3_mult c (mat3_transpose r) = mat3_mult p (mat3_transpose q)"
    by (simp add: h p_def q_def mat3_transpose_mult mat3_mult_assoc orthogonalD(3) [OF o(1)])
  have pp: "pos_semidef p" unfolding p_def by (rule pos_semidef_conj) (rule s)+
  have sq: "mat3_mult x x = mat3_mult (mat3_mult x (mat3_transpose y)) (mat3_transpose (mat3_mult x (mat3_transpose y)))"
    if "orthogonal y" "mat3_transpose x = x" for x y
    using that by (simp add: mat3_transpose_mult mat3_mult_assoc orthogonalD(3))
  have ct: "mat3_transpose c = c" and pt: "mat3_transpose p = p"
    using assms(1) pp by (simp_all add: pos_def_def pos_semidef_def)
  have "mat3_mult c c = mat3_mult p p"
    using sq [OF assms(2) ct] sq [OF oq pt] by (simp only: pq)
  then have "p = c" by (rule pos_root_unique [OF assms(1) pp])
  then have "mat3_transpose q = mat3_transpose r" using pos_def_cancel [OF assms(1)] pq by metis
  then show ?thesis unfolding q_def by (metis mat3_transpose_transpose)
qed

text \<open>
  The pose of the hand is recovered exactly: for points that span the space, moved by a
  rotation and a translation, the solver returns this rotation and this translation, whatever
  factors the decomposition chooses.
\<close>

lemma svd_recovers_pose:
  assumes "proper_rotation r" and "src \<noteq> []" and "pos_def (outer_prod (centred src) (centred src))"
    and "dst = map (iso_apply (r, t)) src" and "h = outer_prod (centred src) (centred dst)" and "is_svd h (svd h)"
  shows "get_transform_with_svd svd src dst = (r, t)"
proof -
  obtain u s v where d: "svd h = (u, s, v)" by (metis prod_cases3)
  have "h = mat3_mult (outer_prod (centred src) (centred src)) (mat3_transpose r)"
    by (simp add: assms(2,4,5) centred_iso outer_prod_rotate)
  then have q: "mat3_mult v (mat3_transpose u) = r"
    using polar_unique [OF assms(3)] assms(1,6) d by (metis proper_rotation_def)
  have r: "mat3_det r = 1" using assms(1) by (simp add: proper_rotation_def)
  have "get_transform_with_svd svd src dst =
      (r, sub3 (iso_apply (r, t) (mean_pt src)) (mat3_apply r (mean_pt src)))"
    using d by (simp add: get_transform_with_svd_def Let_def q r diag3_ones assms(2,4,5) mean_iso)
  then show ?thesis by (simp add: iso_apply_def add3_def sub3_def)
qed

definition axis_points :: "vec3 list" where
  "axis_points = [v3 1 0 0, v3 (-1) 0 0, v3 0 1 0, v3 0 (-1) 0, v3 0 0 1, v3 0 0 (-1), v3 0 0 0]"

definition quarter_turn :: mat3 where
  "quarter_turn = (v3 0 (-1) 0, v3 1 0 0, v3 0 0 1)"

lemma proper_quarter_turn: "proper_rotation quarter_turn"
  by (simp add: proper_rotation_def orthogonal_def quarter_turn_def mat3_mult_def mat3_identity_def model_defs)

lemma axis_points_centred: "centred axis_points = axis_points"
  by (simp add: centred_def mean_pt_def axis_points_def model_defs)

lemma axis_points_scatter: "outer_prod axis_points axis_points = diag3 (v3 2 2 2)"
  by (simp add: axis_points_def outer_prod_def diag3_def model_defs)

lemma pos_def_axis_points: "pos_def (outer_prod (centred axis_points) (centred axis_points))"
proof -
  have "mat3_apply (diag3 (v3 2 2 2)) p = scale3 2 p" for p by (simp add: diag3_def model_defs)
  moreover have "dot3 p (scale3 2 p) = 2 * dot3 p p" for p by (simp add: model_defs algebra_simps)
  ultimately show ?thesis
    by (simp add: axis_points_centred axis_points_scatter pos_def_def dot3_pos)
qed

section \<open>The decoded angles\<close>

lemma nearest_rotation_alt:
  assumes "svd m = (u, s, v)"
  shows "nearest_rotation svd m =
    mat3_mult u (mat3_mult (diag3 (v3 1 1 (mat3_det (mat3_mult u (mat3_transpose v))))) (mat3_transpose v))"
proof -
  obtain r1 r2 r3 where "mat3_transpose v = (r1, r2, r3)" by (metis prod_cases3)
  then show ?thesis
    by (simp add: nearest_rotation_def assms Let_def diag3_def mat3_mult_def model_defs algebra_simps)
qed

lemma nearest_rotation_proper:
  assumes "is_svd m (svd m)"
  shows "proper_rotation (nearest_rotation svd m)"
proof -
  obtain u s v where d: "svd m = (u, s, v)" by (metis prod_cases3)
  with assms have o: "orthogonal u" "orthogonal v" by (simp_all add: is_svd_def)
  define k where "k = mat3_det (mat3_mult u (mat3_transpose v))"
  have k: "k * k = 1"
    unfolding k_def using o by (intro orthogonal_det orthogonal_mult orthogonal_transpose)
  then have "orthogonal (diag3 (v3 1 1 k))"
    by (simp add: orthogonal_def diag3_def mat3_mult_def model_defs mat3_identity_def)
  with o have "orthogonal (mat3_mult u (mat3_mult (diag3 (v3 1 1 k)) (mat3_transpose v)))"
    by (intro orthogonal_mult orthogonal_transpose)
  moreover have "mat3_det (mat3_mult u (mat3_mult (diag3 (v3 1 1 k)) (mat3_transpose v))) = k * k"
    by (simp add: mat3_det_mult) (simp add: k_def mat3_det_mult)
  ultimately show ?thesis
    by (simp add: nearest_rotation_alt [of svd m u s v, OF d] proper_rotation_def k flip: k_def)
qed

lemma nearest_rotation_id:
  assumes "proper_rotation m" and "is_svd m (svd m)"
  shows "nearest_rotation svd m = m"
proof -
  obtain u s v where d: "svd m = (u, s, v)" by (metis prod_cases3)
  have "mat3_mult v (mat3_transpose u) = mat3_transpose m"
    using polar_unique [OF pos_def_identity, of "mat3_transpose m" u s v] assms d
    by (simp add: proper_rotation_def orthogonal_transpose)
  then have q: "mat3_mult u (mat3_transpose v) = m"
    by (metis mat3_transpose_mult mat3_transpose_transpose)
  with assms(1) show ?thesis by (simp add: nearest_rotation_alt [of svd m u s v, OF d] proper_rotation_def diag3_ones)
qed

lemma rows9_flat9 [simp]: "rows9 (flat9 m) = m"
  by (cases m) simp

lemma length_flat9 [simp]: "length (flat9 m) = 9"
  by (cases m) simp

lemma flat9_rows9: "length xs = 9 \<Longrightarrow> flat9 (rows9 xs) = xs"
  by (auto simp: numeral_eq_Suc length_Suc_conv)

lemma block9_concat: "i < n \<Longrightarrow> block9 i (concat (map (\<lambda>i. flat9 (f i)) [0..<n])) = f i"
proof (induction n)
  case (Suc n)
  have len: "length (concat (map (\<lambda>i. flat9 (f i)) [0..<n])) = 9 * n" by (induction n) simp_all
  show ?case
  proof (cases "i < n")
    case True
    then have "9 * i + 9 \<le> 9 * n" by simp
    with len True Suc.IH show ?thesis by (simp add: block9_def)
  next
    case False
    with Suc.prems have "i = n" by simp
    with len show ?thesis by (simp add: block9_def)
  qed
qed simp

text \<open>
  The decoded angles are 19 rotations: whatever the network answers, each block of nine
  numbers becomes a rotation matrix, and a block that already is one is left as it is.
\<close>

lemma decode_hand_angle_rotations:
  assumes "length x = 171" and "\<forall>i<19. is_svd (block9 i x) (svd (block9 i x))"
  shows "\<exists>y. decode_hand_angle svd x = Some y \<and> length y = 171 \<and>
    (\<forall>i<19. proper_rotation (block9 i y) \<and> (proper_rotation (block9 i x) \<longrightarrow> block9 i y = block9 i x))"
proof -
  define y where "y = concat (map (\<lambda>i. flat9 (nearest_rotation svd (block9 i x))) [0..<19])"
  have "decode_hand_angle svd x = Some y" using assms(1) by (simp add: decode_hand_angle_def y_def)
  moreover have "length y = 171" by (simp add: y_def length_concat comp_def sum_list_triv)
  moreover have "block9 i y = nearest_rotation svd (block9 i x)" if "i < 19" for i
    unfolding y_def using that by (rule block9_concat)
  ultimately show ?thesis using assms(2) nearest_rotation_proper nearest_rotation_id by metis
qed

section \<open>The translation from the rays\<close>

lemma form_pos_det:
  assumes "\<And>p. p \<noteq> v3 0 0 0 \<Longrightarrow> 0 < dot3 p (mat3_apply c p)"
  shows "mat3_det c \<noteq> 0"
proof
  assume "mat3_det c = 0"
  obtain r1 r2 r3 where c: "c = (r1, r2, r3)" by (metis prod_cases3)
  have zero: "p = v3 0 0 0" if "dot3 p (mat3_apply c p) = 0" for p using assms [of p] that by auto
  have "mat3_apply c (cross3 r2 r3) = v3 0 0 0"
    using \<open>mat3_det c = 0\<close> by (simp add: c model_defs algebra_simps)
  then have "cross3 r2 r3 = v3 0 0 0" by (intro zero) simp
  then have m: "vy r2 * vz r3 = vz r2 * vy r3" by (simp add: cross3_def)
  have "dot3 (v3 0 (vz r3) (- vy r3)) (mat3_apply c (v3 0 (vz r3) (- vy r3))) = 0"
    using m by (simp add: c model_defs algebra_simps)
  then have "vz r3 = 0" using zero by blast
  moreover have "0 < dot3 (v3 0 0 1) (mat3_apply c (v3 0 0 1))" by (rule assms) simp
  ultimately show False by (simp add: c model_defs)
qed

lemma length_dlt_A [simp]: "length (dlt_A k cood) = 42"
  by (simp add: dlt_A_def length_concat comp_def sum_list_triv Let_def)

lemma dlt_consistent:
  assumes "\<And>i. i < 21 \<Longrightarrow> uv_of k (cood ! i) = scale3 (1 / vz (add3 (rel ! i) t)) (add3 (rel ! i) t)"
    and "\<And>i. i < 21 \<Longrightarrow> vz (add3 (rel ! i) t) \<noteq> 0"
  shows "dlt_B k rel cood = map (\<lambda>a. dot3 a t) (dlt_A k cood)"
proof -
  have "vx (rel ! i) - vz (rel ! i) * vx (uv_of k (cood ! i)) = dot3 (v3 (-1) 0 (vx (uv_of k (cood ! i)))) t \<and>
      vy (rel ! i) - vz (rel ! i) * vy (uv_of k (cood ! i)) = dot3 (v3 0 (-1) (vy (uv_of k (cood ! i)))) t" if "i < 21" for i
    using assms(2) [OF that] by (simp add: assms(1) [OF that]) (simp add: model_defs field_simps)
  then show ?thesis
    unfolding dlt_A_def dlt_B_def map_concat map_map
    by (intro arg_cong [where f = concat] map_cong) (simp_all add: Let_def)
qed

lemma dlt_recover:
  assumes "dlt_B k rel cood = map (\<lambda>a. dot3 a t) (dlt_A k cood)" and "21 \<le> length cood"
    and "mat3_det (outer_prod (A_T_W (dlt_A k cood) w) (dlt_A k cood)) \<noteq> 0"
  shows "get_3d_kpt rel cood k w = Some (map (\<lambda>p. add3 p t) rel)"
proof -
  let ?A = "dlt_A k cood" and ?M = "A_T_W (dlt_A k cood) w"
  have len: "length ?M = length ?A" by (simp add: A_T_W_def)
  have "map2 scale3 (map (\<lambda>a. dot3 a t) ys) xs = map2 (\<lambda>x y. scale3 (dot3 y t) x) xs ys"
    if "length xs = length ys" for xs ys
    using that by (induction xs ys rule: list_induct2) simp_all
  then have "sum3 (map2 scale3 (dlt_B k rel cood) ?M) = mat3_apply (outer_prod ?M ?A) t"
    using len by (simp only: assms(1) outer_prod_apply)
  then have "mat3_apply (mat3_inverse (outer_prod ?M ?A)) (sum3 (map2 scale3 (dlt_B k rel cood) ?M)) = t"
    using mat3_inverse_left [OF assms(3)] by (simp flip: mat3_apply_mult)
  with assms(2) show ?thesis by (simp add: get_3d_kpt_def Let_def)
qed

lemma length_sigma_softmax [simp]: "length (sigma_softmax sigma) = 21"
  by (simp add: sigma_softmax_def Let_def)

lemma sigma_softmax_pos: "i < 21 \<Longrightarrow> 0 < sigma_softmax sigma ! i"
proof -
  assume "i < 21"
  define es where "es = map (\<lambda>s. exp (s - Max (set (map (\<lambda>i. (sigma ! (3 * i) + sigma ! (3 * i + 1) + sigma ! (3 * i + 2)) / 3) [0..<21]))))
      (map (\<lambda>i. (sigma ! (3 * i) + sigma ! (3 * i + 1) + sigma ! (3 * i + 2)) / 3) [0..<21])"
  have pos: "\<forall>x\<in>set es. 0 < x" by (auto simp: es_def)
  moreover have "es \<noteq> []" by (simp add: es_def)
  ultimately have "0 < sum_list es" by (cases es) (auto intro!: add_pos_nonneg sum_list_nonneg simp: less_imp_le)
  moreover have "sigma_softmax sigma ! i = es ! i / sum_list es" and "i < length es"
    using \<open>i < 21\<close> by (simp_all add: sigma_softmax_def es_def Let_def)
  ultimately show ?thesis using pos by simp
qed

lemma A_T_W_diag:
  assumes "length A = 42" and w: "w = map (\<lambda>i. map (\<lambda>j. if i = j then f i else 0) [0..<42]) [0..<42]"
  shows "A_T_W A w = map2 scale3 (map f [0..<42]) A"
proof (rule nth_equalityI)
  fix j
  assume "j < length (A_T_W A w)"
  then have j: "j < 42" by (simp add: A_T_W_def)
  then have "A_T_W A w ! j = sum3 (map (\<lambda>k. scale3 (w ! k ! j) (A ! k)) [0..<42])" by (simp add: A_T_W_def)
  also have "map (\<lambda>k. scale3 (w ! k ! j) (A ! k)) [0..<42] = map (\<lambda>k. scale3 (if k = j then f k else 0) (A ! k)) [0..<42]"
    using j by (intro map_cong) (simp_all add: w)
  also have "sum3 (map (\<lambda>k. scale3 (if k = j then f k else 0) (A ! k)) [0..<42]) = scale3 (f j) (A ! j)"
    using j by (simp add: sum3_coords scale3_def comp_def interv_sum_list_conv_sum_set_nat if_distrib
        [of "\<lambda>x. x * _"] cong: if_cong)
  finally show "A_T_W A w ! j = map2 scale3 (map f [0..<42]) A ! j" using j assms(1) by simp
qed (simp add: A_T_W_def assms(1))

lemma sum_list_pos_member:
  fixes x :: real
  assumes "x \<in> set xs" and "0 < x" and "\<forall>y\<in>set xs. 0 \<le> y"
  shows "0 < sum_list xs"
proof -
  obtain ys zs where "xs = ys @ x # zs" using assms(1) by (meson split_list)
  moreover have "0 \<le> sum_list ys" "0 \<le> sum_list zs"
    using assms(3) calculation by (auto intro: sum_list_nonneg)
  ultimately show ?thesis using assms(2) by simp
qed

lemma scale3_cancel: "c \<noteq> 0 \<Longrightarrow> scale3 c p = q \<Longrightarrow> scale3 c p' = q \<Longrightarrow> p = p'"
  by (auto simp: scale3_def)

lemma dot3_comm: "dot3 p q = dot3 q p"
  by (simp add: dot3_def mult.commute)

lemma weighted_form:
  "length ws = length xs \<Longrightarrow>
   dot3 (mat3_apply (outer_prod (map2 scale3 ws xs) xs) p) p = sum_list (map2 (\<lambda>w x. w * (dot3 x p * dot3 x p)) ws xs)"
  by (induction ws xs rule: list_induct2) (simp_all add: outer_prod_apply, simp_all add: model_defs algebra_simps)

lemma uv_of_projection:
  assumes "mat3_det k \<noteq> 0" and "z \<noteq> 0" and "mat3_apply k p = scale3 z (v3 (v2x c) (v2y c) 1)"
  shows "uv_of k c = scale3 (1 / z) p"
proof -
  have "scale3 (1 / z) (mat3_apply k p) = v3 (v2x c) (v2y c) 1"
    using assms(2,3) by (simp add: scale3_def)
  then have "uv_of k c = mat3_apply (mat3_inverse k) (mat3_apply k (scale3 (1 / z) p))"
    by (simp add: uv_of_def mat3_apply_linear)
  then show ?thesis by (simp add: mat3_inverse_left [OF assms(1)] flip: mat3_apply_mult)
qed

text \<open>
  The place of the hand follows from its shape and its image: when the hand's joints,
  given relative to an unknown translation, project to the keypoints, the weighted solver finds
  exactly this translation, for any confidences of the network, as soon as two keypoints
  differ in the image.
\<close>

lemma weighted_solver_recovers_hand:
  assumes "63 \<le> length sigma" and "length rel = 21" and "length cood = 21" and "mat3_det k \<noteq> 0"
    and "\<forall>i<21. vz (add3 (rel ! i) t) \<noteq> 0 \<and>
           mat3_apply k (add3 (rel ! i) t) = scale3 (vz (add3 (rel ! i) t)) (v3 (v2x (cood ! i)) (v2y (cood ! i)) 1)"
    and "a < 21" and "b < 21" and "cood ! a \<noteq> cood ! b"
  shows "\<exists>w. cal_kpt_weight sigma = Some w \<and> get_3d_kpt rel cood k w = Some (map (\<lambda>p. add3 p t) rel)"
proof -
  let ?A = "dlt_A k cood"
  define f where "f i = sigma_softmax sigma ! (i div 2) * 21" for i
  define w where "w = map (\<lambda>i. map (\<lambda>j. if i = j then f i else 0) [0..<42]) [0..<42]"
  have w: "cal_kpt_weight sigma = Some w" using assms(1) by (simp add: cal_kpt_weight_def Let_def w_def f_def)
  have f: "0 < f i" if "i < 42" for i using sigma_softmax_pos [of "i div 2" sigma] that by (simp add: f_def)
  have uv: "uv_of k (cood ! i) = scale3 (1 / vz (add3 (rel ! i) t)) (add3 (rel ! i) t)" if "i < 21" for i
    using assms(5) that by (intro uv_of_projection [OF assms(4)]) auto
  have uvz: "vz (uv_of k (cood ! i)) = 1" if "i < 21" for i
    using uv [OF that] assms(5) that by (simp add: scale3_def)
  have reproj: "mat3_apply k (uv_of k (cood ! i)) = v3 (v2x (cood ! i)) (v2y (cood ! i)) 1" if "i < 21" for i
    using uv [OF that] assms(5) that by (simp add: mat3_apply_linear) (simp add: scale3_def)
  have rows: "v3 (-1) 0 (vx (uv_of k (cood ! i))) \<in> set ?A" "v3 0 (-1) (vy (uv_of k (cood ! i))) \<in> set ?A"
    if "i < 21" for i
    using that by (auto simp: dlt_A_def Let_def intro!: bexI [of _ i])
  have "mat3_det (outer_prod (A_T_W ?A w) ?A) \<noteq> 0"
  proof (rule form_pos_det)
    fix p
    assume p: "p \<noteq> v3 0 0 0"
    let ?q = "\<lambda>x. dot3 x p * dot3 x p"
    have "\<exists>x\<in>set ?A. dot3 x p \<noteq> 0"
    proof (rule ccontr)
      assume "\<not> (\<exists>x\<in>set ?A. dot3 x p \<noteq> 0)"
      then have "vx p = vx (uv_of k (cood ! i)) * vz p \<and> vy p = vy (uv_of k (cood ! i)) * vz p" if "i < 21" for i
        using rows [OF that] by (force simp: dot3_def)
      then have e: "scale3 (vz p) (uv_of k (cood ! i)) = p" if "i < 21" for i
        using that uvz [OF that] by (simp add: scale3_def)
      have "vz p \<noteq> 0" using e [OF assms(6)] p by (auto simp: scale3_def)
      then have "uv_of k (cood ! a) = uv_of k (cood ! b)"
        using e [OF assms(6)] e [OF assms(7)] by (metis (no_types) scale3_cancel)
      then show False using reproj [OF assms(6)] reproj [OF assms(7)] assms(8) by simp
    qed
    then obtain n where n: "n < 42" "dot3 (?A ! n) p \<noteq> 0" by (auto simp: in_set_conv_nth)
    let ?L = "map2 (\<lambda>w x. w * ?q x) (map f [0..<42]) ?A"
    have nth: "i < 42 \<Longrightarrow> ?L ! i = f i * ?q (?A ! i)" for i by simp
    have "0 < ?L ! n" using n f [OF n(1)] by (simp add: zero_less_mult_iff) linarith
    moreover have "\<forall>x\<in>set ?L. 0 \<le> x" using f nth by (auto simp: in_set_conv_nth less_imp_le)
    moreover have "?L ! n \<in> set ?L" using n(1) by (intro nth_mem) simp
    ultimately have "0 < sum_list ?L" using sum_list_pos_member by blast
    then show "0 < dot3 p (mat3_apply (outer_prod (A_T_W ?A w) ?A) p)"
      using weighted_form [of "map f [0..<42]" ?A p] by (simp add: A_T_W_diag [OF _ w_def] dot3_comm)
  qed
  moreover have "dlt_B k rel cood = map (\<lambda>a. dot3 a t) ?A"
    using uv assms(5) by (intro dlt_consistent) auto
  ultimately have "get_3d_kpt rel cood k w = Some (map (\<lambda>p. add3 p t) rel)"
    using assms(3) by (intro dlt_recover) simp_all
  with w show ?thesis by blast
qed

section \<open>The rectified cameras\<close>

definition sends :: "(vec3 \<Rightarrow> vec3 \<Rightarrow> mat3) \<Rightarrow> vec3 \<Rightarrow> vec3 \<Rightarrow> bool" where
  "sends from_two a b \<longleftrightarrow> proper_rotation (from_two a b) \<and>
     mat3_apply (from_two a b) (scale3 (norm3 b) a) = scale3 (norm3 a) b"

lemma mat3_inverse_orthogonal:
  assumes "orthogonal m"
  shows "mat3_inverse m = mat3_transpose m"
proof -
  have "mat3_det m \<noteq> 0" using orthogonal_det [OF assms] by auto
  from mat3_inverse_left [OF this] have "mat3_mult (mat3_mult (mat3_inverse m) m) (mat3_transpose m) = mat3_transpose m"
    by simp
  then show ?thesis by (simp add: mat3_mult_assoc orthogonalD(2) [OF assms])
qed

text \<open>
  The rectification makes a standard stereo pair: both corrections are rotations, the left
  one turns the baseline onto the x axis, and the optical axes of the two corrected cameras
  are the same direction in the frame of the left camera.
\<close>

lemma rectified_stereo:
  assumes "orthogonal (fst T)" and "mat3_det (fst T) = 1"
    and "sends from_two (v3 1 0 0) (snd T)" and "sends from_two (mat3_apply (fst T) (v3 1 0 0)) (snd T)"
    and "sends from_two (mat3_apply (mat3_mult (from_two (mat3_apply (fst T) (v3 1 0 0)) (snd T)) (fst T)) (v3 0 0 1))
           (mat3_apply (from_two (v3 1 0 0) (snd T)) (v3 0 0 1))"
    and "get_rotations_for_standard_stereo from_two T = (left, right, baseline)"
  shows "proper_rotation left \<and> proper_rotation right \<and> baseline = norm3 (snd T) \<and>
    mat3_apply left (snd T) = v3 baseline 0 0 \<and>
    mat3_apply (mat3_transpose left) (v3 0 0 1) = mat3_apply (fst T) (mat3_apply (mat3_transpose right) (v3 0 0 1))"
proof -
  let ?b = "snd T" and ?R = "fst T"
  define rl where "rl = from_two (v3 1 0 0) ?b"
  define rr where "rr = mat3_mult (from_two (mat3_apply ?R (v3 1 0 0)) ?b) ?R"
  define lz where "lz = mat3_apply rl (v3 0 0 1)"
  define rz where "rz = mat3_apply rr (v3 0 0 1)"
  define rv where "rv = mat3_mult (from_two rz lz) rr"
  have zero: "sub3 (add3 p q) q = p" "add3 p (v3 0 0 0) = p" for p q by (simp_all add: model_defs)
  have one: "scale3 1 p = p" "norm3 (v3 1 0 0) = 1" "norm3 (v3 0 0 1) = 1" for p by (simp_all add: model_defs)
  have rl: "proper_rotation rl" "mat3_apply rl (scale3 (norm3 ?b) (v3 1 0 0)) = ?b"
    using assms(3) by (simp_all add: sends_def one flip: rl_def)
  have rr: "proper_rotation rr"
    using assms(1,2,4) by (simp add: rr_def sends_def proper_rotation_mult proper_rotation_def [of ?R])
  have orth: "orthogonal rl" "orthogonal rr" using rl(1) rr by (simp_all add: proper_rotation_def)
  have "norm3 lz = 1" "norm3 rz = 1"
    by (simp_all add: lz_def rz_def orthogonal_norm orth one)
  then have s: "proper_rotation (from_two rz lz)" "mat3_apply (from_two rz lz) rz = lz"
    using assms(5) by (simp_all add: sends_def one flip: rl_def rr_def lz_def rz_def)
  have rv: "proper_rotation rv" using s(1) rr by (simp add: rv_def proper_rotation_mult)
  have res: "left = mat3_transpose rl" "right = mat3_mult (mat3_transpose rv) ?R" "baseline = norm3 ?b"
    using assms(6) rl(1) rv
    by (simp_all add: get_rotations_for_standard_stereo_def Let_def iso_compose_def affine_inverse_def iso_identity_def zero
        mat3_inverse_orthogonal proper_rotation_def flip: rl_def rr_def lz_def rz_def rv_def)
  have "mat3_apply (mat3_transpose rl) ?b = mat3_apply (mat3_transpose rl) (mat3_apply rl (scale3 (norm3 ?b) (v3 1 0 0)))"
    by (simp only: rl(2))
  also have "\<dots> = scale3 (norm3 ?b) (v3 1 0 0)"
    by (simp add: orthogonalD(1) [OF orth(1)] flip: mat3_apply_mult)
  finally have x: "mat3_apply left ?b = v3 baseline 0 0" by (simp add: res scale3_def)
  have "mat3_apply ?R (mat3_apply (mat3_transpose right) (v3 0 0 1)) = mat3_apply rv (v3 0 0 1)"
    by (simp add: res mat3_transpose_mult orthogonalD(4) [OF assms(1)] flip: mat3_apply_mult)
  also have "\<dots> = mat3_apply (mat3_transpose left) (v3 0 0 1)"
    using s(2) by (simp add: rv_def mat3_apply_mult res lz_def rz_def)
  finally have "mat3_apply (mat3_transpose left) (v3 0 0 1) = mat3_apply ?R (mat3_apply (mat3_transpose right) (v3 0 0 1))" ..
  moreover have "proper_rotation left" "proper_rotation right"
    using rl(1) rv assms(1,2) by (simp_all add: res proper_rotation_transpose proper_rotation_mult proper_rotation_def [of ?R])
  ultimately show ?thesis using x res(3) by simp
qed

end
