(* ===== verification/HandNimble.thy ===== *)
theory HandNimble
  imports PoseSolver
begin

text \<open>
  The joints of the hand from its shape and its angles:
  \<open>decode_hand_joints\<close> of \<^verbatim>\<open>aisdk/algorithm/func/hand_nimble.cpp\<close>. A homogeneous matrix of Eigen is
  the isometry of its upper rows.
\<close>

definition nimble_template :: "vec3 list" where
  "nimble_template =
     [v3 9.5550 (-22.8580) (-102.1520), v3 35.5118 (-40.8386) (-91.7473), v3 52.8191 (-66.0090) (-61.6418),
      v3 59.9206 (-73.9186) (-34.2990), v3 61.0230 (-84.2977) (-18.4595), v3 27.7471 (-27.3750) (-85.3739),
      v3 40.6270 (-39.2609) (-24.8645), v3 45.2326 (-56.6830) 10.4099, v3 45.3931 (-69.4421) 28.6310,
      v3 45.0606 (-78.1369) 41.3210, v3 17.0778 (-22.4696) (-81.3793), v3 20.3420 (-33.0670) (-23.0879),
      v3 17.9202 (-51.9830) 15.7123, v3 14.9159 (-68.0406) 36.4155, v3 12.5946 (-78.9575) 49.5932,
      v3 7.4569 (-21.9225) (-79.2171), v3 2.0990 (-32.3352) (-28.2736), v3 (-3.9275) (-50.1595) 7.2539,
      v3 (-7.9765) (-66.0658) 26.1811, v3 (-8.7711) (-78.5253) 38.2895, v3 (-2.4532) (-24.6924) (-80.5279),
      v3 (-15.2679) (-35.1095) (-35.4490), v3 (-24.7150) (-47.0335) (-7.0120), v3 (-29.8117) (-58.5901) 5.6566,
      v3 (-32.0271) (-69.2831) 15.7944]"

text \<open>\<open>KINTREE_PARENTS\<close>, without the root.\<close>

definition kintree_parents :: "nat list" where
  "kintree_parents = [0, 0, 1, 2, 3, 0, 5, 6, 7, 8, 0, 10, 11, 12, 13, 0, 15, 16, 17, 18, 0, 20, 21, 22, 23]"

definition joint_id_bone :: "nat \<Rightarrow> nat option" where
  "joint_id_bone = map_of [(0, 0), (1, 1), (2, 2), (3, 3), (5, 4), (6, 5), (7, 6), (8, 7), (10, 8), (11, 9), (12, 10),
     (13, 11), (15, 12), (16, 13), (17, 14), (18, 15), (20, 16), (21, 17), (22, 18), (23, 19)]"

definition valid_joint_index :: "nat list" where
  "valid_joint_index = [0, 1, 2, 3, 4, 6, 7, 8, 9, 11, 12, 13, 14, 16, 17, 18, 19, 21, 22, 23, 24, 0, 20, 5, 10, 15]"

definition real_joints :: "real \<Rightarrow> vec3 list" where
  "real_joints hand_scale =
     map (\<lambda>p. add3 (scale3 (1 + hand_scale) (sub3 p (nimble_template ! 0))) (nimble_template ! 0)) nimble_template"

definition joint_rot :: "real list \<Rightarrow> nat \<Rightarrow> mat3" where
  "joint_rot joint_angles i =
     (case joint_id_bone i of None \<Rightarrow> mat3_identity | Some b \<Rightarrow> block9 (b - 1) joint_angles)"

definition joint_step :: "real \<Rightarrow> real list \<Rightarrow> iso list \<Rightarrow> nat \<Rightarrow> iso list" where
  "joint_step hand_scale joint_angles hand_poses i =
     (let p = kintree_parents ! i;
          rel = (joint_rot joint_angles i, sub3 (real_joints hand_scale ! i) (real_joints hand_scale ! p))
      in hand_poses[i := iso_compose (hand_poses ! p) rel])"

definition hand_poses :: "real \<Rightarrow> real list \<Rightarrow> nat \<Rightarrow> iso list" where
  "hand_poses hand_scale joint_angles n =
     foldl (joint_step hand_scale joint_angles)
       ((replicate 25 iso_identity)[0 := (mat3_identity, real_joints hand_scale ! 0)]) [1..<n]"

definition decode_hand_joints :: "real \<Rightarrow> real list \<Rightarrow> vec3 list option" where
  "decode_hand_joints hand_scale joint_angles =
     (if length joint_angles < 171 then None
      else (let poses = hand_poses hand_scale joint_angles 25;
                rebuild_root = snd (poses ! 0)
            in Some (map (\<lambda>i. scale3 (1 / 1000) (sub3 (snd (poses ! i)) rebuild_root)) valid_joint_index)))"

section \<open>The length of the bones\<close>

lemma parent_before: "0 < i \<Longrightarrow> i < 25 \<Longrightarrow> kintree_parents ! i < i"
proof -
  assume "0 < i" "i < 25"
  then have "i \<in> set [1..<25]" by simp
  moreover have "\<forall>i\<in>set [1..<25]. kintree_parents ! i < i" by (simp add: kintree_parents_def upt_rec)
  ultimately show ?thesis by blast
qed

lemma length_hand_poses [simp]: "length (hand_poses s a n) = 25"
proof -
  have "length (foldl (joint_step s a) ps js) = length ps" for ps js
    by (induction js arbitrary: ps) (simp_all add: joint_step_def Let_def)
  then show ?thesis by (simp add: hand_poses_def)
qed

lemma hand_poses_Suc: "1 \<le> n \<Longrightarrow> hand_poses s a (Suc n) = joint_step s a (hand_poses s a n) n"
  by (simp add: hand_poses_def)

text \<open>A pose does not change after its step.\<close>

lemma hand_poses_stable:
  assumes "i < n"
  shows "i < m \<Longrightarrow> m \<le> n \<Longrightarrow> hand_poses s a n ! i = hand_poses s a m ! i"
proof -
  assume m: "i < m" "m \<le> n"
  have "hand_poses s a (m + d) ! i = hand_poses s a m ! i" for d
  proof (induction d)
    case (Suc d)
    then show ?case using m(1) by (simp add: hand_poses_Suc joint_step_def Let_def)
  qed simp
  from this [of "n - m"] m(2) show ?thesis by simp
qed

lemma hand_poses_root: "hand_poses s a 25 ! 0 = (mat3_identity, real_joints s ! 0)"
  using hand_poses_stable [of 0 25 1 s a] by (simp add: hand_poses_def)

lemma hand_poses_step:
  assumes "0 < i" and "i < 25"
  shows "hand_poses s a 25 ! i =
    iso_compose (hand_poses s a 25 ! (kintree_parents ! i))
      (joint_rot a i, sub3 (real_joints s ! i) (real_joints s ! (kintree_parents ! i)))"
proof -
  have "hand_poses s a 25 ! i = hand_poses s a (Suc i) ! i" using assms by (intro hand_poses_stable) simp_all
  also have "\<dots> = iso_compose (hand_poses s a i ! (kintree_parents ! i))
      (joint_rot a i, sub3 (real_joints s ! i) (real_joints s ! (kintree_parents ! i)))"
    using assms by (simp add: hand_poses_Suc joint_step_def Let_def)
  also have "hand_poses s a i ! (kintree_parents ! i) = hand_poses s a 25 ! (kintree_parents ! i)"
    using parent_before [OF assms] assms by (intro hand_poses_stable [symmetric]) simp_all
  finally show ?thesis .
qed

lemma joint_rot_orthogonal:
  assumes "\<forall>b<19. orthogonal (block9 b a)" and "0 < i" and "i < 25"
  shows "orthogonal (joint_rot a i)"
proof (cases "joint_id_bone i")
  case None
  then show ?thesis by (simp add: joint_rot_def)
next
  case (Some b)
  have "i \<in> set [1..<25]" using assms(2,3) by simp
  moreover have "\<forall>i\<in>set [1..<25]. case joint_id_bone i of None \<Rightarrow> True | Some b \<Rightarrow> b - 1 < 19"
    by (simp add: joint_id_bone_def upt_rec)
  ultimately have "b - 1 < 19" using Some by fastforce
  with assms(1) Some show ?thesis by (simp add: joint_rot_def)
qed

lemma hand_poses_orthogonal:
  assumes "\<forall>b<19. orthogonal (block9 b a)"
  shows "i < 25 \<Longrightarrow> orthogonal (fst (hand_poses s a 25 ! i))"
proof (induction i rule: less_induct)
  case (less i)
  show ?case
  proof (cases "i = 0")
    case True
    then show ?thesis by (simp add: hand_poses_root)
  next
    case False
    then have i: "0 < i" by simp
    have "orthogonal (fst (hand_poses s a 25 ! (kintree_parents ! i)))"
      using parent_before [OF i less.prems] less.IH less.prems by simp
    then show ?thesis
      using joint_rot_orthogonal [OF assms i less.prems] by (simp add: hand_poses_step i less.prems iso_compose_def orthogonal_mult)
  qed
qed

lemma norm3_scale: "norm3 (scale3 k p) = \<bar>k\<bar> * norm3 p"
proof -
  have "dot3 (scale3 k p) (scale3 k p) = (k * k) * dot3 p p" by (simp add: model_defs algebra_simps)
  then show ?thesis by (simp add: norm3_def real_sqrt_mult)
qed

lemma bone_length:
  assumes "\<forall>b<19. orthogonal (block9 b a)" and "0 < i" and "i < 25"
  shows "norm3 (sub3 (snd (hand_poses s a 25 ! i)) (snd (hand_poses s a 25 ! (kintree_parents ! i)))) =
    \<bar>1 + s\<bar> * norm3 (sub3 (nimble_template ! i) (nimble_template ! (kintree_parents ! i)))"
proof -
  let ?p = "kintree_parents ! i"
  have p: "?p < 25" using parent_before [OF assms(2,3)] assms(3) by simp
  have len: "length nimble_template = 25" by (simp add: nimble_template_def)
  have "sub3 (real_joints s ! i) (real_joints s ! ?p) = scale3 (1 + s) (sub3 (nimble_template ! i) (nimble_template ! ?p))"
    using p assms(3) by (simp add: real_joints_def len model_defs algebra_simps)
  moreover have "sub3 (add3 q r) r = q" for q r by (simp add: model_defs)
  ultimately show ?thesis
    using hand_poses_orthogonal [OF assms(1) p]
    by (simp add: hand_poses_step [OF assms(2,3)] iso_compose_def orthogonal_norm norm3_scale)
qed

text \<open>
  The decoded hand is a hand of the given size: whatever rotations the joints have, the
  joints are 26, the root (row 0 and row 21) is the origin, and every bone between a joint and
  its parent has the length it has in the template, scaled by the size of the hand, in metres.
\<close>

lemma decode_hand_joints_bones:
  assumes "length a = 171" and "\<forall>b<19. orthogonal (block9 b a)"
  shows "\<exists>r. decode_hand_joints s a = Some r \<and> length r = 26 \<and> r ! 0 = v3 0 0 0 \<and> r ! 21 = v3 0 0 0 \<and>
    (\<forall>k<26. \<forall>m<26. 0 < valid_joint_index ! k \<and> valid_joint_index ! m = kintree_parents ! (valid_joint_index ! k) \<longrightarrow>
       norm3 (sub3 (r ! k) (r ! m)) = \<bar>1 + s\<bar> / 1000 *
         norm3 (sub3 (nimble_template ! (valid_joint_index ! k)) (nimble_template ! (valid_joint_index ! m))))"
proof -
  define ps where "ps = hand_poses s a 25"
  define r where "r = map (\<lambda>i. scale3 (1 / 1000) (sub3 (snd (ps ! i)) (snd (ps ! 0)))) valid_joint_index"
  have d: "decode_hand_joints s a = Some r" using assms(1) by (simp add: decode_hand_joints_def r_def ps_def Let_def)
  have len: "length valid_joint_index = 26" by (simp add: valid_joint_index_def)
  have nth: "r ! k = scale3 (1 / 1000) (sub3 (snd (ps ! (valid_joint_index ! k))) (snd (ps ! 0)))" if "k < 26" for k
    using that by (simp add: r_def len)
  have z: "r ! 0 = v3 0 0 0" "r ! 21 = v3 0 0 0"
    by (simp_all add: nth) (simp_all add: valid_joint_index_def model_defs)
  have "norm3 (sub3 (r ! k) (r ! m)) = \<bar>1 + s\<bar> / 1000 *
         norm3 (sub3 (nimble_template ! (valid_joint_index ! k)) (nimble_template ! (valid_joint_index ! m)))"
    if k: "k < 26" "m < 26" "0 < valid_joint_index ! k" "valid_joint_index ! m = kintree_parents ! (valid_joint_index ! k)" for k m
  proof -
    have "valid_joint_index ! k \<in> set valid_joint_index" using k(1) len by simp
    moreover have "\<forall>i\<in>set valid_joint_index. i < 25" by (simp add: valid_joint_index_def)
    ultimately have i: "valid_joint_index ! k < 25" by blast
    have "sub3 (scale3 c (sub3 p q)) (scale3 c (sub3 p' q)) = scale3 c (sub3 p p')" for c p p' q
      by (simp add: model_defs algebra_simps)
    then have "norm3 (sub3 (r ! k) (r ! m)) =
        1 / 1000 * norm3 (sub3 (snd (ps ! (valid_joint_index ! k))) (snd (ps ! (valid_joint_index ! m))))"
      using k(1,2) by (simp add: nth norm3_scale)
    then show ?thesis using bone_length [OF assms(2) k(3) i, of s] by (simp add: k(4) ps_def)
  qed
  moreover have "length r = 26" by (simp add: r_def len)
  ultimately show ?thesis using d z by blast
qed

end
