(* ===== verification/LiftNets.thy ===== *)
theory LiftNets
  imports HandNimble CameraModel
begin

text \<open>
  The networks that lift two images of a hand to space:
  \<open>GMLPLiftNet\<close> and \<open>GMLPLiftNet3\<close> of \<^verbatim>\<open>aisdk/algorithm/model/hand_lift.cpp\<close>, \<open>GMLPLiftNimble\<close> of
  \<^verbatim>\<open>hand_lift_nimble.cpp\<close>. \<open>RunNet\<close> is the argument \<open>net\<close>, from the contents of the input tensors to
  those of the output tensors; None is a failed run. In the results the outer None stands for an
  access outside a buffer and for a division by zero, the inner None for the error status.
\<close>

record lift_net_inputs =
  input_kpt_lcam :: "vec2 list"
  input_kpt_rcam :: "vec2 list"
  m_leftcam_x :: "real list"
  m_leftcam_y :: "real list"
  m_leftcam_z :: "real list"
  m_rightcam_x :: "real list"
  m_rightcam_y :: "real list"
  m_rightcam_z :: "real list"
  lift_timestamp :: real
  lift_is_left :: real

record lift_net_outputs =
  res3d :: "vec3 list"
  kpt3d_score :: real

definition no_lift_outputs :: lift_net_outputs where
  "no_lift_outputs = \<lparr>res3d = [], kpt3d_score = 0\<rparr>"

definition interleave2 :: "vec2 list \<Rightarrow> real list" where
  "interleave2 ps = concat (map (\<lambda>p. [v2x p, v2y p]) ps)"

section \<open>GMLPLiftNet\<close>

record lift_net =
  ln_left :: camera_model
  ln_right :: camera_model
  ln_norm_left :: "vec2 list"
  ln_norm_right :: "vec2 list"
  ln_tensor :: "real list"

definition lift_set_camera_info :: "camera_model \<Rightarrow> camera_model \<Rightarrow> lift_net \<Rightarrow> lift_net" where
  "lift_set_camera_info l r n = n\<lparr>ln_left := l, ln_right := r\<rparr>"

definition Tmatrix :: "iso \<Rightarrow> real list" where
  "Tmatrix T = (case T of ((a, b, c), t) \<Rightarrow>
     [vx t, vy t, vz t, vx a, vy a, vz a, vx b, vy b, vz b, vx c, vy c, vz c])"

text \<open>The first 118 of the 128 values of a camera; the padding keeps what the tensor held.\<close>

definition lift_half :: "vec2 list \<Rightarrow> iso \<Rightarrow> real \<Rightarrow> real list" where
  "lift_half norm_kpt T left = interleave2 norm_kpt @ Tmatrix T @ [left] @ replicate 63 0"

definition write_at :: "nat \<Rightarrow> 'a list \<Rightarrow> 'a list \<Rightarrow> 'a list option" where
  "write_at off vs mem =
     (if off + length vs \<le> length mem then Some (take off mem @ vs @ drop (off + length vs) mem) else None)"

text \<open>\<open>single\<close>: the input tensor is one packed batch; otherwise nothing is written.\<close>

definition lift_preprocess :: "bool \<Rightarrow> lift_net_inputs \<Rightarrow> lift_net \<Rightarrow> lift_net option" where
  "lift_preprocess single inp n =
     (if \<not> single then Some n
      else if length (input_kpt_lcam inp) < 21 \<or> length (input_kpt_rcam inp) < 21 then None
      else do {
        let l = map (from_window (intrinsics (ln_left n))) (take 21 (input_kpt_lcam inp));
        let r = map (from_window (intrinsics (ln_right n))) (take 21 (input_kpt_rcam inp));
        m \<leftarrow> write_at 0 (lift_half l iso_identity (lift_is_left inp)) (ln_tensor n);
        m \<leftarrow> write_at 128 (lift_half r (camera_to_world_xf (ln_right n)) (lift_is_left inp)) m;
        Some (n\<lparr>ln_norm_left := l, ln_norm_right := r, ln_tensor := m\<rparr>)
      })"

definition at_depth :: "real \<Rightarrow> vec2 \<Rightarrow> vec3" where
  "at_depth z p = v3 (z * v2x p) (z * v2y p) z"

definition lift_point :: "iso \<Rightarrow> vec3 \<Rightarrow> vec3 \<Rightarrow> vec3" where
  "lift_point T l r = add3 (scale3 0.5 l) (scale3 (1 - 0.5) (iso_apply T r))"

text \<open>The loops over the batches overwrite \<open>res3d\<close>: the last block of 42 depths remains.\<close>

definition lift_postprocess :: "bool \<Rightarrow> real list list \<Rightarrow> lift_net \<Rightarrow> vec3 list option" where
  "lift_postprocess packed blocks n =
     (if \<not> packed \<or> blocks = [] then Some []
      else if (\<exists>b\<in>set blocks. length b < 42) \<or> length (ln_norm_left n) < 21 \<or> length (ln_norm_right n) < 21 then None
      else (let d = last blocks in
        Some (map (\<lambda>i. lift_point (camera_to_world_xf (ln_right n)) (at_depth (d ! i) (ln_norm_left n ! i))
                         (at_depth (d ! (21 + i)) (ln_norm_right n ! i))) [0..<21])))"

definition lift_inference :: "(real list \<Rightarrow> real list list option) \<Rightarrow> bool \<Rightarrow> bool \<Rightarrow> lift_net_inputs \<Rightarrow> lift_net
    \<Rightarrow> (lift_net_outputs option \<times> lift_net) option" where
  "lift_inference net single packed inp n = do {
     n \<leftarrow> lift_preprocess single inp n;
     case net (ln_tensor n) of
       None \<Rightarrow> Some (None, n)
     | Some blocks \<Rightarrow> do {
         ps \<leftarrow> lift_postprocess packed blocks n;
         Some (Some (no_lift_outputs\<lparr>res3d := ps\<rparr>), n)
       }
   }"

section \<open>GMLPLiftNet3\<close>

text \<open>
  The recurrent memory is copied with \<open>memcpy\<close>, whose count is in bytes: the memories are
  lists of bytes, \<open>mem_in_size\<close> and \<open>mem_out_size\<close> the products of the tensors' dimensions.
\<close>

record lift3 =
  l3_left :: camera_model
  l3_right :: camera_model
  l3_rot_left :: mat3
  l3_rot_right :: mat3
  l3_baseline :: real
  l3_norm_left :: "vec2 list"
  l3_norm_right :: "vec2 list"
  l3_mem_tensor :: "8 word list"
  mem_left_hand :: "8 word list"
  mem_right_hand :: "8 word list"
  last_left_time :: real
  last_right_time :: real

record lift3_lib =
  mem_in_size :: nat
  mem_out_size :: nat
  net3 :: "real list \<Rightarrow> 8 word list \<Rightarrow> (real list \<times> 8 word list) option"

definition reset_mem_time :: real where
  "reset_mem_time = 0.05"

definition lift3_set_camera_info :: "(vec3 \<Rightarrow> vec3 \<Rightarrow> mat3) \<Rightarrow> camera_model \<Rightarrow> camera_model \<Rightarrow> lift3 \<Rightarrow> lift3" where
  "lift3_set_camera_info from_two l r s =
     (case get_rotations_for_standard_stereo from_two (camera_to_world_xf r) of
        (rl, rr, b) \<Rightarrow> s\<lparr>l3_left := l, l3_right := r, l3_rot_left := rl, l3_rot_right := rr, l3_baseline := b\<rparr>)"

definition homogeneous :: "vec3 \<Rightarrow> vec2 option" where
  "homogeneous p = (if vz p = 0 then None else Some (v2 (vx p / vz p) (vy p / vz p)))"

definition rectify :: "mat3 \<Rightarrow> vec3 list \<Rightarrow> vec2 list option" where
  "rectify rot ps = those (map (\<lambda>p. homogeneous (mat3_apply rot p)) ps)"

definition persp1 :: "vec2 \<Rightarrow> vec3" where
  "persp1 p = v3 (v2x p) (v2y p) 1"

definition memcpy :: "nat \<Rightarrow> 'a list \<Rightarrow> 'a list \<Rightarrow> 'a list option" where
  "memcpy n src dst = (if n \<le> length src \<and> n \<le> length dst then Some (take n src @ drop n dst) else None)"

text \<open>The memory that the network reads: both branches name \<open>mem_right_hand\<close>.\<close>

definition lift3_memory :: "nat \<Rightarrow> lift_net_inputs \<Rightarrow> lift3 \<Rightarrow> 8 word list option" where
  "lift3_memory n inp s =
     (if lift_is_left inp \<noteq> 0 \<and> lift_timestamp inp - last_left_time s < reset_mem_time
      then memcpy n (mem_right_hand s) (l3_mem_tensor s)
      else if lift_is_left inp = 0 \<and> lift_timestamp inp - last_right_time s < reset_mem_time
      then memcpy n (mem_right_hand s) (l3_mem_tensor s)
      else memcpy n (replicate n 0) (l3_mem_tensor s))"

definition lift3_preprocess :: "lift3_lib \<Rightarrow> lift_net_inputs \<Rightarrow> lift3 \<Rightarrow> (real list \<times> lift3) option" where
  "lift3_preprocess lib inp s =
     (if length (input_kpt_lcam inp) < 21 \<or> length (input_kpt_rcam inp) < 21 then None
      else do {
        l \<leftarrow> rectify (l3_rot_left s) (map (persp1 \<circ> from_window (intrinsics (l3_left s))) (take 21 (input_kpt_lcam inp)));
        r \<leftarrow> rectify (l3_rot_right s) (map (persp1 \<circ> from_window (intrinsics (l3_right s))) (take 21 (input_kpt_rcam inp)));
        m \<leftarrow> lift3_memory (mem_in_size lib) inp s;
        Some (interleave2 l @ [lift_is_left inp] @ interleave2 r @ [lift_is_left inp],
              s\<lparr>l3_norm_left := l, l3_norm_right := r, l3_mem_tensor := m\<rparr>)
      })"

definition lift3_points :: "real list \<Rightarrow> lift3 \<Rightarrow> vec3 list" where
  "lift3_points d s =
     map (\<lambda>i. lift_point (camera_to_world_xf (l3_right s))
                (mat3_apply (mat3_transpose (l3_rot_left s)) (at_depth (d ! i * l3_baseline s) (l3_norm_left s ! i)))
                (mat3_apply (mat3_transpose (l3_rot_right s)) (at_depth (d ! (21 + i) * l3_baseline s) (l3_norm_right s ! i))))
       [0..<21]"

definition lift3_postprocess :: "lift3_lib \<Rightarrow> lift_net_inputs \<Rightarrow> real list \<Rightarrow> 8 word list \<Rightarrow> lift3
    \<Rightarrow> (lift_net_outputs \<times> lift3) option" where
  "lift3_postprocess lib inp d mem_out s =
     (if length d < 42 then None
      else do {
        s' \<leftarrow> (if lift_is_left inp \<noteq> 0
               then map_option (\<lambda>m. s\<lparr>mem_left_hand := m, last_left_time := lift_timestamp inp\<rparr>)
                      (memcpy (mem_out_size lib) mem_out (mem_left_hand s))
               else map_option (\<lambda>m. s\<lparr>mem_right_hand := m, last_right_time := lift_timestamp inp\<rparr>)
                      (memcpy (mem_out_size lib) mem_out (mem_right_hand s)));
        Some (no_lift_outputs\<lparr>res3d := lift3_points d s\<rparr>, s')
      })"

definition lift3_inference :: "lift3_lib \<Rightarrow> lift_net_inputs \<Rightarrow> lift3 \<Rightarrow> (lift_net_outputs option \<times> lift3) option" where
  "lift3_inference lib inp s = do {
     (feat, s) \<leftarrow> lift3_preprocess lib inp s;
     case net3 lib feat (l3_mem_tensor s) of
       None \<Rightarrow> Some (None, s)
     | Some (d, mem_out) \<Rightarrow> map_option (map_prod Some id) (lift3_postprocess lib inp d mem_out s)
   }"

fun lift3_run :: "lift3_lib \<Rightarrow> lift_net_inputs list \<Rightarrow> lift3 \<Rightarrow> (lift_net_outputs option list \<times> lift3) option" where
  "lift3_run lib [] s = Some ([], s)"
| "lift3_run lib (i # js) s = do {
     (r, s1) \<leftarrow> lift3_inference lib i s;
     (rs, s2) \<leftarrow> lift3_run lib js s1;
     Some (r # rs, s2)
   }"

text \<open>States that differ in the memory of the left hand only.\<close>

definition same_but_left :: "lift3 \<Rightarrow> lift3 \<Rightarrow> bool" where
  "same_but_left s t \<longleftrightarrow> t = s\<lparr>mem_left_hand := mem_left_hand t\<rparr> \<and> length (mem_left_hand t) = length (mem_left_hand s)"

lemma lift3_memory_update: "lift3_memory n inp (s\<lparr>mem_left_hand := m\<rparr>) = lift3_memory n inp s"
  by (simp add: lift3_memory_def)

lemma lift3_points_update: "lift3_points d (s\<lparr>mem_left_hand := m\<rparr>) = lift3_points d s"
  by (simp add: lift3_points_def)

lemma lift3_preprocess_update:
  "lift3_preprocess lib inp (s\<lparr>mem_left_hand := m\<rparr>) =
   map_option (map_prod id (\<lambda>s. s\<lparr>mem_left_hand := m\<rparr>)) (lift3_preprocess lib inp s)"
  by (auto simp: lift3_preprocess_def lift3_memory_update split: bind_splits)

lemma lift3_preprocess_left: "lift3_preprocess lib inp s = Some (f, s') \<Longrightarrow> mem_left_hand s' = mem_left_hand s"
  by (auto simp: lift3_preprocess_def bind_eq_Some_conv split: if_splits)

lemma memcpy_length: "memcpy n src dst = Some r \<Longrightarrow> length r = length dst"
  by (auto simp: memcpy_def split: if_splits)

lemma lift3_postprocess_same:
  assumes "same_but_left s t"
  shows "rel_option (rel_prod (=) same_but_left) (lift3_postprocess lib inp d mo s) (lift3_postprocess lib inp d mo t)"
proof -
  from assms obtain m where t: "t = s\<lparr>mem_left_hand := m\<rparr>" "length m = length (mem_left_hand s)"
    by (metis same_but_left_def)
  show ?thesis
    unfolding t(1) lift3_postprocess_def lift3_points_update
    by (auto simp: t(2) same_but_left_def memcpy_def split: bind_splits)
qed

lemma lift3_inference_same:
  assumes "same_but_left s t"
  shows "rel_option (rel_prod (=) same_but_left) (lift3_inference lib inp s) (lift3_inference lib inp t)"
proof -
  from assms obtain m where t: "t = s\<lparr>mem_left_hand := m\<rparr>" "length m = length (mem_left_hand s)"
    by (metis same_but_left_def)
  show ?thesis
  proof (cases "lift3_preprocess lib inp s")
    case None
    then show ?thesis by (simp add: lift3_inference_def t(1) lift3_preprocess_update)
  next
    case (Some fs)
    obtain f s1 where fs: "fs = (f, s1)" by (cases fs)
    have same: "same_but_left s1 (s1\<lparr>mem_left_hand := m\<rparr>)"
      using lift3_preprocess_left Some fs t(2) by (simp add: same_but_left_def)
    show ?thesis
    proof (cases "net3 lib f (l3_mem_tensor s1)")
      case None
      then show ?thesis using Some fs same by (simp add: lift3_inference_def t(1) lift3_preprocess_update)
    next
      case n: (Some dm)
      obtain d mo where dm: "dm = (d, mo)" by (cases dm)
      from lift3_postprocess_same [OF same, of lib inp d mo] show ?thesis
        using Some fs n dm
        by (cases "lift3_postprocess lib inp d mo s1"; cases "lift3_postprocess lib inp d mo (s1\<lparr>mem_left_hand := m\<rparr>)")
          (auto simp: lift3_inference_def t(1) lift3_preprocess_update)
    qed
  qed
qed

lemma lift3_run_same:
  "same_but_left s t \<Longrightarrow> rel_option (rel_prod (=) same_but_left) (lift3_run lib js s) (lift3_run lib js t)"
proof (induction js arbitrary: s t)
  case (Cons i js)
  from lift3_inference_same [OF Cons.prems, of lib i] show ?case
  proof (cases rule: option.rel_cases)
    case (Some a b)
    then obtain r s1 t1 where ab: "a = (r, s1)" "b = (r, t1)" "same_but_left s1 t1"
      by (cases a; cases b) auto
    from Cons.IH [OF ab(3)] show ?thesis
      using Some ab by (cases rule: option.rel_cases) auto
  qed simp
qed simp

text \<open>
  The memory of the left hand is never read: in any sequence of inferences of the third
  lifting network the outputs are the same whatever the memory of the left hand held, since the
  left hand is given the memory of the right hand.
\<close>

lemma left_memory_dead:
  assumes "length m = length (mem_left_hand s)"
  shows "map_option fst (lift3_run lib frames (s\<lparr>mem_left_hand := m\<rparr>)) = map_option fst (lift3_run lib frames s)"
proof -
  have "same_but_left s (s\<lparr>mem_left_hand := m\<rparr>)" using assms by (simp add: same_but_left_def)
  from lift3_run_same [OF this, of lib frames] show ?thesis
    by (cases rule: option.rel_cases) auto
qed

section \<open>The points from the depths\<close>

lemma homogeneous_scale: "c \<noteq> 0 \<Longrightarrow> homogeneous (scale3 c p) = homogeneous p"
  by (simp add: homogeneous_def scale3_def)

lemma at_depth_homogeneous: "homogeneous p = Some q \<Longrightarrow> at_depth (vz p) q = p"
  by (auto simp: homogeneous_def at_depth_def split: if_splits)

definition projects_to :: "camera_intrinsics \<Rightarrow> vec3 \<Rightarrow> vec2 \<Rightarrow> bool" where
  "projects_to k p c \<longleftrightarrow> vz p \<noteq> 0 \<and> from_window k c = v2 (vx p / vz p) (vy p / vz p)"

lemma rectify_projections:
  assumes "length ps = 21" and "21 \<le> length cs" and "\<forall>i<21. projects_to k (ps ! i) (cs ! i) \<and> vz (mat3_apply r (ps ! i)) \<noteq> 0"
  shows "\<exists>qs. rectify r (map (persp1 \<circ> from_window k) (take 21 cs)) = Some qs \<and> length qs = 21 \<and>
    (\<forall>i<21. at_depth (vz (mat3_apply r (ps ! i))) (qs ! i) = mat3_apply r (ps ! i))"
proof -
  let ?q = "\<lambda>p. v2 (vx (mat3_apply r p) / vz (mat3_apply r p)) (vy (mat3_apply r p) / vz (mat3_apply r p))"
  have "homogeneous (mat3_apply r (persp1 (from_window k (cs ! i)))) = Some (?q (ps ! i))" if "i < 21" for i
  proof -
    have "persp1 (from_window k (cs ! i)) = scale3 (1 / vz (ps ! i)) (ps ! i)"
      using assms(3) that by (simp add: projects_to_def persp1_def scale3_def)
    then show ?thesis
      using assms(3) that by (simp add: mat3_apply_linear homogeneous_scale projects_to_def) (simp add: homogeneous_def)
  qed
  then have e: "map (\<lambda>p. homogeneous (mat3_apply r p)) (map (persp1 \<circ> from_window k) (take 21 cs)) = map Some (map ?q ps)"
    using assms(1,2) by (intro nth_equalityI) simp_all
  have "those (map Some xs) = Some xs" for xs :: "vec2 list" by (induction xs) simp_all
  then have "rectify r (map (persp1 \<circ> from_window k) (take 21 cs)) = Some (map ?q ps)"
    unfolding rectify_def e by blast
  moreover have "at_depth (vz (mat3_apply r p)) (?q p) = mat3_apply r p" if "vz (mat3_apply r p) \<noteq> 0" for p
    using that by (simp add: at_depth_def)
  ultimately show ?thesis using assms(1,3) by (intro exI [of _ "map ?q ps"]) simp
qed


definition example_right_camera :: camera_model where
  "example_right_camera = example_camera\<lparr>camera_to_world_xf := (mat3_identity, v3 1 0 0)\<rparr>"

definition example_lift3 :: lift3 where
  "example_lift3 = \<lparr>l3_left = example_camera, l3_right = example_right_camera, l3_rot_left = mat3_identity,
     l3_rot_right = mat3_identity, l3_baseline = 1, l3_norm_left = [], l3_norm_right = [],
     l3_mem_tensor = replicate 344 0, mem_left_hand = replicate 344 0, mem_right_hand = replicate 344 0,
     last_left_time = 0, last_right_time = 0\<rparr>"

definition example_lift3_lib :: lift3_lib where
  "example_lift3_lib = \<lparr>mem_in_size = 86, mem_out_size = 86, net3 = (\<lambda>f m. Some (replicate 42 2, replicate 344 1))\<rparr>"

definition example_lift_inputs :: lift_net_inputs where
  "example_lift_inputs = \<lparr>input_kpt_lcam = replicate 21 (v2 320 240), input_kpt_rcam = replicate 21 (v2 200 240),
     m_leftcam_x = replicate 21 0, m_leftcam_y = replicate 21 0, m_leftcam_z = replicate 21 1,
     m_rightcam_x = replicate 21 0, m_rightcam_y = replicate 21 0, m_rightcam_z = replicate 21 1,
     lift_timestamp = 1, lift_is_left = 1\<rparr>"


section \<open>GMLPLiftNimble\<close>

record nimble_out =
  svd_pt :: "vec3 list"
  shape_out :: real
  angle_out :: "real list"
  score_out :: real
  mem_out :: "real list"

record nimble_lib =
  nimble_svd :: svd3
  nimble_mem_in :: nat
  nimble_net :: "real list \<Rightarrow> real list \<Rightarrow> nimble_out option"

record lift_nimble =
  rot_left :: mat3
  rot_right :: mat3
  init_camera_info :: bool
  baseline_scale :: real
  nimble_left :: "real list"
  nimble_right :: "real list"
  nimble_left_time :: real
  nimble_right_time :: real
  hand_scale :: real

text \<open>The last field is the hand scale of \<open>GlobalPredictorService\<close>.\<close>

definition nimble_update_scale :: "real \<Rightarrow> lift_nimble \<Rightarrow> lift_nimble" where
  "nimble_update_scale x s = s\<lparr>hand_scale := (1 - 0.01) * hand_scale s + 0.01 * x\<rparr>"

definition nimble_set_camera_info :: "(vec3 \<Rightarrow> vec3 \<Rightarrow> mat3) \<Rightarrow> camera_model \<Rightarrow> lift_nimble \<Rightarrow> lift_nimble" where
  "nimble_set_camera_info from_two right s =
     (if init_camera_info s then s
      else case get_rotations_for_standard_stereo from_two (camera_to_world_xf right) of
        (rl, rr, b) \<Rightarrow> s\<lparr>rot_left := rl, rot_right := rr, init_camera_info := True, baseline_scale := b\<rparr>)"

definition compensateWithPiecewise :: "vec3 \<Rightarrow> vec3" where
  "compensateWithPiecewise t =
     (let x = vx t;
          t1 = t\<lparr>vz := vz t + 0.25 * x\<rparr>
      in if x > 0 then (if x < 0.3 then t1\<lparr>vx := x + 0.085 * x\<rparr> else t1\<lparr>vx := x + 0.1 * x\<rparr>)
         else if \<bar>x\<bar> < 0.3 then t1\<lparr>vx := x - 0.085 * x\<rparr> else t1\<lparr>vx := x - 0.1 * x\<rparr>)"

text \<open>Eigen's \<open>isZero\<close> compares every coefficient with its precision for floats.\<close>

definition is_zero :: "vec3 list \<Rightarrow> bool" where
  "is_zero ps = (\<forall>p\<in>set ps. \<bar>vx p\<bar> \<le> 0.00001 \<and> \<bar>vy p\<bar> \<le> 0.00001 \<and> \<bar>vz p\<bar> \<le> 0.00001)"

definition zip3 :: "real list \<Rightarrow> real list \<Rightarrow> real list \<Rightarrow> vec3 list option" where
  "zip3 xs ys zs = (if length xs < 21 \<or> length ys < 21 \<or> length zs < 21 then None
     else Some (map (\<lambda>i. v3 (xs ! i) (ys ! i) (zs ! i)) [0..<21]))"

definition nimble_rectify :: "mat3 \<Rightarrow> vec3 list \<Rightarrow> vec2 list option" where
  "nimble_rectify rot ps = (if is_zero ps then Some (map (\<lambda>p. v2 (vx p) (vy p)) ps) else rectify rot ps)"

definition nimble_feat :: "real \<Rightarrow> vec2 list \<Rightarrow> vec2 list \<Rightarrow> real list" where
  "nimble_feat left l r = concat (map2 (\<lambda>p q. [v2x p, v2y p, v2x q, v2y q, left]) l r)"

definition nimble_memory :: "nat \<Rightarrow> lift_net_inputs \<Rightarrow> lift_nimble \<Rightarrow> real list option" where
  "nimble_memory n inp s =
     (if lift_is_left inp \<noteq> 0 \<and> lift_timestamp inp - nimble_left_time s < reset_mem_time
      then (if n \<le> length (nimble_left s) then Some (take n (nimble_left s)) else None)
      else if lift_is_left inp = 0 \<and> lift_timestamp inp - nimble_right_time s < reset_mem_time
      then (if n \<le> length (nimble_right s) then Some (take n (nimble_right s)) else None)
      else Some (replicate n 0))"

definition nimble_preprocess :: "nimble_lib \<Rightarrow> lift_net_inputs \<Rightarrow> lift_nimble \<Rightarrow> (real list \<times> real list) option" where
  "nimble_preprocess lib inp s = do {
     lp \<leftarrow> zip3 (m_leftcam_x inp) (m_leftcam_y inp) (m_leftcam_z inp);
     rp \<leftarrow> zip3 (m_rightcam_x inp) (m_rightcam_y inp) (m_rightcam_z inp);
     l \<leftarrow> nimble_rectify (rot_left s) lp;
     r \<leftarrow> nimble_rectify (rot_right s) rp;
     m \<leftarrow> nimble_memory (nimble_mem_in lib) inp s;
     Some (nimble_feat (lift_is_left inp) l r, m)
   }"

definition svd_src_pt :: "vec3 list" where
  "svd_src_pt = [v3 0 0 0, v3 0.1 0 0, v3 0 0.1 0, v3 0 0 0.1, v3 (-0.07071068) (-0.07071068) 0,
     v3 (-0.07071068) 0 (-0.07071068), v3 0 (-0.07071068) (-0.07071068)]"

definition flip_x :: mat3 where
  "flip_x = (v3 (-1) 0 0, v3 0 1 0, v3 0 0 1)"

definition nimble_pose :: "svd3 \<Rightarrow> mat3 \<Rightarrow> real \<Rightarrow> vec3 list \<Rightarrow> iso" where
  "nimble_pose svd rot left pts =
     (let global_hand_pose = get_transform_with_svd svd svd_src_pt pts;
          global_translation = mat3_apply (mat3_inverse rot) (snd global_hand_pose);
          global_rotation = mat3_mult (mat3_inverse rot) (fst global_hand_pose)
      in (if left \<noteq> 0 then mat3_mult global_rotation flip_x else global_rotation, compensateWithPiecewise global_translation))"

definition standard_baseline :: real where
  "standard_baseline = 0.135"

definition nimble_keep_memory :: "lift_net_inputs \<Rightarrow> real list \<Rightarrow> lift_nimble \<Rightarrow> lift_nimble" where
  "nimble_keep_memory inp mo s =
     (if 0 < length mo \<and> length mo \<le> length (nimble_right s)
      then if lift_is_left inp \<noteq> 0
           then s\<lparr>nimble_left := mo @ drop (length mo) (nimble_left s), nimble_left_time := lift_timestamp inp\<rparr>
           else s\<lparr>nimble_right := mo @ drop (length mo) (nimble_right s), nimble_right_time := lift_timestamp inp\<rparr>
      else s)"

definition nimble_postprocess :: "nimble_lib \<Rightarrow> lift_net_inputs \<Rightarrow> nimble_out \<Rightarrow> lift_nimble
    \<Rightarrow> (lift_net_outputs \<times> lift_nimble) option" where
  "nimble_postprocess lib inp r s =
     (let (rot, pos) = nimble_pose (nimble_svd lib) (rot_left s) (lift_is_left inp) (svd_pt r);
          s = nimble_update_scale (shape_out r + 1) s
      in do {
        local_angles \<leftarrow> decode_hand_angle (nimble_svd lib) (take 171 (angle_out r));
        local_kpt \<leftarrow> decode_hand_joints (hand_scale s - 1) local_angles;
        Some (\<lparr>res3d = map (\<lambda>p. scale3 (baseline_scale s / standard_baseline) (add3 (mat3_apply rot p) pos)) local_kpt,
               kpt3d_score = 1 - score_out r\<rparr>,
              nimble_keep_memory inp (mem_out r) s)
      })"

definition nimble_inference :: "nimble_lib \<Rightarrow> lift_net_inputs \<Rightarrow> lift_nimble
    \<Rightarrow> (lift_net_outputs option \<times> lift_nimble) option" where
  "nimble_inference lib inp s = do {
     (feat, m) \<leftarrow> nimble_preprocess lib inp s;
     case nimble_net lib feat m of
       None \<Rightarrow> Some (None, s)
     | Some r \<Rightarrow> map_option (map_prod Some id) (nimble_postprocess lib inp r s)
   }"

fun nimble_run :: "nimble_lib \<Rightarrow> lift_net_inputs list \<Rightarrow> lift_nimble \<Rightarrow> lift_nimble option" where
  "nimble_run lib [] s = Some s"
| "nimble_run lib (i # js) s = Option.bind (nimble_inference lib i s) (\<lambda>(r, s1). nimble_run lib js s1)"

subsection \<open>The two memories\<close>

text \<open>What the inferences of the left hand see of a state.\<close>

definition left_view :: "lift_nimble \<Rightarrow> mat3 \<times> mat3 \<times> real list \<times> real \<times> nat" where
  "left_view s = (rot_left s, rot_right s, nimble_left s, nimble_left_time s, length (nimble_right s))"

lemma left_view_scale: "left_view (nimble_update_scale x s) = left_view s"
  by (simp add: left_view_def nimble_update_scale_def)

lemma left_view_keep:
  "left_view s = left_view t \<Longrightarrow> left_view (nimble_keep_memory i mo s) = left_view (nimble_keep_memory i mo t)"
  by (simp add: left_view_def nimble_keep_memory_def)

lemma left_view_keep_right: "lift_is_left i = 0 \<Longrightarrow> left_view (nimble_keep_memory i mo s) = left_view s"
  by (simp add: left_view_def nimble_keep_memory_def)

lemma nimble_postprocess_state:
  "nimble_postprocess lib i r s = Some (out, s') \<Longrightarrow>
   s' = nimble_keep_memory i (mem_out r) (nimble_update_scale (shape_out r + 1) s)"
  by (auto simp: nimble_postprocess_def Let_def bind_eq_Some_conv split: prod.splits)

lemma nimble_postprocess_defined:
  assumes "nimble_postprocess lib i r s = Some x"
  shows "\<exists>out. nimble_postprocess lib i r t =
    Some (out, nimble_keep_memory i (mem_out r) (nimble_update_scale (shape_out r + 1) t))"
proof -
  obtain a where a: "decode_hand_angle (nimble_svd lib) (take 171 (angle_out r)) = Some a"
    using assms by (auto simp: nimble_postprocess_def Let_def bind_eq_Some_conv split: prod.splits)
  have "length a \<ge> 171"
    using assms a by (auto simp: nimble_postprocess_def Let_def bind_eq_Some_conv decode_hand_joints_def split: prod.splits if_splits)
  with a show ?thesis
    by (auto simp: nimble_postprocess_def Let_def decode_hand_joints_def split: prod.splits)
qed

lemma right_inference_view:
  assumes "nimble_inference lib i s = Some (r, s')" and "lift_is_left i = 0"
  shows "left_view s' = left_view s"
  using assms
  by (auto simp: nimble_inference_def bind_eq_Some_conv left_view_keep_right left_view_scale
      dest!: nimble_postprocess_state split: option.splits)

lemma left_inference_view:
  assumes "nimble_inference lib i s = Some (r, s')" and "lift_is_left i \<noteq> 0" and "left_view s = left_view t"
  shows "\<exists>r' t'. nimble_inference lib i t = Some (r', t') \<and> left_view s' = left_view t'"
proof -
  have pre: "nimble_preprocess lib i s = nimble_preprocess lib i t"
    using assms(2,3) by (simp add: nimble_preprocess_def nimble_memory_def left_view_def cong: if_cong)
  obtain f m where fm: "nimble_preprocess lib i t = Some (f, m)"
    using assms(1) pre by (auto simp: nimble_inference_def bind_eq_Some_conv)
  show ?thesis
  proof (cases "nimble_net lib f m")
    case None
    with assms(1,3) pre fm show ?thesis by (auto simp: nimble_inference_def)
  next
    case (Some r1)
    obtain out where "nimble_postprocess lib i r1 s = Some (out, s')"
      using assms(1) pre fm Some by (auto simp: nimble_inference_def)
    from nimble_postprocess_state [OF this] nimble_postprocess_defined [OF this, of t] pre fm Some assms(3)
    show ?thesis by (auto simp: nimble_inference_def intro!: left_view_keep simp: left_view_scale)
  qed
qed

lemma nimble_run_left:
  "nimble_run lib js s = Some s' \<Longrightarrow> left_view s = left_view t \<Longrightarrow>
   \<exists>t'. nimble_run lib (filter (\<lambda>i. lift_is_left i \<noteq> 0) js) t = Some t' \<and> left_view s' = left_view t'"
proof (induction js arbitrary: s t)
  case (Cons i js)
  from Cons.prems(1) obtain r s1 where s1: "nimble_inference lib i s = Some (r, s1)" "nimble_run lib js s1 = Some s'"
    by (auto simp: bind_eq_Some_conv)
  show ?case
  proof (cases "lift_is_left i = 0")
    case True
    then show ?thesis using Cons.IH [OF s1(2), of t] right_inference_view [OF s1(1)] Cons.prems(2) by simp
  next
    case False
    obtain r' t1 where "nimble_inference lib i t = Some (r', t1)" "left_view s1 = left_view t1"
      using left_inference_view [OF s1(1) False Cons.prems(2)] by blast
    with Cons.IH [OF s1(2), of t1] False show ?thesis by simp
  qed
qed simp

text \<open>
  The nimble network keeps the hands apart: after any sequence of inferences of both
  hands, the recurrent memory of the left hand and its time are what the inferences of the left
  hand alone would have left, in the same order.
\<close>

lemma nimble_memory_isolated:
  assumes "nimble_run lib frames s = Some s'"
  shows "\<exists>t. nimble_run lib (filter (\<lambda>i. lift_is_left i \<noteq> 0) frames) s = Some t \<and>
    nimble_left t = nimble_left s' \<and> nimble_left_time t = nimble_left_time s'"
  using nimble_run_left [OF assms refl] by (auto simp: left_view_def)

definition example_nimble :: lift_nimble where
  "example_nimble = \<lparr>rot_left = mat3_identity, rot_right = mat3_identity, init_camera_info = True, baseline_scale = 0.135,
     nimble_left = replicate 105 0, nimble_right = replicate 105 0, nimble_left_time = 0, nimble_right_time = 0, hand_scale = 1\<rparr>"

definition example_nimble_lib :: nimble_lib where
  "example_nimble_lib = \<lparr>nimble_svd = (\<lambda>m. (m, v3 1 1 1, mat3_identity)), nimble_mem_in = 105,
     nimble_net = (\<lambda>f m. Some \<lparr>svd_pt = svd_src_pt, shape_out = 0, angle_out = concat (map (\<lambda>i. flat9 quarter_turn) [0..<19]),
        score_out = 0, mem_out = map (\<lambda>x. x + 1) m\<rparr>)\<rparr>"

lemma example_nimble_step:
  assumes "length (nimble_left s) = 105" and "length (nimble_right s) = 105" and "rot_left s = mat3_identity" "rot_right s = mat3_identity"
  shows "\<exists>r s'. nimble_inference example_nimble_lib (example_lift_inputs\<lparr>lift_is_left := b, lift_timestamp := t\<rparr>) s = Some (r, s') \<and>
    length (nimble_left s') = 105 \<and> length (nimble_right s') = 105 \<and> rot_left s' = mat3_identity \<and> rot_right s' = mat3_identity"
proof -
  let ?i = "example_lift_inputs\<lparr>lift_is_left := b, lift_timestamp := t\<rparr>"
  have z: "zip3 (replicate 21 0) (replicate 21 0) (replicate 21 1) = Some (replicate 21 (v3 0 0 1))"
    by (auto simp: zip3_def list_eq_iff_nth_eq)
  have "rectify mat3_identity (replicate 21 (v3 0 0 1)) = Some (replicate 21 (v2 0 0))"
    by (simp add: rectify_def homogeneous_def numeral_eq_Suc)
  moreover have "\<not> is_zero (replicate 21 (v3 0 0 1))" by (simp add: is_zero_def)
  moreover have "\<exists>m. nimble_memory 105 ?i s = Some m \<and> length m = 105"
    using assms(1,2) by (simp add: nimble_memory_def)
  moreover then obtain m where m: "nimble_memory 105 ?i s = Some m" "length m = 105" by blast
  ultimately obtain f where f: "nimble_preprocess example_nimble_lib ?i s = Some (f, m)"
    using assms(3,4) by (auto simp: nimble_preprocess_def nimble_rectify_def z example_lift_inputs_def example_nimble_lib_def)
  have len: "length (concat (map (\<lambda>i. flat9 quarter_turn) [0..<19])) = 171" by (simp add: length_concat comp_def sum_list_triv)
  then have "length (concat (map (\<lambda>i. flat9 (h i)) [0..<19])) = 171" for h
    by (simp add: length_concat comp_def sum_list_triv)
  then show ?thesis
    using f m assms len
    by (auto simp: nimble_inference_def nimble_postprocess_def example_nimble_lib_def decode_hand_angle_def decode_hand_joints_def
        Let_def nimble_keep_memory_def nimble_update_scale_def split: prod.splits)
qed

subsection \<open>The lifted hand\<close>

lemma orthogonal_flip_x: "orthogonal flip_x"
  by (simp add: orthogonal_def flip_x_def mat3_mult_def mat3_identity_def model_defs)

lemma nimble_pose_orthogonal:
  assumes "proper_rotation rot" and "is_svd (outer_prod (centred svd_src_pt) (centred pts)) (svd (outer_prod (centred svd_src_pt) (centred pts)))"
  shows "orthogonal (fst (nimble_pose svd rot left pts))"
proof -
  have "orthogonal (fst (get_transform_with_svd svd svd_src_pt pts))"
    using get_transform_proper [of svd_src_pt pts svd, OF assms(2)] by (simp add: proper_rotation_def)
  moreover have "orthogonal (mat3_inverse rot)"
    using assms(1) by (simp add: proper_rotation_def mat3_inverse_orthogonal orthogonal_transpose)
  ultimately show ?thesis by (simp add: nimble_pose_def Let_def orthogonal_mult orthogonal_flip_x)
qed

lemma decode_hand_angle_orthogonal:
  assumes "length x = 171" and "\<forall>i<19. is_svd (block9 i x) (svd (block9 i x))"
  shows "\<exists>y. decode_hand_angle svd x = Some y \<and> length y = 171 \<and> (\<forall>i<19. orthogonal (block9 i y))"
proof -
  define y where "y = concat (map (\<lambda>i. flat9 (nearest_rotation svd (block9 i x))) [0..<19])"
  have "decode_hand_angle svd x = Some y" using assms(1) by (simp add: decode_hand_angle_def y_def)
  moreover have "length y = 171" by (simp add: y_def length_concat comp_def sum_list_triv)
  moreover have "block9 i y = nearest_rotation svd (block9 i x)" if "i < 19" for i
    unfolding y_def using that by (rule block9_concat)
  ultimately show ?thesis using assms(2) nearest_rotation_proper by (auto simp: proper_rotation_def)
qed


definition zero_matrix :: mat3 where
  "zero_matrix = (v3 0 0 0, v3 0 0 0, v3 0 0 0)"

lemma outer_prod_zero: "outer_prod xs (replicate n (v3 0 0 0)) = zero_matrix"
proof (induction xs arbitrary: n)
  case Nil
  then show ?case by (simp add: outer_prod_def zero_matrix_def)
next
  case (Cons x xs)
  then show ?case
    by (cases n) (simp_all add: outer_prod_Cons zero_matrix_def model_defs, simp add: outer_prod_def)
qed


end
