(* ===== verification/Lift3d.thy ===== *)
theory Lift3d
  imports LiftNets Joints26 Boxes
begin

text \<open>
  The calculators between the networks and the world coordinates:
  \<^verbatim>\<open>calculator/hand_lift_calculator.cpp\<close> for a hand seen by both cameras,
  \<^verbatim>\<open>mono_hand_kpt3d_nimble_DLT_flora_calculator.cpp\<close> for a hand seen by one, and
  \<^verbatim>\<open>convert_to_world_calculator.cpp\<close> and \<^verbatim>\<open>standardize_keypoints_calculator.cpp\<close> behind them.
  The network is the argument \<open>infer\<close> over its own state. None stands for an access outside a
  vector, a null pointer, or a score that is not a number.
\<close>

section \<open>What the calculators read\<close>

record 'q lift_env =
  le_lib :: camera_lib
  le_left :: camera_model
  le_right :: "camera_model option"
  le_virtual :: "nat \<Rightarrow> camera_model"
  le_rotation :: "'q \<Rightarrow> mat3"
  le_coords :: coord_service
  le_memory :: "vec3 list"

definition SmoothTotalFrames :: int where
  "SmoothTotalFrames = 30"

type_synonym 's lift_infer = "lift_net_inputs \<Rightarrow> 's \<Rightarrow> (lift_net_outputs option \<times> 's) option"

section \<open>Opening\<close>

datatype lift_open_error = Aborted | InvalidArgument | OutOfRange

definition lift_open :: "(string \<Rightarrow> 'n option) \<Rightarrow> (camera_model \<Rightarrow> camera_model \<Rightarrow> 'n \<Rightarrow> 'n) \<Rightarrow> string \<Rightarrow> camera_model list
    \<Rightarrow> lift_open_error + 'n \<times> camera_model \<times> camera_model" where
  "lift_open create set_camera_info model_name cam_info =
     (if model_name \<noteq> ''3d_lift'' \<and> model_name \<noteq> ''3d_liftnimble'' \<and> model_name \<noteq> ''3d_lift_ella'' then Inl Aborted
      else case create model_name of
        None \<Rightarrow> Inl InvalidArgument
      | Some netalgo \<Rightarrow>
          if length cam_info < 2 then Inl OutOfRange
          else Inr (set_camera_info (cam_info ! 0) (cam_info ! 1) netalgo, cam_info ! 0, cam_info ! 1))"

section \<open>The inputs of the network\<close>

definition empty_lift_inputs :: "real \<Rightarrow> real \<Rightarrow> lift_net_inputs" where
  "empty_lift_inputs timestamp left =
     \<lparr>input_kpt_lcam = [], input_kpt_rcam = [],
      m_leftcam_x = replicate 21 0, m_leftcam_y = replicate 21 0, m_leftcam_z = replicate 21 0,
      m_rightcam_x = replicate 21 0, m_rightcam_y = replicate 21 0, m_rightcam_z = replicate 21 0,
      lift_timestamp = timestamp, lift_is_left = left\<rparr>"

definition put_points :: "vec3 list \<Rightarrow> vec3 list \<Rightarrow> lift_net_inputs \<Rightarrow> lift_net_inputs" where
  "put_points l r inp = inp
     \<lparr>m_leftcam_x := map vx l, m_leftcam_y := map vy l, m_leftcam_z := map vz l,
      m_rightcam_x := map vx r, m_rightcam_y := map vy r, m_rightcam_z := map vz r\<rparr>"

definition undistorted_points :: "'q lift_env \<Rightarrow> camera_model \<Rightarrow> vec2 list \<Rightarrow> vec3 list" where
  "undistorted_points env cam kpt =
     map (persp1 \<circ> from_window (intrinsics cam)) (take 21 (undistort (le_lib env) cam kpt))"

definition virtual_points :: "camera_model \<Rightarrow> vec2 list \<Rightarrow> vec3 list" where
  "virtual_points vc kpt = map (iso_apply (camera_to_world_xf vc) \<circ> persp1 \<circ> from_window (intrinsics vc)) (take 21 kpt)"

text \<open>With one virtual camera only an error is logged and the zeros remain.\<close>

definition lift_inputs :: "'q lift_env \<Rightarrow> real \<Rightarrow> real \<Rightarrow> vec2 list \<Rightarrow> vec2 list \<Rightarrow> nat option \<Rightarrow> nat option
    \<Rightarrow> lift_net_inputs option" where
  "lift_inputs env timestamp left lk rk lv rv =
     (case (lv, rv) of
        (None, None) \<Rightarrow> do {
          r_cam \<leftarrow> le_right env;
          if length lk < 21 \<or> length rk < 21 then None
          else Some (put_points (undistorted_points env (le_left env) lk) (undistorted_points env r_cam rk)
                       (empty_lift_inputs timestamp left))
        }
      | (Some a, Some b) \<Rightarrow>
          if length lk < 21 \<or> length rk < 21 then None
          else Some (put_points (virtual_points (le_virtual env a) lk) (virtual_points (le_virtual env b) rk)
                       (empty_lift_inputs timestamp left))
      | _ \<Rightarrow> Some (empty_lift_inputs timestamp left))"

section \<open>The blend between mono and bino\<close>

text \<open>
  \<open>other\<close> is the source that starts the blend, \<open>own\<close> the one that continues it; \<open>pre\<close> is the hand
  of the last frame, in world coordinates.
\<close>

definition frames_to_smooth :: "cam_type \<Rightarrow> cam_type \<Rightarrow> bool \<Rightarrow> single_hand_data \<Rightarrow> int" where
  "frames_to_smooth own other pre_valid pre =
     (if pre_valid \<and> source pre = other then SmoothTotalFrames
      else if pre_valid \<and> source pre = own then (if smooth_frames pre > 0 then smooth_frames pre else 0)
      else 0)"

definition shift_all :: "vec3 \<Rightarrow> vec3 list \<Rightarrow> vec3 list" where
  "shift_all d ps = map (\<lambda>p. add3 p d) ps"

definition smooth_hand :: "'q lift_env \<Rightarrow> cam_type \<Rightarrow> cam_type \<Rightarrow> 'q nr_transform \<Rightarrow> bool \<Rightarrow> single_hand_data
    \<Rightarrow> single_hand_data \<Rightarrow> single_hand_data option" where
  "smooth_hand env own other hp pre_valid pre h =
     (let n = frames_to_smooth own other pre_valid pre;
          h = h\<lparr>smooth_frames := n\<rparr>
      in if n > 0 then
           (let kpt3d_cam_pre = recal_lcam_kpt3d_cv_with_new_headpose (le_rotation env) (le_coords env) hp (kpt3d pre);
                delta = real_of_int n / real_of_int SmoothTotalFrames
            in if kpt3d_cam_pre = [] \<or> length (kpt3d h) < 26 then None
               else Some (h\<lparr>kpt3d := shift_all (scale3 delta (sub3 (kpt3d_cam_pre ! 0) (kpt3d h ! 0))) (kpt3d h),
                            smooth_frames := n - 1\<rparr>))
         else Some h)"

section \<open>HandLiftCalculator\<close>

definition bino_score :: "'q lift_env \<Rightarrow> vec3 list \<Rightarrow> vec2 list \<Rightarrow> vec2 list \<Rightarrow> real option" where
  "bino_score env ks lk rk = do {
     r_cam \<leftarrow> le_right env;
     l \<leftarrow> those (world_to_window (le_lib env) (le_left env) ks);
     r \<leftarrow> those (world_to_window (le_lib env) r_cam ks);
     if length lk < 18 \<or> length rk < 18 \<or> length ks < 18 then None
     else compute_score_with_reprojection ks lk rk (\<lambda>_. l) (\<lambda>_. r)
   }"

definition put_kpt2d :: "'q lift_env \<Rightarrow> vec2 list \<Rightarrow> vec2 list \<Rightarrow> nat option \<Rightarrow> nat option \<Rightarrow> single_hand_data
    \<Rightarrow> single_hand_data option" where
  "put_kpt2d env lk rk lv rv h =
     (if lv \<noteq> None \<and> rv \<noteq> None then do {
        r_cam \<leftarrow> le_right env;
        l \<leftarrow> those (world_to_window (le_lib env) (le_left env) (kpt3d h));
        r \<leftarrow> those (world_to_window (le_lib env) r_cam (kpt3d h));
        Some (h\<lparr>kpt2d_lcam := l, kpt2d_rcam := r\<rparr>)
      } else Some (h\<lparr>kpt2d_lcam := lk, kpt2d_rcam := rk\<rparr>))"

definition lift_hand :: "'q lift_env \<Rightarrow> 's lift_infer \<Rightarrow> bool \<Rightarrow> real \<Rightarrow> bool \<Rightarrow> 'q nr_transform
    \<Rightarrow> vec2 list \<Rightarrow> vec2 list \<Rightarrow> nat option \<Rightarrow> nat option \<Rightarrow> bool \<Rightarrow> single_hand_data \<Rightarrow> 's
    \<Rightarrow> ((bool \<times> single_hand_data) \<times> 's) option" where
  "lift_hand env infer nimble timestamp left hp lk rk lv rv pre_valid pre net = do {
     inp \<leftarrow> lift_inputs env timestamp (if left then 1 else 0) lk rk lv rv;
     (out, net) \<leftarrow> infer inp net;
     case out of
       None \<Rightarrow> Some ((False, new_single_hand_data), net)
     | Some lift_outputs \<Rightarrow> do {
         ks \<leftarrow> convert_to_26points (le_memory env) (res3d lift_outputs) left;
         sc \<leftarrow> (if nimble then Some (kpt3d_score lift_outputs) else bino_score env ks lk rk);
         h \<leftarrow> smooth_hand env CamBino CamMono hp pre_valid pre
                (new_single_hand_data\<lparr>source := CamBino, kpt3d := ks, score := sc, constrained := nimble\<rparr>);
         h \<leftarrow> put_kpt2d env lk rk lv rv h;
         Some ((True, h), net)
       }
   }"

definition lift_process :: "'q lift_env \<Rightarrow> 's lift_infer \<Rightarrow> string \<Rightarrow> real \<Rightarrow> 'q nr_transform \<Rightarrow> hands_data \<Rightarrow> kpt2d_internal
    \<Rightarrow> 's \<Rightarrow> (hands_data \<times> 's) option" where
  "lift_process env infer model_name timestamp hp pre k net = do {
     let nimble = (model_name = ''3d_liftnimble'');
     ((lv, l), net) \<leftarrow> (if k_lhand_lcam_valid k \<and> k_lhand_rcam_valid k
        then lift_hand env infer nimble timestamp True hp (lhand_lcam_kpt k) (lhand_rcam_kpt k)
               (lhand_lcam_virtual_camera k) (lhand_rcam_virtual_camera k) (lhand_valid pre) (left_hand pre) net
        else Some ((False, new_single_hand_data), net));
     ((rv, r), net) \<leftarrow> (if k_rhand_rcam_valid k \<and> k_rhand_lcam_valid k
        then lift_hand env infer nimble timestamp False hp (rhand_lcam_kpt k) (rhand_rcam_kpt k)
               (rhand_lcam_virtual_camera k) (rhand_rcam_virtual_camera k) (rhand_valid pre) (right_hand pre) net
        else Some ((False, new_single_hand_data), net));
     Some (\<lparr>left_hand = l, right_hand = r, lhand_valid = lv, rhand_valid = rv\<rparr>, net)
   }"

section \<open>MonoHandKpt3DNimbleFloraCalculator\<close>

record mono_nimble_inputs =
  pred_x :: "real list"
  pred_y :: "real list"
  raw_feats :: "real list"
  nimble_is_left :: bool
  virtual_camera_in :: nat

record flora_options =
  fo_height :: int
  fo_width :: int
  fo_model_name :: string
  fo_pcl_able :: bool
  fo_expand_ratio :: real

definition flora_open :: "(string \<Rightarrow> 'n option) \<Rightarrow> flora_options \<Rightarrow> camera_model list
    \<Rightarrow> lift_open_error + 'n \<times> real \<times> camera_model option \<times> camera_model option" where
  "flora_open create opt cam_info =
     (case create (fo_model_name opt) of
        None \<Rightarrow> Inl InvalidArgument
      | Some netalgo \<Rightarrow>
          Inr (netalgo, if fo_expand_ratio opt > 0 then fo_expand_ratio opt else 1.3,
               if cam_info = [] then None else Some (cam_info ! 0),
               if length cam_info = 2 then Some (cam_info ! 1) else None))"

type_synonym 's mono_infer = "mono_nimble_inputs \<Rightarrow> 's \<Rightarrow> (lift_net_outputs option \<times> 's) option"

text \<open>
  A hand of one image: \<open>to_left\<close> takes the joints into the frame of the left camera (nothing
  for the left one), \<open>cam\<close> is the camera that sees the hand, \<open>put2d\<close> sets its keypoints.
\<close>

definition flora_hand :: "'q lift_env \<Rightarrow> 's mono_infer \<Rightarrow> mono_nimble_inputs \<Rightarrow> 'q nr_transform \<Rightarrow> vec2 list \<Rightarrow> nat
    \<Rightarrow> camera_model option \<Rightarrow> (vec2 list \<Rightarrow> single_hand_data \<Rightarrow> single_hand_data) \<Rightarrow> bool \<Rightarrow> single_hand_data \<Rightarrow> 's
    \<Rightarrow> ((bool \<times> single_hand_data) \<times> 's) option" where
  "flora_hand env infer inp hp kpt v cam put2d pre_valid pre net = do {
     (out, net) \<leftarrow> infer inp net;
     case out of
       None \<Rightarrow> Some ((False, new_single_hand_data), net)
     | Some outputs \<Rightarrow> do {
         ks \<leftarrow> convert_to_26points (le_memory env) (res3d outputs) (nimble_is_left inp);
         c \<leftarrow> cam;
         let ks = (if nimble_is_left inp then ks else eye_to_world c ks);
         h \<leftarrow> smooth_hand env CamMono CamBino hp pre_valid pre
                (new_single_hand_data\<lparr>source := CamMono, score := kpt3d_score outputs + 0.1, kpt3d := ks\<rparr>);
         let vc = le_virtual env v;
         k2 \<leftarrow> those (eye_to_window (le_lib env) c (eye_to_world vc (window_to_eye (le_lib env) vc kpt)));
         Some ((True, put2d k2 h), net)
       }
   }"

definition flora_inputs :: "real list \<Rightarrow> real list \<Rightarrow> real list \<Rightarrow> bool \<Rightarrow> nat \<Rightarrow> mono_nimble_inputs" where
  "flora_inputs x y f left v = \<lparr>pred_x = x, pred_y = y, raw_feats = f, nimble_is_left = left, virtual_camera_in = v\<rparr>"

definition flora_process :: "'q lift_env \<Rightarrow> 's mono_infer \<Rightarrow> 'q nr_transform \<Rightarrow> hands_data \<Rightarrow> kpt2d_internal \<Rightarrow> 's
    \<Rightarrow> (hands_data \<times> 's) option" where
  "flora_process env infer hp pre k net = do {
     ((lv, l), net) \<leftarrow> (case (k_lhand_lcam_valid k \<and> \<not> k_lhand_rcam_valid k, lhand_lcam_virtual_camera k) of
        (True, Some v) \<Rightarrow> flora_hand env infer
            (flora_inputs (lhand_lcam_pred_x k) (lhand_lcam_pred_y k) (lhand_lcam_raw_feats k) True v)
            hp (lhand_lcam_kpt k) v (Some (le_left env)) (\<lambda>k2 h. h\<lparr>kpt2d_lcam := k2\<rparr>) (lhand_valid pre) (left_hand pre) net
      | _ \<Rightarrow> Some ((False, new_single_hand_data), net));
     ((rv, r), net) \<leftarrow> (case (k_rhand_rcam_valid k \<and> \<not> k_rhand_lcam_valid k, rhand_rcam_virtual_camera k) of
        (True, Some v) \<Rightarrow> flora_hand env infer
            (flora_inputs (rhand_rcam_pred_x k) (rhand_rcam_pred_y k) (rhand_rcam_raw_feats k) False v)
            hp (rhand_rcam_kpt k) v (le_right env) (\<lambda>k2 h. h\<lparr>kpt2d_rcam := k2\<rparr>) (rhand_valid pre) (right_hand pre) net
      | _ \<Rightarrow> Some ((False, new_single_hand_data), net));
     Some (\<lparr>left_hand = l, right_hand = r, lhand_valid = lv, rhand_valid = rv\<rparr>, net)
   }"

section \<open>Behind the networks\<close>

definition transfer_from_cvL_to_world :: "('q \<Rightarrow> mat3) \<Rightarrow> coord_service \<Rightarrow> 'q nr_transform \<Rightarrow> vec3 list \<Rightarrow> vec3 list" where
  "transfer_from_cvL_to_world rot s headpose points_lcam_cv =
     (let points_lcam_gl = transferCVToGL s points_lcam_cv;
          points_head = transferLeftCamToHead s points_lcam_gl
      in transferHeadToWorld rot headpose points_head)"

definition world_hand :: "('q \<Rightarrow> mat3) \<Rightarrow> coord_service \<Rightarrow> 'q nr_transform \<Rightarrow> bool \<Rightarrow> single_hand_data \<Rightarrow> single_hand_data" where
  "world_hand rot s hp valid h =
     (if valid then h\<lparr>kpt3d := transfer_from_cvL_to_world rot s hp (kpt3d h)\<rparr> else h)"

text \<open>Nothing is emitted when one of the two packets is missing.\<close>

definition convert_to_world_process :: "('q \<Rightarrow> mat3) \<Rightarrow> coord_service \<Rightarrow> 'q nr_transform option \<Rightarrow> hands_data option
    \<Rightarrow> hands_data option" where
  "convert_to_world_process rot s headpose input =
     (case (headpose, input) of
        (Some hp, Some d) \<Rightarrow> Some (d\<lparr>left_hand := world_hand rot s hp (lhand_valid d) (left_hand d),
                                    right_hand := world_hand rot s hp (rhand_valid d) (right_hand d)\<rparr>)
      | _ \<Rightarrow> None)"

text \<open>The output, and what becomes the service's \<open>last_kpt3d_world\<close>.\<close>

definition standardize_process :: "hands_data \<Rightarrow> hand_gesture \<Rightarrow> hand_gesture \<Rightarrow> hands_data \<times> hands_data" where
  "standardize_process kpt_data lhand_gesture rhand_gesture =
     (\<lparr>left_hand = (if lhand_valid kpt_data then (left_hand kpt_data)\<lparr>gesture := lhand_gesture\<rparr> else new_single_hand_data),
       right_hand = (if rhand_valid kpt_data then (right_hand kpt_data)\<lparr>gesture := rhand_gesture\<rparr> else new_single_hand_data),
       lhand_valid = lhand_valid kpt_data, rhand_valid = rhand_valid kpt_data\<rparr>, kpt_data)"

text \<open>
  The boxes of the hands in both images from their joints in the world
  (\<open>reproj_bbox_with_new_headpose\<close> of \<^verbatim>\<open>common/NR_Transfer.cpp\<close>, which nothing calls); the first argument
  of \<open>kpts_to_bbox\<close> holds what a fresh \<open>DetectRect\<close> holds.
\<close>

definition reproj_bbox_with_new_headpose :: "camera_lib \<Rightarrow> ('q \<Rightarrow> mat3) \<Rightarrow> coord_service \<Rightarrow> detect_rect \<Rightarrow> camera_model
    \<Rightarrow> camera_model \<Rightarrow> 'q nr_transform \<Rightarrow> vec3 list \<Rightarrow> (detect_rect \<times> detect_rect) option" where
  "reproj_bbox_with_new_headpose lib rot s fresh lcam rcam extrinsics_world points_3d = do {
     let kpt3d_cv_lcam = recal_lcam_kpt3d_cv_with_new_headpose rot s extrinsics_world points_3d;
     let kpt3d_cv_rcam = lcam_cv_to_rcam_cv s kpt3d_cv_lcam;
     kpt2d_lcam \<leftarrow> those (eye_to_window lib lcam kpt3d_cv_lcam);
     kpt2d_rcam \<leftarrow> those (eye_to_window lib rcam kpt3d_cv_rcam);
     Some (kpts_to_bbox fresh kpt2d_lcam, kpts_to_bbox fresh kpt2d_rcam)
   }"

section \<open>Networks that read the pixels\<close>

text \<open>
  \<open>GMLPLiftNet\<close> and \<open>GMLPLiftNet3\<close> normalise \<open>input_kpt_lcam\<close> and \<open>input_kpt_rcam\<close>, which the
  calculator leaves empty.
\<close>

locale pixel_net =
  fixes infer :: "lift_net_inputs \<Rightarrow> 's \<Rightarrow> (lift_net_outputs option \<times> 's) option"
  assumes pixels_needed: "length (input_kpt_lcam i) < 21 \<Longrightarrow> infer i s = None"
begin

lemma lift_hand_undefined: "lift_hand env infer nimble timestamp left hp lk rk lv rv pre_valid pre net = None"
proof (cases "lift_inputs env timestamp (if left then 1 else 0) lk rk lv rv")
  case (Some inp)
  then have "input_kpt_lcam inp = []"
    by (auto simp: lift_inputs_def bind_eq_Some_conv put_points_def empty_lift_inputs_def split: option.splits if_splits)
  with Some show ?thesis by (simp add: lift_hand_def pixels_needed)
qed (simp add: lift_hand_def)

lemma lift_process_undefined:
  assumes "(k_lhand_lcam_valid k \<and> k_lhand_rcam_valid k) \<or> (k_rhand_lcam_valid k \<and> k_rhand_rcam_valid k)"
  shows "lift_process env infer name timestamp hp pre k net = None"
  using assms by (auto simp: lift_process_def lift_hand_undefined)

end

interpretation ella_net: pixel_net "lift_inference net True packed"
  by unfold_locales (simp add: lift_inference_def lift_preprocess_def)

interpretation v3_net: pixel_net "lift3_inference lib"
  by unfold_locales (simp add: lift3_inference_def lift3_preprocess_def)

text \<open>
  Two of the three lifting models cannot run: with \<open>3d_lift\<close> or \<open>3d_lift_ella\<close> the calculator
  reads outside an empty vector at the first hand that both cameras see, whatever the frame
  and the state of the network.
\<close>

lemma pixel_models_read_nothing:
  assumes "(k_lhand_lcam_valid k \<and> k_lhand_rcam_valid k) \<or> (k_rhand_lcam_valid k \<and> k_rhand_rcam_valid k)"
  shows "lift_process env (lift3_inference lib) ''3d_lift'' t hp pre k s = None \<and>
    lift_process env (lift_inference net True packed) ''3d_lift_ella'' t hp pre k n = None"
  using v3_net.lift_process_undefined [OF assms] ella_net.lift_process_undefined [OF assms] by blast

definition example_env :: "unit lift_env" where
  "example_env = \<lparr>le_lib = \<lparr>radial_undistort = (\<lambda>k p. p), fisheye_undistort = (\<lambda>k p. p),
       fisheye624_distort = (\<lambda>k p. p), fisheye624_undistort = (\<lambda>k p. p)\<rparr>,
     le_left = example_camera, le_right = Some example_right_camera, le_virtual = (\<lambda>_. example_camera),
     le_rotation = (\<lambda>_. mat3_identity), le_coords = example_coords, le_memory = replicate 26 (v3 0 0 0)\<rparr>"

definition example_kpt2d :: kpt2d_internal where
  "example_kpt2d = \<lparr>lhand_lcam_kpt = replicate 21 (v2 320 240), lhand_rcam_kpt = replicate 21 (v2 200 240),
     rhand_lcam_kpt = [], rhand_rcam_kpt = [], lhand_lcam_rdepth = [], lhand_rcam_rdepth = [],
     rhand_lcam_rdepth = [], rhand_rcam_rdepth = [], lhand_lcam_virtual_camera = None,
     lhand_rcam_virtual_camera = None, rhand_lcam_virtual_camera = None, rhand_rcam_virtual_camera = None,
     k_lhand_lcam_valid = True, k_lhand_rcam_valid = True, k_rhand_lcam_valid = False, k_rhand_rcam_valid = False,
     lhand_hold_label = False, rhand_hold_label = False, lhand_lcam_raw_feats = [], lhand_lcam_pred_x = [],
     lhand_lcam_pred_y = [], rhand_rcam_raw_feats = [], rhand_rcam_pred_x = [], rhand_rcam_pred_y = []\<rparr>"

section \<open>One virtual camera\<close>

text \<open>
  A hand with a virtual camera in one image only is lifted from nothing: the error is logged,
  but the network still runs, on zeros, and the joints and the score of the hand are the
  same whatever the keypoints of the two images are.
\<close>

lemma mismatch_ignores_keypoints:
  assumes "(lv = None) \<noteq> (rv = None)"
  shows "map_option (\<lambda>((v, h), n). (v, kpt3d h, score h, n)) (lift_hand env infer True t left hp lk rk lv rv pv pre net) =
    map_option (\<lambda>((v, h), n). (v, kpt3d h, score h, n)) (lift_hand env infer True t left hp lk' rk' lv rv pv pre net)"
proof -
  have "lift_inputs env t l lk rk lv rv = lift_inputs env t l lk' rk' lv rv" for l
    using assms by (auto simp: lift_inputs_def split: option.splits)
  moreover have "put_kpt2d env lk rk lv rv h = Some (h\<lparr>kpt2d_lcam := lk, kpt2d_rcam := rk\<rparr>)" for lk rk h
    using assms by (auto simp: put_kpt2d_def)
  ultimately show ?thesis
    by (simp add: lift_hand_def split: bind_splits option.splits)
qed

section \<open>The blend over the frames\<close>

text \<open>One frame: the blend in the camera, and the world coordinates that the next frame finds.\<close>

definition blend_frame :: "'q lift_env \<Rightarrow> cam_type \<Rightarrow> cam_type \<Rightarrow> 'q nr_transform \<times> vec3 list \<Rightarrow> single_hand_data
    \<Rightarrow> single_hand_data option" where
  "blend_frame env own other f pre =
     map_option (world_hand (le_rotation env) (le_coords env) (fst f) True)
       (smooth_hand env own other (fst f) True pre (new_single_hand_data\<lparr>source := own, kpt3d := snd f\<rparr>))"

fun blend_frames :: "'q lift_env \<Rightarrow> cam_type \<Rightarrow> cam_type \<Rightarrow> ('q nr_transform \<times> vec3 list) list \<Rightarrow> single_hand_data
    \<Rightarrow> single_hand_data option" where
  "blend_frames env own other [] pre = Some pre"
| "blend_frames env own other (f # fs) pre = Option.bind (blend_frame env own other f pre) (blend_frames env own other fs)"

lemma blend_frames_append:
  "blend_frames env own other (fs @ gs) pre = Option.bind (blend_frames env own other fs pre) (blend_frames env own other gs)"
  by (induction fs arbitrary: pre) (auto split: bind_splits)

lemma length_recal [simp]: "length (recal_lcam_kpt3d_cv_with_new_headpose r s hp ps) = length ps"
  by (simp add: recal_lcam_kpt3d_cv_with_new_headpose_def Let_def transferGLtoCV_def transferHeadToLeftCam_def
      transferWorldToHead_def transform_points_def)

lemma length_to_world [simp]: "length (transfer_from_cvL_to_world r s hp ps) = length ps"
  by (simp add: transfer_from_cvL_to_world_def Let_def transferCVToGL_def transferLeftCamToHead_def
      transferHeadToWorld_def transform_points_def)

text \<open>The step of a blend with \<open>n\<close> frames left.\<close>

lemma smooth_hand_step:
  assumes "frames_to_smooth own other pv pre = n" and "0 < n" and "kpt3d pre \<noteq> []" and "26 \<le> length (kpt3d h)"
  shows "smooth_hand env own other hp pv pre h = Some (h\<lparr>smooth_frames := n - 1,
    kpt3d := shift_all (scale3 (real_of_int n / 30) (sub3 (recal_lcam_kpt3d_cv_with_new_headpose (le_rotation env) (le_coords env) hp (kpt3d pre) ! 0)
       (kpt3d h ! 0))) (kpt3d h)\<rparr>)"
proof -
  have "recal_lcam_kpt3d_cv_with_new_headpose (le_rotation env) (le_coords env) hp (kpt3d pre) \<noteq> []"
    using assms(3) length_recal length_0_conv by metis
  with assms show ?thesis by (simp add: smooth_hand_def Let_def SmoothTotalFrames_def)
qed

lemma smooth_hand_none:
  "frames_to_smooth own other pv pre = 0 \<Longrightarrow> smooth_hand env own other hp pv pre h = Some (h\<lparr>smooth_frames := 0\<rparr>)"
  by (simp add: smooth_hand_def)

lemma frames_to_smooth_own:
  "own \<noteq> other \<Longrightarrow> source pre = own \<Longrightarrow> 0 \<le> smooth_frames pre \<Longrightarrow> frames_to_smooth own other True pre = smooth_frames pre"
  by (auto simp: frames_to_smooth_def)

lemma shift_all_length [simp]: "length (shift_all d ps) = length ps"
  by (simp add: shift_all_def)

lemma blend_frame_step:
  assumes "frames_to_smooth own other True pre = n" and "0 < n" and "kpt3d pre \<noteq> []" and "26 \<le> length (snd f)"
  shows "\<exists>h. blend_frame env own other f pre = Some h \<and> source h = own \<and> smooth_frames h = n - 1 \<and> 26 \<le> length (kpt3d h)"
proof -
  let ?h = "new_single_hand_data\<lparr>source := own, kpt3d := snd f\<rparr>"
  have "26 \<le> length (kpt3d ?h)" using assms(4) by simp
  from smooth_hand_step [OF assms(1-3) this, of env "fst f"] show ?thesis
    using assms(4) by (simp add: blend_frame_def world_hand_def)
qed

lemma blend_frames_count:
  assumes "own \<noteq> other"
  shows "frames_to_smooth own other True pre = int m \<Longrightarrow> kpt3d pre \<noteq> [] \<Longrightarrow> fs \<noteq> [] \<Longrightarrow> length fs \<le> m \<Longrightarrow>
    \<forall>f\<in>set fs. 26 \<le> length (snd f) \<Longrightarrow>
    \<exists>h. blend_frames env own other fs pre = Some h \<and> source h = own \<and> smooth_frames h = int m - int (length fs) \<and> 26 \<le> length (kpt3d h)"
proof (induction fs arbitrary: pre m)
  case (Cons f fs)
  have n: "0 < int m" using Cons.prems(4) by simp
  have "26 \<le> length (snd f)" using Cons.prems(5) by simp
  from blend_frame_step [OF Cons.prems(1) n Cons.prems(2) this] obtain h where
    h: "blend_frame env own other f pre = Some h" "source h = own" "smooth_frames h = int m - 1" "26 \<le> length (kpt3d h)"
    by blast
  show ?case
  proof (cases "fs = []")
    case True
    with h show ?thesis by simp
  next
    case False
    have "frames_to_smooth own other True h = int (m - 1)"
      using frames_to_smooth_own [OF assms h(2)] h(3) Cons.prems(4) by (simp add: of_nat_diff)
    moreover have "kpt3d h \<noteq> []" using h(4) by auto
    moreover have "length fs \<le> m - 1" using Cons.prems(4) by simp
    moreover have "\<forall>f\<in>set fs. 26 \<le> length (snd f)" using Cons.prems(5) by simp
    ultimately have "\<exists>h'. blend_frames env own other fs h = Some h' \<and> source h' = own \<and>
        smooth_frames h' = int (m - 1) - int (length fs) \<and> 26 \<le> length (kpt3d h')"
      using Cons.IH False by blast
    with h(1) Cons.prems(4) show ?thesis by (auto simp: of_nat_diff)
  qed
qed simp

text \<open>
  The blend ends: after a change between one and two cameras, with any head poses and any
  joints of the network, the calculators do return in each of the next 30 frames, the frames left
  count down from 29 to 0, and in the frame after these the joints are the network's, unchanged.
\<close>

lemma blend_ends:
  assumes "own \<noteq> other" and "source pre = other" and "kpt3d pre \<noteq> []" and "length fs = 30"
    and "\<forall>f\<in>set fs. 26 \<le> length (snd f)"
  shows "(\<forall>n. 0 < n \<and> n \<le> 30 \<longrightarrow> (\<exists>h. blend_frames env own other (take n fs) pre = Some h \<and> smooth_frames h = 30 - int n)) \<and>
    blend_frames env own other (fs @ [(hp, ks)]) pre =
      Some (world_hand (le_rotation env) (le_coords env) hp True (new_single_hand_data\<lparr>source := own, kpt3d := ks\<rparr>))"
proof -
  have start: "frames_to_smooth own other True pre = int 30"
    using assms(2) by (simp add: frames_to_smooth_def SmoothTotalFrames_def)
  have run: "\<exists>h. blend_frames env own other (take n fs) pre = Some h \<and> source h = own \<and> smooth_frames h = 30 - int n"
    if "0 < n" "n \<le> 30" for n
  proof -
    have "take n fs \<noteq> []" using that assms(4) by (cases fs) auto
    moreover have "\<forall>f\<in>set (take n fs). 26 \<le> length (snd f)" using assms(5) by (meson in_set_takeD)
    ultimately show ?thesis
      using blend_frames_count [OF assms(1) start assms(3), of "take n fs" env] that assms(4) by auto
  qed
  from run [of 30] assms(4) obtain h where h: "blend_frames env own other fs pre = Some h" "source h = own" "smooth_frames h = 0"
    by auto
  have "frames_to_smooth own other True h = 0" using frames_to_smooth_own [OF assms(1) h(2)] h(3) by simp
  then have "blend_frame env own other (hp, ks) h =
      Some (world_hand (le_rotation env) (le_coords env) hp True (new_single_hand_data\<lparr>source := own, kpt3d := ks\<rparr>))"
    by (simp add: blend_frame_def smooth_hand_none) (simp add: new_single_hand_data_def)
  with h(1) have "blend_frames env own other (fs @ [(hp, ks)]) pre =
      Some (world_hand (le_rotation env) (le_coords env) hp True (new_single_hand_data\<lparr>source := own, kpt3d := ks\<rparr>))"
    by (simp add: blend_frames_append)
  with run show ?thesis by blast
qed

definition still_head :: "unit nr_transform" where
  "still_head = \<lparr>nr_rotation = (), nr_position = v3 0 0 0\<rparr>"

definition old_hand :: single_hand_data where
  "old_hand = new_single_hand_data\<lparr>source := CamMono, kpt3d := replicate 26 (v3 1 0 0)\<rparr>"

section \<open>The blend in a still scene\<close>

lemma to_world_chain: "transfer_from_cvL_to_world r s hp ps = cal_lcam_kpt3d_cv_to_world r s hp ps"
  by (simp add: transfer_from_cvL_to_world_def cal_lcam_kpt3d_cv_to_world_def)

lemma shift_all_nth: "i < length ps \<Longrightarrow> shift_all d ps ! i = add3 (ps ! i) d"
  by (simp add: shift_all_def)

text \<open>The part of the first difference that is left after \<open>n\<close> frames.\<close>

definition blend_rest :: "nat \<Rightarrow> real" where
  "blend_rest n = (\<Prod>j<n. (30 - real j) / 30)"

lemma blend_still:
  assumes "own \<noteq> other" and "source pre = other" and "kpt3d pre = transfer_from_cvL_to_world (le_rotation env) (le_coords env) hp qs"
    and "qs \<noteq> []" and "26 \<le> length ks"
    and inv: "\<And>ps. recal_lcam_kpt3d_cv_with_new_headpose (le_rotation env) (le_coords env) hp
           (transfer_from_cvL_to_world (le_rotation env) (le_coords env) hp ps) = ps"
  shows "n < 30 \<Longrightarrow> \<exists>h. blend_frames env own other (replicate (Suc n) (hp, ks)) pre = Some h \<and> source h = own \<and>
    smooth_frames h = 29 - int n \<and>
    kpt3d h = transfer_from_cvL_to_world (le_rotation env) (le_coords env) hp
      (shift_all (scale3 (blend_rest (Suc n)) (sub3 (qs ! 0) (ks ! 0))) ks)"
proof (induction n)
  case 0
  let ?h = "new_single_hand_data\<lparr>source := own, kpt3d := ks\<rparr>"
  have "frames_to_smooth own other True pre = 30" using assms(2) by (simp add: frames_to_smooth_def SmoothTotalFrames_def)
  moreover have "kpt3d pre \<noteq> []" using assms(3,4) length_to_world length_0_conv by metis
  moreover have "26 \<le> length (kpt3d ?h)" using assms(5) by simp
  ultimately show ?case
    using smooth_hand_step [of own other True pre 30 ?h env hp] inv [of qs]
    by (simp add: assms(3) blend_frame_def world_hand_def blend_rest_def)
next
  case (Suc n)
  let ?d = "sub3 (qs ! 0) (ks ! 0)"
  from Suc obtain h where h: "blend_frames env own other (replicate (Suc n) (hp, ks)) pre = Some h" "source h = own"
    "smooth_frames h = 29 - int n"
    "kpt3d h = transfer_from_cvL_to_world (le_rotation env) (le_coords env) hp (shift_all (scale3 (blend_rest (Suc n)) ?d) ks)"
    by auto
  let ?h = "new_single_hand_data\<lparr>source := own, kpt3d := ks\<rparr>"
  have f: "frames_to_smooth own other True h = 29 - int n" "0 < 29 - int n"
    using frames_to_smooth_own [OF assms(1) h(2)] h(3) Suc.prems by simp_all
  have "ks \<noteq> []" using assms(5) by auto
  then have ne: "kpt3d h \<noteq> []" using h(4) length_to_world shift_all_length length_0_conv by metis
  have "26 \<le> length (kpt3d ?h)" using assms(5) by simp
  from smooth_hand_step [OF f(1) f(2) ne this, of env hp]
  have "smooth_hand env own other hp True h ?h = Some (?h\<lparr>smooth_frames := 29 - int n - 1,
      kpt3d := shift_all (scale3 (real_of_int (29 - int n) / 30) (sub3 (shift_all (scale3 (blend_rest (Suc n)) ?d) ks ! 0) (ks ! 0))) ks\<rparr>)"
    by (simp add: h(4) inv)
  moreover have "sub3 (shift_all (scale3 (blend_rest (Suc n)) ?d) ks ! 0) (ks ! 0) = scale3 (blend_rest (Suc n)) ?d"
    using assms(5) by (subst shift_all_nth) (auto simp: add3_def sub3_def)
  moreover have "scale3 (real_of_int (29 - int n) / 30) (scale3 (blend_rest (Suc n)) ?d) = scale3 (blend_rest (Suc (Suc n))) ?d"
  proof -
    have "blend_rest (Suc (Suc n)) = real_of_int (29 - int n) / 30 * blend_rest (Suc n)"
      by (simp add: blend_rest_def)
    then show ?thesis by (simp add: scale3_def)
  qed
  ultimately have "blend_frame env own other (hp, ks) h = Some (world_hand (le_rotation env) (le_coords env) hp True
      (?h\<lparr>smooth_frames := 29 - int (Suc n), kpt3d := shift_all (scale3 (blend_rest (Suc (Suc n))) ?d) ks\<rparr>))"
    by (simp add: blend_frame_def)
  moreover have "replicate (Suc (Suc n)) (hp, ks) = replicate (Suc n) (hp, ks) @ [(hp, ks)]"
    by (metis replicate_Suc replicate_append_same)
  ultimately show ?case
    using h(1) by (simp only: blend_frames_append) (simp add: world_hand_def)
qed

text \<open>
  In a still scene the hand moves from its old place to its new one without changing its
  shape: after \<open>n\<close> frames the part \<open>30/30 * 29/30 * ... * (31 - n)/30\<close> of the first difference of
  the roots is left, in world coordinates, so the first frame keeps the old root.
\<close>

lemma blend_decays:
  assumes "own \<noteq> other" and "source pre = other" and "qs \<noteq> []" and "26 \<le> length ks" and "0 < n" and "n \<le> 30"
    and "kpt3d pre = transfer_from_cvL_to_world (le_rotation env) (le_coords env) hp qs"
    and "finalize 5 s0 = Inr (le_coords env)" and "consistent c s0" and "\<forall>p. \<exists>x. c CV_LEFT_CAM x = p"
    and "orthogonal (le_rotation env (nr_rotation hp))"
  shows "\<exists>h. blend_frames env own other (replicate n (hp, ks)) pre = Some h \<and>
    kpt3d h = transfer_from_cvL_to_world (le_rotation env) (le_coords env) hp
      (map (\<lambda>p. add3 p (scale3 (\<Prod>j<n. (30 - real j) / 30) (sub3 (qs ! 0) (ks ! 0)))) ks)"
proof -
  have inv: "recal_lcam_kpt3d_cv_with_new_headpose (le_rotation env) (le_coords env) hp
      (transfer_from_cvL_to_world (le_rotation env) (le_coords env) hp ps) = ps" for ps
    unfolding to_world_chain using assms(8-11) by (rule camera_world_inverse)
  obtain m where "n = Suc m" "m < 30" using assms(5,6) by (cases n) auto
  with blend_still [OF assms(1,2,7,3,4) inv, of m] show ?thesis
    by (auto simp: blend_rest_def shift_all_def)
qed

end
