(* ===== verification/Kernels.thy ===== *)
theory Kernels
  imports Boxes
begin

text \<open>
  The kernels on flat arrays (\<^verbatim>\<open>aisdk/algorithm/func/{softmax,reducesum,permute,elementwise_mul}.cpp\<close>,
  \<open>linspace\<close> of \<^verbatim>\<open>common/math.h\<close>) and the soft-argmax that \<open>RSNTiny\<close> builds from them
  (\<^verbatim>\<open>model/hand_rsntiny.cpp\<close>). An array is a list, a kernel gives the values it writes; the buffers of a
  network have the sizes that its \<open>Init\<close> gives them.
\<close>

definition linspace :: "real \<Rightarrow> real \<Rightarrow> nat \<Rightarrow> bool \<Rightarrow> real list" where
  "linspace start stop num_points endpoint =
     (let step = (stop - start) / (if endpoint then real num_points - 1 else real num_points);
          result = map (\<lambda>i. start + real i * step) [0..<num_points]
      in if endpoint \<and> num_points > 1 then result[num_points - 1 := stop] else result)"

section \<open>softmax\<close>

definition softmax_single_lane :: "real list \<Rightarrow> real list" where
  "softmax_single_lane input =
     (let m = fold (\<lambda>x m. max m x) input (- FLT_MAX);
          output = map (\<lambda>x. exp (x - m)) input;
          total = sum_list output
      in map (\<lambda>v. v / total) output)"

definition lane :: "nat \<Rightarrow> nat \<Rightarrow> 'a list \<Rightarrow> 'a list" where
  "lane n i xs = take n (drop (i * n) xs)"

definition softmax_last_dim :: "real list \<Rightarrow> nat \<Rightarrow> nat \<Rightarrow> nat \<Rightarrow> real list" where
  "softmax_last_dim input d0 d1 d2 =
     concat (map (\<lambda>prior_idx. softmax_single_lane (lane d2 prior_idx input)) [0..<d0 * d1])"

section \<open>Sums, products and permutation\<close>

definition reduce_sum_w :: "real list \<Rightarrow> nat \<Rightarrow> nat \<Rightarrow> nat \<Rightarrow> real list" where
  "reduce_sum_w input num_channels height width =
     concat (map (\<lambda>c. map (\<lambda>h. sum_list (map (\<lambda>w. input ! (c * height * width + h * width + w)) [0..<width]))
                       [0..<height]) [0..<num_channels])"

definition reduce_sum_h :: "real list \<Rightarrow> nat \<Rightarrow> nat \<Rightarrow> nat \<Rightarrow> real list" where
  "reduce_sum_h input num_channels height width =
     concat (map (\<lambda>c. map (\<lambda>w. sum_list (map (\<lambda>h. input ! (c * height * width + h * width + w)) [0..<height]))
                       [0..<width]) [0..<num_channels])"

definition elementwise_mult :: "real list \<Rightarrow> real list \<Rightarrow> nat \<Rightarrow> real list" where
  "elementwise_mult A B n = map (\<lambda>i. A ! i * B ! i) [0..<n]"

definition elementwise_mult_hm :: "real list \<Rightarrow> real list \<Rightarrow> nat \<Rightarrow> nat \<Rightarrow> real list" where
  "elementwise_mult_hm hm_input coeffs channels n =
     (let col_size = n div channels
      in concat (map (\<lambda>c. elementwise_mult (drop (c * col_size) hm_input) coeffs col_size) [0..<channels]))"

text \<open>The writes of \<open>NHWC2NCHW\<close>, in the order of its loops.\<close>

definition NHWC2NCHW :: "real list \<Rightarrow> nat \<Rightarrow> nat \<Rightarrow> nat \<Rightarrow> real list \<Rightarrow> real list" where
  "NHWC2NCHW src b c area dest =
     fold (\<lambda>(bi, i, ci) d. d[bi * (c * area) + i + ci * area := src ! (bi * (c * area) + i * c + ci)])
       (concat (map (\<lambda>bi. concat (map (\<lambda>i. map (\<lambda>ci. (bi, i, ci)) [0..<c]) [0..<area])) [0..<b])) dest"

section \<open>RSNTiny\<close>

definition ipr :: "nat \<Rightarrow> nat \<Rightarrow> real list \<Rightarrow> real list \<times> real list" where
  "ipr keypoint_num output_shape input_hm =
     (let mul_coeff = linspace 0 1 output_shape False;
          hm_softmax = softmax_last_dim input_hm 1 keypoint_num (output_shape * output_shape);
          hm_reduce_col = reduce_sum_h hm_softmax keypoint_num output_shape output_shape;
          hm_reduce_row = reduce_sum_w hm_softmax keypoint_num output_shape output_shape;
          hm_reduce_col_row = elementwise_mult_hm hm_reduce_col mul_coeff keypoint_num (keypoint_num * output_shape);
          hm_reduce_row_col = elementwise_mult_hm hm_reduce_row mul_coeff keypoint_num (keypoint_num * output_shape)
      in (reduce_sum_w hm_reduce_col_row keypoint_num 1 output_shape,
          reduce_sum_h hm_reduce_row_col keypoint_num output_shape 1))"

text \<open>One batch of the output tensor: \<open>hwc\<close> when its channels come last.\<close>

definition rsn_batch :: "bool \<Rightarrow> nat \<Rightarrow> nat \<Rightarrow> nat \<Rightarrow> nat \<Rightarrow> nat \<Rightarrow> real list \<Rightarrow> real list \<Rightarrow> vec2 list" where
  "rsn_batch hwc input_shape output_shape keypoint_num c area nchw data =
     (let (x, y) = ipr keypoint_num output_shape (if hwc then NHWC2NCHW data 1 c area nchw else data)
      in map (\<lambda>i. v2 (x ! i * real input_shape) (y ! i * real input_shape)) [0..<keypoint_num])"

section \<open>Rows of a flat array\<close>

lemma length_concat_map: "(\<And>i. i < n \<Longrightarrow> length (f i) = m) \<Longrightarrow> length (concat (map f [0..<n])) = n * m"
  by (induction n) simp_all

lemma nth_concat_map:
  assumes "\<And>i. i < n \<Longrightarrow> length (f i) = m" and "i < n" and "j < m"
  shows "concat (map f [0..<n]) ! (i * m + j) = f i ! j"
  using assms
proof (induction n)
  case (Suc n)
  have len: "length (concat (map f [0..<n])) = n * m" using Suc.prems(1) by (intro length_concat_map) simp
  show ?case
  proof (cases "i = n")
    case True
    with len show ?thesis by (simp add: nth_append)
  next
    case False
    with Suc.prems(2) have i: "i < n" by simp
    then have "i * m + j < n * m"
      using Suc.prems(3) by (metis less_le_trans mult_Suc mult_le_mono1 add.commute nat_add_left_cancel_less Suc_leI)
    with len i Suc show ?thesis by (simp add: nth_append)
  qed
qed simp

lemma index_lt: "i < n \<Longrightarrow> j < m \<Longrightarrow> i * m + j < n * (m::nat)"
  by (metis less_le_trans mult_Suc mult_le_mono1 add.commute nat_add_left_cancel_less Suc_leI)

lemma lane_concat_map:
  assumes "\<And>i. i < n \<Longrightarrow> length (f i) = m" and "i < n"
  shows "lane m i (concat (map f [0..<n])) = f i"
proof (rule nth_equalityI)
  have len: "length (concat (map f [0..<n])) = n * m" using assms(1) by (rule length_concat_map)
  have "i * m + m \<le> n * m" using assms(2) by (metis Suc_leI mult_Suc mult_le_mono1 add.commute)
  then show "length (lane m i (concat (map f [0..<n]))) = length (f i)"
    using assms len by (simp add: lane_def)
  fix j
  assume "j < length (lane m i (concat (map f [0..<n])))"
  then have "j < m" by (simp add: lane_def)
  then show "lane m i (concat (map f [0..<n])) ! j = f i ! j"
    using nth_concat_map [of n f m i j] assms len \<open>i * m + m \<le> n * m\<close> by (simp add: lane_def)
qed

section \<open>The soft-argmax\<close>

lemma softmax_single_lane_sums:
  assumes "xs \<noteq> []"
  shows "length (softmax_single_lane xs) = length xs" and "\<forall>p\<in>set (softmax_single_lane xs). 0 < p"
    and "sum_list (softmax_single_lane xs) = 1"
proof -
  define e where "e = map (\<lambda>x. exp (x - fold (\<lambda>x m. max m x) xs (- FLT_MAX))) xs"
  have s: "softmax_single_lane xs = map (\<lambda>v. v / sum_list e) e" by (simp add: softmax_single_lane_def e_def Let_def)
  have "\<forall>v\<in>set e. 0 < v" by (auto simp: e_def)
  moreover have "e \<noteq> []" using assms by (simp add: e_def)
  ultimately have pos: "0 < sum_list e"
    by (cases e) (auto intro!: add_pos_nonneg sum_list_nonneg simp: less_imp_le)
  show "length (softmax_single_lane xs) = length xs" by (simp add: s e_def)
  show "\<forall>p\<in>set (softmax_single_lane xs). 0 < p" using \<open>\<forall>v\<in>set e. 0 < v\<close> pos by (auto simp: s)
  have "sum_list (map (\<lambda>v. v / k) vs) = sum_list vs / k" for k :: real and vs
    by (induction vs) (simp_all add: add_divide_distrib)
  then show "sum_list (softmax_single_lane xs) = 1" using pos by (simp add: s)
qed

lemma nth_reduce_sum_w:
  assumes "c < C" and "h < H"
  shows "reduce_sum_w xs C H W ! (c * H + h) = sum_list (map (\<lambda>w. xs ! (c * H * W + h * W + w)) [0..<W])"
  unfolding reduce_sum_w_def by (subst nth_concat_map) (use assms in simp_all)

lemma nth_reduce_sum_h:
  assumes "c < C" and "w < W"
  shows "reduce_sum_h xs C H W ! (c * W + w) = sum_list (map (\<lambda>h. xs ! (c * H * W + h * W + w)) [0..<H])"
  unfolding reduce_sum_h_def by (subst nth_concat_map) (use assms in simp_all)

lemma length_reduce_sum: "length (reduce_sum_w xs C H W) = C * H" "length (reduce_sum_h xs C H W) = C * W"
  by (simp_all add: reduce_sum_w_def reduce_sum_h_def length_concat_map)

lemma nth_mult_hm:
  assumes "c < C" and "i < n" and "length xs = C * n"
  shows "elementwise_mult_hm xs ks C (C * n) ! (c * n + i) = xs ! (c * n + i) * ks ! i"
proof -
  have "c * n + i < C * n" using assms(1,2) by (rule index_lt)
  then show ?thesis
    unfolding elementwise_mult_hm_def Let_def using assms
    by (simp add: nth_concat_map elementwise_mult_def)
qed

lemma nth_linspace01: "i < n \<Longrightarrow> linspace 0 1 n False ! i = real i / real n"
  by (simp add: linspace_def)

lemma lane_nth: "i < n \<Longrightarrow> lane n k xs ! i = xs ! (k * n + i)" if "k * n + n \<le> length xs"
  using that by (simp add: lane_def)

lemma sum_by_rows:
  fixes f :: "nat \<Rightarrow> real"
  shows "sum_list (map f [0..<n * m]) = sum_list (map (\<lambda>h. sum_list (map (\<lambda>w. f (h * m + w)) [0..<m])) [0..<n])"
proof (induction n)
  case (Suc n)
  have "[0..<Suc n * m] = [0..<n * m] @ map (\<lambda>w. w + n * m) [0..<m]"
    using upt_add_eq_append [of 0 "n * m" m] map_add_upt [of "n * m" m] by (simp add: add.commute)
  then have "sum_list (map f [0..<Suc n * m]) = sum_list (map f [0..<n * m]) + sum_list (map (\<lambda>w. f (w + n * m)) [0..<m])"
    by (simp only: map_append sum_list_append map_map comp_def)
  with Suc show ?case by (simp add: add.commute [of _ "n * m"])
qed simp

lemma sum_by_columns:
  fixes f :: "nat \<Rightarrow> real"
  shows "sum_list (map f [0..<n * m]) = sum_list (map (\<lambda>w. sum_list (map (\<lambda>h. f (h * m + w)) [0..<n])) [0..<m])"
  unfolding sum_by_rows by (simp add: interv_sum_list_conv_sum_set_nat) (rule sum.swap)

lemma sum_list_scale: "sum_list (map (\<lambda>i. f i * a / b) xs) = sum_list (map f xs) * a / b" for a b :: real
  by (induction xs) (simp_all add: algebra_simps add_divide_distrib)

text \<open>The expectation of a coordinate under the softmax of a heatmap.\<close>

lemma ipr_expectation:
  assumes "length hm = K * (n * n)" and "0 < n" and "k < K"
  shows "fst (ipr K n hm) ! k = sum_list (map (\<lambda>i. softmax_single_lane (lane (n * n) k hm) ! i * (real (i mod n) / real n)) [0..<n * n])"
    and "snd (ipr K n hm) ! k = sum_list (map (\<lambda>i. softmax_single_lane (lane (n * n) k hm) ! i * (real (i div n) / real n)) [0..<n * n])"
proof -
  define p where "p k = softmax_single_lane (lane (n * n) k hm)" for k
  define S where "S = softmax_last_dim hm 1 K (n * n)"
  define c where "c = linspace 0 1 n False"
  have kn: "k * (n * n) + n * n \<le> K * (n * n)" if "k < K" for k
    using that by (metis Suc_leI add.commute mult_Suc mult_le_mono1)
  have len: "length (lane (n * n) k hm) = n * n" if "k < K" for k
    using kn [OF that] assms(1) by (simp add: lane_def)
  have plen: "length (p k) = n * n" if "k < K" for k
  proof -
    have "lane (n * n) k hm \<noteq> []" using len [OF that] assms(2) by (metis list.size(3) mult_pos_pos less_irrefl)
    then show ?thesis using len [OF that] by (simp add: p_def softmax_single_lane_sums(1))
  qed
  have S: "S ! (k * n * n + (h * n + w)) = p k ! (h * n + w)" if "h < n" "w < n" for h w
  proof -
    have "S = concat (map p [0..<K])" by (simp add: S_def softmax_last_dim_def p_def [abs_def])
    then show ?thesis
      using nth_concat_map [of K p "n * n" k "h * n + w"] plen assms(3) index_lt [OF that] by (simp add: mult.assoc)
  qed
  have Sx: "sum_list (map (\<lambda>h. S ! (k * n * n + (h * n + x))) [0..<n]) = sum_list (map (\<lambda>h. p k ! (h * n + x)) [0..<n])"
    and Sy: "sum_list (map (\<lambda>w. S ! (k * n * n + (x * n + w))) [0..<n]) = sum_list (map (\<lambda>w. p k ! (x * n + w)) [0..<n])"
    if "x < n" for x
    by (intro arg_cong [where f = sum_list] map_cong; use that S in simp)+
  have x: "fst (ipr K n hm) = reduce_sum_w (elementwise_mult_hm (reduce_sum_h S K n n) c K (K * n)) K 1 n"
    and y: "snd (ipr K n hm) = reduce_sum_h (elementwise_mult_hm (reduce_sum_w S K n n) c K (K * n)) K n 1"
    by (simp_all add: ipr_def Let_def S_def c_def)
  have row: "sum_list (map (\<lambda>w. p k ! (x * n + w) * (real ((x * n + w) div n) / real n)) [0..<n]) =
      sum_list (map (\<lambda>w. p k ! (x * n + w) * real x / real n) [0..<n])" if "x < n" for x
    by (intro arg_cong [where f = sum_list] map_cong) simp_all
  have "fst (ipr K n hm) ! k = sum_list (map (\<lambda>w. elementwise_mult_hm (reduce_sum_h S K n n) c K (K * n) ! (k * n + w)) [0..<n])"
    using nth_reduce_sum_w [of k K 0 1 "elementwise_mult_hm (reduce_sum_h S K n n) c K (K * n)" n] assms(3) by (simp add: x)
  also have "\<dots> = sum_list (map (\<lambda>w. sum_list (map (\<lambda>h. p k ! (h * n + w) * (real ((h * n + w) mod n) / real n)) [0..<n])) [0..<n])"
    using assms(3) Sx by (intro arg_cong [where f = sum_list] map_cong)
      (simp_all add: nth_mult_hm length_reduce_sum nth_reduce_sum_h c_def nth_linspace01 sum_list_scale add.assoc)
  also have "\<dots> = sum_list (map (\<lambda>i. p k ! i * (real (i mod n) / real n)) [0..<n * n])"
    by (rule sum_by_columns [symmetric])
  finally show "fst (ipr K n hm) ! k = sum_list (map (\<lambda>i. softmax_single_lane (lane (n * n) k hm) ! i * (real (i mod n) / real n)) [0..<n * n])"
    by (simp add: p_def)
  have "snd (ipr K n hm) ! k = sum_list (map (\<lambda>h. elementwise_mult_hm (reduce_sum_w S K n n) c K (K * n) ! (k * n + h)) [0..<n])"
    using nth_reduce_sum_h [of k K 0 1 "elementwise_mult_hm (reduce_sum_w S K n n) c K (K * n)" n] assms(3) by (simp add: y)
  also have "\<dots> = sum_list (map (\<lambda>h. sum_list (map (\<lambda>w. p k ! (h * n + w) * (real ((h * n + w) div n) / real n)) [0..<n])) [0..<n])"
    using assms(3) Sy by (intro arg_cong [where f = sum_list] map_cong)
      (simp_all only: row atLeastLessThan_iff set_upt, simp_all add: nth_mult_hm length_reduce_sum nth_reduce_sum_w c_def nth_linspace01 sum_list_scale add.assoc)
  also have "\<dots> = sum_list (map (\<lambda>i. p k ! i * (real (i div n) / real n)) [0..<n * n])"
    by (rule sum_by_rows [symmetric])
  finally show "snd (ipr K n hm) ! k = sum_list (map (\<lambda>i. softmax_single_lane (lane (n * n) k hm) ! i * (real (i div n) / real n)) [0..<n * n])"
    by (simp add: p_def)
qed

lemma weighted_bounds:
  fixes g :: "nat \<Rightarrow> real"
  assumes "length p = m" and "\<forall>x\<in>set p. 0 < x" and "sum_list p = 1" and "\<And>i. i < m \<Longrightarrow> 0 \<le> g i \<and> g i < 1" and "0 < m"
  shows "0 \<le> sum_list (map (\<lambda>i. p ! i * g i) [0..<m])" and "sum_list (map (\<lambda>i. p ! i * g i) [0..<m]) < 1"
proof -
  have p: "0 < p ! i" if "i < m" for i using assms(1,2) that by simp
  show "0 \<le> sum_list (map (\<lambda>i. p ! i * g i) [0..<m])"
    using p assms(4) by (intro sum_list_nonneg) (auto intro: mult_nonneg_nonneg simp: less_imp_le)
  have "sum_list (map (\<lambda>i. p ! i * g i) [0..<m]) < sum_list (map (\<lambda>i. p ! i) [0..<m])"
  proof -
    have "p ! i * g i < p ! i" if "i < m" for i using mult_strict_left_mono [of "g i" 1 "p ! i"] p assms(4) that by simp
    then show ?thesis
      using assms(5) by (auto simp: interv_sum_list_conv_sum_set_nat intro!: sum_strict_mono)
  qed
  also have "map (\<lambda>i. p ! i) [0..<m] = p" using assms(1) map_nth by blast
  finally show "sum_list (map (\<lambda>i. p ! i * g i) [0..<m]) < 1" using assms(3) by simp
qed

lemma ipr_inside:
  assumes "length hm = K * (n * n)" and "0 < n" and "k < K"
  shows "0 \<le> fst (ipr K n hm) ! k \<and> fst (ipr K n hm) ! k < 1 \<and> 0 \<le> snd (ipr K n hm) ! k \<and> snd (ipr K n hm) ! k < 1"
proof -
  have "k * (n * n) + n * n \<le> K * (n * n)" using assms(3) by (metis Suc_leI add.commute mult_Suc mult_le_mono1)
  then have len: "length (lane (n * n) k hm) = n * n" using assms(1) by (simp add: lane_def)
  have nn: "0 < n * n" using assms(2) by simp
  then have "lane (n * n) k hm \<noteq> []" using len by force
  note sm = softmax_single_lane_sums [OF this]
  have "0 \<le> real (i mod n) / real n \<and> real (i mod n) / real n < 1" "0 \<le> real (i div n) / real n \<and> real (i div n) / real n < 1"
    if "i < n * n" for i
    using that assms(2) by (simp_all add: less_mult_imp_div_less)
  then show ?thesis
    unfolding ipr_expectation [OF assms]
    by (intro conjI weighted_bounds [OF sm(1) [unfolded len] sm(2,3) _ nn]) simp_all
qed

section \<open>The permutation\<close>

lemma fold_update_nth:
  assumes "distinct (map f xs)" and "x \<in> set xs" and "\<forall>y\<in>set xs. f y < length d"
  shows "fold (\<lambda>x d. d[f x := g x]) xs d ! f x = g x"
  using assms
proof (induction xs arbitrary: d)
  case (Cons y ys)
  have keep: "fold (\<lambda>x d. d[f x := g x]) zs d ! k = d ! k" if "k \<notin> f ` set zs" for zs k d
    using that by (induction zs arbitrary: d) auto
  show ?case
  proof (cases "x = y")
    case True
    with Cons.prems keep [of "f y" ys "d[f y := g y]"] show ?thesis by simp
  next
    case False
    with Cons show ?thesis by simp
  qed
qed simp

lemma NHWC2NCHW_nth:
  assumes "i < area" and "ci < c" and "length dest = c * area"
  shows "NHWC2NCHW src 1 c area dest ! (ci * area + i) = src ! (i * c + ci)"
proof -
  let ?xs = "concat (map (\<lambda>i. map (\<lambda>ci. (0::nat, i, ci)) [0..<c]) [0..<area])"
  let ?f = "\<lambda>(bi, i, ci). bi * (c * area) + i + ci * area"
  let ?g = "\<lambda>(bi, i, ci). src ! (bi * (c * area) + i * c + ci)"
  have mem: "set ?xs = {0} \<times> {..<area} \<times> {..<c}" by auto
  have "inj_on ?f (set ?xs)"
  proof (rule inj_onI)
    fix u v
    assume "u \<in> set ?xs" "v \<in> set ?xs" "?f u = ?f v"
    then obtain i1 c1 i2 c2 where uv: "u = (0, i1, c1)" "v = (0, i2, c2)" "i1 < area" "i2 < area" "i1 + c1 * area = i2 + c2 * area"
      unfolding mem by auto
    have "i1 = (i1 + c1 * area) mod area" "c1 = (i1 + c1 * area) div area" using uv(3) by simp_all
    moreover have "i2 = (i2 + c2 * area) mod area" "c2 = (i2 + c2 * area) div area" using uv(4) by simp_all
    ultimately have "i1 = i2" "c1 = c2" using uv(5) by metis+
    with uv show "u = v" by simp
  qed
  moreover have "distinct ?xs"
    by (induction area) (auto simp: distinct_map inj_on_def)
  ultimately have d: "distinct (map ?f ?xs)" by (simp add: distinct_map)
  have bound: "\<forall>y\<in>set ?xs. ?f y < length dest"
    unfolding mem using assms(3) index_lt [of _ c _ area] by (auto simp: add.commute)
  have x: "(0, i, ci) \<in> set ?xs" unfolding mem using assms(1,2) by simp
  have "NHWC2NCHW src 1 c area dest = fold (\<lambda>x d. d[?f x := ?g x]) ?xs dest"
    by (simp add: NHWC2NCHW_def case_prod_unfold)
  with fold_update_nth [OF d x bound, of ?g] show ?thesis by (simp add: add.commute)
qed

lemma length_NHWC2NCHW: "length (NHWC2NCHW src b c area dest) = length dest"
proof -
  have "length (fold (\<lambda>x d. d[f x := g x]) xs d) = length d" for f :: "nat \<times> nat \<times> nat \<Rightarrow> nat" and g :: "_ \<Rightarrow> real" and xs d
    by (induction xs arbitrary: d) simp_all
  from this [of "\<lambda>(bi, i, ci). bi * (c * area) + i + ci * area"] show ?thesis by (simp add: NHWC2NCHW_def case_prod_unfold)
qed

section \<open>The keypoints of RSNTiny\<close>

text \<open>The heatmap of a channel of the network's output, in either layout.\<close>

definition heatmap :: "bool \<Rightarrow> nat \<Rightarrow> nat \<Rightarrow> real list \<Rightarrow> nat \<Rightarrow> real list" where
  "heatmap hwc K n data k = map (\<lambda>i. if hwc then data ! (i * K + k) else data ! (k * (n * n) + i)) [0..<n * n]"



end
