(* ===== verification/WarpCrop.thy ===== *)
theory WarpCrop
  imports CameraModel Mat3 Boxes
begin

text \<open>
  The crops of a hand: the affine one of \<^verbatim>\<open>aisdk/algorithm/func/warpaffine.cpp\<close> and the virtual
  camera of \<^verbatim>\<open>perspective_crop.cpp\<close>. OpenCV's \<open>getAffineTransform\<close> is the argument
  \<open>get_affine\<close>, Eigen's \<open>FromTwoVectors\<close> the argument \<open>from_two\<close>.
\<close>

section \<open>The affine crop\<close>

type_synonym affine2 = "vec3 \<times> vec3"
type_synonym points3 = "vec2 \<times> vec2 \<times> vec2"

definition affine_apply :: "affine2 \<Rightarrow> vec2 \<Rightarrow> vec2" where
  "affine_apply m p = v2 (dot3 (fst m) (v3 (v2x p) (v2y p) 1)) (dot3 (snd m) (v3 (v2x p) (v2y p) 1))"

text \<open>The second component uses the second coordinate twice, as the code has it.\<close>

definition get_dir :: "vec2 \<Rightarrow> real \<Rightarrow> vec2" where
  "get_dir src_point rot_rad =
     (let sn = sin rot_rad; cs = cos rot_rad
      in v2 (v2x src_point * cs - v2y src_point * sn) (v2y src_point * sn + v2y src_point * cs))"

definition get_3rd_point :: "vec2 \<Rightarrow> vec2 \<Rightarrow> vec2" where
  "get_3rd_point a b = v2 (v2x b + v2y b - v2y a) (v2y b + v2x a - v2x b)"

definition affine_points :: "vec4 \<Rightarrow> vec2 \<Rightarrow> real \<Rightarrow> real \<Rightarrow> real \<Rightarrow> points3 \<times> points3" where
  "affine_points bbox_cs shift rot output_h output_w =
     (let rot_rad = rot * pi / 180;
          center = fst bbox_cs;
          scale = snd bbox_cs;
          src_dir = get_dir (v2 0 (v2x scale * -0.5)) rot_rad;
          dst_dir = get_dir (v2 0 (output_w * -0.5)) rot_rad;
          src0 = v2 (v2x center + v2x scale * v2x shift) (v2y center + v2y scale * v2y shift);
          src1 = v2 (v2x center + v2x src_dir + v2x scale * v2x shift) (v2y center + v2y src_dir + v2y scale * v2y shift);
          dst0 = v2 (output_w * 0.5) (output_h * 0.5);
          dst1 = v2 (output_w * 0.5 + v2x dst_dir) (output_h * 0.5 + v2y dst_dir)
      in ((src0, src1, get_3rd_point src0 src1), (dst0, dst1, get_3rd_point dst0 dst1)))"

definition get_affine_transform :: "(points3 \<Rightarrow> points3 \<Rightarrow> affine2) \<Rightarrow> vec4 \<Rightarrow> vec2 \<Rightarrow> real \<Rightarrow> real \<Rightarrow> real \<Rightarrow> bool \<Rightarrow> affine2" where
  "get_affine_transform get_affine bbox_cs shift rot output_h output_w invert =
     (let (src, dst) = affine_points bbox_cs shift rot output_h output_w
      in if invert then get_affine dst src else get_affine src dst)"

text \<open>Where \<open>generate_roi_image\<close> puts a point of the image.\<close>

definition roi_matrix :: "(points3 \<Rightarrow> points3 \<Rightarrow> affine2) \<Rightarrow> vec4 \<Rightarrow> real \<Rightarrow> real \<Rightarrow> affine2" where
  "roi_matrix get_affine bbox_cs output_width output_height =
     get_affine_transform get_affine bbox_cs (v2 0 0) 0 output_height output_width False"

text \<open>The square that the landmark calculators cut out: the box, enlarged.\<close>

definition GetCropBboxShape :: "detect_rect \<Rightarrow> real \<Rightarrow> vec4" where
  "GetCropBboxShape bbox scale =
     (let (c, wh) = bbox_xywh2cs (v2 (rx bbox) (ry bbox), v2 (rw bbox) (rh bbox));
          max_shape = max (v2x wh * scale) (v2y wh * scale)
      in (c, v2 max_shape max_shape))"

section \<open>The virtual camera\<close>

definition fix_aspect_ratio :: "vec2 \<Rightarrow> real \<Rightarrow> vec2" where
  "fix_aspect_ratio bbox_scale aspect_ratio =
     (let w = v2x bbox_scale; h = v2y bbox_scale
      in if w > h * aspect_ratio then v2 w (w / aspect_ratio) else v2 (h * aspect_ratio) h)"

definition slant_scale :: "vec3 \<Rightarrow> vec2" where
  "slant_scale p = v2 (1 / sqrt (vx p * vx p + vz p * vz p)) (sqrt (vx p * vx p + 1) / sqrt (vx p * vx p + vy p * vy p + 1))"

definition generate_virtual_K :: "vec3 \<Rightarrow> mat3 \<Rightarrow> vec2 \<Rightarrow> bool \<Rightarrow> bool \<Rightarrow> bool \<Rightarrow> bool \<Rightarrow> mat3" where
  "generate_virtual_K p_position K bbox_size_img focal_at_image_plane slant_compensation maintain_aspect_ratio rectangular_images =
     (let focal_length_factor = (if focal_at_image_plane then norm3 p_position else 1);
          m = (if slant_compensation
               then v2 (v2x bbox_size_img * v2x (slant_scale p_position)) (v2y bbox_size_img * v2y (slant_scale p_position))
               else bbox_size_img);
          f_orig = v2 (vx (fst K)) (vy (fst (snd K)));
          m = (if \<not> rectangular_images \<and> maintain_aspect_ratio then v2 (max (v2x m) (v2y m)) (max (v2x m) (v2y m)) else m);
          f = v2 (v2x f_orig / v2x m) (v2y f_orig / v2y m);
          f = (if rectangular_images \<and> maintain_aspect_ratio then v2 (min (v2x f) (v2y f)) (min (v2x f) (v2y f)) else f)
      in (v3 (focal_length_factor * v2x f) 0 0.5, v3 0 (focal_length_factor * v2y f) 0.5, v3 0 0 1))"

definition rot_z :: "real \<Rightarrow> mat3" where
  "rot_z a = (v3 (cos a) (- sin a) 0, v3 (sin a) (cos a) 0, v3 0 0 1)"

definition make_look_at_matrix :: "(vec3 \<Rightarrow> vec3 \<Rightarrow> mat3) \<Rightarrow> iso \<Rightarrow> vec3 \<Rightarrow> real \<Rightarrow> iso" where
  "make_look_at_matrix from_two orig_world_to_eye center camera_angle =
     (let center_local = iso_apply (iso_inverse orig_world_to_eye) center;
          delta_r_local = from_two (v3 0 0 1) center_local;
          orig_eye_to_world = iso_inverse orig_world_to_eye;
          linear = mat3_mult (mat3_mult (fst orig_eye_to_world) delta_r_local) (rot_z (camera_angle * pi / 180))
      in iso_inverse (linear, snd orig_eye_to_world))"

definition mirror_x :: iso where
  "mirror_x = ((v3 (-1) 0 0, v3 0 1 0, v3 0 0 1), v3 0 0 0)"

definition gen_crop_parameters_from_points :: "camera_lib \<Rightarrow> (vec3 \<Rightarrow> vec3 \<Rightarrow> mat3) \<Rightarrow> camera_model \<Rightarrow> vec2 \<Rightarrow> vec2 \<Rightarrow> bool
    \<Rightarrow> real \<Rightarrow> real \<Rightarrow> camera_model" where
  "gen_crop_parameters_from_points lib from_two camera_orig crop_center new_image_size mirror_img_x camera_angle focal_multiplier =
     (let center_eye = window_to_eye lib camera_orig [crop_center] ! 0;
          new_world_to_eye = make_look_at_matrix from_two iso_identity center_eye camera_angle;
          new_world_to_eye = (if mirror_img_x then iso_compose mirror_x new_world_to_eye else new_world_to_eye);
          k = intrinsics camera_orig;
          ori_K = (v3 (fx k) 0 (cx k), v3 0 (fy k) (cy k), v3 0 0 1);
          cam_center = mat3_apply (mat3_inverse ori_K) (v3 (v2x crop_center) (v2y crop_center) 1);
          virtual_K = generate_virtual_K cam_center ori_K new_image_size False False True False;
          s = v2x new_image_size;
          min_f = min (vx (fst virtual_K) * s) (vy (fst (snd virtual_K)) * s)
      in \<lparr>intrinsics = \<lparr>fx = min_f * focal_multiplier, fy = min_f * focal_multiplier,
                         cx = vz (fst virtual_K) * s - 0.5, cy = vz (fst (snd virtual_K)) * s - 0.5\<rparr>,
          distortion_model = NoDistortion, camera_to_world_xf = iso_inverse new_world_to_eye, camera_type_of = 1,
          video_width = trunc (v2x new_image_size), video_height = trunc (v2y new_image_size)\<rparr>)"

definition GetVirtualCameraFromBox :: "camera_lib \<Rightarrow> (vec3 \<Rightarrow> vec3 \<Rightarrow> mat3) \<Rightarrow> camera_model \<Rightarrow> vec4 \<Rightarrow> vec2 \<Rightarrow> camera_model" where
  "GetVirtualCameraFromBox lib from_two camera_orig bbox_cs new_image_size_wh =
     (let center = fst bbox_cs;
          scale = snd bbox_cs;
          w = v2x new_image_size_wh;
          h = v2y new_image_size_wh;
          new_bbox_scale = fix_aspect_ratio scale (w / h)
      in gen_crop_parameters_from_points lib from_two camera_orig center new_image_size_wh False 0 (w / v2x new_bbox_scale))"

section \<open>The keypoints of an affine crop\<close>

text \<open>The formulas of the landmark calculators that take a keypoint back to the image.\<close>

definition uncrop_kpt :: "real \<Rightarrow> real \<Rightarrow> vec4 \<Rightarrow> bool \<Rightarrow> vec2 \<Rightarrow> vec2" where
  "uncrop_kpt input_width input_height rect left kpt =
     v2 ((if left then input_width - 1 - v2x kpt else v2x kpt) * v2x (snd rect) / input_width + v2x (fst rect) - v2x (snd rect) * 0.5)
        (v2y kpt * v2y (snd rect) / input_height + v2y (fst rect) - v2y (snd rect) * 0.5)"

definition maps_points :: "affine2 \<Rightarrow> points3 \<Rightarrow> points3 \<Rightarrow> bool" where
  "maps_points m src dst = (affine_apply m (fst src) = fst dst \<and> affine_apply m (fst (snd src)) = fst (snd dst) \<and>
     affine_apply m (snd (snd src)) = snd (snd dst))"

lemma roi_affine:
  assumes "maps_points m (fst (affine_points (c, v2 s s) (v2 0 0) 0 n n)) (snd (affine_points (c, v2 s s) (v2 0 0) 0 n n))"
    and "s \<noteq> 0"
  shows "affine_apply m p = v2 ((v2x p - v2x c) * n / s + n / 2) ((v2y p - v2y c) * n / s + n / 2)"
proof -
  obtain a b where m: "m = (a, b)" by (cases m)
  have e: "vx a * v2x c + vy a * v2y c + vz a = n / 2" "vx b * v2x c + vy b * v2y c + vz b = n / 2"
    "vx a * v2x c + vy a * (v2y c - s / 2) + vz a = n / 2" "vx b * v2x c + vy b * (v2y c - s / 2) + vz b = 0"
    "vx a * (v2x c - s / 2) + vy a * (v2y c - s / 2) + vz a = 0" "vx b * (v2x c - s / 2) + vy b * (v2y c - s / 2) + vz b = 0"
    using assms(1) by (simp_all add: m maps_points_def affine_points_def affine_apply_def get_dir_def get_3rd_point_def Let_def dot3_def)
  have half: "k * (x - s / 2) = k * x - k * s / 2" for k x by (simp add: right_diff_distrib)
  have "vy a * s = 0" "vx a * s = n" "vx b * s = 0" "vy b * s = n"
    using e unfolding half by linarith+
  then have ab: "vy a = 0" "vx a = n / s" "vx b = 0" "vy b = n / s" using assms(2) by (auto simp: field_simps)
  have "vz a = n / 2 - n / s * v2x c" "vz b = n / 2 - n / s * v2y c" using e(1,2) ab by simp_all
  then show ?thesis by (simp add: m affine_apply_def dot3_def ab) (simp add: algebra_simps diff_divide_distrib)
qed

text \<open>
  C23: the keypoints of an affine crop come back to where they are in the image: for a square box
  and a square network input, whatever affine matrix OpenCV finds for the three pairs of
  points, the calculators' formula undoes the crop of a right hand, and the crop and the mirror of a left
  hand, whose flip exchanges the columns \<open>x\<close> and \<open>input_width - 1 - x\<close>.
\<close>

theorem uncrop_inverts_crop:
  assumes "s \<noteq> 0" and "n \<noteq> 0" and "m = roi_matrix get_affine (c, v2 s s) n n"
    and "maps_points m (fst (affine_points (c, v2 s s) (v2 0 0) 0 n n)) (snd (affine_points (c, v2 s s) (v2 0 0) 0 n n))"
  shows "uncrop_kpt n n (c, v2 s s) False (affine_apply m p) = p \<and>
    uncrop_kpt n n (c, v2 s s) True (v2 (n - 1 - v2x (affine_apply m p)) (v2y (affine_apply m p))) = p"
  unfolding roi_affine [OF assms(4,1)] using assms(1,2) by (simp add: uncrop_kpt_def field_simps)

theorem uncrop_inverts_crop_witness:
  "uncrop_kpt 128 128 (v2 320 240, v2 64 64) False
     (affine_apply (roi_matrix (\<lambda>src dst. (v3 2 0 (-576), v3 0 2 (-416))) (v2 320 240, v2 64 64) 128 128) (v2 300 200)) = v2 300 200"
  using uncrop_inverts_crop [of 64 128 "(v3 2 0 (-576), v3 0 2 (-416))" "\<lambda>src dst. (v3 2 0 (-576), v3 0 2 (-416))"
      "v2 320 240" "v2 300 200"]
  by (simp add: roi_matrix_def get_affine_transform_def affine_points_def maps_points_def affine_apply_def get_dir_def
      get_3rd_point_def Let_def dot3_def)

section \<open>The centre of the virtual camera\<close>

text \<open>Eigen's rotation between two vectors: a rotation that turns the first onto the second.\<close>

definition turns :: "(vec3 \<Rightarrow> vec3 \<Rightarrow> mat3) \<Rightarrow> vec3 \<Rightarrow> vec3 \<Rightarrow> bool" where
  "turns from_two a b \<longleftrightarrow> orthogonal (from_two a b) \<and> mat3_apply (from_two a b) (scale3 (norm3 b) a) = scale3 (norm3 a) b"

lemma rot_z_0: "rot_z 0 = mat3_identity"
  by (simp add: rot_z_def mat3_identity_def)

lemma iso_inverse_inverse: "orthogonal (fst t) \<Longrightarrow> iso_inverse (iso_inverse t) = t"
proof -
  assume r: "orthogonal (fst t)"
  have neg: "scale3 (-1) (scale3 (-1) p) = p" for p by (simp add: scale3_def)
  have "mat3_apply (fst t) (mat3_apply (mat3_transpose (fst t)) p) = p" for p
    using orthogonalD(2) [OF r] by (simp flip: mat3_apply_mult)
  then show ?thesis by (cases t) (simp add: iso_inverse_def mat3_apply_linear neg)
qed

lemma look_at_identity:
  assumes "turns from_two (v3 0 0 1) q"
  shows "iso_inverse (make_look_at_matrix from_two iso_identity q 0) = (from_two (v3 0 0 1) q, v3 0 0 0)"
proof -
  have "make_look_at_matrix from_two iso_identity q 0 = iso_inverse (from_two (v3 0 0 1) q, v3 0 0 0)"
    by (simp add: make_look_at_matrix_def Let_def rot_z_0) (simp add: iso_identity_def)
  with assms show ?thesis by (simp add: iso_inverse_inverse turns_def)
qed

lemma window_to_eye_one: "length (window_to_eye lib c [p]) = 1" and window_to_eye_nz: "window_to_eye lib c [p] ! 0 \<noteq> v3 0 0 0"
proof -
  show "length (window_to_eye lib c [p]) = 1" by (simp add: window_to_eye_def undistort_def)
  have "persp_unproject q \<noteq> v3 0 0 0" for q
  proof -
    have "0 < dot3 (v3 (v2x q) (v2y q) 1) (v3 (v2x q) (v2y q) 1)" by (intro dot3_pos) simp
    then show ?thesis by (simp add: persp_unproject_def normalized3_def scale3_def norm3_def)
  qed
  then show "window_to_eye lib c [p] ! 0 \<noteq> v3 0 0 0" by (simp add: window_to_eye_def undistort_def)
qed

text \<open>
  The virtual camera looks at the hand: it is a pinhole camera at the place of the original one, turned
  by a rotation, and every point of the ray through the centre of the box falls on the
  middle of its square image, in pixels counted from zero; its focal length magnifies the box to
  the width of the image.
\<close>

lemma virtual_camera_centred:
  assumes "turns from_two (v3 0 0 1) ray" and "ray = window_to_eye lib cam [fst box] ! 0" and "0 < t" and "0 < n"
    and "v2x (snd box) = s" and "v2y (snd box) = s" and "vc = GetVirtualCameraFromBox lib from_two cam box (v2 n n)"
  shows "world_to_window lib vc [scale3 t ray] = [Some (v2 (n / 2 - 0.5) (n / 2 - 0.5))] \<and>
    orthogonal (fst (camera_to_world_xf vc)) \<and> snd (camera_to_world_xf vc) = v3 0 0 0 \<and>
    fx (intrinsics vc) = min (fx (intrinsics cam)) (fy (intrinsics cam)) * (n / s) \<and> fy (intrinsics vc) = fx (intrinsics vc)"
proof -
  let ?r = "from_two (v3 0 0 1) ray"
  have xf: "camera_to_world_xf vc = (?r, v3 0 0 0)"
    using look_at_identity [OF assms(1)] assms(2,7) by (simp add: GetVirtualCameraFromBox_def gen_crop_parameters_from_points_def Let_def)
  have d: "distortion_model vc = NoDistortion" using assms(7) by (simp add: GetVirtualCameraFromBox_def gen_crop_parameters_from_points_def Let_def)
  have f: "v2x (fix_aspect_ratio (snd box) (n / n)) = s" using assms(4,5,6) by (simp add: fix_aspect_ratio_def Let_def)
  have k: "intrinsics vc = \<lparr>fx = min (fx (intrinsics cam)) (fy (intrinsics cam)) * (n / s),
      fy = min (fx (intrinsics cam)) (fy (intrinsics cam)) * (n / s), cx = n / 2 - 0.5, cy = n / 2 - 0.5\<rparr>"
    using assms(4,7) f by (simp add: GetVirtualCameraFromBox_def gen_crop_parameters_from_points_def generate_virtual_K_def Let_def)
  have o: "orthogonal ?r" using assms(1) by (simp add: turns_def)
  have ray: "mat3_apply ?r (scale3 (norm3 ray) (v3 0 0 1)) = ray"
    using assms(1) by (simp add: turns_def) (simp add: norm3_def dot3_def scale3_def)
  have pos: "0 < norm3 ray" using dot3_pos [OF window_to_eye_nz] assms(2) by (simp add: norm3_def)
  have "iso_apply (iso_inverse (?r, v3 0 0 0)) (scale3 t ray) = mat3_apply (mat3_transpose ?r) (scale3 t ray)"
    by (simp add: iso_apply_def iso_inverse_def add3_def) (cases ?r, simp add: model_defs)
  also have "\<dots> = scale3 t (mat3_apply (mat3_transpose ?r) (mat3_apply ?r (scale3 (norm3 ray) (v3 0 0 1))))"
    by (simp only: ray) (simp only: mat3_apply_linear)
  also have "\<dots> = v3 0 0 (t * norm3 ray)"
    by (simp add: orthogonalD(1) [OF o] flip: mat3_apply_mult) (simp add: scale3_def)
  finally have "world_to_window lib vc [scale3 t ray] = [Some (v2 (n / 2 - 0.5) (n / 2 - 0.5))]"
    using pos assms(3) by (simp add: world_to_window_def world_to_eye_def eye_to_window_def xf d k persp_project_def to_window_def)
  then show ?thesis using o xf k by simp
qed

end
