(* ===== verification/Landmarks.thy ===== *)
theory Landmarks
  imports WarpCrop Kernels
begin

text \<open>
  The keypoints of a hand in an image: the networks \<open>RTMTiny\<close>, \<open>RTMTinyFlora\<close> and \<open>RSNNano\<close> of
  \<^verbatim>\<open>aisdk/algorithm/model\<close>, behind their \<open>RunNet\<close>, and the calculators
  \<^verbatim>\<open>hand_landmark_calculator.cpp\<close> and \<^verbatim>\<open>hand_landmark_batch_calculator.cpp\<close>, over the functions
  that crop and flip an image. The outer None stands for an access outside an array or through a
  null pointer, and for the value of a failed \<open>StatusOr\<close>.
\<close>

section \<open>The output tensors\<close>

record out_tensor =
  t_name :: string
  t_dims :: "nat list"
  t_data :: "real list"

record kpt2d_result =
  r_kpts :: "vec2 list list"
  r_rdepths :: "real list list"
  r_hold :: "bool list"
  r_feats :: "real list list"

definition empty_result :: kpt2d_result where
  "empty_result = \<lparr>r_kpts = [], r_rdepths = [], r_hold = [], r_feats = []\<rparr>"

text \<open>What \<open>Init\<close> leaves in the network: \<open>u\<close> is what a new \<open>Eigen\<close> vector holds.\<close>

record rtm_net =
  input_shape :: nat
  keypoint_num :: nat
  mul_coeff :: "real list"
  packed_out :: bool
  out_batch :: nat
  uninit_kpt :: vec2

definition hand_label_cls_thr :: real where
  "hand_label_cls_thr = 1"

definition rtm_init :: "nat list \<Rightarrow> nat list \<Rightarrow> rtm_net \<Rightarrow> rtm_net option" where
  "rtm_init in_dims out_dims n =
     (if length in_dims < 2 \<or> length out_dims < 2 then None
      else Some (n\<lparr>input_shape := in_dims ! 1, keypoint_num := out_dims ! 0, mul_coeff := linspace 0 1 (out_dims ! 1) False\<rparr>))"

text \<open>The index of a value in a tensor of a batch.\<close>

definition tensor_block :: "nat \<Rightarrow> nat \<Rightarrow> real list \<Rightarrow> real list option" where
  "tensor_block n b data = (if b * n + n \<le> length data then Some (take n (drop (b * n) data)) else None)"

definition set_hold :: "out_tensor \<Rightarrow> nat \<Rightarrow> kpt2d_result \<Rightarrow> kpt2d_result option" where
  "set_hold t b r =
     map_option (\<lambda>d. r\<lparr>r_hold := (r_hold r)[b := d ! 0 > hand_label_cls_thr]\<rparr>) (tensor_block 1 b (t_data t))"

definition resize_kpts :: "rtm_net \<Rightarrow> nat \<Rightarrow> kpt2d_result \<Rightarrow> kpt2d_result" where
  "resize_kpts n b r =
     (let ks = r_kpts r ! b; ds = r_rdepths r ! b; k = keypoint_num n
      in if length ks = k then r
         else r\<lparr>r_kpts := (r_kpts r)[b := take k ks @ replicate (k - length ks) (uninit_kpt n)],
                r_rdepths := (r_rdepths r)[b := take k ds @ replicate (k - length ds) 0]\<rparr>)"

text \<open>The inner product of the coefficients with a row of the softmax.\<close>

definition row_value :: "rtm_net \<Rightarrow> nat \<Rightarrow> real list \<Rightarrow> nat \<Rightarrow> real" where
  "row_value n w sm i = sum_list (map2 (*) (mul_coeff n) (drop (i * w) sm))"

definition feat_tensor :: "rtm_net \<Rightarrow> out_tensor \<Rightarrow> nat \<Rightarrow> kpt2d_result \<Rightarrow> kpt2d_result option" where
  "feat_tensor n t b r0 =
     (if length (t_dims t) < 2 then None
      else do {
        let h = t_dims t ! 0;
        let w = t_dims t ! 1;
        block \<leftarrow> tensor_block (h * w) b (t_data t);
        let r = resize_kpts n b r0;
        let sm = softmax_last_dim block 1 h w;
        if 0 < keypoint_num n \<and> (keypoint_num n - 1) * w + length (mul_coeff n) > h * w then None
        else Some (
          if t_name t = ''feat_x'' then
            r\<lparr>r_kpts := (r_kpts r)[b := map (\<lambda>i. (r_kpts r ! b ! i)\<lparr>v2x := row_value n w sm i * real (input_shape n)\<rparr>) [0..<keypoint_num n]]\<rparr>
          else if t_name t = ''feat_y'' then
            r\<lparr>r_kpts := (r_kpts r)[b := map (\<lambda>i. (r_kpts r ! b ! i)\<lparr>v2y := row_value n w sm i * real (input_shape n)\<rparr>) [0..<keypoint_num n]]\<rparr>
          else if t_name t = ''feat_z'' then
            r\<lparr>r_rdepths := (r_rdepths r)[b := map (\<lambda>i. (row_value n w sm i - 0.5) * 0.4) [0..<keypoint_num n]]\<rparr>
          else r)
      })"

section \<open>RTMTiny and RTMTinyFlora\<close>

definition rtm_tensor :: "rtm_net \<Rightarrow> out_tensor \<Rightarrow> nat \<Rightarrow> kpt2d_result \<Rightarrow> kpt2d_result option" where
  "rtm_tensor n t b r = (if t_name t = ''hold_cls'' then set_hold t b r else feat_tensor n t b r)"

definition flora_tensor :: "rtm_net \<Rightarrow> out_tensor \<Rightarrow> nat \<Rightarrow> kpt2d_result \<Rightarrow> kpt2d_result option" where
  "flora_tensor n t b r0 =
     (let r = r0\<lparr>r_hold := (r_hold r0)[b := False]\<rparr>
      in if t_name t = ''held_cls'' then set_hold t b r
         else if t_name t = ''raw_feats'' then
           (if length (t_dims t) < 3 then None
            else map_option (\<lambda>d. r\<lparr>r_feats := (r_feats r)[b := d]\<rparr>)
                   (tensor_block (t_dims t ! 0 * t_dims t ! 1 * t_dims t ! 2) b (t_data t)))
         else feat_tensor n t b r)"

definition post_process :: "(rtm_net \<Rightarrow> out_tensor \<Rightarrow> nat \<Rightarrow> kpt2d_result \<Rightarrow> kpt2d_result option) \<Rightarrow> bool \<Rightarrow> rtm_net
    \<Rightarrow> out_tensor list \<Rightarrow> kpt2d_result option" where
  "post_process step feats n ts =
     (if \<not> packed_out n then Some empty_result
      else fold_opt (\<lambda>t. fold_opt (step n t) [0..<out_batch n]) ts
             (empty_result\<lparr>r_kpts := replicate (out_batch n) [], r_rdepths := replicate (out_batch n) [],
                           r_hold := replicate (out_batch n) False,
                           r_feats := (if feats then replicate (out_batch n) [] else [])\<rparr>))"

definition rtm_post :: "rtm_net \<Rightarrow> out_tensor list \<Rightarrow> kpt2d_result option" where
  "rtm_post = post_process rtm_tensor False"

definition flora_post :: "rtm_net \<Rightarrow> out_tensor list \<Rightarrow> kpt2d_result option" where
  "flora_post = post_process flora_tensor True"

section \<open>RSNNano\<close>

definition rsnnano_batch :: "rtm_net \<Rightarrow> out_tensor \<Rightarrow> nat \<Rightarrow> kpt2d_result \<Rightarrow> kpt2d_result option" where
  "rsnnano_batch n t b r0 =
     (if length (t_dims t) < 2 then None
      else do {
        d \<leftarrow> tensor_block (t_dims t ! 1 * 1 * t_dims t ! 0) b (t_data t);
        let r = resize_kpts n b r0;
        if 3 * keypoint_num n > length d then None
        else Some (r\<lparr>r_kpts := (r_kpts r)[b := map (\<lambda>i. v2 (d ! (i * 3) * real (input_shape n)) (d ! (i * 3 + 1) * real (input_shape n)))
                                               [0..<keypoint_num n]],
                     r_rdepths := (r_rdepths r)[b := map (\<lambda>i. (d ! (i * 3 + 2) - 0.5) * 0.4) [0..<keypoint_num n]]\<rparr>)
      })"

definition rsnnano_post :: "rtm_net \<Rightarrow> out_tensor list \<Rightarrow> kpt2d_result option" where
  "rsnnano_post n ts =
     (if \<not> packed_out n then Some empty_result
      else fold_opt (\<lambda>t. fold_opt (rsnnano_batch n t) [0..<out_batch n]) ts
             (empty_result\<lparr>r_kpts := replicate (out_batch n) [], r_rdepths := replicate (out_batch n) []\<rparr>))"

text \<open>One run per image; only the keypoints of its first batch are kept.\<close>

fun rsnnano_inference :: "('i \<Rightarrow> out_tensor list option) \<Rightarrow> rtm_net \<Rightarrow> 'i list \<Rightarrow> kpt2d_result \<Rightarrow> kpt2d_result option option" where
  "rsnnano_inference net n [] results = Some (Some results)"
| "rsnnano_inference net n (img # imgs) results =
     (case net img of
        None \<Rightarrow> Some None
      | Some ts \<Rightarrow> Option.bind (rsnnano_post n ts) (\<lambda>r.
          if r_kpts r = [] then None
          else rsnnano_inference net n imgs (results\<lparr>r_kpts := r_kpts results @ [r_kpts r ! 0]\<rparr>)))"

definition rsnnano_infer :: "('i \<Rightarrow> out_tensor list option) \<Rightarrow> rtm_net \<Rightarrow> 'i list \<Rightarrow> kpt2d_result option option" where
  "rsnnano_infer net n images = rsnnano_inference net n images empty_result"

section \<open>The hold label\<close>

lemma resize_kpts_hold [simp]: "r_hold (resize_kpts n b r) = r_hold r"
  by (simp add: resize_kpts_def Let_def)

lemma feat_tensor_hold: "feat_tensor n t b r = Some r' \<Longrightarrow> r_hold r' = r_hold r"
  by (auto simp: feat_tensor_def Let_def bind_eq_Some_conv split: if_splits)

lemma flora_tensor_hold:
  assumes "flora_tensor n t b r = Some r'" and "b < length (r_hold r)"
  shows "length (r_hold r') = length (r_hold r) \<and> (\<forall>i. i \<noteq> b \<longrightarrow> r_hold r' ! i = r_hold r ! i) \<and>
    (r_hold r' ! b \<longleftrightarrow> t_name t = ''held_cls'' \<and> t_data t ! b > hand_label_cls_thr)"
proof -
  let ?r = "r\<lparr>r_hold := (r_hold r)[b := False]\<rparr>"
  consider (held) "t_name t = ''held_cls''" | (feats) "t_name t = ''raw_feats''" | (feat) "t_name t \<noteq> ''held_cls''" "t_name t \<noteq> ''raw_feats''"
    by blast
  then show ?thesis
  proof cases
    case held
    then show ?thesis using assms by (auto simp: flora_tensor_def set_hold_def tensor_block_def nth_list_update hd_drop_conv_nth split: if_splits)
  next
    case feats
    then show ?thesis using assms by (auto simp: flora_tensor_def Let_def split: if_splits)
  next
    case feat
    then have "feat_tensor n t b ?r = Some r'" using assms(1) by (simp add: flora_tensor_def Let_def)
    then have "r_hold r' = (r_hold r)[b := False]" using feat_tensor_hold by fastforce
    with feat assms(2) show ?thesis by simp
  qed
qed

lemma flora_batches_hold:
  assumes "fold_opt (flora_tensor n t) [0..<m] r = Some r'" and "m \<le> length (r_hold r)"
  shows "length (r_hold r') = length (r_hold r) \<and>
    (\<forall>b<m. r_hold r' ! b \<longleftrightarrow> t_name t = ''held_cls'' \<and> t_data t ! b > hand_label_cls_thr)"
  using assms
proof (induction m arbitrary: r')
  case (Suc m)
  then obtain r1 where r1: "fold_opt (flora_tensor n t) [0..<m] r = Some r1" "flora_tensor n t m r1 = Some r'"
    by (auto simp: fold_opt_snoc bind_eq_Some_conv)
  have IH: "length (r_hold r1) = length (r_hold r)" "\<forall>b<m. r_hold r1 ! b \<longleftrightarrow> t_name t = ''held_cls'' \<and> t_data t ! b > hand_label_cls_thr"
    using Suc.IH [OF r1(1)] Suc.prems(2) by auto
  have "m < length (r_hold r1)" using IH(1) Suc.prems(2) by simp
  from flora_tensor_hold [OF r1(2) this] IH show ?case by (auto simp: less_Suc_eq)
qed simp

lemma flora_post_length: "fold_opt (\<lambda>t. fold_opt (flora_tensor n t) [0..<m]) ts r = Some r' \<Longrightarrow> m \<le> length (r_hold r) \<Longrightarrow>
    length (r_hold r') = length (r_hold r)"
proof (induction ts arbitrary: r)
  case (Cons t ts)
  then obtain r1 where r1: "fold_opt (flora_tensor n t) [0..<m] r = Some r1" "fold_opt (\<lambda>t. fold_opt (flora_tensor n t) [0..<m]) ts r1 = Some r'"
    by (auto simp: bind_eq_Some_conv)
  with flora_batches_hold [OF r1(1) Cons.prems(2)] Cons.IH [OF r1(2)] Cons.prems(2) show ?case by simp
qed simp

text \<open>
  The hold label depends on the order of the output tensors: \<open>RTMTinyFlora\<close> clears the
  label of a batch at every tensor, so the label is set exactly when the classifier is the last
  tensor and its score is above the threshold.
\<close>

lemma flora_hold_label_last:
  assumes "packed_out n" and "flora_post n (ts @ [t]) = Some r" and "b < out_batch n"
  shows "r_hold r ! b \<longleftrightarrow> t_name t = ''held_cls'' \<and> t_data t ! b > hand_label_cls_thr"
proof -
  let ?r0 = "empty_result\<lparr>r_kpts := replicate (out_batch n) [], r_rdepths := replicate (out_batch n) [],
      r_hold := replicate (out_batch n) False, r_feats := replicate (out_batch n) []\<rparr>"
  obtain r1 where r1: "fold_opt (\<lambda>t. fold_opt (flora_tensor n t) [0..<out_batch n]) ts ?r0 = Some r1"
    "fold_opt (flora_tensor n t) [0..<out_batch n] r1 = Some r"
    using assms(1,2) by (auto simp: flora_post_def post_process_def fold_opt_snoc bind_eq_Some_conv)
  have "length (r_hold r1) = out_batch n" using flora_post_length [OF r1(1)] by simp
  with flora_batches_hold [OF r1(2)] assms(3) show ?thesis by simp
qed


section \<open>HandLandmarkCalculator\<close>

text \<open>
  The calculators over the functions on images (\<open>roi_crop\<close> for \<open>generate_roi_image\<close>, \<open>pcl_crop\<close> and
  \<open>pcl_crop_raw\<close> for \<open>perspective_crop_image\<close> and its raw variant between two cameras, \<open>flip_h\<close> for \<open>cv::flip\<close>) and a network. A virtual
  camera is an index of the list of the cameras allocated so far.
\<close>

record 'i landmark_env =
  roi_crop :: "'i \<Rightarrow> vec4 \<Rightarrow> 'i"
  pcl_crop :: "camera_model \<Rightarrow> camera_model \<Rightarrow> 'i \<Rightarrow> 'i"
  pcl_crop_raw :: "camera_model \<Rightarrow> camera_model \<Rightarrow> 'i \<Rightarrow> 'i"
  flip_h :: "'i \<Rightarrow> 'i"
  infer :: "'i list \<Rightarrow> kpt2d_result option option"
  net_width :: real
  net_height :: real
  bbox_expand_ratio :: real
  pcl_able :: bool
  lm_left :: camera_model
  lm_right :: "camera_model option"
  lm_lib :: camera_lib
  lm_from_two :: "vec3 \<Rightarrow> vec3 \<Rightarrow> mat3"

definition lm_open_ratio :: "real \<Rightarrow> real" where
  "lm_open_ratio option_ratio = (if option_ratio > 0 then option_ratio else 1.3)"

definition lm_open_cameras :: "camera_model list \<Rightarrow> (camera_model \<times> camera_model option) option" where
  "lm_open_cameras cam_info =
     (if cam_info = [] then None
      else Some (cam_info ! 0, if length cam_info = 2 then Some (cam_info ! 1) else None))"

text \<open>A copy into a vector: the values past the end of the range stay.\<close>

definition copy_into :: "'a list \<Rightarrow> 'a list \<Rightarrow> 'a list option" where
  "copy_into xs ys = (if length xs < length ys then None else Some (ys @ drop (length ys) xs))"

definition new_kpt2d :: "vec2 \<Rightarrow> kpt2d_internal" where
  "new_kpt2d z =
     \<lparr>lhand_lcam_kpt = replicate 21 z, lhand_rcam_kpt = replicate 21 z, rhand_lcam_kpt = replicate 21 z,
      rhand_rcam_kpt = replicate 21 z, lhand_lcam_rdepth = replicate 21 0, lhand_rcam_rdepth = replicate 21 0,
      rhand_lcam_rdepth = replicate 21 0, rhand_rcam_rdepth = replicate 21 0,
      lhand_lcam_virtual_camera = None, lhand_rcam_virtual_camera = None,
      rhand_lcam_virtual_camera = None, rhand_rcam_virtual_camera = None,
      k_lhand_lcam_valid = False, k_lhand_rcam_valid = False, k_rhand_lcam_valid = False, k_rhand_rcam_valid = False,
      lhand_hold_label = False, rhand_hold_label = False, lhand_lcam_raw_feats = [], lhand_lcam_pred_x = [],
      lhand_lcam_pred_y = [], rhand_rcam_raw_feats = [], rhand_rcam_pred_x = [], rhand_rcam_pred_y = []\<rparr>"

text \<open>One hand in one image: its keypoints, relative depths, virtual camera and validity.\<close>

record hand_slot =
  hs_kpt :: "vec2 list"
  hs_rdepth :: "real list"
  hs_cam :: "nat option"
  hs_valid :: bool

definition virtual_camera :: "'i landmark_env \<Rightarrow> camera_model \<Rightarrow> vec4 \<Rightarrow> camera_model" where
  "virtual_camera env cam rect =
     GetVirtualCameraFromBox (lm_lib env) (lm_from_two env) cam rect (v2 (net_width env) (net_height env))"

definition mirror_kpt :: "'i landmark_env \<Rightarrow> vec2 \<Rightarrow> vec2" where
  "mirror_kpt env k = v2 (net_width env - 1 - v2x k) (v2y k)"

text \<open>
  The crop: the right image, too, is cropped with the left camera of the calculator
  (\<open>lcam_model_\<close>), not with the camera of the hand.
\<close>

definition lm_crop :: "'i landmark_env \<Rightarrow> 'i \<Rightarrow> vec4 \<Rightarrow> bool \<Rightarrow> bool \<Rightarrow> camera_model option \<Rightarrow> ('i \<times> camera_model option) option" where
  "lm_crop env img rect left affine cam =
     map_option (\<lambda>(c, vc). (if left then flip_h env c else c, vc))
       (if affine then Some (roi_crop env img rect, None)
        else map_option (\<lambda>orig. let vc = virtual_camera env orig rect in (pcl_crop env (lm_left env) vc img, Some vc)) cam)"

definition lm_points :: "'i landmark_env \<Rightarrow> vec4 \<Rightarrow> bool \<Rightarrow> bool \<Rightarrow> vec2 list \<Rightarrow> vec2 list \<Rightarrow> vec2 list option" where
  "lm_points env rect left affine kpt net_kpts =
     (if affine then copy_into kpt (map (uncrop_kpt (net_width env) (net_height env) rect left) net_kpts)
      else if left then copy_into kpt (map (mirror_kpt env) net_kpts)
      else Some net_kpts)"

definition lm_single :: "'i landmark_env \<Rightarrow> 'i list \<Rightarrow> nat \<Rightarrow> detect_rect \<Rightarrow> bool \<Rightarrow> bool \<Rightarrow> camera_model option
    \<Rightarrow> camera_model list \<times> hand_slot \<Rightarrow> (camera_model list \<times> hand_slot) option" where
  "lm_single env images i bbox left affine cam acc =
     (if length images \<le> i then None
      else do {
        let rect = GetCropBboxShape bbox (bbox_expand_ratio env);
        (crop, vc) \<leftarrow> lm_crop env (images ! i) rect left affine cam;
        let heap = fst acc @ (case vc of None \<Rightarrow> [] | Some c \<Rightarrow> [c]);
        let s = (case vc of None \<Rightarrow> snd acc | Some c \<Rightarrow> (snd acc)\<lparr>hs_cam := Some (length (fst acc))\<rparr>);
        res \<leftarrow> infer env [crop];
        case res of
          None \<Rightarrow> Some (heap, s)
        | Some r \<Rightarrow>
            if r_kpts r = [] then None
            else do {
              k \<leftarrow> lm_points env rect left affine (hs_kpt s) (r_kpts r ! 0);
              d \<leftarrow> (if r_rdepths r = [] then Some (hs_rdepth s) else copy_into (hs_rdepth s) (r_rdepths r ! 0));
              Some (heap, s\<lparr>hs_kpt := k, hs_rdepth := d, hs_valid := True\<rparr>)
            }
      })"

definition new_slot :: "vec2 \<Rightarrow> hand_slot" where
  "new_slot z = \<lparr>hs_kpt = replicate 21 z, hs_rdepth = replicate 21 0, hs_cam = None, hs_valid = False\<rparr>"

definition lm_slot :: "'i landmark_env \<Rightarrow> vec2 \<Rightarrow> 'i list \<Rightarrow> nat \<Rightarrow> detect_rect \<Rightarrow> bool \<Rightarrow> bool \<Rightarrow> camera_model option
    \<Rightarrow> bool \<Rightarrow> camera_model list \<Rightarrow> (camera_model list \<times> hand_slot) option" where
  "lm_slot env z images i bbox left affine cam valid heap =
     (if valid then lm_single env images i bbox left affine cam (heap, new_slot z) else Some (heap, new_slot z))"

definition hand_landmark_process :: "'i landmark_env \<Rightarrow> vec2 \<Rightarrow> 'i list option \<Rightarrow> det_output option \<Rightarrow> camera_model list
    \<Rightarrow> (camera_model list \<times> kpt2d_internal option) option" where
  "hand_landmark_process env z image_input bbox_input heap =
     (case (image_input, bbox_input) of
        (Some images, Some bbox) \<Rightarrow> do {
          let left_affine = (lhand_lcam_valid bbox \<and> lhand_rcam_valid bbox);
          let right_affine = (rhand_lcam_valid bbox \<and> rhand_rcam_valid bbox);
          let l = Some (lm_left env);
          let r = lm_right env;
          (h1, ll) \<leftarrow> lm_slot env z images 0 (lhand_lcam_rect bbox) True left_affine l (lhand_lcam_valid bbox) heap;
          (h2, lr) \<leftarrow> lm_slot env z images 1 (lhand_rcam_rect bbox) True left_affine r (lhand_rcam_valid bbox) h1;
          (h3, rl) \<leftarrow> lm_slot env z images 0 (rhand_lcam_rect bbox) False right_affine l (rhand_lcam_valid bbox) h2;
          (h4, rr) \<leftarrow> lm_slot env z images 1 (rhand_rcam_rect bbox) False right_affine r (rhand_rcam_valid bbox) h3;
          Some (h4, Some ((new_kpt2d z)
            \<lparr>lhand_lcam_kpt := hs_kpt ll, lhand_rcam_kpt := hs_kpt lr, rhand_lcam_kpt := hs_kpt rl, rhand_rcam_kpt := hs_kpt rr,
             lhand_lcam_rdepth := hs_rdepth ll, lhand_rcam_rdepth := hs_rdepth lr, rhand_lcam_rdepth := hs_rdepth rl,
             rhand_rcam_rdepth := hs_rdepth rr, lhand_lcam_virtual_camera := hs_cam ll, lhand_rcam_virtual_camera := hs_cam lr,
             rhand_lcam_virtual_camera := hs_cam rl, rhand_rcam_virtual_camera := hs_cam rr,
             k_lhand_lcam_valid := hs_valid ll, k_lhand_rcam_valid := hs_valid lr, k_rhand_lcam_valid := hs_valid rl,
             k_rhand_rcam_valid := hs_valid rr\<rparr>))
        }
      | _ \<Rightarrow> Some (heap, None))"

section \<open>HandLandmarkBatchCalculator\<close>

definition mono_valid_bbox_area :: real where
  "mono_valid_bbox_area = 15000"

definition bbox_area :: "detect_rect \<Rightarrow> real" where
  "bbox_area b = rw b * rh b"

record mono_slot = hand_slot +
  ms_pred_x :: "real list"
  ms_pred_y :: "real list"
  ms_raw_feats :: "real list"
  ms_hold :: bool

text \<open>A hand in one image, which fills both inputs of the network. The first component is the status.\<close>

definition batch_single :: "'i landmark_env \<Rightarrow> 'i list \<Rightarrow> nat \<Rightarrow> detect_rect \<Rightarrow> bool \<Rightarrow> camera_model option
    \<Rightarrow> camera_model list \<times> mono_slot \<Rightarrow> (bool \<times> camera_model list \<times> mono_slot) option" where
  "batch_single env images i bbox left cam acc =
     (case cam of
        None \<Rightarrow> None
      | Some orig \<Rightarrow>
          if length images \<le> i then None
          else do {
            let rect = GetCropBboxShape bbox (bbox_expand_ratio env);
            let vc = virtual_camera env orig rect;
            let heap = fst acc @ [vc];
            let s = (snd acc)\<lparr>hs_cam := Some (length (fst acc))\<rparr>;
            let c = pcl_crop_raw env orig vc (images ! i);
            let crop = (if left then flip_h env c else c);
            res \<leftarrow> infer env [crop, crop];
            case res of
              None \<Rightarrow> Some (False, heap, s)
            | Some r \<Rightarrow>
                if r_kpts r = [] \<or> r_feats r = [] then None
                else do {
                  k \<leftarrow> lm_points env rect left False (hs_kpt s) (r_kpts r ! 0);
                  Some (True, heap, s\<lparr>hs_kpt := k,
                    ms_pred_x := ms_pred_x s @ map v2x (r_kpts r ! 0),
                    ms_pred_y := ms_pred_y s @ map v2y (r_kpts r ! 0),
                    ms_raw_feats := r_feats r ! 0,
                    ms_hold := (if r_hold r = [] then ms_hold s else r_hold r ! 0)\<rparr>)
                }
          })"

text \<open>
  A hand in both images. The line that traces the first keypoints reads the value of the
  inference before its status is looked at, so a failed inference ends the process.
\<close>

record pair_slot =
  ps_lkpt :: "vec2 list"
  ps_rkpt :: "vec2 list"
  ps_lcam :: "nat option"
  ps_rcam :: "nat option"
  ps_hold :: bool
  ps_valid :: bool

definition batch_crop :: "'i landmark_env \<Rightarrow> 'i \<Rightarrow> vec4 \<Rightarrow> bool \<Rightarrow> bool \<Rightarrow> camera_model option \<Rightarrow> ('i \<times> camera_model option) option" where
  "batch_crop env img rect left affine cam =
     map_option (\<lambda>(c, vc). (if left then flip_h env c else c, vc))
       (if affine then Some (roi_crop env img rect, None)
        else map_option (\<lambda>orig. let vc = virtual_camera env orig rect in (pcl_crop env orig vc img, Some vc)) cam)"

definition batch_points :: "'i landmark_env \<Rightarrow> vec4 \<Rightarrow> bool \<Rightarrow> bool \<Rightarrow> vec2 list \<Rightarrow> vec2 list \<Rightarrow> vec2 list option" where
  "batch_points env rect left affine kpt net_kpts =
     copy_into kpt (map (if affine then uncrop_kpt (net_width env) (net_height env) rect left
                         else if left then mirror_kpt env else (\<lambda>k. k)) net_kpts)"

definition batch_pair :: "'i landmark_env \<Rightarrow> 'i list \<Rightarrow> detect_rect \<Rightarrow> detect_rect \<Rightarrow> bool \<Rightarrow> bool
    \<Rightarrow> camera_model list \<times> pair_slot \<Rightarrow> (camera_model list \<times> pair_slot) option" where
  "batch_pair env images lbox rbox left affine acc =
     (if length images < 2 then None
      else do {
        let lrect = GetCropBboxShape lbox (bbox_expand_ratio env);
        let rrect = GetCropBboxShape rbox (bbox_expand_ratio env);
        (lc, lv) \<leftarrow> batch_crop env (images ! 0) lrect left affine (Some (lm_left env));
        (rc, rv) \<leftarrow> batch_crop env (images ! 1) rrect left affine (lm_right env);
        let n = length (fst acc);
        let heap = fst acc @ (case lv of None \<Rightarrow> [] | Some c \<Rightarrow> [c]) @ (case rv of None \<Rightarrow> [] | Some c \<Rightarrow> [c]);
        let s = (if affine then snd acc else (snd acc)\<lparr>ps_lcam := Some n, ps_rcam := Some (n + 1)\<rparr>);
        res \<leftarrow> infer env [lc, rc];
        r \<leftarrow> res;
        if length (r_kpts r) < 2 \<or> r_kpts r ! 0 = [] \<or> r_kpts r ! 1 = [] then None
        else do {
          lk \<leftarrow> batch_points env lrect left affine (ps_lkpt s) (r_kpts r ! 0);
          rk \<leftarrow> batch_points env rrect left affine (ps_rkpt s) (r_kpts r ! 1);
          hold \<leftarrow> (if r_hold r = [] then Some (ps_hold s)
                  else if length (r_hold r) < 2 then None
                  else Some (r_hold r ! 0 \<and> r_hold r ! 1));
          Some (heap, s\<lparr>ps_lkpt := lk, ps_rkpt := rk, ps_hold := hold, ps_valid := True\<rparr>)
        }
      })"

definition new_pair :: "vec2 \<Rightarrow> pair_slot" where
  "new_pair z = \<lparr>ps_lkpt = replicate 21 z, ps_rkpt = replicate 21 z, ps_lcam = None, ps_rcam = None, ps_hold = False, ps_valid = False\<rparr>"

text \<open>The mono branch works on the slot of the pair: it writes the keypoints of its own image.\<close>

definition batch_mono :: "'i landmark_env \<Rightarrow> 'i list \<Rightarrow> nat \<Rightarrow> detect_rect \<Rightarrow> bool \<Rightarrow> camera_model option
    \<Rightarrow> camera_model list \<Rightarrow> vec2 list \<Rightarrow> nat option \<Rightarrow> bool \<Rightarrow> (camera_model list \<times> mono_slot) option" where
  "batch_mono env images i bbox left cam heap kpt vcam hold = do {
     (ok, h, s) \<leftarrow> batch_single env images i bbox left cam
       (heap, \<lparr>hs_kpt = kpt, hs_rdepth = [], hs_cam = vcam, hs_valid = False, ms_pred_x = [], ms_pred_y = [], ms_raw_feats = [], ms_hold = hold\<rparr>);
     Some (h, s\<lparr>hs_valid := (ok \<and> bbox_area bbox < mono_valid_bbox_area)\<rparr>)
   }"

definition no_mono :: "vec2 list \<Rightarrow> nat option \<Rightarrow> bool \<Rightarrow> bool \<Rightarrow> mono_slot" where
  "no_mono kpt vcam hold valid =
     \<lparr>hs_kpt = kpt, hs_rdepth = [], hs_cam = vcam, hs_valid = valid, ms_pred_x = [], ms_pred_y = [], ms_raw_feats = [], ms_hold = hold\<rparr>"

text \<open>The two hands seen by both cameras first, then the left hand of the left image and the right hand of the right image.\<close>

definition hand_landmark_batch_process :: "'i landmark_env \<Rightarrow> vec2 \<Rightarrow> 'i list option \<Rightarrow> det_output option \<Rightarrow> camera_model list
    \<Rightarrow> (camera_model list \<times> kpt2d_internal option) option" where
  "hand_landmark_batch_process env z image_input bbox_input heap =
     (case (image_input, bbox_input) of
        (Some images, Some b) \<Rightarrow> do {
          let affine = (\<not> pcl_able env);
          (h1, lp) \<leftarrow> (if lhand_lcam_valid b \<and> lhand_rcam_valid b
                      then batch_pair env images (lhand_lcam_rect b) (lhand_rcam_rect b) True affine (heap, new_pair z)
                      else Some (heap, new_pair z));
          (h2, rp) \<leftarrow> (if rhand_lcam_valid b \<and> rhand_rcam_valid b
                      then batch_pair env images (rhand_lcam_rect b) (rhand_rcam_rect b) False affine (h1, new_pair z)
                      else Some (h1, new_pair z));
          (h3, lm) \<leftarrow> (if lhand_lcam_valid b \<and> \<not> lhand_rcam_valid b
                      then batch_mono env images 0 (lhand_lcam_rect b) True (Some (lm_left env)) h2 (ps_lkpt lp) (ps_lcam lp) (ps_hold lp)
                      else Some (h2, no_mono (ps_lkpt lp) (ps_lcam lp) (ps_hold lp) (ps_valid lp)));
          (h4, rm) \<leftarrow> (if rhand_rcam_valid b \<and> \<not> rhand_lcam_valid b
                      then batch_mono env images 1 (rhand_rcam_rect b) False (lm_right env) h3 (ps_rkpt rp) (ps_rcam rp) (ps_hold rp)
                      else Some (h3, no_mono (ps_rkpt rp) (ps_rcam rp) (ps_hold rp) (ps_valid rp)));
          Some (h4, Some ((new_kpt2d z)
            \<lparr>lhand_lcam_kpt := hs_kpt lm, lhand_rcam_kpt := ps_rkpt lp, rhand_lcam_kpt := ps_lkpt rp, rhand_rcam_kpt := hs_kpt rm,
             lhand_lcam_virtual_camera := hs_cam lm, lhand_rcam_virtual_camera := ps_rcam lp,
             rhand_lcam_virtual_camera := ps_lcam rp, rhand_rcam_virtual_camera := hs_cam rm,
             k_lhand_lcam_valid := hs_valid lm, k_lhand_rcam_valid := ps_valid lp,
             k_rhand_lcam_valid := ps_valid rp, k_rhand_rcam_valid := hs_valid rm,
             lhand_hold_label := ms_hold lm, rhand_hold_label := ms_hold rm,
             lhand_lcam_raw_feats := ms_raw_feats lm, lhand_lcam_pred_x := ms_pred_x lm, lhand_lcam_pred_y := ms_pred_y lm,
             rhand_rcam_raw_feats := ms_raw_feats rm, rhand_rcam_pred_x := ms_pred_x rm, rhand_rcam_pred_y := ms_pred_y rm\<rparr>))
        }
      | _ \<Rightarrow> Some (heap, None))"

section \<open>An environment to run the calculators in\<close>

definition example_landmarks :: "(nat list \<Rightarrow> kpt2d_result option option) \<Rightarrow> nat landmark_env" where
  "example_landmarks net =
     \<lparr>roi_crop = (\<lambda>i _. i), pcl_crop = (\<lambda>_ _ i. i), pcl_crop_raw = (\<lambda>_ _ i. i), flip_h = (\<lambda>i. i), infer = net,
      net_width = 128, net_height = 128, bbox_expand_ratio = 1.3, pcl_able = False,
      lm_left = example_camera, lm_right = Some example_camera,
      lm_lib = \<lparr>radial_undistort = (\<lambda>k p. p), fisheye_undistort = (\<lambda>k p. p), fisheye624_distort = (\<lambda>k p. p), fisheye624_undistort = (\<lambda>k p. p)\<rparr>,
      lm_from_two = (\<lambda>a b. mat3_identity)\<rparr>"

definition example_box :: detect_rect where
  "example_box = \<lparr>rx = 10, ry = 10, rw = 100, rh = 100, confidence = 1, left_confidence = 1, right_confidence = 0,
     is_left = True, nms_suppressed = False\<rparr>"

definition example_detection :: "bool \<Rightarrow> bool \<Rightarrow> det_output" where
  "example_detection l r =
     \<lparr>images_lhand_rects = [], images_rhand_rects = [], lhand_lcam_rect = example_box, lhand_rcam_rect = example_box,
      rhand_lcam_rect = example_box, rhand_rcam_rect = example_box, lhand_lcam_valid = l, lhand_rcam_valid = r,
      rhand_lcam_valid = False, rhand_rcam_valid = False, det_flag = True\<rparr>"

definition example_net :: rtm_net where
  "example_net = \<lparr>input_shape = 4, keypoint_num = 1, mul_coeff = [], packed_out = True, out_batch = 1, uninit_kpt = v2 0 0\<rparr>"

definition example_tensor :: out_tensor where
  "example_tensor = \<lparr>t_name = ''kpt'', t_dims = [1, 3], t_data = [1/2, 1/4, 1]\<rparr>"

lemma example_nano:
  "rsnnano_infer (\<lambda>_. Some [example_tensor]) example_net [i] = Some (Some (empty_result\<lparr>r_kpts := [[v2 2 1]]\<rparr>))"
  by (simp add: rsnnano_infer_def rsnnano_post_def rsnnano_batch_def example_net_def example_tensor_def empty_result_def
      tensor_block_def resize_kpts_def Let_def)

section \<open>What the network of RSNNano leaves out\<close>

lemma rsnnano_inference_only_kpts:
  "rsnnano_inference net n imgs res = Some (Some r) \<Longrightarrow>
     r_rdepths r = r_rdepths res \<and> r_hold r = r_hold res \<and> r_feats r = r_feats res \<and> length (r_kpts r) = length (r_kpts res) + length imgs"
proof (induction imgs arbitrary: res)
  case (Cons img imgs)
  from Cons.prems obtain p where
    "rsnnano_inference net n imgs (res\<lparr>r_kpts := r_kpts res @ [p]\<rparr>) = Some (Some r)"
    by (auto simp: bind_eq_Some_conv split: option.splits if_splits)
  from Cons.IH [OF this] show ?case by simp
qed simp

lemma lm_slot_no_depths:
  assumes "\<And>imgs r. infer env imgs = Some (Some r) \<Longrightarrow> r_rdepths r = []"
    and "lm_slot env z images i bbox left affine cam valid heap = Some (h, s)"
  shows "hs_rdepth s = replicate 21 0"
  using assms(2)
  by (auto simp: lm_slot_def lm_single_def new_slot_def Let_def bind_eq_Some_conv assms(1) split: if_splits option.splits)

text \<open>
  With the network \<open>2d_rsnnano\<close> the landmark calculator never delivers a relative depth: the
  network computes the depths of every image, its \<open>Inference\<close> keeps the keypoints only, and the
  four depth vectors of the output hold the zeros they were created with.
\<close>

lemma nano_depths_zero:
  assumes "infer env = rsnnano_infer net n"
    and "hand_landmark_process env z images bbox heap = Some (heap', Some k)"
  shows "lhand_lcam_rdepth k = replicate 21 0 \<and> lhand_rcam_rdepth k = replicate 21 0 \<and>
    rhand_lcam_rdepth k = replicate 21 0 \<and> rhand_rcam_rdepth k = replicate 21 0"
proof -
  have none: "r_rdepths r = []" if "infer env imgs = Some (Some r)" for imgs r
    using rsnnano_inference_only_kpts that assms(1) by (fastforce simp: rsnnano_infer_def empty_result_def)
  note slot = lm_slot_no_depths [OF none]
  show ?thesis
    using assms(2) by (auto simp: hand_landmark_process_def Let_def bind_eq_Some_conv slot split: option.splits)
qed

section \<open>Failures and sides of the batch calculator\<close>

lemma batch_mono_failure:
  assumes "infer env = (\<lambda>_. Some None)" and "length images = 2"
  shows "batch_mono env images i bbox left (Some cam) heap kpt vcam hold =
    (if i < 2 then Some (heap @ [virtual_camera env cam (GetCropBboxShape bbox (bbox_expand_ratio env))],
       no_mono kpt (Some (length heap)) hold False) else None)"
  using assms by (simp add: batch_mono_def batch_single_def no_mono_def Let_def)

lemma batch_pair_failure:
  "infer env = (\<lambda>_. Some None) \<Longrightarrow> batch_pair env images lbox rbox left affine acc = None"
  by (auto simp: batch_pair_def Let_def bind_eq_None_conv)

text \<open>
  A failed inference of the batch calculator ends the process exactly when a hand is seen
  by both cameras: the line that traces the first keypoints dereferences the result before its
  status is tested. The same failure on a hand seen by one camera only leaves that hand invalid.
\<close>

lemma batch_failure_aborts:
  assumes "infer env = (\<lambda>_. Some None)" and "length images = 2" and "lm_right env = Some rcam"
  shows "hand_landmark_batch_process env z (Some images) (Some b) heap = None \<longleftrightarrow>
    lhand_lcam_valid b \<and> lhand_rcam_valid b \<or> rhand_lcam_valid b \<and> rhand_rcam_valid b"
  using batch_pair_failure [OF assms(1)] batch_mono_failure [OF assms(1,2)] assms(3)
  by (simp add: hand_landmark_batch_process_def Let_def)

lemma batch_pair_valid:
  "batch_pair env images lbox rbox left affine acc = Some (h, s) \<Longrightarrow> ps_valid s"
  by (auto simp: batch_pair_def Let_def bind_eq_Some_conv split: if_splits)

lemma batch_single_status:
  assumes "\<And>imgs. infer env imgs \<noteq> Some None"
    and "batch_single env images i bbox left cam acc = Some (status, h, s)"
  shows "status"
proof -
  obtain crops res where r: "infer env crops = Some res" and st: "res = None \<Longrightarrow> \<not> status" "res \<noteq> None \<Longrightarrow> status"
    using assms(2) by (cases cam) (auto simp: batch_single_def Let_def bind_eq_Some_conv split: if_splits option.splits)
  then show ?thesis using assms(1) [of crops] by (cases res) auto
qed

lemma batch_mono_valid:
  assumes "\<And>imgs. infer env imgs \<noteq> Some None"
    and "batch_mono env images i bbox left cam heap kpt vcam hold = Some (h, s)"
  shows "hs_valid s \<longleftrightarrow> bbox_area bbox < mono_valid_bbox_area"
  using assms(2) batch_single_status [OF assms(1)] by (auto simp: batch_mono_def bind_eq_Some_conv)

text \<open>
  C38: which hands the batch calculator reports when its network works. A hand seen by both
  cameras is reported in both images, whatever the size of its box. A hand seen by one camera is
  reported only in its own image (the left hand in the left image, the right hand in the right
  one) and only if the area of its box is below 15000; a left hand seen by the right camera
  alone, and a right hand seen by the left camera alone, are never reported.
\<close>

theorem batch_reported_hands:
  assumes "\<And>imgs. infer env imgs \<noteq> Some None"
    and "hand_landmark_batch_process env z (Some images) (Some b) heap = Some (heap', Some k)"
  shows "(k_lhand_lcam_valid k \<longleftrightarrow> lhand_lcam_valid b \<and> (lhand_rcam_valid b \<or> bbox_area (lhand_lcam_rect b) < 15000)) \<and>
    (k_lhand_rcam_valid k \<longleftrightarrow> lhand_lcam_valid b \<and> lhand_rcam_valid b) \<and>
    (k_rhand_rcam_valid k \<longleftrightarrow> rhand_rcam_valid b \<and> (rhand_lcam_valid b \<or> bbox_area (rhand_rcam_rect b) < 15000)) \<and>
    (k_rhand_lcam_valid k \<longleftrightarrow> rhand_lcam_valid b \<and> rhand_rcam_valid b)"
proof -
  obtain h1 lp h2 rp h3 lm h4 rm where
    lp: "(if lhand_lcam_valid b \<and> lhand_rcam_valid b
           then batch_pair env images (lhand_lcam_rect b) (lhand_rcam_rect b) True (\<not> pcl_able env) (heap, new_pair z)
           else Some (heap, new_pair z)) = Some (h1, lp)" and
    rp: "(if rhand_lcam_valid b \<and> rhand_rcam_valid b
           then batch_pair env images (rhand_lcam_rect b) (rhand_rcam_rect b) False (\<not> pcl_able env) (h1, new_pair z)
           else Some (h1, new_pair z)) = Some (h2, rp)" and
    lm: "(if lhand_lcam_valid b \<and> \<not> lhand_rcam_valid b
           then batch_mono env images 0 (lhand_lcam_rect b) True (Some (lm_left env)) h2 (ps_lkpt lp) (ps_lcam lp) (ps_hold lp)
           else Some (h2, no_mono (ps_lkpt lp) (ps_lcam lp) (ps_hold lp) (ps_valid lp))) = Some (h3, lm)" and
    rm: "(if rhand_rcam_valid b \<and> \<not> rhand_lcam_valid b
           then batch_mono env images 1 (rhand_rcam_rect b) False (lm_right env) h3 (ps_rkpt rp) (ps_rcam rp) (ps_hold rp)
           else Some (h3, no_mono (ps_rkpt rp) (ps_rcam rp) (ps_hold rp) (ps_valid rp))) = Some (h4, rm)" and
    flags: "k_lhand_lcam_valid k = hs_valid lm" "k_lhand_rcam_valid k = ps_valid lp"
      "k_rhand_lcam_valid k = ps_valid rp" "k_rhand_rcam_valid k = hs_valid rm"
    using assms(2) unfolding hand_landmark_batch_process_def Let_def by (auto simp: bind_eq_Some_conv)
  have "ps_valid lp \<longleftrightarrow> lhand_lcam_valid b \<and> lhand_rcam_valid b"
    using lp batch_pair_valid by (fastforce simp: new_pair_def split: if_splits)
  moreover have "ps_valid rp \<longleftrightarrow> rhand_lcam_valid b \<and> rhand_rcam_valid b"
    using rp batch_pair_valid by (fastforce simp: new_pair_def split: if_splits)
  moreover have "hs_valid lm \<longleftrightarrow> (if lhand_lcam_valid b \<and> \<not> lhand_rcam_valid b then bbox_area (lhand_lcam_rect b) < 15000 else ps_valid lp)"
    using lm batch_mono_valid [OF assms(1)] by (fastforce simp: no_mono_def mono_valid_bbox_area_def split: if_splits)
  moreover have "hs_valid rm \<longleftrightarrow> (if rhand_rcam_valid b \<and> \<not> rhand_lcam_valid b then bbox_area (rhand_rcam_rect b) < 15000 else ps_valid rp)"
    using rm batch_mono_valid [OF assms(1)] by (fastforce simp: no_mono_def mono_valid_bbox_area_def split: if_splits)
  ultimately show ?thesis unfolding flags by auto
qed

theorem batch_reported_hands_witness:
  "\<exists>heap k. hand_landmark_batch_process (example_landmarks (\<lambda>_. Some (Some (empty_result\<lparr>r_kpts := [[v2 2 1]], r_feats := [[1]]\<rparr>))))
     (v2 0 0) (Some [0, 1]) (Some (example_detection True False)) [] = Some (heap, Some k) \<and>
     k_lhand_lcam_valid k \<and> \<not> k_lhand_rcam_valid k"
proof -
  let ?env = "example_landmarks (\<lambda>_. Some (Some (empty_result\<lparr>r_kpts := [[v2 2 1]], r_feats := [[1]]\<rparr>)))"
  have e: "infer ?env imgs \<noteq> Some None" for imgs by (simp add: example_landmarks_def)
  have "\<exists>heap k. hand_landmark_batch_process ?env (v2 0 0) (Some [0, 1]) (Some (example_detection True False)) [] = Some (heap, Some k)"
    by (simp add: hand_landmark_batch_process_def batch_mono_def batch_single_def lm_points_def example_detection_def
        example_landmarks_def new_pair_def copy_into_def Let_def empty_result_def)
  then obtain heap and k :: kpt2d_internal where
    k: "hand_landmark_batch_process ?env (v2 0 0) (Some [0, 1]) (Some (example_detection True False)) [] = Some (heap, Some k)"
    by blast
  with batch_reported_hands [OF e k] show ?thesis
    by (auto simp: example_detection_def bbox_area_def example_box_def)
qed

end
