(* ===== verification/HandDetect.thy ===== *)
theory HandDetect
  imports Boxes
begin

text \<open>
  The detection networks \<open>HandDetectNet\<close> and \<open>HandDetectNetv2\<close>
  (\<^verbatim>\<open>aisdk/algorithm/model/hand_detect.{h,cpp}\<close>): the grid of anchors, the decoding of the output
  tensors, the choice of one box per hand and the loops of \<open>Inference\<close>. The resizing of the pixels
  is not modelled: a tensor of inputs is the list of the images last written to it, and \<open>RunNet\<close> is a
  function from that list to the output tensors. The outer None stands for a read outside a tensor or
  of a variable that was never assigned.
\<close>

section \<open>Shapes\<close>

datatype tensor_format = FmtUnknown | NCHW | NHWC | CHW | HWC | FmtHW | FmtW

datatype vendor_type = VendorUnknown | SNPE | QNN | MNN | OtherVendor

definition checkshapeformat :: "vendor_type \<Rightarrow> nat \<Rightarrow> tensor_format" where
  "checkshapeformat vendor rank =
     (if vendor = SNPE then
        (if rank = 1 then FmtW else if rank = 2 then FmtHW else if rank = 3 then HWC else if rank = 4 then NHWC else FmtUnknown)
      else if vendor = MNN then
        (if rank = 1 then FmtW else if rank = 2 then FmtHW else if rank = 3 then CHW else if rank = 4 then NCHW else FmtUnknown)
      else FmtUnknown)"

text \<open>Height, width and channels; for other formats the variables keep no value.\<close>

definition dims3 :: "tensor_format \<Rightarrow> nat list \<Rightarrow> (nat \<times> nat \<times> nat) option" where
  "dims3 f d =
     (if length d < 3 then None
      else if f = CHW then Some (d ! 1, d ! 2, d ! 0)
      else if f = HWC then Some (d ! 0, d ! 1, d ! 2)
      else None)"

definition cell_index :: "tensor_format \<Rightarrow> nat \<Rightarrow> nat \<Rightarrow> nat \<Rightarrow> nat \<Rightarrow> nat \<Rightarrow> nat \<Rightarrow> nat" where
  "cell_index f h w c k i j = (if f = HWC then i * w * c + j * c + k else k * h * w + i * w + j)"

definition read_at :: "'a list \<Rightarrow> nat \<Rightarrow> 'a option" where
  "read_at xs i = (if i < length xs then Some (xs ! i) else None)"

section \<open>The network and its anchors\<close>

record grid_anchor =
  grid_x :: real
  grid_y :: real
  anchor_rw :: real
  anchor_rh :: real

record 'i det_net =
  det_in_format :: tensor_format
  det_out_format :: tensor_format
  det_in_dims :: "nat list list"
  det_in_batch :: nat
  det_in_packed :: bool
  det_out_batch :: nat
  det_out_packed :: bool
  det_grid_h :: nat
  det_grid_w :: nat
  det_anchors :: "grid_anchor list"
  det_origin :: "(nat \<times> nat) option"
  det_input :: "'i list"
  net_batch1 :: bool
  session_batch :: nat

record det_tensor =
  dt_dims :: "nat list"
  dt_data :: "real list"

definition FEATURE_NUM :: nat where
  "FEATURE_NUM = 7"

definition score_threshold :: real where
  "score_threshold = 0.5"

definition iou_threshold :: real where
  "iou_threshold = 0.45"

definition grid_stride :: nat where
  "grid_stride = 16"

definition make_anchors :: "nat \<Rightarrow> nat \<Rightarrow> grid_anchor list" where
  "make_anchors gh gw =
     concat (map (\<lambda>i. map (\<lambda>j. \<lparr>grid_x = - 0.5 + real j, grid_y = - 0.5 + real i, anchor_rw = 33, anchor_rh = 30\<rparr>) [0..<gw])
       [0..<gh])"

text \<open>\<open>Init\<close> after the base class: the batch is split when the model wants it, and the grid comes from the input.\<close>

definition det_init :: "bool \<Rightarrow> nat \<Rightarrow> vendor_type \<Rightarrow> nat \<Rightarrow> nat \<Rightarrow> 'i det_net \<Rightarrow> 'i det_net option" where
  "det_init dont_batch batch vendor in_rank out_rank net =
     (if det_in_dims net = [] then None
      else
        let f = checkshapeformat vendor in_rank;
            d = det_in_dims net ! 0;
            hw = (case dims3 f d of None \<Rightarrow> (0, 0) | Some (h, w, c) \<Rightarrow> (h, w));
            gh = fst hw div grid_stride;
            gw = snd hw div grid_stride;
            split = (dont_batch \<and> batch > 1)
        in if (f = CHW \<or> f = HWC) \<and> length d < 3 then None
           else Some (net\<lparr>det_in_format := f, det_out_format := checkshapeformat vendor out_rank,
                          det_grid_h := gh, det_grid_w := gw, det_anchors := make_anchors gh gw,
                          net_batch1 := (split \<or> net_batch1 net),
                          session_batch := (if split then batch else session_batch net)\<rparr>))"

section \<open>Decoding a cell\<close>

definition decode_box :: "grid_anchor \<Rightarrow> real \<Rightarrow> real \<Rightarrow> real \<Rightarrow> real \<Rightarrow> real \<Rightarrow> real \<Rightarrow> real \<Rightarrow> bool \<Rightarrow> detect_rect" where
  "decode_box a c0 c1 c2 c3 sc l r left =
     (let w = (c2 * 2) ^ 2 * anchor_rw a;
          h = (c3 * 2) ^ 2 * anchor_rh a
      in \<lparr>rx = (c0 * 2 + grid_x a) * real grid_stride - w / 2, ry = (c1 * 2 + grid_y a) * real grid_stride - h / 2,
          rw = w, rh = h, confidence = sc, left_confidence = l, right_confidence = r, is_left = left,
          nms_suppressed = False\<rparr>)"

definition decode_coords :: "'i det_net \<Rightarrow> (nat \<Rightarrow> nat) \<Rightarrow> real list \<Rightarrow> nat \<Rightarrow> real \<Rightarrow> real \<Rightarrow> real \<Rightarrow> bool \<Rightarrow> detect_rect option" where
  "decode_coords net idx data anchor_index sc l r left = do {
     c0 \<leftarrow> read_at data (idx 0);
     c1 \<leftarrow> read_at data (idx 1);
     c2 \<leftarrow> read_at data (idx 2);
     c3 \<leftarrow> read_at data (idx 3);
     a \<leftarrow> read_at (det_anchors net) anchor_index;
     Some (decode_box a c0 c1 c2 c3 sc l r left)
   }"

text \<open>The inner None: the score of the cell is not above the threshold.\<close>

definition v1_cell :: "'i det_net \<Rightarrow> nat \<Rightarrow> nat \<Rightarrow> nat \<Rightarrow> real list \<Rightarrow> nat \<Rightarrow> nat \<Rightarrow> detect_rect option option" where
  "v1_cell net h w c data i j = (let idx = (\<lambda>k. cell_index (det_out_format net) h w c k i j) in do {
     sc \<leftarrow> read_at data (idx 4);
     l \<leftarrow> read_at data (idx 5);
     r \<leftarrow> read_at data (idx 6);
     if sc > score_threshold
     then map_option Some (decode_coords net idx data (i * w + j) sc l r (l * sc > r * sc))
     else Some None
   })"

fun collect :: "'a option option list \<Rightarrow> 'a list option" where
  "collect [] = Some []"
| "collect (None # xs) = None"
| "collect (Some x # xs) = map_option ((@) (case x of None \<Rightarrow> [] | Some y \<Rightarrow> [y])) (collect xs)"

definition all_cells :: "(nat \<Rightarrow> nat \<Rightarrow> detect_rect option option) \<Rightarrow> nat \<Rightarrow> nat \<Rightarrow> detect_rect list option" where
  "all_cells cell h w = collect (concat (map (\<lambda>i. map (cell i) [0..<w]) [0..<h]))"

section \<open>One box per hand\<close>

definition c_round :: "real \<Rightarrow> real" where
  "c_round x = (if 0 \<le> x then of_int \<lfloor>x + 1 / 2\<rfloor> else - of_int \<lfloor>- x + 1 / 2\<rfloor>)"

definition rescale_rect :: "nat \<Rightarrow> nat \<Rightarrow> nat \<times> nat \<Rightarrow> detect_rect \<Rightarrow> detect_rect" where
  "rescale_rect height width origin r =
     (let ow = real (fst origin); oh = real (snd origin);
          min_ratio = min (real width / ow) (real height / oh);
          padx = (real width - ow * min_ratio) / 2;
          pady = (real height - oh * min_ratio) / 2
      in r\<lparr>rx := c_round ((rx r - padx) / min_ratio), ry := c_round ((ry r - pady) / min_ratio),
           rw := c_round (rw r / min_ratio), rh := c_round (rh r / min_ratio)\<rparr>)"

definition keep_box :: "(detect_rect \<Rightarrow> detect_rect) \<Rightarrow> detect_rect \<Rightarrow> detect_rect list \<times> detect_rect list
    \<Rightarrow> detect_rect list \<times> detect_rect list" where
  "keep_box scale b lr =
     (if nms_suppressed b then lr
      else if is_left b \<and> fst lr = [] then ([scale b], snd lr)
      else if \<not> is_left b \<and> snd lr = [] then (fst lr, [scale b])
      else lr)"

definition keep_boxes :: "(detect_rect \<Rightarrow> detect_rect) \<Rightarrow> detect_rect list \<Rightarrow> detect_rect list \<times> detect_rect list
    \<Rightarrow> detect_rect list \<times> detect_rect list" where
  "keep_boxes scale boxes = fold (keep_box scale) (nms iou_threshold boxes)"

text \<open>One batch of a tensor of the first network, behind its test of the shape.\<close>

definition detect_block :: "'i det_net \<Rightarrow> nat \<Rightarrow> nat \<Rightarrow> nat \<Rightarrow> nat \<Rightarrow> real list \<Rightarrow> detect_rect list \<times> detect_rect list
    \<Rightarrow> (detect_rect list \<times> detect_rect list) option" where
  "detect_block net tensor h w c data lr = do {
     cands \<leftarrow> all_cells (v1_cell net h w c data) h w;
     d \<leftarrow> read_at (det_in_dims net) tensor;
     (height, width, channels) \<leftarrow> dims3 (det_in_format net) d;
     origin \<leftarrow> det_origin net;
     Some (keep_boxes (rescale_rect height width origin) cands lr)
   }"

section \<open>HandDetectNet\<close>

type_synonym det_rects = "detect_rect list list \<times> detect_rect list list"

definition resize_rects :: "nat \<Rightarrow> det_rects \<Rightarrow> det_rects" where
  "resize_rects n rs =
     (let grow = (\<lambda>xs. take n xs @ replicate (n - length xs) [])
      in (grow (fst rs), grow (snd rs)))"

definition update_rects :: "nat \<Rightarrow> (detect_rect list \<times> detect_rect list \<Rightarrow> (detect_rect list \<times> detect_rect list) option)
    \<Rightarrow> det_rects \<Rightarrow> det_rects option" where
  "update_rects b f rs =
     (if length (fst rs) \<le> b \<or> length (snd rs) \<le> b then None
      else map_option (\<lambda>(l, r). ((fst rs)[b := l], (snd rs)[b := r])) (f (fst rs ! b, snd rs ! b)))"

definition detect_tensor :: "'i det_net \<Rightarrow> det_tensor list \<Rightarrow> nat \<Rightarrow> nat \<Rightarrow> nat \<Rightarrow> det_rects \<Rightarrow> det_rects option" where
  "detect_tensor net ts tensor batch slot rs = do {
     t \<leftarrow> read_at ts tensor;
     (h, w, c) \<leftarrow> dims3 (det_out_format net) (dt_dims t);
     if c \<noteq> FEATURE_NUM \<or> h \<noteq> det_grid_h net \<or> w \<noteq> det_grid_w net then Some rs
     else update_rects slot (detect_block net tensor h w c (drop (batch * h * w * c) (dt_data t))) rs
   }"

definition detect_postprocess :: "'i det_net \<Rightarrow> det_tensor list \<Rightarrow> det_rects \<Rightarrow> det_rects option" where
  "detect_postprocess net ts rs =
     (if \<not> det_out_packed net then Some rs
      else fold_opt (\<lambda>m. fold_opt (\<lambda>b. detect_tensor net ts m b b) [0..<det_out_batch net]) [0..<length ts]
             (resize_rects (det_out_batch net) rs))"

definition detect_postprocess_single :: "'i det_net \<Rightarrow> det_tensor list \<Rightarrow> nat \<Rightarrow> det_rects \<Rightarrow> det_rects option" where
  "detect_postprocess_single net ts batchn rs =
     (if \<not> det_out_packed net then Some rs
      else fold_opt (\<lambda>m. detect_tensor net ts m 0 batchn) [0..<length ts] rs)"

definition take_images :: "('i \<Rightarrow> nat \<times> nat) \<Rightarrow> 'i list \<Rightarrow> 'i det_net \<Rightarrow> 'i det_net" where
  "take_images size_of imgs net =
     (if imgs = [] then net else net\<lparr>det_input := imgs, det_origin := Some (size_of (imgs ! (length imgs - 1)))\<rparr>)"

definition detect_preprocess :: "('i \<Rightarrow> nat \<times> nat) \<Rightarrow> 'i list \<Rightarrow> 'i det_net \<Rightarrow> 'i det_net" where
  "detect_preprocess size_of imgs net =
     (if det_in_batch net * length (det_in_dims net) \<noteq> length imgs \<or> \<not> det_in_packed net then net
      else take_images size_of imgs net)"

definition detect_preprocess_single :: "('i \<Rightarrow> nat \<times> nat) \<Rightarrow> 'i list \<Rightarrow> nat \<Rightarrow> 'i det_net \<Rightarrow> 'i det_net" where
  "detect_preprocess_single size_of imgs batchn net =
     (let n = length (det_in_dims net)
      in if session_batch net * n \<noteq> length imgs \<or> \<not> det_in_packed net then net
         else take_images size_of (take n (drop (n * batchn) imgs)) net)"

type_synonym 'i run_net = "'i list \<Rightarrow> det_tensor list option"

text \<open>One network run per batch; the status is the one of the last run.\<close>

fun infer_single :: "('i \<Rightarrow> nat \<times> nat) \<Rightarrow> 'i run_net \<Rightarrow> 'i list \<Rightarrow> nat list \<Rightarrow> bool \<times> 'i det_net \<times> det_rects
    \<Rightarrow> (bool \<times> 'i det_net \<times> det_rects) option" where
  "infer_single size_of run imgs [] acc = Some acc"
| "infer_single size_of run imgs (i # js) (ok, net, rs) =
     (let net = detect_preprocess_single size_of imgs i net
      in case run (det_input net) of
           None \<Rightarrow> infer_single size_of run imgs js (False, net, rs)
         | Some ts \<Rightarrow> Option.bind (detect_postprocess_single net ts i rs)
             (\<lambda>rs. infer_single size_of run imgs js (True, net, rs)))"

text \<open>The lines that trace the sizes of the first two images read both, whatever the batch is.\<close>

definition infer_packed :: "('i det_net \<Rightarrow> det_tensor list \<Rightarrow> det_rects \<Rightarrow> det_rects option) \<Rightarrow> ('i \<Rightarrow> nat \<times> nat) \<Rightarrow> 'i run_net
    \<Rightarrow> 'i list \<Rightarrow> 'i det_net \<Rightarrow> det_rects \<Rightarrow> (bool \<times> 'i det_net \<times> det_rects) option" where
  "infer_packed post size_of run imgs net0 rs0 =
     (let net = detect_preprocess size_of imgs net0
      in case run (det_input net) of
           None \<Rightarrow> Some (False, net, resize_rects (det_out_batch net) rs0)
         | Some ts \<Rightarrow> do {
             rs \<leftarrow> post net ts rs0;
             if length (fst rs) < 2 \<or> length (snd rs) < 2 then None else Some (True, net, rs)
           })"

definition detect_inference :: "('i det_net \<Rightarrow> det_tensor list \<Rightarrow> det_rects \<Rightarrow> det_rects option) \<Rightarrow> ('i \<Rightarrow> nat \<times> nat) \<Rightarrow> 'i run_net
    \<Rightarrow> 'i list \<Rightarrow> 'i det_net \<Rightarrow> det_rects \<Rightarrow> (bool \<times> 'i det_net \<times> det_rects) option" where
  "detect_inference post size_of run imgs net rs =
     (if net_batch1 net
      then infer_single size_of run imgs [0..<session_batch net] (True, net, resize_rects (session_batch net) rs)
      else infer_packed post size_of run imgs net rs)"

section \<open>HandDetectNetv2\<close>

text \<open>
  Two output tensors, found by their names. In the format \<open>CHW\<close> the score and the classes are read
  from the channels 1 to 3, in the format \<open>HWC\<close> from the channels 0 to 2.
\<close>

definition v2_cell :: "'i det_net \<Rightarrow> nat \<times> nat \<times> nat \<Rightarrow> nat \<times> nat \<times> nat \<Rightarrow> real list \<Rightarrow> real list \<Rightarrow> nat \<Rightarrow> nat
    \<Rightarrow> detect_rect option option" where
  "v2_cell net box_dims cls_dims box_data cls_data i j =
     (case (box_dims, cls_dims) of ((bh, bw, bc), (ch, cw, cc)) \<Rightarrow>
        let f = det_out_format net;
            first = (if f = HWC then 0 else 1);
            cls = (\<lambda>k. cell_index f ch cw cc (first + k) i j)
        in do {
          obj_score \<leftarrow> read_at cls_data (cls 0);
          l \<leftarrow> read_at cls_data (cls 1);
          r \<leftarrow> read_at cls_data (cls 2);
          let left_score = l * obj_score;
          let right_score = r * obj_score;
          let left = (left_score > right_score);
          let sc = (if left then left_score else right_score);
          if sc > score_threshold
          then if bc < 4 then None
               else map_option Some (decode_coords net (\<lambda>k. cell_index f bh bw bc k i j) box_data (i * bw + j) sc l r left)
          else Some None
        })"

definition v2_batch :: "(string \<Rightarrow> nat) \<Rightarrow> 'i det_net \<Rightarrow> det_tensor list \<Rightarrow> nat \<Rightarrow> det_rects \<Rightarrow> det_rects option" where
  "v2_batch tensor_index net ts b rs = do {
     box \<leftarrow> read_at ts (tensor_index ''output_box'');
     cls \<leftarrow> read_at ts (tensor_index ''output_cls'');
     (bh, bw, bc) \<leftarrow> dims3 (det_out_format net) (dt_dims box);
     (ch, cw, cc) \<leftarrow> dims3 (det_out_format net) (dt_dims cls);
     cands \<leftarrow> all_cells (v2_cell net (bh, bw, bc) (ch, cw, cc) (drop (b * bh * bw * bc) (dt_data box))
                          (drop (b * ch * cw * cc) (dt_data cls))) ch cw;
     d \<leftarrow> read_at (det_in_dims net) 0;
     (height, width, channels) \<leftarrow> dims3 (det_in_format net) d;
     origin \<leftarrow> det_origin net;
     update_rects b (\<lambda>lr. Some (keep_boxes (rescale_rect height width origin) cands lr)) rs
   }"

definition v2_postprocess :: "(string \<Rightarrow> nat) \<Rightarrow> 'i det_net \<Rightarrow> det_tensor list \<Rightarrow> det_rects \<Rightarrow> det_rects option" where
  "v2_postprocess tensor_index net ts rs =
     fold_opt (v2_batch tensor_index net ts) [0..<det_out_batch net] (resize_rects (det_out_batch net) rs)"

section \<open>The best box is reported\<close>

lemma collect_eq_Some:
  "collect xs = Some ys \<Longrightarrow> set ys = {y. Some (Some y) \<in> set xs} \<and> None \<notin> set xs"
  by (induction xs arbitrary: ys rule: collect.induct) (auto split: option.splits)

lemma set_cells: "x \<in> set (concat (map (\<lambda>i. map (cell i) [0..<w]) [0..<h])) \<longleftrightarrow> (\<exists>i<h. \<exists>j<w. cell i j = x)"
proof -
  have "x \<in> set (concat (map (\<lambda>i. map (cell i) [0..<w]) [0..<h])) \<longleftrightarrow> (\<exists>i\<in>{0..<h}. x \<in> cell i ` {0..<w})" by simp
  also have "\<dots> \<longleftrightarrow> (\<exists>i<h. \<exists>j<w. cell i j = x)" unfolding image_iff by (metis atLeast0LessThan lessThan_iff)
  finally show ?thesis .
qed

lemma all_cells_None: "i < h \<Longrightarrow> j < w \<Longrightarrow> cell i j = None \<Longrightarrow> all_cells cell h w = None"
proof (rule ccontr)
  assume "i < h" "j < w" "cell i j = None" "all_cells cell h w \<noteq> None"
  then obtain ys where "collect (concat (map (\<lambda>i. map (cell i) [0..<w]) [0..<h])) = Some ys"
    by (auto simp: all_cells_def)
  from collect_eq_Some [OF this] have "\<not> (\<exists>i<h. \<exists>j<w. cell i j = None)" unfolding set_cells by blast
  with \<open>i < h\<close> \<open>j < w\<close> \<open>cell i j = None\<close> show False by blast
qed

lemma all_cells_set:
  assumes "all_cells cell h w = Some cs"
  shows "set cs = {c. \<exists>i<h. \<exists>j<w. cell i j = Some (Some c)}"
  using collect_eq_Some [OF assms [unfolded all_cells_def]] unfolding set_cells by blast

lemma decode_coords_fields:
  "decode_coords net idx data k sc l r left = Some b \<Longrightarrow> confidence b = sc \<and> \<not> nms_suppressed b \<and> is_left b = left"
  by (auto simp: decode_coords_def decode_box_def Let_def bind_eq_Some_conv)

lemma v1_cell_candidate:
  assumes "v1_cell net h w c data i j = Some (Some b)"
  shows "confidence b > score_threshold \<and> \<not> nms_suppressed b"
proof -
  obtain sc l r where "score_threshold < sc" and
    "decode_coords net (\<lambda>k. cell_index (det_out_format net) h w c k i j) data (i * w + j) sc l r (l * sc > r * sc) = Some b"
    using assms unfolding v1_cell_def Let_def by (auto simp: bind_eq_Some_conv split: if_splits)
  then show ?thesis using decode_coords_fields by blast
qed

lemma keep_boxes_scan:
  "fold (keep_box scale) bs (l, r) =
     (if l = [] then map scale (take 1 (filter (\<lambda>b. \<not> nms_suppressed b \<and> is_left b) bs)) else l,
      if r = [] then map scale (take 1 (filter (\<lambda>b. \<not> nms_suppressed b \<and> \<not> is_left b) bs)) else r)"
  by (induction bs arbitrary: l r) (auto simp: keep_box_def)

lemma filter_Cons_nth: "filter P xs = y # ys \<Longrightarrow> \<exists>i<length xs. y = xs ! i \<and> P y \<and> (\<forall>j<i. \<not> P (xs ! j))"
proof (induction xs)
  case (Cons x xs)
  show ?case
  proof (cases "P x")
    case True
    with Cons.prems show ?thesis by (intro exI [of _ 0]) simp
  next
    case False
    with Cons obtain i where "i < length xs" "y = xs ! i" "P y" "\<forall>j<i. \<not> P (xs ! j)" by auto
    with False show ?thesis by (intro exI [of _ "Suc i"]) (auto simp: less_Suc_eq_0_disj)
  qed
qed simp

lemma best_survivor:
  assumes "\<forall>b\<in>set bs. \<not> nms_suppressed b" and "c \<in> set bs" and "is_left c = side"
  shows "\<exists>b \<in> set (nms iou_threshold bs). take 1 (filter (\<lambda>b. \<not> nms_suppressed b \<and> is_left b = side) (nms iou_threshold bs)) = [b] \<and>
    is_left b = side \<and> confidence c \<le> confidence b"
proof -
  let ?out = "nms iou_threshold bs"
  let ?P = "\<lambda>b. \<not> nms_suppressed b \<and> is_left b = side"
  have th: "0 \<le> iou_threshold" by (simp add: iou_threshold_def)
  note sound = nms_sound [OF refl th assms(1)]
  have "unflag c \<in># mset (map unflag ?out)" using sound assms(2) by (metis imageI list.set_map set_mset_mset)
  then obtain j where j: "j < length ?out" "unflag (?out ! j) = unflag c"
    by (metis (no_types, lifting) in_set_conv_nth length_map nth_map set_mset_mset)
  have cj: "is_left (?out ! j) = side" "confidence (?out ! j) = confidence c"
    using arg_cong [OF j(2), of is_left] arg_cong [OF j(2), of confidence] assms(3) by (simp_all add: unflag_def)
  have "\<exists>i\<le>j. ?P (?out ! i)"
  proof (cases "nms_suppressed (?out ! j)")
    case True
    with sound j(1) obtain i where "i < j" "\<not> nms_suppressed (?out ! i)" "is_left (?out ! i) = is_left (?out ! j)" by blast
    with cj(1) show ?thesis by (intro exI [of _ i]) simp
  next
    case False
    with cj(1) show ?thesis by blast
  qed
  then obtain i where i: "i \<le> j" "?P (?out ! i)" by blast
  then have "?out ! i \<in> set (filter ?P ?out)" using j(1) by simp
  then obtain y ys where y: "filter ?P ?out = y # ys" by (cases "filter ?P ?out") auto
  then obtain i0 where i0: "i0 < length ?out" "y = ?out ! i0" "?P y" "\<forall>k<i0. \<not> ?P (?out ! k)"
    using filter_Cons_nth [OF y] by blast
  have "i0 \<le> j" using i0(4) i by (metis le_trans linorder_not_less)
  moreover have "sorted_wrt (\<lambda>a b. confidence b \<le> confidence a) ?out" using sound by blast
  ultimately have "confidence (?out ! j) \<le> confidence (?out ! i0)"
    using sorted_wrt_nth_less [of _ ?out i0 j] j(1) by (cases "i0 = j") auto
  then have "confidence c \<le> confidence y" using cj(2) i0(2) by simp
  with y i0 show ?thesis by (intro bexI [of _ y]) auto
qed

lemma kept_side:
  assumes "\<forall>b\<in>set bs. \<not> nms_suppressed b \<and> th < confidence b"
    and "kept = take 1 (filter (\<lambda>b. \<not> nms_suppressed b \<and> is_left b = side) (nms iou_threshold bs))"
  shows "length kept \<le> 1 \<and> (\<forall>b\<in>set kept. is_left b = side \<and> th < confidence b) \<and>
    (\<forall>c\<in>set bs. is_left c = side \<longrightarrow> (\<exists>b. kept = [b] \<and> confidence c \<le> confidence b))"
proof -
  have thr: "0 \<le> iou_threshold" by (simp add: iou_threshold_def)
  have un: "\<forall>b\<in>set bs. \<not> nms_suppressed b" using assms(1) by blast
  have "mset (map unflag (nms iou_threshold bs)) = mset (map unflag bs)" using nms_sound [OF refl thr un] by blast
  then have eq: "unflag ` set (nms iou_threshold bs) = unflag ` set bs" by (metis list.set_map set_mset_mset)
  have high: "th < confidence b" if "b \<in> set (nms iou_threshold bs)" for b
  proof -
    from that eq obtain b' where b': "b' \<in> set bs" "unflag b = unflag b'" by (metis imageE imageI)
    from arg_cong [OF b'(2), of confidence] have "confidence b = confidence b'" by (simp add: unflag_def)
    with b'(1) assms(1) show ?thesis by simp
  qed
  have "set kept \<subseteq> set (filter (\<lambda>b. \<not> nms_suppressed b \<and> is_left b = side) (nms iou_threshold bs))"
    unfolding assms(2) by (rule set_take_subset)
  with high have "\<forall>b\<in>set kept. is_left b = side \<and> th < confidence b" by auto
  moreover have "length kept \<le> 1" by (simp add: assms(2))
  moreover have "\<exists>b. kept = [b] \<and> confidence c \<le> confidence b" if "c \<in> set bs" "is_left c = side" for c
    using best_survivor [OF un that] unfolding assms(2) by blast
  ultimately show ?thesis by blast
qed

lemma rescale_fields [simp]:
  "confidence (rescale_rect hh ww org b) = confidence b" "is_left (rescale_rect hh ww org b) = is_left b"
  by (simp_all add: rescale_rect_def Let_def)

lemma keep_boxes_best:
  assumes "\<forall>b\<in>set bs. \<not> nms_suppressed b \<and> th < confidence b" and "keep_boxes (rescale_rect hh ww org) bs ([], []) = (l, r)"
  shows "length l \<le> 1 \<and> (\<forall>b\<in>set l. is_left b \<and> th < confidence b) \<and>
    (\<forall>c\<in>set bs. is_left c \<longrightarrow> (\<exists>b. l = [b] \<and> confidence c \<le> confidence b)) \<and>
    length r \<le> 1 \<and> (\<forall>b\<in>set r. \<not> is_left b \<and> th < confidence b) \<and>
    (\<forall>c\<in>set bs. \<not> is_left c \<longrightarrow> (\<exists>b. r = [b] \<and> confidence c \<le> confidence b))"
proof -
  let ?kept = "\<lambda>side. take 1 (filter (\<lambda>b. \<not> nms_suppressed b \<and> is_left b = side) (nms iou_threshold bs))"
  have lr: "l = map (rescale_rect hh ww org) (?kept True)" "r = map (rescale_rect hh ww org) (?kept False)"
    using assms(2) by (simp_all add: keep_boxes_def keep_boxes_scan)
  note sides = kept_side [OF assms(1) refl, of True] kept_side [OF assms(1) refl, of False]
  obtain L R where LR: "?kept True = L" "?kept False = R" by blast
  have side: "length (map (rescale_rect hh ww org) K) \<le> 1 \<and>
      (\<forall>b\<in>set (map (rescale_rect hh ww org) K). is_left b = side \<and> th < confidence b) \<and>
      (\<forall>c\<in>set bs. is_left c = side \<longrightarrow> (\<exists>b. map (rescale_rect hh ww org) K = [b] \<and> confidence c \<le> confidence b))"
    if "length K \<le> 1 \<and> (\<forall>b\<in>set K. is_left b = side \<and> th < confidence b) \<and>
      (\<forall>c\<in>set bs. is_left c = side \<longrightarrow> (\<exists>b. K = [b] \<and> confidence c \<le> confidence b))" for K side
    using that by (cases K) auto
  show ?thesis
    using side [OF sides(1)] side [OF sides(2)] unfolding lr LR by simp
qed

text \<open>
  C13: the first detection network reports the best box of each hand: at most one left and one
  right box per image, each of its own side and above the score threshold, and no cell of the
  output that passes the threshold has a better score than the box reported for its side. In
  particular a hand is reported whenever a cell sees it: the suppression of overlapping boxes
  never removes the best one, and never mixes the two hands.
\<close>

theorem detection_reports_best:
  assumes "detect_block net tensor h w c data ([], []) = Some (l, r)"
  shows "length l \<le> 1 \<and> (\<forall>b\<in>set l. is_left b \<and> score_threshold < confidence b) \<and>
    length r \<le> 1 \<and> (\<forall>b\<in>set r. \<not> is_left b \<and> score_threshold < confidence b) \<and>
    (\<forall>i<h. \<forall>j<w. \<forall>b. v1_cell net h w c data i j = Some (Some b) \<longrightarrow>
       (\<exists>b'. (if is_left b then l else r) = [b'] \<and> confidence b \<le> confidence b'))"
proof -
  obtain cands hh ww org where cands: "all_cells (v1_cell net h w c data) h w = Some cands"
    and lr: "keep_boxes (rescale_rect hh ww org) cands ([], []) = (l, r)"
    using assms by (auto simp: detect_block_def bind_eq_Some_conv)
  note set = all_cells_set [OF cands]
  have "\<forall>b\<in>set cands. \<not> nms_suppressed b \<and> score_threshold < confidence b"
    unfolding set using v1_cell_candidate by blast
  note best = keep_boxes_best [OF this lr]
  have "\<exists>b'. (if is_left b then l else r) = [b'] \<and> confidence b \<le> confidence b'"
    if "i < h" "j < w" "v1_cell net h w c data i j = Some (Some b)" for i j b
  proof -
    have "b \<in> set cands" unfolding set using that by blast
    with best show ?thesis by simp
  qed
  then have "\<forall>i<h. \<forall>j<w. \<forall>b. v1_cell net h w c data i j = Some (Some b) \<longrightarrow>
       (\<exists>b'. (if is_left b then l else r) = [b'] \<and> confidence b \<le> confidence b')" by blast
  with best show ?thesis by (intro conjI) (elim conjE, assumption)+
qed

definition example_detector :: "nat det_net" where
  "example_detector = \<lparr>det_in_format = HWC, det_out_format = HWC, det_in_dims = [[16, 32, 1]], det_in_batch = 1,
     det_in_packed = True, det_out_batch = 1, det_out_packed = True, det_grid_h = 1, det_grid_w = 2,
     det_anchors = make_anchors 1 2, det_origin = Some (32, 16), det_input = [], net_batch1 = False, session_batch = 1\<rparr>"

theorem detection_reports_best_witness:
  "\<exists>l r. detect_block example_detector 0 1 2 7 [1/2, 1/2, 1/2, 1/2, 3/5, 1, 0, 1/2, 1/2, 1/2, 1/2, 4/5, 1, 0] ([], []) = Some (l, r) \<and>
     (\<exists>b. l = [b] \<and> 4/5 \<le> confidence b)"
proof -
  let ?data = "[1/2, 1/2, 1/2, 1/2, 3/5, 1, 0, 1/2, 1/2, 1/2, 1/2, 4/5, 1, 0] :: real list"
  note defs = v1_cell_def cell_index_def read_at_def decode_coords_def decode_box_def Let_def example_detector_def make_anchors_def
    score_threshold_def
  have cell: "\<exists>b. v1_cell example_detector 1 2 7 ?data 0 1 = Some (Some b) \<and> is_left b \<and> confidence b = 4/5"
    by (simp add: defs)
  have "\<exists>lr. detect_block example_detector 0 1 2 7 ?data ([], []) = Some lr"
    by (simp add: detect_block_def all_cells_def upt_rec defs dims3_def)
  then obtain l r where lr: "detect_block example_detector 0 1 2 7 ?data ([], []) = Some (l, r)" by (metis surj_pair)
  from cell obtain b where b: "v1_cell example_detector 1 2 7 ?data 0 1 = Some (Some b)" "is_left b" "confidence b = 4/5" by blast
  with detection_reports_best [OF lr] have "\<exists>b'. (if is_left b then l else r) = [b'] \<and> confidence b \<le> confidence b'"
    by (metis less_one one_less_numeral_iff semiring_norm(76))
  with b lr show ?thesis by auto
qed

section \<open>The channels of the second network\<close>

lemma v2_batch_outside:
  assumes "det_out_format net = CHW" and "read_at ts (tensor_index ''output_cls'') = Some cls"
    and "dt_dims cls = [3, h, w]" and "0 < h" and "0 < w" and "length (dt_data cls) = (b + 1) * (3 * h * w)"
  shows "v2_batch tensor_index net ts b rs = None"
proof -
  have "read_at (drop (b * h * w * 3) (dt_data cls)) (cell_index CHW h w 3 (1 + 2) 0 0) = None"
    using assms(6) by (simp add: read_at_def cell_index_def)
  then have "v2_cell net bd (h, w, 3) bdata (drop (b * h * w * 3) (dt_data cls)) 0 0 = None" for bd bdata
    using assms(1) by (cases bd) (simp add: v2_cell_def Let_def bind_eq_None_conv)
  then have "all_cells (v2_cell net bd (h, w, 3) bdata (drop (b * h * w * 3) (dt_data cls))) h w = None" for bd bdata
    using all_cells_None assms(4,5) by blast
  then show ?thesis using assms(1-3) by (auto simp: v2_batch_def dims3_def bind_eq_None_conv)
qed

text \<open>
  In the format \<open>CHW\<close> the second network reads outside its class tensor: the header declares
  three channels (confidence, left, right), the decoding reads the channels 1, 2 and 3, so the
  last batch of a tensor of exactly the declared size is read past its end.
\<close>

lemma v2_reads_outside:
  assumes "det_out_format net = CHW" and "tensor_index ''output_cls'' < length ts"
    and "dt_dims (ts ! tensor_index ''output_cls'') = [3, h, w]" and "0 < h" and "0 < w" and "0 < det_out_batch net"
    and "length (dt_data (ts ! tensor_index ''output_cls'')) = det_out_batch net * (3 * h * w)"
  shows "v2_postprocess tensor_index net ts rs = None"
proof -
  obtain n where n: "det_out_batch net = Suc n" using assms(6) by (cases "det_out_batch net") auto
  have "v2_batch tensor_index net ts n rs' = None" for rs'
    by (rule v2_batch_outside [OF assms(1) _ assms(3-5)]) (use assms(2,7) n in \<open>simp_all add: read_at_def\<close>)
  then show ?thesis by (simp add: v2_postprocess_def n fold_opt_snoc bind_eq_None_conv)
qed

section \<open>Other paths of Inference\<close>

text \<open>
  With one image per batch the trace of the second image's boxes reads past the end of the
  result: a successful inference of a glass with one camera is undefined.
\<close>

lemma one_image_undefined:
  assumes "\<not> net_batch1 net" and "det_out_batch net = 1" and "run (det_input (detect_preprocess size_of imgs net)) = Some ts"
    and "\<And>n rs rs'. post n ts rs = Some rs' \<Longrightarrow> length (fst rs') = det_out_batch n"
  shows "detect_inference post size_of run imgs net rs = None"
proof -
  have "det_out_batch (detect_preprocess size_of imgs net) = 1"
    using assms(2) by (simp add: detect_preprocess_def take_images_def)
  then have "length (fst rs') = 1" if "post (detect_preprocess size_of imgs net) ts rs = Some rs'" for rs'
    using assms(4) [OF that] by simp
  then have "Option.bind (post (detect_preprocess size_of imgs net) ts rs)
      (\<lambda>rs. if length (fst rs) < 2 \<or> length (snd rs) < 2 then None else Some (True, detect_preprocess size_of imgs net, rs)) = None"
    by (cases "post (detect_preprocess size_of imgs net) ts rs") auto
  then show ?thesis
    using assms(1,3) by (simp add: detect_inference_def infer_packed_def)
qed

text \<open>
  With the batch split, the second network is post-processed by the first one's method, which
  skips every tensor that has not 7 channels: nothing is detected.
\<close>

lemma split_batch_detects_nothing:
  assumes "\<forall>t\<in>set ts. \<exists>h w c. dims3 (det_out_format net) (dt_dims t) = Some (h, w, c) \<and> c \<noteq> FEATURE_NUM"
  shows "detect_postprocess_single net ts i rs = Some rs"
proof -
  have "fold_opt (\<lambda>m. detect_tensor net ts m 0 i) ms rs = Some rs" if "set ms \<subseteq> {0..<length ts}" for ms
    using that
  proof (induction ms)
    case (Cons m ms)
    then have "ts ! m \<in> set ts" by simp
    with assms obtain h w c where "dims3 (det_out_format net) (dt_dims (ts ! m)) = Some (h, w, c)" "c \<noteq> FEATURE_NUM" by blast
    with Cons show ?case by (simp add: detect_tensor_def read_at_def)
  qed simp
  then show ?thesis by (simp add: detect_postprocess_single_def)
qed

end
