(* ===== verification/CameraSetup.thy ===== *)
theory CameraSetup
  imports Coords CameraModel
begin

text \<open>
  From the glasses to the algorithms: \<open>Hmd::GetCamerasInformation\<close>
  (\<^verbatim>\<open>interface/handtracking_sdk/src/handtracking_sdk_interface.cpp\<close>) asks the system for the
  cameras and fills \<open>CameraParams\<close>, from which \<open>SetGlobalCameraParams\<close>
  (\<^verbatim>\<open>aisdk/task/handtracking/nrcore_pipeline.cpp\<close>) sets the coordinate systems of theory Coords and
  \<open>ConvertCameraInfo\<close> makes the cameras of theory CameraModel. The theorems are about the whole way: the
  two users of the parameters agree on the position of the right camera, and which coefficients of
  the lens reach the camera models. What the system answers is an argument; the status of its calls
  is not looked at by the code.
\<close>

section \<open>What the system answers\<close>

datatype nr_camera_model = CameraModelOther | CameraModelRadial | CameraModelFisheye | CameraModelFisheyeRttp

text \<open>The union of coefficients is its array of 16 floats.\<close>

record nr_camera_distortion =
  nr_model :: nr_camera_model
  nr_coefficients :: "real list"

record hmd_component =
  comp_resolution :: "int \<times> int"
  comp_fc :: "real \<times> real"
  comp_cc :: "real \<times> real"
  comp_distortion :: nr_camera_distortion

record hmd_answers =
  hmd_left :: hmd_component
  hmd_right :: hmd_component
  extrinsics_lh :: "quat nr_transform"
  extrinsics_lr :: "quat nr_transform"

record hmd =
  m_camera_model :: nat
  m_generate_method :: nat
  m_params :: camera_params
  m_nr_cameras :: nat
  param_nr_cameras :: nat

definition model_coefficients :: "nr_camera_model \<Rightarrow> real list \<Rightarrow> real list" where
  "model_coefficients m a =
     (if m = CameraModelRadial then [a ! 0, a ! 1, a ! 2, a ! 3, a ! 4]
      else if m = CameraModelFisheye then [a ! 0, a ! 1, a ! 2, a ! 3]
      else if m = CameraModelFisheyeRttp then [a ! 0, a ! 1, a ! 2, a ! 3, a ! 4, a ! 5, a ! 6, a ! 7, a ! 8, a ! 9, a ! 10, a ! 11]
      else [])"

definition model_number :: "nr_camera_model \<Rightarrow> nat \<Rightarrow> nat" where
  "model_number m old =
     (if m = CameraModelRadial then 1 else if m = CameraModelFisheye then 2
      else if m = CameraModelFisheyeRttp then 3 else old)"

definition quat_list :: "quat \<Rightarrow> real list" where
  "quat_list q = [quat_w q, quat_x q, quat_y q, quat_z q]"

definition vec_list :: "vec3 \<Rightarrow> real list" where
  "vec_list p = [vx p, vy p, vz p]"

definition pair_list :: "'a \<times> 'a \<Rightarrow> 'a list" where
  "pair_list p = [fst p, snd p]"

text \<open>The model of the left camera decides for both.\<close>

definition GetCamerasInformation :: "hmd_answers \<Rightarrow> hmd \<Rightarrow> hmd" where
  "GetCamerasInformation ans h =
     (let l = hmd_left ans; r = hmd_right ans; two = (m_nr_cameras h = 2);
          m = nr_model (comp_distortion l);
          cm = model_number m (m_camera_model h);
          left_params = (\<lambda>_. [])
            (''cam_resolution'' := map real_of_int (pair_list (comp_resolution l)),
             ''cam_l_fc'' := pair_list (comp_fc l), ''cam_l_cc'' := pair_list (comp_cc l),
             ''cam_l_kc'' := model_coefficients m (nr_coefficients (comp_distortion l)));
          right_params =
            (if two then left_params
               (''cam_r_fc'' := pair_list (comp_fc r), ''cam_r_cc'' := pair_list (comp_cc r),
                ''cam_r_kc'' := model_coefficients m (nr_coefficients (comp_distortion r)))
             else left_params);
          head_params = right_params
            (''glH_R_glL'' := quat_list (nr_rotation (extrinsics_lh ans)),
             ''glH_t_glL'' := vec_list (nr_position (extrinsics_lh ans)),
             ''glL_R_glR'' := (if two then quat_list (nr_rotation (extrinsics_lr ans)) else [1, 0, 0, 0]),
             ''glL_t_glR'' := (if two then vec_list (nr_position (extrinsics_lr ans)) else [0, 0, 0]))
      in h\<lparr>m_camera_model := cm,
           m_params := head_params(''camera_model'' := [real cm], ''generate_method'' := [real (m_generate_method h)]),
           param_nr_cameras := m_nr_cameras h\<rparr>)"

section \<open>The coordinate systems\<close>

definition param_quat :: "camera_params \<Rightarrow> string \<Rightarrow> quat option" where
  "param_quat ps name = do {
     w \<leftarrow> param ps name 0; x \<leftarrow> param ps name 1; y \<leftarrow> param ps name 2; z \<leftarrow> param ps name 3; Some (Quat w x y z)
   }"

definition param_vec3 :: "camera_params \<Rightarrow> string \<Rightarrow> vec3 option" where
  "param_vec3 ps name = do {
     x \<leftarrow> param ps name 0; y \<leftarrow> param ps name 1; z \<leftarrow> param ps name 2; Some (v3 x y z)
   }"

text \<open>For another method of generation the rotation is never assigned.\<close>

definition gl_R_cv :: "int \<Rightarrow> mat3 option" where
  "gl_R_cv generate_method =
     (if generate_method = 1 then Some (v3 1 0 0, v3 0 (-1) 0, v3 0 0 (-1))
      else if generate_method = 2 then Some mat3_identity
      else None)"

fun sum_then :: "'e + 'a \<Rightarrow> ('a \<Rightarrow> 'e + 'b) \<Rightarrow> 'e + 'b" where
  "sum_then (Inl e) k = Inl e"
| "sum_then (Inr x) k = k x"

definition set_camera_chain :: "(mat3 \<Rightarrow> mat3 \<Rightarrow> bool) \<Rightarrow> (quat \<Rightarrow> mat3) \<Rightarrow> mat3 \<Rightarrow> quat \<Rightarrow> vec3 \<Rightarrow> quat \<Rightarrow> vec3
    \<Rightarrow> coord_service \<Rightarrow> coord_error + coord_service" where
  "set_camera_chain approx rot g lr_q lr_t lh_q lh_t s =
     sum_then (setTransform approx CV_LEFT_CAM GL_LEFT_CAM g (v3 0 0 0) s) (\<lambda>s.
     sum_then (setTransformQuaternion rot GL_RIGHT_CAM GL_LEFT_CAM lr_q lr_t s) (\<lambda>s.
     sum_then (setTransformQuaternion rot GL_LEFT_CAM GL_HEAD lh_q lh_t s) (\<lambda>s.
     sum_then (setTransform approx CV_RIGHT_CAM GL_RIGHT_CAM g (v3 0 0 0) s) (\<lambda>s.
     finalize 5 s))))"

text \<open>
  The outer None: a parameter is missing or the rotation was not assigned. \<open>Inl\<close> is the exception
  that nobody catches.
\<close>

definition SetGlobalCameraParams :: "(mat3 \<Rightarrow> mat3 \<Rightarrow> bool) \<Rightarrow> (quat \<Rightarrow> mat3) \<Rightarrow> camera_params \<Rightarrow> coord_service
    \<Rightarrow> (coord_error + coord_service) option" where
  "SetGlobalCameraParams approx rot ps s = do {
     gm \<leftarrow> param ps ''generate_method'' 0;
     g \<leftarrow> gl_R_cv (trunc gm);
     lr_q \<leftarrow> param_quat ps ''glL_R_glR'';
     lr_t \<leftarrow> param_vec3 ps ''glL_t_glR'';
     lh_q \<leftarrow> param_quat ps ''glH_R_glL'';
     lh_t \<leftarrow> param_vec3 ps ''glH_t_glL'';
     Some (set_camera_chain approx rot g lr_q lr_t lh_q lh_t s)
   }"

section \<open>The coordinates of a point in all systems\<close>

definition cv_flip :: "int \<Rightarrow> mat3" where
  "cv_flip generate_method = (if generate_method = 1 then (v3 1 0 0, v3 0 (-1) 0, v3 0 0 (-1)) else mat3_identity)"

lemma cv_flip_facts [simp]:
  "orthogonal (cv_flip gm)" "mat3_transpose (cv_flip gm) = cv_flip gm" "mat3_det (cv_flip gm) = 1"
  "mat3_mult (cv_flip gm) (cv_flip gm) = mat3_identity"
  by (simp_all add: cv_flip_def orthogonal_def mat3_identity_def mat3_mult_def model_defs)

lemma cv_flip_inverse: "iso_inverse (cv_flip gm, v3 0 0 0) = (cv_flip gm, v3 0 0 0)"
  by (simp add: iso_inverse_def cv_flip_def mat3_identity_def model_defs)

text \<open>\<open>chain_at\<close>: a point of the left camera's image system in each of the five systems.\<close>

definition chain_at :: "iso \<Rightarrow> iso \<Rightarrow> iso \<Rightarrow> nat \<Rightarrow> vec3 \<Rightarrow> vec3" where
  "chain_at g lr lh i x =
     (let glL = iso_apply g x; glR = iso_apply (iso_inverse lr) glL
      in if i = CV_LEFT_CAM then x
         else if i = GL_LEFT_CAM then glL
         else if i = GL_HEAD then iso_apply lh glL
         else if i = GL_RIGHT_CAM then glR
         else iso_apply (iso_inverse g) glR)"

definition set_pair :: "nat \<Rightarrow> nat \<Rightarrow> iso \<Rightarrow> coord_service \<Rightarrow> coord_service" where
  "set_pair a b t s = setTransformInternal b a (iso_inverse t) (setTransformInternal a b t s)"

definition chain_service :: "iso \<Rightarrow> iso \<Rightarrow> iso \<Rightarrow> coord_service \<Rightarrow> coord_service" where
  "chain_service g lr lh s =
     set_pair CV_RIGHT_CAM GL_RIGHT_CAM g (set_pair GL_LEFT_CAM GL_HEAD lh
       (set_pair GL_RIGHT_CAM GL_LEFT_CAM lr (set_pair CV_LEFT_CAM GL_LEFT_CAM g s)))"

lemma chain_set:
  "m_transformSet (chain_service g lr lh s) i j \<longleftrightarrow> m_transformSet s i j \<or>
     (i, j) \<in> {(0, 1), (1, 0), (3, 1), (1, 3), (1, 2), (2, 1), (4, 3), (3, 4)}"
  by (auto simp: chain_service_def set_pair_def setTransformInternal_def)

lemma chain_transforms:
  "m_transforms (chain_service g lr lh s) =
     (\<lambda>i j. if (i, j) = (0, 1) then g else if (i, j) = (1, 0) then iso_inverse g
            else if (i, j) = (3, 1) then lr else if (i, j) = (1, 3) then iso_inverse lr
            else if (i, j) = (1, 2) then lh else if (i, j) = (2, 1) then iso_inverse lh
            else if (i, j) = (4, 3) then g else if (i, j) = (3, 4) then iso_inverse g
            else m_transforms s i j)"
  by (rule ext, rule ext) (simp add: chain_service_def set_pair_def setTransformInternal_def)

lemma chain_consistent:
  assumes "orthogonal (fst g)" and "orthogonal (fst lr)" and "orthogonal (fst lh)"
  shows "consistent (chain_at g lr lh) (chain_service g lr lh coord_service_new)"
  using iso_inverse_apply [OF assms(1)] iso_inverse_apply [OF assms(2)] iso_inverse_apply [OF assms(3)]
  unfolding consistent_def chain_set chain_transforms
  by (auto simp: chain_at_def Let_def coord_service_new_def)

lemma chain_finalizes: "\<exists>s'. finalize 5 (chain_service g lr lh s) = Inr s'"
proof -
  let ?s = "chain_service g lr lh s"
  have e: "coord_linked 5 ?s 0 1" "coord_linked 5 ?s 2 1" "coord_linked 5 ?s 3 1" "coord_linked 5 ?s 4 3"
    "coord_linked 5 ?s 1 0" "coord_linked 5 ?s 1 2" "coord_linked 5 ?s 1 3" "coord_linked 5 ?s 3 4"
    by (rule con_edge, simp add: chain_set)+
  have "coord_linked 5 ?s 4 1" "coord_linked 5 ?s 1 4"
    using connected_trans [OF e(4) _ e(3)] connected_trans [OF e(7) _ e(8)] by simp_all
  with e have hub: "coord_linked 5 ?s i 1 \<and> coord_linked 5 ?s 1 i" if "i < 5" "i \<noteq> 1" for i
    using that by (auto simp: less_Suc_eq numeral_eq_Suc)
  have "coord_linked 5 ?s i j" if "i < 5" "j < 5" "i \<noteq> j" for i j
    using hub [of i] hub [of j] connected_trans [of 5 ?s i 1 j] that by (cases "i = 1"; cases "j = 1") auto
  then show ?thesis unfolding finalize_def by (intro finalize_pairs_complete) auto
qed

lemma set_camera_chain_eq:
  assumes "\<forall>m. approx m m" and "isValidQuaternion lr_q" and "isValidQuaternion lh_q"
  shows "set_camera_chain approx rot (cv_flip gm) lr_q lr_t lh_q lh_t s =
    finalize 5 (chain_service (cv_flip gm, v3 0 0 0) (rot lr_q, lr_t) (rot lh_q, lh_t) s)"
  using assms spec [OF assms(1), of mat3_identity]
  by (simp add: set_camera_chain_def setTransform_def setTransformQuaternion_def isValidRotationMatrix_def
      chain_service_def set_pair_def Let_def)

lemma chain_points:
  assumes "orthogonal (rot lr_q)" and "orthogonal (rot lh_q)"
    and "finalize 5 (chain_service (cv_flip gm, v3 0 0 0) (rot lr_q, lr_t) (rot lh_q, lh_t) coord_service_new) = Inr s"
  shows "\<forall>p. transform_point CV_RIGHT_CAM CV_LEFT_CAM p s =
      iso_apply (cv_flip gm, v3 0 0 0) (iso_apply (rot lr_q, lr_t) (iso_apply (cv_flip gm, v3 0 0 0) p)) \<and>
    transform_point CV_LEFT_CAM GL_HEAD p s = iso_apply (rot lh_q, lh_t) (iso_apply (cv_flip gm, v3 0 0 0) p)"
proof
  fix p
  let ?g = "(cv_flip gm, v3 0 0 0)" and ?lr = "(rot lr_q, lr_t)" and ?lh = "(rot lh_q, lh_t)"
  let ?c = "chain_at ?g ?lr ?lh"
  have con: "consistent ?c (chain_service ?g ?lr ?lh coord_service_new)"
    by (rule chain_consistent) (simp_all add: assms)
  have tr: "transform_point i j (?c i x) s = ?c j x" if "i < 5" "j < 5" "i \<noteq> j" for i j x
    using finalize_pairs_keeps [OF assms(3) [unfolded finalize_def], of ?c] con that
    by (auto simp: transform_point_def consistent_def)
  have flip: "iso_apply ?g (iso_apply ?g q) = q" for q
    using iso_inverse_apply(1) [of ?g q] by (simp add: cv_flip_inverse)
  have lr: "iso_apply (iso_inverse ?lr) (iso_apply ?lr q) = q" for q
    using iso_inverse_apply(1) [of ?lr q] assms(1) by simp
  let ?x = "iso_apply ?g (iso_apply ?lr (iso_apply ?g p))"
  have "?c CV_RIGHT_CAM ?x = p" by (simp add: chain_at_def Let_def flip lr cv_flip_inverse)
  then have "transform_point CV_RIGHT_CAM CV_LEFT_CAM p s = ?x"
    using tr [of CV_RIGHT_CAM CV_LEFT_CAM ?x] by (simp add: chain_at_def)
  moreover have "transform_point CV_LEFT_CAM GL_HEAD p s = iso_apply ?lh (iso_apply ?g p)"
    using tr [of CV_LEFT_CAM GL_HEAD p] by (simp add: chain_at_def Let_def)
  ultimately show "transform_point CV_RIGHT_CAM CV_LEFT_CAM p s = ?x \<and>
    transform_point CV_LEFT_CAM GL_HEAD p s = iso_apply ?lh (iso_apply ?g p)" by blast
qed

section \<open>The two users of the parameters agree\<close>

lemma camera_param_lists:
  assumes "m_nr_cameras h = 2" and "ps = m_params (GetCamerasInformation ans h)"
  shows "ps ''generate_method'' = [real (m_generate_method h)]"
    "ps ''glL_R_glR'' = quat_list (nr_rotation (extrinsics_lr ans))"
    "ps ''glL_t_glR'' = vec_list (nr_position (extrinsics_lr ans))"
    "ps ''glH_R_glL'' = quat_list (nr_rotation (extrinsics_lh ans))"
    "ps ''glH_t_glL'' = vec_list (nr_position (extrinsics_lh ans))"
    "ps ''cam_resolution'' = map real_of_int (pair_list (comp_resolution (hmd_left ans)))"
    "ps ''cam_l_fc'' = pair_list (comp_fc (hmd_left ans))" "ps ''cam_l_cc'' = pair_list (comp_cc (hmd_left ans))"
    "ps ''cam_r_fc'' = pair_list (comp_fc (hmd_right ans))" "ps ''cam_r_cc'' = pair_list (comp_cc (hmd_right ans))"
    "ps ''cam_l_kc'' = model_coefficients (nr_model (comp_distortion (hmd_left ans)))
       (nr_coefficients (comp_distortion (hmd_left ans)))"
    "ps ''cam_r_kc'' = model_coefficients (nr_model (comp_distortion (hmd_left ans)))
       (nr_coefficients (comp_distortion (hmd_right ans)))"
    "ps ''camera_model'' = [real (model_number (nr_model (comp_distortion (hmd_left ans))) (m_camera_model h))]"
  using assms(1) by (simp_all add: assms(2) GetCamerasInformation_def Let_def)

lemma v3_parts [simp]: "v3 (vx p) (vy p) (vz p) = p"
  by (cases p) (simp add: model_defs)

lemma trunc_nat [simp]: "trunc (real n) = int n"
  by (simp add: trunc_def)

lemma trunc_int [simp]: "trunc (real_of_int i) = i"
  by (simp add: trunc_def)

lemma model_coefficients_length [simp]: "\<not> 12 < length (model_coefficients m a)"
  by (simp add: model_coefficients_def)

definition stereo_of :: "(quat \<Rightarrow> mat3) \<Rightarrow> nat \<Rightarrow> quat nr_transform \<Rightarrow> iso" where
  "stereo_of rot gm lr = iso_compose (iso_compose (gl_T_cv (int gm)) (rot (nr_rotation lr), nr_position lr)) (gl_T_cv (int gm))"

definition row12 :: "real list \<Rightarrow> real list" where
  "row12 kc = kc @ drop (length kc) (1 # replicate 11 0)"

definition component_k :: "hmd_component \<Rightarrow> camera_intrinsics" where
  "component_k c = \<lparr>fx = fst (comp_fc c), fy = snd (comp_fc c), cx = fst (comp_cc c), cy = snd (comp_cc c)\<rparr>"

definition glasses_info :: "(quat \<Rightarrow> mat3) \<Rightarrow> hmd_answers \<Rightarrow> hmd \<Rightarrow> cam_info" where
  "glasses_info rot ans h =
     (let m = nr_model (comp_distortion (hmd_left ans));
          row = (\<lambda>c. row12 (model_coefficients m (nr_coefficients (comp_distortion c))))
      in \<lparr>cvL_T_cvR = stereo_of rot (m_generate_method h) (extrinsics_lr ans),
           lcam_intrinsics = Some (component_k (hmd_left ans)), rcam_intrinsics = Some (component_k (hmd_right ans)),
           lcam_dist_coeffs = Some (row (hmd_left ans)), rcam_dist_coeffs = Some (row (hmd_right ans)),
           info_camera_type = int (model_number m (m_camera_model h)), lcam_valid = True, rcam_valid = True,
           info_video_width = fst (comp_resolution (hmd_left ans)),
           info_video_height = snd (comp_resolution (hmd_left ans))\<rparr>)"

lemma camera_info_of_glasses:
  assumes "m_nr_cameras h = 2"
  shows "ConvertCameraInfo (\<lambda>w x y z. rot (Quat w x y z)) u (m_params (GetCamerasInformation ans h)) 2 =
    Some (glasses_info rot ans h)"
  by (simp add: ConvertCameraInfo_def stereo_xf_def param_k_def param_dist_def param_def camera_param_lists [OF assms refl]
      quat_list_def vec_list_def pair_list_def stereo_of_def glasses_info_def row12_def component_k_def Let_def)

lemma global_params_of_glasses:
  assumes "m_nr_cameras h = 2" and "m_generate_method h \<in> {1, 2}"
  shows "SetGlobalCameraParams approx rot (m_params (GetCamerasInformation ans h)) s =
    Some (set_camera_chain approx rot (cv_flip (int (m_generate_method h)))
      (nr_rotation (extrinsics_lr ans)) (nr_position (extrinsics_lr ans))
      (nr_rotation (extrinsics_lh ans)) (nr_position (extrinsics_lh ans)) s)"
proof -
  have "gl_R_cv (int (m_generate_method h)) = Some (cv_flip (int (m_generate_method h)))"
    using assms(2) by (auto simp: gl_R_cv_def cv_flip_def)
  then show ?thesis
    by (simp add: SetGlobalCameraParams_def param_quat_def param_vec3_def param_def camera_param_lists [OF assms(1) refl]
        quat_list_def vec_list_def)
qed


text \<open>Glasses whose cameras are one unit apart.\<close>

definition example_component :: "nr_camera_model \<Rightarrow> hmd_component" where
  "example_component m = \<lparr>comp_resolution = (640, 480), comp_fc = (240, 241), comp_cc = (320, 242),
     comp_distortion = \<lparr>nr_model = m, nr_coefficients = map real [1..<17]\<rparr>\<rparr>"

definition example_answers :: "nr_camera_model \<Rightarrow> hmd_answers" where
  "example_answers m = \<lparr>hmd_left = example_component m, hmd_right = example_component m,
     extrinsics_lh = \<lparr>nr_rotation = Quat 1 0 0 0, nr_position = v3 0 0 0\<rparr>,
     extrinsics_lr = \<lparr>nr_rotation = Quat 1 0 0 0, nr_position = v3 1 2 3\<rparr>\<rparr>"

definition example_hmd :: hmd where
  "example_hmd = \<lparr>m_camera_model = 1, m_generate_method = 1, m_params = (\<lambda>_. []), m_nr_cameras = 2, param_nr_cameras = 0\<rparr>"


section \<open>Which coefficients reach the cameras\<close>

text \<open>The members of the camera model that get a coefficient, in their order.\<close>

definition delivered_coefficients :: "nr_camera_model \<Rightarrow> real list \<Rightarrow> real list" where
  "delivered_coefficients m a =
     (if m = CameraModelRadial then [a ! 0, a ! 1, a ! 2, a ! 3, a ! 4]
      else if m = CameraModelFisheye then [a ! 0, a ! 1, a ! 2, a ! 3]
      else [a ! 0, a ! 1, a ! 2, a ! 3, a ! 6, a ! 7, a ! 4, a ! 5, a ! 8, a ! 9, a ! 10, a ! 11])"

definition camera_delivered :: "hmd_answers \<Rightarrow> hmd_component \<Rightarrow> iso \<Rightarrow> camera_model \<Rightarrow> bool" where
  "camera_delivered ans part xf c \<longleftrightarrow>
     intrinsics c = component_k part \<and> camera_to_world_xf c = xf \<and>
     video_width c = fst (comp_resolution (hmd_left ans)) \<and> video_height c = snd (comp_resolution (hmd_left ans)) \<and>
     getDistortionParams (distortion_model c) =
       delivered_coefficients (nr_model (comp_distortion (hmd_left ans))) (nr_coefficients (comp_distortion part))"

text \<open>
  C20: the cameras of two-camera glasses are made from what the system reports: each has its own
  focal lengths, centre and coefficients, the left one stands at the origin and the right one at the
  reported position. For the radial and the fisheye lens every coefficient reaches the member of its
  name; for the third lens (the one of Flora glasses) the constructor takes p1 and p2 before k5 and k6
  while they are handed over after them, so k5 and k6 get the tangential coefficients p1 and p2, and
  p1 and p2 the radial k5 and k6.
\<close>

theorem sdk_cameras_arrive:
  assumes "m_nr_cameras h = 2" and "nr_model (comp_distortion (hmd_left ans)) \<noteq> CameraModelOther"
  shows "\<exists>info l r. ConvertCameraInfo (\<lambda>w x y z. rot (Quat w x y z)) u (m_params (GetCamerasInformation ans h)) 2 = Some info \<and>
    ConvertCameraModel info = Some [l, r] \<and>
    camera_delivered ans (hmd_left ans) iso_identity l \<and>
    camera_delivered ans (hmd_right ans) (stereo_of rot (m_generate_method h) (extrinsics_lr ans)) r"
  using assms(2) unfolding camera_info_of_glasses [OF assms(1)]
  by (cases "nr_model (comp_distortion (hmd_left ans))")
    (simp_all add: ConvertCameraModel_def glasses_info_def Let_def model_number_def format_pinhole_camera_model_def
      format_opencv_fisheye_camera_model_def format_fisheye624_camera_model_def lcam_model_def rcam_model_def
      make_camera_def camera_delivered_def row12_def model_coefficients_def pinhole_of_def fisheye_of_def
      fisheye624_new_def delivered_coefficients_def)

theorem sdk_cameras_arrive_witness:
  "\<exists>info l r. ConvertCameraInfo (\<lambda>w x y z. mat3_identity) iso_identity
      (m_params (GetCamerasInformation (example_answers CameraModelFisheyeRttp) example_hmd)) 2 = Some info \<and>
    ConvertCameraModel info = Some [l, r] \<and>
    getDistortionParams (distortion_model r) = [1, 2, 3, 4, 7, 8, 5, 6, 9, 10, 11, 12]"
proof -
  have "m_nr_cameras example_hmd = 2" "nr_model (comp_distortion (hmd_left (example_answers CameraModelFisheyeRttp))) \<noteq> CameraModelOther"
    by (simp_all add: example_hmd_def example_answers_def example_component_def)
  from sdk_cameras_arrive [OF this, of "\<lambda>_. mat3_identity" iso_identity] show ?thesis
    by (auto simp: camera_delivered_def delivered_coefficients_def example_answers_def example_component_def)
qed

section \<open>A second initialisation\<close>

text \<open>
  The coordinate service is a singleton that composes only the transformations it does not have yet.
  When the plugin is initialised again with other extrinsics, the ones composed for the first
  glasses stay: the transformation from the left camera to the head is still the old one.
\<close>

lemma finalize_pairs_all_set:
  "\<forall>(i, j)\<in>set ps. m_transformSet s i j \<or> i = j \<Longrightarrow> finalize_pairs n ps s = Inr s"
  by (induction n ps s rule: finalize_pairs.induct) auto

lemma second_setup_keeps_old_head:
  assumes "\<forall>i<5. \<forall>j<5. i \<noteq> j \<longrightarrow> m_transformSet s i j" and "\<forall>m. approx m m"
    and "isValidQuaternion lr_q" and "isValidQuaternion lh_q"
  shows "\<exists>s'. set_camera_chain approx rot (cv_flip gm) lr_q lr_t lh_q lh_t s = Inr s' \<and>
    m_transforms s' GL_LEFT_CAM GL_HEAD = (rot lh_q, lh_t) \<and>
    m_transforms s' CV_LEFT_CAM GL_HEAD = m_transforms s CV_LEFT_CAM GL_HEAD"
proof -
  let ?s = "chain_service (cv_flip gm, v3 0 0 0) (rot lr_q, lr_t) (rot lh_q, lh_t) s"
  have "finalize 5 ?s = Inr ?s"
    unfolding finalize_def by (rule finalize_pairs_all_set) (use assms(1) in \<open>auto simp: chain_set\<close>)
  then show ?thesis
    unfolding set_camera_chain_eq [where approx = approx and rot = rot, OF assms(2-4)] by (simp add: chain_transforms)
qed

end
