(* ===== verification/Plugin.thy ===== *)
theory Plugin
  imports HandXGraph MemBuffer CameraSetup
begin

text \<open>
  The plugin's interface to the host system
  (\<^verbatim>\<open>interface/handtracking_sdk/src/handtracking_sdk_interface.cpp\<close> and \<open>Pipeline\<close> of
  \<^verbatim>\<open>aisdk/task/handtracking/nrcore_pipeline.h\<close>): loading the algorithm library, the choice of a
  pipeline, the life cycle Initialize, Start, Pause, Resume, Stop and Release, the camera frames, the
  queries and the thread that sends predictions from the glasses. The graph behind a pipeline is an
  argument (\<open>plugin_lib\<close>), and \<open>std_all_host_lib\<close> fills it with the model of
  \<open>HandTrackingXGraph\<close>. \<open>Undefined\<close> stands for a null pointer that is dereferenced, for
  \<open>std::terminate\<close> and for an exception that leaves the plugin, \<open>Blocks\<close> for a call that never
  returns. Answers of the system (frames, poses, the tar of models, the JSON options) are arguments.
\<close>

section \<open>State\<close>

datatype work_scene = NoScene | StdAllHost | SegmentPriorGlass | SegmentNextHost

datatype device_type = DeviceLight | DeviceFlora | DeviceGinaFlora | DeviceGinaL | DeviceGinaM | DeviceOther

datatype plugin_result = PluginSuccess | PluginFailure | PluginInvalidArgument

datatype dl_symbol = SymGetPlatform | SymCreateNetAlgo | SymDestoryNetAlgo | SymCreateAnalysisTar
  | SymDestoryAnalysisTar | SymSyncDebugProfiling | SymGetHalBackend

record pipeline_config =
  pipeline_name :: string
  framework_xgraph :: bool
  bind_glass :: string
  bind_runtime :: string

record platform_status =
  is_snpe_support :: bool
  is_mobile_evapro :: bool

text \<open>The thread of \<open>SendGlassPredictionData\<close>: at the head of its loop, or returned and not yet joined.\<close>

datatype sender = NoThread | AtLoop | Returned

record ('x, 'out) plugin =
  m_is_init :: bool
  m_is_start :: bool
  m_pipeline :: "'x option option"
  pipeline_work_scene :: work_scene
  active_pipeline :: string
  exec_exit :: bool
  exec_thread :: sender
  sent_messages :: "'out list"
  m_picbuf :: "mb_sys option"
  m_hmd :: hmd
  load_external_modeltar :: bool
  dl_opened :: bool
  m_funcs :: "dl_symbol \<Rightarrow> bool"

record ('x, 'out, 'msg) plugin_lib =
  compiled_scene :: work_scene
  impl_init :: "pipeline_config \<Rightarrow> camera_params \<Rightarrow> 'x option"
  impl_start :: "'x \<Rightarrow> 'x"
  impl_stop :: "'x \<Rightarrow> 'x"
  impl_push :: "u64 \<Rightarrow> u8 list list \<Rightarrow> quat nr_transform \<Rightarrow> 'x \<Rightarrow> bool \<times> 'x"
  impl_push_message :: "'msg \<Rightarrow> quat nr_transform \<Rightarrow> 'x \<Rightarrow> 'x"
  impl_pop :: "u64 \<Rightarrow> 'x \<Rightarrow> 'out option \<times> 'x"
  copy_plane :: "u8 list \<Rightarrow> u32 \<Rightarrow> u32 \<Rightarrow> u32 \<Rightarrow> u32 \<Rightarrow> u8 list"

definition plugin_new :: "('x, 'out) plugin" where
  "plugin_new =
     \<lparr>m_is_init = False, m_is_start = False, m_pipeline = None, pipeline_work_scene = NoScene, active_pipeline = [],
      exec_exit = False, exec_thread = NoThread, sent_messages = [], m_picbuf = None,
      m_hmd = \<lparr>m_camera_model = 1, m_generate_method = 1, m_params = (\<lambda>_. []), m_nr_cameras = 1, param_nr_cameras = 0\<rparr>,
      load_external_modeltar = False, dl_opened = False, m_funcs = (\<lambda>_. False)\<rparr>"

section \<open>Loading the algorithms\<close>

definition loaded_symbols :: "dl_symbol set" where
  "loaded_symbols = {SymGetPlatform, SymCreateNetAlgo, SymDestoryNetAlgo, SymSyncDebugProfiling}"

text \<open>\<open>dlopen\<close> answers with the symbols of a library.\<close>

definition LoadDlsym :: "(string \<Rightarrow> (dl_symbol \<Rightarrow> bool) option) \<Rightarrow> string \<Rightarrow> ('x, 'out) plugin \<Rightarrow> bool \<times> ('x, 'out) plugin" where
  "LoadDlsym dlopen full_path p =
     (if dl_opened p then (True, p)
      else case dlopen full_path of
        None \<Rightarrow> (False, p)
      | Some syms \<Rightarrow>
          (let p' = p\<lparr>m_funcs := (\<lambda>s. if s \<in> loaded_symbols then syms s else m_funcs p s)\<rparr>;
               ok = (m_funcs p' SymGetPlatform \<and> m_funcs p' SymCreateNetAlgo \<and> m_funcs p' SymDestoryNetAlgo \<and>
                     m_funcs p' SymSyncDebugProfiling)
           in (ok, p'\<lparr>dl_opened := ok\<rparr>)))"

definition UnLoadDlsym :: "bool \<Rightarrow> ('x, 'out) plugin \<Rightarrow> ('x, 'out) plugin" where
  "UnLoadDlsym need p = (if dl_opened p \<and> need then p\<lparr>dl_opened := False\<rparr> else p)"

text \<open>The end of \<open>GetApkStorePath\<close> with a shared library that is not pushed, and with the static one.\<close>

definition load_shared :: "(string \<Rightarrow> (dl_symbol \<Rightarrow> bool) option) \<Rightarrow> string \<Rightarrow> ('x, 'out) plugin \<Rightarrow> bool \<times> ('x, 'out) plugin" where
  "load_shared dlopen classloader_dir p =
     (let (ok, p1) = LoadDlsym dlopen (classloader_dir @ ''nr_hand_algo'') p
      in if ok then (True, p1) else LoadDlsym dlopen (''./handTracking/'' @ ''/'' @ ''nr_hand_algo'') p1)"

definition load_static :: "(dl_symbol \<Rightarrow> bool) \<Rightarrow> ('x, 'out) plugin \<Rightarrow> bool \<times> ('x, 'out) plugin" where
  "load_static syms p =
     ((\<forall>s\<in>set [SymGetPlatform, SymCreateNetAlgo, SymDestoryNetAlgo, SymCreateAnalysisTar, SymDestoryAnalysisTar,
        SymSyncDebugProfiling, SymGetHalBackend]. syms s), p\<lparr>m_funcs := syms\<rparr>)"

section \<open>The pipeline\<close>

definition GetPipeline :: "('x, 'out, 'msg) plugin_lib \<Rightarrow> ('x, 'out) plugin \<Rightarrow> ('x, 'out) plugin" where
  "GetPipeline lib p =
     (if m_pipeline p = None then p\<lparr>m_pipeline := Some None, pipeline_work_scene := compiled_scene lib\<rparr> else p)"

definition Impl :: "('x, 'out) plugin \<Rightarrow> 'x option" where
  "Impl p = Option.bind (m_pipeline p) (\<lambda>x. x)"

definition set_impl :: "'x option \<Rightarrow> ('x, 'out) plugin \<Rightarrow> ('x, 'out) plugin" where
  "set_impl x p = p\<lparr>m_pipeline := Some x\<rparr>"

definition prior_name :: "pipeline_config \<Rightarrow> bool" where
  "prior_name c = str_contains (pipeline_name c) ''snpedsp''"

definition runs_on :: "platform_status \<Rightarrow> pipeline_config \<Rightarrow> bool" where
  "runs_on plat c \<longleftrightarrow> (is_snpe_support plat \<and> bind_runtime c = ''snpedsp'') \<or>
     (\<not> is_mobile_evapro plat \<and> bind_runtime c = ''cpu'')"

definition bound_to :: "platform_status \<Rightarrow> device_type \<Rightarrow> pipeline_config \<Rightarrow> bool" where
  "bound_to plat dev c =
     (if dev = DeviceLight \<and> bind_glass c = ''ella'' then runs_on plat c
      else if dev = DeviceFlora \<and> bind_glass c = ''flora'' then runs_on plat c
      else if bind_glass c = ''gina'' \<and> bind_runtime c = ''snpedsp''
           then dev = DeviceGinaFlora \<or> dev = DeviceGinaL \<or> dev = DeviceGinaM
      else False)"

text \<open>\<open>sorter\<close> is \<open>std::sort\<close> with the comparison of the names: it may order equal elements as it likes.\<close>

definition SelectPipeline :: "(pipeline_config list \<Rightarrow> pipeline_config list) \<Rightarrow> pipeline_config list \<Rightarrow> platform_status
    \<Rightarrow> device_type \<Rightarrow> nat list \<times> pipeline_config list" where
  "SelectPipeline sorter pipelines plat dev =
     (if pipelines = [] then ([], [])
      else let cs = sorter pipelines in (filter (\<lambda>i. bound_to plat dev (cs ! i)) [0..<length cs], cs))"

fun try_pipelines :: "('x, 'out, 'msg) plugin_lib \<Rightarrow> pipeline_config list \<Rightarrow> nat list \<Rightarrow> ('x, 'out) plugin
    \<Rightarrow> plugin_result \<times> ('x, 'out) plugin" where
  "try_pipelines lib cs [] p = (PluginFailure, p)"
| "try_pipelines lib cs (i # js) p =
     (if i < length cs then
        (let p = GetPipeline lib p in
         if framework_xgraph (cs ! i) then
           (case impl_init lib (cs ! i) (m_params (m_hmd p)) of
              None \<Rightarrow> try_pipelines lib cs js (set_impl None p)
            | Some x \<Rightarrow> (PluginSuccess, (set_impl (Some x) p)\<lparr>m_is_init := True, active_pipeline := pipeline_name (cs ! i)\<rparr>))
         else try_pipelines lib cs js p)
      else try_pipelines lib cs js p)"

section \<open>Initialize\<close>

record init_env =
  env_load_external :: bool
  env_device :: device_type
  env_answers :: hmd_answers
  env_tar :: "bool \<Rightarrow> pipeline_config list option"
  env_platform :: platform_status

definition device_hmd :: "device_type \<Rightarrow> hmd \<Rightarrow> hmd option" where
  "device_hmd dev h =
     (if dev = DeviceLight then Some (h\<lparr>m_camera_model := 1, m_nr_cameras := 2\<rparr>)
      else if dev = DeviceFlora then Some (h\<lparr>m_camera_model := 3, m_nr_cameras := 2\<rparr>)
      else if dev = DeviceGinaFlora \<or> dev = DeviceGinaL \<or> dev = DeviceGinaM
           then Some (h\<lparr>m_camera_model := 1, m_nr_cameras := 1\<rparr>)
      else None)"

text \<open>
  The pool has room for ten images of the left camera. A pool that is replaced while blocks of it are
  still lent is gone when they come back.
\<close>

definition new_picbuf :: "hmd \<Rightarrow> mb_sys" where
  "new_picbuf h = mb_start ''grayscale_pic''
     (of_int (trunc ((m_params h ''cam_resolution'' ! 1) * (m_params h ''cam_resolution'' ! 0) * 10)))"

definition pool_in_use :: "('x, 'out) plugin \<Rightarrow> bool" where
  "pool_in_use p = (case m_picbuf p of None \<Rightarrow> False | Some m \<Rightarrow> lent m \<noteq> [])"

text \<open>The models: the tar, and the first of the pipelines for this device that can be initialised.\<close>

definition init_pipelines :: "('x, 'out, 'msg) plugin_lib \<Rightarrow> (pipeline_config list \<Rightarrow> pipeline_config list) \<Rightarrow> init_env
    \<Rightarrow> ('x, 'out) plugin \<Rightarrow> (plugin_result \<times> ('x, 'out) plugin) outcome" where
  "init_pipelines lib sorter env p =
     (if \<not> m_funcs p SymSyncDebugProfiling \<or> \<not> m_funcs p SymCreateAnalysisTar then Undefined
      else case env_tar env (load_external_modeltar p) of
        None \<Rightarrow> Done (PluginFailure, p)
      | Some configs \<Rightarrow>
          if configs = [] then Done (PluginFailure, p)
          else if \<not> m_funcs p SymGetPlatform then Undefined
          else (case SelectPipeline sorter configs (env_platform env) (env_device env) of
                  (idxs, cs) \<Rightarrow> Done (try_pipelines lib cs idxs p)))"

definition Initialize :: "('x, 'out, 'msg) plugin_lib \<Rightarrow> (pipeline_config list \<Rightarrow> pipeline_config list) \<Rightarrow> init_env
    \<Rightarrow> ('x, 'out) plugin \<Rightarrow> (plugin_result \<times> ('x, 'out) plugin) outcome" where
  "Initialize lib sorter env p0 =
     (let p = p0\<lparr>load_external_modeltar := (load_external_modeltar p0 \<or> env_load_external env)\<rparr>
      in case device_hmd (env_device env) (m_hmd p) of
        None \<Rightarrow> Done (PluginFailure, p)
      | Some h0 \<Rightarrow>
          (let h = GetCamerasInformation (env_answers env) h0
           in if pool_in_use p then Undefined
              else init_pipelines lib sorter env (p\<lparr>m_hmd := h, m_picbuf := Some (new_picbuf h)\<rparr>)))"

section \<open>The life cycle\<close>

text \<open>Assigning a new thread to one that is joinable terminates the process.\<close>

definition local_start :: "('x, 'out) plugin \<Rightarrow> ('x, 'out) plugin outcome" where
  "local_start p0 =
     (let p = p0\<lparr>m_is_start := True\<rparr>
      in if pipeline_work_scene p = SegmentPriorGlass
         then (if exec_thread p \<noteq> NoThread then Undefined else Done (p\<lparr>exec_exit := False, exec_thread := AtLoop\<rparr>))
         else Done p)"

text \<open>A turn of the sending thread: it sends while \<open>exec_exit\<close> is true.\<close>

definition sender_step :: "('x, 'out, 'msg) plugin_lib \<Rightarrow> ('x, 'out) plugin \<Rightarrow> ('x, 'out) plugin outcome" where
  "sender_step lib p =
     (if exec_thread p \<noteq> AtLoop then Done p
      else if \<not> exec_exit p then Done (p\<lparr>exec_thread := Returned\<rparr>)
      else case Impl p of
        None \<Rightarrow> Undefined
      | Some x \<Rightarrow>
          (case impl_pop lib 0 x of
             (None, x') \<Rightarrow> Done (set_impl (Some x') p)
           | (Some out, x') \<Rightarrow> Done ((set_impl (Some x') p)\<lparr>sent_messages := sent_messages p @ [out]\<rparr>)))"

text \<open>The join waits for a thread that is still at its loop, whose condition has just become true.\<close>

definition local_stop :: "('x, 'out) plugin \<Rightarrow> ('x, 'out) plugin outcome" where
  "local_stop p0 =
     (let p = p0\<lparr>m_is_start := False\<rparr>
      in if pipeline_work_scene p = SegmentPriorGlass
         then (if exec_thread p = AtLoop then Blocks else Done (p\<lparr>exec_exit := True, exec_thread := NoThread\<rparr>))
         else Done p)"

definition with_impl :: "('x \<Rightarrow> 'x) \<Rightarrow> ('x, 'out) plugin \<Rightarrow> ('x, 'out) plugin outcome" where
  "with_impl f p = (case Impl p of None \<Rightarrow> Undefined | Some x \<Rightarrow> Done (set_impl (Some (f x)) p))"

definition plugin_start :: "('x, 'out, 'msg) plugin_lib \<Rightarrow> ('x, 'out) plugin \<Rightarrow> (plugin_result \<times> ('x, 'out) plugin) outcome" where
  "plugin_start lib p =
     (if \<not> m_is_init p then Done (PluginFailure, p)
      else outcome_bind (with_impl (impl_start lib) (GetPipeline lib p)) (\<lambda>p.
           outcome_bind (local_start p) (\<lambda>p. Done (PluginSuccess, p))))"

definition plugin_stop :: "('x, 'out, 'msg) plugin_lib \<Rightarrow> ('x, 'out) plugin \<Rightarrow> (plugin_result \<times> ('x, 'out) plugin) outcome" where
  "plugin_stop lib p =
     (if \<not> m_is_init p then Done (PluginFailure, p)
      else outcome_bind (local_stop p) (\<lambda>p.
           outcome_bind (with_impl (impl_stop lib) (GetPipeline lib p)) (\<lambda>p. Done (PluginSuccess, p))))"

text \<open>Destroying the pipeline destroys the images in its graph, so their blocks return before the pool goes.\<close>

definition plugin_release :: "('x, 'out) plugin \<Rightarrow> plugin_result \<times> ('x, 'out) plugin" where
  "plugin_release p = (PluginSuccess, p\<lparr>m_pipeline := None, m_picbuf := None\<rparr>)"

section \<open>Frames\<close>

record camera_unit =
  cu_offset :: u32
  cu_width :: u32
  cu_height :: u32
  cu_stride :: u32
  cu_time :: u64

record camera_frame =
  cf_cameras :: "camera_unit list"
  cf_data :: "u8 list"

text \<open>
  A block per camera. When the pool is exhausted the blocks already taken return with the vector of
  images; \<open>heap\<close> is the answer of \<open>new\<close>.
\<close>

fun take_blobs :: "(u64 \<Rightarrow> nat option) \<Rightarrow> u64 list \<Rightarrow> mb_sys \<Rightarrow> (string list option \<times> mb_sys) outcome" where
  "take_blobs heap [] m = Done (Some [], m)"
| "take_blobs heap (n # ns) m =
     (case request_mem_blob heap n (buf m) of
        (BadAlloc, b) \<Rightarrow> Undefined
      | (NullPtr, b) \<Rightarrow> Done (None, m\<lparr>buf := b\<rparr>)
      | (Blob k v, b) \<Rightarrow> outcome_bind (take_blobs heap ns (m\<lparr>buf := b, lent := (k, v) # lent m\<rparr>)) (\<lambda>(r, m').
          case r of None \<Rightarrow> Done (None, mb_exec (Release k) m') | Some ks \<Rightarrow> Done (Some (k # ks), m')))"

definition give_back :: "string list \<Rightarrow> mb_sys \<Rightarrow> mb_sys" where
  "give_back ks m = fold (\<lambda>k. mb_exec (Release k)) ks m"

definition frame_images :: "('x, 'out, 'msg) plugin_lib \<Rightarrow> camera_frame \<Rightarrow> camera_unit list \<Rightarrow> u8 list list" where
  "frame_images lib frame cams = map (\<lambda>c. copy_plane lib (drop (unat (cu_offset c)) (cf_data frame)) (cu_stride c)
     (cu_width c) (cu_width c) (cu_height c)) cams"

text \<open>\<open>pose\<close> is what \<open>GetDevicePose\<close> wrote, whatever its status.\<close>

definition push_images :: "('x, 'out, 'msg) plugin_lib \<Rightarrow> (u64 \<Rightarrow> quat nr_transform) \<Rightarrow> u64 \<Rightarrow> u8 list list \<Rightarrow> string list
    \<Rightarrow> mb_sys \<Rightarrow> ('x, 'out) plugin \<Rightarrow> ('x, 'out) plugin" where
  "push_images lib pose time imgs ks m p =
     (case (if pipeline_work_scene p = StdAllHost \<or> pipeline_work_scene p = SegmentPriorGlass then Impl p else None) of
        Some x \<Rightarrow>
          if m_is_start p then
            (case impl_push lib time imgs (pose time) x of
               (ok, x') \<Rightarrow> (set_impl (Some x') p)\<lparr>m_picbuf := Some (if ok then m else give_back ks m)\<rparr>)
          else p\<lparr>m_picbuf := Some (give_back ks m)\<rparr>
      | None \<Rightarrow> p\<lparr>m_picbuf := Some (give_back ks m)\<rparr>)"

definition ParseAllCameraData :: "('x, 'out, 'msg) plugin_lib \<Rightarrow> (u64 \<Rightarrow> nat option) \<Rightarrow> (u64 \<Rightarrow> quat nr_transform)
    \<Rightarrow> camera_frame \<Rightarrow> ('x, 'out) plugin \<Rightarrow> ('x, 'out) plugin outcome" where
  "ParseAllCameraData lib heap pose frame p0 =
     (let p = GetPipeline lib p0; n = m_nr_cameras (m_hmd p); cams = take n (cf_cameras frame)
      in if length (cf_cameras frame) < n then Undefined
         else case m_picbuf p of
           None \<Rightarrow> if n = 0 then Done p else Undefined
         | Some m \<Rightarrow>
             outcome_bind (take_blobs heap (map (\<lambda>c. ucast (cu_width c * cu_height c)) cams) m) (\<lambda>(r, m').
               case r of
                 None \<Rightarrow> Done (p\<lparr>m_picbuf := Some m'\<rparr>)
               | Some ks \<Rightarrow> Done (push_images lib pose (if cams = [] then 0 else cu_time (hd cams))
                   (frame_images lib frame cams) ks m' p)))"

text \<open>The frame is None for a null pointer, \<open>size_ok\<close> is the test of its size.\<close>

definition NotifyData :: "('x, 'out, 'msg) plugin_lib \<Rightarrow> (u64 \<Rightarrow> nat option) \<Rightarrow> (u64 \<Rightarrow> quat nr_transform)
    \<Rightarrow> camera_frame option \<Rightarrow> bool \<Rightarrow> ('x, 'out) plugin \<Rightarrow> ('x, 'out) plugin outcome" where
  "NotifyData lib heap pose frame size_ok p =
     (case frame of
        None \<Rightarrow> Done p
      | Some d \<Rightarrow> if size_ok \<and> m_is_start p then ParseAllCameraData lib heap pose d p else Done p)"

text \<open>The graph is done with an image.\<close>

definition graph_frees :: "string \<Rightarrow> ('x, 'out) plugin \<Rightarrow> ('x, 'out) plugin" where
  "graph_frees k p = p\<lparr>m_picbuf := map_option (mb_exec (Release k)) (m_picbuf p)\<rparr>"

section \<open>Queries and messages\<close>

text \<open>The results carry the number of hands that is written for a failure, and the hands.\<close>

definition GetHandData :: "('x, 'out, 'msg) plugin_lib \<Rightarrow> u64 \<Rightarrow> bool \<Rightarrow> ('x, 'out) plugin
    \<Rightarrow> (plugin_result \<times> 'out option) \<times> ('x, 'out) plugin" where
  "GetHandData lib hmd_time args_ok p0 =
     (if \<not> args_ok then ((PluginInvalidArgument, None), p0)
      else if \<not> m_is_init p0 then ((PluginFailure, None), p0)
      else
        (let p = GetPipeline lib p0
         in case (if pipeline_work_scene p = StdAllHost \<or> pipeline_work_scene p = SegmentNextHost then Impl p else None) of
              None \<Rightarrow> ((PluginFailure, None), p)
            | Some x \<Rightarrow>
                (case impl_pop lib hmd_time x of
                   (None, x') \<Rightarrow> ((PluginFailure, None), set_impl (Some x') p)
                 | (Some out, x') \<Rightarrow> ((PluginSuccess, Some out), set_impl (Some x') p))))"

definition NotifyDeviceMessage :: "('x, 'out, 'msg) plugin_lib \<Rightarrow> quat nr_transform \<Rightarrow> 'msg option \<Rightarrow> bool
    \<Rightarrow> ('x, 'out) plugin \<Rightarrow> plugin_result \<times> ('x, 'out) plugin" where
  "NotifyDeviceMessage lib pose msg size_ok p0 =
     (case msg of
        None \<Rightarrow> (PluginInvalidArgument, p0)
      | Some d \<Rightarrow>
          if \<not> size_ok then (PluginInvalidArgument, p0)
          else if \<not> m_is_start p0 then (PluginFailure, p0)
          else
            (let p = GetPipeline lib p0
             in if pipeline_work_scene p = SegmentNextHost
                then (PluginSuccess,
                      case Impl p of None \<Rightarrow> p | Some x \<Rightarrow> set_impl (Some (impl_push_message lib d pose x)) p)
                else (PluginFailure, p)))"

text \<open>The query of the execution trace does not test whether there is a graph.\<close>

definition GetHandTrackingMidExecInfo :: "('x, 'out, 'msg) plugin_lib \<Rightarrow> ('x \<Rightarrow> (u64 \<times> string) option \<times> 'x) \<Rightarrow> bool
    \<Rightarrow> ('x, 'out) plugin \<Rightarrow> ((int \<times> (u64 \<times> string) option) \<times> ('x, 'out) plugin) outcome" where
  "GetHandTrackingMidExecInfo lib pop_exec pointer_ok p0 =
     (if \<not> pointer_ok \<or> \<not> m_is_init p0 then Done ((-1, None), p0)
      else
        (let p = GetPipeline lib p0
         in if pipeline_work_scene p \<noteq> StdAllHost then Done ((-1, None), p)
            else (case Impl p of
                    None \<Rightarrow> Undefined
                  | Some x \<Rightarrow>
                      (case pop_exec x of
                         (None, x') \<Rightarrow> Done ((-1, None), set_impl (Some x') p)
                       | (Some e, x') \<Rightarrow> Done ((0, Some e), set_impl (Some x') p)))))"

section \<open>Creation and options\<close>

text \<open>The interfaces the system offers, and the result of loading the algorithms.\<close>

definition plugin_init :: "work_scene \<Rightarrow> (bool \<times> bool \<times> bool \<times> bool) \<Rightarrow> (('x, 'out) plugin \<Rightarrow> bool \<times> ('x, 'out) plugin)
    \<Rightarrow> ('x, 'out) plugin \<Rightarrow> bool \<times> ('x, 'out) plugin" where
  "plugin_init scene offered load p =
     (case offered of (hmd_ok, generic_ok, tracking_ok, message_ok) \<Rightarrow>
        if \<not> hmd_ok \<or> \<not> generic_ok then (False, p)
        else (case load p of (loaded, p1) \<Rightarrow>
               if \<not> loaded then (False, p1)
               else if \<not> tracking_ok then (False, p1)
               else if scene \<noteq> StdAllHost \<and> \<not> message_ok then (False, p1)
               else (True, p1)))"

definition PROFILING_FLAG :: nat where
  "PROFILING_FLAG = 111"

text \<open>The options for the cameras; the other ones switch logs and records.\<close>

definition SetProfilingOption :: "nat \<Rightarrow> (nat \<times> nat) option \<Rightarrow> ('x, 'out) plugin \<Rightarrow> ('x, 'out) plugin" where
  "SetProfilingOption flag opt p =
     (case opt of
        None \<Rightarrow> p
      | Some (camera_model, generate_method) \<Rightarrow>
          if flag = PROFILING_FLAG
          then p\<lparr>m_hmd := (m_hmd p)\<lparr>m_camera_model := camera_model, m_generate_method := generate_method\<rparr>\<rparr>
          else p)"

section \<open>The choice of the pipeline\<close>

text \<open>What \<open>std::sort\<close> promises.\<close>

definition sorts_prior :: "(pipeline_config list \<Rightarrow> pipeline_config list) \<Rightarrow> bool" where
  "sorts_prior sorter \<longleftrightarrow>
     (\<forall>cs. mset (sorter cs) = mset cs \<and> sorted_wrt (\<lambda>a b. prior_name b \<longrightarrow> prior_name a) (sorter cs))"

definition usable :: "('x, 'out, 'msg) plugin_lib \<Rightarrow> init_env \<Rightarrow> camera_params \<Rightarrow> pipeline_config \<Rightarrow> bool" where
  "usable lib env params c \<longleftrightarrow> bound_to (env_platform env) (env_device env) c \<and> framework_xgraph c \<and>
     impl_init lib c params \<noteq> None"

lemma GetPipeline_fields [simp]:
  "m_hmd (GetPipeline lib p) = m_hmd p" "m_is_init (GetPipeline lib p) = m_is_init p"
  "m_is_start (GetPipeline lib p) = m_is_start p" "m_picbuf (GetPipeline lib p) = m_picbuf p"
  "exec_thread (GetPipeline lib p) = exec_thread p" "exec_exit (GetPipeline lib p) = exec_exit p"
  "sent_messages (GetPipeline lib p) = sent_messages p" "Impl (GetPipeline lib p) = Impl p"
  "m_funcs (GetPipeline lib p) = m_funcs p" "load_external_modeltar (GetPipeline lib p) = load_external_modeltar p"
  by (simp_all add: GetPipeline_def Impl_def)

lemma set_impl_fields [simp]:
  "m_hmd (set_impl x p) = m_hmd p" "m_is_init (set_impl x p) = m_is_init p"
  "m_is_start (set_impl x p) = m_is_start p" "m_picbuf (set_impl x p) = m_picbuf p"
  "exec_thread (set_impl x p) = exec_thread p" "exec_exit (set_impl x p) = exec_exit p"
  "sent_messages (set_impl x p) = sent_messages p" "Impl (set_impl x p) = x"
  "m_funcs (set_impl x p) = m_funcs p" "pipeline_work_scene (set_impl x p) = pipeline_work_scene p"
  "load_external_modeltar (set_impl x p) = load_external_modeltar p" "m_pipeline (set_impl x p) = Some x"
  by (simp_all add: set_impl_def Impl_def)

lemma Impl_update [simp]:
  "Impl (m_is_init_update u1 p) = Impl p"
  "Impl (m_is_start_update u2 p) = Impl p"
  "Impl (pipeline_work_scene_update u3 p) = Impl p"
  "Impl (active_pipeline_update u4 p) = Impl p"
  "Impl (exec_exit_update u5 p) = Impl p"
  "Impl (exec_thread_update u6 p) = Impl p"
  "Impl (sent_messages_update u7 p) = Impl p"
  "Impl (m_picbuf_update u8 p) = Impl p"
  "Impl (m_hmd_update u9 p) = Impl p"
  "Impl (load_external_modeltar_update u10 p) = Impl p"
  by (simp_all add: Impl_def)

lemma try_pipelines_keeps:
  "try_pipelines lib cs js p = (r, q) \<Longrightarrow>
     m_hmd q = m_hmd p \<and> m_is_start q = m_is_start p \<and> m_picbuf q = m_picbuf p \<and> exec_thread q = exec_thread p \<and>
     exec_exit q = exec_exit p \<and> sent_messages q = sent_messages p \<and> m_funcs q = m_funcs p \<and>
     load_external_modeltar q = load_external_modeltar p"
  by (induction lib cs js p rule: try_pipelines.induct) (auto simp: Let_def split: if_splits option.splits)

lemma try_pipelines_first:
  assumes "try_pipelines lib cs js p = (r, q)" and "\<forall>i\<in>set js. i < length cs"
  shows "case filter (\<lambda>i. framework_xgraph (cs ! i) \<and> impl_init lib (cs ! i) (m_params (m_hmd p)) \<noteq> None) js of
      [] \<Rightarrow> r = PluginFailure
    | i # _ \<Rightarrow> r = PluginSuccess \<and> m_is_init q \<and> active_pipeline q = pipeline_name (cs ! i) \<and>
        Impl q = impl_init lib (cs ! i) (m_params (m_hmd p))"
  using assms
proof (induction lib cs js p rule: try_pipelines.induct)
  case (2 lib cs i js p)
  then have i: "i < length cs" and js: "\<forall>i\<in>set js. i < length cs" by simp_all
  show ?case
  proof (cases "framework_xgraph (cs ! i)")
    case xg: True
    show ?thesis
    proof (cases "impl_init lib (cs ! i) (m_params (m_hmd p))")
      case None
      with "2.prems"(1) i xg have "try_pipelines lib cs js (set_impl None (GetPipeline lib p)) = (r, q)" by simp
      moreover have hmd: "m_hmd (set_impl None (GetPipeline lib p)) = m_hmd p" by simp
      ultimately show ?thesis using "2.IH"(1) [OF i refl xg _ _ js] None xg unfolding hmd by simp
    next
      case (Some x)
      with "2.prems"(1) i xg show ?thesis by auto
    qed
  next
    case False
    with "2.prems"(1) i have "try_pipelines lib cs js (GetPipeline lib p) = (r, q)" by simp
    moreover have hmd: "m_hmd (GetPipeline lib p) = m_hmd p" by simp
    ultimately show ?thesis using "2.IH"(2) [OF i refl False _ js] False unfolding hmd by simp
  qed
qed simp

lemma first_of_filter:
  assumes "filter P xs = y # ys" and "sorted_wrt R xs"
  shows "y \<in> set xs \<and> P y \<and> (\<forall>z\<in>set xs. P z \<longrightarrow> z = y \<or> R y z)"
proof -
  have "sorted_wrt R (y # ys)" using assms sorted_wrt_filter by metis
  moreover have "set (y # ys) = {z \<in> set xs. P z}" using assms(1) by (metis set_filter)
  ultimately show ?thesis by auto
qed

lemma sorted_indices:
  assumes "sorted_wrt R cs"
  shows "sorted_wrt (\<lambda>i j. R (cs ! i) (cs ! j)) [0..<length cs]"
  using assms by (auto simp: sorted_wrt_iff_nth_less)

lemma select_sorted:
  assumes "sorts_prior sorter" and "SelectPipeline sorter configs plat dev = (idxs, cs)" and "configs \<noteq> []"
  shows "set cs = set configs \<and> idxs = filter (\<lambda>i. bound_to plat dev (cs ! i)) [0..<length cs] \<and>
    sorted_wrt (\<lambda>i j. prior_name (cs ! j) \<longrightarrow> prior_name (cs ! i)) [0..<length cs]"
proof -
  have cs: "cs = sorter configs" and idxs: "idxs = filter (\<lambda>i. bound_to plat dev (cs ! i)) [0..<length cs]"
    using assms(2,3) by (auto simp: SelectPipeline_def Let_def)
  have "mset cs = mset configs" "sorted_wrt (\<lambda>a b. prior_name b \<longrightarrow> prior_name a) cs"
    using assms(1) by (simp_all add: cs sorts_prior_def)
  then show ?thesis using idxs sorted_indices mset_eq_setD by blast
qed

lemma selected_first:
  assumes "sorts_prior sorter" and "configs \<noteq> []"
    and "SelectPipeline sorter configs (env_platform env) (env_device env) = (idxs, cs)"
    and "try_pipelines lib cs idxs p = (r, q)"
  shows "(r = PluginSuccess \<longleftrightarrow> (\<exists>c\<in>set configs. usable lib env (m_params (m_hmd p)) c)) \<and>
    (r = PluginSuccess \<longrightarrow> (\<exists>c\<in>set configs. usable lib env (m_params (m_hmd p)) c \<and> m_is_init q \<and>
       active_pipeline q = pipeline_name c \<and> Impl q = impl_init lib c (m_params (m_hmd p)) \<and>
       (\<forall>c'\<in>set configs. usable lib env (m_params (m_hmd p)) c' \<longrightarrow> prior_name c' \<longrightarrow> prior_name c)))"
proof -
  let ?ps = "m_params (m_hmd p)"
  let ?P = "\<lambda>i. usable lib env ?ps (cs ! i)"
  note sel = select_sorted [OF assms(1,3,2)]
  have ok: "\<forall>i\<in>set idxs. i < length cs" using sel by auto
  have filt: "filter (\<lambda>i. framework_xgraph (cs ! i) \<and> impl_init lib (cs ! i) ?ps \<noteq> None) idxs = filter ?P [0..<length cs]"
    using sel by (simp add: usable_def conj_ac)
  note first = try_pipelines_first [OF assms(4) ok, unfolded filt]
  have set: "set cs = set configs" using sel by blast
  show ?thesis
  proof (cases "filter ?P [0..<length cs]")
    case Nil
    then have "\<forall>i<length cs. \<not> ?P i" by (simp add: filter_empty_conv)
    then have "\<forall>c\<in>set configs. \<not> usable lib env ?ps c" using set by (metis in_set_conv_nth)
    moreover have "r = PluginFailure" using first Nil by simp
    ultimately show ?thesis by simp
  next
    case (Cons i js)
    from first_of_filter [OF this] sel
    have i: "i \<in> set [0..<length cs]" "?P i" "\<forall>j\<in>set [0..<length cs]. ?P j \<longrightarrow> j = i \<or> (prior_name (cs ! j) \<longrightarrow> prior_name (cs ! i))"
      by blast+
    have mem: "cs ! i \<in> set configs" using i(1) set by (metis atLeastLessThan_iff nth_mem set_upt)
    have best: "\<forall>c'\<in>set configs. usable lib env ?ps c' \<longrightarrow> prior_name c' \<longrightarrow> prior_name (cs ! i)"
    proof (intro ballI impI)
      fix c' assume "c' \<in> set configs" "usable lib env ?ps c'" "prior_name c'"
      moreover then obtain j where "j < length cs" "c' = cs ! j" using set by (metis in_set_conv_nth)
      ultimately show "prior_name (cs ! i)" using i(3) by auto
    qed
    have res: "r = PluginSuccess" "m_is_init q" "active_pipeline q = pipeline_name (cs ! i)"
      "Impl q = impl_init lib (cs ! i) ?ps"
      using first by (simp_all add: Cons)
    show ?thesis using res mem i(2) best by blast
  qed
qed

text \<open>
  C9: \<open>Initialize\<close> succeeds exactly when the tar has a pipeline that is bound to the device, runs on the
  platform and can be initialised. It then runs one of those, with the graph initialised from the
  parameters of the glasses, and one named for the DSP whenever there is such a one, whatever the order
  of the tar and of the sort's equal elements.
\<close>

theorem initialize_best_pipeline:
  assumes "sorts_prior sorter" and "Initialize lib sorter env p = Done (r, q)"
    and "env_tar env (load_external_modeltar q) = Some configs"
  shows "(r = PluginSuccess \<longleftrightarrow> (\<exists>c\<in>set configs. usable lib env (m_params (m_hmd q)) c)) \<and>
    (r = PluginSuccess \<longrightarrow> (\<exists>c\<in>set configs. usable lib env (m_params (m_hmd q)) c \<and> m_is_init q \<and>
       active_pipeline q = pipeline_name c \<and> Impl q = impl_init lib c (m_params (m_hmd q)) \<and>
       (\<forall>c'\<in>set configs. usable lib env (m_params (m_hmd q)) c' \<longrightarrow> prior_name c' \<longrightarrow> prior_name c)))"
proof (cases "device_hmd (env_device env) (m_hmd p)")
  case None
  then have "env_device env = DeviceOther" by (cases "env_device env") (simp_all add: device_hmd_def)
  then have "\<not> usable lib env ps c" for ps c by (simp add: usable_def bound_to_def)
  moreover have "r = PluginFailure" using assms(2) None by (simp add: Initialize_def)
  ultimately show ?thesis by simp
next
  case (Some h0)
  let ?h = "GetCamerasInformation (env_answers env) h0"
  let ?p = "p\<lparr>load_external_modeltar := (load_external_modeltar p \<or> env_load_external env), m_hmd := ?h,
    m_picbuf := Some (new_picbuf ?h)\<rparr>"
  have init: "init_pipelines lib sorter env ?p = Done (r, q)"
    using assms(2) Some by (simp add: Initialize_def Let_def split: if_splits)
  show ?thesis
  proof (cases "env_tar env (load_external_modeltar ?p) = None \<or> env_tar env (load_external_modeltar ?p) = Some []")
    case True
    then have "r = PluginFailure" "q = ?p"
      using init by (auto simp: init_pipelines_def split: if_splits)
    with True assms(3) show ?thesis by auto
  next
    case False
    then obtain configs' where c: "env_tar env (load_external_modeltar ?p) = Some configs'" "configs' \<noteq> []" by auto
    obtain idxs cs where sel: "SelectPipeline sorter configs' (env_platform env) (env_device env) = (idxs, cs)"
      by (cases "SelectPipeline sorter configs' (env_platform env) (env_device env)")
    have tried: "try_pipelines lib cs idxs ?p = (r, q)"
      using init c sel by (simp add: init_pipelines_def split: if_splits)
    from try_pipelines_keeps [OF this] have q: "m_hmd q = m_hmd ?p" "load_external_modeltar q = load_external_modeltar ?p"
      by simp_all
    have "configs' = configs" using c(1) assms(3) q(2) by simp
    with selected_first [OF assms(1) c(2) sel tried] show ?thesis unfolding q(1) by simp
  qed
qed

text \<open>A plugin whose library is loaded, with a graph that counts its frames.\<close>

definition example_lib :: "work_scene \<Rightarrow> (nat, nat, nat) plugin_lib" where
  "example_lib scene = \<lparr>compiled_scene = scene, impl_init = (\<lambda>c ps. if pipeline_name c = ''broken_snpedsp'' then None else Some 0),
     impl_start = (\<lambda>x. x), impl_stop = (\<lambda>x. x), impl_push = (\<lambda>t imgs pose x. (True, Suc x)), impl_push_message = (\<lambda>m pose x. Suc x),
     impl_pop = (\<lambda>t x. (if 0 < x then Some x else None, x)), copy_plane = (\<lambda>d s t w h. d)\<rparr>"

definition example_sorter :: "pipeline_config list \<Rightarrow> pipeline_config list" where
  "example_sorter cs = filter prior_name cs @ filter (\<lambda>c. \<not> prior_name c) cs"

lemma sorted_wrt_all: "\<forall>x\<in>set xs. \<forall>y\<in>set xs. R x y \<Longrightarrow> sorted_wrt R xs"
  by (induction xs) auto

lemma example_sorter_sorts: "sorts_prior example_sorter"
  unfolding sorts_prior_def example_sorter_def sorted_wrt_append
  by (intro allI conjI sorted_wrt_all) auto

definition example_config :: "string \<Rightarrow> string \<Rightarrow> pipeline_config" where
  "example_config name runtime = \<lparr>pipeline_name = name, framework_xgraph = True, bind_glass = ''flora'', bind_runtime = runtime\<rparr>"

definition example_env :: init_env where
  "example_env = \<lparr>env_load_external = False, env_device = DeviceFlora, env_answers = example_answers CameraModelFisheyeRttp,
     env_tar = (\<lambda>ext. Some [example_config ''flora_cpu'' ''cpu'', example_config ''flora_snpedsp'' ''snpedsp'',
       example_config ''broken_snpedsp'' ''snpedsp'']),
     env_platform = \<lparr>is_snpe_support = True, is_mobile_evapro = False\<rparr>\<rparr>"

definition example_plugin :: "(nat, nat) plugin" where
  "example_plugin = snd (load_static (\<lambda>_. True) plugin_new)"

lemma example_initialize:
  "\<exists>r q. Initialize (example_lib scene) example_sorter example_env example_plugin = Done (r, q)"
  by (simp add: Initialize_def init_pipelines_def example_env_def example_plugin_def load_static_def plugin_new_def
      device_hmd_def pool_in_use_def Let_def split_beta)

theorem initialize_best_pipeline_witness:
  "\<exists>q. Initialize (example_lib StdAllHost) example_sorter example_env example_plugin = Done (PluginSuccess, q) \<and>
     active_pipeline q = ''flora_snpedsp''"
proof -
  let ?lib = "example_lib StdAllHost" and ?configs = "[example_config ''flora_cpu'' ''cpu'', example_config ''flora_snpedsp'' ''snpedsp'',
       example_config ''broken_snpedsp'' ''snpedsp'']"
  have names: "prior_name (example_config ''flora_snpedsp'' ''snpedsp'')" "\<not> prior_name (example_config ''flora_cpu'' ''cpu'')"
    by (simp_all add: prior_name_def example_config_def str_contains_def upt_rec)
  obtain r q where init: "Initialize ?lib example_sorter example_env example_plugin = Done (r, q)"
    using example_initialize by blast
  have "env_tar example_env (load_external_modeltar q) = Some ?configs" by (simp add: example_env_def)
  note best = initialize_best_pipeline [OF example_sorter_sorts init this]
  have us: "usable ?lib example_env ps (example_config ''flora_snpedsp'' ''snpedsp'')"
    "\<not> usable ?lib example_env ps (example_config ''broken_snpedsp'' ''snpedsp'')" for ps
    by (simp_all add: usable_def bound_to_def runs_on_def example_env_def example_config_def example_lib_def)
  then have r: "r = PluginSuccess" using best by simp
  then obtain c where c: "c \<in> set ?configs" "usable ?lib example_env (m_params (m_hmd q)) c" "active_pipeline q = pipeline_name c"
    "\<forall>c'\<in>set ?configs. usable ?lib example_env (m_params (m_hmd q)) c' \<longrightarrow> prior_name c' \<longrightarrow> prior_name c"
    using best by blast
  have "prior_name c" using c(4) us(1) names(1) by simp
  with c(1,2) us(2) names(2) have "c = example_config ''flora_snpedsp'' ''snpedsp''" by auto
  with init r c(3) show ?thesis by (simp add: example_config_def)
qed

section \<open>After Release\<close>

text \<open>
  \<open>Release\<close> destroys the pipeline and the pool of images but leaves the plugin initialised and,
  when it was not stopped, started. The test of \<open>isInit\<close> that is to refuse the calls of a plugin that
  is not ready then lets them through to null pointers: \<open>Start\<close> and \<open>Resume\<close> are undefined, \<open>Stop\<close> and
  \<open>Pause\<close> never return normally, and so is the next camera frame of a plugin that was not stopped.
\<close>

lemma released_plugin_crashes:
  assumes "m_is_init p"
  shows "plugin_start lib (snd (plugin_release p)) = Undefined \<and>
    (\<forall>r. plugin_stop lib (snd (plugin_release p)) \<noteq> Done r) \<and>
    (m_is_start p \<longrightarrow> 0 < m_nr_cameras (m_hmd p) \<longrightarrow>
       NotifyData lib heap pose (Some frame) True (snd (plugin_release p)) = Undefined)"
proof -
  let ?q = "snd (plugin_release p)"
  have q: "Impl ?q = None" "m_is_init ?q" "m_picbuf ?q = None" "m_is_start ?q = m_is_start p" "m_hmd ?q = m_hmd p"
    using assms by (simp_all add: plugin_release_def Impl_def)
  have "plugin_stop lib ?q \<noteq> Done r" for r
    using q by (auto simp: plugin_stop_def local_stop_def Let_def with_impl_def elim!: outcome_bind_Done split: if_splits)
  moreover have "plugin_start lib ?q = Undefined"
    using q by (simp add: plugin_start_def with_impl_def)
  moreover have "NotifyData lib heap pose (Some frame) True ?q = Undefined" if "m_is_start p" "0 < m_nr_cameras (m_hmd p)"
    using that q by (simp add: NotifyData_def ParseAllCameraData_def Let_def)
  ultimately show ?thesis by blast
qed

section \<open>The sender of the glasses\<close>

text \<open>The calls of the host and the turns of the sending thread, in any order, as long as calls return.\<close>

inductive plugin_step :: "('x, 'out, 'msg) plugin_lib \<Rightarrow> (pipeline_config list \<Rightarrow> pipeline_config list)
    \<Rightarrow> ('x, 'out) plugin \<Rightarrow> ('x, 'out) plugin \<Rightarrow> bool" for lib sorter where
  st_init: "Initialize lib sorter env p = Done (r, q) \<Longrightarrow> plugin_step lib sorter p q"
| st_start: "plugin_start lib p = Done (r, q) \<Longrightarrow> plugin_step lib sorter p q"
| st_stop: "plugin_stop lib p = Done (r, q) \<Longrightarrow> plugin_step lib sorter p q"
| st_release: "plugin_release p = (r, q) \<Longrightarrow> plugin_step lib sorter p q"
| st_frame: "NotifyData lib heap pose frame ok p = Done q \<Longrightarrow> plugin_step lib sorter p q"
| st_free: "graph_frees k p = q \<Longrightarrow> plugin_step lib sorter p q"
| st_query: "GetHandData lib t ok p = (r, q) \<Longrightarrow> plugin_step lib sorter p q"
| st_message: "NotifyDeviceMessage lib tf msg ok p = (r, q) \<Longrightarrow> plugin_step lib sorter p q"
| st_sender: "sender_step lib p = Done q \<Longrightarrow> plugin_step lib sorter p q"

definition same_sender :: "('x, 'out, 'msg) plugin_lib \<Rightarrow> ('x, 'out) plugin \<Rightarrow> ('x, 'out) plugin \<Rightarrow> bool" where
  "same_sender lib p q \<longleftrightarrow> sent_messages q = sent_messages p \<and> exec_thread q = exec_thread p \<and> exec_exit q = exec_exit p \<and>
     (pipeline_work_scene q = pipeline_work_scene p \<or> pipeline_work_scene q = compiled_scene lib)"

definition sender_inv :: "('x, 'out, 'msg) plugin_lib \<Rightarrow> ('x, 'out) plugin \<Rightarrow> bool" where
  "sender_inv lib p \<longleftrightarrow> sent_messages p = [] \<and> (exec_thread p = AtLoop \<longrightarrow> \<not> exec_exit p) \<and>
     (exec_thread p \<noteq> NoThread \<longrightarrow> pipeline_work_scene p = SegmentPriorGlass) \<and>
     (pipeline_work_scene p = NoScene \<or> pipeline_work_scene p = compiled_scene lib)"

lemma same_sender_inv: "same_sender lib p q \<Longrightarrow> sender_inv lib p \<Longrightarrow> sender_inv lib q"
  unfolding same_sender_def sender_inv_def by (elim conjE disjE) simp_all

lemma GetPipeline_scene: "pipeline_work_scene (GetPipeline lib p) = pipeline_work_scene p \<or>
    pipeline_work_scene (GetPipeline lib p) = compiled_scene lib"
  by (simp add: GetPipeline_def)

lemma same_sender_refl [simp]: "same_sender lib p p"
  by (simp add: same_sender_def)

lemma same_sender_GetPipeline [simp]: "same_sender lib p (GetPipeline lib p)"
  using GetPipeline_scene [of lib p] by (simp add: same_sender_def)

lemma same_sender_set_impl [simp]: "same_sender lib p (set_impl x q) = same_sender lib p q"
  by (simp add: same_sender_def)

lemma same_sender_fields [simp]:
  "same_sender lib p (q\<lparr>m_picbuf := b\<rparr>) = same_sender lib p q" "same_sender lib p (q\<lparr>m_is_start := s\<rparr>) = same_sender lib p q"
  "same_sender lib p (q\<lparr>m_is_init := s\<rparr>) = same_sender lib p q" "same_sender lib p (q\<lparr>active_pipeline := n\<rparr>) = same_sender lib p q"
  "same_sender lib p (q\<lparr>m_pipeline := x\<rparr>) = same_sender lib p q"
  by (simp_all add: same_sender_def)

lemma same_sender_trans: "same_sender lib p q \<Longrightarrow> same_sender lib q r \<Longrightarrow> same_sender lib p r"
  by (auto simp: same_sender_def)

lemma try_pipelines_sender: "try_pipelines lib cs js p = (r, q) \<Longrightarrow> same_sender lib p q"
proof (induction lib cs js p rule: try_pipelines.induct)
  case (2 lib cs i js p)
  have step: "same_sender lib p (GetPipeline lib p)" by simp
  show ?case
  proof (cases "i < length cs \<and> framework_xgraph (cs ! i)")
    case True
    then show ?thesis
    proof (cases "impl_init lib (cs ! i) (m_params (m_hmd (GetPipeline lib p)))")
      case None
      with 2 True have "same_sender lib (set_impl None (GetPipeline lib p)) q" by simp
      then show ?thesis by (rule same_sender_trans [rotated]) simp
    next
      case (Some x)
      with "2.prems" True have "q = (set_impl (Some x) (GetPipeline lib p))\<lparr>m_is_init := True, active_pipeline := pipeline_name (cs ! i)\<rparr>"
        by simp
      then show ?thesis by simp
    qed
  next
    case False
    show ?thesis
    proof (cases "i < length cs")
      case True
      with False 2 have "same_sender lib (GetPipeline lib p) q" by simp
      with step show ?thesis by (rule same_sender_trans)
    next
      case False
      with 2 show ?thesis by simp
    qed
  qed
qed simp

lemma Initialize_sender: "Initialize lib sorter env p = Done (r, q) \<Longrightarrow> same_sender lib p q"
proof -
  assume init: "Initialize lib sorter env p = Done (r, q)"
  have fail: "same_sender lib p (p\<lparr>load_external_modeltar := e\<rparr>)"
    "same_sender lib p (p\<lparr>load_external_modeltar := e, m_hmd := h, m_picbuf := b\<rparr>)" for e h b
    by (simp_all add: same_sender_def)
  have tried: "same_sender lib p q"
    if "try_pipelines lib cs js (p\<lparr>load_external_modeltar := e, m_hmd := h, m_picbuf := b\<rparr>) = (r, q)" for cs js e h b
    using same_sender_trans [OF fail(2) try_pipelines_sender [OF that]] .
  show ?thesis
    using init unfolding Initialize_def init_pipelines_def Let_def
    by (auto intro: fail dest: tried split: option.splits if_splits prod.splits)
qed

lemma push_images_sender: "same_sender lib p (push_images lib pose t imgs ks m p)"
  by (auto simp: push_images_def split: option.splits prod.splits)

lemma frame_sender: "NotifyData lib heap pose frame ok p = Done q \<Longrightarrow> same_sender lib p q"
proof -
  assume n: "NotifyData lib heap pose frame ok p = Done q"
  note push = same_sender_trans [OF same_sender_GetPipeline [of lib p] push_images_sender]
  show ?thesis
    using n push unfolding NotifyData_def ParseAllCameraData_def Let_def
    by (auto split: option.splits if_splits prod.splits elim!: outcome_bind_Done)
qed

lemma GetHandData_sender: "GetHandData lib t ok p = (r, q) \<Longrightarrow> same_sender lib p q"
  unfolding GetHandData_def Let_def by (auto split: if_splits option.splits prod.splits)

lemma message_sender: "NotifyDeviceMessage lib tf msg ok p = (r, q) \<Longrightarrow> same_sender lib p q"
  unfolding NotifyDeviceMessage_def Let_def by (auto split: if_splits option.splits)

lemma with_impl_sender: "with_impl f p = Done q \<Longrightarrow> same_sender lib p q"
  by (auto simp: with_impl_def split: option.splits)

lemma local_start_sender: "local_start p = Done q \<Longrightarrow> sender_inv lib p \<Longrightarrow> sender_inv lib q"
  by (auto simp: local_start_def Let_def sender_inv_def split: if_splits)

lemma local_stop_sender: "local_stop p = Done q \<Longrightarrow> sender_inv lib p \<Longrightarrow> sender_inv lib q"
  by (auto simp: local_stop_def Let_def sender_inv_def split: if_splits)

lemma sender_step_inv:
  assumes "plugin_step lib sorter p q" and inv: "sender_inv lib p"
  shows "sender_inv lib q"
  using assms(1)
proof cases
  case (st_start r)
  show ?thesis
  proof (cases "m_is_init p")
    case True
    with st_start obtain p1 where p1: "with_impl (impl_start lib) (GetPipeline lib p) = Done p1" "local_start p1 = Done q"
      by (auto simp: plugin_start_def elim!: outcome_bind_Done)
    have "sender_inv lib p1"
      using same_sender_inv [OF same_sender_trans [OF same_sender_GetPipeline with_impl_sender [OF p1(1)]] inv] .
    with p1(2) show ?thesis by (rule local_start_sender)
  next
    case False
    with st_start inv show ?thesis by (simp add: plugin_start_def)
  qed
next
  case (st_stop r)
  show ?thesis
  proof (cases "m_is_init p")
    case True
    with st_stop obtain p1 where p1: "local_stop p = Done p1" "with_impl (impl_stop lib) (GetPipeline lib p1) = Done q"
      by (auto simp: plugin_stop_def elim!: outcome_bind_Done)
    from local_stop_sender [OF p1(1) inv] same_sender_trans [OF same_sender_GetPipeline with_impl_sender [OF p1(2)]]
    show ?thesis by (rule same_sender_inv [rotated])
  next
    case False
    with st_stop inv show ?thesis by (simp add: plugin_stop_def)
  qed
next
  case st_sender
  with inv show ?thesis by (auto simp: sender_step_def sender_inv_def split: if_splits)
next
  case (st_release r)
  then have "same_sender lib p q" by (auto simp: plugin_release_def)
  then show ?thesis using inv by (rule same_sender_inv)
next
  case (st_free k)
  then have "same_sender lib p q" by (auto simp: graph_frees_def)
  then show ?thesis using inv by (rule same_sender_inv)
next
  case (st_init env r)
  from same_sender_inv [OF Initialize_sender [OF st_init] inv] show ?thesis .
next
  case (st_frame heap pose frame ok)
  from same_sender_inv [OF frame_sender [OF st_frame] inv] show ?thesis .
next
  case (st_query t ok r)
  from same_sender_inv [OF GetHandData_sender [OF st_query] inv] show ?thesis .
next
  case (st_message tf msg ok r)
  from same_sender_inv [OF message_sender [OF st_message] inv] show ?thesis .
qed

lemma sender_inv_reachable: "(plugin_step lib sorter)\<^sup>*\<^sup>* p q \<Longrightarrow> sender_inv lib p \<Longrightarrow> sender_inv lib q"
  by (induction rule: rtranclp_induct) (auto intro: sender_step_inv)

lemma sender_inv_new: "sender_inv lib (plugin_new\<lparr>m_funcs := fs\<rparr>)"
  by (simp add: sender_inv_def plugin_new_def)

lemma stop_blocks:
  "sender_inv lib p \<Longrightarrow> exec_thread p = AtLoop \<Longrightarrow> m_is_init p \<Longrightarrow> plugin_stop lib p = Blocks"
  by (simp add: sender_inv_def plugin_stop_def local_stop_def Let_def)

lemma sender_never_leaves:
  assumes "exec_thread p = AtLoop" and "exec_exit p" and "sender_step lib p = Done q"
  shows "exec_thread q = AtLoop \<and> exec_exit q"
  using assms by (auto simp: sender_step_def split: option.splits prod.splits)

text \<open>
  The thread that sends the predictions of the glasses tests \<open>exec_exit\<close> the wrong way round: it
  loops while the flag is true, and \<open>Start\<close> sets it to false. Over all calls of the host and turns of
  the thread that return, nothing is ever sent; and a \<open>Stop\<close> or \<open>Pause\<close> that comes before the thread
  has looked at the flag never returns, since it waits, with the lock of the image processing held,
  for a loop that it has just allowed to run for ever.
\<close>

lemma prior_glass_sends_nothing:
  assumes "(plugin_step lib sorter)\<^sup>*\<^sup>* (plugin_new\<lparr>m_funcs := fs\<rparr>) p"
  shows "sent_messages p = [] \<and> (exec_thread p = AtLoop \<longrightarrow> m_is_init p \<longrightarrow> plugin_stop lib p = Blocks)"
proof -
  from sender_inv_reachable [OF assms sender_inv_new] have inv: "sender_inv lib p" .
  then have "sent_messages p = []" by (simp add: sender_inv_def)
  with stop_blocks [OF inv] show ?thesis by blast
qed

definition simple_env :: init_env where
  "simple_env = example_env\<lparr>env_tar := (\<lambda>ext. Some [example_config ''flora'' ''cpu''])\<rparr>"

lemma simple_initialize:
  "\<exists>q. Initialize (example_lib scene) (\<lambda>cs. cs) simple_env (plugin_new\<lparr>m_funcs := (\<lambda>_. True)\<rparr>) =
      Done (PluginSuccess, q) \<and> m_is_init q \<and> Impl q = Some 0 \<and> exec_thread q = NoThread \<and> pipeline_work_scene q = scene"
  by (simp add: Initialize_def init_pipelines_def simple_env_def example_env_def plugin_new_def device_hmd_def
      pool_in_use_def Let_def SelectPipeline_def bound_to_def runs_on_def example_config_def example_lib_def
      GetPipeline_def set_impl_def Impl_def)

section \<open>A host that keeps to the life cycle\<close>

datatype phase = Fresh | Ready | Running

text \<open>
  Calls in the order the system makes them: Start only after a successful Initialize, Release only
  after Stop, and after Release or a failure only Initialize again; frames, queries and messages come
  at any time. The frames carry the four cameras of the structure.
\<close>

inductive lifecycle :: "('x, 'out, 'msg) plugin_lib \<Rightarrow> (pipeline_config list \<Rightarrow> pipeline_config list)
    \<Rightarrow> phase \<times> ('x, 'out) plugin \<Rightarrow> phase \<times> ('x, 'out) plugin \<Rightarrow> bool" for lib sorter where
  lc_init: "Initialize lib sorter env p = Done (r, q) \<Longrightarrow>
     lifecycle lib sorter (Fresh, p) (if r = PluginSuccess then Ready else Fresh, q)"
| lc_start: "plugin_start lib p = Done (r, q) \<Longrightarrow> lifecycle lib sorter (Ready, p) (Running, q)"
| lc_stop: "plugin_stop lib p = Done (r, q) \<Longrightarrow> lifecycle lib sorter (Running, p) (Ready, q)"
| lc_release: "lifecycle lib sorter (Ready, p) (Fresh, snd (plugin_release p))"
| lc_frame: "NotifyData lib heap pose frame ok p = Done q \<Longrightarrow> lifecycle lib sorter (ph, p) (ph, q)"
| lc_free: "lifecycle lib sorter (ph, p) (ph, graph_frees k p)"
| lc_query: "lifecycle lib sorter (ph, p) (ph, snd (GetHandData lib t ok p))"
| lc_message: "lifecycle lib sorter (ph, p) (ph, snd (NotifyDeviceMessage lib tf msg ok p))"

definition life_inv :: "('x, 'out, 'msg) plugin_lib \<Rightarrow> phase \<Rightarrow> ('x, 'out) plugin \<Rightarrow> bool" where
  "life_inv lib ph p \<longleftrightarrow>
     m_funcs p = (\<lambda>_. True) \<and> m_nr_cameras (m_hmd p) \<le> 4 \<and>
     (pipeline_work_scene p = NoScene \<or> pipeline_work_scene p = compiled_scene lib) \<and>
     (ph \<noteq> Running \<longrightarrow> \<not> m_is_start p) \<and> (ph = Fresh \<longrightarrow> \<not> pool_in_use p) \<and>
     (ph \<noteq> Fresh \<longrightarrow> m_is_init p \<and> Impl p \<noteq> None \<and> m_picbuf p \<noteq> None)"

lemma nr_cameras_bound:
  "device_hmd dev h = Some h' \<Longrightarrow> m_nr_cameras (GetCamerasInformation ans h') \<le> 4"
  by (auto simp: device_hmd_def GetCamerasInformation_def Let_def split: if_splits)

lemma try_pipelines_success:
  "try_pipelines lib cs js p = (PluginSuccess, q) \<Longrightarrow> m_is_init q \<and> Impl q \<noteq> None"
  by (induction lib cs js p rule: try_pipelines.induct) (auto simp: Let_def split: if_splits option.splits)

lemma take_blobs_total:
  assumes "\<forall>n. heap n \<noteq> None"
  shows "\<exists>r m'. take_blobs heap ns m = Done (r, m')"
proof (induction ns arbitrary: m)
  case (Cons n ns)
  show ?case
  proof (cases "request_mem_blob heap n (buf m)")
    case (Pair res b)
    show ?thesis
    proof (cases res)
      case (Blob k v)
      from Cons obtain r m' where "take_blobs heap ns (m\<lparr>buf := b, lent := (k, v) # lent m\<rparr>) = Done (r, m')" by blast
      with Pair Blob show ?thesis by (cases r) simp_all
    next
      case NullPtr
      with Pair show ?thesis by simp
    next
      case BadAlloc
      with Pair spec [OF assms, of n] show ?thesis
        by (auto simp: request_mem_blob_def split: option.splits prod.splits if_splits)
    qed
  qed
qed simp

lemma push_images_frame:
  "m_picbuf (push_images lib pose t imgs ks m p) \<noteq> None \<and> (Impl p \<noteq> None \<longrightarrow> Impl (push_images lib pose t imgs ks m p) \<noteq> None) \<and>
   m_is_init (push_images lib pose t imgs ks m p) = m_is_init p \<and> m_is_start (push_images lib pose t imgs ks m p) = m_is_start p \<and>
   m_funcs (push_images lib pose t imgs ks m p) = m_funcs p \<and> m_hmd (push_images lib pose t imgs ks m p) = m_hmd p"
  by (auto simp: push_images_def split: option.splits prod.splits)

lemma NotifyData_frame:
  assumes "NotifyData lib heap pose frame ok p = Done q"
  shows "(m_picbuf p \<noteq> None \<longrightarrow> m_picbuf q \<noteq> None) \<and> (Impl p \<noteq> None \<longrightarrow> Impl q \<noteq> None) \<and> (\<not> m_is_start p \<longrightarrow> q = p) \<and>
    m_is_init q = m_is_init p \<and> m_is_start q = m_is_start p \<and> m_funcs q = m_funcs p \<and> m_hmd q = m_hmd p"
  using assms push_images_frame [where p = "GetPipeline lib p" and lib = lib]
  unfolding NotifyData_def ParseAllCameraData_def Let_def
  by (auto split: option.splits if_splits prod.splits elim!: outcome_bind_Done)

lemma life_init:
  assumes "Initialize lib sorter env p = Done (r, q)" and inv: "life_inv lib Fresh p"
  shows "life_inv lib (if r = PluginSuccess then Ready else Fresh) q"
proof (cases "device_hmd (env_device env) (m_hmd p)")
  case None
  then have "q = p\<lparr>load_external_modeltar := (load_external_modeltar p \<or> env_load_external env)\<rparr>" "r = PluginFailure"
    using assms(1) by (simp_all add: Initialize_def Let_def)
  with inv show ?thesis by (simp add: life_inv_def pool_in_use_def)
next
  case (Some h0)
  let ?h = "GetCamerasInformation (env_answers env) h0"
  let ?p = "p\<lparr>load_external_modeltar := (load_external_modeltar p \<or> env_load_external env), m_hmd := ?h,
    m_picbuf := Some (new_picbuf ?h)\<rparr>"
  have init: "init_pipelines lib sorter env ?p = Done (r, q)"
    using assms(1) Some by (simp add: Initialize_def Let_def split: if_splits)
  have base: "m_nr_cameras (m_hmd ?p) \<le> 4" "m_funcs ?p = (\<lambda>_. True)" "\<not> m_is_start ?p" "\<not> pool_in_use ?p" "m_picbuf ?p \<noteq> None"
    using nr_cameras_bound [OF Some] inv by (simp_all add: life_inv_def pool_in_use_def new_picbuf_def mb_start_def)
  have "q = ?p \<and> r = PluginFailure \<or> (\<exists>cs js. try_pipelines lib cs js ?p = (r, q))"
    using init by (auto simp: init_pipelines_def split: option.splits if_splits prod.splits)
  then show ?thesis
  proof
    assume "q = ?p \<and> r = PluginFailure"
    with base inv show ?thesis by (simp add: life_inv_def pool_in_use_def)
  next
    assume "\<exists>cs js. try_pipelines lib cs js ?p = (r, q)"
    then obtain cs js where t: "try_pipelines lib cs js ?p = (r, q)" by blast
    have scene: "pipeline_work_scene q = NoScene \<or> pipeline_work_scene q = compiled_scene lib"
      using try_pipelines_sender [OF t] inv by (auto simp: same_sender_def life_inv_def)
    have "r = PluginSuccess \<longrightarrow> m_is_init q \<and> Impl q \<noteq> None" using try_pipelines_success t by blast
    with try_pipelines_keeps [OF t] base scene show ?thesis by (simp add: life_inv_def pool_in_use_def)
  qed
qed

text \<open>What queries and messages leave alone.\<close>

definition same_life :: "('x, 'out) plugin \<Rightarrow> ('x, 'out) plugin \<Rightarrow> bool" where
  "same_life p q \<longleftrightarrow> m_picbuf q = m_picbuf p \<and> (Impl p \<noteq> None \<longrightarrow> Impl q \<noteq> None) \<and> m_is_init q = m_is_init p \<and>
     m_is_start q = m_is_start p \<and> m_funcs q = m_funcs p \<and> m_hmd q = m_hmd p"

lemma same_life_inv:
  assumes "same_life p q" and "same_sender lib p q" and "life_inv lib ph p"
  shows "life_inv lib ph q"
proof -
  have "pool_in_use q = pool_in_use p" using assms(1) by (simp add: same_life_def pool_in_use_def)
  with assms show ?thesis by (auto simp: life_inv_def same_life_def same_sender_def)
qed

lemma query_life: "same_life p (snd (GetHandData lib t ok p))"
  unfolding GetHandData_def Let_def same_life_def by (auto split: option.splits prod.splits)

lemma message_life: "same_life p (snd (NotifyDeviceMessage lib tf msg ok p))"
  unfolding NotifyDeviceMessage_def Let_def same_life_def by (auto split: option.splits)

lemma start_life:
  assumes inv: "life_inv lib Ready p" and scene: "compiled_scene lib \<noteq> SegmentPriorGlass"
  shows "\<exists>q. plugin_start lib p = Done (PluginSuccess, q) \<and> life_inv lib Running q"
proof -
  from inv obtain x where x: "Impl p = Some x" "m_is_init p" by (auto simp: life_inv_def)
  let ?p = "set_impl (Some (impl_start lib x)) (GetPipeline lib p)"
  have sc: "pipeline_work_scene ?p = NoScene \<or> pipeline_work_scene ?p = compiled_scene lib"
    using inv GetPipeline_scene [of lib p] by (auto simp: life_inv_def)
  then have "local_start ?p = Done (?p\<lparr>m_is_start := True\<rparr>)" using scene by (auto simp: local_start_def Let_def)
  then have "plugin_start lib p = Done (PluginSuccess, ?p\<lparr>m_is_start := True\<rparr>)"
    using x by (simp add: plugin_start_def with_impl_def)
  moreover have "life_inv lib Running (?p\<lparr>m_is_start := True\<rparr>)" using inv sc by (simp add: life_inv_def)
  ultimately show ?thesis by blast
qed

lemma stop_life:
  assumes inv: "life_inv lib Running p" and scene: "compiled_scene lib \<noteq> SegmentPriorGlass"
  shows "\<exists>q. plugin_stop lib p = Done (PluginSuccess, q) \<and> life_inv lib Ready q"
proof -
  from inv obtain x where x: "Impl p = Some x" "m_is_init p" by (auto simp: life_inv_def)
  let ?p = "p\<lparr>m_is_start := False\<rparr>"
  let ?q = "set_impl (Some (impl_stop lib x)) (GetPipeline lib ?p)"
  have "local_stop p = Done ?p" using inv scene by (auto simp: local_stop_def Let_def life_inv_def)
  then have "plugin_stop lib p = Done (PluginSuccess, ?q)"
    using x by (simp add: plugin_stop_def with_impl_def)
  moreover have "life_inv lib Ready ?q"
    using inv GetPipeline_scene [of lib ?p] by (auto simp: life_inv_def)
  ultimately show ?thesis by blast
qed

lemma frees_life:
  assumes "life_inv lib ph p"
  shows "life_inv lib ph (graph_frees k p)"
proof -
  have "pool_in_use (graph_frees k p) \<longrightarrow> pool_in_use p"
    by (auto simp: pool_in_use_def graph_frees_def split: option.splits)
  with assms show ?thesis by (auto simp: life_inv_def graph_frees_def)
qed

lemma life_step:
  assumes "lifecycle lib sorter (ph, p) (ph', q)" and inv: "life_inv lib ph p" and scene: "compiled_scene lib \<noteq> SegmentPriorGlass"
  shows "life_inv lib ph' q"
  using assms(1)
proof cases
  case (lc_init env r)
  with life_init [OF lc_init(3)] inv show ?thesis by simp
next
  case (lc_start r)
  with start_life [of lib p] inv scene show ?thesis by auto
next
  case (lc_stop r)
  with stop_life [of lib p] inv scene show ?thesis by auto
next
  case lc_release
  with inv show ?thesis by (simp add: life_inv_def plugin_release_def pool_in_use_def)
next
  case (lc_frame heap pose frame ok)
  note f = NotifyData_frame [OF lc_frame(2)] and s = frame_sender [OF lc_frame(2)]
  show ?thesis
  proof (cases "m_is_start p")
    case True
    with inv have "ph = Running" by (cases ph) (simp_all add: life_inv_def)
    with f s inv lc_frame(1) show ?thesis by (auto simp: life_inv_def same_sender_def)
  next
    case False
    with f inv lc_frame(1) show ?thesis by simp
  qed
next
  case (lc_free k)
  with frees_life inv show ?thesis by blast
next
  case (lc_query t ok)
  have "same_sender lib p q" using GetHandData_sender lc_query(2) by (metis prod.collapse)
  with lc_query query_life inv same_life_inv show ?thesis by blast
next
  case (lc_message tf msg ok)
  have "same_sender lib p q" using message_sender lc_message(2) by (metis prod.collapse)
  with lc_message message_life inv same_life_inv show ?thesis by blast
qed

lemma life_reachable:
  assumes "(lifecycle lib sorter)\<^sup>*\<^sup>* (Fresh, p0) (ph, p)" and "life_inv lib Fresh p0" and "compiled_scene lib \<noteq> SegmentPriorGlass"
  shows "life_inv lib ph p"
proof -
  have "life_inv lib (fst s) (snd s)" if "(lifecycle lib sorter)\<^sup>*\<^sup>* (Fresh, p0) s" for s
    using that
  proof (induction rule: rtranclp_induct)
    case (step s t)
    then show ?case using life_step [of lib sorter "fst s" "snd s" "fst t" "snd t"] assms(3) by simp
  qed (simp add: assms(2))
  from this [OF assms(1)] show ?thesis by simp
qed

lemma frame_returns:
  assumes "life_inv lib ph p" and "\<forall>n. heap n \<noteq> None" and "length (cf_cameras frame) = 4"
  shows "\<exists>q. NotifyData lib heap pose (Some frame) ok p = Done q"
proof (cases "m_is_start p \<and> ok")
  case True
  with assms(1) have "ph = Running" by (cases ph) (simp_all add: life_inv_def)
  with assms(1) obtain m where m: "m_picbuf p = Some m" "m_nr_cameras (m_hmd p) \<le> 4" by (auto simp: life_inv_def)
  let ?ns = "map (\<lambda>c. ucast (cu_width c * cu_height c)) (take (m_nr_cameras (m_hmd p)) (cf_cameras frame))"
  obtain r m' where "take_blobs heap ?ns m = Done (r, m')" using take_blobs_total assms(2) by blast
  with True m assms(3) show ?thesis by (cases r) (simp_all add: NotifyData_def ParseAllCameraData_def Let_def)
qed (auto simp: NotifyData_def)


definition example_frame :: camera_frame where
  "example_frame = \<lparr>cf_cameras = replicate 4 \<lparr>cu_offset = 0, cu_width = 640, cu_height = 480, cu_stride = 640, cu_time = 5000\<rparr>,
     cf_data = []\<rparr>"


section \<open>The shared library\<close>

text \<open>
  \<open>LoadDlsym\<close> fetches four of the seven functions of the library, and the one that makes the reader
  of the tar is not among them: a plugin built with the shared library calls a null pointer in
  \<open>Initialize\<close>.
\<close>

lemma shared_library_cannot_initialise:
  assumes "load_shared dlopen dir (plugin_new :: ('x, 'out) plugin) = (True, p)" and "device_hmd (env_device env) (m_hmd p) \<noteq> None"
  shows "Initialize lib sorter env p = Undefined"
proof -
  have "m_funcs p SymCreateAnalysisTar = False"
    using assms(1) by (auto simp: load_shared_def LoadDlsym_def plugin_new_def loaded_symbols_def Let_def
        split: option.splits if_splits)
  with assms(2) show ?thesis by (auto simp: Initialize_def init_pipelines_def Let_def)
qed

section \<open>The graph of the host\<close>

text \<open>
  \<open>HandTrackingXGraph\<close> behind the plugin: mediapipe accepts every packet and starts and stops.
\<close>

definition std_all_host_lib :: "(pipeline_config \<Rightarrow> camera_params \<Rightarrow> hand_xgraph option) \<Rightarrow> (u64 \<Rightarrow> hand_xgraph \<Rightarrow> 'out option \<times> hand_xgraph)
    \<Rightarrow> (u8 list \<Rightarrow> u32 \<Rightarrow> u32 \<Rightarrow> u32 \<Rightarrow> u32 \<Rightarrow> u8 list) \<Rightarrow> (hand_xgraph, 'out, 'msg) plugin_lib" where
  "std_all_host_lib init pop copy = \<lparr>compiled_scene = StdAllHost, impl_init = init,
     impl_start = (\<lambda>x. x\<lparr>base := snd (base_start True (base x))\<rparr>), impl_stop = (\<lambda>x. x\<lparr>base := snd (base_stop True (base x))\<rparr>),
     impl_push = (\<lambda>t imgs pose x. PushData t True True x), impl_push_message = (\<lambda>m pose x. x), impl_pop = pop, copy_plane = copy\<rparr>"

text \<open>
  A started plugin has started its graph, so that every frame it takes is registered: the frames that
  \<open>SetInputStreamCache\<close> would refuse before the start never get there.
\<close>

lemma started_graph:
  assumes "plugin_start (std_all_host_lib init pop copy) p = Done (PluginSuccess, q)"
  shows "m_is_start q \<and> (\<exists>x. Impl q = Some x \<and> graph_started (base x))"
  using assms
  by (auto simp: plugin_start_def with_impl_def local_start_def Let_def std_all_host_lib_def base_start_def
      elim!: outcome_bind_Done split: if_splits option.splits)


section \<open>What the plugin announces\<close>

definition announce :: "bool \<Rightarrow> nat list \<Rightarrow> plugin_result \<times> u64 option" where
  "announce pointer_ok ids = (if pointer_ok then (PluginSuccess, Some (all_bits ids)) else (PluginInvalidArgument, None))"

definition GetAvailableGestureType :: "bool \<Rightarrow> plugin_result \<times> u64 option" where
  "GetAvailableGestureType pointer_ok = announce pointer_ok [0, 1, 2, 3, 4, 5, 6, 7]"

definition announced_joints :: "bool \<Rightarrow> nat list" where
  "announced_joints openxr =
     (if openxr then [0, 1, 2, 3, 4, 5, 6, 7, 8, 9, 10, 11, 12, 13, 14, 15, 16, 17, 18, 19, 20, 21, 22, 23, 24, 25]
      else [1, 2, 3, 4, 5, 6, 7, 8, 9, 10, 11, 12, 13, 14, 15, 17, 18, 19, 20, 21, 23, 0, 16])"

definition GetAvailableHandJoint :: "bool \<Rightarrow> bool \<Rightarrow> plugin_result \<times> u64 option" where
  "GetAvailableHandJoint openxr pointer_ok = announce pointer_ok (announced_joints openxr)"

definition GetSupportedFunctions :: "bool \<Rightarrow> plugin_result \<times> u64 option" where
  "GetSupportedFunctions pointer_ok = announce pointer_ok [1, 2]"

lemma order_bit_at: "bit (order_bit k) j \<longleftrightarrow> j = k \<and> j < 64"
  unfolding order_bit_def bit_push_bit_iff bit_1_iff by auto

lemma all_bits_at: "bit (fold (\<lambda>k m. m OR order_bit k) ks m0) j \<longleftrightarrow> bit m0 j \<or> (j \<in> set ks \<and> j < 64)"
  by (induction ks arbitrary: m0) (auto simp only: fold_simps bit_or_iff order_bit_at list.set empty_iff insert_iff simp_thms)

lemma bit_announced: "bit (all_bits ks) j \<longleftrightarrow> j \<in> set ks \<and> j < 64"
  unfolding all_bits_def all_bits_at by simp

text \<open>
  Every gesture and, in the OpenXR layout, every joint that \<open>PopResult\<close> writes is announced. In the
  other layout the wrist is written as joint 24 (\<open>WRIST_CENTER\<close>) while \<open>WRIST_END\<close> (23) is announced,
  which is never written.
\<close>

lemma announced_gestures:
  "GestureMap g \<noteq> -1 \<Longrightarrow> \<exists>m. GetAvailableGestureType True = (PluginSuccess, Some m) \<and> bit m (nat (GestureMap g))"
  by (cases g) (simp_all add: GetAvailableGestureType_def announce_def bit_announced)

lemma announced_openxr_joints:
  "j \<in> set (xreal_2_clay True) \<Longrightarrow> \<exists>m. GetAvailableHandJoint True True = (PluginSuccess, Some m) \<and> bit m j"
  by (auto simp: GetAvailableHandJoint_def announced_joints_def announce_def bit_announced xreal_2_clay_def)

lemma wrist_not_announced:
  "\<exists>m. GetAvailableHandJoint False True = (PluginSuccess, Some m) \<and> \<not> bit m 24 \<and> bit m 23 \<and>
     24 \<in> set (xreal_2_clay False) \<and> 23 \<notin> set (xreal_2_clay False)"
  by (simp add: GetAvailableHandJoint_def announced_joints_def announce_def bit_announced xreal_2_clay_def)

end
