(* ===== verification/Reporter.thy ===== *)
theory Reporter
  imports Prelude "HOL-Library.AList"
begin

text \<open>
  The profiling reports (\<^verbatim>\<open>src/aisdk/xgraph/reporter\<close>): the running statistics of
  \<^verbatim>\<open>statistic.cpp\<close>, and of \<^verbatim>\<open>reporter.cpp\<close> the reading of a trace, the search for the
  origin of a packet, the completion of the per-calculator data and the table of the report.

  A message of the profile (\<^verbatim>\<open>GraphProfile\<close> and its parts) is a record of the fields the
  code reads; a field that may be absent is an option, and reading an absent one gives
  protobuf's default. Times are integers (64 bits in the code). \<^verbatim>\<open>double\<close> is real; a division
  of \<^verbatim>\<open>double\<close>s gives \<open>None\<close> where the divisor is zero (an infinity or a NaN).
\<close>

section \<open>Running statistics\<close>

text \<open>
  \<open>Some\<close> is a value; \<open>None\<close> is a read outside the vector.
\<close>

definition at_index :: "real list \<Rightarrow> int \<Rightarrow> real option" where
  "at_index xs i = (if 0 \<le> i \<and> i < int (length xs) then Some (xs ! nat i) else None)"

definition calculate_95th_percentile :: "real list \<Rightarrow> real option" where
  "calculate_95th_percentile data =
     (if data = [] then Some (-1)
      else let k = real (length data) * (95 / 100);
               new_data = sort data
           in if k = real_of_int \<lfloor>k\<rfloor> then at_index new_data (\<lfloor>k\<rfloor> - 1)
              else let lower_index = \<lfloor>k\<rfloor>; upper_index = lower_index + 1
                   in do { lower_value \<leftarrow> at_index new_data (lower_index - 1);
                           upper_value \<leftarrow> at_index new_data (upper_index - 1);
                           let fraction = k - real_of_int lower_index;
                           Some (lower_value + fraction * (upper_value - lower_value)) })"

record statistic =
  st_counter :: nat
  st_total :: real
  st_mean :: real
  st_ssd :: real
  st_max :: real
  st_data :: "real list"

text \<open>
  A \<^verbatim>\<open>CalculatorData\<close> that \<^verbatim>\<open>std::map\<close> inserts is zeroed before its default initialisers
  run, so the counters start at zero.
\<close>

definition new_statistic :: statistic where
  "new_statistic = \<lparr> st_counter = 0, st_total = 0, st_mean = 0, st_ssd = 0, st_max = -100, st_data = [] \<rparr>"

definition stat_clear :: "statistic \<Rightarrow> statistic" where
  "stat_clear s = s\<lparr> st_counter := 0, st_data := [], st_max := -100 \<rparr>"

definition stat_push :: "real \<Rightarrow> statistic \<Rightarrow> statistic" where
  "stat_push x s =
     (let n = Suc (st_counter s);
          s1 = s\<lparr> st_counter := n, st_max := (if x > st_max s then x else st_max s) \<rparr>;
          s2 = (if n = 1 then s1\<lparr> st_mean := x, st_ssd := 0, st_total := x \<rparr>
                else let old_mean = st_mean s1;
                         mean = old_mean + (x - old_mean) / real n
                     in s1\<lparr> st_mean := mean,
                            st_ssd := st_ssd s1 + (x - mean) * (x - old_mean),
                            st_total := st_total s1 + x \<rparr>)
      in s2\<lparr> st_data := st_data s2 @ [x] \<rparr>)"

definition stat_mean :: "statistic \<Rightarrow> real" where
  "stat_mean s = (if st_counter s > 0 then st_mean s else 0)"

definition stat_variance :: "statistic \<Rightarrow> real" where
  "stat_variance s = (if st_counter s > 1 then st_ssd s / real (st_counter s - 1) else 0)"

definition stat_stddev :: "statistic \<Rightarrow> real" where
  "stat_stddev s = sqrt (stat_variance s)"

definition stat_percentile_95 :: "statistic \<Rightarrow> real option" where
  "stat_percentile_95 s = calculate_95th_percentile (st_data s)"

subsection \<open>The running values are the textbook ones\<close>

definition mean_of :: "real list \<Rightarrow> real" where
  "mean_of xs = sum_list xs / real (length xs)"

definition squares_about :: "real \<Rightarrow> real list \<Rightarrow> real" where
  "squares_about c xs = (\<Sum>x\<leftarrow>xs. (x - c)\<^sup>2)"

lemma squares_about_expand:
  "squares_about c xs = (\<Sum>x\<leftarrow>xs. x\<^sup>2) - 2 * c * sum_list xs + real (length xs) * c\<^sup>2"
  by (induction xs) (simp_all add: squares_about_def power2_eq_square algebra_simps)

lemma squares_about_mean:
  "xs \<noteq> [] \<Longrightarrow> squares_about (mean_of xs) xs = (\<Sum>x\<leftarrow>xs. x\<^sup>2) - (sum_list xs)\<^sup>2 / real (length xs)"
  by (simp add: squares_about_expand mean_of_def field_simps power2_eq_square)

lemma mean_of_snoc:
  assumes "xs \<noteq> []"
  shows "mean_of (xs @ [x]) = mean_of xs + (x - mean_of xs) / real (Suc (length xs))"
proof -
  have n: "real (length xs) > 0" using assms by simp
  have *: "(S + x) / m = S / n + (x - S / n) / m" if "n > 0" "m = n + 1" for S n m :: real
    using that by (simp add: divide_simps) (simp add: algebra_simps)
  show ?thesis using * [OF n refl, of "sum_list xs"] by (simp add: mean_of_def ac_simps)
qed

lemma squares_snoc:
  assumes ne: "xs \<noteq> []"
  shows "squares_about (mean_of (xs @ [x])) (xs @ [x])
         = squares_about (mean_of xs) xs + (x - mean_of (xs @ [x])) * (x - mean_of xs)"
proof -
  define n where "n = real (length xs)"
  define S where "S = sum_list xs"
  have n: "0 < n" using ne by (simp add: n_def)
  have m: "mean_of xs = S / n" "mean_of (xs @ [x]) = (S + x) / (n + 1)"
    by (simp_all add: mean_of_def n_def S_def add.commute)
  have id: "(S + x)\<^sup>2 / k = S\<^sup>2 / n + x\<^sup>2 - (x - (S + x) / k) * (x - S / n)" if "k = n + 1" for k
    using n that by (simp add: divide_simps) (simp add: power2_eq_square algebra_simps)
  have l: "real (length (xs @ [x])) = n + 1" "sum_list (xs @ [x]) = S + x"
    by (simp_all add: n_def S_def)
  have "squares_about (mean_of (xs @ [x])) (xs @ [x]) = (\<Sum>x\<leftarrow>xs. x\<^sup>2) + x\<^sup>2 - (S + x)\<^sup>2 / (n + 1)"
    by (subst squares_about_mean) (simp_all only: l, simp_all)
  moreover have "squares_about (mean_of xs) xs = (\<Sum>x\<leftarrow>xs. x\<^sup>2) - S\<^sup>2 / n"
    using squares_about_mean [OF ne] by (simp only: n_def S_def)
  ultimately show ?thesis using id [OF refl] by (simp only: m)
qed

text \<open>The statistics describe the values \<open>xs\<close>.\<close>

definition stat_of :: "real list \<Rightarrow> statistic \<Rightarrow> bool" where
  "stat_of xs s \<longleftrightarrow>
     st_data s = xs \<and> st_counter s = length xs \<and> st_max s = foldl max (-100) xs \<and>
     (xs \<noteq> [] \<longrightarrow> st_total s = sum_list xs \<and> st_mean s = mean_of xs \<and>
                  st_ssd s = squares_about (mean_of xs) xs)"

lemma stat_of_clear: "stat_of [] (stat_clear s)"
  by (simp add: stat_of_def stat_clear_def)

lemma stat_of_new: "stat_of [] new_statistic"
  by (simp add: stat_of_def new_statistic_def)

lemma stat_of_push:
  assumes "stat_of xs s"
  shows "stat_of (xs @ [x]) (stat_push x s)"
proof (cases "xs = []")
  case True
  with assms show ?thesis
    by (simp add: stat_of_def stat_push_def Let_def mean_of_def squares_about_def max_def)
next
  case False
  have "stat_push x s = \<lparr> st_counter = Suc (length xs), st_total = sum_list xs + x,
      st_mean = mean_of (xs @ [x]), st_ssd = squares_about (mean_of (xs @ [x])) (xs @ [x]),
      st_max = max (foldl max (-100) xs) x, st_data = xs @ [x] \<rparr>"
    using assms False
    by (simp only: squares_snoc [OF False], simp only: mean_of_snoc [OF False])
      (cases s, auto simp: stat_of_def stat_push_def Let_def max_def)
  then show ?thesis by (simp add: stat_of_def)
qed

lemma stat_of_fold: "stat_of xs s \<Longrightarrow> stat_of (xs @ ys) (fold stat_push ys s)"
proof (induction ys arbitrary: xs s)
  case (Cons y ys)
  from Cons.IH [OF stat_of_push [OF Cons.prems]] show ?case by simp
qed simp


text \<open>\<^verbatim>\<open>Clear\<close> leaves the old total: cleared statistics still report the sum of the previous run.\<close>

lemma cleared_total_stale:
  "st_total (stat_clear (stat_push 7 new_statistic)) = 7"
  by (simp add: stat_clear_def stat_push_def new_statistic_def Let_def)

subsection \<open>The percentile\<close>

lemma sorted_prefix_below:
  assumes "sorted ys" "i < length ys" "ys ! i \<le> p"
  shows "Suc i \<le> length (filter (\<lambda>y. y \<le> p) ys)"
proof -
  have "\<forall>y\<in>set (take (Suc i) ys). y \<le> p"
  proof
    fix y assume "y \<in> set (take (Suc i) ys)"
    then obtain j where "j < Suc i" "j < length ys" "y = ys ! j"
      by (auto simp: in_set_conv_nth)
    then show "y \<le> p" using sorted_nth_mono [OF assms(1), of j i] assms(2,3) by simp
  qed
  then have "filter (\<lambda>y. y \<le> p) (take (Suc i) ys) = take (Suc i) ys" by simp
  then have "filter (\<lambda>y. y \<le> p) ys = take (Suc i) ys @ filter (\<lambda>y. y \<le> p) (drop (Suc i) ys)"
    by (metis append_take_drop_id filter_append)
  then show ?thesis using assms(2) by simp
qed

lemma sorted_suffix_above:
  assumes "sorted ys" "i < length ys" "p \<le> ys ! i"
  shows "length ys - i \<le> length (filter (\<lambda>y. p \<le> y) ys)"
proof -
  have "\<forall>y\<in>set (drop i ys). p \<le> y"
  proof
    fix y assume "y \<in> set (drop i ys)"
    then obtain j where "j < length (drop i ys)" "y = drop i ys ! j"
      by (metis in_set_conv_nth)
    then have "i + j < length ys" "y = ys ! (i + j)" using assms(2) by simp_all
    then show "p \<le> y" using sorted_nth_mono [OF assms(1), of i "i + j"] assms(3) by simp
  qed
  then have "filter (\<lambda>y. p \<le> y) (drop i ys) = drop i ys" by simp
  then have "filter (\<lambda>y. p \<le> y) ys = filter (\<lambda>y. p \<le> y) (take i ys) @ drop i ys"
    by (metis append_take_drop_id filter_append)
  then show ?thesis by simp
qed

lemma length_filter_sort: "length (filter P (sort xs)) = length (filter P (xs :: real list))"
  by (metis mset_filter mset_sort size_mset)

definition rank95 :: "real \<Rightarrow> real list \<Rightarrow> bool" where
  "rank95 p xs \<longleftrightarrow>
     19 * length xs div 20 \<le> length (filter (\<lambda>x. x \<le> p) xs) \<and>
     length xs - 19 * length xs div 20 \<le> length (filter (\<lambda>x. p \<le> x) xs)"

lemma rank95_between:
  assumes i: "Suc i < length xs" "19 * length xs div 20 = Suc i"
    and p: "sort xs ! i \<le> p" "p \<le> sort xs ! Suc i"
  shows "rank95 p xs"
  using sorted_prefix_below [of "sort xs" i p] sorted_suffix_above [of "sort xs" "Suc i" p] i p
  by (simp add: rank95_def length_filter_sort)

lemma rank95_at:
  assumes "i < length xs" "19 * length xs div 20 = Suc i" "p = sort xs ! i"
  shows "rank95 p xs"
  using sorted_prefix_below [of "sort xs" i p] sorted_suffix_above [of "sort xs" i p] assms
  by (simp add: rank95_def length_filter_sort)

lemma floor_95: "\<lfloor>real n * (95 / 100)\<rfloor> = int (19 * n div 20)"
proof -
  have "real n * (95 / 100) = real (19 * n) / real 20" by simp
  also have "\<lfloor>\<dots>\<rfloor> = int (19 * n div 20)" by (simp only: floor_divide_of_nat_eq)
  finally show ?thesis .
qed

text \<open>
  The 95th percentile of no values is -1; of at least two values it is a value such that at
  least 95% of them (rounded down) are at most it and the rest are at least it, computed
  without leaving the vector; of exactly one value the code reads the element before the first
  (\<open>None\<close>), whatever the value.
\<close>

lemma percentile_cases:
  "case calculate_95th_percentile xs of
     None \<Rightarrow> length xs = 1
   | Some p \<Rightarrow> xs = [] \<and> p = -1 \<or> 2 \<le> length xs \<and> rank95 p xs"
proof (cases "length xs \<le> 1")
  case True
  then consider "xs = []" | x where "xs = [x]" by (cases xs) auto
  then show ?thesis
  proof cases
    case 2
    have f: "\<lfloor>95 / 100 :: real\<rfloor> = 0" by simp
    show ?thesis unfolding 2 by (simp add: calculate_95th_percentile_def at_index_def)
  qed (simp add: calculate_95th_percentile_def)
next
  case False
  define n m where "n = length xs" "m = 19 * n div 20"
  define k where "k = real n * (95 / 100)"
  have n: "2 \<le> n" "n = length xs" using False by (simp_all add: n_m_def)
  have m: "1 \<le> m" "m < n" using n by (simp_all add: n_m_def(2))
  have fl: "\<lfloor>k\<rfloor> = int m" unfolding k_def n_m_def(2) by (rule floor_95)
  obtain i where i: "m = Suc i" using m by (cases m) auto
  have ne: "xs \<noteq> []" using False by auto
  have ni: "nat (1 + int i) = Suc i" by simp
  have len: "i < length xs" "Suc i < length xs" using m i n by simp_all
  show ?thesis
  proof (cases "k = real_of_int \<lfloor>k\<rfloor>")
    case True
    have "calculate_95th_percentile xs = Some (sort xs ! i)"
      using ne True fl i len unfolding calculate_95th_percentile_def n(2) [symmetric] k_def [symmetric]
      by (simp add: Let_def at_index_def n(2))
    then show ?thesis using rank95_at [of i xs "sort xs ! i"] m i n n_m_def by simp
  next
    case False
    define p where "p = sort xs ! i + (k - real m) * (sort xs ! m - sort xs ! i)"
    have "calculate_95th_percentile xs = Some p"
      using ne False fl i len unfolding calculate_95th_percentile_def n(2) [symmetric] k_def [symmetric]
      by (simp add: Let_def at_index_def p_def n(2) ni)
    moreover have "rank95 p xs"
    proof (rule rank95_between [of i])
      have fr: "0 \<le> k - real m" "k - real m \<le> 1" using fl by linarith+
      have d: "0 \<le> sort xs ! m - sort xs ! i"
        using sorted_nth_mono [of "sort xs" i m] m i n by simp
      show "sort xs ! i \<le> p" using fr d by (simp add: p_def)
      show "p \<le> sort xs ! Suc i"
        using mult_right_mono [OF fr(2) d] i by (simp add: p_def)
    qed (use m i n n_m_def in simp_all)
    ultimately show ?thesis using n by simp
  qed
qed

lemma percentile_none: "calculate_95th_percentile xs = None \<longleftrightarrow> length xs = 1"
  using percentile_cases [of xs] by (auto simp: calculate_95th_percentile_def split: option.splits)

section \<open>The origin of a packet\<close>

record stream_trace =
  packet_timestamp :: int
  stream_id :: int

record calculator_trace =
  ct_node_id :: int
  ct_input_timestamp :: int
  ct_is_process :: bool
  ct_start_time :: "int option"
  ct_finish_time :: "int option"
  ct_thread_id :: int
  ct_input_trace :: "stream_trace list"
  ct_output_trace :: "stream_trace list"

record graph_trace =
  gt_base_time :: int
  gt_calculator_name :: "string list"
  gt_calculator_trace :: "calculator_trace list"

type_synonym packet_key = "int \<times> int"
type_synonym packet_lookup = "(packet_key \<times> calculator_trace) list"

definition has_start_time :: "calculator_trace \<Rightarrow> bool" where
  "has_start_time t \<longleftrightarrow> ct_start_time t \<noteq> None"

definition start_time :: "calculator_trace \<Rightarrow> int" where
  "start_time t = (case ct_start_time t of Some v \<Rightarrow> v | None \<Rightarrow> 0)"

definition finish_time :: "calculator_trace \<Rightarrow> int" where
  "finish_time t = (case ct_finish_time t of Some v \<Rightarrow> v | None \<Rightarrow> 0)"

definition own_time :: "calculator_trace \<Rightarrow> int" where
  "own_time t = (if has_start_time t then start_time t else finish_time t)"

definition stream_key :: "stream_trace \<Rightarrow> packet_key" where
  "stream_key s = (packet_timestamp s, stream_id s)"

definition lookup_nodes :: "packet_lookup \<Rightarrow> int set" where
  "lookup_nodes lk = ct_node_id ` snd ` set lk"

lemma finite_lookup_nodes [simp]: "finite (lookup_nodes lk)"
  by (simp add: lookup_nodes_def)

lemma lookup_nodes_intro: "map_of lk k = Some t \<Longrightarrow> ct_node_id t \<in> lookup_nodes lk"
  by (force simp: lookup_nodes_def dest: map_of_SomeD)

text \<open>
  The recursion threads the list of the nodes already visited, which the code keeps behind
  a pointer: the loop over the inputs is the second function.
\<close>

function RecursePacketStartTime :: "packet_lookup \<Rightarrow> calculator_trace \<Rightarrow> int list \<Rightarrow> int \<times> int list"
  and recurse_inputs :: "packet_lookup \<Rightarrow> stream_trace list \<Rightarrow> int \<Rightarrow> int list \<Rightarrow> int \<times> int list"
where
  "RecursePacketStartTime lk t visited =
     (if ct_node_id t \<in> set visited then (own_time t, visited)
      else recurse_inputs lk (ct_input_trace t) (own_time t) (visited @ [ct_node_id t]))"
| "recurse_inputs lk [] child_start_time visited = (child_start_time, visited)"
| "recurse_inputs lk (s # ss) child_start_time visited =
     (case map_of lk (stream_key s) of
        None \<Rightarrow> recurse_inputs lk ss child_start_time visited
      | Some u \<Rightarrow>
          (let r = RecursePacketStartTime lk u visited
           in recurse_inputs lk ss (min child_start_time (fst r)) (snd r)))"
  by pat_completeness auto

lemma visited_grows:
  "RecursePacketStartTime_recurse_inputs_dom (Inl (lk, t, visited)) \<Longrightarrow>
     set visited \<subseteq> set (snd (RecursePacketStartTime lk t visited))"
  "RecursePacketStartTime_recurse_inputs_dom (Inr (lk, ss, m, visited)) \<Longrightarrow>
     set visited \<subseteq> set (snd (recurse_inputs lk ss m visited))"
proof (induction lk t visited and lk ss m visited
    rule: RecursePacketStartTime_recurse_inputs.pinduct)
  case (1 lk t visited)
  then show ?case by (auto simp: RecursePacketStartTime.psimps)
next
  case (2 lk m visited)
  then show ?case by (simp add: recurse_inputs.psimps)
next
  case (3 lk s ss m visited)
  show ?case
  proof (cases "map_of lk (stream_key s)")
    case None
    with 3 show ?thesis by (simp add: recurse_inputs.psimps)
  next
    case (Some u)
    with 3 show ?thesis by (fastforce simp: recurse_inputs.psimps Let_def)
  qed
qed

lemma card_visit_less:
  "finite N \<Longrightarrow> n \<notin> V \<Longrightarrow> card (N - insert n V) < card (insert n N - V)"
  by (rule psubset_card_mono) auto

termination RecursePacketStartTime
proof (relation "measures [
    case_sum (\<lambda>(lk, t, visited). card (insert (ct_node_id t) (lookup_nodes lk) - set visited))
             (\<lambda>(lk, ss, m, visited). card (lookup_nodes lk - set visited)),
    case_sum (\<lambda>(lk, t, visited). 0) (\<lambda>(lk, ss, m, visited). Suc (length ss))]", goal_cases)
  case 1
  then show ?case by simp
next
  case (2 lk t visited)
  then show ?case using card_visit_less [of "lookup_nodes lk" "ct_node_id t" "set visited"] by simp
next
  case (3 lk s ss m visited)
  then show ?case by simp
next
  case (4 lk s ss m visited u)
  then have "insert (ct_node_id u) (lookup_nodes lk) = lookup_nodes lk"
    by (simp add: insert_absorb lookup_nodes_intro)
  then show ?case by simp
next
  case (5 lk s ss m visited u r)
  have "set visited \<subseteq> set (snd r)"
    using visited_grows(1) [OF 5(3)] 5(2) by simp
  then have "card (lookup_nodes lk - set (snd r)) \<le> card (lookup_nodes lk - set visited)"
    by (intro card_mono) auto
  then show ?case by auto
qed

declare RecursePacketStartTime.simps [simp del]

text \<open>
  A trace \<open>u\<close> feeds \<open>t\<close> when one of the packets \<open>t\<close> read is one \<open>u\<close> wrote; the origins of a
  trace are the traces it descends from, itself among them.
\<close>

definition feeds :: "packet_lookup \<Rightarrow> calculator_trace \<Rightarrow> calculator_trace \<Rightarrow> bool" where
  "feeds lk t u \<longleftrightarrow> (\<exists>s\<in>set (ct_input_trace t). map_of lk (stream_key s) = Some u)"

definition origins :: "packet_lookup \<Rightarrow> calculator_trace \<Rightarrow> calculator_trace set" where
  "origins lk t = {u. (feeds lk)\<^sup>*\<^sup>* t u}"

definition input_origins :: "packet_lookup \<Rightarrow> stream_trace list \<Rightarrow> calculator_trace set" where
  "input_origins lk ss = {u. \<exists>s\<in>set ss. \<exists>c. map_of lk (stream_key s) = Some c \<and> u \<in> origins lk c}"

text \<open>The nodes visited between \<open>v\<close> and \<open>v'\<close> are those of traces of \<open>U\<close>, all accounted for in \<open>m\<close>.\<close>

definition explored ::
  "packet_lookup \<Rightarrow> int list \<Rightarrow> int \<Rightarrow> int list \<Rightarrow> calculator_trace set \<Rightarrow> bool" where
  "explored lk v m v' U \<longleftrightarrow>
     (\<forall>n\<in>set v' - set v. \<exists>u\<in>U. ct_node_id u = n \<and> m \<le> own_time u \<and>
        (\<forall>w. feeds lk u w \<longrightarrow> ct_node_id w \<in> set v'))"

lemma origins_self [simp, intro]: "t \<in> origins lk t"
  by (simp add: origins_def)

lemma origins_unfold: "origins lk t = insert t (input_origins lk (ct_input_trace t))"
proof -
  have "(feeds lk)\<^sup>*\<^sup>* t u \<longleftrightarrow> u = t \<or> (\<exists>c. feeds lk t c \<and> (feeds lk)\<^sup>*\<^sup>* c u)" for u
    by (metis converse_rtranclpE converse_rtranclp_into_rtranclp rtranclp.rtrancl_refl)
  then show ?thesis
    by (simp add: origins_def input_origins_def feeds_def set_eq_iff) blast
qed

lemma input_origins_Cons:
  "input_origins lk (s # ss) =
     (case map_of lk (stream_key s) of None \<Rightarrow> {} | Some c \<Rightarrow> origins lk c) \<union> input_origins lk ss"
  by (auto simp: input_origins_def split: option.splits)

lemma input_origins_Nil [simp]: "input_origins lk [] = {}"
  by (simp add: input_origins_def)

lemma explored_mono:
  assumes "explored lk v m v' U" "m' \<le> m" "set v' \<subseteq> set v''" "U \<subseteq> U'"
  shows "\<forall>n\<in>set v' - set v. \<exists>u\<in>U'. ct_node_id u = n \<and> m' \<le> own_time u \<and>
        (\<forall>w. feeds lk u w \<longrightarrow> ct_node_id w \<in> set v'')"
  using assms unfolding explored_def by (meson in_mono order_trans)

lemma explored_trans:
  assumes "explored lk v m1 v1 U1" "explored lk v1 m v' U2" "m \<le> m1" "set v1 \<subseteq> set v'"
  shows "explored lk v m v' (U1 \<union> U2)"
proof -
  have a: "\<forall>n\<in>set v1 - set v. \<exists>u\<in>U1 \<union> U2. ct_node_id u = n \<and> m \<le> own_time u \<and>
        (\<forall>w. feeds lk u w \<longrightarrow> ct_node_id w \<in> set v')"
    by (rule explored_mono [OF assms(1) assms(3,4)]) simp
  have b: "\<forall>n\<in>set v' - set v1. \<exists>u\<in>U1 \<union> U2. ct_node_id u = n \<and> m \<le> own_time u \<and>
        (\<forall>w. feeds lk u w \<longrightarrow> ct_node_id w \<in> set v')"
    by (rule explored_mono [OF assms(2)]) simp_all
  show ?thesis unfolding explored_def
  proof
    fix n assume "n \<in> set v' - set v"
    then consider "n \<in> set v1 - set v" | "n \<in> set v' - set v1" by blast
    then show "\<exists>u\<in>U1 \<union> U2. ct_node_id u = n \<and> m \<le> own_time u \<and>
        (\<forall>w. feeds lk u w \<longrightarrow> ct_node_id w \<in> set v')"
      using a b by cases simp_all
  qed
qed

definition recurse_ok ::
  "packet_lookup \<Rightarrow> calculator_trace \<Rightarrow> int list \<Rightarrow> int \<Rightarrow> int list \<Rightarrow> bool" where
  "recurse_ok lk t v m v' \<longleftrightarrow>
     set v \<subseteq> set v' \<and> ct_node_id t \<in> set v' \<and> m \<in> own_time ` origins lk t \<and>
     m \<le> own_time t \<and> explored lk v m v' (origins lk t)"

definition inputs_ok ::
  "packet_lookup \<Rightarrow> stream_trace list \<Rightarrow> int \<Rightarrow> int list \<Rightarrow> int \<Rightarrow> int list \<Rightarrow> bool" where
  "inputs_ok lk ss m0 v m v' \<longleftrightarrow>
     set v \<subseteq> set v' \<and> m \<le> m0 \<and> (m = m0 \<or> m \<in> own_time ` input_origins lk ss) \<and>
     (\<forall>s\<in>set ss. \<forall>u. map_of lk (stream_key s) = Some u \<longrightarrow> ct_node_id u \<in> set v') \<and>
     explored lk v m v' (input_origins lk ss)"

lemma inputs_ok_Cons:
  assumes u: "map_of lk (stream_key s) = Some u"
    and r: "recurse_ok lk u v m1 v1" and i: "inputs_ok lk ss (min m0 m1) v1 m v'"
  shows "inputs_ok lk (s # ss) m0 v m v'"
proof -
  have U: "input_origins lk (s # ss) = origins lk u \<union> input_origins lk ss"
    using u by (simp add: input_origins_Cons)
  have "m \<le> m1" "m \<le> m0" "set v1 \<subseteq> set v'" "set v \<subseteq> set v1"
    using r i by (simp_all add: recurse_ok_def inputs_ok_def)
  moreover have "explored lk v m v' (origins lk u \<union> input_origins lk ss)"
    using r i \<open>m \<le> m1\<close> by (intro explored_trans [of _ _ m1 v1])
      (simp_all add: recurse_ok_def inputs_ok_def)
  moreover have "m = m0 \<or> m \<in> own_time ` (origins lk u \<union> input_origins lk ss)"
    using r i by (auto simp: recurse_ok_def inputs_ok_def min_def split: if_splits)
  moreover have "ct_node_id u \<in> set v'"
    using r \<open>set v1 \<subseteq> set v'\<close> by (auto simp: recurse_ok_def)
  ultimately show ?thesis
    using u i unfolding inputs_ok_def U by auto
qed

lemma recurse_correct:
  "recurse_ok lk t v (fst (RecursePacketStartTime lk t v)) (snd (RecursePacketStartTime lk t v))"
  "inputs_ok lk ss m0 v (fst (recurse_inputs lk ss m0 v)) (snd (recurse_inputs lk ss m0 v))"
proof (induction lk t v and lk ss m0 v rule: RecursePacketStartTime_recurse_inputs.induct)
  case (1 lk t v)
  show ?case
  proof (cases "ct_node_id t \<in> set v")
    case True
    then show ?thesis
      by (simp add: recurse_ok_def explored_def RecursePacketStartTime.simps)
  next
    case False
    define r where "r = recurse_inputs lk (ct_input_trace t) (own_time t) (v @ [ct_node_id t])"
    have eq: "RecursePacketStartTime lk t v = r"
      using False by (simp add: RecursePacketStartTime.simps r_def)
    have i: "inputs_ok lk (ct_input_trace t) (own_time t) (v @ [ct_node_id t]) (fst r) (snd r)"
      using 1 [OF False] by (simp add: r_def)
    have O: "origins lk t = {t} \<union> input_origins lk (ct_input_trace t)"
      by (simp add: origins_unfold)
    have kids: "\<forall>w. feeds lk t w \<longrightarrow> ct_node_id w \<in> set (snd r)"
      using i by (auto simp: inputs_ok_def feeds_def)
    have le: "fst r \<le> own_time t" using i by (simp add: inputs_ok_def)
    have "\<exists>u\<in>origins lk t. ct_node_id u = n \<and> fst r \<le> own_time u \<and>
        (\<forall>w. feeds lk u w \<longrightarrow> ct_node_id w \<in> set (snd r))" if n: "n \<in> set (snd r) - set v" for n
    proof (cases "n = ct_node_id t")
      case True
      with kids le show ?thesis by (intro bexI [of _ t]) auto
    next
      case False
      with n i have "\<exists>u\<in>input_origins lk (ct_input_trace t). ct_node_id u = n \<and>
          fst r \<le> own_time u \<and> (\<forall>w. feeds lk u w \<longrightarrow> ct_node_id w \<in> set (snd r))"
        by (simp add: inputs_ok_def explored_def)
      then show ?thesis unfolding O by blast
    qed
    then have "explored lk v (fst r) (snd r) (origins lk t)"
      by (simp add: explored_def)
    moreover have "fst r \<in> own_time ` origins lk t"
      using i unfolding O inputs_ok_def by auto
    ultimately show ?thesis
      unfolding eq recurse_ok_def using i le by (auto simp: inputs_ok_def)
  qed
next
  case (2 lk m0 v)
  show ?case by (simp add: inputs_ok_def explored_def)
next
  case (3 lk s ss m0 v)
  show ?case
  proof (cases "map_of lk (stream_key s)")
    case None
    with 3(1) show ?thesis by (auto simp: inputs_ok_def input_origins_Cons)
  next
    case (Some u)
    define r where "r = RecursePacketStartTime lk u v"
    have eq: "recurse_inputs lk (s # ss) m0 v = recurse_inputs lk ss (min m0 (fst r)) (snd r)"
      using Some by (simp add: r_def Let_def)
    have ru: "recurse_ok lk u v (fst r) (snd r)" using 3(2) [OF Some] by (simp add: r_def)
    show ?thesis unfolding eq
      by (rule inputs_ok_Cons [OF Some ru]) (rule 3(3) [OF Some r_def])
  qed
qed

definition CalculateInputLatency :: "packet_lookup \<Rightarrow> calculator_trace \<Rightarrow> int" where
  "CalculateInputLatency lk t =
     (if \<not> has_start_time t then 0
      else start_time t - fst (RecursePacketStartTime lk t []))"


definition demo_source :: calculator_trace where
  "demo_source = \<lparr> ct_node_id = 0, ct_input_timestamp = 5, ct_is_process = True,
     ct_start_time = Some 100, ct_finish_time = Some 130, ct_thread_id = 1, ct_input_trace = [],
     ct_output_trace = [\<lparr> packet_timestamp = 5, stream_id = 1 \<rparr>] \<rparr>"

definition demo_middle :: calculator_trace where
  "demo_middle = \<lparr> ct_node_id = 1, ct_input_timestamp = 5, ct_is_process = True,
     ct_start_time = Some 140, ct_finish_time = Some 150, ct_thread_id = 1,
     ct_input_trace = [\<lparr> packet_timestamp = 5, stream_id = 1 \<rparr>],
     ct_output_trace = [\<lparr> packet_timestamp = 5, stream_id = 2 \<rparr>] \<rparr>"

definition demo_sink :: calculator_trace where
  "demo_sink = \<lparr> ct_node_id = 2, ct_input_timestamp = 5, ct_is_process = True,
     ct_start_time = Some 160, ct_finish_time = Some 190, ct_thread_id = 1,
     ct_input_trace = [\<lparr> packet_timestamp = 5, stream_id = 2 \<rparr>, \<lparr> packet_timestamp = 5, stream_id = 1 \<rparr>],
     ct_output_trace = [] \<rparr>"

definition demo_lookup :: packet_lookup where
  "demo_lookup = [((5, 1), demo_source), ((5, 2), demo_middle)]"

lemmas demo_traces = demo_source_def demo_middle_def demo_sink_def

lemma demo_origins: "origins demo_lookup demo_sink = {demo_sink, demo_middle, demo_source}"
proof -
  have l: "map_of demo_lookup (5, 1) = Some demo_source" "map_of demo_lookup (5, 2) = Some demo_middle"
    by (simp_all add: demo_lookup_def)
  have i: "ct_input_trace demo_source = []"
    "ct_input_trace demo_middle = [\<lparr> packet_timestamp = 5, stream_id = 1 \<rparr>]"
    "ct_input_trace demo_sink = [\<lparr> packet_timestamp = 5, stream_id = 2 \<rparr>, \<lparr> packet_timestamp = 5, stream_id = 1 \<rparr>]"
    by (simp_all add: demo_traces)
  have 0: "origins demo_lookup demo_source = {demo_source}"
    by (subst origins_unfold) (simp add: i)
  have 1: "origins demo_lookup demo_middle = {demo_middle, demo_source}"
    by (subst origins_unfold) (simp add: i l input_origins_Cons stream_key_def 0)
  show ?thesis
    by (subst origins_unfold) (auto simp: i l input_origins_Cons stream_key_def 0 1)
qed


lemma demo_latency: "CalculateInputLatency demo_lookup demo_sink = 60"
  by (simp add: CalculateInputLatency_def RecursePacketStartTime.simps demo_lookup_def demo_traces
      stream_key_def own_time_def has_start_time_def start_time_def Let_def)

text \<open>
  The visited list is kept for the whole search and by node, so a second packet of the same
  calculator is not followed to its own origin: here the sink reads two packets of one
  calculator, whose second comes from an event at time 10, and the latency reported is 60, not
  the 150 the earliest origin gives.
\<close>

definition early_source :: calculator_trace where
  "early_source = demo_source\<lparr> ct_node_id := 7, ct_start_time := Some 10,
     ct_output_trace := [\<lparr> packet_timestamp = 4, stream_id = 3 \<rparr>] \<rparr>"

definition late_middle :: calculator_trace where
  "late_middle = demo_middle\<lparr> ct_input_trace := [\<lparr> packet_timestamp = 4, stream_id = 3 \<rparr>],
     ct_output_trace := [\<lparr> packet_timestamp = 4, stream_id = 2 \<rparr>] \<rparr>"

definition two_packet_sink :: calculator_trace where
  "two_packet_sink = demo_sink\<lparr> ct_input_trace :=
     [\<lparr> packet_timestamp = 5, stream_id = 2 \<rparr>, \<lparr> packet_timestamp = 4, stream_id = 2 \<rparr>] \<rparr>"

lemma second_packet_origin_missed:
  "let lk = ((4, 2), late_middle) # ((4, 3), early_source) # demo_lookup
   in early_source \<in> origins lk two_packet_sink \<and> own_time early_source = 10 \<and>
      CalculateInputLatency lk two_packet_sink = 60"
proof -
  let ?lk = "((4, 2), late_middle) # ((4, 3), early_source) # demo_lookup"
  have "feeds ?lk two_packet_sink late_middle" "feeds ?lk late_middle early_source"
    by (simp_all add: feeds_def two_packet_sink_def late_middle_def demo_lookup_def demo_sink_def
        demo_middle_def stream_key_def)
  then have "early_source \<in> origins ?lk two_packet_sink"
    by (auto simp: origins_def intro: converse_rtranclp_into_rtranclp)
  moreover have "CalculateInputLatency ?lk two_packet_sink = 60"
    by (simp add: CalculateInputLatency_def RecursePacketStartTime.simps demo_lookup_def demo_traces
        two_packet_sink_def late_middle_def early_source_def
        stream_key_def own_time_def has_start_time_def start_time_def Let_def)
  ultimately show ?thesis
    by (simp add: Let_def early_source_def demo_source_def own_time_def has_start_time_def start_time_def)
qed

section \<open>Reading a profile\<close>

type_synonym profile = "graph_trace list"

definition CacheNodeNameLookup :: "profile \<Rightarrow> (int \<times> string) list" where
  "CacheNodeNameLookup profile =
     fold (\<lambda>g m. fst (fold (\<lambda>calc_name (m, key). (AList.update key calc_name m, key + 1))
                           (gt_calculator_name g) (m, 0)))
          profile []"

type_synonym event_key = "int \<times> int \<times> int"
type_synonym event_lookup = "(event_key \<times> calculator_trace) list"

definition event_key :: "calculator_trace \<Rightarrow> event_key" where
  "event_key t = (ct_input_timestamp t, ct_node_id t, ct_thread_id t)"

definition cache_trace ::
  "calculator_trace \<Rightarrow> packet_lookup \<times> event_lookup \<Rightarrow> packet_lookup \<times> event_lookup" where
  "cache_trace t c =
     (if \<not> ct_is_process t then c
      else (fold (\<lambda>s lk. AList.update (stream_key s) t lk) (ct_output_trace t) (fst c),
            if has_start_time t \<and> ct_finish_time t = None then AList.update (event_key t) t (snd c)
            else snd c))"

definition CacheOutputTraceLookup :: "profile \<Rightarrow> packet_lookup \<times> event_lookup" where
  "CacheOutputTraceLookup profile =
     fold (\<lambda>g. fold cache_trace (gt_calculator_trace g)) profile ([], [])"

record graph_data =
  min_time :: int
  max_time :: int
  total_time :: int

definition new_graph_data :: graph_data where
  "new_graph_data = \<lparr> min_time = 2 ^ 63 - 1, max_time = - (2 ^ 63), total_time = 0 \<rparr>"

record calculator_data =
  cd_name :: string
  cd_counter :: nat
  cd_completed :: nat
  cd_dropped :: real
  cd_fps :: real
  cd_frequency :: "real option"
  cd_thread_count :: real
  cd_processing_rate :: real
  cd_time_percent :: "real option"
  cd_time_stat :: statistic
  cd_input_latency_stat :: statistic
  cd_threads :: "int set"

definition new_calculator_data :: calculator_data where
  "new_calculator_data =
     \<lparr> cd_name = [], cd_counter = 0, cd_completed = 0, cd_dropped = 0, cd_fps = 0,
       cd_frequency = Some 0, cd_thread_count = 0, cd_processing_rate = 0, cd_time_percent = Some 0,
       cd_time_stat = new_statistic, cd_input_latency_stat = new_statistic, cd_threads = {} \<rparr>"

text \<open>The member \<^verbatim>\<open>calculator_data_\<close> in the order of its iteration.\<close>

type_synonym calculators = "(string \<times> calculator_data) list"

definition matching_start :: "event_lookup \<Rightarrow> calculator_trace \<Rightarrow> int option" where
  "matching_start starts t =
     (if has_start_time t then Some (start_time t)
      else map_option start_time (map_of starts (event_key t)))"

text \<open>
  What one event does to the graph's data and to its calculator's, in three steps: the
  identity, the start and the finish. The base time cancels in the duration.
\<close>

definition note_identity :: "string \<Rightarrow> calculator_trace \<Rightarrow> calculator_data \<Rightarrow> calculator_data" where
  "note_identity node_name t d =
     d\<lparr> cd_name := node_name, cd_threads := insert (ct_thread_id t) (cd_threads d) \<rparr>"

definition note_start ::
  "int \<Rightarrow> calculator_trace \<Rightarrow> graph_data \<times> calculator_data \<Rightarrow> graph_data \<times> calculator_data" where
  "note_start base t = (\<lambda>(g, d).
     if has_start_time t
     then (g\<lparr> min_time := min (min_time g) (start_time t + base) \<rparr>, d\<lparr> cd_counter := Suc (cd_counter d) \<rparr>)
     else (g, d))"

definition note_finish ::
  "packet_lookup \<Rightarrow> event_lookup \<Rightarrow> int \<Rightarrow> calculator_trace
     \<Rightarrow> graph_data \<times> calculator_data \<Rightarrow> graph_data \<times> calculator_data" where
  "note_finish lk starts base t = (\<lambda>(g, d).
     if ct_finish_time t = None then (g, d)
     else let finish = finish_time t + base;
              g1 = g\<lparr> max_time := max (max_time g) finish \<rparr>
          in case matching_start starts t of
               None \<Rightarrow> (g1, d)
             | Some start \<Rightarrow>
                 let duration = finish - (start + base)
                 in (g1\<lparr> total_time := total_time g1 + duration \<rparr>,
                     d\<lparr> cd_completed := Suc (cd_completed d),
                        cd_input_latency_stat :=
                          stat_push (real_of_int (CalculateInputLatency lk t)) (cd_input_latency_stat d),
                        cd_time_stat := stat_push (real_of_int duration) (cd_time_stat d) \<rparr>))"

definition node_name :: "(int \<times> string) list \<Rightarrow> calculator_trace \<Rightarrow> string" where
  "node_name names t = (case map_of names (ct_node_id t) of Some n \<Rightarrow> n | None \<Rightarrow> [])"

definition data_of :: "calculators \<Rightarrow> string \<Rightarrow> calculator_data" where
  "data_of cm n = (case map_of cm n of Some d \<Rightarrow> d | None \<Rightarrow> new_calculator_data)"

definition accumulate_event ::
  "(int \<times> string) list \<Rightarrow> packet_lookup \<Rightarrow> event_lookup \<Rightarrow> int \<Rightarrow> calculator_trace
     \<Rightarrow> graph_data \<times> calculators \<Rightarrow> graph_data \<times> calculators" where
  "accumulate_event names lk starts base t = (\<lambda>(g, cm).
     if \<not> ct_is_process t then (g, cm)
     else let n = node_name names t;
              r = note_finish lk starts base t
                    (note_start base t (g, note_identity n t (data_of cm n)))
          in (fst r, smap_insert n (snd r) cm))"

definition Accumulate :: "profile \<Rightarrow> graph_data \<times> calculators \<Rightarrow> graph_data \<times> calculators" where
  "Accumulate profile st =
     (let names = CacheNodeNameLookup profile;
          caches = CacheOutputTraceLookup profile
      in fold (\<lambda>g. fold (accumulate_event names (fst caches) (snd caches) (gt_base_time g))
                        (gt_calculator_trace g)) profile st)"

definition new_reporter :: "graph_data \<times> calculators" where
  "new_reporter = (new_graph_data, [])"

section \<open>Completing the data\<close>

definition double_div :: "real \<Rightarrow> real \<Rightarrow> real option" where
  "double_div a b = (if b = 0 then None else Some (a / b))"

text \<open>The subtraction of two \<^verbatim>\<open>int64_t\<close>: overflow is undefined.\<close>

definition int64_sub :: "int \<Rightarrow> int \<Rightarrow> int option" where
  "int64_sub a b = (if - (2 ^ 63) \<le> a - b \<and> a - b < 2 ^ 63 then Some (a - b) else None)"

definition complete_data :: "graph_data \<Rightarrow> calculator_data \<Rightarrow> calculator_data" where
  "complete_data g d =
     (let time_to_process = stat_mean (cd_time_stat d) + stat_mean (cd_input_latency_stat d)
      in d\<lparr> cd_fps := (if time_to_process = 0 then 0 else 1000000 / time_to_process),
            cd_frequency := do { duration \<leftarrow> int64_sub (max_time g) (min_time g);
                                 double_div (real (cd_completed d)) (real_of_int duration / 1000000) },
            cd_time_percent := double_div (100 * st_total (cd_time_stat d)) (real_of_int (total_time g)),
            cd_dropped := real (cd_counter d) - real (cd_completed d),
            cd_processing_rate := (if stat_mean (cd_time_stat d) = 0 then 0
                                   else 1 / stat_mean (cd_time_stat d) * 1000000),
            cd_thread_count := real (card (cd_threads d)) \<rparr>)"

definition CompleteCalculatorData :: "graph_data \<Rightarrow> calculators \<Rightarrow> calculators" where
  "CompleteCalculatorData g cm = map (\<lambda>(n, d). (n, complete_data g d)) cm"

text \<open>
  The calls of a reporter, in any order: \<^verbatim>\<open>Accumulate\<close> of a profile, and \<^verbatim>\<open>Report\<close>, which
  completes the data in place.
\<close>

datatype reporter_op = OpAccumulate profile | OpReport

definition reporter_step :: "reporter_op \<Rightarrow> graph_data \<times> calculators \<Rightarrow> graph_data \<times> calculators" where
  "reporter_step op st =
     (case op of OpAccumulate p \<Rightarrow> Accumulate p st
      | OpReport \<Rightarrow> (fst st, CompleteCalculatorData (fst st) (snd st)))"

subsection \<open>The invariant of the data\<close>

definition data_ok :: "calculator_data \<Rightarrow> bool" where
  "data_ok d \<longleftrightarrow>
     (\<exists>ts ls. stat_of ts (cd_time_stat d) \<and> stat_of ls (cd_input_latency_stat d) \<and>
              length ts = cd_completed d \<and> length ls = cd_completed d \<and>
              st_total (cd_time_stat d) = sum_list ts)"

definition time_total :: "calculators \<Rightarrow> real" where
  "time_total cm = (\<Sum>e\<leftarrow>cm. st_total (cd_time_stat (snd e)))"

definition rep_inv :: "graph_data \<times> calculators \<Rightarrow> bool" where
  "rep_inv st \<longleftrightarrow>
     sorted_wrt (<) (map fst (snd st)) \<and>
     (\<forall>e\<in>set (snd st). cd_name (snd e) = fst e \<and> data_ok (snd e)) \<and>
     real_of_int (total_time (fst st)) = time_total (snd st)"

lemma data_ok_new: "data_ok new_calculator_data"
  unfolding data_ok_def
  by (intro exI [of _ "[]"]) (simp add: new_calculator_data_def stat_of_new, simp add: new_statistic_def)

lemma data_ok_cong:
  "cd_time_stat d' = cd_time_stat d \<Longrightarrow> cd_input_latency_stat d' = cd_input_latency_stat d \<Longrightarrow>
   cd_completed d' = cd_completed d \<Longrightarrow> data_ok d \<Longrightarrow> data_ok d'"
  by (simp add: data_ok_def)

lemma data_ok_push:
  assumes d: "data_ok d"
  shows "data_ok (d\<lparr> cd_completed := Suc (cd_completed d),
                     cd_input_latency_stat := stat_push y (cd_input_latency_stat d),
                     cd_time_stat := stat_push x (cd_time_stat d) \<rparr>)"
    and "st_total (stat_push x (cd_time_stat d)) = st_total (cd_time_stat d) + x"
proof -
  obtain ts ls where t: "stat_of ts (cd_time_stat d)" "stat_of ls (cd_input_latency_stat d)"
    "length ts = cd_completed d" "length ls = cd_completed d" "st_total (cd_time_stat d) = sum_list ts"
    using d by (auto simp: data_ok_def)
  have p: "stat_of (ts @ [x]) (stat_push x (cd_time_stat d))"
    "stat_of (ls @ [y]) (stat_push y (cd_input_latency_stat d))"
    using t by (simp_all add: stat_of_push)
  then have tot: "st_total (stat_push x (cd_time_stat d)) = sum_list (ts @ [x])"
    by (simp add: stat_of_def)
  then show "st_total (stat_push x (cd_time_stat d)) = st_total (cd_time_stat d) + x"
    using t by simp
  show "data_ok (d\<lparr> cd_completed := Suc (cd_completed d),
                     cd_input_latency_stat := stat_push y (cd_input_latency_stat d),
                     cd_time_stat := stat_push x (cd_time_stat d) \<rparr>)"
    unfolding data_ok_def using p tot t(3,4)
    by (intro exI [of _ "ts @ [x]"] exI [of _ "ls @ [y]"]) simp
qed

lemma note_start_facts:
  "total_time (fst (note_start base t (g, d))) = total_time g"
  "cd_name (snd (note_start base t (g, d))) = cd_name d"
  "cd_time_stat (snd (note_start base t (g, d))) = cd_time_stat d"
  "data_ok d \<Longrightarrow> data_ok (snd (note_start base t (g, d)))"
  by (auto simp: note_start_def intro: data_ok_cong)

lemma note_finish_facts:
  assumes "data_ok d"
  shows "data_ok (snd (note_finish lk starts base t (g, d)))"
    and "cd_name (snd (note_finish lk starts base t (g, d))) = cd_name d"
    and "real_of_int (total_time (fst (note_finish lk starts base t (g, d)))) - real_of_int (total_time g)
         = st_total (cd_time_stat (snd (note_finish lk starts base t (g, d)))) - st_total (cd_time_stat d)"
  using assms by (auto simp: note_finish_def Let_def data_ok_push split: option.split)

lemma time_total_insert:
  "sorted_wrt (<) (map fst cm) \<Longrightarrow>
   time_total (smap_insert n d cm) =
     time_total cm + st_total (cd_time_stat d)
       - (case map_of cm n of None \<Rightarrow> 0 | Some d' \<Rightarrow> st_total (cd_time_stat d'))"
proof (induction cm)
  case Nil
  then show ?case by (simp add: time_total_def)
next
  case (Cons e cm)
  obtain k' d' where e: "e = (k', d')" by (cases e)
  have out: "map_of cm n = None" if "n < k'"
    using Cons.prems e that by (auto simp: map_of_eq_None_iff dest!: bspec)
  consider "n < k'" | "n = k'" | "k' < n" by (rule linorder_cases)
  then show ?case
  proof cases
    case 1
    then show ?thesis using out by (auto simp: e time_total_def)
  next
    case 2
    then show ?thesis by (simp add: e time_total_def)
  next
    case 3
    then show ?thesis using Cons by (auto simp: e time_total_def split: option.splits)
  qed
qed

lemma set_smap_insert: "set (smap_insert k v m) \<subseteq> insert (k, v) (set m)"
  by (induction k v m rule: smap_insert.induct) auto

lemma rep_inv_new: "rep_inv new_reporter"
  by (simp add: rep_inv_def new_reporter_def new_graph_data_def time_total_def)

lemma rep_inv_event:
  assumes inv: "rep_inv st"
  shows "rep_inv (accumulate_event names lk starts base t st)"
proof (cases "ct_is_process t")
  case False
  with inv show ?thesis by (cases st) (simp add: accumulate_event_def)
next
  case True
  obtain g cm where st: "st = (g, cm)" by (cases st)
  define n where "n = node_name names t"
  define d0 where "d0 = data_of cm n"
  define d1 where "d1 = note_identity n t d0"
  define r1 where "r1 = note_start base t (g, d1)"
  define r where "r = note_finish lk starts base t r1"
  have eq: "accumulate_event names lk starts base t st = (fst r, smap_insert n (snd r) cm)"
    using True by (simp add: st accumulate_event_def Let_def r_def r1_def d1_def d0_def n_def)
  have srt: "sorted_wrt (<) (map fst cm)" using inv by (simp add: rep_inv_def st)
  have "data_ok d0"
    using inv data_ok_new map_of_SomeD [of cm n]
    by (auto simp: d0_def data_of_def rep_inv_def st split: option.split dest!: bspec)
  then have d1: "data_ok d1" "cd_name d1 = n" "cd_time_stat d1 = cd_time_stat d0"
    by (auto simp: d1_def note_identity_def intro: data_ok_cong)
  have r1: "data_ok (snd r1)" "cd_name (snd r1) = n" "cd_time_stat (snd r1) = cd_time_stat d0"
    "total_time (fst r1) = total_time g"
    unfolding r1_def using d1 by (simp_all add: note_start_facts)
  have r: "data_ok (snd r)" "cd_name (snd r) = n"
    "real_of_int (total_time (fst r)) - real_of_int (total_time g)
       = st_total (cd_time_stat (snd r)) - st_total (cd_time_stat d0)"
    unfolding r_def using r1 note_finish_facts [of "snd r1" lk starts base t "fst r1"] by simp_all
  have old: "(case map_of cm n of None \<Rightarrow> 0 | Some d' \<Rightarrow> st_total (cd_time_stat d'))
      = st_total (cd_time_stat d0)"
    by (auto simp: d0_def data_of_def new_calculator_data_def new_statistic_def split: option.split)
  have "real_of_int (total_time (fst r)) = time_total (smap_insert n (snd r) cm)"
    using r(3) inv by (simp add: time_total_insert [OF srt] old rep_inv_def st)
  moreover have "\<forall>e\<in>set (smap_insert n (snd r) cm). cd_name (snd e) = fst e \<and> data_ok (snd e)"
    using set_smap_insert [of n "snd r" cm] r inv by (auto simp: rep_inv_def st)
  ultimately show ?thesis
    unfolding eq by (simp add: rep_inv_def smap_insert_sorted [OF srt])
qed

lemma rep_inv_fold:
  "(\<And>x st. rep_inv st \<Longrightarrow> rep_inv (f x st)) \<Longrightarrow> rep_inv st \<Longrightarrow> rep_inv (fold f xs st)"
  by (induction xs arbitrary: st) auto

lemma rep_inv_accumulate: "rep_inv st \<Longrightarrow> rep_inv (Accumulate p st)"
  unfolding Accumulate_def Let_def by (intro rep_inv_fold rep_inv_event)

lemma data_ok_complete: "data_ok d \<Longrightarrow> data_ok (complete_data g d)"
  by (rule data_ok_cong [of _ d]) (simp_all add: complete_data_def Let_def)

lemma complete_same:
  "cd_name (complete_data g d) = cd_name d" "cd_time_stat (complete_data g d) = cd_time_stat d"
  by (simp_all add: complete_data_def Let_def)

lemma rep_inv_complete: "rep_inv (g, cm) \<Longrightarrow> rep_inv (g, CompleteCalculatorData g cm)"
  by (auto simp: rep_inv_def CompleteCalculatorData_def time_total_def case_prod_beta o_def
      complete_same data_ok_complete)

lemma rep_inv_run: "rep_inv st \<Longrightarrow> rep_inv (fold reporter_step ops st)"
  by (rule rep_inv_fold)
    (auto simp: reporter_step_def rep_inv_accumulate rep_inv_complete split: reporter_op.split)

text \<open>The share of every calculator, as the report gives it.\<close>

definition time_shares :: "calculators \<Rightarrow> real option list" where
  "time_shares cm = map (\<lambda>e. cd_time_percent (snd e)) cm"

lemma sum_list_scaled: "(\<Sum>x\<leftarrow>xs. c * f x / t) = c * (\<Sum>x\<leftarrow>xs. f x) / (t :: real)"
  by (induction xs) (simp_all add: field_simps add_divide_distrib)

text \<open>
  Whatever profiles a reporter accumulated and whenever reports were taken in between, the
  total time of the graph is the sum of the times of its calculators: when it is not zero, the
  report's shares are all numbers and add up to 100; and the statistics of every calculator
  hold one duration and one latency per completed event.
\<close>

lemma time_shares_add_up:
  assumes st: "fold reporter_step ops new_reporter = (g, cm)" and t: "total_time g \<noteq> 0"
  shows "(\<exists>ps. time_shares (CompleteCalculatorData g cm) = map Some ps \<and> sum_list ps = 100) \<and>
         (\<forall>e\<in>set cm. st_counter (cd_time_stat (snd e)) = cd_completed (snd e) \<and>
                      st_counter (cd_input_latency_stat (snd e)) = cd_completed (snd e))"
proof
  have inv: "rep_inv (g, cm)"
    using rep_inv_run [OF rep_inv_new, of ops] st by simp
  show "\<forall>e\<in>set cm. st_counter (cd_time_stat (snd e)) = cd_completed (snd e) \<and>
          st_counter (cd_input_latency_stat (snd e)) = cd_completed (snd e)"
    using inv by (auto simp: rep_inv_def data_ok_def stat_of_def dest!: bspec)
  define ps where "ps = map (\<lambda>e. 100 * st_total (cd_time_stat (snd e)) / real_of_int (total_time g)) cm"
  have "time_shares (CompleteCalculatorData g cm) = map Some ps"
    using t by (simp add: time_shares_def CompleteCalculatorData_def ps_def case_prod_beta
        complete_data_def Let_def double_div_def)
  moreover have "sum_list ps = 100"
  proof -
    have "sum_list ps = 100 * time_total cm / real_of_int (total_time g)"
      unfolding ps_def time_total_def by (rule sum_list_scaled)
    then show ?thesis using inv t by (simp add: rep_inv_def)
  qed
  ultimately show "\<exists>ps. time_shares (CompleteCalculatorData g cm) = map Some ps \<and> sum_list ps = 100"
    by blast
qed

definition demo_profile :: profile where
  "demo_profile = [\<lparr> gt_base_time = 1000, gt_calculator_name = [''src'', ''mid'', ''sink''],
                     gt_calculator_trace = [demo_source, demo_middle, demo_sink] \<rparr>]"

lemma demo_total: "total_time (fst (Accumulate demo_profile new_reporter)) = 70"
  by (simp add: Accumulate_def demo_profile_def Let_def CacheNodeNameLookup_def
      CacheOutputTraceLookup_def cache_trace_def demo_traces accumulate_event_def note_start_def
      note_finish_def matching_start_def has_start_time_def start_time_def finish_time_def
      new_reporter_def new_graph_data_def)

section \<open>Columns\<close>

text \<open>
  The formats of \<^verbatim>\<open>absl::StrFormat\<close> and the matcher of RE2 are parameters: \<open>fmtF\<close> and \<open>fmt0\<close>
  print a number with two and with no decimals, \<open>full_match text pattern\<close> is
  \<^verbatim>\<open>RE2::FullMatch\<close>. A column's value is \<open>None\<close> where computing it reads outside a vector;
  an infinity or a NaN is printed by \<open>fmtF None\<close>.
\<close>

type_synonym formatter = "real option \<Rightarrow> string"

definition k_columns :: "formatter \<Rightarrow> formatter \<Rightarrow> (string \<times> (calculator_data \<Rightarrow> string option)) list" where
  "k_columns fmtF fmt0 =
    (let F = \<lambda>v. Some (fmtF (Some v)); Z = \<lambda>v. Some (fmt0 (Some v)) in
     [(''calculator'', \<lambda>d. Some (cd_name d)),
      (''completed'', \<lambda>d. Z (real (cd_completed d))),
      (''counter'', \<lambda>d. Z (real (cd_counter d))),
      (''dropped'', \<lambda>d. Z (cd_dropped d)),
      (''fps'', \<lambda>d. F (cd_fps d)),
      (''frequency'', \<lambda>d. Some (fmtF (cd_frequency d))),
      (''input_latency_95'', \<lambda>d. map_option (\<lambda>v. fmtF (Some v)) (stat_percentile_95 (cd_input_latency_stat d))),
      (''input_latency_max'', \<lambda>d. F (st_max (cd_input_latency_stat d))),
      (''input_latency_mean'', \<lambda>d. F (stat_mean (cd_input_latency_stat d))),
      (''input_latency_stddev'', \<lambda>d. F (stat_stddev (cd_input_latency_stat d))),
      (''input_latency_total'', \<lambda>d. Z (st_total (cd_input_latency_stat d))),
      (''processing_rate'', \<lambda>d. F (cd_processing_rate d)),
      (''thread_count'', \<lambda>d. F (cd_thread_count d)),
      (''time_95'', \<lambda>d. map_option (\<lambda>v. fmtF (Some v)) (stat_percentile_95 (cd_time_stat d))),
      (''time_max'', \<lambda>d. F (st_max (cd_time_stat d))),
      (''time_mean'', \<lambda>d. F (stat_mean (cd_time_stat d))),
      (''time_percent'', \<lambda>d. Some (fmtF (cd_time_percent d))),
      (''time_stddev'', \<lambda>d. F (stat_stddev (cd_time_stat d))),
      (''time_total'', \<lambda>d. Z (st_total (cd_time_stat d)))])"

definition column_names :: "string list" where
  "column_names = map fst (k_columns (\<lambda>_. []) (\<lambda>_. []))"

lemma column_names_k_columns: "map fst (k_columns fmtF fmt0) = column_names"
  by (simp add: column_names_def k_columns_def Let_def)

text \<open>\<^verbatim>\<open>[a-zA-Z0-9_?*]+\<close> and the two replacements, of \<open>*\<close> first.\<close>

definition valid_column_char :: "char \<Rightarrow> bool" where
  "valid_column_char c \<longleftrightarrow> c \<in> set ''abcdefghijklmnopqrstuvwxyzABCDEFGHIJKLMNOPQRSTUVWXYZ0123456789_?*''"

definition valid_column :: "string \<Rightarrow> bool" where
  "valid_column s \<longleftrightarrow> s \<noteq> [] \<and> list_all valid_column_char s"

definition column_regex :: "string \<Rightarrow> string" where
  "column_regex s =
     concat (map (\<lambda>c. if c = CHR ''?'' then ''.'' else [c])
       (concat (map (\<lambda>c. if c = CHR ''*'' then ''.*'' else [c]) s)))"

record column_result =
  cr_columns :: "string list"
  cr_error :: bool
  cr_warnings :: string

definition column_warning :: "string \<Rightarrow> string \<Rightarrow> string" where
  "column_warning c what = ''Column '' @ [CHR 0x27] @ c @ [CHR 0x27] @ what @ [CHR 0x0A]"

definition match_column ::
  "(string \<Rightarrow> string \<Rightarrow> bool) \<Rightarrow> string \<Rightarrow> column_result \<Rightarrow> column_result" where
  "match_column full_match c r =
     (if \<not> valid_column c
      then r\<lparr> cr_error := True, cr_warnings := cr_warnings r @ column_warning c '' is invalid.'' \<rparr>
      else let hits = filter (\<lambda>n. full_match n (column_regex c)) column_names;
               r1 = r\<lparr> cr_columns := fold (\<lambda>n cs. if n \<in> set cs then cs else cs @ [n]) hits (cr_columns r) \<rparr>
           in if hits \<noteq> [] then r1
              else r1\<lparr> cr_error := True,
                       cr_warnings := cr_warnings r1 @ column_warning c '' did not match any columns.'' \<rparr>)"

text \<open>
  The new value of \<^verbatim>\<open>columns_\<close> with \<open>None\<close> for \<^verbatim>\<open>OkStatus\<close> and \<open>Some\<close> message for
  \<^verbatim>\<open>InvalidArgumentError\<close>: the columns are replaced in both cases.
\<close>

definition set_columns ::
  "(string \<Rightarrow> string \<Rightarrow> bool) \<Rightarrow> string list \<Rightarrow> string list \<times> string option" where
  "set_columns full_match columns =
     (let r = fold (match_column full_match) columns
                \<lparr> cr_columns = [''calculator''], cr_error = False, cr_warnings = [] \<rparr>
      in (cr_columns r, if cr_error r then Some (cr_warnings r) else None))"

definition columns_ok :: "string list \<Rightarrow> bool" where
  "columns_ok cs \<longleftrightarrow>
     cs \<noteq> [] \<and> hd cs = ''calculator'' \<and> distinct cs \<and> set cs \<subseteq> set column_names"

lemma columns_ok_add:
  "set hits \<subseteq> set column_names \<Longrightarrow> columns_ok cs \<Longrightarrow>
   columns_ok (fold (\<lambda>n cs. if n \<in> set cs then cs else cs @ [n]) hits cs)"
  by (induction hits arbitrary: cs) (auto simp: columns_ok_def)

lemma columns_ok_match: "columns_ok (cr_columns r) \<Longrightarrow> columns_ok (cr_columns (match_column fm c r))"
  by (auto simp: match_column_def Let_def intro!: columns_ok_add)

lemma columns_ok_fold: "columns_ok (cr_columns r) \<Longrightarrow> columns_ok (cr_columns (fold (match_column fm) cs r))"
  by (induction cs arbitrary: r) (auto intro: columns_ok_match)

lemma columns_ok_set: "columns_ok (fst (set_columns fm cs))"
  unfolding set_columns_def Let_def fst_conv
  by (rule columns_ok_fold) (simp add: columns_ok_def column_names_def k_columns_def Let_def)

section \<open>The table of the report\<close>

record report =
  rp_headers :: "string list"
  rp_lines :: "string list list"
  rp_char_counts :: "nat list"

definition k_column :: "formatter \<Rightarrow> formatter \<Rightarrow> string \<Rightarrow> (calculator_data \<Rightarrow> string option) option" where
  "k_column fmtF fmt0 h = map_of (k_columns fmtF fmt0) h"

text \<open>
  One column: every calculator's value is computed, the nameless ones included, and appended
  to the line of the calculator; the lines are created on the way. \<open>None\<close> is the read outside
  a vector, or a header no column has (an empty \<^verbatim>\<open>std::function\<close> is called).
\<close>

fun report_cells ::
  "(calculator_data \<Rightarrow> string option) \<Rightarrow> calculator_data list \<Rightarrow> nat \<Rightarrow> report \<Rightarrow> report option" where
  "report_cells column [] line_num rp = Some rp"
| "report_cells column (d # ds) line_num rp =
     do { v \<leftarrow> column d;
          if cd_name d = [] then report_cells column ds line_num rp
          else let lines = (if line_num < length (rp_lines rp) then rp_lines rp
                            else rp_lines rp @ replicate (Suc line_num - length (rp_lines rp)) []);
                   line = lines ! line_num @ [v];
                   i = length line - 1
               in report_cells column ds (Suc line_num)
                    (rp\<lparr> rp_lines := lines[line_num := line],
                         rp_char_counts := (rp_char_counts rp)[i := max (rp_char_counts rp ! i) (length v)] \<rparr>) }"

fun report_columns ::
  "formatter \<Rightarrow> formatter \<Rightarrow> string list \<Rightarrow> calculator_data list \<Rightarrow> report \<Rightarrow> report option" where
  "report_columns fmtF fmt0 [] ds rp = Some rp"
| "report_columns fmtF fmt0 (h # hs) ds rp =
     do { column \<leftarrow> k_column fmtF fmt0 h;
          rp' \<leftarrow> report_cells column ds 0 rp;
          report_columns fmtF fmt0 hs ds rp' }"

definition Report ::
  "formatter \<Rightarrow> formatter \<Rightarrow> string list \<Rightarrow> graph_data \<times> calculators \<Rightarrow> report option" where
  "Report fmtF fmt0 columns st =
     report_columns fmtF fmt0 columns (map snd (CompleteCalculatorData (fst st) (snd st)))
       \<lparr> rp_headers = columns, rp_lines = [], rp_char_counts = map length columns \<rparr>"

text \<open>The text printed: every cell padded to its column, one line per calculator.\<close>

definition pad_cell :: "bool \<Rightarrow> nat \<Rightarrow> string \<Rightarrow> string" where
  "pad_cell compact_flag width cell =
     cell @ replicate (if compact_flag then 1 else width + 1 - length cell) CHR '' ''"

definition print_row :: "bool \<Rightarrow> nat list \<Rightarrow> string list \<Rightarrow> string" where
  "print_row compact_flag widths cells = concat (map2 (pad_cell compact_flag) widths cells) @ [CHR 0x0A]"

definition report_print :: "bool \<Rightarrow> report \<Rightarrow> string" where
  "report_print compact_flag rp =
     concat (map (print_row compact_flag (rp_char_counts rp)) (rp_headers rp # rp_lines rp))"

subsection \<open>The table is the grid of the values\<close>

definition named :: "calculator_data list \<Rightarrow> calculator_data list" where
  "named ds = filter (\<lambda>d. cd_name d \<noteq> []) ds"

definition widen :: "string list \<Rightarrow> nat \<Rightarrow> nat" where
  "widen cells w = fold (\<lambda>c w. max w (length c)) cells w"

lemma widen_Cons: "widen (c # cs) w = widen cs (max w (length c))"
  by (simp add: widen_def)

lemma widen_ge: "w \<le> widen cs w \<and> (\<forall>c\<in>set cs. length c \<le> widen cs w)"
proof (induction cs arbitrary: w)
  case (Cons c cs)
  show ?case unfolding widen_Cons using Cons [of "max w (length c)"] by auto
qed (simp add: widen_def)

lemma report_cells_grid:
  assumes "length R = length (named ds)" "\<forall>l\<in>set R. length l = j" "rest = R \<or> rest = [] \<and> j = 0"
    "j < length ws" "\<forall>d\<in>set ds. column d \<noteq> None"
  shows "report_cells column ds (length done) \<lparr> rp_headers = hs, rp_lines = done @ rest, rp_char_counts = ws \<rparr>
    = Some \<lparr> rp_headers = hs,
             rp_lines = done @ map2 (\<lambda>l d. l @ [the (column d)]) R (named ds),
             rp_char_counts = ws[j := widen (map (\<lambda>d. the (column d)) (named ds)) (ws ! j)] \<rparr>"
  using assms
proof (induction ds arbitrary: "done" rest R ws)
  case Nil
  then show ?case by (auto simp: named_def widen_def)
next
  case (Cons d ds)
  from Cons.prems obtain v where v: "column d = Some v" by auto
  show ?case
  proof (cases "cd_name d = []")
    case True
    have n: "named (d # ds) = named ds" using True by (simp add: named_def)
    show ?thesis
      using Cons.IH [of R rest ws "done"] Cons.prems True v by (simp add: n)
  next
    case False
    have n: "named (d # ds) = d # named ds" using False by (simp add: named_def)
    obtain l R' where R: "R = l # R'" "length l = j" "length R' = length (named ds)"
      "\<forall>l\<in>set R'. length l = j"
      using Cons.prems(1,2) n by (cases R) auto
    define rest' where "rest' = (if rest = [] then [] else R')"
    have rest': "rest' = R' \<or> rest' = [] \<and> j = 0"
      using Cons.prems(3) R by (auto simp: rest'_def)
    let ?ws = "ws[j := max (ws ! j) (length v)]"
    have step: "report_cells column (d # ds) (length done)
        \<lparr> rp_headers = hs, rp_lines = done @ rest, rp_char_counts = ws \<rparr>
      = report_cells column ds (length (done @ [l @ [v]]))
        \<lparr> rp_headers = hs, rp_lines = (done @ [l @ [v]]) @ rest', rp_char_counts = ?ws \<rparr>"
    proof (cases "rest = []")
      case True
      then have "j = 0" "l = []" using Cons.prems(3) R(1,2) by auto
      with True False v show ?thesis by (simp add: rest'_def Let_def)
    next
      case ne: False
      then have "rest = l # R'" "rest' = R'" using Cons.prems(3) R(1) by (auto simp: rest'_def)
      with False v R(2) show ?thesis by (simp add: Let_def nth_append list_update_append)
    qed
    show ?thesis
      unfolding step using Cons.IH [of R' rest' ?ws "done @ [l @ [v]]"] R rest' Cons.prems(4,5) v
      by (simp add: n widen_Cons)
  qed
qed

lemma report_cells_fails:
  "\<exists>d\<in>set ds. column d = None \<Longrightarrow> report_cells column ds k rp = None"
proof (induction ds arbitrary: k rp)
  case (Cons d ds)
  then show ?case by (cases "column d") (auto simp: Let_def)
qed simp

definition cell_of :: "formatter \<Rightarrow> formatter \<Rightarrow> string \<Rightarrow> calculator_data \<Rightarrow> string option" where
  "cell_of fmtF fmt0 h d = do { column \<leftarrow> k_column fmtF fmt0 h; column d }"

definition report_row :: "formatter \<Rightarrow> formatter \<Rightarrow> string list \<Rightarrow> calculator_data \<Rightarrow> string list" where
  "report_row fmtF fmt0 hs d = map (\<lambda>h. the (cell_of fmtF fmt0 h d)) hs"

definition column_width :: "formatter \<Rightarrow> formatter \<Rightarrow> calculator_data list \<Rightarrow> string \<Rightarrow> nat" where
  "column_width fmtF fmt0 ds h = widen (map (\<lambda>d. the (cell_of fmtF fmt0 h d)) (named ds)) (length h)"

lemma k_column_known: "h \<in> set column_names \<Longrightarrow> \<exists>c. k_column fmtF fmt0 h = Some c"
  unfolding k_column_def using column_names_k_columns [of fmtF fmt0]
  by (metis list.set_map map_of_eq_None_iff option.exhaust)

lemma report_columns_grid:
  assumes "set hs \<subseteq> set column_names" "\<forall>h\<in>set hs. \<forall>d\<in>set ds. cell_of fmtF fmt0 h d \<noteq> None"
  shows "report_columns fmtF fmt0 hs ds
      \<lparr> rp_headers = H, rp_lines = (if pre = [] then [] else map (report_row fmtF fmt0 pre) (named ds)),
        rp_char_counts = map (column_width fmtF fmt0 ds) pre @ map length hs \<rparr>
    = Some \<lparr> rp_headers = H,
        rp_lines = (if pre @ hs = [] then [] else map (report_row fmtF fmt0 (pre @ hs)) (named ds)),
        rp_char_counts = map (column_width fmtF fmt0 ds) (pre @ hs) \<rparr>"
  using assms
proof (induction hs arbitrary: pre)
  case Nil
  then show ?case by simp
next
  case (Cons h hs)
  obtain c where c: "k_column fmtF fmt0 h = Some c" using k_column_known [of h fmtF fmt0] Cons.prems(1) by auto
  have cell: "cell_of fmtF fmt0 h = c" by (simp add: cell_of_def c fun_eq_iff)
  have "report_cells c ds (length ([] :: string list list))
      \<lparr> rp_headers = H, rp_lines = [] @ (if pre = [] then [] else map (report_row fmtF fmt0 pre) (named ds)),
        rp_char_counts = map (column_width fmtF fmt0 ds) pre @ map length (h # hs) \<rparr>
    = Some \<lparr> rp_headers = H,
        rp_lines = [] @ map2 (\<lambda>l d. l @ [the (c d)]) (map (report_row fmtF fmt0 pre) (named ds)) (named ds),
        rp_char_counts = (map (column_width fmtF fmt0 ds) pre @ map length (h # hs))
          [length pre := widen (map (\<lambda>d. the (c d)) (named ds))
             ((map (column_width fmtF fmt0 ds) pre @ map length (h # hs)) ! length pre)] \<rparr>"
    by (rule report_cells_grid) (use Cons.prems(2) cell in \<open>auto simp: report_row_def\<close>)
  moreover have "map2 (\<lambda>l d. l @ [the (c d)]) (map (report_row fmtF fmt0 pre) (named ds)) (named ds)
      = map (report_row fmtF fmt0 (pre @ [h])) (named ds)"
    by (simp add: report_row_def cell list_eq_iff_nth_eq)
  moreover have "(map (column_width fmtF fmt0 ds) pre @ map length (h # hs))
          [length pre := widen (map (\<lambda>d. the (c d)) (named ds))
             ((map (column_width fmtF fmt0 ds) pre @ map length (h # hs)) ! length pre)]
      = map (column_width fmtF fmt0 ds) (pre @ [h]) @ map length hs"
    by (simp add: column_width_def cell nth_append list_update_append)
  ultimately have cells: "report_cells c ds 0
      \<lparr> rp_headers = H, rp_lines = (if pre = [] then [] else map (report_row fmtF fmt0 pre) (named ds)),
        rp_char_counts = map (column_width fmtF fmt0 ds) pre @ map length (h # hs) \<rparr>
    = Some \<lparr> rp_headers = H, rp_lines = map (report_row fmtF fmt0 (pre @ [h])) (named ds),
        rp_char_counts = map (column_width fmtF fmt0 ds) (pre @ [h]) @ map length hs \<rparr>"
    by simp
  show ?case using Cons.IH [of "pre @ [h]"] Cons.prems c cells by simp
qed

lemma report_columns_fails:
  "set hs \<subseteq> set column_names \<Longrightarrow> \<exists>h\<in>set hs. \<exists>d\<in>set ds. cell_of fmtF fmt0 h d = None \<Longrightarrow>
   report_columns fmtF fmt0 hs ds rp = None"
proof (induction hs arbitrary: rp)
  case (Cons h hs)
  obtain c where c: "k_column fmtF fmt0 h = Some c" using k_column_known [of h fmtF fmt0] Cons.prems(1) by auto
  show ?case
  proof (cases "\<exists>d\<in>set ds. c d = None")
    case True
    then show ?thesis using report_cells_fails [of ds c 0 rp] c by simp
  next
    case False
    then have "\<exists>h\<in>set hs. \<exists>d\<in>set ds. cell_of fmtF fmt0 h d = None"
      using Cons.prems(2) c by (auto simp: cell_of_def)
    then have "report_columns fmtF fmt0 hs ds rp' = None" for rp'
      using Cons.IH Cons.prems(1) by simp
    then show ?thesis using c by (cases "report_cells c ds 0 rp") simp_all
  qed
qed simp

text \<open>The columns whose value needs the percentile of a calculator that completed one event.\<close>

definition percentile_columns :: "string set" where
  "percentile_columns = {''time_95'', ''input_latency_95''}"

lemma k_column_none:
  assumes "k_column fmtF fmt0 h = Some c"
  shows "c d = None \<longleftrightarrow>
     h = ''time_95'' \<and> stat_percentile_95 (cd_time_stat d) = None \<or>
     h = ''input_latency_95'' \<and> stat_percentile_95 (cd_input_latency_stat d) = None"
  using assms by (auto simp: k_column_def k_columns_def Let_def split: if_splits)

lemma cell_of_none:
  assumes "h \<in> set column_names" "data_ok d"
  shows "cell_of fmtF fmt0 h d = None \<longleftrightarrow> h \<in> percentile_columns \<and> cd_completed d = 1"
proof -
  obtain c where c: "k_column fmtF fmt0 h = Some c" using k_column_known assms(1) by blast
  have "cell_of fmtF fmt0 h d = c d" by (simp add: cell_of_def c)
  moreover have "stat_percentile_95 (cd_time_stat d) = None \<longleftrightarrow> cd_completed d = 1"
    "stat_percentile_95 (cd_input_latency_stat d) = None \<longleftrightarrow> cd_completed d = 1"
    using assms(2) by (auto simp: stat_percentile_95_def percentile_none data_ok_def stat_of_def)
  ultimately show ?thesis
    using k_column_none [OF c, of d] by (auto simp: percentile_columns_def simp del: One_nat_def)
qed

definition report_rows :: "graph_data \<times> calculators \<Rightarrow> calculator_data list" where
  "report_rows st = map snd (CompleteCalculatorData (fst st) (snd st))"

lemma rows_ok:
  assumes "rep_inv st"
  shows "\<forall>d\<in>set (report_rows st). data_ok d"
  using rep_inv_complete [of "fst st" "snd st"] assms by (auto simp: rep_inv_def report_rows_def)

lemma completed_rows:
  "(\<exists>d\<in>set (report_rows st). cd_completed d = 1) \<longleftrightarrow> (\<exists>e\<in>set (snd st). cd_completed (snd e) = 1)"
  by (auto simp: report_rows_def CompleteCalculatorData_def complete_data_def Let_def case_prod_beta)



text \<open>The order of the columns is the order of the patterns, not the alphabetical one the header promises.\<close>

lemma columns_in_pattern_order:
  "fst (set_columns (\<lambda>t p. t = p) [''time_mean'', ''fps'']) = [''calculator'', ''time_mean'', ''fps'']"
  by (simp add: set_columns_def match_column_def valid_column_def valid_column_char_def
      column_regex_def column_names_def k_columns_def Let_def)

end
