(* ===== verification/MicroTar.thy ===== *)
theory MicroTar
  imports Prelude
begin

text \<open>
  The reader and writer of tar archives in memory (\<^verbatim>\<open>xengine/util/microtar.c\<close>,
  \<^verbatim>\<open>vec_string.c\<close>), which hold the models and the graphs of the program.

  The archive is the list of its bytes, a C string the list of its bytes up to the
  terminator, an \<^verbatim>\<open>unsigned\<close> a 32-bit word with its wrap-around. A result is a sum:
  \<open>Inl\<close> an error code, \<open>Inr\<close> the value of \<open>MTAR_ESUCCESS\<close>. \<open>None\<close> around a result is
  undefined behaviour: a string copied past its array, the value of a variable \<^verbatim>\<open>sscanf\<close>
  did not assign. The loops over the records take fuel, one unit per record, and are \<open>None\<close>
  when it runs out. Only the operations on memory are modelled: the program reads files whole
  and never uses the ones on files.
\<close>

section \<open>Raw headers\<close>

type_synonym octets = "u8 list"

datatype mtar_error =
  MTAR_EFAILURE | MTAR_EOPENFAIL | MTAR_EREADFAIL | MTAR_EWRITEFAIL | MTAR_ESEEKFAIL
| MTAR_EBADCHKSUM | MTAR_ENULLRECORD | MTAR_ENOTFOUND

text \<open>\<^verbatim>\<open>mtar_raw_header_t\<close> is a list of 512 bytes; the offsets of its fields.\<close>

definition off_mode :: nat where "off_mode = 100"
definition off_owner :: nat where "off_owner = 108"
definition off_size :: nat where "off_size = 124"
definition off_mtime :: nat where "off_mtime = 136"
definition off_checksum :: nat where "off_checksum = 148"
definition off_type :: nat where "off_type = 156"
definition off_linkname :: nat where "off_linkname = 157"
definition raw_header_size :: nat where "raw_header_size = 512"

lemmas offsets = off_mode_def off_owner_def off_size_def off_mtime_def off_checksum_def
  off_type_def off_linkname_def raw_header_size_def

text \<open>The header read: a number is \<open>None\<close> where \<^verbatim>\<open>sscanf\<close> left it unassigned.\<close>

record mtar_header =
  h_mode :: "u32 option"
  h_owner :: "u32 option"
  h_size :: "u32 option"
  h_mtime :: "u32 option"
  h_type :: u8
  h_name :: octets
  h_linkname :: octets

definition round_up :: "u32 \<Rightarrow> u32 \<Rightarrow> u32" where
  "round_up n incr = n + (incr - n mod incr) mod incr"

definition checksum :: "octets \<Rightarrow> nat" where
  "checksum raw = 256 + sum_list (map unat (take off_checksum raw)) + sum_list (map unat (drop off_type raw))"

text \<open>
  The conversion \<^verbatim>\<open>%o\<close>: white space, a sign, octal digits. \<open>Some None\<close> is no conversion;
  \<open>None\<close> is a value that does not fit, which the C standard leaves undefined.
\<close>

definition is_space :: "u8 \<Rightarrow> bool" where
  "is_space c \<longleftrightarrow> c = 32 \<or> (9 \<le> c \<and> c \<le> 13)"

definition is_octal :: "u8 \<Rightarrow> bool" where
  "is_octal c \<longleftrightarrow> 48 \<le> c \<and> c \<le> 55"

definition octal_value :: "octets \<Rightarrow> nat" where
  "octal_value ds = foldl (\<lambda>acc c. 8 * acc + (unat c - 48)) 0 ds"

definition scan_octal :: "octets \<Rightarrow> u32 option option" where
  "scan_octal s =
     (let s1 = dropWhile is_space s;
          negative = (s1 \<noteq> [] \<and> hd s1 = 45);
          s2 = (if s1 \<noteq> [] \<and> (hd s1 = 45 \<or> hd s1 = 43) then tl s1 else s1);
          ds = takeWhile is_octal s2
      in if ds = [] then Some None
         else if octal_value ds \<ge> 2 ^ 32 then None
         else Some (Some (if negative then - of_nat (octal_value ds) else of_nat (octal_value ds))))"

text \<open>\<^verbatim>\<open>strcpy\<close> into an array of 100: overflows unless the string has at most 99 bytes.\<close>

definition copy_string :: "octets \<Rightarrow> octets option" where
  "copy_string s = (let t = takeWhile (\<lambda>c. c \<noteq> 0) s in if length t < 100 then Some t else None)"

definition raw_to_header :: "octets \<Rightarrow> (mtar_error + mtar_header) option" where
  "raw_to_header raw =
     (if raw ! off_checksum = 0 then Some (Inl MTAR_ENULLRECORD)
      else do { chksum2 \<leftarrow> scan_octal (drop off_checksum raw);
                chk \<leftarrow> chksum2;
                if of_nat (checksum raw) \<noteq> chk then Some (Inl MTAR_EBADCHKSUM)
                else do { mode \<leftarrow> scan_octal (drop off_mode raw);
                          owner \<leftarrow> scan_octal (drop off_owner raw);
                          size \<leftarrow> scan_octal (drop off_size raw);
                          mtime \<leftarrow> scan_octal (drop off_mtime raw);
                          name \<leftarrow> copy_string raw;
                          linkname \<leftarrow> copy_string (drop off_linkname raw);
                          Some (Inr \<lparr> h_mode = mode, h_owner = owner, h_size = size, h_mtime = mtime,
                                      h_type = raw ! off_type, h_name = name, h_linkname = linkname \<rparr>) } })"

text \<open>The conversions of \<^verbatim>\<open>sprintf\<close>, and a write into the header at an offset.\<close>

fun octal :: "nat \<Rightarrow> octets" where
  "octal n = (if n < 8 then [of_nat (48 + n)] else octal (n div 8) @ [of_nat (48 + n mod 8)])"

declare octal.simps [simp del]

definition octal6 :: "nat \<Rightarrow> octets" where
  "octal6 n = replicate (6 - length (octal n)) 48 @ octal n"

definition put :: "nat \<Rightarrow> octets \<Rightarrow> octets \<Rightarrow> octets" where
  "put off xs raw = take off raw @ xs @ drop (off + length xs) raw"

text \<open>
  A header to write. Its numbers are assigned; its strings fit their arrays.
\<close>

definition print_number :: "u32 option \<Rightarrow> octets" where
  "print_number v = octal (unat (the v))"

definition header_to_raw :: "mtar_header \<Rightarrow> octets" where
  "header_to_raw h =
     (let raw0 = replicate raw_header_size 0;
          raw1 = put off_mode (print_number (h_mode h) @ [0]) raw0;
          raw2 = put off_owner (print_number (h_owner h) @ [0]) raw1;
          raw3 = put off_size (print_number (h_size h) @ [0]) raw2;
          raw4 = put off_mtime (print_number (h_mtime h) @ [0]) raw3;
          raw5 = put off_type [if h_type h \<noteq> 0 then h_type h else 48] raw4;
          raw6 = put 0 (h_name h @ [0]) raw5;
          raw7 = put off_linkname (h_linkname h @ [0]) raw6;
          raw8 = put off_checksum (octal6 (checksum raw7) @ [0]) raw7
      in put (off_checksum + 7) [32] raw8)"

section \<open>The archive in memory\<close>

text \<open>\<open>tar_off\<close> is the distance of \<^verbatim>\<open>stream\<close> from \<^verbatim>\<open>mem_stream\<close>.\<close>

record mtar =
  tar_mem :: octets
  tar_off :: nat
  tar_pos :: u32
  tar_remaining :: u32
  tar_last_header :: u32

definition mem_len :: "mtar \<Rightarrow> nat" where
  "mem_len tar = length (tar_mem tar)"

definition mem_read :: "mtar \<Rightarrow> nat \<Rightarrow> (mtar_error + octets) \<times> mtar" where
  "mem_read tar n =
     (if tar_off tar + n < mem_len tar
      then (Inr (take n (drop (tar_off tar) (tar_mem tar))), tar\<lparr> tar_off := tar_off tar + n \<rparr>)
      else (Inl MTAR_EREADFAIL, tar))"

definition mem_write :: "mtar \<Rightarrow> octets \<Rightarrow> (mtar_error + unit) \<times> mtar" where
  "mem_write tar xs =
     (if tar_off tar + length xs < mem_len tar
      then (Inr (), tar\<lparr> tar_mem := put (tar_off tar) xs (tar_mem tar), tar_off := tar_off tar + length xs \<rparr>)
      else (Inl MTAR_EWRITEFAIL, tar))"

definition mem_seek :: "mtar \<Rightarrow> u32 \<Rightarrow> (mtar_error + unit) \<times> mtar" where
  "mem_seek tar offset =
     (if unat offset \<le> mem_len tar then (Inr (), tar\<lparr> tar_off := unat offset \<rparr>)
      else (Inl MTAR_ESEEKFAIL, tar))"

text \<open>The position advances whether or not the bytes were moved.\<close>

definition advance :: "nat \<Rightarrow> 'a \<times> mtar \<Rightarrow> 'a \<times> mtar" where
  "advance n r = (fst r, (snd r)\<lparr> tar_pos := tar_pos (snd r) + of_nat n \<rparr>)"

definition tread :: "mtar \<Rightarrow> nat \<Rightarrow> (mtar_error + octets) \<times> mtar" where
  "tread tar n = advance n (mem_read tar n)"

definition twrite :: "mtar \<Rightarrow> octets \<Rightarrow> (mtar_error + unit) \<times> mtar" where
  "twrite tar xs = advance (length xs) (mem_write tar xs)"

fun write_null_bytes :: "mtar \<Rightarrow> nat \<Rightarrow> (mtar_error + unit) \<times> mtar" where
  "write_null_bytes tar 0 = (Inr (), tar)"
| "write_null_bytes tar (Suc n) =
     (case twrite tar [0] of (Inl e, tar') \<Rightarrow> (Inl e, tar') | (Inr _, tar') \<Rightarrow> write_null_bytes tar' n)"

definition mtar_seek :: "mtar \<Rightarrow> u32 \<Rightarrow> (mtar_error + unit) \<times> mtar" where
  "mtar_seek tar pos = (let r = mem_seek tar pos in (fst r, (snd r)\<lparr> tar_pos := pos \<rparr>))"

definition mtar_rewind :: "mtar \<Rightarrow> (mtar_error + unit) \<times> mtar" where
  "mtar_rewind tar = mtar_seek (tar\<lparr> tar_remaining := 0, tar_last_header := 0 \<rparr>) 0"

definition mtar_read_header :: "mtar \<Rightarrow> ((mtar_error + mtar_header) \<times> mtar) option" where
  "mtar_read_header tar =
     (let tar0 = tar\<lparr> tar_last_header := tar_pos tar \<rparr>
      in case tread tar0 raw_header_size of
           (Inl e, tar1) \<Rightarrow> Some (Inl e, tar1)
         | (Inr raw, tar1) \<Rightarrow>
             (case mtar_seek tar1 (tar_last_header tar1) of
                (Inl e, tar2) \<Rightarrow> Some (Inl e, tar2)
              | (Inr _, tar2) \<Rightarrow> map_option (\<lambda>r. (r, tar2)) (raw_to_header raw)))"

definition mtar_mem_open :: "octets \<Rightarrow> ((mtar_error + unit) \<times> mtar) option" where
  "mtar_mem_open mem =
     (let tar = \<lparr> tar_mem = mem, tar_off = 0, tar_pos = 0, tar_remaining = 0, tar_last_header = 0 \<rparr>
      in map_option (\<lambda>r. (map_sum id (\<lambda>_. ()) (fst r), snd r)) (mtar_read_header tar))"

definition mtar_next :: "mtar \<Rightarrow> ((mtar_error + unit) \<times> mtar) option" where
  "mtar_next tar =
     do { r \<leftarrow> mtar_read_header tar;
          case r of
            (Inl e, tar1) \<Rightarrow> Some (Inl e, tar1)
          | (Inr h, tar1) \<Rightarrow>
              do { size \<leftarrow> h_size h;
                   Some (mtar_seek tar1 (tar_pos tar1 + (round_up size 512 + of_nat raw_header_size))) } }"

text \<open>The outer \<open>None\<close> is fuel that ran out, the inner one undefined behaviour.\<close>

fun find_loop :: "nat \<Rightarrow> octets \<Rightarrow> mtar \<Rightarrow> ((mtar_error + mtar_header) \<times> mtar) option option" where
  "find_loop 0 name tar = None"
| "find_loop (Suc fuel) name tar =
     (case mtar_read_header tar of
        None \<Rightarrow> Some None
      | Some (Inl e, tar1) \<Rightarrow> Some (Some (Inl (if e = MTAR_ENULLRECORD then MTAR_ENOTFOUND else e), tar1))
      | Some (Inr h, tar1) \<Rightarrow>
          if h_name h = name then Some (Some (Inr h, tar1))
          else (case mtar_next tar1 of
                  None \<Rightarrow> Some None
                | Some (_, tar2) \<Rightarrow> find_loop fuel name tar2))"

definition mtar_find :: "nat \<Rightarrow> octets \<Rightarrow> mtar \<Rightarrow> ((mtar_error + mtar_header) \<times> mtar) option option" where
  "mtar_find fuel name tar =
     (case mtar_rewind tar of
        (Inl e, tar1) \<Rightarrow> Some (Some (Inl e, tar1))
      | (Inr _, tar1) \<Rightarrow> find_loop fuel name tar1)"

text \<open>
  Reading the data of the current record: \<open>mtar_mem_read_data\<close> gives the bytes in place,
  \<open>mtar_read_data\<close> a copy; both pass the same guards. The pointer or the copy is given
  whenever the bytes were read, even if the seek back to the header then fails.
\<close>

definition read_remaining :: "mtar \<Rightarrow> u32 \<Rightarrow> (mtar_error + unit) \<times> octets option \<times> mtar" where
  "read_remaining tar n =
     (case tread tar (unat n) of
        (Inl e, t1) \<Rightarrow> (Inl e, None, t1)
      | (Inr xs, t1) \<Rightarrow>
          (let t2 = t1\<lparr> tar_remaining := tar_remaining t1 - n \<rparr>
           in if tar_remaining t2 = 0
              then (let r = mtar_seek t2 (tar_last_header t2) in (fst r, Some xs, snd r))
              else (Inr (), Some xs, t2)))"

definition mtar_mem_read_data :: "mtar \<Rightarrow> u32 \<Rightarrow> ((mtar_error + unit) \<times> octets option \<times> mtar) option" where
  "mtar_mem_read_data tar n =
     (if tar_remaining tar = 0
      then do { r \<leftarrow> mtar_read_header tar;
                case r of
                  (Inl e, t1) \<Rightarrow> Some (Inl e, None, t1)
                | (Inr h, t1) \<Rightarrow>
                    (case mtar_seek t1 (tar_pos t1 + of_nat raw_header_size) of
                       (Inl e, t2) \<Rightarrow> Some (Inl e, None, t2)
                     | (Inr _, t2) \<Rightarrow>
                         do { size \<leftarrow> h_size h; Some (read_remaining (t2\<lparr> tar_remaining := size \<rparr>) n) }) }
      else Some (read_remaining tar n))"

definition mtar_read_data :: "mtar \<Rightarrow> u32 \<Rightarrow> ((mtar_error + unit) \<times> octets option \<times> mtar) option" where
  "mtar_read_data tar n = mtar_mem_read_data tar n"

subsection \<open>Writing\<close>

definition mtar_write_header :: "mtar \<Rightarrow> mtar_header \<Rightarrow> (mtar_error + unit) \<times> mtar" where
  "mtar_write_header tar h = twrite (tar\<lparr> tar_remaining := the (h_size h) \<rparr>) (header_to_raw h)"

definition file_header :: "octets \<Rightarrow> u32 \<Rightarrow> mtar_header" where
  "file_header name n = \<lparr> h_mode = Some 436, h_owner = Some 0, h_size = Some n, h_mtime = Some 0,
     h_type = 48, h_name = name, h_linkname = [] \<rparr>"

definition dir_header :: "octets \<Rightarrow> mtar_header" where
  "dir_header name = \<lparr> h_mode = Some 509, h_owner = Some 0, h_size = Some 0, h_mtime = Some 0,
     h_type = 53, h_name = name, h_linkname = [] \<rparr>"

definition mtar_write_file_header :: "mtar \<Rightarrow> octets \<Rightarrow> u32 \<Rightarrow> (mtar_error + unit) \<times> mtar" where
  "mtar_write_file_header tar name n = mtar_write_header tar (file_header name n)"

definition mtar_write_dir_header :: "mtar \<Rightarrow> octets \<Rightarrow> (mtar_error + unit) \<times> mtar" where
  "mtar_write_dir_header tar name = mtar_write_header tar (dir_header name)"

definition mtar_write_data :: "mtar \<Rightarrow> octets \<Rightarrow> (mtar_error + unit) \<times> mtar" where
  "mtar_write_data tar xs =
     (case twrite tar xs of
        (Inl e, t1) \<Rightarrow> (Inl e, t1)
      | (Inr _, t1) \<Rightarrow>
          (let t2 = t1\<lparr> tar_remaining := tar_remaining t1 - of_nat (length xs) \<rparr>
           in if tar_remaining t2 = 0
              then write_null_bytes t2 (unat (round_up (tar_pos t2) 512 - tar_pos t2))
              else (Inr (), t2)))"

definition mtar_finalize :: "mtar \<Rightarrow> (mtar_error + unit) \<times> mtar" where
  "mtar_finalize tar = write_null_bytes tar (raw_header_size * 2)"

section \<open>Octal numbers\<close>

lemma octal_not_Nil [simp]: "octal n \<noteq> []"
  by (subst octal.simps) simp

lemma octal_digit: "d < 8 \<Longrightarrow> unat (of_nat (48 + d) :: u8) = 48 + d"
  by (simp add: unat_of_nat take_bit_nat_eq_self_iff del: of_nat_add)

lemma octal_digit_ok: "d < 8 \<Longrightarrow> is_octal (of_nat (48 + d))"
  by (simp add: is_octal_def word_le_nat_alt octal_digit del: of_nat_add)

lemma octal_all: "\<forall>c\<in>set (octal n). is_octal c"
proof (induction n rule: octal.induct)
  case (1 n)
  show ?case
  proof (cases "n < 8")
    case True
    then show ?thesis by (subst octal.simps) (simp add: octal_digit_ok del: of_nat_add)
  next
    case False
    with 1 show ?thesis by (subst octal.simps) (auto simp: octal_digit_ok simp del: of_nat_add)
  qed
qed

lemma octal_value_snoc: "octal_value (ds @ [c]) = 8 * octal_value ds + (unat c - 48)"
  by (simp add: octal_value_def)

lemma octal_value_octal [simp]: "octal_value (octal n) = n"
proof (induction n rule: octal.induct)
  case (1 n)
  show ?case
  proof (cases "n < 8")
    case True
    then show ?thesis
      by (subst octal.simps) (simp add: octal_value_def octal_digit del: of_nat_add)
  next
    case False
    with 1 show ?thesis
      by (subst octal.simps) (simp add: octal_value_snoc octal_digit del: of_nat_add)
  qed
qed

lemma length_octal: "n < 8 ^ Suc k \<Longrightarrow> length (octal n) \<le> Suc k"
proof (induction k arbitrary: n)
  case 0
  then show ?case by (subst octal.simps) simp
next
  case (Suc k)
  show ?case
  proof (cases "n < 8")
    case True
    then show ?thesis by (subst octal.simps) simp
  next
    case False
    have "n div 8 < 8 ^ Suc k" using Suc.prems by (simp add: less_mult_imp_div_less)
    with Suc.IH False show ?thesis by (subst octal.simps) simp
  qed
qed

lemma octal_value_zeros: "octal_value (replicate k 48 @ ds) = octal_value ds"
  by (induction k) (simp_all add: octal_value_def)

lemma not_space_octal: "is_octal c \<Longrightarrow> \<not> is_space c \<and> c \<noteq> 45 \<and> c \<noteq> 43"
  by (auto simp: is_octal_def is_space_def word_le_nat_alt)

lemma scan_digits:
  assumes "ds \<noteq> []" "\<forall>c\<in>set ds. is_octal c" "octal_value ds < 2 ^ 32"
    and "rest = [] \<or> \<not> is_octal (hd rest)"
  shows "scan_octal (ds @ rest) = Some (Some (of_nat (octal_value ds)))"
proof -
  obtain c cs where ds: "ds = c # cs" using assms(1) by (cases ds) auto
  have c: "\<not> is_space c" "c \<noteq> 45" "c \<noteq> 43"
    using assms(2) not_space_octal [of c] by (simp_all add: ds)
  have "takeWhile is_octal (ds @ rest) = ds"
    using assms(2,4) by (cases rest) (simp_all add: takeWhile_append)
  moreover have "dropWhile is_space (ds @ rest) = ds @ rest" using c by (simp add: ds)
  moreover have "hd (ds @ rest) = c" "ds @ rest \<noteq> []" by (simp_all add: ds)
  ultimately show ?thesis
    using c assms(1,3) by (simp add: scan_octal_def Let_def)
qed

lemma not_octal_zero [simp]: "\<not> is_octal 0"
  by (simp add: is_octal_def word_le_nat_alt)

lemma scan_number: "scan_octal (print_number (Some v) @ 0 # rest) = Some (Some v)"
proof -
  have "unat v < 2 ^ 32" using unsigned_less [of v] by simp
  then show ?thesis
    using scan_digits [of "octal (unat v)" "0 # rest"]
    by (simp add: print_number_def octal_all)
qed

lemma scan_octal6:
  assumes "n < 2 ^ 32"
  shows "scan_octal (octal6 n @ 0 # rest) = Some (Some (of_nat n))"
proof -
  have "is_octal 48" by (simp add: is_octal_def)
  then have "\<forall>c\<in>set (octal6 n). is_octal c" "octal_value (octal6 n) = n" "octal6 n \<noteq> []"
    using octal_all [of n] by (auto simp: octal6_def octal_value_zeros)
  then show ?thesis
    using scan_digits [of "octal6 n" "0 # rest"] assms by simp
qed

lemma length_octal6: "n < 8 ^ 6 \<Longrightarrow> length (octal6 n) = 6"
  using length_octal [of n 5] by (simp add: octal6_def)

section \<open>Headers round-trip\<close>

definition field :: "nat \<Rightarrow> octets \<Rightarrow> octets" where
  "field k xs = xs @ replicate (k - length xs) 0"

lemma length_field: "length xs \<le> k \<Longrightarrow> length (field k xs) = k"
  by (simp add: field_def)

lemma put_field:
  assumes "length A = off" "length xs \<le> k"
  shows "put off xs (A @ replicate k 0 @ B) = A @ field k xs @ B"
proof -
  have "drop (off + length xs) (A @ replicate k 0 @ B) = replicate (k - length xs) 0 @ B"
    using assms by simp
  then show ?thesis using assms by (simp add: put_def field_def)
qed

lemma put_at:
  "length A = off \<Longrightarrow> length xs = length ys \<Longrightarrow> put off xs (A @ ys @ B) = A @ xs @ B"
  by (simp add: put_def)

lemma replicate_split: "k \<le> n \<Longrightarrow> replicate n x = replicate k x @ replicate (n - k) x"
  by (metis le_add_diff_inverse replicate_add)

text \<open>A header that can be written: its strings and numbers fit their fields.\<close>

definition header_fits :: "mtar_header \<Rightarrow> bool" where
  "header_fits h \<longleftrightarrow>
     length (h_name h) < 100 \<and> 0 \<notin> set (h_name h) \<and>
     length (h_linkname h) < 100 \<and> 0 \<notin> set (h_linkname h) \<and> h_type h \<noteq> 0 \<and>
     (\<exists>m ow n t. h_mode h = Some m \<and> h_owner h = Some ow \<and> h_size h = Some n \<and> h_mtime h = Some t \<and>
        unat m < 8 ^ 7 \<and> unat ow < 8 ^ 7)"

definition raw_layout :: "mtar_header \<Rightarrow> octets \<Rightarrow> octets" where
  "raw_layout h chk =
     field 100 (h_name h @ [0]) @ field 8 (print_number (h_mode h) @ [0]) @
     field 8 (print_number (h_owner h) @ [0]) @ replicate 8 0 @
     field 12 (print_number (h_size h) @ [0]) @ field 12 (print_number (h_mtime h) @ [0]) @
     chk @ [h_type h] @ field 100 (h_linkname h @ [0]) @ replicate 255 0"

definition chk_of :: "mtar_header \<Rightarrow> nat" where
  "chk_of h = checksum (raw_layout h (replicate 8 0))"

lemma print_number_length:
  "length (print_number (Some m)) \<le> 11" "unat m < 8 ^ 7 \<Longrightarrow> length (print_number (Some m)) \<le> 7"
proof -
  have "unat m < 2 ^ 32" using unsigned_less [of m] by simp
  then have "unat m < 8 ^ Suc 10" by simp
  from length_octal [OF this] show "length (print_number (Some m)) \<le> 11"
    by (simp add: print_number_def)
  show "length (print_number (Some m)) \<le> 7" if "unat m < 8 ^ 7"
    using length_octal [of "unat m" 6] that by (simp add: print_number_def)
qed

text \<open>What \<^verbatim>\<open>header_to_raw\<close> writes is the layout of the fields, one after the other.\<close>

lemma layout_length:
  assumes "header_fits h" "length chk = 8"
  shows "length (raw_layout h chk) = 512"
  using assms print_number_length
  by (auto simp: raw_layout_def length_field header_fits_def)

lemma length_fields:
  assumes "header_fits h"
  shows "length (print_number (h_mode h)) \<le> 7" "length (print_number (h_owner h)) \<le> 7"
    "length (print_number (h_size h)) \<le> 11" "length (print_number (h_mtime h)) \<le> 11"
    "length (h_name h) \<le> 99" "length (h_linkname h) \<le> 99" "h_type h \<noteq> 0"
  using assms print_number_length by (auto simp: header_fits_def)

lemma sum_list_bytes: "sum_list (map unat (xs :: octets)) \<le> 255 * length xs"
proof (induction xs)
  case (Cons x xs)
  have "unat x < 2 ^ 8" using unsigned_less [of x] by simp
  with Cons show ?case by simp
qed simp

lemma checksum_bound: "length raw = 512 \<Longrightarrow> checksum raw < 8 ^ 6"
  using sum_list_bytes [of "take off_checksum raw"] sum_list_bytes [of "drop off_type raw"]
  by (simp add: checksum_def offsets)

lemma header_to_raw_layout:
  assumes f: "header_fits h"
  shows "header_to_raw h = raw_layout h (octal6 (chk_of h) @ [0, 32])"
proof -
  note len = length_fields [OF f]
  let ?m = "print_number (h_mode h) @ [0]" and ?o = "print_number (h_owner h) @ [0]"
  let ?s = "print_number (h_size h) @ [0]" and ?t = "print_number (h_mtime h) @ [0]"
  let ?n = "h_name h @ [0]" and ?l = "h_linkname h @ [0]"
  have r0: "replicate raw_header_size (0 :: u8) = replicate 100 0 @ replicate 8 0 @ replicate 404 0"
    by (simp add: offsets flip: replicate_add)
  have r1: "put off_mode ?m (replicate raw_header_size 0)
      = replicate 100 0 @ field 8 ?m @ replicate 404 0"
    unfolding r0 by (rule put_field) (use len in \<open>simp_all add: offsets\<close>)
  have r2: "put off_owner ?o (replicate 100 0 @ field 8 ?m @ replicate 404 0)
      = (replicate 100 0 @ field 8 ?m) @ field 8 ?o @ replicate 396 0"
    using put_field [of "replicate 100 0 @ field 8 ?m" off_owner ?o 8 "replicate 396 0"] len
    by (simp add: offsets length_field flip: replicate_add)
  have r3: "put off_size ?s ((replicate 100 0 @ field 8 ?m) @ field 8 ?o @ replicate 396 0)
      = (replicate 100 0 @ field 8 ?m @ field 8 ?o @ replicate 8 0) @ field 12 ?s @ replicate 376 0"
    using put_field [of "replicate 100 0 @ field 8 ?m @ field 8 ?o @ replicate 8 0" off_size ?s 12 "replicate 376 0"] len
    by (simp add: offsets length_field flip: replicate_add)
  have r4: "put off_mtime ?t ((replicate 100 0 @ field 8 ?m @ field 8 ?o @ replicate 8 0) @ field 12 ?s @ replicate 376 0)
      = (replicate 100 0 @ field 8 ?m @ field 8 ?o @ replicate 8 0 @ field 12 ?s) @ field 12 ?t @ replicate 364 0"
    using put_field [of "replicate 100 0 @ field 8 ?m @ field 8 ?o @ replicate 8 0 @ field 12 ?s" off_mtime ?t 12 "replicate 364 0"] len
    by (simp add: offsets length_field flip: replicate_add)
  have r5: "put off_type [h_type h] ((replicate 100 0 @ field 8 ?m @ field 8 ?o @ replicate 8 0 @ field 12 ?s) @ field 12 ?t @ replicate 364 0)
      = (replicate 100 0 @ field 8 ?m @ field 8 ?o @ replicate 8 0 @ field 12 ?s @ field 12 ?t @ replicate 8 0) @ [h_type h] @ replicate 355 0"
    using put_at [of "replicate 100 0 @ field 8 ?m @ field 8 ?o @ replicate 8 0 @ field 12 ?s @ field 12 ?t @ replicate 8 0"
        off_type "[h_type h]" "[0]" "replicate 355 0"] len
    by (simp add: offsets length_field replicate_split [of 8 364] replicate_split [of 1 356])
  have r6: "put 0 ?n ((replicate 100 0 @ field 8 ?m @ field 8 ?o @ replicate 8 0 @ field 12 ?s @ field 12 ?t @ replicate 8 0) @ [h_type h] @ replicate 355 0)
      = (field 100 ?n @ field 8 ?m @ field 8 ?o @ replicate 8 0 @ field 12 ?s @ field 12 ?t @ replicate 8 0 @ [h_type h]) @ replicate 355 0"
    using put_field [of "[]" 0 ?n 100] len by simp
  have r7: "put off_linkname ?l ((field 100 ?n @ field 8 ?m @ field 8 ?o @ replicate 8 0 @ field 12 ?s @ field 12 ?t @ replicate 8 0 @ [h_type h]) @ replicate 355 0)
      = raw_layout h (replicate 8 0)"
    using put_field [of "field 100 ?n @ field 8 ?m @ field 8 ?o @ replicate 8 0 @ field 12 ?s @ field 12 ?t @ replicate 8 0 @ [h_type h]"
        off_linkname ?l 100 "replicate 255 0"] len
    by (simp add: offsets length_field raw_layout_def flip: replicate_add)
  have c: "length (octal6 (chk_of h)) = 6"
    using checksum_bound [OF layout_length [OF f, of "replicate 8 0"]]
    by (intro length_octal6) (simp add: chk_of_def)
  let ?A = "field 100 ?n @ field 8 ?m @ field 8 ?o @ replicate 8 0 @ field 12 ?s @ field 12 ?t"
  let ?B = "[h_type h] @ field 100 ?l @ replicate 255 0"
  have r8: "put off_checksum (octal6 (chk_of h) @ [0]) (raw_layout h (replicate 8 0))
      = (?A @ octal6 (chk_of h) @ [0]) @ [0] @ ?B"
    using put_at [of ?A off_checksum "octal6 (chk_of h) @ [0]" "replicate 7 0" "[0] @ ?B"] len c
    by (simp add: offsets length_field raw_layout_def replicate_split [of 7 8])
  have r9: "put (off_checksum + 7) [32] ((?A @ octal6 (chk_of h) @ [0]) @ [0] @ ?B)
      = raw_layout h (octal6 (chk_of h) @ [0, 32])"
    using put_at [of "?A @ octal6 (chk_of h) @ [0]" "off_checksum + 7" "[32]" "[0]" ?B] len c
    by (simp add: offsets length_field raw_layout_def)
  show ?thesis
    unfolding header_to_raw_def Let_def
    using len(7) by (simp only: r1 r2 r3 r4 if_True not_False_eq_True r5 r6 r7 chk_of_def [symmetric] r8 r9)
qed

lemma field_at: "length A = off \<Longrightarrow> \<exists>r. drop off (A @ field k (xs @ [0]) @ B) = xs @ 0 # r"
  by (simp add: field_def)

lemma layout_fields:
  assumes f: "header_fits h" and c: "length chk = 8"
  shows "\<exists>r. drop off_mode (raw_layout h chk) = print_number (h_mode h) @ 0 # r"
    and "\<exists>r. drop off_owner (raw_layout h chk) = print_number (h_owner h) @ 0 # r"
    and "\<exists>r. drop off_size (raw_layout h chk) = print_number (h_size h) @ 0 # r"
    and "\<exists>r. drop off_mtime (raw_layout h chk) = print_number (h_mtime h) @ 0 # r"
    and "\<exists>r. drop off_linkname (raw_layout h chk) = h_linkname h @ 0 # r"
    and "\<exists>r. raw_layout h chk = h_name h @ 0 # r"
proof -
  note len = length_fields [OF f]
  let ?m = "print_number (h_mode h)" and ?o = "print_number (h_owner h)"
  let ?s = "print_number (h_size h)" and ?t = "print_number (h_mtime h)"
  let ?A = "field 100 (h_name h @ [0])"
  show "\<exists>r. drop off_mode (raw_layout h chk) = ?m @ 0 # r"
    unfolding raw_layout_def by (rule field_at) (use len in \<open>simp add: offsets length_field\<close>)
  show "\<exists>r. drop off_owner (raw_layout h chk) = ?o @ 0 # r"
    using field_at [of "?A @ field 8 (?m @ [0])" off_owner 8 ?o] len
    by (simp add: offsets length_field raw_layout_def)
  show "\<exists>r. drop off_size (raw_layout h chk) = ?s @ 0 # r"
    using field_at [of "?A @ field 8 (?m @ [0]) @ field 8 (?o @ [0]) @ replicate 8 0" off_size 12 ?s] len
    by (simp add: offsets length_field raw_layout_def)
  show "\<exists>r. drop off_mtime (raw_layout h chk) = ?t @ 0 # r"
    using field_at [of "?A @ field 8 (?m @ [0]) @ field 8 (?o @ [0]) @ replicate 8 0 @ field 12 (?s @ [0])" off_mtime 12 ?t] len
    by (simp add: offsets length_field raw_layout_def)
  show "\<exists>r. drop off_linkname (raw_layout h chk) = h_linkname h @ 0 # r"
    using field_at [of "?A @ field 8 (?m @ [0]) @ field 8 (?o @ [0]) @ replicate 8 0 @ field 12 (?s @ [0])
        @ field 12 (?t @ [0]) @ chk @ [h_type h]" off_linkname 100 "h_linkname h"] len c
    by (simp add: offsets length_field raw_layout_def)
  show "\<exists>r. raw_layout h chk = h_name h @ 0 # r"
    by (simp add: raw_layout_def field_def)
qed

lemma layout_checksum:
  assumes f: "header_fits h" and c: "length chk = 8"
  shows "drop off_checksum (raw_layout h chk) = chk @ drop off_type (raw_layout h chk)"
    and "raw_layout h chk ! off_type = h_type h"
    and "take off_checksum (raw_layout h chk) = take off_checksum (raw_layout h (replicate 8 0))"
    and "drop off_type (raw_layout h chk) = drop off_type (raw_layout h (replicate 8 0))"
  using length_fields [OF f] c
  by (simp_all add: raw_layout_def length_field offsets nth_append)

lemma copy_string_terminated:
  "length s < 100 \<Longrightarrow> 0 \<notin> set s \<Longrightarrow> copy_string (s @ 0 # rest) = Some s"
proof -
  assume a: "length s < 100" "0 \<notin> set s"
  then have "\<forall>c\<in>set s. c \<noteq> 0" by metis
  then have "takeWhile (\<lambda>c. c \<noteq> 0) (s @ 0 # rest) = s" by simp
  then show ?thesis using a by (simp add: copy_string_def Let_def)
qed

lemma header_round_trip:
  assumes f: "header_fits h"
  shows "raw_to_header (header_to_raw h) = Some (Inr h)" and "length (header_to_raw h) = raw_header_size"
proof -
  let ?chk = "octal6 (chk_of h) @ [0, 32]"
  define L where "L = raw_layout h ?chk"
  have b: "chk_of h < 8 ^ 6"
    using checksum_bound [OF layout_length [OF f, of "replicate 8 0"]] by (simp add: chk_of_def)
  have c: "length ?chk = 8" using length_octal6 [OF b] by simp
  note d = layout_checksum [OF f c, folded L_def]
  note r = layout_fields [OF f c, folded L_def]
  obtain m ow n t where v: "h_mode h = Some m" "h_owner h = Some ow" "h_size h = Some n" "h_mtime h = Some t"
    using f by (auto simp: header_fits_def)
  have L: "length L = 512" unfolding L_def by (rule layout_length [OF f c])
  have "\<forall>x\<in>set (octal6 (chk_of h)). is_octal x"
    using octal_all [of "chk_of h"] by (auto simp: octal6_def is_octal_def)
  moreover have "octal6 (chk_of h) \<noteq> []" by (simp add: octal6_def)
  ultimately have "octal6 (chk_of h) ! 0 \<noteq> 0"
    by (metis length_greater_0_conv not_octal_zero nth_mem)
  moreover have "L ! off_checksum = octal6 (chk_of h) ! 0"
  proof -
    have "L ! off_checksum = drop off_checksum L ! 0" using L by (simp add: offsets)
    then show ?thesis using d(1) length_octal6 [OF b] by (simp add: nth_append)
  qed
  ultimately have nz: "L ! off_checksum \<noteq> 0" by simp
  have sum: "checksum L = chk_of h"
    unfolding checksum_def chk_of_def d(3) d(4) by simp
  have "chk_of h < 2 ^ 32" using b by simp
  then have chk: "scan_octal (drop off_checksum L) = Some (Some (of_nat (chk_of h)))"
    unfolding d(1) using scan_octal6 [of "chk_of h" "32 # drop off_type L"] by simp
  have num: "scan_octal (drop off_mode L) = Some (Some m)" "scan_octal (drop off_owner L) = Some (Some ow)"
    "scan_octal (drop off_size L) = Some (Some n)" "scan_octal (drop off_mtime L) = Some (Some t)"
    using r(1-4) v by (auto simp: scan_number)
  have str: "copy_string L = Some (h_name h)" "copy_string (drop off_linkname L) = Some (h_linkname h)"
    using r(5,6) f by (auto simp: header_fits_def copy_string_terminated)
  have "header_to_raw h = L" unfolding L_def by (rule header_to_raw_layout [OF f])
  then show "raw_to_header (header_to_raw h) = Some (Inr h)" "length (header_to_raw h) = raw_header_size"
    using nz sum chk num str d(2) v L by (simp_all add: raw_to_header_def offsets)
qed

section \<open>Writing an archive\<close>

text \<open>The files of an archive with their data, and the bytes they occupy.\<close>

type_synonym files = "(octets \<times> octets) list"

definition pad_len :: "nat \<Rightarrow> nat" where
  "pad_len n = (512 - n mod 512) mod 512"

definition record_image :: "octets \<Rightarrow> octets \<Rightarrow> octets" where
  "record_image name xs =
     header_to_raw (file_header name (of_nat (length xs))) @ xs @ replicate (pad_len (length xs)) 0"

definition records_image :: "files \<Rightarrow> octets" where
  "records_image fs = concat (map (\<lambda>e. record_image (fst e) (snd e)) fs)"

definition archive_image :: "files \<Rightarrow> octets" where
  "archive_image fs = records_image fs @ replicate 1024 0"

definition name_fits :: "octets \<Rightarrow> bool" where
  "name_fits name \<longleftrightarrow> length name < 100 \<and> 0 \<notin> set name"

definition write_file :: "octets \<times> octets \<Rightarrow> mtar \<Rightarrow> (mtar_error + unit) \<times> mtar" where
  "write_file e tar =
     (case mtar_write_file_header tar (fst e) (of_nat (length (snd e))) of
        (Inl er, t) \<Rightarrow> (Inl er, t)
      | (Inr _, t) \<Rightarrow> mtar_write_data t (snd e))"

fun write_archive :: "files \<Rightarrow> mtar \<Rightarrow> (mtar_error + unit) \<times> mtar" where
  "write_archive [] tar = mtar_finalize tar"
| "write_archive (e # fs) tar =
     (case write_file e tar of (Inl er, t) \<Rightarrow> (Inl er, t) | (Inr _, t) \<Rightarrow> write_archive fs t)"

text \<open>The writer has written exactly the bytes \<open>bs\<close> from the start of the memory.\<close>

definition writer_at :: "octets \<Rightarrow> mtar \<Rightarrow> bool" where
  "writer_at bs tar \<longleftrightarrow>
     take (length bs) (tar_mem tar) = bs \<and> tar_off tar = length bs \<and> tar_pos tar = of_nat (length bs)"

lemma writer_at_length: "writer_at bs tar \<Longrightarrow> length bs \<le> mem_len tar"
  unfolding writer_at_def mem_len_def by (metis length_take min.absorb_iff2 min.commute)

lemma twrite_ok:
  assumes w: "writer_at bs tar" and room: "length bs + length xs < mem_len tar"
  shows "\<exists>t. twrite tar xs = (Inr (), t) \<and> writer_at (bs @ xs) t \<and> mem_len t = mem_len tar \<and>
           tar_remaining t = tar_remaining tar"
proof -
  have "take (length bs + length xs) (put (length bs) xs (tar_mem tar)) = bs @ xs"
    "length (put (length bs) xs (tar_mem tar)) = length (tar_mem tar)"
    using w room by (simp_all add: put_def writer_at_def mem_len_def)
  then show ?thesis
    using w room by (simp add: twrite_def advance_def mem_write_def writer_at_def mem_len_def)
qed

lemma write_null_bytes_ok:
  assumes "writer_at bs tar" "length bs + n < mem_len tar"
  shows "\<exists>t. write_null_bytes tar n = (Inr (), t) \<and> writer_at (bs @ replicate n 0) t \<and>
           mem_len t = mem_len tar \<and> tar_remaining t = tar_remaining tar"
  using assms
proof (induction n arbitrary: bs tar)
  case (Suc n)
  obtain t where t: "twrite tar [0] = (Inr (), t)" "writer_at (bs @ [0]) t" "mem_len t = mem_len tar"
    "tar_remaining t = tar_remaining tar"
    using twrite_ok [OF Suc.prems(1), of "[0]"] Suc.prems(2) by auto
  obtain t' where "write_null_bytes t n = (Inr (), t')" "writer_at ((bs @ [0]) @ replicate n 0) t'"
    "mem_len t' = mem_len t" "tar_remaining t' = tar_remaining t"
    using Suc.IH [OF t(2)] Suc.prems(2) t(3) by auto
  then show ?case using t by simp
qed simp

lemma round_up_pad:
  assumes "p + 512 \<le> 2 ^ 32"
  shows "unat (round_up (of_nat p) 512 - of_nat p) = pad_len p"
    and "unat (round_up (of_nat p) 512) = p + pad_len p \<or> p + pad_len p = 2 ^ 32"
proof -
  have p: "unat (of_nat p :: u32) = p"
    using assms by (simp add: unat_of_nat take_bit_nat_eq_self_iff)
  have m: "unat (of_nat p mod 512 :: u32) = p mod 512"
    by (simp add: unat_mod_distrib p)
  have le: "(of_nat p mod 512 :: u32) \<le> 512"
    unfolding word_le_nat_alt m by (simp add: less_imp_le)
  have d: "unat (512 - of_nat p mod 512 :: u32) = 512 - p mod 512"
    using unat_sub [OF le] m by simp
  have k: "unat ((512 - of_nat p mod 512) mod 512 :: u32) = pad_len p"
    by (simp add: unat_mod_distrib d pad_len_def)
  then show "unat (round_up (of_nat p) 512 - of_nat p) = pad_len p"
    by (simp add: round_up_def)
  have "pad_len p < 512" by (simp add: pad_len_def)
  then show "unat (round_up (of_nat p) 512) = p + pad_len p \<or> p + pad_len p = 2 ^ 32"
    using assms k p by (auto simp: round_up_def unat_word_ariths)
qed

lemma pad_len_add: "512 dvd k \<Longrightarrow> pad_len (k + n) = pad_len n"
  by (auto simp: pad_len_def elim!: dvdE)

lemma pad_len_dvd: "512 dvd n + pad_len n"
proof -
  have "(n mod 512 + pad_len n) mod 512 = 0"
  proof (cases "n mod 512 = 0")
    case False
    moreover have "n mod 512 < 512" by simp
    ultimately show ?thesis by (simp add: pad_len_def)
  qed (simp add: pad_len_def)
  then have "(n + pad_len n) mod 512 = 0" by (simp only: mod_add_left_eq)
  then show ?thesis by (simp add: dvd_eq_mod_eq_0)
qed

lemma file_header_fits: "name_fits name \<Longrightarrow> header_fits (file_header name n)"
  by (simp add: header_fits_def file_header_def name_fits_def)

lemma record_image_length:
  "name_fits name \<Longrightarrow> length (record_image name xs) = 512 + length xs + pad_len (length xs)"
  using header_round_trip(2) [OF file_header_fits [of name "of_nat (length xs)"]]
  by (simp add: record_image_def offsets)

lemma record_image_dvd: "name_fits name \<Longrightarrow> 512 dvd length (record_image name xs)"
  using dvd_add [OF dvd_refl pad_len_dvd [of "length xs"]] by (simp add: record_image_length add.assoc)

lemma write_data_ok:
  assumes w: "writer_at bs tar" and al: "512 dvd length bs"
    and rem: "tar_remaining tar = of_nat (length xs)"
    and room: "length bs + length xs + pad_len (length xs) < mem_len tar" and small: "mem_len tar + 512 \<le> 2 ^ 32"
  shows "\<exists>t. mtar_write_data tar xs = (Inr (), t) \<and>
           writer_at (bs @ xs @ replicate (pad_len (length xs)) 0) t \<and> mem_len t = mem_len tar"
proof -
  obtain t where t: "twrite tar xs = (Inr (), t)" "writer_at (bs @ xs) t" "mem_len t = mem_len tar"
    "tar_remaining t = tar_remaining tar"
    using twrite_ok [OF w, of xs] room by auto
  define t2 where "t2 = t\<lparr> tar_remaining := tar_remaining t - of_nat (length xs) \<rparr>"
  have t2: "tar_remaining t2 = 0" "writer_at (bs @ xs) t2" "mem_len t2 = mem_len tar"
    using t rem by (simp_all add: t2_def writer_at_def mem_len_def)
  have pos: "tar_pos t2 = of_nat (length bs + length xs)" using t2(2) by (simp add: writer_at_def)
  have "unat (round_up (tar_pos t2) 512 - tar_pos t2) = pad_len (length bs + length xs)"
    unfolding pos using room small by (intro round_up_pad(1)) simp
  then have pad: "unat (round_up (tar_pos t2) 512 - tar_pos t2) = pad_len (length xs)"
    by (simp add: pad_len_add [OF al])
  obtain t' where "write_null_bytes t2 (pad_len (length xs)) = (Inr (), t')"
    "writer_at ((bs @ xs) @ replicate (pad_len (length xs)) 0) t'" "mem_len t' = mem_len t2"
    using write_null_bytes_ok [OF t2(2), of "pad_len (length xs)"] room t2(3) by auto
  moreover have "mtar_write_data tar xs =
      (if tar_remaining t2 = 0 then write_null_bytes t2 (unat (round_up (tar_pos t2) 512 - tar_pos t2))
       else (Inr (), t2))"
    unfolding mtar_write_data_def t(1) t2_def by (simp only: prod.case sum.case Let_def)
  ultimately show ?thesis using t2(1,3) pad by simp
qed

lemma write_file_ok:
  assumes w: "writer_at bs tar" and al: "512 dvd length bs" and n: "name_fits name"
    and room: "length bs + length (record_image name xs) < mem_len tar" and small: "mem_len tar + 512 \<le> 2 ^ 32"
  shows "\<exists>t. write_file (name, xs) tar = (Inr (), t) \<and> writer_at (bs @ record_image name xs) t \<and>
           mem_len t = mem_len tar"
proof -
  let ?h = "file_header name (of_nat (length xs))"
  have raw: "length (header_to_raw ?h) = 512"
    using header_round_trip(2) [OF file_header_fits [OF n]] by (simp add: offsets)
  have room': "length bs + 512 + length xs + pad_len (length xs) < mem_len tar"
    using room by (simp add: record_image_length [OF n])
  define t0 where "t0 = tar\<lparr> tar_remaining := of_nat (length xs) \<rparr>"
  have t0: "writer_at bs t0" "mem_len t0 = mem_len tar" "tar_remaining t0 = of_nat (length xs)"
    using w by (simp_all add: t0_def writer_at_def mem_len_def)
  obtain t where t: "twrite t0 (header_to_raw ?h) = (Inr (), t)" "writer_at (bs @ header_to_raw ?h) t"
    "mem_len t = mem_len t0" "tar_remaining t = tar_remaining t0"
    using twrite_ok [OF t0(1), of "header_to_raw ?h"] room' t0(2) raw by auto
  have hdr: "mtar_write_file_header tar name (of_nat (length xs)) = (Inr (), t)"
    using t(1) by (simp add: mtar_write_file_header_def mtar_write_header_def t0_def file_header_def)
  have "512 dvd length (bs @ header_to_raw ?h)" using al raw by simp
  moreover have "length (bs @ header_to_raw ?h) + length xs + pad_len (length xs) < mem_len t"
    using room' raw t(3) t0(2) by simp
  ultimately obtain t' where "mtar_write_data t xs = (Inr (), t')"
    "writer_at ((bs @ header_to_raw ?h) @ xs @ replicate (pad_len (length xs)) 0) t'" "mem_len t' = mem_len t"
    using write_data_ok [OF t(2), of xs] t(3,4) t0(2,3) small by auto
  then show ?thesis
    using hdr t(3) t0(2) by (simp add: write_file_def record_image_def)
qed

lemma records_image_Cons: "records_image (e # fs) = record_image (fst e) (snd e) @ records_image fs"
  by (simp add: records_image_def)

lemma write_archive_ok:
  assumes "writer_at bs tar" "512 dvd length bs" "\<forall>e\<in>set fs. name_fits (fst e)"
    "length bs + length (archive_image fs) < mem_len tar" "mem_len tar + 512 \<le> 2 ^ 32"
  shows "\<exists>t. write_archive fs tar = (Inr (), t) \<and> writer_at (bs @ archive_image fs) t \<and> mem_len t = mem_len tar"
  using assms
proof (induction fs arbitrary: bs tar)
  case Nil
  then show ?case
    using write_null_bytes_ok [of bs tar 1024]
    by (auto simp: mtar_finalize_def offsets archive_image_def records_image_def)
next
  case (Cons e fs)
  obtain name xs where e: "e = (name, xs)" by (cases e)
  have n: "name_fits name" using Cons.prems(3) e by simp
  obtain t where t: "write_file (name, xs) tar = (Inr (), t)" "writer_at (bs @ record_image name xs) t"
    "mem_len t = mem_len tar"
    using write_file_ok [OF Cons.prems(1,2) n, of xs] Cons.prems(4,5)
    by (auto simp: archive_image_def records_image_Cons e)
  obtain t' where "write_archive fs t = (Inr (), t')"
    "writer_at ((bs @ record_image name xs) @ archive_image fs) t'" "mem_len t' = mem_len t"
    using Cons.IH [OF t(2)] Cons.prems t(3) record_image_dvd [OF n, of xs]
    by (auto simp: archive_image_def records_image_Cons e)
  then show ?case using t by (simp add: archive_image_def records_image_Cons e)
qed

section \<open>Reading an archive\<close>

definition reader_at :: "octets \<Rightarrow> nat \<Rightarrow> mtar \<Rightarrow> bool" where
  "reader_at mem p tar \<longleftrightarrow> tar_mem tar = mem \<and> tar_off tar = p \<and> tar_pos tar = of_nat p \<and>
     p \<le> length mem \<and> length mem < 2 ^ 32"

lemma reader_unat: "p \<le> length mem \<Longrightarrow> length mem < 2 ^ 32 \<Longrightarrow> unat (of_nat p :: u32) = p"
  by (simp add: unat_of_nat take_bit_nat_eq_self_iff)

lemma seek_at:
  assumes "tar_mem tar = mem" "p \<le> length mem" "length mem < 2 ^ 32"
  shows "mtar_seek tar (of_nat p) = (Inr (), tar\<lparr> tar_off := p, tar_pos := of_nat p \<rparr>)"
  using assms by (simp add: mtar_seek_def mem_seek_def mem_len_def Let_def reader_unat)

lemma read_header_at:
  assumes r: "reader_at mem p tar" and room: "p + 512 < length mem"
  shows "mtar_read_header tar =
    map_option (\<lambda>x. (x, tar\<lparr> tar_last_header := of_nat p \<rparr>)) (raw_to_header (take 512 (drop p mem)))"
proof -
  define t1 where "t1 = tar\<lparr> tar_last_header := of_nat p, tar_off := p + 512, tar_pos := of_nat p + 512 \<rparr>"
  have "tread (tar\<lparr> tar_last_header := tar_pos tar \<rparr>) raw_header_size = (Inr (take 512 (drop p mem)), t1)"
    using r room by (simp add: tread_def advance_def mem_read_def reader_at_def mem_len_def offsets t1_def)
  moreover have "mtar_seek t1 (of_nat p) = (Inr (), tar\<lparr> tar_last_header := of_nat p \<rparr>)"
    using seek_at [of t1 mem p] r by (cases tar) (simp add: t1_def reader_at_def)
  moreover have "tar_last_header t1 = of_nat p" by (simp add: t1_def)
  ultimately show ?thesis
    by (simp add: mtar_read_header_def)
qed

lemma read_file_header:
  assumes r: "reader_at mem p tar" and d: "drop p mem = record_image name xs @ B" and n: "name_fits name"
    and B: "B \<noteq> []"
  shows "mtar_read_header tar
    = Some (Inr (file_header name (of_nat (length xs))), tar\<lparr> tar_last_header := of_nat p \<rparr>)"
proof -
  let ?h = "file_header name (of_nat (length xs))"
  note rt = header_round_trip [OF file_header_fits [OF n, of "of_nat (length xs)"]]
  have "length (drop p mem) = length (record_image name xs) + length B" by (simp add: d)
  moreover have "0 < length B" using B by simp
  ultimately have "p + 512 < length mem"
    unfolding record_image_length [OF n] length_drop by linarith
  moreover have "take 512 (drop p mem) = header_to_raw ?h"
    using rt(2) by (simp add: d record_image_def offsets)
  ultimately show ?thesis using read_header_at [OF r] rt(1) by simp
qed

lemma read_null_header:
  assumes r: "reader_at mem p tar" and d: "drop p mem = replicate 1024 0 @ B"
  shows "mtar_read_header tar = Some (Inl MTAR_ENULLRECORD, tar\<lparr> tar_last_header := of_nat p \<rparr>)"
proof -
  have "length (drop p mem) = 1024 + length B" by (simp add: d)
  then have "p + 512 < length mem" by simp
  moreover have "take 512 (drop p mem) = replicate 512 0" by (simp add: d)
  ultimately show ?thesis
    using read_header_at [OF r] by (simp add: raw_to_header_def offsets)
qed

lemma reader_last: "reader_at mem p tar \<Longrightarrow> reader_at mem p (tar\<lparr> tar_last_header := q \<rparr>)"
  by (simp add: reader_at_def)

lemma unat_eq_imp: "unat (w :: u32) = n \<Longrightarrow> w = of_nat n"
  by auto

lemma next_at:
  assumes r: "reader_at mem p tar" and d: "drop p mem = record_image name xs @ B" and n: "name_fits name"
    and B: "B \<noteq> []"
  shows "\<exists>t. mtar_next tar = Some (Inr (), t) \<and> reader_at mem (p + length (record_image name xs)) t \<and>
           tar_remaining t = tar_remaining tar"
proof -
  let ?n = "length xs" and ?p' = "p + length (record_image name xs)"
  have len: "length mem - p = length (record_image name xs) + length B"
    using arg_cong [OF d, of length] by simp
  have p: "p \<le> length mem" "length mem < 2 ^ 32" using r by (simp_all add: reader_at_def)
  have "0 < length B" using B by simp
  then have p': "?p' < length mem" using len p by linarith
  have sz: "p + 512 + ?n + pad_len ?n = ?p'" by (simp add: record_image_length [OF n])
  have "unat (round_up (of_nat ?n) 512) = ?n + pad_len ?n"
    using round_up_pad(2) [of ?n] sz p' p(2) by linarith
  then have "round_up (of_nat ?n) 512 = of_nat (?n + pad_len ?n)"
    by (rule unat_eq_imp)
  then have pos: "of_nat p + (round_up (of_nat ?n) 512 + of_nat raw_header_size) = (of_nat ?p' :: u32)"
    by (simp add: offsets flip: sz)
  define t1 where "t1 = tar\<lparr> tar_last_header := of_nat p \<rparr>"
  have "mtar_read_header tar = Some (Inr (file_header name (of_nat ?n)), t1)"
    unfolding t1_def by (rule read_file_header [OF r d n B])
  then have "mtar_next tar = Some (mtar_seek t1 (tar_pos t1 + (round_up (of_nat ?n) 512 + of_nat raw_header_size)))"
    by (simp add: mtar_next_def file_header_def)
  moreover have "tar_pos t1 = of_nat p" using r by (simp add: t1_def reader_at_def)
  moreover have "mtar_seek t1 (of_nat ?p') = (Inr (), t1\<lparr> tar_off := ?p', tar_pos := of_nat ?p' \<rparr>)"
    using r p' by (intro seek_at [of t1 mem]) (simp_all add: t1_def reader_at_def)
  ultimately show ?thesis
    using r p' by (simp add: pos) (simp add: t1_def reader_at_def)
qed

lemma find_at:
  assumes "reader_at mem p tar" "drop p mem = archive_image fs @ rest" "\<forall>e\<in>set fs. name_fits (fst e)"
    "length fs < fuel"
  shows "(case map_of fs name of
      None \<Rightarrow> \<exists>t. find_loop fuel name tar = Some (Some (Inl MTAR_ENOTFOUND, t))
    | Some xs \<Rightarrow> \<exists>t q B. find_loop fuel name tar
                    = Some (Some (Inr (file_header name (of_nat (length xs))), t)) \<and>
          reader_at mem q t \<and> tar_remaining t = tar_remaining tar \<and>
          drop q mem = record_image name xs @ B \<and> B \<noteq> [] \<and> name_fits name)"
  using assms
proof (induction fs arbitrary: p tar fuel)
  case Nil
  then obtain k where "fuel = Suc k" by (cases fuel) auto
  with Nil show ?case
    using read_null_header [of mem p tar rest] by (simp add: archive_image_def records_image_def)
next
  case (Cons e fs)
  obtain n xs where e: "e = (n, xs)" by (cases e)
  obtain k where k: "fuel = Suc k" "length fs < k" using Cons.prems(4) by (cases fuel) auto
  have n: "name_fits n" using Cons.prems(3) e by simp
  let ?B = "archive_image fs @ rest"
  have d: "drop p mem = record_image n xs @ ?B"
    using Cons.prems(2) by (simp add: e archive_image_def records_image_Cons)
  have B: "?B \<noteq> []" by (simp add: archive_image_def)
  define t1 where "t1 = tar\<lparr> tar_last_header := of_nat p \<rparr>"
  have hd: "mtar_read_header tar = Some (Inr (file_header n (of_nat (length xs))), t1)"
    unfolding t1_def by (rule read_file_header [OF Cons.prems(1) d n B])
  have r1: "reader_at mem p t1" "tar_remaining t1 = tar_remaining tar"
    unfolding t1_def using reader_last [OF Cons.prems(1)] by simp_all
  show ?case
  proof (cases "n = name")
    case True
    have "find_loop fuel name tar = Some (Some (Inr (file_header name (of_nat (length xs))), t1))"
      using hd True k by (simp add: file_header_def)
    moreover have "map_of (e # fs) name = Some xs" using True e by simp
    ultimately show ?thesis
      using r1 d B n True by auto
  next
    case False
    obtain t2 where t2: "mtar_next t1 = Some (Inr (), t2)"
      "reader_at mem (p + length (record_image n xs)) t2" "tar_remaining t2 = tar_remaining t1"
      using next_at [OF r1(1) d n B] by auto
    have step: "find_loop fuel name tar = find_loop k name t2"
      using hd False k t2(1) by (simp add: file_header_def)
    have d2: "drop (p + length (record_image n xs)) mem = ?B"
    proof -
      have "drop (p + length (record_image n xs)) mem = drop (length (record_image n xs)) (drop p mem)"
        by (simp add: add.commute)
      then show ?thesis by (simp add: d)
    qed
    have m: "map_of (e # fs) name = map_of fs name" using False e by simp
    have rem: "tar_remaining t2 = tar_remaining tar" using t2(3) r1(2) by simp
    have fits: "\<forall>e\<in>set fs. name_fits (fst e)" using Cons.prems(3) by simp
    show ?thesis
      unfolding step m by (rule Cons.IH [OF t2(2) d2 fits k(2), unfolded rem])
  qed
qed

lemma read_data_at:
  assumes r: "reader_at mem p tar" and d: "drop p mem = record_image name xs @ B" and n: "name_fits name"
    and B: "B \<noteq> []" and rem: "tar_remaining tar = 0"
  shows "\<exists>t. mtar_mem_read_data tar (of_nat (length xs)) = Some (Inr (), Some xs, t)"
proof -
  have len: "length mem - p = length (record_image name xs) + length B"
    using arg_cong [OF d, of length] by simp
  have p: "p \<le> length mem" "length mem < 2 ^ 32" using r by (simp_all add: reader_at_def)
  have "0 < length B" using B by simp
  then have big: "p + 512 + length xs < length mem"
    using len p unfolding record_image_length [OF n] by linarith
  then have un: "unat (of_nat (length xs) :: u32) = length xs"
    using p(2) by (intro reader_unat [of _ mem]) simp_all
  let ?h = "file_header name (of_nat (length xs))"
  define t1 where "t1 = tar\<lparr> tar_last_header := of_nat p \<rparr>"
  have hd: "mtar_read_header tar = Some (Inr ?h, t1)"
    unfolding t1_def by (rule read_file_header [OF r d n B])
  define t2 where "t2 = t1\<lparr> tar_off := p + 512, tar_pos := of_nat (p + 512) \<rparr>"
  have "tar_pos t1 + of_nat raw_header_size = of_nat (p + 512)"
    using r by (simp add: t1_def reader_at_def offsets)
  moreover have "mtar_seek t1 (of_nat (p + 512)) = (Inr (), t2)"
    unfolding t2_def using r big by (intro seek_at [of t1 mem]) (simp_all add: t1_def reader_at_def)
  ultimately have sk: "mtar_seek t1 (tar_pos t1 + of_nat raw_header_size) = (Inr (), t2)" by simp
  define t3 where "t3 = t2\<lparr> tar_remaining := of_nat (length xs) \<rparr>"
  define t4 where "t4 = t3\<lparr> tar_off := p + 512 + length xs, tar_pos := of_nat (p + 512) + of_nat (length xs) \<rparr>"
  have mem: "tar_mem t3 = mem" "tar_off t3 = p + 512" "tar_last_header t4 = of_nat p" "tar_mem t4 = mem"
    "tar_remaining t4 = of_nat (length xs)" "tar_pos t3 = of_nat (p + 512)"
    using r by (simp_all add: t4_def t3_def t2_def t1_def reader_at_def)
  have raw: "length (header_to_raw ?h) = 512"
    using header_round_trip(2) [OF file_header_fits [OF n]] by (simp add: offsets)
  have "drop (p + 512) mem = drop 512 (drop p mem)" by (simp add: add.commute)
  then have "take (length xs) (drop (p + 512) mem) = xs"
    using raw by (simp add: d record_image_def)
  then have rd: "tread t3 (length xs) = (Inr xs, t4)"
    using big mem by (simp add: tread_def advance_def mem_read_def mem_len_def t4_def)
  have sk2: "mtar_seek (t4\<lparr> tar_remaining := 0 \<rparr>) (of_nat p)
      = (Inr (), t4\<lparr> tar_remaining := 0, tar_off := p, tar_pos := of_nat p \<rparr>)"
    using p mem by (subst seek_at [of _ mem]) simp_all
  have hs: "h_size ?h = Some (of_nat (length xs))" by (simp add: file_header_def)
  show ?thesis
    unfolding mtar_mem_read_data_def read_remaining_def Let_def
    using rem hd sk hs un rd mem(3,5) sk2 by (simp add: t3_def)
qed

section \<open>The archive as a map\<close>

text \<open>
  How the program reads a file of an archive: \<^verbatim>\<open>mtar_mem_open\<close>, whose answer it ignores,
  \<^verbatim>\<open>mtar_find\<close>, and \<^verbatim>\<open>mtar_mem_read_data\<close> of the size in the header.
\<close>

definition lookup_data ::
  "nat \<Rightarrow> octets \<Rightarrow> mtar \<Rightarrow> (octets option \<times> mtar) option option" where
  "lookup_data fuel name tar =
     (case mtar_find fuel name tar of
        None \<Rightarrow> None
      | Some None \<Rightarrow> Some None
      | Some (Some (Inl e, t)) \<Rightarrow> Some (Some (None, t))
      | Some (Some (Inr h, t)) \<Rightarrow>
          Some (do { n \<leftarrow> h_size h; r \<leftarrow> mtar_mem_read_data t n; Some (fst (snd r), snd (snd r)) }))"

definition fresh_tar :: "octets \<Rightarrow> mtar" where
  "fresh_tar mem = \<lparr> tar_mem = mem, tar_off = 0, tar_pos = 0, tar_remaining = 0, tar_last_header = 0 \<rparr>"

lemma rewind_at:
  "tar_mem tar = mem \<Longrightarrow> length mem < 2 ^ 32 \<Longrightarrow>
   \<exists>t. mtar_rewind tar = (Inr (), t) \<and> reader_at mem 0 t \<and> tar_remaining t = 0"
  using seek_at [of "tar\<lparr> tar_remaining := 0, tar_last_header := 0 \<rparr>" mem 0]
  by (simp add: mtar_rewind_def reader_at_def)

lemma lookup_archive:
  assumes mem: "tar_mem tar = archive_image fs @ rest" and small: "length (tar_mem tar) < 2 ^ 32"
    and fits: "\<forall>e\<in>set fs. name_fits (fst e)" and fuel: "length fs < fuel"
  shows "\<exists>t. lookup_data fuel name tar = Some (Some (map_of fs name, t))"
proof -
  let ?mem = "archive_image fs @ rest"
  obtain t0 where t0: "mtar_rewind tar = (Inr (), t0)" "reader_at ?mem 0 t0" "tar_remaining t0 = 0"
    using rewind_at [OF mem] small mem by auto
  have find: "mtar_find fuel name tar = find_loop fuel name t0"
    by (simp add: mtar_find_def t0(1))
  note at = find_at [OF t0(2) _ fits fuel, of rest name, simplified]
  show ?thesis
  proof (cases "map_of fs name")
    case None
    with at obtain t where "find_loop fuel name t0 = Some (Some (Inl MTAR_ENOTFOUND, t))" by auto
    then show ?thesis using None by (simp add: lookup_data_def find)
  next
    case (Some xs)
    with at obtain t q B where f: "find_loop fuel name t0
          = Some (Some (Inr (file_header name (of_nat (length xs))), t))"
      and t: "reader_at ?mem q t" "tar_remaining t = tar_remaining t0"
        "drop q ?mem = record_image name xs @ B" "B \<noteq> []" "name_fits name"
      by auto
    obtain t' where "mtar_mem_read_data t (of_nat (length xs)) = Some (Inr (), Some xs, t')"
      using read_data_at [OF t(1) t(3) t(5) t(4)] t(2) t0(3) by auto
    then show ?thesis
      using f Some by (simp add: lookup_data_def find file_header_def)
  qed
qed

lemma tread_mem: "tread t n = (r, t') \<Longrightarrow> tar_mem t' = tar_mem t"
  by (auto simp: tread_def advance_def mem_read_def split: if_splits)

lemma seek_mem: "mtar_seek t p = (r, t') \<Longrightarrow> tar_mem t' = tar_mem t"
  by (auto simp: mtar_seek_def mem_seek_def Let_def split: if_splits)

lemma read_header_mem: "mtar_read_header tar = Some (r, t) \<Longrightarrow> tar_mem t = tar_mem tar"
  by (auto simp: mtar_read_header_def Let_def split: prod.splits sum.splits
      dest!: tread_mem seek_mem)

lemma next_mem:
  assumes "mtar_next tar = Some (r, t)"
  shows "tar_mem t = tar_mem tar"
proof -
  obtain x t1 where 1: "mtar_read_header tar = Some (x, t1)"
    using assms by (auto simp: mtar_next_def bind_eq_Some_conv)
  show ?thesis
  proof (cases x)
    case (Inl e)
    then show ?thesis using assms 1 read_header_mem [OF 1] by (simp add: mtar_next_def)
  next
    case (Inr h)
    then obtain n where "mtar_seek t1 (tar_pos t1 + (round_up n 512 + of_nat raw_header_size)) = (r, t)"
      using assms 1 by (auto simp: mtar_next_def bind_eq_Some_conv)
    from seek_mem [OF this] read_header_mem [OF 1] show ?thesis by simp
  qed
qed

lemma find_loop_mem: "find_loop fuel name tar = Some (Some (r, t)) \<Longrightarrow> tar_mem t = tar_mem tar"
proof (induction fuel arbitrary: tar)
  case (Suc k)
  obtain x t1 where 1: "mtar_read_header tar = Some (x, t1)"
    using Suc.prems by (auto split: option.splits)
  note m1 = read_header_mem [OF 1]
  show ?case
  proof (cases x)
    case (Inl e)
    then show ?thesis using Suc.prems 1 m1 by simp
  next
    case (Inr h)
    show ?thesis
    proof (cases "h_name h = name")
      case True
      then show ?thesis using Suc.prems 1 Inr m1 by simp
    next
      case False
      then obtain y t2 where 2: "mtar_next t1 = Some (y, t2)" "find_loop k name t2 = Some (Some (r, t))"
        using Suc.prems 1 Inr by (auto split: option.splits)
      then show ?thesis using Suc.IH [OF 2(2)] next_mem [OF 2(1)] m1 by simp
    qed
  qed
qed simp

lemma find_mem: "mtar_find fuel name tar = Some (Some (r, t)) \<Longrightarrow> tar_mem t = tar_mem tar"
  by (auto simp: mtar_find_def mtar_rewind_def split: prod.splits sum.splits
      dest!: find_loop_mem seek_mem)

lemma read_remaining_mem: "read_remaining tar n = (r, x, t) \<Longrightarrow> tar_mem t = tar_mem tar"
proof -
  assume eq: "read_remaining tar n = (r, x, t)"
  obtain y t1 where 1: "tread tar (unat n) = (y, t1)" by (cases "tread tar (unat n)")
  note m = tread_mem [OF 1]
  have s: "tar_mem (snd (mtar_seek t' p)) = tar_mem t'" for t' p
    using seek_mem [of t' p] by (cases "mtar_seek t' p") simp
  show ?thesis
    using eq 1 m by (cases y) (auto simp: read_remaining_def Let_def s split: if_splits)
qed

lemma mem_read_data_mem:
  assumes "mtar_mem_read_data tar n = Some (r, x, t)"
  shows "tar_mem t = tar_mem tar"
proof (cases "tar_remaining tar = 0")
  case True
  obtain y t1 where 1: "mtar_read_header tar = Some (y, t1)"
    using assms True by (auto simp: mtar_mem_read_data_def bind_eq_Some_conv)
  note m1 = read_header_mem [OF 1]
  show ?thesis
  proof (cases y)
    case (Inl e)
    then show ?thesis using assms True 1 m1 by (simp add: mtar_mem_read_data_def)
  next
    case (Inr h)
    obtain z t2 where 2: "mtar_seek t1 (tar_pos t1 + of_nat raw_header_size) = (z, t2)"
      by (cases "mtar_seek t1 (tar_pos t1 + of_nat raw_header_size)")
    note m2 = seek_mem [OF 2]
    show ?thesis
    proof (cases z)
      case (Inl e)
      then show ?thesis using assms True 1 Inr 2 m1 m2 by (simp add: mtar_mem_read_data_def)
    next
      case (Inr u)
      then obtain k where "read_remaining (t2\<lparr> tar_remaining := k \<rparr>) n = (r, x, t)"
        using assms True 1 \<open>y = Inr h\<close> 2 by (auto simp: mtar_mem_read_data_def bind_eq_Some_conv)
      from read_remaining_mem [OF this] show ?thesis using m1 m2 by simp
    qed
  qed
next
  case False
  then show ?thesis using assms read_remaining_mem by (simp add: mtar_mem_read_data_def)
qed

text \<open>The two calls of a lookup, as the program makes them one by one.\<close>

lemma find_then_read:
  assumes mem: "tar_mem tar = archive_image fs @ rest" and small: "length (tar_mem tar) < 2 ^ 32"
    and fits: "\<forall>e\<in>set fs. name_fits (fst e)" and fuel: "length fs < fuel"
  shows "map_of fs name = None \<Longrightarrow> \<exists>t. mtar_find fuel name tar = Some (Some (Inl MTAR_ENOTFOUND, t))"
    and "map_of fs name = Some xs \<Longrightarrow>
      \<exists>t t'. mtar_find fuel name tar = Some (Some (Inr (file_header name (of_nat (length xs))), t)) \<and>
             mtar_mem_read_data t (of_nat (length xs)) = Some (Inr (), Some xs, t')"
proof -
  let ?mem = "archive_image fs @ rest"
  obtain t0 where t0: "mtar_rewind tar = (Inr (), t0)" "reader_at ?mem 0 t0" "tar_remaining t0 = 0"
    using rewind_at [OF mem] small mem by auto
  have find: "mtar_find fuel name tar = find_loop fuel name t0"
    by (simp add: mtar_find_def t0(1))
  note at = find_at [OF t0(2) _ fits fuel, of rest name, simplified]
  show "\<exists>t. mtar_find fuel name tar = Some (Some (Inl MTAR_ENOTFOUND, t))" if "map_of fs name = None"
    using at that find by simp
  show "\<exists>t t'. mtar_find fuel name tar = Some (Some (Inr (file_header name (of_nat (length xs))), t)) \<and>
             mtar_mem_read_data t (of_nat (length xs)) = Some (Inr (), Some xs, t')"
    if "map_of fs name = Some xs"
  proof -
    from at that obtain t q B where f: "find_loop fuel name t0
          = Some (Some (Inr (file_header name (of_nat (length xs))), t))"
      and t: "reader_at ?mem q t" "tar_remaining t = tar_remaining t0"
        "drop q ?mem = record_image name xs @ B" "B \<noteq> []" "name_fits name"
      by auto
    obtain t' where "mtar_mem_read_data t (of_nat (length xs)) = Some (Inr (), Some xs, t')"
      using read_data_at [OF t(1) t(3) t(5) t(4)] t(2) t0(3) by auto
    then show ?thesis using f find by simp
  qed
qed

text \<open>
  C24: the files written one after the other into a memory that has room for them, and closed
  by \<^verbatim>\<open>mtar_finalize\<close>, are the files found in it: every write succeeds, and looking up any
  name in the memory ends within one step per file and gives the data of the first file of
  that name, byte for byte, or nothing when no file has it.
\<close>

theorem archive_round_trip:
  assumes fits: "\<forall>e\<in>set fs. length (fst e) < 100 \<and> 0 \<notin> set (fst e)"
    and room: "length (archive_image fs) < length buf" and small: "length buf + 512 \<le> 2 ^ 32"
  shows "\<exists>tar. write_archive fs (fresh_tar buf) = (Inr (), tar) \<and>
           (\<exists>t. lookup_data (Suc (length fs)) name (fresh_tar (tar_mem tar)) = Some (Some (map_of fs name, t)))"
proof -
  have fits': "\<forall>e\<in>set fs. name_fits (fst e)" using fits by (simp add: name_fits_def)
  have "writer_at [] (fresh_tar buf)" by (simp add: writer_at_def fresh_tar_def)
  then obtain tar where w: "write_archive fs (fresh_tar buf) = (Inr (), tar)"
    "writer_at (archive_image fs) tar" "mem_len tar = mem_len (fresh_tar buf)"
    using write_archive_ok [of "[]" "fresh_tar buf" fs] fits' room small
    by (auto simp: mem_len_def fresh_tar_def)
  have "tar_mem tar = archive_image fs @ drop (length (archive_image fs)) (tar_mem tar)"
    using w(2) by (metis append_take_drop_id writer_at_def)
  moreover have "length (tar_mem tar) < 2 ^ 32"
    using w(3) small by (simp add: mem_len_def fresh_tar_def)
  ultimately have "\<exists>t. lookup_data (Suc (length fs)) name (fresh_tar (tar_mem tar)) = Some (Some (map_of fs name, t))"
    by (intro lookup_archive [OF _ _ fits', where rest = "drop (length (archive_image fs)) (tar_mem tar)"])
      (simp_all add: fresh_tar_def)
  with w(1) show ?thesis by blast
qed

text \<open>A file \<open>a.txt\<close> of three bytes.\<close>

definition demo_files :: files where
  "demo_files = [([97, 46, 116, 120, 116], [1, 2, 3])]"

lemma demo_image_length: "length (archive_image demo_files) = 2048"
  using record_image_length [of "[97, 46, 116, 120, 116]" "[1, 2, 3]"]
  by (simp add: archive_image_def records_image_def demo_files_def name_fits_def pad_len_def)

theorem archive_round_trip_witness:
  "\<exists>tar. write_archive demo_files (fresh_tar (replicate 3000 7)) = (Inr (), tar) \<and>
     (\<exists>t. lookup_data (Suc (length demo_files)) [97, 46, 116, 120, 116] (fresh_tar (tar_mem tar))
        = Some (Some (map_of demo_files [97, 46, 116, 120, 116], t)))"
  by (rule archive_round_trip) (simp_all add: demo_image_length, simp add: demo_files_def)

section \<open>Names by suffix\<close>

text \<open>The growing array of \<^verbatim>\<open>vec_string.c\<close>; \<open>vs_freed\<close> says that its blocks were given back.\<close>

record vector_string =
  vs_data :: "octets list"
  vs_capacity :: nat
  vs_freed :: bool

definition vector_string_init :: vector_string where
  "vector_string_init = \<lparr> vs_data = [], vs_capacity = 0, vs_freed = False \<rparr>"

definition vector_string_push :: "vector_string \<Rightarrow> octets \<Rightarrow> vector_string" where
  "vector_string_push v str =
     (let cap = (if length (vs_data v) \<ge> vs_capacity v
                 then (if vs_capacity v = 0 then 10 else vs_capacity v * 2) else vs_capacity v)
      in v\<lparr> vs_capacity := cap, vs_data := vs_data v @ [str] \<rparr>)"

text \<open>Freeing keeps the size and the dangling pointers; freeing twice is undefined.\<close>

definition vector_string_free :: "vector_string \<Rightarrow> vector_string option" where
  "vector_string_free v = (if vs_freed v then None else Some (v\<lparr> vs_freed := True \<rparr>))"

text \<open>\<^verbatim>\<open>strrchr(name, '.')\<close>: the rest of the string from its last dot.\<close>

definition from_last_dot :: "octets \<Rightarrow> octets option" where
  "from_last_dot name =
     (if 46 \<in> set name then Some (46 # rev (takeWhile (\<lambda>c. c \<noteq> 46) (rev name))) else None)"

definition has_file_extension :: "octets \<Rightarrow> octets \<Rightarrow> bool" where
  "has_file_extension filename extension =
     (case from_last_dot filename of None \<Rightarrow> False | Some d \<Rightarrow> tl d = extension)"

definition keep_name :: "octets option \<Rightarrow> octets \<Rightarrow> bool" where
  "keep_name sfx name =
     (case sfx of None \<Rightarrow> True | Some sf \<Rightarrow> from_last_dot name = Some sf)"

fun names_loop ::
  "nat \<Rightarrow> octets option \<Rightarrow> vector_string \<Rightarrow> mtar \<Rightarrow> ((mtar_error + unit) \<times> vector_string \<times> mtar) option option" where
  "names_loop 0 sfx v tar = None"
| "names_loop (Suc fuel) sfx v tar =
     (case mtar_read_header tar of
        None \<Rightarrow> Some None
      | Some (Inl e, t1) \<Rightarrow>
          if e = MTAR_ENULLRECORD then Some (Some (Inr (), v, t1))
          else Some (map_option (\<lambda>v'. (Inl e, v', t1)) (vector_string_free v))
      | Some (Inr h, t1) \<Rightarrow>
          (let v' = (if keep_name sfx (h_name h) then vector_string_push v (h_name h) else v)
           in case mtar_next t1 of
                None \<Rightarrow> Some None
              | Some (_, t2) \<Rightarrow> names_loop fuel sfx v' t2))"

definition mtar_get_filtered_filenames ::
  "nat \<Rightarrow> octets option \<Rightarrow> mtar \<Rightarrow> ((mtar_error + unit) \<times> vector_string \<times> mtar) option option" where
  "mtar_get_filtered_filenames fuel sfx tar =
     names_loop fuel sfx vector_string_init (snd (mtar_rewind tar))"

lemma push_data [simp]:
  "vs_data (vector_string_push v s) = vs_data v @ [s]" "vs_freed (vector_string_push v s) = vs_freed v"
  by (simp_all add: vector_string_push_def Let_def)

lemma names_at:
  assumes "reader_at mem p tar" "drop p mem = archive_image fs @ rest" "\<forall>e\<in>set fs. name_fits (fst e)"
    "length fs < fuel"
  shows "\<exists>v' t. names_loop fuel sfx v tar = Some (Some (Inr (), v', t)) \<and> vs_freed v' = vs_freed v \<and>
           vs_data v' = vs_data v @ filter (keep_name sfx) (map fst fs) \<and> tar_mem t = mem"
  using assms
proof (induction fs arbitrary: p tar fuel v)
  case Nil
  then obtain k where "fuel = Suc k" by (cases fuel) auto
  with Nil show ?case
    using read_null_header [of mem p tar rest]
    by (simp add: archive_image_def records_image_def reader_at_def)
next
  case (Cons e fs)
  obtain n xs where e: "e = (n, xs)" by (cases e)
  obtain k where k: "fuel = Suc k" "length fs < k" using Cons.prems(4) by (cases fuel) auto
  have n: "name_fits n" using Cons.prems(3) e by simp
  let ?B = "archive_image fs @ rest"
  have d: "drop p mem = record_image n xs @ ?B"
    using Cons.prems(2) by (simp add: e archive_image_def records_image_Cons)
  have B: "?B \<noteq> []" by (simp add: archive_image_def)
  define t1 where "t1 = tar\<lparr> tar_last_header := of_nat p \<rparr>"
  have hd: "mtar_read_header tar = Some (Inr (file_header n (of_nat (length xs))), t1)"
    unfolding t1_def by (rule read_file_header [OF Cons.prems(1) d n B])
  have r1: "reader_at mem p t1" unfolding t1_def using reader_last [OF Cons.prems(1)] by simp
  obtain t2 where t2: "mtar_next t1 = Some (Inr (), t2)" "reader_at mem (p + length (record_image n xs)) t2"
    using next_at [OF r1 d n B] by auto
  have d2: "drop (p + length (record_image n xs)) mem = ?B"
    using d by (metis add.commute append_eq_conv_conj drop_drop)
  define v1 where "v1 = (if keep_name sfx n then vector_string_push v n else v)"
  have "names_loop fuel sfx v tar = names_loop k sfx v1 t2"
    using hd k t2(1) by (simp add: file_header_def v1_def)
  moreover have "vs_data v1 = vs_data v @ filter (keep_name sfx) [n]" "vs_freed v1 = vs_freed v"
    by (simp_all add: v1_def)
  moreover have "\<forall>e\<in>set fs. name_fits (fst e)" using Cons.prems(3) by simp
  ultimately show ?case
    using Cons.IH [OF t2(2) d2 _ k(2), of v1] by (auto simp: e)
qed

lemma names_of_archive:
  assumes mem: "tar_mem tar = archive_image fs @ rest" and small: "length (tar_mem tar) < 2 ^ 32"
    and fits: "\<forall>e\<in>set fs. name_fits (fst e)" and fuel: "length fs < fuel"
  shows "\<exists>v t. mtar_get_filtered_filenames fuel sfx tar = Some (Some (Inr (), v, t)) \<and> \<not> vs_freed v \<and>
           vs_data v = filter (keep_name sfx) (map fst fs) \<and> tar_mem t = tar_mem tar"
proof -
  obtain t0 where t0: "mtar_rewind tar = (Inr (), t0)" "reader_at (archive_image fs @ rest) 0 t0"
    using rewind_at [OF mem] small mem by auto
  show ?thesis
    using names_at [OF t0(2) _ fits fuel, of rest sfx vector_string_init]
    by (simp add: mtar_get_filtered_filenames_def t0(1) mem vector_string_init_def)
qed

section \<open>The search ends\<close>

text \<open>
  No header of the memory, wherever it is read, announces a size whose next record would lie
  beyond the range of the position.
\<close>

definition sizes_sane :: "octets \<Rightarrow> bool" where
  "sizes_sane mem \<longleftrightarrow>
     (\<forall>p h n. p + 512 < length mem \<longrightarrow> raw_to_header (take 512 (drop p mem)) = Some (Inr h) \<longrightarrow>
        h_size h = Some n \<longrightarrow> p + unat n + 1024 \<le> 2 ^ 32)"

text \<open>The position is the stream's, or one past the end that no seek reaches.\<close>

definition lost :: "octets \<Rightarrow> mtar \<Rightarrow> bool" where
  "lost mem tar \<longleftrightarrow> tar_mem tar = mem \<and> unat (tar_pos tar) > length mem"

lemma read_header_lost:
  assumes "lost mem tar"
  shows "\<exists>e t. mtar_read_header tar = Some (Inl e, t)"
proof -
  define t0 where "t0 = tar\<lparr> tar_last_header := tar_pos tar \<rparr>"
  obtain r t1 where r: "tread t0 raw_header_size = (r, t1)" by (cases "tread t0 raw_header_size")
  have t1: "tar_mem t1 = tar_mem tar" "tar_last_header t1 = tar_pos tar"
    using r by (auto simp: tread_def advance_def mem_read_def t0_def split: if_splits)
  have "\<exists>e t. mtar_seek t1 (tar_last_header t1) = (Inl e, t)"
    using t1 assms by (simp add: mtar_seek_def mem_seek_def mem_len_def lost_def Let_def)
  then show ?thesis
    using r by (cases r) (auto simp: mtar_read_header_def t0_def)
qed

lemma read_header_cases:
  assumes "reader_at mem p tar"
  shows "mtar_read_header tar = None \<or> (\<exists>e t. mtar_read_header tar = Some (Inl e, t)) \<or>
     (\<exists>h. p + 512 < length mem \<and> raw_to_header (take 512 (drop p mem)) = Some (Inr h) \<and>
          mtar_read_header tar = Some (Inr h, tar\<lparr> tar_last_header := of_nat p \<rparr>))"
proof (cases "p + 512 < length mem")
  case True
  then show ?thesis
    using read_header_at [OF assms True]
    by (cases "raw_to_header (take 512 (drop p mem))") (auto, metis sum.exhaust)
next
  case False
  then have "\<exists>t. mtar_read_header tar = Some (Inl MTAR_EREADFAIL, t)"
    using assms by (simp add: mtar_read_header_def tread_def advance_def mem_read_def mem_len_def
        reader_at_def offsets Let_def)
  then show ?thesis by blast
qed

lemma next_sane:
  assumes r: "reader_at mem p tar" and sane: "sizes_sane mem"
    and h: "p + 512 < length mem" "raw_to_header (take 512 (drop p mem)) = Some (Inr h)"
  shows "mtar_next tar = None \<or>
     (\<exists>x t. mtar_next tar = Some (x, t) \<and> ((\<exists>q\<ge>p + 512. reader_at mem q t) \<or> lost mem t))"
proof (cases "h_size h")
  case None
  then show ?thesis using read_header_at [OF r h(1)] h(2) by (simp add: mtar_next_def)
next
  case (Some n)
  have hd: "mtar_read_header tar = Some (Inr h, tar\<lparr> tar_last_header := of_nat p \<rparr>)"
    using read_header_at [OF r h(1)] h(2) by simp
  have b: "p + unat n + 1024 \<le> 2 ^ 32" using sane h Some by (auto simp: sizes_sane_def)
  let ?q = "p + 512 + (unat n + pad_len (unat n))"
  have "pad_len (unat n) < 512" by (simp add: pad_len_def)
  then have q: "?q < 2 ^ 32" using b by linarith
  have "unat (round_up n 512) = unat n + pad_len (unat n)"
    using round_up_pad(2) [of "unat n"] b q by simp
  then have "round_up n 512 = of_nat (unat n + pad_len (unat n))" by (rule unat_eq_imp)
  moreover have "tar_pos tar = of_nat p" using r by (simp add: reader_at_def)
  ultimately have pos: "tar_pos tar + (round_up n 512 + of_nat raw_header_size) = (of_nat ?q :: u32)"
    by (simp add: offsets)
  have next_eq: "mtar_next tar = Some (mtar_seek (tar\<lparr> tar_last_header := of_nat p \<rparr>) (of_nat ?q))"
  proof -
    have "mtar_next tar = Some (mtar_seek (tar\<lparr> tar_last_header := of_nat p \<rparr>)
        (tar_pos tar + (round_up n 512 + of_nat raw_header_size)))"
      using hd Some by (simp add: mtar_next_def)
    then show ?thesis by (simp only: pos)
  qed
  have mem: "tar_mem tar = mem" "length mem < 2 ^ 32" using r by (simp_all add: reader_at_def)
  show ?thesis
  proof (cases "?q \<le> length mem")
    case True
    then have "mtar_seek (tar\<lparr> tar_last_header := of_nat p \<rparr>) (of_nat ?q)
        = (Inr (), tar\<lparr> tar_last_header := of_nat p, tar_off := ?q, tar_pos := of_nat ?q \<rparr>)"
      using mem by (subst seek_at [of _ mem]) simp_all
    moreover have "reader_at mem ?q (tar\<lparr> tar_last_header := of_nat p, tar_off := ?q, tar_pos := of_nat ?q \<rparr>)"
      using True mem by (simp add: reader_at_def)
    ultimately have "mtar_next tar = Some (Inr (), tar\<lparr> tar_last_header := of_nat p, tar_off := ?q, tar_pos := of_nat ?q \<rparr>)"
      "\<exists>q\<ge>p + 512. reader_at mem q (tar\<lparr> tar_last_header := of_nat p, tar_off := ?q, tar_pos := of_nat ?q \<rparr>)"
      unfolding next_eq by (simp only:, intro exI [of _ ?q] conjI) simp_all
    then show ?thesis by blast
  next
    case False
    have "unat (of_nat ?q :: u32) = ?q"
      using q by (simp only: unat_of_nat take_bit_nat_eq_self_iff) simp
    then have "lost mem (snd (mtar_seek (tar\<lparr> tar_last_header := of_nat p \<rparr>) (of_nat ?q)))"
      using False mem by (simp add: lost_def mtar_seek_def mem_seek_def mem_len_def Let_def)
    then show ?thesis unfolding next_eq by (metis option.inject prod.collapse)
  qed
qed

lemma find_lost: "lost mem tar \<Longrightarrow> find_loop (Suc k) name tar \<noteq> None"
  using read_header_lost [of mem tar] by auto

lemma find_ends:
  assumes "reader_at mem p tar" "sizes_sane mem" "length mem - p < 512 * fuel"
  shows "find_loop (Suc fuel) name tar \<noteq> None"
  using assms
proof (induction fuel arbitrary: p tar)
  case (Suc k)
  define t1 where "t1 = tar\<lparr> tar_last_header := of_nat p \<rparr>"
  have r1: "reader_at mem p t1" unfolding t1_def by (rule reader_last [OF Suc.prems(1)])
  consider "mtar_read_header tar = None" | e t where "mtar_read_header tar = Some (Inl e, t)"
    | h where "p + 512 < length mem" "raw_to_header (take 512 (drop p mem)) = Some (Inr h)"
        "mtar_read_header tar = Some (Inr h, t1)"
    using read_header_cases [OF Suc.prems(1)] unfolding t1_def by metis
  then show ?case
  proof cases
    case (3 h)
    consider "mtar_next t1 = None" | x t q where "mtar_next t1 = Some (x, t)" "q \<ge> p + 512" "reader_at mem q t"
      | x t where "mtar_next t1 = Some (x, t)" "lost mem t"
      using next_sane [OF r1 Suc.prems(2) 3(1,2)] by metis
    then show ?thesis
    proof cases
      case (2 x t q)
      have "length mem - p < 512 + 512 * k" "q \<le> length mem"
        using Suc.prems(3) 2(3) by (simp_all add: reader_at_def)
      then have "length mem - q < 512 * k" using 2(2) 3(1) by linarith
      then have "find_loop (Suc k) name t \<noteq> None" using Suc.IH 2(3) Suc.prems(2) by blast
      then show ?thesis using 3(3) 2(1) by (subst find_loop.simps) simp
    next
      case (3 x t)
      then have "find_loop (Suc k) name t \<noteq> None" by (intro find_lost)
      then show ?thesis using \<open>mtar_read_header tar = Some (Inr h, t1)\<close> 3(1)
        by (subst find_loop.simps) simp
    qed (subst find_loop.simps, simp add: 3(3))
  qed (subst find_loop.simps, simp)+
qed simp

text \<open>
  C34: a search for a name in any memory of less than 4 GiB, valid archive or not, ends after
  at most one step per 512 bytes and two more, with the header found, an error or undefined
  behaviour, provided no header in the memory announces a size that takes the position past
  32 bits.
\<close>

theorem search_ends:
  assumes "length mem < 2 ^ 32" and "sizes_sane mem"
  shows "mtar_find (length mem div 512 + 2) name (fresh_tar mem) \<noteq> None"
proof -
  obtain t where t: "mtar_rewind (fresh_tar mem) = (Inr (), t)" "reader_at mem 0 t"
    using rewind_at [of "fresh_tar mem" mem] assms(1) by (auto simp: fresh_tar_def)
  have "length mem - 0 < 512 * (length mem div 512 + 1)"
    using dividend_less_div_times [of 512 "length mem"] by (simp add: algebra_simps)
  from find_ends [OF t(2) assms(2) this, of name] show ?thesis
    by (simp add: mtar_find_def t(1))
qed

theorem search_ends_witness:
  "mtar_find (length (replicate 600 (0::u8)) div 512 + 2) [97] (fresh_tar (replicate 600 0)) \<noteq> None"
proof (rule search_ends)
  show "sizes_sane (replicate 600 0)"
    by (auto simp: sizes_sane_def raw_to_header_def offsets)
qed simp

text \<open>
  A header that announces \<open>2 ^ 32 - 512\<close> bytes is followed by itself: the position wraps to
  where it was, and the search for another name never ends.
\<close>

definition forged_archive :: octets where
  "forged_archive = header_to_raw (file_header [97] 0xFFFFFE00) @ replicate 1024 0"

lemma forged_size_hangs: "mtar_find fuel [98] (fresh_tar forged_archive) = None"
proof -
  let ?h = "file_header [97] 0xFFFFFE00"
  have fits: "name_fits [97]" by (simp add: name_fits_def)
  note rt = header_round_trip [OF file_header_fits [OF fits, of "0xFFFFFE00"]]
  have len: "length forged_archive = 1536" using rt(2) by (simp add: forged_archive_def offsets)
  have raw: "take 512 (drop 0 forged_archive) = header_to_raw ?h"
    using rt(2) by (simp add: forged_archive_def offsets)
  have hd: "mtar_read_header t = Some (Inr ?h, t\<lparr> tar_last_header := of_nat 0 \<rparr>)"
    if "reader_at forged_archive 0 t" for t
    using read_header_at [OF that] rt(1) raw len by simp
  have nx: "\<exists>x t'. mtar_next t = Some (x, t') \<and> reader_at forged_archive 0 t'"
    if r: "reader_at forged_archive 0 t" for t
  proof -
    have wrap: "(4294967296 :: u32) = 0" by simp
    have "mtar_next t = Some (mtar_seek (t\<lparr> tar_last_header := of_nat 0 \<rparr>) (of_nat 0))"
      using hd [OF r] r by (simp add: wrap mtar_next_def file_header_def round_up_def reader_at_def offsets)
    also have "mtar_seek (t\<lparr> tar_last_header := of_nat 0 \<rparr>) (of_nat 0)
        = (Inr (), t\<lparr> tar_last_header := of_nat 0, tar_off := 0, tar_pos := of_nat 0 \<rparr>)"
      using r by (subst seek_at [of _ forged_archive]) (simp_all add: reader_at_def)
    finally show ?thesis using r by (simp add: reader_at_def)
  qed
  have loop: "find_loop k [98] t = None" if "reader_at forged_archive 0 t" for k t
    using that
  proof (induction k arbitrary: t)
    case (Suc k)
    let ?t1 = "t\<lparr> tar_last_header := of_nat 0 \<rparr>"
    obtain x t2 where t2: "mtar_next ?t1 = Some (x, t2)" "reader_at forged_archive 0 t2"
      using nx [OF reader_last [OF Suc.prems]] by blast
    then show ?case
      using hd [OF Suc.prems] Suc.IH [OF t2(2)] by (simp add: file_header_def)
  qed simp
  obtain t where "mtar_rewind (fresh_tar forged_archive) = (Inr (), t)" "reader_at forged_archive 0 t"
    using rewind_at [of "fresh_tar forged_archive" forged_archive] len by (auto simp: fresh_tar_def)
  then show ?thesis using loop by (simp add: mtar_find_def)
qed

text \<open>The last byte of the memory is never read: the guard of \<open>mem_read\<close> is strict.\<close>

lemma last_byte_unreadable:
  "tar_off tar + n = mem_len tar \<Longrightarrow> fst (mem_read tar n) = Inl MTAR_EREADFAIL"
  by (simp add: mem_read_def)

end
