(* ===== verification/Md5.thy ===== *)
theory Md5
  imports MicroTar
begin

unbundle bit_operations_syntax

text \<open>
  \<^verbatim>\<open>xengine/util/md5.c\<close>: the digest that identifies a model. Bytes and 32-bit words wrap as in
  the code; lengths are \<^verbatim>\<open>size_t\<close>, 64 bits, cut down to 32 where the code stores them.
\<close>

definition md5_k :: "u32 list" where
  "md5_k =
     [0xd76aa478, 0xe8c7b756, 0x242070db, 0xc1bdceee, 0xf57c0faf, 0x4787c62a, 0xa8304613, 0xfd469501,
      0x698098d8, 0x8b44f7af, 0xffff5bb1, 0x895cd7be, 0x6b901122, 0xfd987193, 0xa679438e, 0x49b40821,
      0xf61e2562, 0xc040b340, 0x265e5a51, 0xe9b6c7aa, 0xd62f105d, 0x02441453, 0xd8a1e681, 0xe7d3fbc8,
      0x21e1cde6, 0xc33707d6, 0xf4d50d87, 0x455a14ed, 0xa9e3e905, 0xfcefa3f8, 0x676f02d9, 0x8d2a4c8a,
      0xfffa3942, 0x8771f681, 0x6d9d6122, 0xfde5380c, 0xa4beea44, 0x4bdecfa9, 0xf6bb4b60, 0xbebfbc70,
      0x289b7ec6, 0xeaa127fa, 0xd4ef3085, 0x04881d05, 0xd9d4d039, 0xe6db99e5, 0x1fa27cf8, 0xc4ac5665,
      0xf4292244, 0x432aff97, 0xab9423a7, 0xfc93a039, 0x655b59c3, 0x8f0ccc92, 0xffeff47d, 0x85845dd1,
      0x6fa87e4f, 0xfe2ce6e0, 0xa3014314, 0x4e0811a1, 0xf7537e82, 0xbd3af235, 0x2ad7d2bb, 0xeb86d391]"

definition md5_r :: "nat list" where
  "md5_r =
     [7,  12, 17, 22, 7,  12, 17, 22, 7,  12, 17, 22, 7,  12, 17, 22, 5,  9,  14, 20, 5,  9,
      14, 20, 5,  9,  14, 20, 5,  9,  14, 20, 4,  11, 16, 23, 4,  11, 16, 23, 4,  11, 16, 23,
      4,  11, 16, 23, 6,  10, 15, 21, 6,  10, 15, 21, 6,  10, 15, 21, 6,  10, 15, 21]"

definition LEFTROTATE :: "u32 \<Rightarrow> nat \<Rightarrow> u32" where
  "LEFTROTATE x c = push_bit c x OR drop_bit (32 - c) x"

definition to_bytes :: "u32 \<Rightarrow> octets" where
  "to_bytes val = [ucast val, ucast (drop_bit 8 val), ucast (drop_bit 16 val), ucast (drop_bit 24 val)]"

definition to_int32 :: "octets \<Rightarrow> u32" where
  "to_int32 bs = ucast (bs ! 0) OR push_bit 8 (ucast (bs ! 1)) OR push_bit 16 (ucast (bs ! 2))
     OR push_bit 24 (ucast (bs ! 3))"

text \<open>The search for the padded length runs over at most 64 values.\<close>

function pad_from :: "nat \<Rightarrow> nat" where
  "pad_from n = (if n mod 64 = 56 then n else pad_from (Suc n))"
  by pat_completeness auto

termination pad_from
proof (relation "measure (\<lambda>n. if n mod 64 \<le> 56 then 56 - n mod 64 else 120 - n mod 64)")
  show "(Suc n, n) \<in> measure (\<lambda>n. if n mod 64 \<le> 56 then 56 - n mod 64 else 120 - n mod 64)"
    if "n mod 64 \<noteq> 56" for n :: nat
  proof -
    have "n mod 64 < 64" by simp
    moreover have "Suc n mod 64 = (if n mod 64 = 63 then 0 else Suc (n mod 64))"
      by (simp add: mod_Suc)
    ultimately show ?thesis using that by auto
  qed
qed simp

declare pad_from.simps [simp del]

definition new_len :: "nat \<Rightarrow> nat" where
  "new_len initial_len = pad_from (initial_len + 1)"

definition md5_message :: "octets \<Rightarrow> octets" where
  "md5_message msg =
     msg @ [0x80] @ replicate (new_len (length msg) - (length msg + 1)) 0
       @ to_bytes (of_nat (length msg * 8)) @ to_bytes (of_nat (length msg div 2 ^ 29))"

type_synonym md5_state = "u32 \<times> u32 \<times> u32 \<times> u32"

definition md5_mix :: "nat \<Rightarrow> u32 \<Rightarrow> u32 \<Rightarrow> u32 \<Rightarrow> u32 \<times> nat" where
  "md5_mix i b c d =
     (if i < 16 then ((b AND c) OR (NOT b AND d), i)
      else if i < 32 then ((d AND b) OR (NOT d AND c), (5 * i + 1) mod 16)
      else if i < 48 then (b XOR c XOR d, (3 * i + 5) mod 16)
      else (c XOR (b OR NOT d), (7 * i) mod 16))"

definition md5_round :: "u32 list \<Rightarrow> nat \<Rightarrow> md5_state \<Rightarrow> md5_state" where
  "md5_round w i = (\<lambda>(a, b, c, d).
     let (f, g) = md5_mix i b c d
     in (d, b + LEFTROTATE (a + f + md5_k ! i + w ! g) (md5_r ! i), b, c))"

definition md5_words :: "octets \<Rightarrow> u32 list" where
  "md5_words ch = map (\<lambda>i. to_int32 (drop (i * 4) ch)) [0..<16]"

definition md5_chunk :: "octets \<Rightarrow> md5_state \<Rightarrow> md5_state" where
  "md5_chunk ch = (\<lambda>(h0, h1, h2, h3).
     let (a, b, c, d) = fold (md5_round (md5_words ch)) [0..<64] (h0, h1, h2, h3)
     in (h0 + a, h1 + b, h2 + c, h3 + d))"

definition md5_init :: md5_state where
  "md5_init = (0x67452301, 0xefcdab89, 0x98badcfe, 0x10325476)"

definition md5 :: "octets \<Rightarrow> octets" where
  "md5 msg =
     (let m = md5_message msg;
          (h0, h1, h2, h3) = fold (\<lambda>k. md5_chunk (take 64 (drop (64 * k) m))) [0..<length m div 64] md5_init
      in to_bytes h0 @ to_bytes h1 @ to_bytes h2 @ to_bytes h3)"

definition hex_digit :: "nat \<Rightarrow> char" where
  "hex_digit n = ''0123456789abcdef'' ! n"

definition md5str :: "octets \<Rightarrow> string" where
  "md5str digest = concat (map (\<lambda>b. [hex_digit (unat b div 16), hex_digit (unat b mod 16)]) digest)"

section \<open>The bytes of a word and the padding\<close>

lemma to_int32_to_bytes [simp]: "to_int32 (to_bytes w) = w"
proof (rule bit_word_eqI)
  fix n assume n: "n < LENGTH(32)"
  consider "n < 8" | "8 \<le> n" "n < 16" | "16 \<le> n" "n < 24" | "24 \<le> n" "n < 32"
    using n by (simp, linarith)
  then show "bit (to_int32 (to_bytes w)) n = bit w n"
    by cases (auto simp: to_int32_def to_bytes_def bit_or_iff bit_push_bit_iff bit_drop_bit_eq
        bit_ucast_iff)
qed

lemma length_to_bytes [simp]: "length (to_bytes w) = 4"
  by (simp add: to_bytes_def)

lemma pad_from_least: "n \<le> pad_from n \<and> pad_from n mod 64 = 56 \<and> pad_from n < n + 64"
proof (induction n rule: pad_from.induct)
  case (1 n)
  show ?case
  proof (cases "n mod 64 = 56")
    case True
    then show ?thesis by (subst pad_from.simps, subst (2) pad_from.simps, subst (3) pad_from.simps) simp
  next
    case False
    define q where "q = pad_from (Suc n)"
    have eq: "pad_from n = q" using False by (subst pad_from.simps) (simp add: q_def)
    have q: "Suc n \<le> q" "q mod 64 = 56" "q < Suc n + 64" using 1 [OF False] by (simp_all add: q_def)
    have "q \<noteq> n + 64" using q(2) False by auto
    then show ?thesis using q unfolding eq by simp
  qed
qed

lemma md5_message_blocks: "64 dvd length (md5_message msg)"
proof -
  have "length msg + 1 \<le> new_len (length msg)" "new_len (length msg) mod 64 = 56"
    using pad_from_least [of "length msg + 1"] by (simp_all add: new_len_def)
  then have "length (md5_message msg) = new_len (length msg) + 8"
    by (simp add: md5_message_def)
  then show ?thesis
    using \<open>new_len (length msg) mod 64 = 56\<close> by (simp add: dvd_eq_mod_eq_0 mod_add_left_eq [symmetric])
qed

lemma length_md5: "length (md5 msg) = 16"
  by (simp add: md5_def Let_def split: prod.split)

section \<open>The printed digest\<close>

lemma hex_digit_inj: "i < 16 \<Longrightarrow> j < 16 \<Longrightarrow> hex_digit i = hex_digit j \<Longrightarrow> i = j"
proof -
  assume "i < 16" "j < 16" "hex_digit i = hex_digit j"
  moreover have "distinct ''0123456789abcdef''" "length ''0123456789abcdef'' = 16" by simp_all
  ultimately show ?thesis
    unfolding hex_digit_def using nth_eq_iff_index_eq [of "''0123456789abcdef''" i j] by simp
qed

lemma md5str_Cons:
  "md5str (b # bs) = hex_digit (unat b div 16) # hex_digit (unat b mod 16) # md5str bs"
  by (simp add: md5str_def)

text \<open>Two digests print alike only when they are the same.\<close>

lemma md5str_inj: "md5str d = md5str d' \<Longrightarrow> d = d'"
proof (induction d arbitrary: d')
  case Nil
  then show ?case by (cases d') (simp_all add: md5str_def)
next
  case (Cons b bs)
  then obtain c cs where d': "d' = c # cs" by (cases d') (simp_all add: md5str_def)
  have "unat b < 2 ^ 8" "unat c < 2 ^ 8"
    using unsigned_less [of b] unsigned_less [of c] by simp_all
  then have lt: "unat b div 16 < 16" "unat c div 16 < 16"
    by (simp_all add: less_mult_imp_div_less)
  have "hex_digit (unat b div 16) = hex_digit (unat c div 16)"
    "hex_digit (unat b mod 16) = hex_digit (unat c mod 16)" "md5str bs = md5str cs"
    using Cons.prems unfolding d' md5str_Cons by simp_all
  then have "unat b div 16 = unat c div 16" "unat b mod 16 = unat c mod 16" "bs = cs"
    using hex_digit_inj lt Cons.IH by auto
  then have "unat b = unat c" by (metis mult_div_mod_eq)
  then show ?case using \<open>bs = cs\<close> d' by (simp add: unsigned_word_eqI)
qed

lemma length_md5str: "length (md5str d) = 2 * length d"
  by (induction d) (simp_all add: md5str_Cons, simp add: md5str_def)

end
