(* ===== verification/NetConfig.thy ===== *)
theory NetConfig
  imports MicroTar
begin

text \<open>
  The configurations of models, sessions and algorithms that a package gives and the engine reads
  (\<^verbatim>\<open>xengine/nrhal_define.h\<close>, \<^verbatim>\<open>nrnn_model.h\<close>, \<^verbatim>\<open>nrnn_session.h\<close>, \<^verbatim>\<open>nr_model_mgr.h\<close>), and the names
  they have in a package.
\<close>

section \<open>Configurations\<close>

datatype vendor_type = VendorUnknown | SNPE | QNN | MNN | ROCKCHIP | ARTOSYN | XREAL | TENSORRT

datatype runtime_type = RuntimeUnknown | RuntimeCPU | RuntimeGPU | RuntimeDSP | RuntimeAIP | RuntimeNPU

datatype precision_mode = PrecisionUnknown | FLOAT32 | FLOAT16 | INT8 | INT16

definition ConvertVendorType :: "string \<Rightarrow> vendor_type" where
  "ConvertVendorType mode =
     (if mode = ''snpe'' then SNPE else if mode = ''qnn'' then QNN else if mode = ''mnn'' then MNN
      else if mode = ''rockchip'' then ROCKCHIP else if mode = ''artosyn'' then ARTOSYN
      else VendorUnknown)"

definition ConvertPrecisionMode :: "string \<Rightarrow> precision_mode" where
  "ConvertPrecisionMode mode =
     (if mode = ''float32'' then FLOAT32 else if mode = ''float16'' then FLOAT16
      else if mode = ''int8'' then INT8 else if mode = ''int16'' then INT16 else PrecisionUnknown)"

definition ConvertRuntimeType :: "string \<Rightarrow> runtime_type" where
  "ConvertRuntimeType mode =
     (if mode = ''cpu'' then RuntimeCPU else if mode = ''gpu'' then RuntimeGPU
      else if mode = ''dsp'' then RuntimeDSP else if mode = ''aip'' then RuntimeAIP
      else if mode = ''npu'' then RuntimeNPU else RuntimeUnknown)"

text \<open>\<^verbatim>\<open>model_mem\<close> is \<open>None\<close> for the null pointer.\<close>

record model_config =
  model_mem :: "octets option"
  model_size :: nat
  mc_vendor :: vendor_type
  dont_batch :: bool

record session_config =
  sc_batch :: nat
  sc_precision :: precision_mode
  threads_num :: nat
  runtime_order :: "runtime_type list"
  input_layername :: "string list"
  output_layername :: "string list"
  input_tensorname :: "string list"
  output_tensorname :: "string list"
  fusion_process_json :: octets

record netalgo_config =
  algo_name :: string
  net_unique_id :: string
  has_param :: bool
  algo_param :: string

record logicalgo_config =
  lc_files :: nat
  lc_has_param :: bool
  lc_algo_param :: string

definition default_model :: model_config where
  "default_model = \<lparr> model_mem = None, model_size = 0, mc_vendor = VendorUnknown, dont_batch = False \<rparr>"

definition default_session :: session_config where
  "default_session = \<lparr> sc_batch = 1, sc_precision = PrecisionUnknown, threads_num = 1, runtime_order = [],
     input_layername = [], output_layername = [], input_tensorname = [], output_tensorname = [],
     fusion_process_json = [] \<rparr>"

definition default_netalgo :: netalgo_config where
  "default_netalgo = \<lparr> algo_name = [], net_unique_id = [], has_param = False, algo_param = [] \<rparr>"

type_synonym node_config = "model_config \<times> session_config \<times> netalgo_config"

definition default_node :: node_config where
  "default_node = (default_model, default_session, default_netalgo)"

record global_shared_config =
  netalgo_model_name :: "string list"
  netalgo_configs :: "node_config list"
  logicalgo_name :: "string list"
  logicalgo_configs :: "logicalgo_config list"

definition empty_shared :: global_shared_config where
  "empty_shared = \<lparr> netalgo_model_name = [], netalgo_configs = [], logicalgo_name = [], logicalgo_configs = [] \<rparr>"

end
