(* ===== verification/ModelArchive.thy ===== *)
theory ModelArchive
  imports Aes Md5 Plugin NetConfig
begin

text \<open>
  The package of the models and graphs (\<^verbatim>\<open>xengine/util/analysis_tar.cpp\<close>,
  \<^verbatim>\<open>models_load.cpp\<close>): it is found by name or read from a file, decrypted, read as a tar
  archive, its \<^verbatim>\<open>global_shared_config.json\<close> turned into the models, its \<^verbatim>\<open>.txt\<close> files into the
  pipelines the plugin chooses from.

  jsoncpp, \<^verbatim>\<open>absl::StrSplit\<close> and \<^verbatim>\<open>absl::StrContains\<close> are parameters; a JSON accessor gives
  \<open>None\<close> where jsoncpp throws. AES under a key is the parameter of theory Aes. The content of
  uninitialised memory is a parameter too. A result is \<open>Val\<close> of a value, an exception that
  leaves the function, undefined behaviour, or a search of the archive whose fuel ran out.
\<close>

datatype 'a run = Val 'a | Throws | Undef | Hangs

definition run_bind :: "'a run \<Rightarrow> ('a \<Rightarrow> 'b run) \<Rightarrow> 'b run" where
  "run_bind r f = (case r of Val x \<Rightarrow> f x | Throws \<Rightarrow> Throws | Undef \<Rightarrow> Undef | Hangs \<Rightarrow> Hangs)"

lemma run_bind_simps [simp]:
  "run_bind (Val x) f = f x" "run_bind Throws f = Throws" "run_bind Undef f = Undef" "run_bind Hangs f = Hangs"
  by (simp_all add: run_bind_def)

definition or_throw :: "'a option \<Rightarrow> 'a run" where
  "or_throw v = (case v of Some x \<Rightarrow> Val x | None \<Rightarrow> Throws)"

definition or_undef :: "'a option \<Rightarrow> 'a run" where
  "or_undef v = (case v of Some x \<Rightarrow> Val x | None \<Rightarrow> Undef)"

lemma or_simps [simp]: "or_throw (Some x) = Val x" "or_undef (Some x) = Val x"
  by (simp_all add: or_throw_def or_undef_def)

section \<open>The state of the analysis\<close>

text \<open>
  A pipeline adds to what the plugin reads of it (theory Plugin) the graph, the mode and
  orientation it is for, and the shared configuration, an index into the configurations made so
  far: all pipelines of a package share one object.
\<close>

record archive_pipeline = pipeline_config +
  graph_config :: octets
  shared_config :: nat
  bind_mono_bino :: string
  bind_sensor_orientation :: string

record analysis_tar =
  m_config :: "archive_pipeline list"
  m_global_shared_config :: "nat option"
  shared_store :: "global_shared_config list"

definition analysis_new :: analysis_tar where
  "analysis_new = \<lparr> m_config = [], m_global_shared_config = None, shared_store = [] \<rparr>"

section \<open>Parameters\<close>

record 'j archive_lib =
  js_parse :: "octets \<Rightarrow> 'j option"
  js_is_member :: "'j \<Rightarrow> string \<Rightarrow> bool option"
  js_get :: "'j \<Rightarrow> string \<Rightarrow> 'j option"
  js_is_object :: "'j \<Rightarrow> bool"
  js_is_array :: "'j \<Rightarrow> bool"
  js_is_string :: "'j \<Rightarrow> bool"
  js_is_uint :: "'j \<Rightarrow> bool"
  js_items :: "'j \<Rightarrow> 'j list"
  js_as_string :: "'j \<Rightarrow> string option"
  js_as_cstring :: "'j \<Rightarrow> string option"
  js_as_uint :: "'j \<Rightarrow> nat option"
  js_write :: "'j \<Rightarrow> string"
  al_split :: "string \<Rightarrow> char \<Rightarrow> string list"
  al_contains :: "string \<Rightarrow> string \<Rightarrow> bool"
  al_aes_dec :: "bytes \<Rightarrow> block_cipher"
  al_malloc :: "nat \<Rightarrow> octets"
  al_stack_key :: octets

definition chars_of :: "octets \<Rightarrow> string" where
  "chars_of bs = map (\<lambda>b. char_of (unat b)) bs"

definition octets_of :: "string \<Rightarrow> octets" where
  "octets_of s = map of_char s"

text \<open>\<^verbatim>\<open>root.isMember(k) && P(root[k])\<close>.\<close>

definition member_that ::
  "'j archive_lib \<Rightarrow> ('j \<Rightarrow> bool) \<Rightarrow> 'j \<Rightarrow> string \<Rightarrow> 'j option run" where
  "member_that L P v k =
     run_bind (or_throw (js_is_member L v k)) (\<lambda>m.
       if \<not> m then Val None
       else run_bind (or_throw (js_get L v k)) (\<lambda>w. Val (if P w then Some w else None)))"

section \<open>Reading the archive\<close>

text \<open>\<^verbatim>\<open>mtar_find\<close> and \<^verbatim>\<open>mtar_mem_read_data\<close>, whose answer is ignored: what matters is the pointer.\<close>

definition find_run :: "nat \<Rightarrow> octets \<Rightarrow> mtar \<Rightarrow> (mtar_header option \<times> mtar) run" where
  "find_run fuel name tar =
     (case mtar_find fuel name tar of
        None \<Rightarrow> Hangs
      | Some None \<Rightarrow> Undef
      | Some (Some (Inl e, t)) \<Rightarrow> Val (None, t)
      | Some (Some (Inr h, t)) \<Rightarrow> Val (Some h, t))"

definition read_run :: "mtar_header \<Rightarrow> mtar \<Rightarrow> (octets option \<times> mtar) run" where
  "read_run h tar =
     run_bind (or_undef (h_size h)) (\<lambda>n.
       run_bind (or_undef (mtar_mem_read_data tar n)) (\<lambda>r. Val (snd r)))"

text \<open>
  What the configuration needs of an archive: to find a file and to read the file found. The
  functions below are written over these two operations, which the code has on \<^verbatim>\<open>mtar_t\<close>
  (\<open>tar_ops\<close>); on a map from names to contents (\<open>map_ops\<close>) they are their own specification.
\<close>

record ('t, 'h) archive_ops =
  op_find :: "octets \<Rightarrow> 't \<Rightarrow> ('h option \<times> 't) run"
  op_read :: "'h \<Rightarrow> 't \<Rightarrow> (octets option \<times> 't) run"

definition tar_ops :: "nat \<Rightarrow> (mtar, mtar_header) archive_ops" where
  "tar_ops fuel = \<lparr> op_find = find_run fuel, op_read = read_run \<rparr>"

definition map_ops :: "(octets \<Rightarrow> octets option) \<Rightarrow> (unit, octets) archive_ops" where
  "map_ops files = \<lparr> op_find = (\<lambda>name t. Val (files name, t)), op_read = (\<lambda>d t. Val (Some d, t)) \<rparr>"

section \<open>The key of a package\<close>

text \<open>The words of a string as \<^verbatim>\<open>ss >> p\<close> reads them, and \<^verbatim>\<open>std::stoi\<close> in base 16.\<close>

definition is_blank :: "char \<Rightarrow> bool" where
  "is_blank c \<longleftrightarrow> c = CHR '' '' \<or> (9 \<le> (of_char c :: nat) \<and> (of_char c :: nat) \<le> 13)"

function words_of :: "string \<Rightarrow> string list" where
  "words_of s =
     (let s' = dropWhile is_blank s
      in if s' = [] then []
         else takeWhile (\<lambda>c. \<not> is_blank c) s' # words_of (dropWhile (\<lambda>c. \<not> is_blank c) s'))"
  by pat_completeness auto

termination words_of
proof (relation "measure length")
  fix s s' :: string
  assume s': "s' = dropWhile is_blank s" "s' \<noteq> []"
  obtain c cs where c: "s' = c # cs" using s'(2) by (cases s') auto
  have "c = hd (dropWhile is_blank s)" using c s'(1) by (metis list.sel(1))
  then have "\<not> is_blank c" using hd_dropWhile [of is_blank s] s' by simp
  then have "length (dropWhile (\<lambda>c. \<not> is_blank c) s') < length s'"
    using length_dropWhile_le [of "\<lambda>c. \<not> is_blank c" cs] by (simp add: c)
  also have "\<dots> \<le> length s" by (simp add: s'(1) length_dropWhile_le)
  finally show "(dropWhile (\<lambda>c. \<not> is_blank c) s', s) \<in> measure length" by simp
qed simp

declare words_of.simps [simp del]

definition hex_value :: "char \<Rightarrow> nat option" where
  "hex_value c =
     (let n = of_char c :: nat
      in if 48 \<le> n \<and> n \<le> 57 then Some (n - 48)
         else if 97 \<le> n \<and> n \<le> 102 then Some (n - 87)
         else if 65 \<le> n \<and> n \<le> 70 then Some (n - 55) else None)"

definition hex_number :: "string \<Rightarrow> nat" where
  "hex_number ds = foldl (\<lambda>acc c. 16 * acc + (case hex_value c of Some d \<Rightarrow> d | None \<Rightarrow> 0)) 0 ds"

definition stoi16 :: "string \<Rightarrow> int option" where
  "stoi16 s =
     (let s1 = dropWhile is_blank s;
          negative = (s1 \<noteq> [] \<and> hd s1 = CHR ''-'');
          s2 = (if s1 \<noteq> [] \<and> (hd s1 = CHR ''-'' \<or> hd s1 = CHR ''+'') then tl s1 else s1);
          s3 = (if take 2 s2 \<in> {''0x'', ''0X''} \<and> (\<exists>c\<in>set (take 1 (drop 2 s2)). hex_value c \<noteq> None)
                then drop 2 s2 else s2);
          ds = takeWhile (\<lambda>c. hex_value c \<noteq> None) s3;
          v = (if negative then - int (hex_number ds) else int (hex_number ds))
      in if ds = [] \<or> v < - (2 ^ 31) \<or> v \<ge> 2 ^ 31 then None else Some v)"

text \<open>Each word is a byte of the key; a 33rd one is written past the array.\<close>

fun decode_words :: "octets \<Rightarrow> nat \<Rightarrow> string list \<Rightarrow> octets run" where
  "decode_words keybuf i [] = Val keybuf"
| "decode_words keybuf i (p # ps) =
     run_bind (or_throw (stoi16 p)) (\<lambda>v.
       if i < length keybuf then decode_words (keybuf[i := of_int v]) (Suc i) ps else Undef)"

definition DecodeAesKey :: "string \<Rightarrow> octets \<Rightarrow> octets run" where
  "DecodeAesKey hexcode keybuf = decode_words keybuf 0 (words_of hexcode)"

text \<open>The decrypted buffer, as long as the data, and the size of the plain data in it.\<close>

definition DecodeAes :: "'j archive_lib \<Rightarrow> octets option \<Rightarrow> string \<Rightarrow> (octets \<times> nat) run" where
  "DecodeAes L p key =
     run_bind (DecodeAesKey key (al_stack_key L)) (\<lambda>rand_key.
       run_bind (or_undef (setKey rand_key 256 aes_new)) (\<lambda>aes.
         run_bind (or_undef p) (\<lambda>data.
           or_undef (decryptBuf (al_aes_dec L (myKey aes)) data (al_malloc L (length data))))))"

section \<open>The configuration of a network\<close>

text \<open>Reached by no caller; the files it makes room for are never filled.\<close>

definition GenerateLogicAlgoConfig :: "'j archive_lib \<Rightarrow> 'j \<Rightarrow> logicalgo_config \<Rightarrow> (bool \<times> logicalgo_config) run" where
  "GenerateLogicAlgoConfig L v config =
     run_bind (member_that L (js_is_array L) v ''files'') (\<lambda>files.
       let c1 = (case files of Some w \<Rightarrow> config\<lparr> lc_files := length (js_items L w) \<rparr> | None \<Rightarrow> config)
       in run_bind (member_that L (js_is_object L) v ''params'') (\<lambda>params.
            Val (True, case params of
                         Some w \<Rightarrow> c1\<lparr> lc_has_param := True, lc_algo_param := js_write L w \<rparr> | None \<Rightarrow> c1)))"

definition load_model ::
  "'j archive_lib \<Rightarrow> ('t, 'h) archive_ops \<Rightarrow> 'j \<Rightarrow> 't \<Rightarrow> ((octets \<times> nat) option \<times> 't) run" where
  "load_model L A model_config tar =
     run_bind (or_throw (js_get L model_config ''file_name'')) (\<lambda>fj.
     run_bind (or_throw (js_as_cstring L fj)) (\<lambda>file_name.
     run_bind (op_find A (octets_of file_name) tar) (\<lambda>(found, t1).
       case found of
         None \<Rightarrow> Val (None, t1)
       | Some h \<Rightarrow>
           run_bind (member_that L (js_is_string L) model_config ''aes_key'') (\<lambda>key.
             case key of
               Some kj \<Rightarrow>
                 run_bind (op_read A h t1) (\<lambda>(p, t2).
                 run_bind (or_throw (js_as_string L kj)) (\<lambda>k.
                 run_bind (DecodeAes L p k) (\<lambda>m. Val (Some m, t2))))
             | None \<Rightarrow>
                 run_bind (op_read A h t1) (\<lambda>(p, t2).
                 run_bind (or_undef p) (\<lambda>data. Val (Some (data, length data), t2)))))))"

text \<open>The identity of a model is the digest of its bytes.\<close>

definition GenerateModelConfig ::
  "'j archive_lib \<Rightarrow> ('t, 'h) archive_ops \<Rightarrow> 'j \<Rightarrow> 't \<Rightarrow> model_config \<Rightarrow> netalgo_config
     \<Rightarrow> ((model_config \<times> netalgo_config) option \<times> 't) run" where
  "GenerateModelConfig L A node tar config config1 =
     run_bind (member_that L (js_is_object L) node ''model_config'') (\<lambda>mc.
       case mc of
         None \<Rightarrow> Val (None, tar)
       | Some model_config \<Rightarrow>
           run_bind (member_that L (\<lambda>_. True) model_config ''vendor'') (\<lambda>v.
             case v of
               None \<Rightarrow> Val (None, tar)
             | Some vj \<Rightarrow>
                 run_bind (or_throw (js_as_string L vj)) (\<lambda>vendor.
                 run_bind (load_model L A model_config tar) (\<lambda>(m, t1).
                   case m of
                     None \<Rightarrow> Val (None, t1)
                   | Some (mem, n) \<Rightarrow>
                       run_bind (member_that L (js_is_uint L) model_config ''dont_batch'') (\<lambda>dj.
                         let dont = (case dj of Some w \<Rightarrow> js_as_uint L w = Some 1 | None \<Rightarrow> False);
                             c = config\<lparr> mc_vendor := ConvertVendorType vendor, model_mem := Some mem,
                                         model_size := n, dont_batch := dont_batch config \<or> dont \<rparr>
                         in Val (Some (c, config1\<lparr> net_unique_id := md5str (md5 (take n mem)) \<rparr>), t1))))))"

fun all_cstrings :: "'j archive_lib \<Rightarrow> 'j list \<Rightarrow> string list run" where
  "all_cstrings L [] = Val []"
| "all_cstrings L (v # vs) =
     run_bind (or_throw (js_as_cstring L v)) (\<lambda>s. run_bind (all_cstrings L vs) (\<lambda>ss. Val (s # ss)))"

text \<open>An optional array of names.\<close>

definition layer_names :: "'j archive_lib \<Rightarrow> 'j \<Rightarrow> string \<Rightarrow> string list \<Rightarrow> string list run" where
  "layer_names L session k old =
     run_bind (member_that L (js_is_array L) session k) (\<lambda>w.
       case w of None \<Rightarrow> Val old | Some v \<Rightarrow> all_cstrings L (js_items L v))"

definition fusion_json ::
  "'j archive_lib \<Rightarrow> ('t, 'h) archive_ops \<Rightarrow> 'j \<Rightarrow> 't \<Rightarrow> (octets option \<times> 't) run" where
  "fusion_json L A fusion tar =
     run_bind (member_that L (\<lambda>_. True) fusion ''json_config_file'') (\<lambda>fj.
       case fj of
         None \<Rightarrow> Val (None, tar)
       | Some j \<Rightarrow>
           run_bind (or_throw (js_as_cstring L j)) (\<lambda>name.
           run_bind (op_find A (octets_of name) tar) (\<lambda>(found, t1).
             case found of
               None \<Rightarrow> Val (None, t1)
             | Some h \<Rightarrow> run_bind (op_read A h t1) (\<lambda>(p, t2). run_bind (or_undef p) (\<lambda>d. Val (Some d, t2))))))"

definition GenerateSessionConfig ::
  "'j archive_lib \<Rightarrow> ('t, 'h) archive_ops \<Rightarrow> 'j \<Rightarrow> 't \<Rightarrow> session_config \<Rightarrow> (session_config option \<times> 't) run" where
  "GenerateSessionConfig L A node tar config =
     run_bind (member_that L (js_is_object L) node ''session_config'') (\<lambda>sc.
       case sc of
         None \<Rightarrow> Val (None, tar)
       | Some session \<Rightarrow>
           run_bind (or_throw (js_get L session ''batch'')) (\<lambda>bj.
           run_bind (or_throw (js_as_uint L bj)) (\<lambda>batch.
           run_bind (member_that L (\<lambda>_. True) session ''runtime'') (\<lambda>rj.
             case rj of
               None \<Rightarrow> Val (None, tar)
             | Some r \<Rightarrow>
           run_bind (or_throw (js_as_string L r)) (\<lambda>runtime.
           run_bind (member_that L (\<lambda>_. True) session ''precision'') (\<lambda>pj.
           run_bind (case pj of None \<Rightarrow> Val (sc_precision config)
                     | Some p \<Rightarrow> run_bind (or_throw (js_as_string L p)) (\<lambda>s. Val (ConvertPrecisionMode s))) (\<lambda>prec.
           run_bind (member_that L (\<lambda>_. True) session ''thread_num'') (\<lambda>tj.
           run_bind (case tj of None \<Rightarrow> Val (threads_num config) | Some w \<Rightarrow> or_throw (js_as_uint L w)) (\<lambda>threads.
           run_bind (layer_names L session ''input_layers'' (input_layername config)) (\<lambda>il.
           run_bind (layer_names L session ''output_layers'' (output_layername config)) (\<lambda>ol.
           run_bind (layer_names L session ''input_tensors'' (input_tensorname config)) (\<lambda>it.
           run_bind (layer_names L session ''output_tensors'' (output_tensorname config)) (\<lambda>ot.
             let c = config\<lparr> sc_batch := batch, runtime_order := runtime_order config @ [ConvertRuntimeType runtime],
                             sc_precision := prec, threads_num := threads, input_layername := il,
                             output_layername := ol, input_tensorname := it, output_tensorname := ot \<rparr>
             in run_bind (member_that L (js_is_object L) session ''fusion_process'') (\<lambda>fj.
                  case fj of
                    None \<Rightarrow> Val (Some c, tar)
                  | Some fusion \<Rightarrow>
                      run_bind (fusion_json L A fusion tar) (\<lambda>(d, t1).
                        case d of None \<Rightarrow> Val (None, t1)
                        | Some json \<Rightarrow> Val (Some (c\<lparr> fusion_process_json := json \<rparr>), t1))))))))))))))))"

definition GenerateNetalgoConfig :: "'j archive_lib \<Rightarrow> 'j \<Rightarrow> netalgo_config \<Rightarrow> netalgo_config run" where
  "GenerateNetalgoConfig L node config =
     run_bind (member_that L (js_is_object L) node ''netalgo_config'') (\<lambda>nc.
       case nc of
         None \<Rightarrow> Val config
       | Some netalgo \<Rightarrow>
           run_bind (or_throw (js_get L netalgo ''name'')) (\<lambda>nj.
           run_bind (or_throw (js_as_cstring L nj)) (\<lambda>name.
           run_bind (member_that L (js_is_object L) netalgo ''params'') (\<lambda>pj.
             let c = config\<lparr> algo_name := name \<rparr>
             in Val (case pj of None \<Rightarrow> c | Some w \<Rightarrow> c\<lparr> has_param := True, algo_param := js_write L w \<rparr>)))))"

section \<open>The shared configuration\<close>

text \<open>One model of the list: its name, and its node when the manager has an object of that name.\<close>

definition generate_node ::
  "'j archive_lib \<Rightarrow> ('t, 'h) archive_ops \<Rightarrow> 'j \<Rightarrow> 't \<Rightarrow> (node_config option \<times> 't) run" where
  "generate_node L A node tar =
     run_bind (GenerateNetalgoConfig L node default_netalgo) (\<lambda>na.
     run_bind (GenerateSessionConfig L A node tar default_session) (\<lambda>(sc, t1).
       case sc of
         None \<Rightarrow> Val (None, t1)
       | Some s \<Rightarrow>
           run_bind (GenerateModelConfig L A node t1 default_model na) (\<lambda>(mc, t2).
             case mc of None \<Rightarrow> Val (None, t2) | Some (m, na') \<Rightarrow> Val (Some (m, s, na'), t2))))"

fun generate_nodes ::
  "'j archive_lib \<Rightarrow> ('t, 'h) archive_ops \<Rightarrow> 'j \<Rightarrow> 'j list \<Rightarrow> 't \<Rightarrow> ((string \<times> node_config) list option \<times> 't) run" where
  "generate_nodes L A models_mgr [] tar = Val (Some [], tar)"
| "generate_nodes L A models_mgr (v # vs) tar =
     run_bind (or_throw (js_as_string L v)) (\<lambda>name.
     run_bind (member_that L (js_is_object L) models_mgr name) (\<lambda>node.
     run_bind (case node of None \<Rightarrow> Val (Some default_node, tar) | Some nj \<Rightarrow> generate_node L A nj tar) (\<lambda>(n, t1).
       case n of
         None \<Rightarrow> Val (None, t1)
       | Some nc \<Rightarrow>
           run_bind (generate_nodes L A models_mgr vs t1) (\<lambda>(rest, t2).
             Val (map_option (\<lambda>ns. (name, nc) # ns) rest, t2)))))"

text \<open>
  \<open>None\<close> is the answer false; what was filled in until then is released by the caller.
\<close>

definition GenerateGlobalSharedConfig ::
  "'j archive_lib \<Rightarrow> ('t, 'h) archive_ops \<Rightarrow> 'j \<Rightarrow> 't \<Rightarrow> (global_shared_config option \<times> 't) run" where
  "GenerateGlobalSharedConfig L A v tar =
     run_bind (member_that L (js_is_object L) v ''models_mgr'') (\<lambda>mj.
       case mj of
         None \<Rightarrow> Val (None, tar)
       | Some models_mgr \<Rightarrow>
           run_bind (member_that L (js_is_array L) models_mgr ''models_name'') (\<lambda>nj.
             case nj of
               None \<Rightarrow> Val (None, tar)
             | Some names \<Rightarrow>
                 run_bind (generate_nodes L A models_mgr (js_items L names) tar) (\<lambda>(ns, t1).
                   Val (map_option (\<lambda>l. \<lparr> netalgo_model_name = map fst l, netalgo_configs = map snd l,
                                          logicalgo_name = [], logicalgo_configs = [] \<rparr>) ns, t1))))"

text \<open>The models are freed and everything cleared, in the object all pipelines share.\<close>

definition CleanGlobalSharedConfig :: "global_shared_config \<Rightarrow> global_shared_config" where
  "CleanGlobalSharedConfig c = empty_shared"

definition ReleaseCache :: "analysis_tar \<Rightarrow> analysis_tar" where
  "ReleaseCache a =
     (let a1 = a\<lparr> m_config := [] \<rparr>
      in case m_global_shared_config a of
           None \<Rightarrow> a1
         | Some i \<Rightarrow> a1\<lparr> m_global_shared_config := None,
                        shared_store := (shared_store a)[i := CleanGlobalSharedConfig (shared_store a ! i)] \<rparr>)"

section \<open>Analysis of a package\<close>

definition orientation_of :: "string \<Rightarrow> string" where
  "orientation_of glass =
     (if glass = ''flora'' then ''vertical'' else if glass = ''ella'' then ''horizontal''
      else if glass = ''gina'' then ''horizontal'' else [])"

text \<open>
  The pipeline of a graph file: the parts of its name tell the glass and the runtime; a name with
  fewer parts is read outside the vector.
\<close>

definition make_pipeline ::
  "'j archive_lib \<Rightarrow> string \<Rightarrow> octets \<Rightarrow> nat \<Rightarrow> archive_pipeline run" where
  "make_pipeline L name graph shared =
     (let graph_info = al_split L name CHR ''.''
      in if graph_info = [] then Undef
         else let parts = al_split L (graph_info ! 0) CHR ''_''
              in if length parts < 3 then Undef
                 else Val \<lparr> pipeline_name = name, framework_xgraph = True, bind_glass = parts ! 1,
                            bind_runtime = parts ! 2, graph_config = graph, shared_config = shared,
                            bind_mono_bino = (if al_contains L name ''mono'' then ''mono'' else ''bino''),
                            bind_sensor_orientation = orientation_of (parts ! 1) \<rparr>)"

fun add_pipelines ::
  "'j archive_lib \<Rightarrow> ('t, 'h) archive_ops \<Rightarrow> octets list \<Rightarrow> nat \<Rightarrow> 't \<Rightarrow> archive_pipeline list \<Rightarrow> (bool \<times> archive_pipeline list) run" where
  "add_pipelines L A [] shared tar configs = Val (True, configs)"
| "add_pipelines L A (name # names) shared tar configs =
     run_bind (op_find A name tar) (\<lambda>(found, t1).
       case found of
         None \<Rightarrow> add_pipelines L A names shared t1 configs
       | Some h \<Rightarrow>
           run_bind (op_read A h t1) (\<lambda>(p, t2).
             case p of
               None \<Rightarrow> Val (False, configs)
             | Some graph \<Rightarrow>
                 run_bind (make_pipeline L (chars_of name) graph shared) (\<lambda>c.
                   add_pipelines L A names shared t2 (configs @ [c]))))"

text \<open>The names a list holds after \<^verbatim>\<open>mtar_get_filtered_filenames\<close>, whose answer is ignored.\<close>

definition graph_names :: "nat \<Rightarrow> mtar \<Rightarrow> (octets list \<times> mtar) run" where
  "graph_names fuel tar =
     (case mtar_get_filtered_filenames fuel (Some (octets_of ''.txt'')) tar of
        None \<Rightarrow> Hangs
      | Some None \<Rightarrow> Undef
      | Some (Some (r, v, t)) \<Rightarrow> if vs_freed v \<and> vs_data v \<noteq> [] then Undef else Val (vs_data v, t))"

definition config_json_name :: octets where
  "config_json_name = octets_of ''global_shared_config.json''"

text \<open>After the configuration: nothing is kept of a failed one; otherwise the graphs are read.\<close>

definition analysis_tail ::
  "'j archive_lib \<Rightarrow> nat \<Rightarrow> nat \<Rightarrow> analysis_tar \<Rightarrow> global_shared_config option \<times> mtar \<Rightarrow> (bool \<times> analysis_tar) run" where
  "analysis_tail L fuel shared a = (\<lambda>(g, t4).
     case g of
       None \<Rightarrow> Val (False, a\<lparr> shared_store := (shared_store a)[shared := CleanGlobalSharedConfig empty_shared] \<rparr>)
     | Some config \<Rightarrow>
         let a1 = a\<lparr> shared_store := (shared_store a)[shared := config] \<rparr>
         in run_bind (graph_names fuel t4) (\<lambda>(names, t5).
            run_bind (add_pipelines L (tar_ops fuel) names shared t5 (m_config a1)) (\<lambda>(ok, configs).
              Val (ok, a1\<lparr> m_config := configs \<rparr>))))"

definition Analysis :: "'j archive_lib \<Rightarrow> nat \<Rightarrow> octets \<Rightarrow> analysis_tar \<Rightarrow> (bool \<times> analysis_tar) run" where
  "Analysis L fuel mem a0 =
     (let shared = length (shared_store a0);
          a = a0\<lparr> m_global_shared_config := Some shared, shared_store := shared_store a0 @ [empty_shared] \<rparr>
      in run_bind (or_undef (mtar_mem_open mem)) (\<lambda>(opened, t0).
         run_bind (or_undef (mtar_read_header t0)) (\<lambda>(hdr, t1).
           case hdr of
             Inl e \<Rightarrow> Val (False, a)
           | Inr h0 \<Rightarrow>
         run_bind (find_run fuel config_json_name t1) (\<lambda>(found, t2).
           case found of
             None \<Rightarrow> Val (False, a)
           | Some h \<Rightarrow>
         run_bind (read_run h t2) (\<lambda>(p, t3).
           case p of
             None \<Rightarrow> Val (False, a)
           | Some text \<Rightarrow>
               (case js_parse L text of
                  None \<Rightarrow> Val (False, a)
                | Some v \<Rightarrow>
                    run_bind (GenerateGlobalSharedConfig L (tar_ops fuel) v t3) (analysis_tail L fuel shared a)))))))"

section \<open>Finding the package\<close>

text \<open>The packages built into the library, generated with it: name, key, bytes.\<close>

record incbin_info =
  ib_name :: string
  ib_aeskey :: string
  ib_data :: octets

definition get_incbin_info :: "incbin_info list \<Rightarrow> string \<Rightarrow> incbin_info option" where
  "get_incbin_info infos name = find (\<lambda>i. ib_name i = name) infos"

definition analysis_decoded ::
  "'j archive_lib \<Rightarrow> nat \<Rightarrow> octets \<Rightarrow> string \<Rightarrow> analysis_tar \<Rightarrow> (bool \<times> analysis_tar) run" where
  "analysis_decoded L fuel data key a =
     run_bind (DecodeAes L (Some data) key) (\<lambda>(buf, n). Analysis L fuel (take n buf) a)"

definition TarMem ::
  "'j archive_lib \<Rightarrow> nat \<Rightarrow> incbin_info list \<Rightarrow> string \<Rightarrow> analysis_tar \<Rightarrow> (bool \<times> analysis_tar) run" where
  "TarMem L fuel infos incbin_name a =
     (case get_incbin_info infos incbin_name of
        None \<Rightarrow> Val (False, a)
      | Some info \<Rightarrow>
          if ib_aeskey info \<noteq> [] then analysis_decoded L fuel (ib_data info) (ib_aeskey info) a
          else Analysis L fuel (ib_data info) a)"

text \<open>The bytes of the file, \<open>None\<close> where it does not open; a short read is not noticed.\<close>

definition TarFile ::
  "'j archive_lib \<Rightarrow> nat \<Rightarrow> octets option \<Rightarrow> analysis_tar \<Rightarrow> (bool \<times> analysis_tar) run" where
  "TarFile L fuel file a = (case file of None \<Rightarrow> Val (False, a) | Some mem \<Rightarrow> Analysis L fuel mem a)"

definition TarFile_key ::
  "'j archive_lib \<Rightarrow> nat \<Rightarrow> octets option \<Rightarrow> string \<Rightarrow> analysis_tar \<Rightarrow> (bool \<times> analysis_tar) run" where
  "TarFile_key L fuel file key a =
     (case file of None \<Rightarrow> Val (False, a) | Some mem \<Rightarrow> analysis_decoded L fuel mem key a)"

section \<open>The archive is a map of files\<close>

text \<open>
  A computation over an archive agrees with one over the map: the same value, the same
  exception, and the archive still holds the files.
\<close>

definition agrees :: "('t \<Rightarrow> bool) \<Rightarrow> ('a \<times> 't) run \<Rightarrow> ('a \<times> unit) run \<Rightarrow> bool" where
  "agrees holds r r' \<longleftrightarrow>
     (case r of Val (x, t) \<Rightarrow> r' = Val (x, ()) \<and> holds t
      | Throws \<Rightarrow> r' = Throws | Undef \<Rightarrow> r' = Undef | Hangs \<Rightarrow> False)"

lemma agrees_simps [simp]:
  "agrees holds (Val (x, t)) r' \<longleftrightarrow> r' = Val (x, ()) \<and> holds t"
  "agrees holds Throws r' \<longleftrightarrow> r' = Throws" "agrees holds Undef r' \<longleftrightarrow> r' = Undef"
  "\<not> agrees holds Hangs r'"
  by (simp_all add: agrees_def)

lemma agrees_bind:
  assumes "agrees holds r r'"
    and "\<And>x t. holds t \<Longrightarrow> agrees holds (f (x, t)) (f' (x, ()))"
  shows "agrees holds (run_bind r f) (run_bind r' f')"
  using assms by (cases r) auto

text \<open>The steps that do not touch the archive do not hang.\<close>

definition halts :: "'a run \<Rightarrow> bool" where
  "halts r \<longleftrightarrow> r \<noteq> Hangs"

lemma agrees_pure:
  assumes "halts r" "\<And>x. r = Val x \<Longrightarrow> agrees holds (f x) (f' x)"
  shows "agrees holds (run_bind r f) (run_bind r f')"
  using assms by (cases r) (auto simp: halts_def)

lemma halts_Val [simp]: "halts (Val x)" "halts Throws" "halts Undef"
  by (simp_all add: halts_def)

lemma halts_or [simp]: "halts (or_throw v)" "halts (or_undef v)"
  by (cases v; simp add: or_throw_def or_undef_def)+

lemma halts_bind: "halts r \<Longrightarrow> (\<And>x. halts (f x)) \<Longrightarrow> halts (run_bind r f)"
  by (cases r) (auto simp: halts_def)

lemma halts_member [simp]: "halts (member_that L P v k)"
  unfolding member_that_def by (intro halts_bind) (auto intro: halts_bind)

lemma halts_cstrings [simp]: "halts (all_cstrings L vs)"
  by (induction vs) (auto intro!: halts_bind)

lemma halts_layers [simp]: "halts (layer_names L v k old)"
  unfolding layer_names_def by (intro halts_bind) (auto split: option.split)

lemma halts_netalgo [simp]: "halts (GenerateNetalgoConfig L node c)"
  unfolding GenerateNetalgoConfig_def
  by (intro halts_bind) (auto simp: Let_def intro!: halts_bind split: option.split)

lemma halts_words: "halts (decode_words kb i ps)"
  by (induction ps arbitrary: kb i) (auto intro!: halts_bind)

lemma halts_decode [simp]: "halts (DecodeAes L p k)"
  unfolding DecodeAes_def DecodeAesKey_def by (intro halts_bind halts_words halts_or)

locale archive_reader =
  fixes afind :: "octets \<Rightarrow> 't \<Rightarrow> ('h option \<times> 't) run"
    and aread :: "'h \<Rightarrow> 't \<Rightarrow> (octets option \<times> 't) run"
    and holds :: "'t \<Rightarrow> bool"
    and files :: "octets \<Rightarrow> octets option"
  assumes find_none: "holds t \<Longrightarrow> files name = None \<Longrightarrow> \<exists>t'. afind name t = Val (None, t') \<and> holds t'"
    and find_some: "holds t \<Longrightarrow> files name = Some xs \<Longrightarrow>
      \<exists>h t' t''. afind name t = Val (Some h, t') \<and> aread h t' = Val (Some xs, t'') \<and> holds t' \<and> holds t''"
begin

definition ops :: "('t, 'h) archive_ops" where
  "ops = \<lparr> op_find = afind, op_read = aread \<rparr>"

lemma find_agrees:
  assumes t: "holds t"
    and none: "\<And>t'. holds t' \<Longrightarrow> agrees holds (f (None, t')) (g (None, ()))"
    and some: "\<And>h xs t' t''. holds t' \<Longrightarrow> holds t'' \<Longrightarrow> files name = Some xs \<Longrightarrow> aread h t' = Val (Some xs, t'') \<Longrightarrow>
      agrees holds (f (Some h, t')) (g (Some xs, ()))"
  shows "agrees holds (run_bind (op_find ops name t) f) (run_bind (op_find (map_ops files) name ()) g)"
proof (cases "files name")
  case None
  then obtain t' where "afind name t = Val (None, t')" "holds t'" using find_none [OF t] by blast
  with None none show ?thesis by (simp add: ops_def map_ops_def)
next
  case (Some xs)
  then obtain h t' t'' where "afind name t = Val (Some h, t')" "aread h t' = Val (Some xs, t'')"
    "holds t'" "holds t''" using find_some [OF t Some] by blast
  with Some some show ?thesis by (simp add: ops_def map_ops_def)
qed

lemma model_agrees:
  assumes t: "holds t"
  shows "agrees holds (load_model L ops mc t) (load_model L (map_ops files) mc ())"
  unfolding load_model_def
proof (intro agrees_pure halts_or, rule find_agrees [OF t], goal_cases)
  case (1 fj name t')
  then show ?case by simp
next
  case (2 fj name h xs t' t'')
  then have r: "op_read ops h t' = Val (Some xs, t'')" "op_read (map_ops files) xs () = Val (Some xs, ())"
    by (simp_all add: ops_def map_ops_def)
  show ?case
    using 2 by (auto simp: r intro!: agrees_pure split: option.split)
qed

lemma read_both:
  "aread h t' = Val (Some xs, t'') \<Longrightarrow>
   op_read ops h t' = Val (Some xs, t'') \<and> op_read (map_ops files) xs () = Val (Some xs, ())"
  by (simp add: ops_def map_ops_def)

lemma fusion_agrees:
  assumes t: "holds t"
  shows "agrees holds (fusion_json L ops fj t) (fusion_json L (map_ops files) fj ())"
  unfolding fusion_json_def
proof (rule agrees_pure [OF halts_member])
  fix v
  show "agrees holds
     (case v of None \<Rightarrow> Val (None, t)
      | Some j \<Rightarrow> run_bind (or_throw (js_as_cstring L j)) (\<lambda>name.
          run_bind (op_find ops (octets_of name) t) (\<lambda>(found, t1).
            case found of None \<Rightarrow> Val (None, t1)
            | Some h \<Rightarrow> run_bind (op_read ops h t1) (\<lambda>(p, t2). run_bind (or_undef p) (\<lambda>d. Val (Some d, t2))))))
     (case v of None \<Rightarrow> Val (None, ())
      | Some j \<Rightarrow> run_bind (or_throw (js_as_cstring L j)) (\<lambda>name.
          run_bind (op_find (map_ops files) (octets_of name) ()) (\<lambda>(found, t1).
            case found of None \<Rightarrow> Val (None, t1)
            | Some h \<Rightarrow> run_bind (op_read (map_ops files) h t1) (\<lambda>(p, t2). run_bind (or_undef p) (\<lambda>d. Val (Some d, t2))))))"
  proof (cases v)
    case None
    then show ?thesis using t by simp
  next
    case (Some j)
    show ?thesis unfolding Some option.case
      by (intro agrees_pure halts_or, rule find_agrees [OF t]) (auto dest!: read_both)
  qed
qed

lemma session_agrees:
  assumes t: "holds t"
  shows "agrees holds (GenerateSessionConfig L ops node t c) (GenerateSessionConfig L (map_ops files) node () c)"
  unfolding GenerateSessionConfig_def using t fusion_agrees [OF t]
  by (auto simp: Let_def intro!: agrees_pure agrees_bind halts_bind split: option.split)

lemma model_config_agrees:
  assumes t: "holds t"
  shows "agrees holds (GenerateModelConfig L ops node t c c1) (GenerateModelConfig L (map_ops files) node () c c1)"
  unfolding GenerateModelConfig_def using t model_agrees [OF t]
  by (auto simp: Let_def intro!: agrees_pure agrees_bind halts_bind split: option.split)

lemma node_agrees:
  assumes t: "holds t"
  shows "agrees holds (generate_node L ops node t) (generate_node L (map_ops files) node ())"
  unfolding generate_node_def using session_agrees [OF t] model_config_agrees
  by (auto intro!: agrees_pure agrees_bind split: option.split)

lemma nodes_agrees:
  assumes "holds t"
  shows "agrees holds (generate_nodes L ops mgr vs t) (generate_nodes L (map_ops files) mgr vs ())"
  using assms
proof (induction vs arbitrary: t)
  case (Cons v vs)
  then show ?case
    by (auto intro!: agrees_pure agrees_bind node_agrees split: option.split)
qed simp

lemma global_agrees:
  assumes t: "holds t"
  shows "agrees holds (GenerateGlobalSharedConfig L ops v t) (GenerateGlobalSharedConfig L (map_ops files) v ())"
  unfolding GenerateGlobalSharedConfig_def using t nodes_agrees [OF t]
  by (auto intro!: agrees_pure agrees_bind split: option.split)

lemma pipelines_same:
  assumes "holds t"
  shows "add_pipelines L ops names k t cs = add_pipelines L (map_ops files) names k () cs"
  using assms
proof (induction names arbitrary: t cs)
  case (Cons n names)
  show ?case
  proof (cases "files n")
    case None
    then obtain t' where "afind n t = Val (None, t')" "holds t'"
      using find_none Cons.prems by blast
    then show ?thesis using Cons.IH [of t' cs] None by (simp add: ops_def map_ops_def)
  next
    case (Some xs)
    then obtain h t' t'' where f: "afind n t = Val (Some h, t')" "aread h t' = Val (Some xs, t'')" "holds t''"
      using find_some Cons.prems by blast
    have "add_pipelines L ops names k t'' (cs @ [c]) = add_pipelines L (map_ops files) names k () (cs @ [c])" for c
      by (rule Cons.IH [OF f(3)])
    then show ?thesis using f Some by (simp add: ops_def map_ops_def)
  qed
qed simp

end

section \<open>The packages the program reads\<close>

text \<open>The archive in memory is the one written for the files \<open>fs\<close>.\<close>

definition package :: "nat \<Rightarrow> files \<Rightarrow> mtar \<Rightarrow> bool" where
  "package fuel fs tar \<longleftrightarrow>
     (\<exists>rest. tar_mem tar = archive_image fs @ rest) \<and> length (tar_mem tar) < 2 ^ 32 \<and>
     (\<forall>e\<in>set fs. name_fits (fst e)) \<and> length fs < fuel"

lemma package_mem: "package fuel fs t \<Longrightarrow> tar_mem t' = tar_mem t \<Longrightarrow> package fuel fs t'"
  by (simp add: package_def)

lemma package_find:
  assumes "package fuel fs t"
  shows "map_of fs name = None \<Longrightarrow> \<exists>t'. find_run fuel name t = Val (None, t') \<and> package fuel fs t'"
    and "map_of fs name = Some xs \<Longrightarrow> \<exists>h t' t''. find_run fuel name t = Val (Some h, t') \<and>
           read_run h t' = Val (Some xs, t'') \<and> package fuel fs t' \<and> package fuel fs t''"
proof -
  obtain rest where p: "tar_mem t = archive_image fs @ rest" "length (tar_mem t) < 2 ^ 32"
    "\<forall>e\<in>set fs. name_fits (fst e)" "length fs < fuel"
    using assms by (auto simp: package_def)
  show "\<exists>t'. find_run fuel name t = Val (None, t') \<and> package fuel fs t'" if none: "map_of fs name = None"
  proof -
    obtain t' where f: "mtar_find fuel name t = Some (Some (Inl MTAR_ENOTFOUND, t'))"
      using find_then_read(1) [OF p none] by blast
    show ?thesis using f package_mem [OF assms find_mem [OF f]] by (simp add: find_run_def)
  qed
  show "\<exists>h t' t''. find_run fuel name t = Val (Some h, t') \<and>
           read_run h t' = Val (Some xs, t'') \<and> package fuel fs t' \<and> package fuel fs t''"
    if some: "map_of fs name = Some xs"
  proof -
    let ?h = "file_header name (of_nat (length xs))"
    obtain t' t'' where f: "mtar_find fuel name t = Some (Some (Inr ?h, t'))"
      "mtar_mem_read_data t' (of_nat (length xs)) = Some (Inr (), Some xs, t'')"
      using find_then_read(2) [OF p some] by blast
    have pt: "package fuel fs t'" by (rule package_mem [OF assms find_mem [OF f(1)]])
    have "read_run ?h t' = Val (Some xs, t'')"
      using f(2) by (simp add: read_run_def) (simp add: file_header_def)
    then show ?thesis
      using f(1) pt package_mem [OF pt mem_read_data_mem [OF f(2)]] by (simp add: find_run_def)
  qed
qed

interpretation pk: archive_reader "find_run fuel" read_run "package fuel fs" "map_of fs" for fuel fs
  by unfold_locales (blast intro: package_find)+

lemma tar_ops_package: "tar_ops fuel = pk.ops fuel"
  by (simp add: tar_ops_def pk.ops_def)

text \<open>What the analysis does with the files alone.\<close>

fun make_pipelines ::
  "'j archive_lib \<Rightarrow> (octets \<Rightarrow> octets option) \<Rightarrow> nat \<Rightarrow> octets list \<Rightarrow> archive_pipeline list run" where
  "make_pipelines L files shared [] = Val []"
| "make_pipelines L files shared (n # ns) =
     run_bind (make_pipeline L (chars_of n) (the (files n)) shared) (\<lambda>c.
       run_bind (make_pipelines L files shared ns) (\<lambda>cs. Val (c # cs)))"

definition graph_file_names :: "files \<Rightarrow> octets list" where
  "graph_file_names fs = filter (keep_name (Some (octets_of ''.txt''))) (map fst fs)"

definition analysis_of_files :: "'j archive_lib \<Rightarrow> files \<Rightarrow> analysis_tar \<Rightarrow> (bool \<times> analysis_tar) run" where
  "analysis_of_files L fs a0 =
     (let shared = length (shared_store a0);
          failed = Val (False, a0\<lparr> m_global_shared_config := Some shared, shared_store := shared_store a0 @ [empty_shared] \<rparr>)
      in if fs = [] then failed
         else case map_of fs config_json_name of
                None \<Rightarrow> failed
              | Some text \<Rightarrow>
                  (case js_parse L text of
                     None \<Rightarrow> failed
                   | Some v \<Rightarrow>
                       run_bind (GenerateGlobalSharedConfig L (map_ops (map_of fs)) v ()) (\<lambda>(g, _).
                         case g of
                           None \<Rightarrow> failed
                         | Some config \<Rightarrow>
                             run_bind (make_pipelines L (map_of fs) shared (graph_file_names fs)) (\<lambda>cs.
                               Val (True, a0\<lparr> m_global_shared_config := Some shared,
                                              shared_store := shared_store a0 @ [config],
                                              m_config := m_config a0 @ cs \<rparr>)))))"

lemma run_bind_assoc: "run_bind (run_bind r f) g = run_bind r (\<lambda>x. run_bind (f x) g)"
  by (cases r) simp_all

lemma add_pipelines_map:
  assumes "\<forall>n\<in>set names. files n \<noteq> None"
  shows "add_pipelines L (map_ops files) names shared () cs
    = run_bind (make_pipelines L files shared names) (\<lambda>ps. Val (True, cs @ ps))"
  using assms
proof (induction names arbitrary: cs)
  case (Cons n names)
  then obtain xs where xs: "files n = Some xs" by auto
  have IH: "add_pipelines L (map_ops files) names shared () cs'
      = run_bind (make_pipelines L files shared names) (\<lambda>ps. Val (True, cs' @ ps))" for cs'
    using Cons by simp
  have ops: "op_find (map_ops files) n () = Val (Some xs, ())" "op_read (map_ops files) xs () = Val (Some xs, ())"
    using xs by (simp_all add: map_ops_def)
  show ?case by (simp add: ops IH run_bind_assoc xs)
qed simp

lemma package_open:
  assumes p: "package fuel fs (fresh_tar mem)"
  shows "\<exists>o' t. mtar_mem_open mem = Some (o', t) \<and> package fuel fs t \<and>
    (\<exists>r t'. mtar_read_header t = Some (r, t') \<and> package fuel fs t' \<and> ((\<exists>e. r = Inl e) \<longleftrightarrow> fs = []))"
proof -
  obtain rest where m: "mem = archive_image fs @ rest" "length mem < 2 ^ 32"
    "\<forall>e\<in>set fs. name_fits (fst e)"
    using p by (auto simp: package_def fresh_tar_def)
  have hdr: "\<exists>r t'. mtar_read_header t = Some (r, t') \<and> reader_at mem 0 t' \<and> ((\<exists>e. r = Inl e) \<longleftrightarrow> fs = [])"
    if r: "reader_at mem 0 t" for t
  proof (cases fs)
    case Nil
    then have "drop 0 mem = replicate 1024 0 @ rest" using m(1) by (simp add: archive_image_def records_image_def)
    from read_null_header [OF r this] show ?thesis
      using reader_last [OF r, of "of_nat 0"] Nil by simp
  next
    case (Cons e gs)
    have n: "name_fits (fst e)" using m(3) Cons by simp
    have d: "drop 0 mem = record_image (fst e) (snd e) @ (archive_image gs @ rest)"
      using m(1) by (simp add: Cons archive_image_def records_image_Cons)
    have "archive_image gs @ rest \<noteq> []" by (simp add: archive_image_def)
    from read_file_header [OF r d n this] show ?thesis
      using reader_last [OF r, of "of_nat 0"] Cons by simp
  qed
  have r0: "reader_at mem 0 (fresh_tar mem)"
    using m(2) by (simp add: reader_at_def fresh_tar_def)
  obtain r t where t: "mtar_read_header (fresh_tar mem) = Some (r, t)" "reader_at mem 0 t"
    using hdr [OF r0] by blast
  obtain r' t' where t': "mtar_read_header t = Some (r', t')" "reader_at mem 0 t'"
    "(\<exists>e. r' = Inl e) \<longleftrightarrow> fs = []"
    using hdr [OF t(2)] by blast
  have pk: "package fuel fs x" if "reader_at mem 0 x" for x
    by (rule package_mem [OF p]) (use that in \<open>simp add: reader_at_def fresh_tar_def\<close>)
  have "mtar_mem_open mem = Some (map_sum id (\<lambda>_. ()) r, t)"
    using t(1) by (simp add: mtar_mem_open_def fresh_tar_def)
  then show ?thesis using t' pk t(2) by blast
qed

lemma package_names:
  assumes "package fuel fs t"
  shows "\<exists>t'. graph_names fuel t = Val (graph_file_names fs, t') \<and> package fuel fs t'"
proof -
  obtain rest where p: "tar_mem t = archive_image fs @ rest" "length (tar_mem t) < 2 ^ 32"
    "\<forall>e\<in>set fs. name_fits (fst e)" "length fs < fuel"
    using assms by (auto simp: package_def)
  obtain v t' where n: "mtar_get_filtered_filenames fuel (Some (octets_of ''.txt'')) t = Some (Some (Inr (), v, t'))"
    "\<not> vs_freed v" "vs_data v = graph_file_names fs" "tar_mem t' = tar_mem t"
    using names_of_archive [OF p, of "Some (octets_of ''.txt'')"] by (auto simp: graph_file_names_def)
  then show ?thesis using package_mem [OF assms n(4)] by (simp add: graph_names_def)
qed

lemma graph_files_found: "\<forall>n\<in>set (graph_file_names fs). map_of fs n \<noteq> None"
  by (auto simp: graph_file_names_def map_of_eq_None_iff)

lemma agrees_same:
  assumes "agrees holds r r'" and "\<And>x t. holds t \<Longrightarrow> f (x, t) = f' (x, ())"
  shows "run_bind r f = run_bind r' f'"
  using assms by (cases r) auto

lemma analysis_package:
  assumes p: "package fuel fs (fresh_tar mem)"
  shows "Analysis L fuel mem a0 = analysis_of_files L fs a0"
proof -
  define k where "k = length (shared_store a0)"
  define a where "a = a0\<lparr> m_global_shared_config := Some k, shared_store := shared_store a0 @ [empty_shared] \<rparr>"
  have sto: "(shared_store a)[k := c] = shared_store a0 @ [c]" for c
    by (simp add: a_def k_def)
  obtain o1 t0 r t1 where opened: "mtar_mem_open mem = Some (o1, t0)" "mtar_read_header t0 = Some (r, t1)"
    "package fuel fs t1" "(\<exists>e. r = Inl e) \<longleftrightarrow> fs = []"
    using package_open [OF p] by blast
  show ?thesis
  proof (cases r)
    case (Inl e)
    then show ?thesis
      using opened by (simp add: Analysis_def analysis_of_files_def Let_def)
  next
    case (Inr h0)
    then have ne: "fs \<noteq> []" using opened(4) by auto
    show ?thesis
    proof (cases "map_of fs config_json_name")
      case None
      obtain t2 where "find_run fuel config_json_name t1 = Val (None, t2)"
        using package_find(1) [OF opened(3) None] by blast
      then show ?thesis
        using opened(1,2) Inr ne None by (simp add: Analysis_def analysis_of_files_def Let_def)
    next
      case (Some bytes_read)
      obtain h t2 t3 where f: "find_run fuel config_json_name t1 = Val (Some h, t2)"
        "read_run h t2 = Val (Some bytes_read, t3)" "package fuel fs t3"
        using package_find(2) [OF opened(3) Some] by blast
      show ?thesis
      proof (cases "js_parse L bytes_read")
        case None
        then show ?thesis
          using opened(1,2) Inr ne Some f by (simp add: Analysis_def analysis_of_files_def Let_def)
      next
        case (Some v)
        define F where "F = analysis_tail L fuel k a"
        define G where "G = (\<lambda>(g, u :: unit). case g of
            None \<Rightarrow> Val (False, a)
          | Some config \<Rightarrow>
              run_bind (make_pipelines L (map_of fs) k (graph_file_names fs)) (\<lambda>cs.
                Val (True, a0\<lparr> m_global_shared_config := Some k, shared_store := shared_store a0 @ [config],
                               m_config := m_config a0 @ cs \<rparr>)))"
        have lhs: "Analysis L fuel mem a0 = run_bind (GenerateGlobalSharedConfig L (tar_ops fuel) v t3) F"
          using opened(1,2) Inr f Some
          by (simp add: Analysis_def Let_def F_def k_def a_def)
        have rhs: "analysis_of_files L fs a0
            = run_bind (GenerateGlobalSharedConfig L (map_ops (map_of fs)) v ()) G"
          using ne \<open>map_of fs config_json_name = Some bytes_read\<close> Some
          unfolding analysis_of_files_def Let_def G_def a_def k_def by simp
        have "F (g, t4) = G (g, ())" if t4: "package fuel fs t4" for g t4
        proof (cases g)
          case None
          have "a\<lparr> shared_store := (shared_store a)[k := CleanGlobalSharedConfig empty_shared] \<rparr> = a"
            by (simp add: sto CleanGlobalSharedConfig_def) (simp add: a_def)
          then show ?thesis by (simp add: F_def analysis_tail_def G_def None)
        next
          case (Some config)
          obtain t5 where n: "graph_names fuel t4 = Val (graph_file_names fs, t5)" "package fuel fs t5"
            using package_names [OF t4] by blast
          have "add_pipelines L (tar_ops fuel) (graph_file_names fs) k t5 cs
              = run_bind (make_pipelines L (map_of fs) k (graph_file_names fs)) (\<lambda>ps. Val (True, cs @ ps))" for cs
            unfolding tar_ops_package pk.pipelines_same [OF n(2)]
            by (rule add_pipelines_map) (rule graph_files_found)
          then show ?thesis
            by (simp add: F_def analysis_tail_def G_def Some n(1) Let_def run_bind_assoc sto) (simp add: a_def)
        qed
        then show ?thesis
          unfolding lhs rhs
          by (intro agrees_same [where holds = "package fuel fs"])
            (simp_all add: tar_ops_package pk.global_agrees [OF f(3)])
      qed
    qed
  qed
qed

text \<open>
  C14: on the bytes of any archive written for some files (with distinct or repeated names, and
  whatever follows it in memory), the analysis of a package is the analysis of the files
  themselves: the models are those that \<^verbatim>\<open>global_shared_config.json\<close> names, read from the
  map of names to contents, every \<^verbatim>\<open>.txt\<close> file becomes one pipeline with that content, in the
  order of the archive, and nothing is added when the configuration is missing, malformed or
  incomplete; what jsoncpp throws is thrown.
\<close>

theorem package_refines_files:
  assumes "\<forall>e\<in>set fs. length (fst e) < 100 \<and> 0 \<notin> set (fst e)"
    and "length (archive_image fs @ rest) < 2 ^ 32" and "length fs < fuel"
  shows "Analysis L fuel (archive_image fs @ rest) a0 = analysis_of_files L fs a0"
  using assms by (intro analysis_package) (auto simp: package_def fresh_tar_def name_fits_def)

definition demo_lib :: "unit archive_lib" where
  "demo_lib = \<lparr> js_parse = (\<lambda>_. None), js_is_member = (\<lambda>_ _. None), js_get = (\<lambda>_ _. None),
     js_is_object = (\<lambda>_. False), js_is_array = (\<lambda>_. False), js_is_string = (\<lambda>_. False),
     js_is_uint = (\<lambda>_. False), js_items = (\<lambda>_. []), js_as_string = (\<lambda>_. None),
     js_as_cstring = (\<lambda>_. None), js_as_uint = (\<lambda>_. None), js_write = (\<lambda>_. []),
     al_split = (\<lambda>s _. [s]), al_contains = (\<lambda>_ _. False), al_aes_dec = (\<lambda>_. rev),
     al_malloc = (\<lambda>n. replicate n 0), al_stack_key = replicate 32 0 \<rparr>"

theorem package_refines_files_witness:
  "Analysis demo_lib 2 (archive_image demo_files @ [7]) analysis_new = analysis_of_files demo_lib demo_files analysis_new"
  by (rule package_refines_files) (simp_all add: demo_image_length, simp_all add: demo_files_def)

lemma archive_image_dvd: "\<forall>e\<in>set fs. name_fits (fst e) \<Longrightarrow> 16 dvd length (archive_image fs)"
proof (induction fs)
  case Nil
  then show ?case by (simp add: archive_image_def records_image_def)
next
  case (Cons e fs)
  have "16 dvd length (record_image (fst e) (snd e))"
    using record_image_dvd [of "fst e" "snd e"] Cons.prems by (auto intro: dvd_trans [of 16 512])
  then show ?case using Cons by (simp add: archive_image_def records_image_Cons)
qed

text \<open>
  C28: a package written for some files, encrypted with the buffer cipher of the tools and built
  into the library with the printed key, is what \<^verbatim>\<open>TarMem\<close> analyses: whatever the size of the
  files, decryption gives back every byte of the archive and no other.
\<close>

theorem encrypted_package_analysed:
  assumes fits: "\<forall>e\<in>set fs. length (fst e) < 100 \<and> 0 \<notin> set (fst e)"
    and small: "length (archive_image fs) < 2 ^ 32" and fuel: "length fs < fuel"
    and key: "DecodeAesKey hex (al_stack_key L) = Val key" "length key = 32" "hex \<noteq> []"
    and cipher: "cipher_pair enc (al_aes_dec L key)"
    and info: "get_incbin_info infos name
      = Some \<lparr> ib_name = name, ib_aeskey = hex, ib_data = encryptBuf enc (archive_image fs) \<rparr>"
  shows "TarMem L fuel infos name a0 = analysis_of_files L fs a0"
proof -
  let ?p = "archive_image fs"
  have fits': "\<forall>e\<in>set fs. name_fits (fst e)" using fits by (simp add: name_fits_def)
  have "16 dvd length ?p" by (rule archive_image_dvd [OF fits'])
  then have la: "look_alike ?p = 0" by (simp add: look_alike_zero)
  have set: "setKey key 256 aes_new = Some \<lparr> aesBit = 256, aesKeyLen = 32, myKey = key \<rparr>"
    using key(2) by (simp add: setKey_def aes_new_def)
  have "DecodeAes L (Some (encryptBuf enc ?p)) hex = Val (padded ?p @
      drop (length (padded ?p)) (al_malloc L (length (encryptBuf enc ?p))), length ?p)"
    by (simp add: DecodeAes_def key(1) set decryptBuf_encryptBuf [OF cipher] la)
  then have "TarMem L fuel infos name a0 = Analysis L fuel ?p a0"
    using key(3) by (simp add: TarMem_def info analysis_decoded_def padded_def)
  also have "\<dots> = analysis_of_files L fs a0"
    by (rule analysis_package) (use fits' small fuel in \<open>auto simp: package_def fresh_tar_def\<close>)
  finally show ?thesis .
qed

definition demo_key :: octets where
  "demo_key = 65 # replicate 31 0"

lemma demo_key_decoded: "DecodeAesKey ''41'' (al_stack_key demo_lib) = Val demo_key"
proof -
  have w: "words_of ''41'' = [''41'']"
    by (subst words_of.simps, simp add: is_blank_def Let_def, subst words_of.simps, simp)
  have "stoi16 ''41'' = Some 65"
    by (simp add: stoi16_def Let_def is_blank_def hex_value_def hex_number_def)
  then show ?thesis
    by (simp add: DecodeAesKey_def w demo_lib_def demo_key_def numeral_eq_Suc)
qed

theorem encrypted_package_analysed_witness:
  "TarMem demo_lib 2
     [\<lparr> ib_name = ''pkg'', ib_aeskey = ''41'', ib_data = encryptBuf rev (archive_image demo_files) \<rparr>]
     ''pkg'' analysis_new = analysis_of_files demo_lib demo_files analysis_new"
proof (rule encrypted_package_analysed [OF _ _ _ demo_key_decoded, where enc = rev])
  show "cipher_pair rev (al_aes_dec demo_lib demo_key)"
    by (simp add: cipher_pair_def demo_lib_def)
qed (simp_all add: demo_image_length get_incbin_info_def demo_key_def, simp_all add: demo_files_def)

section \<open>Models\<close>

text \<open>Every model that was loaded is identified by the digest of its own bytes.\<close>

definition identified :: "node_config \<Rightarrow> bool" where
  "identified nc = (case nc of (m, s, na) \<Rightarrow>
     case model_mem m of None \<Rightarrow> True
     | Some mem \<Rightarrow> net_unique_id na = md5str (md5 (take (model_size m) mem)))"

lemma run_bind_Val: "run_bind r f = Val y \<longleftrightarrow> (\<exists>x. r = Val x \<and> f x = Val y)"
  by (cases r) simp_all

lemma model_config_identified:
  "GenerateModelConfig L A node t c c1 = Val (Some (m, na), t') \<Longrightarrow>
   \<exists>mem. model_mem m = Some mem \<and> net_unique_id na = md5str (md5 (take (model_size m) mem))"
  by (auto simp: GenerateModelConfig_def run_bind_Val Let_def split: option.splits prod.splits)

lemma node_identified: "generate_node L A node t = Val (Some nc, t') \<Longrightarrow> identified nc"
  by (auto simp: generate_node_def run_bind_Val identified_def split: option.splits prod.splits
      dest!: model_config_identified)

lemma nodes_identified:
  "generate_nodes L A mgr vs t = Val (Some ns, t') \<Longrightarrow> \<forall>e\<in>set ns. identified (snd e)"
proof (induction vs arbitrary: t ns t')
  case (Cons v vs)
  have d: "identified default_node" by (simp add: identified_def default_node_def default_model_def)
  obtain name node x where 1:
    "(case node of None \<Rightarrow> Val (Some default_node, t) | Some nj \<Rightarrow> generate_node L A nj t) = Val x"
    "(case x of (n, t1) \<Rightarrow> case n of None \<Rightarrow> Val (None, t1)
       | Some nc \<Rightarrow> run_bind (generate_nodes L A mgr vs t1) (\<lambda>(rest, t2).
             Val (map_option (\<lambda>ns. (name, nc) # ns) rest, t2))) = Val (Some ns, t')"
    using Cons.prems unfolding generate_nodes.simps run_bind_Val by blast
  obtain n t1 where x: "x = (n, t1)" by (cases x)
  obtain nc where n: "n = Some nc" using 1(2) x by (cases n) simp_all
  obtain rest t2 where r: "generate_nodes L A mgr vs t1 = Val (Some rest, t2)" "ns = (name, nc) # rest"
    using 1(2) unfolding x n by (auto simp: run_bind_Val)
  have "identified nc" using 1(1) d unfolding x n by (cases node) (auto intro: node_identified)
  then show ?case using r Cons.IH [OF r(1)] by simp
qed simp

text \<open>A model in a package: its bytes are the file's, or the decryption of the file's.\<close>

lemma plain_model_loaded:
  assumes "js_get L mc ''file_name'' = Some fj" "js_as_cstring L fj = Some file_name"
    and "member_that L (js_is_string L) mc ''aes_key'' = Val None"
    and "files (octets_of file_name) = Some data"
  shows "load_model L (map_ops files) mc () = Val (Some (data, length data), ())"
  using assms by (simp add: load_model_def map_ops_def)

lemma encrypted_model_loaded:
  assumes "js_get L mc ''file_name'' = Some fj" "js_as_cstring L fj = Some file_name"
    and "member_that L (js_is_string L) mc ''aes_key'' = Val (Some kj)" "js_as_string L kj = Some hex"
    and key: "DecodeAesKey hex (al_stack_key L) = Val key" "length key = 32"
    and cipher: "cipher_pair enc (al_aes_dec L key)"
    and "files (octets_of file_name) = Some (encryptBuf enc data)"
  shows "\<exists>buf n. load_model L (map_ops files) mc () = Val (Some (buf, n), ()) \<and>
           take n buf = take (length data - look_alike data) data"
proof -
  have set: "setKey key 256 aes_new = Some \<lparr> aesBit = 256, aesKeyLen = 32, myKey = key \<rparr>"
    using key(2) by (simp add: setKey_def aes_new_def)
  have "DecodeAes L (Some (encryptBuf enc data)) hex = Val (padded data @
      drop (length (padded data)) (al_malloc L (length (encryptBuf enc data))), length data - look_alike data)"
    by (simp add: DecodeAes_def key(1) set decryptBuf_encryptBuf [OF cipher])
  then show ?thesis
    using assms(1-4,8) by (simp add: load_model_def map_ops_def padded_def)
qed

text \<open>A key of more than 32 words is written past the array it is decoded into.\<close>

lemma decode_words_overflow:
  assumes "\<forall>p\<in>set ps. stoi16 p \<noteq> None" "length kb < i + length ps" "i \<le> length kb"
  shows "decode_words kb i ps = Undef"
  using assms
proof (induction ps arbitrary: kb i)
  case (Cons p ps)
  then show ?case by (cases "stoi16 p") auto
qed simp

lemma long_key_overflows:
  "length (al_stack_key L) = 32 \<Longrightarrow> \<forall>p\<in>set (words_of hex). stoi16 p \<noteq> None \<Longrightarrow>
   32 < length (words_of hex) \<Longrightarrow> DecodeAesKey hex (al_stack_key L) = Undef"
  by (simp add: DecodeAesKey_def decode_words_overflow)

text \<open>
  An archive cut off after its one record, without the closing blocks: the search for names ends
  with an error that frees the list, and its freed string is then read.
\<close>

definition cut_archive :: octets where
  "cut_archive = record_image [97, 46, 116, 120, 116] [1, 2, 3] @ [0]"

lemma cut_archive_use_after_free: "graph_names (Suc (Suc k)) (fresh_tar cut_archive) = Undef"
proof -
  let ?n = "[97, 46, 116, 120, 116] :: octets"
  have n: "name_fits ?n" by (simp add: name_fits_def)
  have len: "length (record_image ?n [1, 2, 3]) = 1024"
    by (simp add: record_image_length [OF n] pad_len_def)
  have "length cut_archive < 2 ^ 32" by (simp add: cut_archive_def len)
  then obtain t0 where t0: "mtar_rewind (fresh_tar cut_archive) = (Inr (), t0)" "reader_at cut_archive 0 t0"
    using rewind_at [of "fresh_tar cut_archive" cut_archive] by (auto simp: fresh_tar_def)
  have d: "drop 0 cut_archive = record_image ?n [1, 2, 3] @ [0]" by (simp add: cut_archive_def)
  define t1 where "t1 = t0\<lparr> tar_last_header := of_nat 0 \<rparr>"
  have hd: "mtar_read_header t0 = Some (Inr (file_header ?n (of_nat (length [1 :: u8, 2, 3]))), t1)"
    unfolding t1_def by (rule read_file_header [OF t0(2) d n]) simp
  have "reader_at cut_archive 0 t1" unfolding t1_def by (rule reader_last [OF t0(2)])
  from next_at [OF this d n] len obtain t2 where t2: "mtar_next t1 = Some (Inr (), t2)"
    "reader_at cut_archive 1024 t2" by auto
  have "\<exists>t3. mtar_read_header t2 = Some (Inl MTAR_EREADFAIL, t3)"
    using t2(2) len by (simp add: mtar_read_header_def tread_def advance_def mem_read_def mem_len_def
        reader_at_def offsets Let_def cut_archive_def)
  then obtain t3 where t3: "mtar_read_header t2 = Some (Inl MTAR_EREADFAIL, t3)" by blast
  have keep: "keep_name (Some (octets_of ''.txt'')) ?n"
    by (simp add: keep_name_def from_last_dot_def octets_of_def of_char_def)
  show ?thesis
    using hd t2(1) t3 keep
    by (simp add: graph_names_def mtar_get_filtered_filenames_def t0(1) file_header_def
        vector_string_init_def vector_string_free_def vector_string_push_def Let_def)
qed

end
