(* ===== verification/MonoNimble.thy ===== *)
theory MonoNimble
  imports Lift3d
begin

text \<open>
  The network that lifts one image of a hand: \<open>RTMTinyNimbleDLTFlora\<close> of
  \<^verbatim>\<open>aisdk/algorithm/model/hand_rtmtiny_nimble_flora.cpp\<close> with the state of
  \<^verbatim>\<open>hand_rtmtiny_nimble.h\<close>. Its answer is a pose, the angles of the joints and a confidence for each
  keypoint; the solver of theory PoseSolver places the hand where it projects to the keypoints.
  The timestamp of the inputs, which its calculator never sets, is an argument of its own. The
  outer None stands for an access outside a buffer or of a camera that is not set, the inner None
  for the error status of a failed run.
\<close>

section \<open>State and library\<close>

record mono_net =
  mono_left :: "real list"
  mono_right :: "real list"
  mono_left_time :: real
  mono_right_time :: real
  mono_is_left :: bool
  mono_camera :: "camera_model option"
  mono_timestamp :: real

definition new_mono_net :: mono_net where
  "new_mono_net = \<lparr>mono_left = [], mono_right = [], mono_left_time = 0, mono_right_time = 0, mono_is_left = False,
     mono_camera = None, mono_timestamp = 0\<rparr>"

record mono_out =
  mono_svd_pt :: "vec3 list"
  mono_angle :: "real list"
  mono_sigma :: "real list"
  mono_out_mems :: "real list"

text \<open>
  \<open>mono_feat_size\<close> and \<open>mono_mem_size\<close> are the products of the dimensions of two input tensors,
  \<open>mono_packed\<close> says whether the output is packed by batch, \<open>mono_run\<close> is \<open>RunNet\<close>.
\<close>

record mono_lib =
  mono_svd :: svd3
  mono_feat_size :: nat
  mono_mem_size :: nat
  mono_packed :: bool
  mono_run :: "real list \<Rightarrow> real \<Rightarrow> real list \<Rightarrow> mono_out option"

record mono_outputs = lift_net_outputs +
  mono_kpts :: "vec2 list"

definition standard_fscale :: real where
  "standard_fscale = 200"

definition mono_image_shape :: real where
  "mono_image_shape = 128"

section \<open>Init and PreProcess\<close>

definition resize_mem :: "nat \<Rightarrow> real list \<Rightarrow> real list" where
  "resize_mem n xs = take n xs @ replicate (n - length xs) 0"

text \<open>\<open>base_ok\<close>: the initialisation of the base class succeeds.\<close>

definition mono_init :: "bool \<Rightarrow> mono_net \<Rightarrow> bool \<times> mono_net" where
  "mono_init base_ok s =
     (if \<not> base_ok then (False, s)
      else (True, s\<lparr>mono_left := resize_mem 384 (mono_left s), mono_right := resize_mem 384 (mono_right s)\<rparr>))"

definition read_block :: "nat \<Rightarrow> 'a list \<Rightarrow> 'a list option" where
  "read_block n xs = (if n \<le> length xs then Some (take n xs) else None)"

definition mono_memory :: "nat \<Rightarrow> bool \<Rightarrow> real \<Rightarrow> mono_net \<Rightarrow> real list option" where
  "mono_memory n left timestamp s =
     (if left \<and> timestamp - mono_left_time s < reset_mem_time then read_block n (mono_left s)
      else if \<not> left \<and> timestamp - mono_right_time s < reset_mem_time then read_block n (mono_right s)
      else Some (replicate n 0))"

definition mono_preprocess :: "mono_lib \<Rightarrow> (nat \<Rightarrow> camera_model) \<Rightarrow> real \<Rightarrow> mono_nimble_inputs \<Rightarrow> mono_net
    \<Rightarrow> ((real list \<times> real \<times> real list) \<times> mono_net) option" where
  "mono_preprocess lib virtual timestamp inp s = do {
     feat_hand \<leftarrow> read_block (mono_feat_size lib) (raw_feats inp);
     let vc = virtual (virtual_camera_in inp);
     mem_hand \<leftarrow> mono_memory (mono_mem_size lib) (nimble_is_left inp) timestamp s;
     Some ((feat_hand, fx (intrinsics vc) / standard_fscale, mem_hand),
           s\<lparr>mono_camera := Some vc, mono_is_left := nimble_is_left inp, mono_timestamp := timestamp\<rparr>)
   }"

section \<open>PostProcess and Inference\<close>

definition flip_kpts :: "vec2 list \<Rightarrow> vec2 list" where
  "flip_kpts ps = map (\<lambda>p. v2 (mono_image_shape - v2x p) (v2y p)) ps"

text \<open>
  \<open>noalias()\<close> lets the product read the matrix that it overwrites; \<open>flip_x\<close> is diagonal, so that
  each coefficient depends on its own old value only and the result is the product
  (\<open>flip_in_place\<close> below).
\<close>

definition mono_rotation :: "svd3 \<Rightarrow> bool \<Rightarrow> vec3 list \<Rightarrow> mat3" where
  "mono_rotation svd left pts =
     (let global_rotation = fst (get_transform_with_svd svd svd_src_pt pts)
      in if left then mat3_mult flip_x global_rotation else global_rotation)"

definition intrinsics_matrix :: "camera_intrinsics \<Rightarrow> mat3" where
  "intrinsics_matrix k = (v3 (fx k) 0 (cx k), v3 0 (fy k) (cy k), v3 0 0 1)"

definition mono_score :: "real list \<Rightarrow> real" where
  "mono_score sigma = 1 - sum_list (map (\<lambda>v. 1 / (1 + exp (- 1 * v))) sigma) / real (length sigma)"

definition mono_keep_memory :: "real list \<Rightarrow> mono_net \<Rightarrow> mono_net option" where
  "mono_keep_memory mem s =
     (if mono_is_left s
      then map_option (\<lambda>m. s\<lparr>mono_left := m, mono_left_time := mono_timestamp s\<rparr>) (write_at 0 mem (mono_left s))
      else map_option (\<lambda>m. s\<lparr>mono_right := m, mono_right_time := mono_timestamp s\<rparr>) (write_at 0 mem (mono_right s)))"

definition mono_postprocess :: "mono_lib \<Rightarrow> mono_out \<Rightarrow> mono_outputs \<Rightarrow> mono_net \<Rightarrow> (mono_outputs \<times> mono_net) option" where
  "mono_postprocess lib r result s =
     (if \<not> mono_packed lib then Some (result, s)
      else do {
        svd_pt \<leftarrow> read_block 7 (mono_svd_pt r);
        let global_rotation = mono_rotation (mono_svd lib) (mono_is_left s) svd_pt;
        let kpts = (if mono_is_left s then flip_kpts (mono_kpts result) else mono_kpts result);
        angles \<leftarrow> read_block 171 (mono_angle r);
        local_angles \<leftarrow> decode_hand_angle (mono_svd lib) angles;
        local_kpt \<leftarrow> decode_hand_joints 0 local_angles;
        let rel_kpt_26 = map (mat3_apply global_rotation) local_kpt;
        vc \<leftarrow> mono_camera s;
        sigma \<leftarrow> read_block 63 (mono_sigma r);
        kpt_weight \<leftarrow> cal_kpt_weight sigma;
        global_kpt \<leftarrow> get_3d_kpt (take 21 rel_kpt_26) kpts (intrinsics_matrix (intrinsics vc)) kpt_weight;
        let root_3d = global_kpt ! 0;
        let global_kpt_26 = global_kpt @ map (\<lambda>p. add3 p root_3d) (drop 21 rel_kpt_26);
        s \<leftarrow> mono_keep_memory (mono_out_mems r) s;
        Some (result\<lparr>res3d := eye_to_world vc global_kpt_26, kpt3d_score := mono_score sigma, mono_kpts := kpts\<rparr>, s)
      })"

definition read_kpts :: "mono_nimble_inputs \<Rightarrow> vec2 list option" where
  "read_kpts inp =
     (if length (pred_x inp) < 21 \<or> length (pred_y inp) < 21 then None
      else Some (map (\<lambda>i. v2 (pred_x inp ! i) (pred_y inp ! i)) [0..<21]))"

definition mono_inference :: "mono_lib \<Rightarrow> (nat \<Rightarrow> camera_model) \<Rightarrow> real \<Rightarrow> mono_nimble_inputs \<Rightarrow> mono_net
    \<Rightarrow> (mono_outputs option \<times> mono_net) option" where
  "mono_inference lib virtual timestamp inp s = do {
     ((feat, scale, mem), s) \<leftarrow> mono_preprocess lib virtual timestamp inp s;
     kpts \<leftarrow> read_kpts inp;
     case mono_run lib feat scale mem of
       None \<Rightarrow> Some (None, s)
     | Some r \<Rightarrow> map_option (map_prod Some id)
         (mono_postprocess lib r \<lparr>res3d = [], kpt3d_score = 0, mono_kpts = kpts\<rparr> s)
   }"

text \<open>The network as its calculator calls it.\<close>

definition mono_network :: "mono_lib \<Rightarrow> (nat \<Rightarrow> camera_model) \<Rightarrow> real \<Rightarrow> mono_net mono_infer" where
  "mono_network lib virtual timestamp inp s =
     map_option (map_prod (map_option lift_net_outputs.truncate) id) (mono_inference lib virtual timestamp inp s)"

section \<open>Memory\<close>

lemma mono_init_sizes: "mono_init True s = (ok, s') \<Longrightarrow> ok \<and> length (mono_left s') = 384 \<and> length (mono_right s') = 384"
  by (auto simp: mono_init_def resize_mem_def)

lemma write_at_length: "write_at k vs mem = Some m \<Longrightarrow> length m = length mem"
  by (auto simp: write_at_def split: if_splits)

definition mono_other :: "bool \<Rightarrow> mono_net \<Rightarrow> real list \<times> real" where
  "mono_other left s = (if left then (mono_right s, mono_right_time s) else (mono_left s, mono_left_time s))"

lemma mono_keep_other: "mono_keep_memory mem s = Some s' \<Longrightarrow> mono_other (mono_is_left s) s' = mono_other (mono_is_left s) s"
  by (auto simp: mono_keep_memory_def mono_other_def split: if_splits)

lemma mono_keep_sizes:
  "mono_keep_memory mem s = Some s' \<Longrightarrow>
   length (mono_left s') = length (mono_left s) \<and> length (mono_right s') = length (mono_right s)"
  by (auto simp: mono_keep_memory_def write_at_length split: if_splits)

lemma mono_postprocess_state:
  "mono_postprocess lib r result s = Some (out, s') \<Longrightarrow> s' = s \<or> mono_keep_memory (mono_out_mems r) s = Some s'"
  by (auto simp: mono_postprocess_def Let_def bind_eq_Some_conv split: if_splits)

lemma mono_preprocess_state:
  assumes "mono_preprocess lib virtual t inp s = Some (x, s')"
  shows "mono_left s' = mono_left s \<and> mono_right s' = mono_right s \<and> mono_left_time s' = mono_left_time s \<and>
    mono_right_time s' = mono_right_time s \<and> mono_is_left s' = nimble_is_left inp \<and> mono_timestamp s' = t \<and>
    mono_camera s' = Some (virtual (virtual_camera_in inp))"
  using assms by (auto simp: mono_preprocess_def Let_def bind_eq_Some_conv)

text \<open>An inference keeps the sizes of the memories and leaves the other hand's memory alone.\<close>

lemma mono_inference_isolated:
  assumes "mono_inference lib virtual t inp s = Some (out, s')"
  shows "mono_other (nimble_is_left inp) s' = mono_other (nimble_is_left inp) s \<and>
    length (mono_left s') = length (mono_left s) \<and> length (mono_right s') = length (mono_right s)"
proof -
  obtain x s1 where pre: "mono_preprocess lib virtual t inp s = Some (x, s1)"
    and post: "s' = s1 \<or> (\<exists>m. mono_keep_memory m s1 = Some s')"
    using assms by (auto simp: mono_inference_def bind_eq_Some_conv dest!: mono_postprocess_state split: option.splits)
  from mono_preprocess_state [OF pre] have s1: "mono_other (nimble_is_left inp) s1 = mono_other (nimble_is_left inp) s"
    "length (mono_left s1) = length (mono_left s)" "length (mono_right s1) = length (mono_right s)"
    "mono_is_left s1 = nimble_is_left inp"
    by (auto simp: mono_other_def)
  from post show ?thesis
  proof (elim disjE exE)
    fix m
    assume m: "mono_keep_memory m s1 = Some s'"
    from mono_keep_other [OF m] mono_keep_sizes [OF m] s1 show ?thesis by simp
  qed (use s1 in simp)
qed

text \<open>A frame of the past reads the memory of the future: only differences above the limit reset it.\<close>

lemma mono_memory_of_future:
  "t < mono_left_time s \<Longrightarrow> mono_memory n True t s = read_block n (mono_left s)"
  by (simp add: mono_memory_def reset_mem_time_def)

section \<open>Pose, angles and score\<close>

lemma flip_in_place:
  "mat3_mult flip_x (a, b, c) = (scale3 (-1) a, b, c)"
  by (simp add: flip_x_def mat3_mult_def model_defs)

lemma proper_decode_id:
  assumes "length x = 171" and "\<forall>i<19. proper_rotation (block9 i x) \<and> is_svd (block9 i x) (svd (block9 i x))"
  shows "decode_hand_angle svd x = Some x"
proof -
  have piece: "flat9 (nearest_rotation svd (block9 i x)) = take 9 (drop (9 * i) x)" if "i < 19" for i
    using assms that by (simp add: nearest_rotation_id block9_def flat9_rows9)
  have "concat (map (\<lambda>i. take 9 (drop (9 * i) x)) [0..<n]) = take (9 * n) x" for n
    by (induction n) (simp_all add: take_add add.commute [of 9])
  from this [of 19] have x: "concat (map (\<lambda>i. take 9 (drop (9 * i) x)) [0..<19]) = x" using assms(1) by simp
  have "map (\<lambda>i. flat9 (nearest_rotation svd (block9 i x))) [0..<19] = map (\<lambda>i. take 9 (drop (9 * i) x)) [0..<19]"
    using piece by (intro map_cong) auto
  then have "concat (map (\<lambda>i. flat9 (nearest_rotation svd (block9 i x))) [0..<19]) = x" by (simp only: x)
  with assms(1) show ?thesis by (simp add: decode_hand_angle_def)
qed

definition src_diag :: real where
  "src_diag = 0.01 + 0.07071068 * 0.07071068"

definition src_off :: real where
  "src_off = 0.07071068 * 0.07071068 - 0.04142136 * 0.04142136 / 7"

definition src_scatter :: mat3 where
  "src_scatter = (v3 (src_diag + src_off) src_off src_off, v3 src_off (src_diag + src_off) src_off,
     v3 src_off src_off (src_diag + src_off))"

lemma src_positive: "0 < src_diag" "0 < src_off"
  by (simp_all add: src_diag_def src_off_def)

lemma svd_src_scatter: "outer_prod (centred svd_src_pt) (centred svd_src_pt) = src_scatter"
  by (simp add: src_scatter_def src_diag_def src_off_def svd_src_pt_def centred_def mean_pt_def outer_prod_def model_defs)

lemma pos_def_svd_src: "pos_def (outer_prod (centred svd_src_pt) (centred svd_src_pt))"
proof -
  define e where "e = src_diag"
  define d where "d = src_off"
  have d: "0 < d" "0 < e" using src_positive by (simp_all add: d_def e_def)
  have "outer_prod (centred svd_src_pt) (centred svd_src_pt) = (v3 (e + d) d d, v3 d (e + d) d, v3 d d (e + d))"
    by (simp add: svd_src_scatter src_scatter_def d_def e_def)
  moreover have "mat3_apply (v3 (e + d) d d, v3 d (e + d) d, v3 d d (e + d)) p =
      add3 (scale3 e p) (scale3 (d * (vx p + vy p + vz p)) (v3 1 1 1))" for p
    by (simp add: model_defs algebra_simps)
  moreover have "dot3 p (add3 (scale3 e p) (scale3 (d * (vx p + vy p + vz p)) (v3 1 1 1))) =
      e * dot3 p p + d * (vx p + vy p + vz p)\<^sup>2" for p
    by (simp add: model_defs algebra_simps power2_eq_square)
  moreover have "0 < e * dot3 p p + d * (vx p + vy p + vz p)\<^sup>2" if "p \<noteq> v3 0 0 0" for p
    using d dot3_pos [OF that] by (intro add_pos_nonneg mult_pos_pos) simp_all
  moreover have "mat3_transpose (v3 (e + d) d d, v3 d (e + d) d, v3 d d (e + d)) = (v3 (e + d) d d, v3 d (e + d) d, v3 d d (e + d))"
    by (simp add: model_defs)
  ultimately show ?thesis by (simp only: pos_def_def) simp
qed

lemma decoded_root:
  assumes "decode_hand_joints s a = Some r"
  shows "length r = 26 \<and> r ! 0 = v3 0 0 0"
  using assms by (auto simp: decode_hand_joints_def Let_def valid_joint_index_def model_defs split: if_splits)

lemma mono_score_between:
  assumes "sigma \<noteq> []"
  shows "0 < mono_score sigma \<and> mono_score sigma < 1"
proof -
  let ?f = "\<lambda>v. 1 / (1 + exp (- 1 * v)) :: real"
  have f: "0 < ?f v \<and> ?f v < 1" for v by (simp add: add_pos_pos)
  have "0 < sum_list (map ?f xs) \<and> sum_list (map ?f xs) < real (length xs)" if "xs \<noteq> []" for xs
    using that
  proof (induction xs rule: list_nonempty_induct)
    case (cons x xs)
    with f [of x] show ?case by (simp only: list.map sum_list.Cons list.size of_nat_add of_nat_1) linarith
  qed (use f in simp)
  from this [OF assms] show ?thesis using assms by (simp add: mono_score_def)
qed

text \<open>The calculator adds 0.1 to the score: a confident hand scores above 1.\<close>

lemma mono_score_above_one: "1 < mono_score (replicate 63 (- 9)) + 0.1"
proof -
  have "10 \<le> exp (9 :: real)" using exp_ge_add_one_self [of 9] by simp
  then have "1 / (1 + exp (9 :: real)) \<le> 1 / 11" by (intro divide_left_mono) simp_all
  moreover have "mono_score (replicate 63 (- 9)) = 1 - 63 * (1 / (1 + exp 9)) / 63"
    unfolding mono_score_def map_replicate sum_list_replicate length_replicate by simp
  then have "mono_score (replicate 63 (- 9)) = 1 - 1 / (1 + exp 9)" by (simp only: nonzero_mult_div_cancel_left)
  ultimately show ?thesis by linarith
qed

section \<open>The recovered hand\<close>

definition shown_at :: "camera_intrinsics \<Rightarrow> vec3 \<Rightarrow> vec2 \<Rightarrow> bool" where
  "shown_at k p c \<longleftrightarrow> vz p \<noteq> 0 \<and> to_window k (v2 (vx p / vz p) (vy p / vz p)) = c"

lemma shown_at_matrix:
  assumes "shown_at k p c"
  shows "mat3_apply (intrinsics_matrix k) p = scale3 (vz p) (v3 (v2x c) (v2y c) 1)"
proof -
  have "v2x c = vx p / vz p * fx k + cx k" "v2y c = vy p / vz p * fy k + cy k"
    using assms by (auto simp: shown_at_def to_window_def)
  with assms show ?thesis by (simp add: shown_at_def intrinsics_matrix_def model_defs algebra_simps)
qed

lemma det_intrinsics: "mat3_det (intrinsics_matrix k) = fx k * fy k"
  by (simp add: intrinsics_matrix_def model_defs)

definition true_hand :: "bool \<Rightarrow> mat3 \<Rightarrow> vec3 \<Rightarrow> vec3 list \<Rightarrow> vec3 list" where
  "true_hand left rot pos joints = map (\<lambda>p. add3 (mat3_apply (if left then mat3_mult flip_x rot else rot) p) pos) joints"

definition facing_kpts :: "bool \<Rightarrow> vec2 list \<Rightarrow> vec2 list" where
  "facing_kpts left kpts = (if left then flip_kpts kpts else kpts)"

lemma facing_kpts_length [simp]: "length (facing_kpts left kpts) = length kpts"
  by (simp add: facing_kpts_def flip_kpts_def)

lemma facing_kpts_inj:
  "i < length kpts \<Longrightarrow> j < length kpts \<Longrightarrow> facing_kpts left kpts ! i = facing_kpts left kpts ! j \<longleftrightarrow> kpts ! i = kpts ! j"
  by (cases "kpts ! i"; cases "kpts ! j") (auto simp: facing_kpts_def flip_kpts_def)

text \<open>The placement: the solver's translation, and the joints beyond the 21 moved with the root.\<close>

lemma hand_placed:
  assumes "length joints = 26" and "joints ! 0 = v3 0 0 0" and "63 \<le> length sigma" and "length kpts = 21"
    and "fx k \<noteq> 0" and "fy k \<noteq> 0"
    and "\<forall>i<21. shown_at k (add3 (mat3_apply q (joints ! i)) pos) (kpts ! i)"
    and "a < 21" and "b < 21" and "kpts ! a \<noteq> kpts ! b"
  shows "\<exists>w g. cal_kpt_weight sigma = Some w \<and>
    get_3d_kpt (take 21 (map (mat3_apply q) joints)) kpts (intrinsics_matrix k) w = Some g \<and>
    g @ map (\<lambda>p. add3 p (g ! 0)) (drop 21 (map (mat3_apply q) joints)) = map (\<lambda>p. add3 (mat3_apply q p) pos) joints"
proof -
  let ?rel = "take 21 (map (mat3_apply q) joints)"
  have rel: "\<forall>i<21. vz (add3 (?rel ! i) pos) \<noteq> 0 \<and> mat3_apply (intrinsics_matrix k) (add3 (?rel ! i) pos) =
      scale3 (vz (add3 (?rel ! i) pos)) (v3 (v2x (kpts ! i)) (v2y (kpts ! i)) 1)"
    using assms(1,7) shown_at_matrix by (simp add: shown_at_def)
  have det: "mat3_det (intrinsics_matrix k) \<noteq> 0" using assms(5,6) by (simp add: det_intrinsics)
  have len: "length ?rel = 21" using assms(1) by simp
  obtain w where w: "cal_kpt_weight sigma = Some w"
    "get_3d_kpt ?rel kpts (intrinsics_matrix k) w = Some (map (\<lambda>p. add3 p pos) ?rel)"
    using weighted_solver_recovers_hand [OF assms(3) len assms(4) det rel assms(8-10)] by blast
  have "mat3_apply q (v3 0 0 0) = v3 0 0 0" by (cases q) (simp add: model_defs)
  then have "map (\<lambda>p. add3 p pos) ?rel ! 0 = pos" using assms(1,2) by (simp add: add3_def)
  moreover have "map (\<lambda>p. add3 p pos) ?rel @ map (\<lambda>p. add3 p pos) (drop 21 (map (mat3_apply q) joints)) =
      map (\<lambda>p. add3 (mat3_apply q p) pos) joints"
    unfolding map_append [symmetric] append_take_drop_id by simp
  ultimately show ?thesis using w by auto
qed

text \<open>
  C25: the hand of one image is recovered: when the network answers the rotation of the hand
  (seen in seven points), the rotations of its joints and any confidences, and the keypoints are
  the image of that hand in the virtual camera (mirrored for a left hand), then the inference
  returns exactly its 26 joints, in the frame behind the virtual camera, with a score between
  0 and 1.
\<close>

theorem mono_hand_recovered:
  assumes "mono_preprocess lib virtual t inp s = Some ((feat, scale, mem), s1)" and "read_kpts inp = Some kpts"
    and "mono_packed lib" and "mono_run lib feat scale mem = Some r"
    and "proper_rotation rot" and "mono_svd_pt r = map (iso_apply (rot, t0)) svd_src_pt"
    and "h = outer_prod (centred svd_src_pt) (centred (mono_svd_pt r))" and "is_svd h (mono_svd lib h)"
    and "length (mono_angle r) = 171"
    and "\<forall>i<19. proper_rotation (block9 i (mono_angle r)) \<and> is_svd (block9 i (mono_angle r)) (mono_svd lib (block9 i (mono_angle r)))"
    and "decode_hand_joints 0 (mono_angle r) = Some joints"
    and "vc = virtual (virtual_camera_in inp)" and "fx (intrinsics vc) \<noteq> 0" and "fy (intrinsics vc) \<noteq> 0"
    and "hand = true_hand (nimble_is_left inp) rot pos joints"
    and "\<forall>i<21. shown_at (intrinsics vc) (hand ! i) (facing_kpts (nimble_is_left inp) kpts ! i)"
    and "a < 21" and "b < 21" and "kpts ! a \<noteq> kpts ! b" and "length (mono_sigma r) = 63"
    and "length (mono_out_mems r) \<le> length (mono_left s)" and "length (mono_out_mems r) \<le> length (mono_right s)"
  shows "\<exists>out s'. mono_inference lib virtual t inp s = Some (Some out, s') \<and> res3d out = eye_to_world vc hand \<and>
    0 < kpt3d_score out \<and> kpt3d_score out < 1"
proof -
  let ?left = "nimble_is_left inp" and ?q = "if nimble_is_left inp then mat3_mult flip_x rot else rot"
  note pre = mono_preprocess_state [OF assms(1)]
  have kpts: "length kpts = 21" using assms(2) by (auto simp: read_kpts_def split: if_splits)
  have joints: "length joints = 26" "joints ! 0 = v3 0 0 0" using decoded_root [OF assms(11)] by auto
  have "get_transform_with_svd (mono_svd lib) svd_src_pt (mono_svd_pt r) = (rot, t0)"
    by (rule svd_recovers_pose [where h = h]) (use assms(5-8) pos_def_svd_src in \<open>simp_all add: svd_src_pt_def\<close>)
  then have q: "mono_rotation (mono_svd lib) ?left (mono_svd_pt r) = ?q" by (simp add: mono_rotation_def)
  have shown: "\<forall>i<21. shown_at (intrinsics vc) (add3 (mat3_apply ?q (joints ! i)) pos) (facing_kpts ?left kpts ! i)"
    using assms(16) joints(1) by (simp add: assms(15) true_hand_def)
  have sigma: "63 \<le> length (mono_sigma r)" and flen: "length (facing_kpts ?left kpts) = 21"
    using assms(20) kpts by simp_all
  have differ: "facing_kpts ?left kpts ! a \<noteq> facing_kpts ?left kpts ! b"
    using assms(17-19) kpts by (simp add: facing_kpts_inj)
  have hand: "hand = map (\<lambda>p. add3 (mat3_apply ?q p) pos) joints" by (simp add: assms(15) true_hand_def)
  obtain w g where w: "cal_kpt_weight (mono_sigma r) = Some w"
    "get_3d_kpt (take 21 (map (mat3_apply ?q) joints)) (facing_kpts ?left kpts) (intrinsics_matrix (intrinsics vc)) w = Some g"
    "g @ map (\<lambda>p. add3 p (g ! 0)) (drop 21 (map (mat3_apply ?q) joints)) = hand"
    using hand_placed [OF joints sigma flen assms(13,14) shown assms(17,18) differ] unfolding hand by blast
  obtain s2 where s2: "mono_keep_memory (mono_out_mems r) s1 = Some s2"
    using assms(21,22) pre by (auto simp: mono_keep_memory_def write_at_def)
  have blocks: "read_block 7 (mono_svd_pt r) = Some (mono_svd_pt r)" "read_block 171 (mono_angle r) = Some (mono_angle r)"
    "read_block 63 (mono_sigma r) = Some (mono_sigma r)"
    using assms(6,9,20) by (simp_all add: read_block_def svd_src_pt_def)
  have "mono_postprocess lib r \<lparr>res3d = [], kpt3d_score = 0, mono_kpts = kpts\<rparr> s1 =
      Some (\<lparr>res3d = eye_to_world vc hand, kpt3d_score = mono_score (mono_sigma r), mono_kpts = facing_kpts ?left kpts\<rparr>, s2)"
    using assms(3,12) blocks pre q s2 proper_decode_id [OF assms(9,10)] assms(11) w
    by (cases ?left) (simp_all add: mono_postprocess_def facing_kpts_def Let_def)
  moreover have "0 < mono_score (mono_sigma r) \<and> mono_score (mono_sigma r) < 1"
    using assms(20) by (intro mono_score_between) auto
  ultimately show ?thesis using assms(1,2,4) by (simp add: mono_inference_def)
qed

section \<open>An example\<close>

definition src_factor :: mat3 where
  "src_factor = (v3 (1 / sqrt 3) (1 / sqrt 2) (1 / sqrt 6), v3 (1 / sqrt 3) (- (1 / sqrt 2)) (1 / sqrt 6),
     v3 (1 / sqrt 3) 0 (- 2 * (1 / sqrt 6)))"

definition example_svd :: svd3 where
  "example_svd m =
     (if m = src_scatter then (src_factor, v3 (src_diag + 3 * src_off) src_diag src_diag, src_factor)
      else (m, v3 1 1 1, mat3_identity))"

lemma svd_of_scatter: "is_svd src_scatter (example_svd src_scatter)"
proof -
  define a b c where abc: "a = 1 / sqrt 3" "b = 1 / sqrt 2" "c = 1 / sqrt 6"
  have sq: "a * a = 1/3" "b * b = 1/2" "c * c = 1/6" "c * (c * x) = x / 6" "a * (a * x) = x / 3" "b * (b * x) = x / 2" for x
    by (simp_all add: abc flip: mult.assoc)
  have f: "src_factor = (v3 a b c, v3 a (- b) c, v3 a 0 (- 2 * c))" by (simp add: src_factor_def abc)
  have o: "orthogonal src_factor"
    unfolding f orthogonal_def by (simp add: mat3_mult_def mat3_identity_def model_defs algebra_simps sq)
  have "src_scatter = mat3_mult src_factor (mat3_mult (diag3 (v3 (src_diag + 3 * src_off) src_diag src_diag)) (mat3_transpose src_factor))"
    unfolding f src_scatter_def by (simp add: mat3_mult_def diag3_def model_defs algebra_simps sq)
  with o src_positive show ?thesis by (simp add: example_svd_def is_svd_def)
qed

definition example_angles :: "real list" where
  "example_angles = concat (map (\<lambda>i. flat9 quarter_turn) [0..<19])"

definition example_joints :: "vec3 list" where
  "example_joints = (case decode_hand_joints 0 example_angles of None \<Rightarrow> [] | Some js \<Rightarrow> js)"

definition example_hand :: "vec3 list" where
  "example_hand = true_hand True mat3_identity (v3 0 0 (1 + sum_list (map (\<lambda>p. \<bar>vz p\<bar>) example_joints))) example_joints"

definition seen_at :: "vec3 \<Rightarrow> vec2" where
  "seen_at p = to_window (intrinsics example_camera) (v2 (vx p / vz p) (vy p / vz p))"

definition example_mono_inputs :: mono_nimble_inputs where
  "example_mono_inputs = \<lparr>pred_x = map (\<lambda>p. 128 - v2x (seen_at p)) (take 21 example_hand),
     pred_y = map (\<lambda>p. v2y (seen_at p)) (take 21 example_hand), raw_feats = [], nimble_is_left = True, virtual_camera_in = 0\<rparr>"

definition example_mono_lib :: mono_lib where
  "example_mono_lib = \<lparr>mono_svd = example_svd, mono_feat_size = 0, mono_mem_size = 384, mono_packed = True,
     mono_run = (\<lambda>f sc m. Some \<lparr>mono_svd_pt = svd_src_pt, mono_angle = example_angles, mono_sigma = replicate 63 0,
        mono_out_mems = map (\<lambda>x. x + 1) m\<rparr>)\<rparr>"

lemma example_joints: "decode_hand_joints 0 example_angles = Some example_joints"
  "length example_joints = 26" "vx (example_joints ! 0) = 0" "vx (example_joints ! 1) \<noteq> 0"
proof -
  have len: "length example_angles = 171" by (simp add: example_angles_def length_concat comp_def sum_list_triv)
  show e: "decode_hand_joints 0 example_angles = Some example_joints"
    using len by (simp add: example_joints_def decode_hand_joints_def Let_def)
  show "length example_joints = 26" "vx (example_joints ! 0) = 0" using decoded_root [OF e] by simp_all
  have "example_joints ! 1 = scale3 (1 / 1000) (sub3 (snd (hand_poses 0 example_angles 25 ! 1)) (snd (hand_poses 0 example_angles 25 ! 0)))"
    using len by (simp add: example_joints_def decode_hand_joints_def valid_joint_index_def Let_def)
  then show "vx (example_joints ! 1) \<noteq> 0"
    using hand_poses_step [of 1 0 example_angles]
    by (simp add: hand_poses_root kintree_parents_def real_joints_def nimble_template_def
        iso_compose_def iso_apply_def mat3_identity_def model_defs)
qed

lemma example_hand_nth:
  assumes "i < 26"
  shows "vx (example_hand ! i) = - vx (example_joints ! i) \<and> 0 < vz (example_hand ! i)"
proof -
  have "\<bar>vz (example_joints ! i)\<bar> \<le> sum_list (map (\<lambda>p. \<bar>vz p\<bar>) example_joints)"
    using assms example_joints(2) by (intro member_le_sum_list) auto
  then show ?thesis
    using assms example_joints(2)
    by (simp add: example_hand_def true_hand_def flip_x_def model_defs)
qed

definition example_mono :: mono_net where
  "example_mono = snd (mono_init True new_mono_net)"

theorem mono_hand_recovered_witness:
  "\<exists>out s'. mono_inference example_mono_lib (\<lambda>_. example_camera) 0.01 example_mono_inputs example_mono = Some (Some out, s') \<and>
     res3d out = eye_to_world example_camera example_hand \<and> 0 < kpt3d_score out \<and> kpt3d_score out < 1"
proof -
  define kpts where "kpts = map (\<lambda>p. v2 (128 - v2x (seen_at p)) (v2y (seen_at p))) (take 21 example_hand)"
  have len: "length example_hand = 26" using example_joints(2) by (simp add: example_hand_def true_hand_def)
  have kpts: "read_kpts example_mono_inputs = Some kpts"
    using len by (auto simp: read_kpts_def example_mono_inputs_def kpts_def intro!: nth_equalityI)
  have seen: "facing_kpts True kpts ! i = seen_at (example_hand ! i)" if "i < 21" for i
    using that len by (simp add: facing_kpts_def flip_kpts_def kpts_def mono_image_shape_def)
  have shown: "\<forall>i<21. shown_at (intrinsics example_camera) (example_hand ! i) (facing_kpts True kpts ! i)"
    using example_hand_nth seen by (auto simp: shown_at_def seen_at_def less_le)
  have "v2x (seen_at (example_hand ! 0)) \<noteq> v2x (seen_at (example_hand ! 1))"
    using example_hand_nth [of 0] example_hand_nth [of 1] example_joints(3,4)
    by (simp add: seen_at_def to_window_def example_camera_def)
  then have differ: "kpts ! 0 \<noteq> kpts ! 1" using len by (simp add: kpts_def)
  have rot: "proper_rotation mat3_identity"
    by (simp add: proper_rotation_def)
  have angles: "length example_angles = 171" by (simp add: example_angles_def length_concat comp_def sum_list_triv)
  have "i < 19 \<Longrightarrow> block9 i example_angles = quarter_turn" for i by (simp add: example_angles_def block9_concat)
  moreover have "quarter_turn \<noteq> src_scatter" using src_positive by (simp add: quarter_turn_def src_scatter_def)
  ultimately have blocks: "\<forall>i<19. proper_rotation (block9 i example_angles) \<and>
      is_svd (block9 i example_angles) (example_svd (block9 i example_angles))"
    using proper_quarter_turn by (simp add: is_svd_def example_svd_def diag3_ones proper_rotation_def)
  have src: "svd_src_pt = map (iso_apply (mat3_identity, v3 0 0 0)) svd_src_pt"
    by (simp add: map_idI flip: iso_identity_def)
  let ?r = "\<lparr>mono_svd_pt = svd_src_pt, mono_angle = example_angles, mono_sigma = replicate 63 0, mono_out_mems = replicate 384 1\<rparr>"
  obtain s1 where pre: "mono_preprocess example_mono_lib (\<lambda>_. example_camera) 0.01 example_mono_inputs example_mono =
      Some (([], 240 / standard_fscale, replicate 384 0), s1)"
    by (simp add: mono_preprocess_def mono_memory_def read_block_def example_mono_lib_def example_mono_inputs_def
        example_mono_def mono_init_def new_mono_net_def resize_mem_def example_camera_def reset_mem_time_def)
  show ?thesis
    by (rule mono_hand_recovered [where r = ?r and rot = mat3_identity and ?t0.0 = "v3 0 0 0" and a = 0 and b = 1 and kpts = kpts
          and joints = example_joints and h = src_scatter and pos = "v3 0 0 (1 + sum_list (map (\<lambda>p. \<bar>vz p\<bar>) example_joints))", OF pre kpts])
      (use shown differ rot angles blocks example_joints(1) svd_of_scatter in
        \<open>simp_all add: example_mono_lib_def example_mono_inputs_def example_mono_def mono_init_def new_mono_net_def resize_mem_def
          svd_src_scatter example_hand_def example_camera_def flip: src\<close>)
qed

end
