(* ===== verification/SplitPipeline.thy ===== *)
theory SplitPipeline
  imports HandXGraph
begin

text \<open>
  The pipeline that is split between glasses and host:
  \<^verbatim>\<open>aisdk/task/handtracking/handtracking_next_host_xgraph.cpp\<close>, which receives what the glasses
  found, and \<^verbatim>\<open>handtracking_prior_glass_xgraph.cpp\<close>, which finds it. Both are built on \<open>BaseXGraph\<close>;
  tables and structs of the results are those of theory HandXGraph. None stands for an access
  outside a vector, a packet of another type, or an exception that leaves the call.
\<close>

section \<open>The host\<close>

text \<open>The frame is registered, but the calls that would push its packets are commented out.\<close>

definition next_host_push :: "u64 \<Rightarrow> 'p base_xgraph \<Rightarrow> bool \<times> 'p base_xgraph" where
  "next_host_push timestamp_nanos b =
     (let timestamp_micro = uint (timestamp_nanos div 1000)
      in (True, snd (SetInputStreamCache timestamp_nanos timestamp_micro b)))"

definition next_host_hand :: "'c kf_lib \<Rightarrow> 'q hand_env \<Rightarrow> bool \<Rightarrow> nat \<Rightarrow> single_hand_data \<Rightarrow> bool \<Rightarrow> u64 \<Rightarrow> real
    \<Rightarrow> 'c kf_predictor \<Rightarrow> 'q hand_out \<Rightarrow> ('q hand_out \<times> 'c kf_predictor) option" where
  "next_host_hand lib env openxr i h valid raw query p out0 =
     (let tracked = (valid \<and> kf3_get_tracking_status p);
          out = start_hand openxr i h tracked out0;
          n = EZXR_DEFINED_JOINTS openxr
      in if \<not> tracked \<or> query = 0 then Some (out, p)
         else if length (kpt3d h) < n then None
         else do {
           (root_kf_predicted, p') \<leftarrow> ok_of (Some (kf3_track_only_pred lib query True True p));
           let predicted_points = map (\<lambda>q. sub3 (add3 q root_kf_predicted) (kpt3d h ! 0)) (take n (kpt3d h)) @ drop n (kpt3d h);
           js \<leftarrow> write_joints env openxr predicted_points (rotation h) (out_joints out);
           Some (out\<lparr>out_joints := js, out_image_timestamp := raw\<rparr>, p')
         })"

definition next_host_pop :: "'c kf_lib \<Rightarrow> 'q hand_env \<Rightarrow> bool \<Rightarrow> u64 \<Rightarrow> 'c predictor_service \<Rightarrow> xg_packet base_xgraph
    \<Rightarrow> 'q hand_out \<Rightarrow> 'q hand_out
    \<Rightarrow> (bool \<times> nat \<times> ('q hand_out \<times> 'q hand_out) \<times> 'c predictor_service) option" where
  "next_host_pop lib env openxr hmd_time_nano g b out0 out1 =
     (case fst (GetOutputStreamCache 0 True b) of
        None \<Rightarrow> Some (False, 0, (out0, out1), g)
      | Some outlist \<Rightarrow> do {
          pack \<leftarrow> nth_opt (output_packs outlist) 0;
          (hands, stamp) \<leftarrow> hand_packet pack;
          (l, pl) \<leftarrow> next_host_hand lib env openxr 0 (left_hand hands) (lhand_valid hands) (raw_timestamp outlist)
             (query_seconds hmd_time_nano) (kfpredictor_lhand g) out0;
          (r, pr) \<leftarrow> next_host_hand lib env openxr 1 (right_hand hands) (rhand_valid hands) (raw_timestamp outlist)
             (query_seconds hmd_time_nano) (kfpredictor_rhand g) out1;
          Some (True, 2, (l, r), g\<lparr>kfpredictor_lhand := pl, kfpredictor_rhand := pr\<rparr>)
        })"

section \<open>The glasses\<close>

definition prior_glass_push :: "u64 \<Rightarrow> bool \<Rightarrow> 'p base_xgraph \<Rightarrow> bool \<times> 'p base_xgraph" where
  "prior_glass_push timestamp image_ok b =
     (let timestamp_micro = uint (timestamp div 1000);
          (ok, b) = SetInputStreamCache timestamp timestamp_micro b
      in (True, if ok \<and> \<not> image_ok then ClearInputStreamCache timestamp_micro b else b))"

text \<open>The packet is read, but nothing of it is written to \<open>out_hand\<close>, the last component.\<close>

definition prior_glass_pop :: "xg_packet base_xgraph \<Rightarrow> 'o \<Rightarrow> (bool \<times> 'o) option" where
  "prior_glass_pop b out_hand =
     (case fst (GetOutputStreamCache 0 True b) of
        None \<Rightarrow> Some (False, out_hand)
      | Some outlist \<Rightarrow> do {
          pack \<leftarrow> nth_opt (output_packs outlist) 0;
          (hands, stamp) \<leftarrow> hand_packet pack;
          Some (True, out_hand)
        })"

lemma prior_glass_writes_nothing: "prior_glass_pop b out_hand = Some (ok, out') \<Longrightarrow> out' = out_hand"
  by (auto simp: prior_glass_pop_def bind_eq_Some_conv split: option.splits)

text \<open>A frame that mediapipe refuses, or that comes twice, is reported as pushed.\<close>

lemma prior_glass_push_succeeds: "fst (prior_glass_push t image_ok b) \<and> fst (next_host_push t b)"
  by (simp add: prior_glass_push_def next_host_push_def Let_def split: prod.splits)

section \<open>The joints of the host\<close>

lemma next_host_hand_cases:
  assumes "next_host_hand lib env openxr i h valid raw query p out0 = Some (out, p')"
    and "out_is_tracked out" and "query \<noteq> 0"
  obtains root_kf js where "kf3_track_only_pred lib query True True p = Inr (root_kf, p')"
    and "EZXR_DEFINED_JOINTS openxr \<le> length (kpt3d h)"
    and "write_joints env openxr (map (\<lambda>q. sub3 (add3 q root_kf) (kpt3d h ! 0)) (take (EZXR_DEFINED_JOINTS openxr) (kpt3d h)) @
           drop (EZXR_DEFINED_JOINTS openxr) (kpt3d h)) (rotation h) (clear_joints openxr (out_joints out0)) = Some js"
    and "out_joints out = js" and "out_image_timestamp out = raw"
  using assms
  by (auto simp: next_host_hand_def start_hand_def Let_def bind_eq_Some_conv split: if_splits)

lemma write_joints_values:
  assumes "write_joints env openxr ps R (clear_joints openxr js) = Some js'" and "JOINTS_COUNT openxr \<le> length js"
    and "j < EZXR_DEFINED_JOINTS openxr"
  shows "joint_position (js' ! (xreal_2_clay openxr ! j)) = ps ! j \<and>
    joint_rotation (js' ! (xreal_2_clay openxr ! j)) = to_quaternion env (R ! j)"
proof -
  let ?clay = "xreal_2_clay openxr" and ?js = "clear_joints openxr js"
  have js': "js' = fold (write_joint env ?clay ps R) [0..<length ?clay] ?js"
    using assms(1) by (simp add: write_joints_def Let_def clay_facts(1) split: if_splits)
  have "\<forall>c\<in>set ?clay. c < length ?js" using clay_facts(3) [of openxr] assms(2) by auto
  from fold_write_joint(1) [OF clay_facts(2) this order_refl, of env ps R] assms(3) show ?thesis
    by (auto simp: js' Let_def clay_facts(1))
qed

text \<open>
  A tracked hand of the host is the measured hand moved with its root to the predicted place,
  and every rotation is the measured one; places of the layout that no joint has stay invalid.
\<close>

lemma next_host_moves_hand:
  assumes "next_host_hand lib env openxr i h valid raw query p out0 = Some (out, p')"
    and "out_is_tracked out" and "query \<noteq> 0" and "JOINTS_COUNT openxr \<le> length (out_joints out0)"
  shows "\<exists>root_kf. kf3_track_only_pred lib query True True p = Inr (root_kf, p') \<and> joints_written openxr (out_joints out) \<and>
    (\<forall>j<EZXR_DEFINED_JOINTS openxr.
       joint_position (out_joints out ! (xreal_2_clay openxr ! j)) = sub3 (add3 (kpt3d h ! j) root_kf) (kpt3d h ! 0) \<and>
       joint_rotation (out_joints out ! (xreal_2_clay openxr ! j)) = to_quaternion env (rotation h ! j))"
proof -
  from assms(1-3) obtain root_kf js where r: "kf3_track_only_pred lib query True True p = Inr (root_kf, p')"
    and n: "EZXR_DEFINED_JOINTS openxr \<le> length (kpt3d h)"
    and w: "write_joints env openxr (map (\<lambda>q. sub3 (add3 q root_kf) (kpt3d h ! 0)) (take (EZXR_DEFINED_JOINTS openxr) (kpt3d h)) @
           drop (EZXR_DEFINED_JOINTS openxr) (kpt3d h)) (rotation h) (clear_joints openxr (out_joints out0)) = Some js"
    and js: "out_joints out = js" by (rule next_host_hand_cases)
  from r n js write_joints_values [OF w assms(4)] write_joints_written [OF w assms(4)] show ?thesis
    by (simp add: nth_append)
qed

section \<open>What the host delivers\<close>

datatype host_op = HostPush u64 | HostStart bool | HostStop bool

fun host_step :: "host_op \<Rightarrow> 'p base_xgraph \<Rightarrow> 'p base_xgraph" where
  "host_step (HostPush t) b = snd (next_host_push t b)"
| "host_step (HostStart ok) b = snd (base_start ok b)"
| "host_step (HostStop ok) b = snd (base_stop ok b)"

definition no_results :: "'p base_xgraph \<Rightarrow> bool" where
  "no_results b \<longleftrightarrow> (\<forall>q\<in>set (output_stream_groud_cache b). q = []) \<and>
     length (inference_stream_cache b) < BASEXGRAPH_MAX_GLOBALCACHEDEPTH"

lemma no_results_step: "no_results b \<Longrightarrow> no_results (host_step op b)"
  using clean_no_result_length
  by (cases op) (auto simp: no_results_def next_host_push_def SetInputStreamCache_def base_start_def base_stop_def Let_def)

lemma no_results_get: "no_results b \<Longrightarrow> fst (GetOutputStreamCache k reuse b) = None"
proof -
  assume "no_results b"
  then have "output_stream_groud_cache b ! k = []" if "k < length (output_stream_groud_cache b)"
    using that by (simp add: no_results_def)
  then show ?thesis by (simp add: GetOutputStreamCache_def)
qed

lemma no_results_run: "no_results b \<Longrightarrow> no_results (fold host_step ops b)"
  by (induction ops arbitrary: b) (simp_all add: no_results_step)

text \<open>
  The host never delivers a hand: no packet enters its graph, so after any sequence of pushes,
  starts and stops \<open>PopResult\<close> fails with no hands and leaves the caller's array and the
  predictors alone, while the frames it registered wait in the map, at most 899 of them.
\<close>

lemma next_host_never_delivers:
  assumes "length names \<le> 64"
  shows "let b = fold host_step ops (base_init names base_xgraph_new)
    in next_host_pop lib env openxr hmd g b out0 out1 = Some (False, 0, (out0, out1), g) \<and>
       length (inference_stream_cache b) < BASEXGRAPH_MAX_GLOBALCACHEDEPTH"
proof -
  have "no_results (base_init names base_xgraph_new :: xg_packet base_xgraph)"
    using base_init_configured [OF assms] by (auto simp: no_results_def configured_def)
  note none = no_results_run [OF this, of ops]
  then show ?thesis using no_results_get [OF none] by (simp add: next_host_pop_def no_results_def Let_def)
qed

end
