(* ===== verification/Artosyn.thy ===== *)
theory Artosyn
  imports HandDetect Kernels
begin

text \<open>
  The networks for the Artosyn chip: \<^verbatim>\<open>aisdk/algorithm/model_artosyn/hand_detect_artosyn.{h,cpp}\<close>,
  \<^verbatim>\<open>hand_rsntiny_artosyn.{h,cpp}\<close> and the layout of the chip's tensors (\<open>ArtosynNpuGetEntryIndex\<close> of
  \<^verbatim>\<open>aisdk/xengine/nrhal_common.cpp\<close>), whose 32-bit integers are natural numbers here. The resizing of
  the pixels is not modelled: a blob of an input is the image last written to it, \<open>RunNet\<close> is a function
  of the blobs. The outer None stands for a read outside a tensor or of a variable that was never
  assigned, and for a division by zero.
\<close>

section \<open>The layout of a tensor\<close>

text \<open>
  Channels come in groups of \<open>npu_k_size_norm\<close>, \<open>npu_k_norm_num\<close> full groups and one of
  \<open>npu_k_size_last\<close>; a group is stored row by row with its channels side by side, and the batches
  share the space of a group.
\<close>

record npu_dims =
  npu_width :: nat
  npu_height :: nat
  npu_k_step :: nat
  npu_k_norm_num :: nat
  npu_k_size_last :: nat
  npu_k_size_norm :: nat
  npu_ori_channels :: nat
  npu_row_step :: nat

definition npu_entry_index :: "nat \<Rightarrow> nat \<Rightarrow> nat \<Rightarrow> nat \<Rightarrow> nat \<Rightarrow> nat \<Rightarrow> npu_dims \<Rightarrow> nat option" where
  "npu_entry_index batch batch_total h w c byte_unit d =
     (if npu_k_size_norm d = 0 \<or> batch_total = 0 \<or> byte_unit = 0 then None
      else
        (let kn = npu_k_size_norm d;
             batch_offset = (npu_k_step d div byte_unit) div batch_total * batch;
             address_offset = (c div kn) * npu_k_step d + h * npu_row_step d;
             memory_migration =
               (if c < npu_k_norm_num d * kn
                then address_offset + c mod kn * byte_unit + w * kn * byte_unit
                else address_offset + (c - npu_k_norm_num d * kn) * byte_unit + w * npu_k_size_last d * byte_unit)
         in Some (memory_migration div byte_unit + batch_offset)))"

definition npu_layout_ok :: "nat \<Rightarrow> nat \<Rightarrow> npu_dims \<Rightarrow> bool" where
  "npu_layout_ok batch_total byte_unit d \<longleftrightarrow>
     0 < npu_k_size_norm d \<and> 0 < batch_total \<and> 0 < byte_unit \<and> byte_unit dvd npu_k_step d \<and> byte_unit dvd npu_row_step d \<and>
     npu_width d * npu_k_size_norm d * byte_unit \<le> npu_row_step d \<and>
     npu_height d * npu_row_step d * batch_total \<le> npu_k_step d \<and>
     npu_k_size_last d \<le> npu_k_size_norm d \<and>
     npu_ori_channels d \<le> npu_k_norm_num d * npu_k_size_norm d + npu_k_size_last d"

lemma two_digits: "a * m + x = b * m + y \<Longrightarrow> x < m \<Longrightarrow> y < m \<Longrightarrow> a = b \<and> x = (y :: nat)"
  by (metis add.commute add_right_cancel div_mult_self3 div_less mod_less mod_mult_self3 add_0 less_nat_zero_code)

text \<open>The index of an entry: group, batch, row and place in the row are the digits of a number.\<close>

definition npu_place :: "npu_dims \<Rightarrow> nat \<Rightarrow> nat \<Rightarrow> nat" where
  "npu_place d w c =
     (if c < npu_k_norm_num d * npu_k_size_norm d then w * npu_k_size_norm d + c mod npu_k_size_norm d
      else w * npu_k_size_last d + (c - npu_k_norm_num d * npu_k_size_norm d))"

lemma npu_index_digits:
  assumes "npu_layout_ok nb u d" and "b < nb" and "h < npu_height d" and "w < npu_width d" and "c < npu_ori_channels d"
  defines "K \<equiv> npu_k_step d div u" and "R \<equiv> npu_row_step d div u"
  shows "npu_entry_index b nb h w c u d =
      Some ((c div npu_k_size_norm d) * K + (b * (K div nb) + (h * R + npu_place d w c)))"
    and "npu_place d w c < R" and "h * R + npu_place d w c < K div nb" and "b * (K div nb) + (h * R + npu_place d w c) < K"
proof -
  let ?kn = "npu_k_size_norm d" and ?kl = "npu_k_size_last d"
  have u: "0 < u" "0 < ?kn" "0 < nb" "npu_k_step d = K * u" "npu_row_step d = R * u"
    using assms(1) by (auto simp: npu_layout_ok_def K_def R_def)
  have "npu_width d * ?kn * u \<le> R * u" "npu_height d * R * nb * u \<le> K * u"
    using assms(1) u(4,5) by (simp_all add: npu_layout_ok_def mult.assoc mult.left_commute mult.commute)
  then have wk: "npu_width d * ?kn \<le> R" and hr: "npu_height d * R * nb \<le> K" using u(1) by simp_all
  have "w * ?kn + ?kn \<le> npu_width d * ?kn" using assms(4) by (metis Suc_leI add.commute mult_Suc mult_le_mono1)
  with wk have w: "w * ?kn + ?kn \<le> R" by linarith
  have kl: "?kl \<le> ?kn" "npu_ori_channels d \<le> npu_k_norm_num d * ?kn + ?kl" using assms(1) by (simp_all add: npu_layout_ok_def)
  show p: "npu_place d w c < R"
  proof (cases "c < npu_k_norm_num d * ?kn")
    case True
    have "c mod ?kn < ?kn" using u(2) by simp
    with w True show ?thesis by (simp add: npu_place_def)
  next
    case False
    have "w * ?kl \<le> w * ?kn" using kl(1) by (rule mult_le_mono2)
    moreover have "c - npu_k_norm_num d * ?kn < ?kn" using False assms(5) kl by linarith
    ultimately have "w * ?kl + (c - npu_k_norm_num d * ?kn) < R" using w by linarith
    with False show ?thesis unfolding npu_place_def by (simp only: if_False)
  qed
  have "h * R + R \<le> npu_height d * R" using assms(3) by (metis Suc_leI add.commute mult_Suc mult_le_mono1)
  moreover have "npu_height d * R \<le> K div nb"
    using hr u(3) by (simp add: less_eq_div_iff_mult_less_eq)
  ultimately show hb: "h * R + npu_place d w c < K div nb" using p by linarith
  have "b * (K div nb) + K div nb \<le> nb * (K div nb)" using assms(2) by (metis Suc_leI add.commute mult_Suc mult_le_mono1)
  moreover have "nb * (K div nb) \<le> K" by simp
  ultimately show "b * (K div nb) + (h * R + npu_place d w c) < K" using hb by linarith
  have "(x * (K * u) + h * (R * u) + y * u + w * k * u) div u = x * K + h * R + y + w * k" for x y k
  proof -
    have "x * (K * u) + h * (R * u) + y * u + w * k * u = (x * K + h * R + y + w * k) * u" by (simp add: algebra_simps)
    then show ?thesis using u(1) by simp
  qed
  then show "npu_entry_index b nb h w c u d =
      Some ((c div ?kn) * K + (b * (K div nb) + (h * R + npu_place d w c)))"
    using u by (simp add: npu_entry_index_def npu_place_def Let_def) (simp add: add.assoc add.commute [of c])
qed

lemma npu_index_injective:
  assumes "npu_layout_ok nb u d" and "b < nb" "h < npu_height d" "w < npu_width d" "c < npu_ori_channels d"
    and "b' < nb" "h' < npu_height d" "w' < npu_width d" "c' < npu_ori_channels d"
    and "npu_entry_index b nb h w c u d = npu_entry_index b' nb h' w' c' u d"
  shows "b = b' \<and> h = h' \<and> w = w' \<and> c = c'"
proof -
  let ?kn = "npu_k_size_norm d" and ?kl = "npu_k_size_last d" and ?n = "npu_k_norm_num d"
  note x = npu_index_digits [OF assms(1-5)] and y = npu_index_digits [OF assms(1,6-9)]
  have "c div ?kn * (npu_k_step d div u) + (b * (npu_k_step d div u div nb) + (h * (npu_row_step d div u) + npu_place d w c)) =
      c' div ?kn * (npu_k_step d div u) + (b' * (npu_k_step d div u div nb) + (h' * (npu_row_step d div u) + npu_place d w' c'))"
    using assms(10) unfolding x(1) y(1) by (simp only: option.inject)
  from two_digits [OF this x(4) y(4)]
  have g: "c div ?kn = c' div ?kn" and r1: "b * (npu_k_step d div u div nb) + (h * (npu_row_step d div u) + npu_place d w c) =
      b' * (npu_k_step d div u div nb) + (h' * (npu_row_step d div u) + npu_place d w' c')"
    by simp_all
  have b: "b = b'" and r2: "h * (npu_row_step d div u) + npu_place d w c = h' * (npu_row_step d div u) + npu_place d w' c'"
    using two_digits [OF r1 x(3) y(3)] by auto
  have h: "h = h'" and r3: "npu_place d w c = npu_place d w' c'"
    using two_digits [OF r2 x(2) y(2)] by auto
  have kn: "0 < ?kn" "?kl \<le> ?kn" "npu_ori_channels d \<le> ?n * ?kn + ?kl" using assms(1) by (simp_all add: npu_layout_ok_def)
  have full: "c < ?n * ?kn \<longleftrightarrow> c div ?kn < ?n" for c using kn(1) by (simp add: div_less_iff_less_mult)
  have "w = w' \<and> c = c'"
  proof (cases "c < ?n * ?kn")
    case True
    with g full have "c' < ?n * ?kn" by simp
    with True r3 have "w * ?kn + c mod ?kn = w' * ?kn + c' mod ?kn" by (simp add: npu_place_def)
    from two_digits [OF this] kn(1) have "w = w'" "c mod ?kn = c' mod ?kn" by simp_all
    with g show ?thesis by (metis div_mult_mod_eq)
  next
    case False
    with g full have c': "\<not> c' < ?n * ?kn" by simp
    with False r3 have "w * ?kl + (c - ?n * ?kn) = w' * ?kl + (c' - ?n * ?kn)" by (simp add: npu_place_def)
    moreover have "c - ?n * ?kn < ?kl" "c' - ?n * ?kn < ?kl" using False c' assms(5,9) kn(3) by linarith+
    ultimately have "w = w'" "c - ?n * ?kn = c' - ?n * ?kn" using two_digits by blast+
    with False c' show ?thesis by linarith
  qed
  with b h show ?thesis by simp
qed

text \<open>
  C33: the chip's tensors have room for every entry: in a layout whose rows hold their channels,
  whose groups hold the rows of all batches, and whose last group is not wider than the others,
  every entry of the tensor has an index, in the space of its group, and two entries (of the
  same or of different batches) have the same index only if they are the same.
\<close>

theorem npu_entries_apart:
  assumes "npu_layout_ok nb u d" and "b < nb" "h < npu_height d" "w < npu_width d" "c < npu_ori_channels d"
    and "b' < nb" "h' < npu_height d" "w' < npu_width d" "c' < npu_ori_channels d"
  shows "\<exists>k. npu_entry_index b nb h w c u d = Some k \<and> k div (npu_k_step d div u) = c div npu_k_size_norm d \<and>
    (npu_entry_index b' nb h' w' c' u d = Some k \<longleftrightarrow> (b', h', w', c') = (b, h, w, c))"
  using npu_index_digits [OF assms(1-5)] npu_index_injective [OF assms] by auto

definition example_npu :: npu_dims where
  "example_npu = \<lparr>npu_width = 2, npu_height = 2, npu_k_step = 64, npu_k_norm_num = 1, npu_k_size_last = 1, npu_k_size_norm = 2,
     npu_ori_channels = 3, npu_row_step = 16\<rparr>"

theorem npu_entries_apart_witness:
  "\<exists>k. npu_entry_index 1 2 1 0 2 4 example_npu = Some k \<and> k div 16 = 1 \<and> npu_entry_index 0 2 1 1 2 4 example_npu \<noteq> Some k"
proof -
  have ok: "npu_layout_ok 2 4 example_npu" by (simp add: npu_layout_ok_def example_npu_def)
  have "1 < (2::nat)" "1 < npu_height example_npu" "0 < npu_width example_npu" "2 < npu_ori_channels example_npu"
    "0 < (2::nat)" "1 < npu_height example_npu" "1 < npu_width example_npu" "2 < npu_ori_channels example_npu"
    by (simp_all add: example_npu_def)
  from npu_entries_apart [OF ok this] show ?thesis by (auto simp: example_npu_def)
qed

definition npu_read :: "real list \<Rightarrow> nat \<Rightarrow> nat \<Rightarrow> npu_dims \<Rightarrow> nat \<Rightarrow> nat \<Rightarrow> nat \<Rightarrow> real option" where
  "npu_read data batch batch_total d c h w = Option.bind (npu_entry_index batch batch_total h w c 4 d) (read_at data)"

record npu_tensor =
  nt_dims :: npu_dims
  nt_data :: "real list"

section \<open>The detection network\<close>

record npu_blob =
  blob_width :: nat
  blob_height :: nat
  blob_wstride :: nat
  blob_elementbyte :: nat
  blob_gray :: bool

record 'i npu_detect =
  nd_blobs :: "npu_blob list"
  nd_input :: "'i list"
  nd_in_batch :: nat
  nd_multi_input :: nat
  nd_packed :: bool
  nd_out_batch :: nat
  nd_grid_w :: nat
  nd_grid_h :: nat
  nd_anchors :: "grid_anchor list"
  nd_origin :: "(nat \<times> nat) option"
  nd_batch1 :: bool
  nd_session_batch :: nat

definition npu_anchors :: "nat \<Rightarrow> nat \<Rightarrow> grid_anchor list" where
  "npu_anchors gh gw =
     concat (map (\<lambda>i. map (\<lambda>j. \<lparr>grid_x = - 0.5 + real j, grid_y = - 0.5 + real i, anchor_rw = 31, anchor_rh = 68\<rparr>) [0..<gw])
       [0..<gh])"

text \<open>
  \<open>base_ok\<close> is the outcome of the base class, \<open>is_blob\<close> says whether the network takes blobs, \<open>index\<close>
  is the place of the blob \<open>images\<close>.
\<close>

definition npu_detect_init :: "bool \<Rightarrow> nat \<Rightarrow> bool \<Rightarrow> bool \<Rightarrow> nat \<Rightarrow> 'i npu_detect \<Rightarrow> (bool \<times> 'i npu_detect) option" where
  "npu_detect_init dont_batch batch base_ok is_blob index n0 =
     (let n = (if dont_batch \<and> batch > 1 then n0\<lparr>nd_session_batch := batch, nd_batch1 := True\<rparr> else n0)
      in if \<not> base_ok \<or> \<not> is_blob then Some (False, n)
         else do {
           b \<leftarrow> read_at (nd_blobs n) index;
           let (gw, gh) = (if blob_height b > blob_width b then (12, 16) else (nd_grid_w n, nd_grid_h n));
           Some (True, n\<lparr>nd_grid_w := gw, nd_grid_h := gh, nd_anchors := npu_anchors gh gw\<rparr>)
         })"

text \<open>An image goes into its blob; blobs that are not grey are skipped.\<close>

definition npu_take_image :: "('i \<Rightarrow> nat \<times> nat) \<Rightarrow> 'i list \<Rightarrow> nat \<Rightarrow> 'i npu_detect \<Rightarrow> 'i npu_detect option" where
  "npu_take_image size_of imgs i n = do {
     b \<leftarrow> read_at (nd_blobs n) i;
     if \<not> blob_gray b then Some n
     else Some (n\<lparr>nd_input := (nd_input n)[i := imgs ! i], nd_origin := Some (size_of (imgs ! i))\<rparr>)
   }"

definition npu_detect_preprocess :: "('i \<Rightarrow> nat \<times> nat) \<Rightarrow> 'i list \<Rightarrow> 'i npu_detect \<Rightarrow> 'i npu_detect option" where
  "npu_detect_preprocess size_of imgs n =
     (if nd_in_batch n * nd_multi_input n \<noteq> length imgs \<or> nd_packed n then Some n
      else fold_opt (npu_take_image size_of imgs) [0..<length imgs] n)"

text \<open>A cell of the grid; the inner None: its score is not above the threshold.\<close>

definition npu_cell :: "grid_anchor list \<Rightarrow> nat \<Rightarrow> nat \<Rightarrow> npu_tensor \<Rightarrow> npu_tensor \<Rightarrow> nat \<Rightarrow> nat \<Rightarrow> detect_rect option option" where
  "npu_cell anchors batch nb box cls i j =
     (let cls_at = (\<lambda>k. npu_read (nt_data cls) batch nb (nt_dims cls) k i j);
          box_at = (\<lambda>k. npu_read (nt_data box) batch nb (nt_dims box) k i j)
      in do {
        sc \<leftarrow> cls_at 0;
        l \<leftarrow> cls_at 1;
        r \<leftarrow> cls_at 2;
        if sc > score_threshold
        then if npu_ori_channels (nt_dims box) < 4 then None
             else do {
               c0 \<leftarrow> box_at 0;
               c1 \<leftarrow> box_at 1;
               c2 \<leftarrow> box_at 2;
               c3 \<leftarrow> box_at 3;
               a \<leftarrow> read_at anchors (i * npu_width (nt_dims box) + j);
               Some (Some (decode_box a c0 c1 c2 c3 sc l r (l * sc > r * sc)))
             }
        else Some None
      })"

definition npu_detect_batch :: "nat \<Rightarrow> 'i npu_detect \<Rightarrow> npu_tensor \<Rightarrow> npu_tensor \<Rightarrow> nat
    \<Rightarrow> detect_rect list \<times> detect_rect list \<Rightarrow> (detect_rect list \<times> detect_rect list) option" where
  "npu_detect_batch nb n box cls batch lr = do {
     cands \<leftarrow> all_cells (npu_cell (nd_anchors n) batch nb box cls) (npu_height (nt_dims cls)) (npu_width (nt_dims cls));
     b \<leftarrow> read_at (nd_blobs n) 0;
     origin \<leftarrow> nd_origin n;
     Some (keep_boxes (rescale_rect (blob_height b) (blob_width b) origin) cands lr)
   }"

definition npu_detect_postprocess :: "(string \<Rightarrow> nat) \<Rightarrow> 'i npu_detect \<Rightarrow> npu_tensor list \<Rightarrow> det_rects \<Rightarrow> det_rects option" where
  "npu_detect_postprocess tensor_index n ts rs = do {
     box \<leftarrow> read_at ts (tensor_index ''output_box'');
     cls \<leftarrow> read_at ts (tensor_index ''output_cls'');
     fold_opt (\<lambda>b. update_rects b (npu_detect_batch (nd_out_batch n) n box cls b)) [0..<nd_out_batch n]
       (resize_rects (nd_out_batch n) rs)
   }"

text \<open>
  The methods for a split batch are empty. As in the other networks, the lines that trace the sizes of the
  first two images read both.
\<close>

fun npu_split_runs :: "('i list \<Rightarrow> npu_tensor list option) \<Rightarrow> 'i npu_detect \<Rightarrow> nat \<Rightarrow> bool \<Rightarrow> bool" where
  "npu_split_runs run n 0 ok = ok"
| "npu_split_runs run n (Suc k) ok = npu_split_runs run n k (run (nd_input n) \<noteq> None)"

definition npu_detect_inference :: "('i \<Rightarrow> nat \<times> nat) \<Rightarrow> (string \<Rightarrow> nat) \<Rightarrow> ('i list \<Rightarrow> npu_tensor list option) \<Rightarrow> 'i list
    \<Rightarrow> 'i npu_detect \<Rightarrow> det_rects \<Rightarrow> (bool \<times> 'i npu_detect \<times> det_rects) option" where
  "npu_detect_inference size_of tensor_index run imgs n0 rs0 =
     (if nd_batch1 n0
      then Some (npu_split_runs run n0 (nd_session_batch n0) True, n0, resize_rects (nd_session_batch n0) rs0)
      else do {
        n \<leftarrow> npu_detect_preprocess size_of imgs n0;
        case run (nd_input n) of
          None \<Rightarrow> Some (False, n, resize_rects (nd_out_batch n) rs0)
        | Some ts \<Rightarrow> do {
            rs \<leftarrow> npu_detect_postprocess tensor_index n ts rs0;
            if length (fst rs) < 2 \<or> length (snd rs) < 2 then None else Some (True, n, rs)
          }
      })"

subsection \<open>The best box is reported\<close>

lemma npu_cell_candidate:
  assumes "npu_cell anchors batch nb box cls i j = Some (Some b)"
  shows "score_threshold < confidence b \<and> \<not> nms_suppressed b"
  using assms by (auto simp: npu_cell_def decode_box_def Let_def bind_eq_Some_conv split: if_splits)

text \<open>The chip's detection reports the best box of each hand, as the other networks do.\<close>

lemma npu_detection_reports_best:
  assumes "npu_detect_batch nb n box cls batch ([], []) = Some (l, r)"
  shows "length l \<le> 1 \<and> (\<forall>b\<in>set l. is_left b \<and> score_threshold < confidence b) \<and>
    length r \<le> 1 \<and> (\<forall>b\<in>set r. \<not> is_left b \<and> score_threshold < confidence b) \<and>
    (\<forall>i<npu_height (nt_dims cls). \<forall>j<npu_width (nt_dims cls). \<forall>b. npu_cell (nd_anchors n) batch nb box cls i j = Some (Some b) \<longrightarrow>
       (\<exists>b'. (if is_left b then l else r) = [b'] \<and> confidence b \<le> confidence b'))"
proof -
  let ?h = "npu_height (nt_dims cls)" and ?w = "npu_width (nt_dims cls)" and ?cell = "npu_cell (nd_anchors n) batch nb box cls"
  obtain cands hh ww org where cands: "all_cells ?cell ?h ?w = Some cands"
    and lr: "keep_boxes (rescale_rect hh ww org) cands ([], []) = (l, r)"
    using assms by (auto simp: npu_detect_batch_def bind_eq_Some_conv)
  note set = all_cells_set [OF cands]
  have "\<forall>b\<in>set cands. \<not> nms_suppressed b \<and> score_threshold < confidence b"
    unfolding set using npu_cell_candidate by blast
  note best = keep_boxes_best [OF this lr]
  have "\<exists>b'. (if is_left b then l else r) = [b'] \<and> confidence b \<le> confidence b'"
    if "i < ?h" "j < ?w" "?cell i j = Some (Some b)" for i j b
  proof -
    have "b \<in> set cands" unfolding set using that by blast
    with best show ?thesis by simp
  qed
  then have "\<forall>i<?h. \<forall>j<?w. \<forall>b. ?cell i j = Some (Some b) \<longrightarrow>
       (\<exists>b'. (if is_left b then l else r) = [b'] \<and> confidence b \<le> confidence b')" by blast
  with best show ?thesis by (intro conjI) (elim conjE, assumption)+
qed

text \<open>With the batch split no image is taken and nothing is detected, whatever the network answers.\<close>

lemma npu_split_detects_nothing:
  assumes "nd_batch1 n"
  shows "\<exists>ok. npu_detect_inference size_of tensor_index run imgs n ([], []) =
    Some (ok, n, (replicate (nd_session_batch n) [], replicate (nd_session_batch n) []))"
  using assms by (simp add: npu_detect_inference_def resize_rects_def)

section \<open>RSNTiny\<close>

record npu_rsn =
  nr_blobs :: "npu_blob list"
  nr_input :: "8 word list list"
  nr_in_batch :: nat
  nr_multi_input :: nat
  nr_packed :: bool
  nr_out_batch :: nat
  nr_input_shape :: nat
  nr_output_shape :: nat
  nr_keypoint_num :: nat

definition npu_rsn_init :: "bool \<Rightarrow> bool \<Rightarrow> nat \<Rightarrow> npu_dims \<Rightarrow> npu_rsn \<Rightarrow> (bool \<times> npu_rsn) option" where
  "npu_rsn_init base_ok is_blob index feat n =
     (if \<not> base_ok \<or> \<not> is_blob then Some (False, n)
      else do {
        b \<leftarrow> read_at (nr_blobs n) index;
        Some (True, n\<lparr>nr_input_shape := blob_width b, nr_output_shape := npu_width feat, nr_keypoint_num := npu_ori_channels feat\<rparr>)
      })"

text \<open>The bytes of an image go row by row into a blob whose rows are wider.\<close>

definition npu_copy_row :: "nat \<Rightarrow> nat \<Rightarrow> 8 word list \<Rightarrow> nat \<Rightarrow> 8 word list \<Rightarrow> 8 word list option" where
  "npu_copy_row w ws src hi dst =
     (if ws < w \<or> length src < hi * w + w \<or> length dst < hi * ws + ws then None
      else Some (take (hi * ws) dst @ take w (drop (hi * w) src) @ replicate (ws - w) 0 @ drop (hi * ws + ws) dst))"

definition npu_copy_image :: "npu_blob \<Rightarrow> 8 word list \<Rightarrow> 8 word list \<Rightarrow> 8 word list option" where
  "npu_copy_image b src dst =
     (let w = blob_width b; h = blob_height b; ws = blob_wstride b
      in if w = ws
         then (let mem_size = h * w * blob_elementbyte b
               in if length src < mem_size \<or> length dst < mem_size then None
                  else Some (take mem_size src @ drop mem_size dst))
         else fold_opt (npu_copy_row w ws src) [0..<h] dst)"

definition npu_rsn_take :: "8 word list list \<Rightarrow> nat \<Rightarrow> npu_rsn \<Rightarrow> npu_rsn option" where
  "npu_rsn_take imgs i n = do {
     b \<leftarrow> read_at (nr_blobs n) i;
     if \<not> blob_gray b then Some n
     else do {
       dst \<leftarrow> read_at (nr_input n) i;
       m \<leftarrow> npu_copy_image b (imgs ! i) dst;
       Some (n\<lparr>nr_input := (nr_input n)[i := m]\<rparr>)
     }
   }"

definition npu_rsn_preprocess :: "8 word list list \<Rightarrow> npu_rsn \<Rightarrow> npu_rsn option" where
  "npu_rsn_preprocess imgs n =
     (if nr_in_batch n * nr_multi_input n \<noteq> length imgs \<or> nr_packed n then Some n
      else fold_opt (npu_rsn_take imgs) [0..<length imgs] n)"

text \<open>The heatmaps of a batch in the order channel, row, column.\<close>

definition npu_gather :: "npu_tensor \<Rightarrow> nat \<Rightarrow> nat \<Rightarrow> real list option" where
  "npu_gather feat batch nb =
     (let d = nt_dims feat
      in those (concat (map (\<lambda>c. concat (map (\<lambda>i. map (npu_read (nt_data feat) batch nb d c i) [0..<npu_width d])
                                            [0..<npu_height d])) [0..<npu_ori_channels d])))"

definition npu_rsn_batch :: "npu_rsn \<Rightarrow> npu_tensor \<Rightarrow> nat \<Rightarrow> vec2 list option" where
  "npu_rsn_batch n feat batch = do {
     storedata \<leftarrow> npu_gather feat batch (nr_out_batch n);
     let k = nr_keypoint_num n;
     if length storedata < k * (nr_output_shape n * nr_output_shape n) then None
     else (let (x, y) = ipr k (nr_output_shape n) storedata
           in Some (map (\<lambda>i. v2 (x ! i * real (nr_input_shape n)) (y ! i * real (nr_input_shape n))) [0..<k]))
   }"

definition npu_rsn_postprocess :: "(string \<Rightarrow> nat) \<Rightarrow> npu_rsn \<Rightarrow> npu_tensor list \<Rightarrow> vec2 list list option" where
  "npu_rsn_postprocess tensor_index n ts = do {
     depth \<leftarrow> read_at ts (tensor_index ''depth'');
     feat \<leftarrow> read_at ts (tensor_index ''feat'');
     those (map (npu_rsn_batch n feat) [0..<nr_out_batch n])
   }"

definition npu_rsn_inference :: "(string \<Rightarrow> nat) \<Rightarrow> (8 word list list \<Rightarrow> npu_tensor list option) \<Rightarrow> 8 word list list \<Rightarrow> npu_rsn
    \<Rightarrow> (vec2 list list option \<times> npu_rsn) option" where
  "npu_rsn_inference tensor_index run imgs n0 = do {
     n \<leftarrow> npu_rsn_preprocess imgs n0;
     case run (nr_input n) of
       None \<Rightarrow> Some (None, n)
     | Some ts \<Rightarrow> map_option (\<lambda>kpts. (Some kpts, n)) (npu_rsn_postprocess tensor_index n ts)
   }"

subsection \<open>The rows of the image\<close>

lemma npu_copy_rows:
  assumes "w \<le> ws" and "h * w \<le> length src" and "h * ws \<le> length dst"
  shows "\<exists>d. fold_opt (npu_copy_row w ws src) [0..<h] dst = Some d \<and> length d = length dst \<and>
    (\<forall>i<h. \<forall>j<ws. d ! (i * ws + j) = (if j < w then src ! (i * w + j) else 0)) \<and>
    (\<forall>k\<ge>h * ws. k < length dst \<longrightarrow> d ! k = dst ! k)"
  using assms(2,3)
proof (induction h)
  case (Suc h)
  then obtain d where d: "fold_opt (npu_copy_row w ws src) [0..<h] dst = Some d" "length d = length dst"
    "\<forall>i<h. \<forall>j<ws. d ! (i * ws + j) = (if j < w then src ! (i * w + j) else 0)" "\<forall>k\<ge>h * ws. k < length dst \<longrightarrow> d ! k = dst ! k"
    by auto
  define e where "e = take (h * ws) d @ take w (drop (h * w) src) @ replicate (ws - w) 0 @ drop (h * ws + ws) d"
  have len: "h * w + w \<le> length src" "h * ws + ws \<le> length d" using Suc.prems d(2) by (simp_all add: add.commute)
  have step: "npu_copy_row w ws src h d = Some e" using len assms(1) by (simp add: npu_copy_row_def e_def)
  have le: "length e = length d" using len assms(1) by (simp add: e_def)
  have row: "e ! (h * ws + j) = (if j < w then src ! (h * w + j) else 0)" if "j < ws" for j
    using that len diff_less_mono [of j ws w] by (cases "j < w") (simp_all add: e_def nth_append)
  have old: "e ! (i * ws + j) = d ! (i * ws + j)" if "i < h" "j < ws" for i j
    using index_lt [OF that] len by (simp add: e_def nth_append)
  have rest: "e ! k = d ! k" if "h * ws + ws \<le> k" "k < length d" for k
  proof -
    have "\<not> k - (h * ws + w) < ws - w" "\<not> k - h * ws < w" using that assms(1) by linarith+
    with that len assms(1) show ?thesis by (simp add: e_def nth_append)
  qed
  have "\<forall>i<Suc h. \<forall>j<ws. e ! (i * ws + j) = (if j < w then src ! (i * w + j) else 0)"
    using row old d(3) by (auto simp: less_Suc_eq)
  moreover have "\<forall>k\<ge>Suc h * ws. k < length dst \<longrightarrow> e ! k = dst ! k"
    using rest d(2,4) by (auto simp: add.commute)
  ultimately show ?case using d(1,2) step le by (simp add: fold_opt_snoc)
qed simp

subsection \<open>The keypoints\<close>

lemma npu_rsn_inside:
  assumes "npu_rsn_batch n feat batch = Some kpts" and "nt_dims feat = d" and "nr_keypoint_num n = npu_ori_channels d"
    and "nr_output_shape n = npu_width d" and "npu_height d = npu_width d" and "0 < npu_width d" and "0 < nr_input_shape n"
  shows "length kpts = nr_keypoint_num n \<and> (\<forall>k\<in>set kpts. 0 \<le> v2x k \<and> v2x k < real (nr_input_shape n) \<and>
    0 \<le> v2y k \<and> v2y k < real (nr_input_shape n))"
proof -
  let ?K = "nr_keypoint_num n" and ?n = "nr_output_shape n"
  obtain st where st: "npu_gather feat batch (nr_out_batch n) = Some st"
    and k: "kpts = map (\<lambda>i. v2 (fst (ipr ?K ?n st) ! i * real (nr_input_shape n)) (snd (ipr ?K ?n st) ! i * real (nr_input_shape n))) [0..<?K]"
    using assms(1) by (auto simp: npu_rsn_batch_def Let_def bind_eq_Some_conv split: if_splits prod.splits)
  have those_len: "those xs = Some ys \<Longrightarrow> length ys = length xs" for xs :: "real option list" and ys
    by (induction xs arbitrary: ys) (auto split: option.splits)
  have "length st = npu_ori_channels d * (npu_height d * npu_width d)"
    using those_len [OF st [unfolded npu_gather_def Let_def]] assms(2) by (simp add: length_concat_map)
  then have "length st = ?K * (?n * ?n)" using assms(3-5) by simp
  from ipr_inside [OF this] assms(4,6,7) show ?thesis unfolding k by auto
qed

end
