(* ===== verification/NetEngine.thy ===== *)
theory NetEngine
  imports NetConfig
begin

text \<open>
  The engine that creates networks: the registry of models that inferences share
  (\<^verbatim>\<open>xengine/nrnn_model.cpp\<close>) and \<open>Inference\<close> (\<^verbatim>\<open>nrnn_session.cpp\<close>). Models and
  sessions of the vendors are values of any type; what their constructors and methods do is a
  parameter. A model is known by the order in which it was made; its shared pointers are counted.
\<close>

section \<open>Status\<close>

datatype engine_status = StUnknown | StSuccess | StFailure | PlatformNoSupport | ModelLoadFailure
  | ModelInitFailure | SessionInitFailure | ForwordFailure

datatype absl_status = AbslOk | AbslUnknown string | AbslInternal string

fun ConvertOldStatus :: "engine_status \<Rightarrow> absl_status" where
  "ConvertOldStatus StSuccess = AbslOk"
| "ConvertOldStatus StUnknown = AbslUnknown ''unknown''"
| "ConvertOldStatus StFailure = AbslInternal ''failure''"
| "ConvertOldStatus PlatformNoSupport = AbslInternal ''platform no support''"
| "ConvertOldStatus ModelLoadFailure = AbslInternal ''model load failure''"
| "ConvertOldStatus ModelInitFailure = AbslInternal ''model init failure''"
| "ConvertOldStatus SessionInitFailure = AbslInternal ''session init failure''"
| "ConvertOldStatus ForwordFailure = AbslInternal ''forward failure''"

lemma ConvertOldStatus_ok: "ConvertOldStatus st = AbslOk \<longleftrightarrow> st = StSuccess"
  by (cases st) simp_all

section \<open>Tensors\<close>

datatype image_category = IS_TENSOR | IS_BLOB | IS_CVMAT

datatype element_type = ElemUnknown | ElemFloat32 | ElemFloat16 | ElemUint8 | ElemInt8 | ElemUint16 | ElemInt16
  | ElemTf8 | ElemTf16

datatype tensor_layout = LayUnknown | LayNCHW | LayNHWC | LayCHW | LayHWC | LayNHW | LayHW | LayNW | LayW
  | LayNCDHW | LayNDHWC | LayCDHW | LayDHWC | LayBlockingNHWC

text \<open>The addresses of a tensor and the layout it has on the Artosyn chip (theory Artosyn) are left out.\<close>

record tensor_info =
  t_name :: string
  t_rank :: u32
  t_dims :: "u32 list"
  t_dimtype :: tensor_layout
  t_elementype :: element_type
  t_elementbyte :: u32
  t_elementsize :: u32

record io_tensors =
  io_batch :: u32
  io_ori_batch :: u32
  multishape_num :: nat
  packed_bybatch :: bool
  io_tensor_list :: "tensor_info list"

record image_blob =
  blob_name :: string
  blob_width :: u32
  blob_height :: u32

record io_image_blobs =
  blob_batch :: u32
  blob_ori_batch :: u32
  multiinput_num :: nat
  io_blob_list :: "image_blob list"

text \<open>What a session shows of its inputs and outputs, and what it shows before there is one.\<close>

record net_io =
  io_category :: image_category
  io_imagein :: io_image_blobs
  io_in :: io_tensors
  io_out :: io_tensors

definition no_tensors :: io_tensors where
  "no_tensors = \<lparr>io_batch = 0, io_ori_batch = 0, multishape_num = 0, packed_bybatch = False, io_tensor_list = []\<rparr>"

definition no_io :: net_io where
  "no_io = \<lparr>io_category = IS_TENSOR,
     io_imagein = \<lparr>blob_batch = 0, blob_ori_batch = 0, multiinput_num = 0, io_blob_list = []\<rparr>,
     io_in = no_tensors, io_out = no_tensors\<rparr>"

section \<open>The registry of models\<close>

record 'm ai_model =
  am_shared :: bool
  am_impl :: 'm

text \<open>\<open>use_count\<close>: the shared pointers to a model; a model without any is gone.\<close>

record 'm model_registry =
  ai_models :: "'m ai_model list"
  use_count :: "nat list"
  g_hasmod :: "string \<rightharpoonup> nat"
  g_newkey_id :: u32

definition empty_registry :: "'m model_registry" where
  "empty_registry = \<lparr>ai_models = [], use_count = [], g_hasmod = Map.empty, g_newkey_id = 0\<rparr>"

text \<open>
  \<open>have_hal\<close>: the vendors that are compiled in. No branch of the code makes a model for the other
  vendors, among them \<open>XREAL\<close>. The models of SNPE are shared, those of MNN and Artosyn are not;
  the sources of the Rockchip vendor are not in the repository.
\<close>

record ('m, 's) engine_lib =
  have_hal :: "vendor_type \<Rightarrow> bool"
  make_model :: "vendor_type \<Rightarrow> model_config \<Rightarrow> 'm"
  rknn_shared :: bool
  make_session :: "vendor_type \<Rightarrow> 's"
  session_init :: "vendor_type \<Rightarrow> 'm \<Rightarrow> session_config \<Rightarrow> 's \<Rightarrow> engine_status \<times> 's"
  session_forward :: "'m \<Rightarrow> 's \<Rightarrow> engine_status \<times> 's"
  session_io :: "'s \<Rightarrow> net_io"

definition IsShared :: "('m, 's) engine_lib \<Rightarrow> vendor_type \<Rightarrow> bool" where
  "IsShared lib v = (case v of SNPE \<Rightarrow> True | ROCKCHIP \<Rightarrow> rknn_shared lib | _ \<Rightarrow> False)"

definition model_of_vendor :: "('m, 's) engine_lib \<Rightarrow> model_config \<Rightarrow> 'm ai_model option" where
  "model_of_vendor lib c =
     (let v = mc_vendor c
      in if v \<in> {MNN, ROCKCHIP, SNPE, ARTOSYN} \<and> have_hal lib v
         then Some \<lparr>am_shared = IsShared lib v, am_impl = make_model lib v c\<rparr> else None)"

text \<open>What the search of the registry finds: a model to share, or whether the key needs a number.\<close>

definition find_shared :: "string \<Rightarrow> 'm model_registry \<Rightarrow> nat option \<times> bool \<times> 'm model_registry" where
  "find_shared key r =
     (case g_hasmod r key of
        None \<Rightarrow> (None, False, r)
      | Some i \<Rightarrow>
          if use_count r ! i > 0 then (if am_shared (ai_models r ! i) then (Some i, False, r) else (None, True, r))
          else (None, False, r\<lparr>g_hasmod := (g_hasmod r)(key := None)\<rparr>))"

definition new_key :: "bool \<Rightarrow> string \<Rightarrow> u32 \<Rightarrow> string" where
  "new_key is_newkey key n = (if is_newkey then key @ ''_newkey_'' @ to_string (unat n) else key)"

definition take_pointer :: "nat \<Rightarrow> 'm model_registry \<Rightarrow> 'm model_registry" where
  "take_pointer i r = r\<lparr>use_count := (use_count r)[i := use_count r ! i + 1]\<rparr>"

definition drop_pointer :: "nat \<Rightarrow> 'm model_registry \<Rightarrow> 'm model_registry" where
  "drop_pointer i r = r\<lparr>use_count := (use_count r)[i := use_count r ! i - 1]\<rparr>"

text \<open>The model (None: the null pointer) with the key it has.\<close>

definition CreateModelPtr :: "('m, 's) engine_lib \<Rightarrow> string \<Rightarrow> model_config \<Rightarrow> 'm model_registry
    \<Rightarrow> nat option \<times> string \<times> 'm model_registry" where
  "CreateModelPtr lib key c r0 =
     (case find_shared key r0 of
        (Some i, is_newkey, r) \<Rightarrow> (Some i, key, take_pointer i r)
      | (None, is_newkey, r) \<Rightarrow>
          (case model_of_vendor lib c of
             None \<Rightarrow> (None, key, r)
           | Some m \<Rightarrow>
               (let i = length (ai_models r); key' = new_key is_newkey key (g_newkey_id r)
                in (Some i, key',
                    r\<lparr>ai_models := ai_models r @ [m], use_count := use_count r @ [1],
                      g_hasmod := (g_hasmod r)(key' \<mapsto> i),
                      g_newkey_id := (if is_newkey then g_newkey_id r + 1 else g_newkey_id r)\<rparr>))))"

definition DestoryModelPtr :: "string \<Rightarrow> 'm model_registry \<Rightarrow> bool \<times> 'm model_registry" where
  "DestoryModelPtr key r =
     (case g_hasmod r key of
        None \<Rightarrow> (False, r)
      | Some i \<Rightarrow> (True, if use_count r ! i = 0 then r\<lparr>g_hasmod := (g_hasmod r)(key := None)\<rparr> else r))"

section \<open>Inference\<close>

record 's inference =
  inf_netname :: string
  inf_mconfig :: model_config
  inf_sconfig :: session_config
  inf_model :: "nat option"
  inf_session :: "'s option"

definition inference_new :: "model_config \<Rightarrow> session_config \<Rightarrow> 's inference" where
  "inference_new m s = \<lparr>inf_netname = [], inf_mconfig = m, inf_sconfig = s, inf_model = None, inf_session = None\<rparr>"

definition session_of_vendor :: "('m, 's) engine_lib \<Rightarrow> vendor_type \<Rightarrow> 's option" where
  "session_of_vendor lib v =
     (if v \<in> {MNN, ROCKCHIP, SNPE, ARTOSYN} \<and> have_hal lib v \<or> v = XREAL then Some (make_session lib v) else None)"

definition inference_init :: "('m, 's) engine_lib \<Rightarrow> string \<Rightarrow> 's inference \<Rightarrow> 'm model_registry
    \<Rightarrow> engine_status \<times> 's inference \<times> 'm model_registry" where
  "inference_init lib netname n r0 =
     (case CreateModelPtr lib netname (inf_mconfig n) r0 of
        (None, new_netname, r) \<Rightarrow> (ModelLoadFailure, n, r)
      | (Some i, new_netname, r) \<Rightarrow>
          (let n = n\<lparr>inf_model := Some i, inf_netname := new_netname\<rparr>; v = mc_vendor (inf_mconfig n)
           in case session_of_vendor lib v of
                None \<Rightarrow> (ModelInitFailure, n, r)
              | Some s \<Rightarrow>
                  (let (st, s) = session_init lib v (am_impl (ai_models r ! i)) (inf_sconfig n) s
                   in (st, n\<lparr>inf_session := Some s\<rparr>, r))))"

text \<open>The destructor.\<close>

definition inference_delete :: "'s inference \<Rightarrow> 'm model_registry \<Rightarrow> 'm model_registry" where
  "inference_delete n r =
     (case inf_model n of
        None \<Rightarrow> r
      | Some i \<Rightarrow> snd (DestoryModelPtr (inf_netname n) (drop_pointer i r)))"

text \<open>\<open>RunNet\<close> follows both pointers without a test.\<close>

definition inference_run :: "('m, 's) engine_lib \<Rightarrow> 'm model_registry \<Rightarrow> 's inference \<Rightarrow> (engine_status \<times> 's inference) option" where
  "inference_run lib r n = do {
     s \<leftarrow> inf_session n;
     i \<leftarrow> inf_model n;
     (case session_forward lib (am_impl (ai_models r ! i)) s of (st, s) \<Rightarrow> Some (st, n\<lparr>inf_session := Some s\<rparr>))
   }"

text \<open>\<open>Get\<dots>\<close>: what the session shows.\<close>

definition inference_io :: "('m, 's) engine_lib \<Rightarrow> 's inference \<Rightarrow> net_io" where
  "inference_io lib n = (case inf_session n of None \<Rightarrow> no_io | Some s \<Rightarrow> session_io lib s)"

text \<open>The place of a name among the first \<open>num\<close>, 0 if it is not there.\<close>

definition index_of_name :: "nat \<Rightarrow> string list \<Rightarrow> string \<Rightarrow> nat" where
  "index_of_name num ns name = (case find (\<lambda>i. ns ! i = name) [0..<num] of None \<Rightarrow> 0 | Some i \<Rightarrow> i)"

definition GetInputImageBlobsIndex :: "('m, 's) engine_lib \<Rightarrow> 's inference \<Rightarrow> string \<Rightarrow> nat" where
  "GetInputImageBlobsIndex lib n name = (case inf_session n of None \<Rightarrow> 0 | Some s \<Rightarrow>
     (let b = io_imagein (session_io lib s) in index_of_name (multiinput_num b) (map blob_name (io_blob_list b)) name))"

definition tensor_index :: "io_tensors \<Rightarrow> string \<Rightarrow> nat" where
  "tensor_index io name = index_of_name (multishape_num io) (map t_name (io_tensor_list io)) name"

definition GetInputTensorIndex :: "('m, 's) engine_lib \<Rightarrow> 's inference \<Rightarrow> string \<Rightarrow> nat" where
  "GetInputTensorIndex lib n name = (case inf_session n of None \<Rightarrow> 0 | Some s \<Rightarrow> tensor_index (io_in (session_io lib s)) name)"

definition GetOutputTensorIndex :: "('m, 's) engine_lib \<Rightarrow> 's inference \<Rightarrow> string \<Rightarrow> nat" where
  "GetOutputTensorIndex lib n name = (case inf_session n of None \<Rightarrow> 0 | Some s \<Rightarrow> tensor_index (io_out (session_io lib s)) name)"

lemma index_of_name_found:
  assumes "name \<in> set ns"
  shows "index_of_name (length ns) ns name < length ns \<and> ns ! index_of_name (length ns) ns name = name"
proof -
  obtain k where "k < length ns" "ns ! k = name" using assms by (auto simp: in_set_conv_nth)
  then have "find (\<lambda>i. ns ! i = name) [0..<length ns] \<noteq> None" by (auto simp: find_None_iff)
  then obtain i where "find (\<lambda>i. ns ! i = name) [0..<length ns] = Some i" by blast
  moreover from this have "i < length ns \<and> ns ! i = name" by (auto simp: find_Some_iff)
  ultimately show ?thesis by (simp add: index_of_name_def)
qed

text \<open>A name that the network does not have gives its first tensor.\<close>

lemma index_of_name_missing: "name \<notin> set ns \<Longrightarrow> index_of_name (length ns) ns name = 0"
proof -
  assume "name \<notin> set ns"
  then have "\<not> ns ! i = name" if "i \<in> set [0..<length ns]" for i using that nth_mem by fastforce
  then have "find (\<lambda>i. ns ! i = name) [0..<length ns] = None" unfolding find_None_iff by blast
  then show ?thesis by (simp add: index_of_name_def)
qed

lemma tensor_index_names:
  assumes "multishape_num io = length (io_tensor_list io)"
  shows "if name \<in> t_name ` set (io_tensor_list io)
    then tensor_index io name < length (io_tensor_list io) \<and> t_name (io_tensor_list io ! tensor_index io name) = name
    else tensor_index io name = 0"
  using index_of_name_found [of name "map t_name (io_tensor_list io)"]
    index_of_name_missing [of name "map t_name (io_tensor_list io)"] assms
  by (auto simp: tensor_index_def)

section \<open>Inferences that come and go\<close>

datatype engine_op = NetNew string model_config session_config | NetDelete nat

fun engine_step :: "('m, 's) engine_lib \<Rightarrow> engine_op \<Rightarrow> 's inference list \<times> 'm model_registry
    \<Rightarrow> 's inference list \<times> 'm model_registry" where
  "engine_step lib (NetNew key m sc) (ns, r) =
     (case inference_init lib key (inference_new m sc) r of (st, n, r) \<Rightarrow> (ns @ [n], r))"
| "engine_step lib (NetDelete k) (ns, r) =
     (if k < length ns then (take k ns @ drop (Suc k) ns, inference_delete (ns ! k) r) else (ns, r))"

definition holders :: "nat \<Rightarrow> 's inference list \<Rightarrow> nat" where
  "holders i ns = length (filter (\<lambda>n. inf_model n = Some i) ns)"

definition engine_inv :: "'s inference list \<Rightarrow> 'm model_registry \<Rightarrow> bool" where
  "engine_inv ns r \<longleftrightarrow> length (use_count r) = length (ai_models r) \<and>
     (\<forall>i<length (ai_models r). use_count r ! i = holders i ns) \<and>
     (\<forall>n\<in>set ns. \<forall>i. inf_model n = Some i \<longrightarrow> i < length (ai_models r)) \<and>
     (\<forall>key i. g_hasmod r key = Some i \<longrightarrow> 0 < holders i ns) \<and>
     (\<forall>key i. \<forall>n\<in>set ns. g_hasmod r key = Some i \<and> inf_model n = Some i \<longrightarrow> inf_netname n = key) \<and>
     (\<forall>n\<in>set ns. \<forall>n'\<in>set ns. \<forall>i. inf_model n = Some i \<and> inf_model n' = Some i \<longrightarrow> inf_netname n = inf_netname n') \<and>
     (\<forall>i<length (ai_models r). \<not> am_shared (ai_models r ! i) \<longrightarrow> holders i ns \<le> 1)"

lemma engine_inv_counts: "engine_inv ns r \<Longrightarrow> length (use_count r) = length (ai_models r)"
  and engine_inv_count: "engine_inv ns r \<Longrightarrow> i < length (ai_models r) \<Longrightarrow> use_count r ! i = holders i ns"
  and engine_inv_model: "engine_inv ns r \<Longrightarrow> n \<in> set ns \<Longrightarrow> inf_model n = Some i \<Longrightarrow> i < length (ai_models r)"
  and engine_inv_key: "engine_inv ns r \<Longrightarrow> g_hasmod r key = Some i \<Longrightarrow> 0 < holders i ns"
  and engine_inv_name: "engine_inv ns r \<Longrightarrow> g_hasmod r key = Some i \<Longrightarrow> n \<in> set ns \<Longrightarrow> inf_model n = Some i \<Longrightarrow> inf_netname n = key"
  and engine_inv_same: "engine_inv ns r \<Longrightarrow> n \<in> set ns \<Longrightarrow> n' \<in> set ns \<Longrightarrow> inf_model n = Some i \<Longrightarrow> inf_model n' = Some i
    \<Longrightarrow> inf_netname n = inf_netname n'"
  and engine_inv_one: "engine_inv ns r \<Longrightarrow> i < length (ai_models r) \<Longrightarrow> \<not> am_shared (ai_models r ! i) \<Longrightarrow> holders i ns \<le> 1"
  unfolding engine_inv_def by blast+

lemma engine_invI:
  assumes "length (use_count r) = length (ai_models r)"
    and "\<And>i. i < length (ai_models r) \<Longrightarrow> use_count r ! i = holders i ns"
    and "\<And>n i. n \<in> set ns \<Longrightarrow> inf_model n = Some i \<Longrightarrow> i < length (ai_models r)"
    and "\<And>key i. g_hasmod r key = Some i \<Longrightarrow> 0 < holders i ns"
    and "\<And>key i n. g_hasmod r key = Some i \<Longrightarrow> n \<in> set ns \<Longrightarrow> inf_model n = Some i \<Longrightarrow> inf_netname n = key"
    and "\<And>n n' i. n \<in> set ns \<Longrightarrow> n' \<in> set ns \<Longrightarrow> inf_model n = Some i \<Longrightarrow> inf_model n' = Some i \<Longrightarrow> inf_netname n = inf_netname n'"
    and "\<And>i. i < length (ai_models r) \<Longrightarrow> \<not> am_shared (ai_models r ! i) \<Longrightarrow> holders i ns \<le> 1"
  shows "engine_inv ns r"
  unfolding engine_inv_def using assms by blast

lemma holders_pos: "0 < holders i ns \<longleftrightarrow> (\<exists>n\<in>set ns. inf_model n = Some i)"
  by (auto simp: holders_def length_greater_0_conv filter_empty_conv)

lemma holders_snoc: "holders i (ns @ [n]) = holders i ns + (if inf_model n = Some i then 1 else 0)"
  by (simp add: holders_def)

lemma holders_remove:
  assumes "k < length ns"
  shows "holders i ns = holders i (take k ns @ drop (Suc k) ns) + (if inf_model (ns ! k) = Some i then 1 else 0)"
proof -
  have "holders i ns = holders i (take k ns @ ns ! k # drop (Suc k) ns)" using id_take_nth_drop [OF assms] by simp
  then show ?thesis by (simp add: holders_def)
qed

lemma holders_two:
  assumes "j < k" and "k < length ns" and "inf_model (ns ! j) = Some i" and "inf_model (ns ! k) = Some i"
  shows "2 \<le> holders i ns"
proof -
  have "holders i ns = holders i (take k ns @ drop (Suc k) ns) + 1" using holders_remove [OF assms(2)] assms(4) by simp
  moreover have "ns ! j \<in> set (take k ns)" using assms(1,2) by (auto simp: in_set_conv_nth intro!: exI [of _ j])
  then have "0 < holders i (take k ns @ drop (Suc k) ns)" using assms(3) by (auto simp: holders_pos)
  ultimately show ?thesis by simp
qed

lemma engine_inv_fresh:
  assumes "engine_inv ns r"
  shows "holders (length (ai_models r)) ns = 0"
proof (rule ccontr)
  assume "holders (length (ai_models r)) ns \<noteq> 0"
  then obtain n where "n \<in> set ns" "inf_model n = Some (length (ai_models r))"
    using holders_pos [of "length (ai_models r)" ns] by auto
  then show False using engine_inv_model [OF assms] by blast
qed

lemma engine_inv_share:
  assumes inv: "engine_inv ns r" and key: "g_hasmod r key = Some i" and shared: "am_shared (ai_models r ! i)"
    and n: "inf_model n = Some i" "inf_netname n = key"
  shows "engine_inv (ns @ [n]) (take_pointer i r)"
proof -
  obtain n0 where n0: "n0 \<in> set ns" "inf_model n0 = Some i"
    using engine_inv_key [OF inv key] by (auto simp: holders_pos)
  have i: "i < length (ai_models r)" using engine_inv_model [OF inv n0] .
  have names: "inf_netname n' = key" if "n' \<in> set (ns @ [n])" "inf_model n' = Some i" for n'
    using that engine_inv_name [OF inv key] n by auto
  have one: "k = key" if "g_hasmod r k = Some i" for k
    using engine_inv_name [OF inv that n0] engine_inv_name [OF inv key n0] by simp
  define r' where "r' = take_pointer i r"
  have r': "ai_models r' = ai_models r" "g_hasmod r' = g_hasmod r"
    "use_count r' = (use_count r)[i := use_count r ! i + 1]"
    by (simp_all add: r'_def take_pointer_def)
  have old: "n' \<in> set ns" if "n' \<in> set (ns @ [n])" "inf_model n' = Some j" "j \<noteq> i" for n' j
    using that n by auto
  show ?thesis
    unfolding r'_def [symmetric]
  proof (rule engine_invI, unfold r')
    show "length ((use_count r)[i := use_count r ! i + 1]) = length (ai_models r)" using engine_inv_counts [OF inv] by simp
    show "(use_count r)[i := use_count r ! i + 1] ! j = holders j (ns @ [n])" if "j < length (ai_models r)" for j
      using that engine_inv_count [OF inv] engine_inv_counts [OF inv] n by (simp add: holders_snoc nth_list_update)
    show "j < length (ai_models r)" if "n' \<in> set (ns @ [n])" "inf_model n' = Some j" for n' j
      using that i old [OF that] engine_inv_model [OF inv] by blast
    show "0 < holders j (ns @ [n])" if "g_hasmod r k = Some j" for k j
      using engine_inv_key [OF inv that] by (simp add: holders_snoc)
    show "inf_netname n' = k" if "g_hasmod r k = Some j" "n' \<in> set (ns @ [n])" "inf_model n' = Some j" for k j n'
    proof (cases "j = i")
      case True
      with that one names show ?thesis by simp
    next
      case False
      with that old engine_inv_name [OF inv] show ?thesis by blast
    qed
    show "inf_netname n1 = inf_netname n2" if "n1 \<in> set (ns @ [n])" "n2 \<in> set (ns @ [n])" "inf_model n1 = Some j"
      "inf_model n2 = Some j" for n1 n2 j
    proof (cases "j = i")
      case True
      with that names show ?thesis by simp
    next
      case False
      show ?thesis by (rule engine_inv_same [OF inv old [OF that(1,3) False] old [OF that(2,4) False] that(3,4)])
    qed
    show "holders j (ns @ [n]) \<le> 1" if "j < length (ai_models r)" "\<not> am_shared (ai_models r ! j)" for j
      using that engine_inv_one [OF inv that] shared n by (auto simp: holders_snoc)
  qed
qed

lemma engine_inv_create:
  assumes inv: "engine_inv ns r" and n: "inf_model n = Some (length (ai_models r))" "inf_netname n = key"
  shows "engine_inv (ns @ [n]) (r\<lparr>ai_models := ai_models r @ [m], use_count := use_count r @ [1],
    g_hasmod := (g_hasmod r)(key \<mapsto> length (ai_models r)), g_newkey_id := c\<rparr>)"
proof -
  let ?l = "length (ai_models r)"
  have fresh: "holders ?l ns = 0" using inv by (rule engine_inv_fresh)
  have old: "n' \<in> set ns" if "n' \<in> set (ns @ [n])" "inf_model n' = Some j" "j \<noteq> ?l" for n' j
    using that n by auto
  have new: "n' = n" if "n' \<in> set (ns @ [n])" "inf_model n' = Some ?l" for n'
    using that fresh holders_pos [of ?l ns] by auto
  have keys: "g_hasmod r k \<noteq> Some ?l" for k using engine_inv_key [OF inv] fresh by fastforce
  define r' where "r' = r\<lparr>ai_models := ai_models r @ [m], use_count := use_count r @ [1],
    g_hasmod := (g_hasmod r)(key \<mapsto> ?l), g_newkey_id := c\<rparr>"
  have r': "ai_models r' = ai_models r @ [m]" "g_hasmod r' = (g_hasmod r)(key \<mapsto> ?l)" "use_count r' = use_count r @ [1]"
    by (simp_all add: r'_def)
  have h: "holders j (ns @ [n]) = (if j = ?l then 1 else holders j ns)" for j
    using fresh n by (simp add: holders_snoc)
  have known: "k = key \<and> j = ?l \<or> j \<noteq> ?l \<and> g_hasmod r k = Some j" if "((g_hasmod r)(key \<mapsto> ?l)) k = Some j" for k j
    using that keys by (auto split: if_splits)
  show ?thesis
    unfolding r'_def [symmetric]
  proof (rule engine_invI, unfold r')
    show "length (use_count r @ [1]) = length (ai_models r @ [m])" using engine_inv_counts [OF inv] by simp
    show "(use_count r @ [1]) ! j = holders j (ns @ [n])" if "j < length (ai_models r @ [m])" for j
      using that engine_inv_count [OF inv, of j] engine_inv_counts [OF inv] by (cases "j = ?l") (auto simp: h nth_append)
    show "j < length (ai_models r @ [m])" if "n' \<in> set (ns @ [n])" "inf_model n' = Some j" for n' j
    proof (cases "j = ?l")
      case False
      with engine_inv_model [OF inv old [OF that False] that(2)] show ?thesis by simp
    qed simp
    show "0 < holders j (ns @ [n])" if "((g_hasmod r)(key \<mapsto> ?l)) k = Some j" for k j
      using known [OF that] engine_inv_key [OF inv] h by auto
    show "inf_netname n' = k" if "((g_hasmod r)(key \<mapsto> ?l)) k = Some j" "n' \<in> set (ns @ [n])" "inf_model n' = Some j" for k j n'
    proof (cases "j = ?l")
      case True
      with known [OF that(1)] new that n show ?thesis by auto
    next
      case False
      with known [OF that(1)] have "g_hasmod r k = Some j" by simp
      from engine_inv_name [OF inv this old [OF that(2,3) False] that(3)] show ?thesis .
    qed
    show "inf_netname n1 = inf_netname n2" if "n1 \<in> set (ns @ [n])" "n2 \<in> set (ns @ [n])" "inf_model n1 = Some j"
      "inf_model n2 = Some j" for n1 n2 j
    proof (cases "j = ?l")
      case True
      with that new have "n1 = n" "n2 = n" by auto
      then show ?thesis by simp
    next
      case False
      show ?thesis by (rule engine_inv_same [OF inv old [OF that(1,3) False] old [OF that(2,4) False] that(3,4)])
    qed
    show "holders j (ns @ [n]) \<le> 1" if "j < length (ai_models r @ [m])" "\<not> am_shared ((ai_models r @ [m]) ! j)" for j
      using that engine_inv_one [OF inv, of j] by (simp add: h nth_append less_Suc_eq split: if_splits)
  qed
qed

text \<open>Inferences without a model do not count.\<close>

lemma engine_inv_cong:
  assumes inv: "engine_inv ns r" and sub: "\<And>n i. n \<in> set ns' \<Longrightarrow> inf_model n = Some i \<Longrightarrow> n \<in> set ns"
    and h: "\<And>i. holders i ns' = holders i ns"
  shows "engine_inv ns' r"
proof (rule engine_invI, unfold h)
  show "length (use_count r) = length (ai_models r)" by (rule engine_inv_counts [OF inv])
  show "use_count r ! i = holders i ns" if "i < length (ai_models r)" for i by (rule engine_inv_count [OF inv that])
  show "i < length (ai_models r)" if "n \<in> set ns'" "inf_model n = Some i" for n i
    by (rule engine_inv_model [OF inv sub [OF that] that(2)])
  show "0 < holders i ns" if "g_hasmod r key = Some i" for key i by (rule engine_inv_key [OF inv that])
  show "inf_netname n = key" if "g_hasmod r key = Some i" "n \<in> set ns'" "inf_model n = Some i" for key i n
    by (rule engine_inv_name [OF inv that(1) sub [OF that(2,3)] that(3)])
  show "inf_netname n = inf_netname n'" if "n \<in> set ns'" "n' \<in> set ns'" "inf_model n = Some i" "inf_model n' = Some i" for n n' i
    by (rule engine_inv_same [OF inv sub [OF that(1,3)] sub [OF that(2,4)] that(3,4)])
  show "holders i ns \<le> 1" if "i < length (ai_models r)" "\<not> am_shared (ai_models r ! i)" for i
    by (rule engine_inv_one [OF inv that])
qed

lemma engine_inv_none:
  assumes "engine_inv ns r" and "inf_model n = None"
  shows "engine_inv (ns @ [n]) r"
  by (rule engine_inv_cong [OF assms(1)]) (use assms(2) in \<open>auto simp: holders_snoc\<close>)

lemma find_shared_cases:
  assumes "engine_inv ns r"
  shows "(\<exists>i. g_hasmod r key = Some i \<and> am_shared (ai_models r ! i) \<and> find_shared key r = (Some i, False, r)) \<or>
    (\<exists>b. find_shared key r = (None, b, r))"
proof (cases "g_hasmod r key")
  case (Some i)
  have h: "0 < holders i ns" using engine_inv_key [OF assms Some] .
  then obtain n where "n \<in> set ns" "inf_model n = Some i" by (auto simp: holders_pos)
  then have "i < length (ai_models r)" by (rule engine_inv_model [OF assms])
  with engine_inv_count [OF assms this] h have "0 < use_count r ! i" by simp
  with Some show ?thesis by (auto simp: find_shared_def)
qed (auto simp: find_shared_def)

lemma engine_inv_init:
  assumes "engine_inv ns r" and "inference_init lib key (inference_new m sc) r = (st, n, r')"
  shows "engine_inv (ns @ [n]) r'"
proof -
  obtain mo key' r1 where c: "CreateModelPtr lib key m r = (mo, key', r1)" by (metis prod_cases3)
  have n: "inf_model n = mo" "mo \<noteq> None \<longrightarrow> inf_netname n = key'" "r' = r1"
    using assms(2) c
    by (auto simp: inference_init_def inference_new_def Let_def split: option.splits prod.splits)
  show ?thesis
    using find_shared_cases [OF assms(1), of key]
  proof (elim disjE exE conjE)
    fix i assume i: "g_hasmod r key = Some i" "am_shared (ai_models r ! i)" "find_shared key r = (Some i, False, r)"
    then show ?thesis using c n engine_inv_share [OF assms(1) i(1,2)] by (auto simp: CreateModelPtr_def)
  next
    fix b assume b: "find_shared key r = (None, b, r)"
    show ?thesis
    proof (cases "model_of_vendor lib m")
      case None
      then show ?thesis using b c n engine_inv_none [OF assms(1)] by (auto simp: CreateModelPtr_def)
    next
      case (Some mm)
      then show ?thesis using b c n engine_inv_create [OF assms(1)] by (auto simp: CreateModelPtr_def Let_def)
    qed
  qed
qed

lemma engine_inv_delete:
  assumes inv: "engine_inv ns r" and k: "k < length ns"
  shows "engine_inv (take k ns @ drop (Suc k) ns) (inference_delete (ns ! k) r)"
proof -
  let ?n = "ns ! k"
  define ns' where "ns' = take k ns @ drop (Suc k) ns"
  have sub: "n \<in> set ns" if "n \<in> set ns'" for n
    using that by (auto simp: ns'_def dest: in_set_takeD in_set_dropD)
  have nk: "?n \<in> set ns" using k by simp
  have h: "holders i ns = holders i ns' + (if inf_model ?n = Some i then 1 else 0)" for i
    unfolding ns'_def by (rule holders_remove [OF k])
  have "engine_inv ns' (inference_delete ?n r)"
  proof (cases "inf_model ?n")
    case None
    have "engine_inv ns' r" by (rule engine_inv_cong [OF inv sub]) (use h None in simp_all)
    then show ?thesis by (simp add: inference_delete_def None)
  next
    case (Some i)
    have i: "i < length (ai_models r)" by (rule engine_inv_model [OF inv nk Some])
    define d where "d = drop_pointer i r"
    define r' where "r' = inference_delete ?n r"
    have r'_eq: "r' = snd (DestoryModelPtr (inf_netname ?n) d)" by (simp add: r'_def inference_delete_def Some d_def)
    have d: "ai_models d = ai_models r" "g_hasmod d = g_hasmod r" "use_count d = (use_count r)[i := use_count r ! i - 1]"
      by (simp_all add: d_def drop_pointer_def)
    have r': "ai_models r' = ai_models r" "use_count r' = (use_count r)[i := use_count r ! i - 1]"
      by (simp_all add: r'_eq DestoryModelPtr_def d split: option.splits)
    have counts: "use_count r' ! j = holders j ns'" if "j < length (ai_models r)" for j
      using that engine_inv_count [OF inv that] engine_inv_counts [OF inv] h [of j] Some
      by (simp add: r' nth_list_update split: if_splits)
    have g: "g_hasmod r' = (case g_hasmod r (inf_netname ?n) of None \<Rightarrow> g_hasmod r
      | Some j \<Rightarrow> if use_count r' ! j = 0 then (g_hasmod r)(inf_netname ?n := None) else g_hasmod r)"
      unfolding r'(2) by (simp add: r'_eq DestoryModelPtr_def d split: option.splits)
    have gr: "g_hasmod r key = Some j" if "g_hasmod r' key = Some j" for key j
      using that by (auto simp: g split: option.splits if_splits)
    have pos: "0 < holders j ns'" if gk: "g_hasmod r' key = Some j" for key j
    proof (cases "j = i")
      case True
      with engine_inv_name [OF inv gr [OF gk] nk] Some have key: "key = inf_netname ?n" by simp
      with gr [OF gk] gk True have "use_count r' ! i \<noteq> 0" by (auto simp: g split: if_splits)
      then show ?thesis using counts [OF i] True by simp
    next
      case False
      with engine_inv_key [OF inv gr [OF gk]] h [of j] Some show ?thesis by simp
    qed
    have "engine_inv ns' r'"
    proof (rule engine_invI, unfold r'(1))
      show "length (use_count r') = length (ai_models r)" using engine_inv_counts [OF inv] by (simp add: r')
      show "inf_netname n = key" if "g_hasmod r' key = Some j" "n \<in> set ns'" "inf_model n = Some j" for key j n
        by (rule engine_inv_name [OF inv gr [OF that(1)] sub [OF that(2)] that(3)])
      show "inf_netname n1 = inf_netname n2" if "n1 \<in> set ns'" "n2 \<in> set ns'" "inf_model n1 = Some j" "inf_model n2 = Some j" for n1 n2 j
        by (rule engine_inv_same [OF inv sub [OF that(1)] sub [OF that(2)] that(3,4)])
      show "j < length (ai_models r)" if "n \<in> set ns'" "inf_model n = Some j" for n j
        by (rule engine_inv_model [OF inv sub [OF that(1)] that(2)])
      show "holders j ns' \<le> 1" if "j < length (ai_models r)" "\<not> am_shared (ai_models r ! j)" for j
        using engine_inv_one [OF inv that] h [of j] by simp
    qed (fact counts pos)+
    then show ?thesis by (simp add: r'_def)
  qed
  then show ?thesis by (simp add: ns'_def)
qed

lemma engine_inv_run:
  "engine_inv ns r \<Longrightarrow> case fold (engine_step lib) ops (ns, r) of (ns', r') \<Rightarrow> engine_inv ns' r'"
proof (induction ops arbitrary: ns r)
  case (Cons op ops)
  have "case engine_step lib op (ns, r) of (ns1, r1) \<Rightarrow> engine_inv ns1 r1"
  proof (cases op)
    case (NetNew key m sc)
    obtain st n r1 where n: "inference_init lib key (inference_new m sc) r = (st, n, r1)" by (metis prod_cases3)
    with engine_inv_init [OF Cons.prems n] NetNew show ?thesis by simp
  next
    case (NetDelete k)
    with engine_inv_delete [OF Cons.prems] Cons.prems show ?thesis by simp
  qed
  with Cons.IH show ?case by (cases "engine_step lib op (ns, r)") simp
qed simp

lemma engine_inv_empty: "engine_inv [] empty_registry"
  by (rule engine_invI) (simp_all add: empty_registry_def)

text \<open>
  C35: However networks are created and deleted, a model is in the registry only as long as an
  inference of its name holds it, so nothing stays behind after the last one; a model that two
  inferences hold is one that may be shared, and both have it by the same name.
\<close>

theorem registry_holds_live_models:
  assumes "fold (engine_step lib) ops ([], empty_registry) = (ns, r)"
  shows "(\<forall>key i. g_hasmod r key = Some i \<longrightarrow> (\<exists>n\<in>set ns. inf_model n = Some i \<and> inf_netname n = key)) \<and>
    (ns = [] \<longrightarrow> g_hasmod r = Map.empty) \<and>
    (\<forall>j k i. j < k \<and> k < length ns \<and> inf_model (ns ! j) = Some i \<and> inf_model (ns ! k) = Some i
      \<longrightarrow> am_shared (ai_models r ! i) \<and> inf_netname (ns ! j) = inf_netname (ns ! k))"
proof -
  have inv: "engine_inv ns r" using engine_inv_run [OF engine_inv_empty, of lib ops] assms by simp
  have live: "\<exists>n\<in>set ns. inf_model n = Some i \<and> inf_netname n = key" if "g_hasmod r key = Some i" for key i
    using engine_inv_key [OF inv that] engine_inv_name [OF inv that] by (auto simp: holders_pos)
  then have "g_hasmod r = Map.empty" if "ns = []" proof (intro ext)
    show "g_hasmod r key = None" for key using live [of key] that by (cases "g_hasmod r key") auto
  qed
  moreover have "am_shared (ai_models r ! i) \<and> inf_netname (ns ! j) = inf_netname (ns ! k)"
    if "j < k \<and> k < length ns \<and> inf_model (ns ! j) = Some i \<and> inf_model (ns ! k) = Some i" for j k i
  proof -
    have mem: "ns ! j \<in> set ns" "ns ! k \<in> set ns" using that by simp_all
    have i: "i < length (ai_models r)" using engine_inv_model [OF inv mem(2)] that by blast
    have "2 \<le> holders i ns" using that by (intro holders_two) auto
    then have "am_shared (ai_models r ! i)" using engine_inv_one [OF inv i] by (rule_tac ccontr) simp
    moreover have "inf_netname (ns ! j) = inf_netname (ns ! k)"
      using engine_inv_same [OF inv mem] that by blast
    ultimately show ?thesis ..
  qed
  ultimately show ?thesis using live by blast
qed

text \<open>Two networks of one SNPE model, then the first is deleted.\<close>

definition demo_engine :: "(string, string) engine_lib" where
  "demo_engine = \<lparr>have_hal = (\<lambda>v. v = SNPE), make_model = (\<lambda>v c. ''hand''), rknn_shared = False,
     make_session = (\<lambda>v. ''new''), session_init = (\<lambda>v m c s. (StSuccess, ''ready'')),
     session_forward = (\<lambda>m s. (StSuccess, s)), session_io = (\<lambda>s. no_io)\<rparr>"

definition demo_engine_ops :: "engine_op list" where
  "demo_engine_ops = (let c = default_model\<lparr>mc_vendor := SNPE\<rparr>
     in [NetNew ''hand'' c default_session, NetNew ''hand'' c default_session, NetDelete 0])"

theorem registry_holds_live_models_witness:
  "case fold (engine_step demo_engine) demo_engine_ops ([], empty_registry) of (ns, r) \<Rightarrow>
     map inf_netname ns = [''hand''] \<and> use_count r = [1] \<and> g_hasmod r ''hand'' = Some 0 \<and>
     (\<exists>n\<in>set ns. inf_model n = Some 0 \<and> inf_netname n = ''hand'')"
proof -
  obtain ns r where run: "fold (engine_step demo_engine) demo_engine_ops ([], empty_registry) = (ns, r)"
    by (cases "fold (engine_step demo_engine) demo_engine_ops ([], empty_registry)") blast
  then have v: "map inf_netname ns = [''hand'']" "use_count r = [1]" "g_hasmod r ''hand'' = Some 0"
    by (auto simp: demo_engine_def demo_engine_ops_def Let_def inference_init_def inference_new_def CreateModelPtr_def
        find_shared_def empty_registry_def model_of_vendor_def IsShared_def new_key_def session_of_vendor_def
        inference_delete_def DestoryModelPtr_def drop_pointer_def take_pointer_def default_model_def)
  have "\<exists>n\<in>set ns. inf_model n = Some 0 \<and> inf_netname n = ''hand''"
    using registry_holds_live_models [OF run] v(3) by blast
  with v run show ?thesis by simp
qed

end
