(* ===== verification/NetService.thy ===== *)
theory NetService
  imports NetEngine
begin

text \<open>
  From the engine to the calculators: \<open>BaseNetAlgo\<close> (\<^verbatim>\<open>xengine/nrhal_net.cpp\<close>),
  \<open>CalculatorBaseNet\<close> (\<^verbatim>\<open>algorithm/model/calculator_basenet.h\<close>) and the services a calculator asks
  for its network and its parameters (\<^verbatim>\<open>algorithm/calculator/xgraph_service_utils\<close>). A network that
  is handed out can be run, and making networks keeps the registry of models intact.
\<close>

section \<open>BaseNetAlgo\<close>

record 's base_net =
  net_params :: "string \<rightharpoonup> string"
  net_impl :: "'s inference option"

definition new_base_net :: "'s base_net" where
  "new_base_net = \<lparr>net_params = Map.empty, net_impl = None\<rparr>"

definition SetAlgoParams :: "string \<Rightarrow> string \<Rightarrow> 's base_net \<Rightarrow> 's base_net" where
  "SetAlgoParams key v net = net\<lparr>net_params := (net_params net)(key \<mapsto> v)\<rparr>"

text \<open>The flag and the new value of the argument.\<close>

definition GetAlgoParams :: "string \<Rightarrow> string \<Rightarrow> 's base_net \<Rightarrow> bool \<times> string" where
  "GetAlgoParams key v net = (case net_params net key of Some w \<Rightarrow> (True, w) | None \<Rightarrow> (False, v))"

definition drop_impl :: "'s base_net \<Rightarrow> 'm model_registry \<Rightarrow> 'm model_registry" where
  "drop_impl net r = (case net_impl net of None \<Rightarrow> r | Some n \<Rightarrow> inference_delete n r)"

definition base_net_init :: "('m, 's) engine_lib \<Rightarrow> string \<Rightarrow> model_config \<Rightarrow> session_config \<Rightarrow> 's base_net
    \<Rightarrow> 'm model_registry \<Rightarrow> absl_status \<times> 's base_net \<times> 'm model_registry" where
  "base_net_init lib netname model session net r =
     (case inference_init lib netname (inference_new model session) (drop_impl net r) of
        (st, n, r) \<Rightarrow> (ConvertOldStatus st, net\<lparr>net_impl := Some n\<rparr>, r))"

definition base_net_io :: "('m, 's) engine_lib \<Rightarrow> 's base_net \<Rightarrow> net_io" where
  "base_net_io lib net = (case net_impl net of None \<Rightarrow> no_io | Some n \<Rightarrow> inference_io lib n)"

definition base_net_index :: "('s inference \<Rightarrow> string \<Rightarrow> nat) \<Rightarrow> 's base_net \<Rightarrow> string \<Rightarrow> nat" where
  "base_net_index f net name = (case net_impl net of None \<Rightarrow> 0 | Some n \<Rightarrow> f n name)"

text \<open>\<open>None\<close>: a null pointer is followed.\<close>

definition base_net_run :: "('m, 's) engine_lib \<Rightarrow> 'm model_registry \<Rightarrow> 's base_net \<Rightarrow> (absl_status \<times> 's base_net) option" where
  "base_net_run lib r net =
     (case net_impl net of
        None \<Rightarrow> Some (AbslUnknown ''unhnown'', net)
      | Some n \<Rightarrow> (case inference_run lib r n of
          None \<Rightarrow> None
        | Some (st, n) \<Rightarrow> Some (ConvertOldStatus st, net\<lparr>net_impl := Some n\<rparr>)))"

section \<open>CalculatorBaseNet\<close>

text \<open>\<open>cn_io\<close>: the category, blobs and tensors the calculator has copied, \<open>None\<close> before.\<close>

record 's calc_net =
  cn_net :: "'s base_net option"
  cn_io :: "net_io option"

definition new_calc_net :: "'s calc_net" where
  "new_calc_net = \<lparr>cn_net = None, cn_io = None\<rparr>"

text \<open>The destructor, with the deleter of the network.\<close>

definition calc_net_delete :: "'s calc_net option \<Rightarrow> 'm model_registry \<Rightarrow> 'm model_registry" where
  "calc_net_delete cn r = (case cn of None \<Rightarrow> r | Some c \<Rightarrow> (case cn_net c of None \<Rightarrow> r | Some net \<Rightarrow> drop_impl net r))"

definition calc_net_init :: "('m, 's) engine_lib \<Rightarrow> node_config \<Rightarrow> 's calc_net \<Rightarrow> 'm model_registry
    \<Rightarrow> absl_status \<times> 's calc_net \<times> 'm model_registry" where
  "calc_net_init lib node c r0 =
     (case node of (model, session, algo) \<Rightarrow>
        (case cn_net c of
           None \<Rightarrow> (AbslInternal ''failure'', c, r0)
         | Some net0 \<Rightarrow>
             (let net1 = (if has_param algo then SetAlgoParams ''algo_param_json'' (algo_param algo) net0 else net0)
              in case base_net_init lib (net_unique_id algo) model session net1 r0 of
                   (st, net, r) \<Rightarrow>
                     (if st \<noteq> AbslOk then (st, c\<lparr>cn_net := Some net\<rparr>, r)
                      else (AbslOk, c\<lparr>cn_net := Some net, cn_io := Some (base_net_io lib net)\<rparr>, r)))))"

text \<open>
  The class of a network calls this first and then sets its own shapes from the tensors;
  \<open>shapes\<close> is the status that part returns.
\<close>

definition class_net_init :: "('m, 's) engine_lib \<Rightarrow> (net_io \<Rightarrow> absl_status) \<Rightarrow> node_config \<Rightarrow> 's calc_net \<Rightarrow> 'm model_registry
    \<Rightarrow> absl_status \<times> 's calc_net \<times> 'm model_registry" where
  "class_net_init lib shapes node c r0 =
     (case calc_net_init lib node c r0 of
        (st, c, r) \<Rightarrow> (if st \<noteq> AbslOk then st else (case cn_io c of None \<Rightarrow> st | Some io \<Rightarrow> shapes io), c, r))"

section \<open>Services\<close>

text \<open>\<open>'g\<close>: the graphs, \<open>'cam\<close>: the cameras.\<close>

record ('g, 'cam) graph_services =
  pipelineconfig :: "'g \<rightharpoonup> global_shared_config"
  service_cameras :: 'cam

definition SavePipelineConfig :: "'g \<Rightarrow> global_shared_config \<Rightarrow> 'cam \<Rightarrow> ('g, 'cam) graph_services \<Rightarrow> ('g, 'cam) graph_services" where
  "SavePipelineConfig g config cams sv = sv\<lparr>pipelineconfig := (pipelineconfig sv)(g \<mapsto> config), service_cameras := cams\<rparr>"

definition shared_nodes :: "global_shared_config \<Rightarrow> (string \<times> node_config) list" where
  "shared_nodes config = zip (netalgo_model_name config) (netalgo_configs config)"

definition take_param :: "string \<Rightarrow> string \<times> node_config \<Rightarrow> string \<Rightarrow> string" where
  "take_param node_name e params =
     (case e of (name, m, s, algo) \<Rightarrow> if name = node_name \<and> has_param algo then algo_param algo else params)"

definition GetPipelineNodeAlgoParam :: "('g, 'cam) graph_services \<Rightarrow> 'g \<Rightarrow> string \<Rightarrow> string" where
  "GetPipelineNodeAlgoParam sv g node_name =
     (case pipelineconfig sv g of
        None \<Rightarrow> []
      | Some config \<Rightarrow> fold (take_param node_name) (shared_nodes config) [])"

text \<open>The loop over the models of the graph. \<open>net_made\<close>: the engine returns a new \<open>BaseNetAlgo\<close>, not null.\<close>

fun create_nets :: "('m, 's) engine_lib \<Rightarrow> (net_io \<Rightarrow> absl_status) \<Rightarrow> bool \<Rightarrow> string \<Rightarrow> (string \<times> node_config) list \<Rightarrow> 's calc_net option
    \<Rightarrow> 'm model_registry \<Rightarrow> 's calc_net option \<times> 'm model_registry" where
  "create_nets lib shapes net_made node_name [] handle r = (handle, r)"
| "create_nets lib shapes net_made node_name ((name, node) # es) handle r =
     (if name \<noteq> node_name then create_nets lib shapes net_made node_name es handle r
      else if \<not> net_made then (Some new_calc_net, calc_net_delete handle r)
      else (case class_net_init lib shapes node (new_calc_net\<lparr>cn_net := Some new_base_net\<rparr>) (calc_net_delete handle r) of
              (st, c, r) \<Rightarrow>
                (if st \<noteq> AbslOk then (None, calc_net_delete (Some c) r)
                 else create_nets lib shapes net_made node_name es (Some c) r)))"

definition CreateNetAlgoBase :: "('m, 's) engine_lib \<Rightarrow> (net_io \<Rightarrow> absl_status) \<Rightarrow> bool \<Rightarrow> ('g, 'cam) graph_services \<Rightarrow> 'g \<Rightarrow> string
    \<Rightarrow> 'm model_registry \<Rightarrow> 's calc_net option \<times> 'm model_registry" where
  "CreateNetAlgoBase lib shapes net_made sv g node_name r =
     (case pipelineconfig sv g of
        None \<Rightarrow> (None, r)
      | Some config \<Rightarrow> create_nets lib shapes net_made node_name (shared_nodes config) None r)"

section \<open>Parameters of a node\<close>

lemma take_params_other:
  "node_name \<notin> fst ` set es \<Longrightarrow> fold (take_param node_name) es p = p"
  by (induction es arbitrary: p) (auto simp: take_param_def split: prod.splits)

text \<open>A node whose name is unique gets its own parameters, and none without the flag.\<close>

lemma node_param:
  assumes "pipelineconfig sv g = Some config" and "distinct (map fst (shared_nodes config))"
    and "(node_name, m, s, algo) \<in> set (shared_nodes config)"
  shows "GetPipelineNodeAlgoParam sv g node_name = (if has_param algo then algo_param algo else [])"
proof -
  from assms(3) obtain xs ys where es: "shared_nodes config = xs @ (node_name, m, s, algo) # ys" by (meson split_list)
  with assms(2) have out: "node_name \<notin> fst ` set xs" "node_name \<notin> fst ` set ys" by auto
  show ?thesis
    by (simp add: GetPipelineNodeAlgoParam_def assms(1) es take_params_other out) (simp add: take_param_def)
qed

lemma saved_config:
  "pipelineconfig (SavePipelineConfig g config cams sv) g' = (if g' = g then Some config else pipelineconfig sv g')"
  by (simp add: SavePipelineConfig_def)

section \<open>Networks that can be run\<close>

definition calc_inferences :: "'s calc_net option \<Rightarrow> 's inference list" where
  "calc_inferences cn = (case cn of None \<Rightarrow> [] | Some c \<Rightarrow>
     (case cn_net c of None \<Rightarrow> [] | Some net \<Rightarrow> (case net_impl net of None \<Rightarrow> [] | Some n \<Rightarrow> [n])))"

definition runnable :: "('m, 's) engine_lib \<Rightarrow> 's calc_net \<Rightarrow> bool" where
  "runnable lib c = (case cn_net c of None \<Rightarrow> False | Some net \<Rightarrow>
     (case net_impl net of None \<Rightarrow> False | Some n \<Rightarrow>
        inf_model n \<noteq> None \<and> inf_session n \<noteq> None \<and> cn_io c = Some (inference_io lib n)))"

lemma inference_init_success:
  assumes "inference_init lib key n0 r = (StSuccess, n, r')"
  shows "inf_model n \<noteq> None \<and> inf_session n \<noteq> None"
  using assms by (auto simp: inference_init_def Let_def split: option.splits prod.splits)

lemma calc_net_init_new:
  assumes "calc_net_init lib (m, s, algo) (new_calc_net\<lparr>cn_net := Some new_base_net\<rparr>) r = (st, c, r')"
  obtains n st0 where "inference_init lib (net_unique_id algo) (inference_new m s) r = (st0, n, r')"
    "st = ConvertOldStatus st0" "calc_inferences (Some c) = [n]" "st = AbslOk \<longrightarrow> runnable lib c"
proof -
  obtain st0 n r1 where i: "inference_init lib (net_unique_id algo) (inference_new m s) r = (st0, n, r1)"
    by (metis prod_cases3)
  show ?thesis
    using assms i inference_init_success [of lib "net_unique_id algo" "inference_new m s" r n r1]
    by (intro that [of st0 n])
      (auto simp: calc_net_init_def base_net_init_def drop_impl_def new_calc_net_def new_base_net_def SetAlgoParams_def
        calc_inferences_def runnable_def base_net_io_def ConvertOldStatus_ok Let_def split: if_splits)
qed

lemma class_net_init_new:
  assumes "class_net_init lib shapes (m, s, algo) (new_calc_net\<lparr>cn_net := Some new_base_net\<rparr>) r = (st, c, r')"
  obtains n st0 where "inference_init lib (net_unique_id algo) (inference_new m s) r = (st0, n, r')"
    "calc_inferences (Some c) = [n]" "st = AbslOk \<longrightarrow> runnable lib c"
proof -
  obtain st1 where c: "calc_net_init lib (m, s, algo) (new_calc_net\<lparr>cn_net := Some new_base_net\<rparr>) r = (st1, c, r')"
    and st: "st = (if st1 \<noteq> AbslOk then st1 else (case cn_io c of None \<Rightarrow> st1 | Some io \<Rightarrow> shapes io))"
    using assms by (auto simp: class_net_init_def split: prod.splits)
  from c show ?thesis by (rule calc_net_init_new) (use st in \<open>auto intro!: that split: if_splits\<close>)
qed

lemma engine_inv_remove_at:
  assumes "engine_inv (ns @ n # ns') r"
  shows "engine_inv (ns @ ns') (inference_delete n r)"
  using engine_inv_delete [OF assms, of "length ns"] by simp

lemma calc_net_delete_inv:
  assumes "engine_inv (ns @ calc_inferences cn) r"
  shows "engine_inv ns (calc_net_delete cn r)"
  using assms engine_inv_remove_at [of ns _ "[]" r]
  by (auto simp: calc_inferences_def calc_net_delete_def drop_impl_def split: option.splits)

lemma create_nets_inv:
  assumes "engine_inv (ns @ calc_inferences handle) r"
    and "handle \<noteq> None \<longrightarrow> runnable lib (the handle)"
    and "create_nets lib shapes net_made node_name es handle r = (handle', r')"
  shows "engine_inv (ns @ calc_inferences handle') r' \<and> (net_made \<and> handle' \<noteq> None \<longrightarrow> runnable lib (the handle'))"
  using assms
proof (induction lib shapes net_made node_name es handle r rule: create_nets.induct)
  case (2 lib shapes net_made node_name name node es handle r)
  have del: "engine_inv ns (calc_net_delete handle r)" by (rule calc_net_delete_inv [OF "2.prems"(1)])
  show ?case
  proof (cases "name \<noteq> node_name")
    case True
    with "2.IH"(1) "2.prems" show ?thesis by simp
  next
    case name: False
    show ?thesis
    proof (cases net_made)
      case False
      with name "2.prems"(3) del show ?thesis by (auto simp: calc_inferences_def new_calc_net_def)
    next
      case made: True
      obtain m s algo where node: "node = (m, s, algo)" by (metis prod_cases3)
      obtain st c r1 where c: "class_net_init lib shapes node (new_calc_net\<lparr>cn_net := Some new_base_net\<rparr>) (calc_net_delete handle r) = (st, c, r1)"
        by (metis prod_cases3)
      obtain n st0 where n: "inference_init lib (net_unique_id algo) (inference_new m s) (calc_net_delete handle r) = (st0, n, r1)"
        "calc_inferences (Some c) = [n]" "st = AbslOk \<longrightarrow> runnable lib c"
        using class_net_init_new [OF c [unfolded node]] by metis
      have inv: "engine_inv (ns @ calc_inferences (Some c)) r1" unfolding n(2) by (rule engine_inv_init [OF del n(1)])
      show ?thesis
      proof (cases "st = AbslOk")
        case True
        then show ?thesis using "2.IH"(2) [OF _ _ c [symmetric] refl] "2.prems"(3) name made c inv n(3) by simp
      next
        case False
        with "2.prems"(3) name made c have "handle' = None" "r' = calc_net_delete (Some c) r1" by simp_all
        with calc_net_delete_inv [OF inv] show ?thesis by (simp add: calc_inferences_def)
      qed
    qed
  qed
qed simp

text \<open>
  What the services hand out: the registry counts exactly the new network, if there is one, and a
  network that the engine made can be run and shows its tensors.
\<close>

lemma created_net_runs:
  assumes "engine_inv ns r" and "CreateNetAlgoBase lib shapes net_made sv g node_name r = (handle, r')"
  shows "engine_inv (ns @ calc_inferences handle) r' \<and>
    (net_made \<and> handle \<noteq> None \<longrightarrow>
      (\<exists>net. cn_net (the handle) = Some net \<and> base_net_run lib r' net \<noteq> None \<and> cn_io (the handle) = Some (base_net_io lib net)))"
proof (cases "pipelineconfig sv g")
  case None
  with assms show ?thesis by (auto simp: CreateNetAlgoBase_def calc_inferences_def)
next
  case (Some config)
  with assms(2) have c: "create_nets lib shapes net_made node_name (shared_nodes config) None r = (handle, r')"
    by (simp add: CreateNetAlgoBase_def)
  have inv: "engine_inv (ns @ calc_inferences handle) r'" "net_made \<and> handle \<noteq> None \<longrightarrow> runnable lib (the handle)"
    using create_nets_inv [of ns None r lib shapes, OF _ _ c] assms(1) by (simp_all add: calc_inferences_def)
  have "\<exists>net. cn_net c = Some net \<and> base_net_run lib r' net \<noteq> None \<and> cn_io c = Some (base_net_io lib net)"
    if "runnable lib c" for c
    using that by (auto simp: runnable_def base_net_run_def base_net_io_def inference_run_def split: option.splits prod.splits)
  with inv show ?thesis by blast
qed

text \<open>If the engine makes no network, the calculator gets a handle without one and takes it for good.\<close>

lemma null_net_handed_out:
  assumes "pipelineconfig sv g = Some config" and "node_name \<in> fst ` set (shared_nodes config)"
  shows "\<exists>r'. CreateNetAlgoBase lib shapes False sv g node_name r = (Some new_calc_net, r') \<and> cn_net new_calc_net = None"
proof -
  have "\<exists>r'. create_nets lib shapes False node_name es h r = (Some new_calc_net, r')" if "node_name \<in> fst ` set es" for es h
    using that
  proof (induction es)
    case (Cons e es)
    then show ?case by (cases e; cases "fst e = node_name") simp_all
  qed simp
  then show ?thesis using assms by (simp add: CreateNetAlgoBase_def new_calc_net_def)
qed

end
